(* ===== verification/Hab_Prelude.thy ===== *)
theory Hab_Prelude
  imports Main "HOL-Library.Word" "HOL-Library.Monad_Syntax"
begin

unbundle bit_operations_syntax

text \<open>
  Shared vocabulary of the development: the machine integer types of the C code, the Linux error
  numbers it returns, little-endian byte images of integers, and the list operations behind the
  kernel's intrusive lists.  Lemmas that every component uses live here, either as default simp
  rules or in one of the two collections:
  \<^item> \<open>hab_defs\<close>: definitions a symbolic evaluation of a handler unfolds;
  \<^item> \<open>list_ops\<close>: the algebra of list insertion, removal and update.

  A C function that may touch freed or NULL memory is a function into \<open>'a option\<close>: \<open>None\<close> is a
  fault, never an error code.  Such functions are composed with the \<open>do\<close> notation of
  \<open>Monad_Syntax\<close> at the option type, the driver state being passed explicitly.
\<close>

named_theorems hab_defs
named_theorems list_ops

section \<open>Machine integers and error numbers\<close>

type_synonym u8 = "8 word"
type_synonym u16 = "16 word"
type_synonym u32 = "32 word"
type_synonym u64 = "64 word"
type_synonym bytes = "8 word list"

text \<open>Linux error numbers, as the (positive) values behind the negated return codes.\<close>

abbreviation (input) ENOENT :: int where "ENOENT \<equiv> 2"
abbreviation (input) EINTR :: int where "EINTR \<equiv> 4"
abbreviation (input) EIO :: int where "EIO \<equiv> 5"
abbreviation (input) EBADF :: int where "EBADF \<equiv> 9"
abbreviation (input) EAGAIN :: int where "EAGAIN \<equiv> 11"
abbreviation (input) ENOMEM :: int where "ENOMEM \<equiv> 12"
abbreviation (input) EFAULT :: int where "EFAULT \<equiv> 14"
abbreviation (input) EBUSY :: int where "EBUSY \<equiv> 16"
abbreviation (input) ENODEV :: int where "ENODEV \<equiv> 19"
abbreviation (input) EINVAL :: int where "EINVAL \<equiv> 22"
abbreviation (input) ENXIO :: int where "ENXIO \<equiv> 6"
abbreviation (input) EPROTO :: int where "EPROTO \<equiv> 71"
abbreviation (input) EOVERFLOW :: int where "EOVERFLOW \<equiv> 75"
abbreviation (input) ETIMEDOUT :: int where "ETIMEDOUT \<equiv> 110"
abbreviation (input) ERESTARTSYS :: int where "ERESTARTSYS \<equiv> 512"
abbreviation (input) ENOIOCTLCMD :: int where "ENOIOCTLCMD \<equiv> 515"

section \<open>Little-endian byte images\<close>

definition word_to_le :: "nat \<Rightarrow> 'a::len word \<Rightarrow> bytes" where
  "word_to_le n w = map (\<lambda>i. ucast (drop_bit (8 * i) w)) [0..<n]"

primrec le_to_word :: "bytes \<Rightarrow> 'a::len word" where
  "le_to_word [] = 0"
| "le_to_word (b # bs) = ucast b OR push_bit 8 (le_to_word bs)"

lemma length_word_to_le [simp]: "length (word_to_le n w) = n"
  by (simp add: word_to_le_def)

lemma bit_le_to_word:
  "bit (le_to_word bs :: 'a::len word) k \<longleftrightarrow>
     k < LENGTH('a) \<and> k div 8 < length bs \<and> bit (bs ! (k div 8)) (k mod 8)"
proof (induction bs arbitrary: k)
  case Nil
  then show ?case by simp
next
  case (Cons b bs)
  show ?case
  proof (cases "k < 8")
    case True
    then show ?thesis
      by (auto simp: bit_or_iff bit_ucast_iff bit_push_bit_iff)
  next
    case False
    then have d: "k div 8 = Suc ((k - 8) div 8)" and m: "(k - 8) mod 8 = k mod 8"
      by (simp_all add: le_div_geq le_mod_geq)
    have "\<not> bit b k"
      using False by (auto dest: bit_imp_le_length)
    with False d m Cons.IH [of "k - 8"] show ?thesis
      by (auto simp: bit_or_iff bit_ucast_iff bit_push_bit_iff)
  qed
qed

lemma le_to_word_inverse:
  assumes "LENGTH('a::len) \<le> 8 * n"
  shows "le_to_word (word_to_le n w) = (w :: 'a word)"
proof (rule bit_word_eqI)
  fix k assume k: "k < LENGTH('a)"
  with assms have "k div 8 < n" by arith
  moreover have "8 * (k div 8) + k mod 8 = k" by simp
  ultimately show "bit (le_to_word (word_to_le n w) :: 'a word) k \<longleftrightarrow> bit w k"
    using k by (simp add: bit_le_to_word word_to_le_def bit_ucast_iff bit_drop_bit_eq)
qed

lemma le_to_word_append_zeros [simp]:
  "le_to_word (bs @ replicate n 0) = le_to_word bs"
  by (rule bit_word_eqI) (auto simp: bit_le_to_word nth_append)

section \<open>Intrusive lists\<close>

text \<open>
  \<open>list_add_tail\<close> appends, \<open>list_del\<close> removes one node.  Nodes are named by object identifiers,
  which are unique in a list, so \<open>remove1\<close> is the removal of that node.
\<close>

lemmas [list_ops] = distinct_remove1 set_remove1_eq length_remove1

lemma filter_remove1_id [list_ops]:
  "\<not> P x \<Longrightarrow> filter P (remove1 x xs) = filter P xs"
  by (induction xs) auto

lemma remove1_snoc_notin [list_ops]:
  "x \<notin> set xs \<Longrightarrow> remove1 x (xs @ [x]) = xs"
  by (induction xs) auto

text \<open>Splitting a list at its first element that satisfies a predicate.\<close>

fun take_first :: "('a \<Rightarrow> bool) \<Rightarrow> 'a list \<Rightarrow> ('a list \<times> 'a \<times> 'a list) option" where
  "take_first P [] = None"
| "take_first P (x # xs) =
     (if P x then Some ([], x, xs)
      else map_option (\<lambda>(as, y, bs). (x # as, y, bs)) (take_first P xs))"

lemma take_first_None: "take_first P xs = None \<longleftrightarrow> (\<forall>x \<in> set xs. \<not> P x)"
  by (induction xs) auto

lemma take_first_Some:
  "take_first P xs = Some (as, y, bs) \<Longrightarrow>
     xs = as @ y # bs \<and> P y \<and> (\<forall>x \<in> set as. \<not> P x)"
  by (induction xs arbitrary: as y bs) (auto split: if_splits)

lemma take_first_append:
  "\<forall>x \<in> set as. \<not> P x \<Longrightarrow> P y \<Longrightarrow> take_first P (as @ y # bs) = Some (as, y, bs)"
  by (induction as) auto

section \<open>Option monad\<close>

lemma bind_eq_Some [simp]:
  "(m \<bind> f) = Some y \<longleftrightarrow> (\<exists>x. m = Some x \<and> f x = Some y)"
  by (cases m) auto

text \<open>
  \<open>safe m Q\<close>: the operation does not fault and what it returns satisfies \<open>Q\<close>.  It passes through a
  sequence of operations step by step, so that an operation is verified by walking along its body.
\<close>

definition safe :: "'a option \<Rightarrow> ('a \<Rightarrow> bool) \<Rightarrow> bool" where
  "safe m Q = (case m of None \<Rightarrow> False | Some x \<Rightarrow> Q x)"

lemma safe_simps [simp]:
  "safe (Some x) Q = Q x" "safe None Q = False"
  "safe (m \<bind> f) Q = safe m (\<lambda>x. safe (f x) Q)"
  by (simp_all add: safe_def split: option.split bind_splits)

lemma safe_if: "safe (if b then m else m') Q = (if b then safe m Q else safe m' Q)"
  by simp

lemma safe_prod: "safe (case p of (a, b) \<Rightarrow> f a b) Q = (case p of (a, b) \<Rightarrow> safe (f a b) Q)"
  by (cases p) simp

lemma safe_ex: "safe m Q \<longleftrightarrow> (\<exists>x. m = Some x \<and> Q x)"
  by (cases m) simp_all

lemma safe_mono: "safe m Q \<Longrightarrow> (\<And>x. m = Some x \<Longrightarrow> Q x \<Longrightarrow> R x) \<Longrightarrow> safe m R"
  by (cases m) simp_all

lemma safeD: "safe m Q \<Longrightarrow> m = Some x \<Longrightarrow> Q x"
  by simp

lemma safe_conj: "safe m (\<lambda>x. Q x \<and> R x) \<longleftrightarrow> safe m Q \<and> safe m R"
  by (cases m) simp_all

end
