(* ===== verification/Hab_Proto.thy ===== *)
theory Hab_Proto
  imports Hab_Prelude
begin

text \<open>
  The wire protocol of the driver, from \<^verbatim>\<open>hab.h\<close>, \<^verbatim>\<open>include/uapi/linux/habmmid.h\<close> and
  \<^verbatim>\<open>include/linux/habmm.h\<close>: the message header with its packed type and virtual-channel
  fields, the payload types, the virtual-channel identifier, and the fixed-size structures sent
  as payloads, with their byte images on a little-endian machine.
\<close>

section \<open>Payload types\<close>

datatype hab_payload_type =
    HAB_PAYLOAD_TYPE_MSG
  | HAB_PAYLOAD_TYPE_INIT
  | HAB_PAYLOAD_TYPE_INIT_ACK
  | HAB_PAYLOAD_TYPE_INIT_DONE
  | HAB_PAYLOAD_TYPE_EXPORT
  | HAB_PAYLOAD_TYPE_EXPORT_ACK
  | HAB_PAYLOAD_TYPE_PROFILE
  | HAB_PAYLOAD_TYPE_CLOSE
  | HAB_PAYLOAD_TYPE_INIT_CANCEL
  | HAB_PAYLOAD_TYPE_SCHE_MSG
  | HAB_PAYLOAD_TYPE_SCHE_MSG_ACK
  | HAB_PAYLOAD_TYPE_SCHE_RESULT_REQ
  | HAB_PAYLOAD_TYPE_SCHE_RESULT_RSP
  | HAB_PAYLOAD_TYPE_IMPORT
  | HAB_PAYLOAD_TYPE_IMPORT_ACK
  | HAB_PAYLOAD_TYPE_IMPORT_ACK_FAIL
  | HAB_PAYLOAD_TYPE_UNIMPORT

definition payload_types :: "hab_payload_type list" where
  "payload_types =
     [HAB_PAYLOAD_TYPE_MSG, HAB_PAYLOAD_TYPE_INIT, HAB_PAYLOAD_TYPE_INIT_ACK,
      HAB_PAYLOAD_TYPE_INIT_DONE, HAB_PAYLOAD_TYPE_EXPORT, HAB_PAYLOAD_TYPE_EXPORT_ACK,
      HAB_PAYLOAD_TYPE_PROFILE, HAB_PAYLOAD_TYPE_CLOSE, HAB_PAYLOAD_TYPE_INIT_CANCEL,
      HAB_PAYLOAD_TYPE_SCHE_MSG, HAB_PAYLOAD_TYPE_SCHE_MSG_ACK,
      HAB_PAYLOAD_TYPE_SCHE_RESULT_REQ, HAB_PAYLOAD_TYPE_SCHE_RESULT_RSP,
      HAB_PAYLOAD_TYPE_IMPORT, HAB_PAYLOAD_TYPE_IMPORT_ACK,
      HAB_PAYLOAD_TYPE_IMPORT_ACK_FAIL, HAB_PAYLOAD_TYPE_UNIMPORT]"

text \<open>The enumerator's value, and back; codes from \<open>HAB_PAYLOAD_TYPE_MAX\<close> on name no type.\<close>

fun payload_code :: "hab_payload_type \<Rightarrow> u32" where
  "payload_code HAB_PAYLOAD_TYPE_MSG = 0"
| "payload_code HAB_PAYLOAD_TYPE_INIT = 1"
| "payload_code HAB_PAYLOAD_TYPE_INIT_ACK = 2"
| "payload_code HAB_PAYLOAD_TYPE_INIT_DONE = 3"
| "payload_code HAB_PAYLOAD_TYPE_EXPORT = 4"
| "payload_code HAB_PAYLOAD_TYPE_EXPORT_ACK = 5"
| "payload_code HAB_PAYLOAD_TYPE_PROFILE = 6"
| "payload_code HAB_PAYLOAD_TYPE_CLOSE = 7"
| "payload_code HAB_PAYLOAD_TYPE_INIT_CANCEL = 8"
| "payload_code HAB_PAYLOAD_TYPE_SCHE_MSG = 9"
| "payload_code HAB_PAYLOAD_TYPE_SCHE_MSG_ACK = 10"
| "payload_code HAB_PAYLOAD_TYPE_SCHE_RESULT_REQ = 11"
| "payload_code HAB_PAYLOAD_TYPE_SCHE_RESULT_RSP = 12"
| "payload_code HAB_PAYLOAD_TYPE_IMPORT = 13"
| "payload_code HAB_PAYLOAD_TYPE_IMPORT_ACK = 14"
| "payload_code HAB_PAYLOAD_TYPE_IMPORT_ACK_FAIL = 15"
| "payload_code HAB_PAYLOAD_TYPE_UNIMPORT = 16"

definition payload_of_code :: "u32 \<Rightarrow> hab_payload_type option" where
  "payload_of_code c =
     (if unat c < length payload_types then Some (payload_types ! unat c) else None)"

lemma payload_of_code_inverse [simp]: "payload_of_code (payload_code t) = Some t"
  by (cases t) (simp_all add: payload_of_code_def payload_types_def)

section \<open>The message header\<close>

record hab_header =
  hh_id_type :: u32
  hh_payload_size :: u32
  hh_session_id :: u32
  hh_signature :: u32
  hh_sequence :: u32

abbreviation (input) HAB_HEADER_TYPE_SHIFT :: nat where "HAB_HEADER_TYPE_SHIFT \<equiv> 16"
abbreviation (input) HAB_HEADER_EXT_TYPE_SHIFT :: nat where "HAB_HEADER_EXT_TYPE_SHIFT \<equiv> 0"
abbreviation (input) HAB_HEADER_ID_SHIFT :: nat where "HAB_HEADER_ID_SHIFT \<equiv> 20"
abbreviation (input) HAB_HEADER_SIZE_MAX :: nat where "HAB_HEADER_SIZE_MAX \<equiv> 0x0007D000"
abbreviation (input) HAB_HEADER_TYPE_MASK :: u32 where "HAB_HEADER_TYPE_MASK \<equiv> 0x000F0000"
abbreviation (input) HAB_HEADER_TYPE_LEN :: nat where "HAB_HEADER_TYPE_LEN \<equiv> 4"
abbreviation (input) HAB_HEADER_EXT_TYPE_MASK :: u32 where "HAB_HEADER_EXT_TYPE_MASK \<equiv> 0x0000000F"
abbreviation (input) HAB_HEADER_ID_MASK :: u32 where "HAB_HEADER_ID_MASK \<equiv> 0xFFF00000"

abbreviation (input) HAB_VCID_ID_SHIFT :: nat where "HAB_VCID_ID_SHIFT \<equiv> 0"
abbreviation (input) HAB_VCID_DOMID_SHIFT :: nat where "HAB_VCID_DOMID_SHIFT \<equiv> 12"
abbreviation (input) HAB_VCID_MMID_SHIFT :: nat where "HAB_VCID_MMID_SHIFT \<equiv> 20"
abbreviation (input) HAB_VCID_ID_MASK :: u32 where "HAB_VCID_ID_MASK \<equiv> 0x00000FFF"
abbreviation (input) HAB_VCID_DOMID_MASK :: u32 where "HAB_VCID_DOMID_MASK \<equiv> 0x000FF000"
abbreviation (input) HAB_VCID_MMID_MASK :: u32 where "HAB_VCID_MMID_MASK \<equiv> 0xFFF00000"

abbreviation (input) HAB_HEAD_SIGNATURE :: u32 where "HAB_HEAD_SIGNATURE \<equiv> 0xBEE1BEE1"
abbreviation (input) HAB_VCID_UNIMPORT :: u32 where "HAB_VCID_UNIMPORT \<equiv> 1"
abbreviation (input) HAB_SESSIONID_UNIMPORT :: u32 where "HAB_SESSIONID_UNIMPORT \<equiv> 1"
abbreviation (input) HAB_VER_PROT :: u32 where "HAB_VER_PROT \<equiv> 1"

definition HAB_HEADER_INITIALIZER :: hab_header where
  "HAB_HEADER_INITIALIZER =
     \<lparr>hh_id_type = 0, hh_payload_size = 0, hh_session_id = 0, hh_signature = 0,
      hh_sequence = 0\<rparr>"

definition HAB_VCID_GET_ID :: "u32 \<Rightarrow> u32" where
  "HAB_VCID_GET_ID vcid = drop_bit HAB_VCID_ID_SHIFT (vcid AND HAB_VCID_ID_MASK)"

definition HAB_HEADER_SET_SESSION_ID :: "u32 \<Rightarrow> hab_header \<Rightarrow> hab_header" where
  "HAB_HEADER_SET_SESSION_ID sid h = h\<lparr>hh_session_id := sid\<rparr>"

definition HAB_HEADER_SET_SIZE :: "u32 \<Rightarrow> hab_header \<Rightarrow> hab_header" where
  "HAB_HEADER_SET_SIZE sz h = h\<lparr>hh_payload_size := sz\<rparr>"

definition HAB_HEADER_SET_TYPE :: "u32 \<Rightarrow> hab_header \<Rightarrow> hab_header" where
  "HAB_HEADER_SET_TYPE t h = h\<lparr>hh_id_type :=
     (hh_id_type h AND NOT (HAB_HEADER_TYPE_MASK OR HAB_HEADER_EXT_TYPE_MASK)) OR
     (push_bit HAB_HEADER_TYPE_SHIFT t AND HAB_HEADER_TYPE_MASK) OR
     (push_bit HAB_HEADER_EXT_TYPE_SHIFT (drop_bit HAB_HEADER_TYPE_LEN t)
        AND HAB_HEADER_EXT_TYPE_MASK)\<rparr>"

definition HAB_HEADER_SET_ID :: "u32 \<Rightarrow> hab_header \<Rightarrow> hab_header" where
  "HAB_HEADER_SET_ID i h = h\<lparr>hh_id_type :=
     (hh_id_type h AND NOT HAB_HEADER_ID_MASK) OR
     (push_bit HAB_HEADER_ID_SHIFT (HAB_VCID_GET_ID i) AND HAB_HEADER_ID_MASK)\<rparr>"

definition HAB_HEADER_GET_SIZE :: "hab_header \<Rightarrow> u32" where
  "HAB_HEADER_GET_SIZE h = hh_payload_size h"

definition HAB_HEADER_GET_TYPE :: "hab_header \<Rightarrow> u32" where
  "HAB_HEADER_GET_TYPE h =
     drop_bit HAB_HEADER_TYPE_SHIFT (hh_id_type h AND HAB_HEADER_TYPE_MASK) OR
     push_bit HAB_HEADER_TYPE_LEN (hh_id_type h AND HAB_HEADER_EXT_TYPE_MASK)"

definition HAB_HEADER_GET_ID :: "hab_header \<Rightarrow> u32" where
  "HAB_HEADER_GET_ID h =
     drop_bit (HAB_HEADER_ID_SHIFT - HAB_VCID_ID_SHIFT) (hh_id_type h AND HAB_HEADER_ID_MASK)
       AND HAB_VCID_ID_MASK"

definition HAB_HEADER_GET_SESSION_ID :: "hab_header \<Rightarrow> u32" where
  "HAB_HEADER_GET_SESSION_ID h = hh_session_id h"

subsection \<open>The masks as bit ranges\<close>

text \<open>
  Every mask is a contiguous run of ones.  With the masks read as ranges, statements about the
  packed fields are decided bit by bit.
\<close>

lemma field_masks:
  "HAB_HEADER_TYPE_MASK = push_bit 16 (mask 4)"
  "HAB_HEADER_EXT_TYPE_MASK = mask 4"
  "HAB_HEADER_ID_MASK = push_bit 20 (mask 12)"
  "HAB_VCID_ID_MASK = mask 12"
  "HAB_VCID_DOMID_MASK = push_bit 12 (mask 8)"
  "(0xFF :: u32) = mask 8"
  by (simp_all add: mask_eq_exp_minus_1 push_bit_eq_mult)

lemma GET_ID_SET_TYPE:
  "HAB_HEADER_GET_ID (HAB_HEADER_SET_TYPE t h) = HAB_HEADER_GET_ID h"
  unfolding HAB_HEADER_GET_ID_def HAB_HEADER_SET_TYPE_def hab_header.simps field_masks
  by (rule bit_word_eqI) (auto simp: bit_simps)

lemma GET_TYPE_SET_TYPE:
  "HAB_HEADER_GET_TYPE (HAB_HEADER_SET_TYPE t h) = t AND 0xFF"
  unfolding HAB_HEADER_GET_TYPE_def HAB_HEADER_SET_TYPE_def hab_header.simps field_masks
proof (rule bit_word_eqI, goal_cases)
  case (1 n)
  consider "n < 4" | "4 \<le> n" "n < 8" | "8 \<le> n" by linarith
  then show ?case by cases (auto simp: bit_simps)
qed

lemma GET_ID_SET_ID:
  "HAB_HEADER_GET_ID (HAB_HEADER_SET_ID i h) = HAB_VCID_GET_ID i"
  unfolding HAB_HEADER_GET_ID_def HAB_HEADER_SET_ID_def hab_header.simps HAB_VCID_GET_ID_def field_masks
  by (rule bit_word_eqI) (auto simp: bit_simps)

lemma GET_TYPE_SET_ID:
  "HAB_HEADER_GET_TYPE (HAB_HEADER_SET_ID i h) = HAB_HEADER_GET_TYPE h"
  unfolding HAB_HEADER_GET_TYPE_def HAB_HEADER_SET_ID_def hab_header.simps HAB_VCID_GET_ID_def field_masks
  by (rule bit_word_eqI) (auto simp: bit_simps)

lemma GET_TYPE_simps [simp]:
  "HAB_HEADER_GET_TYPE (HAB_HEADER_SET_SIZE n h) = HAB_HEADER_GET_TYPE h"
  "HAB_HEADER_GET_TYPE (HAB_HEADER_SET_SESSION_ID i h) = HAB_HEADER_GET_TYPE h"
  by (simp_all add: HAB_HEADER_GET_TYPE_def HAB_HEADER_SET_SIZE_def
      HAB_HEADER_SET_SESSION_ID_def)

lemma GET_ID_simps [simp]:
  "HAB_HEADER_GET_ID (HAB_HEADER_SET_SIZE n h) = HAB_HEADER_GET_ID h"
  "HAB_HEADER_GET_ID (HAB_HEADER_SET_SESSION_ID i h) = HAB_HEADER_GET_ID h"
  by (simp_all add: HAB_HEADER_GET_ID_def HAB_HEADER_SET_SIZE_def
      HAB_HEADER_SET_SESSION_ID_def)

lemma GET_SIZE_simps [simp]:
  "HAB_HEADER_GET_SIZE (HAB_HEADER_SET_SIZE n h) = n"
  "HAB_HEADER_GET_SIZE (HAB_HEADER_SET_TYPE t h) = HAB_HEADER_GET_SIZE h"
  "HAB_HEADER_GET_SIZE (HAB_HEADER_SET_ID i h) = HAB_HEADER_GET_SIZE h"
  "HAB_HEADER_GET_SIZE (HAB_HEADER_SET_SESSION_ID i h) = HAB_HEADER_GET_SIZE h"
  by (simp_all add: HAB_HEADER_GET_SIZE_def HAB_HEADER_SET_SIZE_def HAB_HEADER_SET_TYPE_def
      HAB_HEADER_SET_ID_def HAB_HEADER_SET_SESSION_ID_def)

lemma GET_SESSION_ID_simps [simp]:
  "HAB_HEADER_GET_SESSION_ID (HAB_HEADER_SET_SESSION_ID i h) = i"
  "HAB_HEADER_GET_SESSION_ID (HAB_HEADER_SET_SIZE n h) = HAB_HEADER_GET_SESSION_ID h"
  "HAB_HEADER_GET_SESSION_ID (HAB_HEADER_SET_TYPE t h) = HAB_HEADER_GET_SESSION_ID h"
  "HAB_HEADER_GET_SESSION_ID (HAB_HEADER_SET_ID j h) = HAB_HEADER_GET_SESSION_ID h"
  by (simp_all add: HAB_HEADER_GET_SESSION_ID_def HAB_HEADER_SET_SIZE_def
      HAB_HEADER_SET_TYPE_def HAB_HEADER_SET_ID_def HAB_HEADER_SET_SESSION_ID_def)

text \<open>No payload type needs more than the eight bits the header keeps of it.\<close>

lemma payload_code_low [simp]: "payload_code t AND 0xFF = payload_code t"
  by (cases t) simp_all

lemmas header_get_set [simp] =
  GET_ID_SET_TYPE GET_TYPE_SET_TYPE GET_ID_SET_ID GET_TYPE_SET_ID

text \<open>
  The header every sender of the driver builds: \<open>HAB_HEADER_SET_SIZE\<close>, \<open>_TYPE\<close>, \<open>_ID\<close> and
  \<open>_SESSION_ID\<close> applied to the initializer in this order.
\<close>

definition mk_header :: "nat \<Rightarrow> hab_payload_type \<Rightarrow> u32 \<Rightarrow> u32 \<Rightarrow> hab_header" where
  "mk_header sz t vcid sid =
     HAB_HEADER_SET_SESSION_ID sid
       (HAB_HEADER_SET_ID vcid
         (HAB_HEADER_SET_TYPE (payload_code t)
           (HAB_HEADER_SET_SIZE (of_nat sz) HAB_HEADER_INITIALIZER)))"

lemma mk_header_simps [simp]:
  "HAB_HEADER_GET_SIZE (mk_header sz t vcid sid) = of_nat sz"
  "HAB_HEADER_GET_TYPE (mk_header sz t vcid sid) = payload_code t"
  "HAB_HEADER_GET_ID (mk_header sz t vcid sid) = HAB_VCID_GET_ID vcid"
  "HAB_HEADER_GET_SESSION_ID (mk_header sz t vcid sid) = sid"
  by (simp_all add: mk_header_def)

subsection \<open>Multimedia and virtual-channel identifiers\<close>

definition HAB_MMID_CREATE :: "u32 \<Rightarrow> u32 \<Rightarrow> u32" where
  "HAB_MMID_CREATE major minor = (major AND 0xFFFF) OR push_bit 16 (minor AND 0xFF)"

definition HAB_MMID_GET_MAJOR :: "u32 \<Rightarrow> u32" where
  "HAB_MMID_GET_MAJOR mmid = mmid AND 0xFFFF"

definition HAB_MMID_GET_MINOR :: "u32 \<Rightarrow> u32" where
  "HAB_MMID_GET_MINOR mmid = drop_bit 16 mmid AND 0xFF"

definition HAB_API_VER :: u32 where
  "HAB_API_VER = push_bit 16 ((1 :: u32) AND 0xFF) OR (0 AND 0xFFF)"

text \<open>The identifier \<^verbatim>\<open>hab_vchan_alloc\<close> composes from the idr slot, the device and the domain.\<close>

definition vcid_compose :: "u32 \<Rightarrow> u32 \<Rightarrow> u32 \<Rightarrow> u32" where
  "vcid_compose i mmid domid =
     (push_bit HAB_VCID_ID_SHIFT i AND HAB_VCID_ID_MASK) OR
     (push_bit HAB_VCID_MMID_SHIFT mmid AND HAB_VCID_MMID_MASK) OR
     (push_bit HAB_VCID_DOMID_SHIFT domid AND HAB_VCID_DOMID_MASK)"

lemma HAB_VCID_GET_ID_compose [simp]:
  "HAB_VCID_GET_ID (vcid_compose i mmid domid) = i AND HAB_VCID_ID_MASK"
  unfolding HAB_VCID_GET_ID_def vcid_compose_def field_masks
  by (rule bit_word_eqI) (auto simp: bit_simps)

lemma vcid_id_small: "unat i \<le> 4095 \<Longrightarrow> i AND HAB_VCID_ID_MASK = (i :: u32)"
proof -
  assume "unat i \<le> 4095"
  then have "unat (take_bit 12 i) = unat i"
    by (simp add: unsigned_take_bit_eq take_bit_nat_eq_self)
  then have "take_bit 12 i = i"
    by (rule unsigned_word_eqI)
  then show ?thesis
    unfolding field_masks by (simp add: take_bit_eq_mask)
qed

end
