(* ===== verification/Hab_Wire.thy ===== *)
theory Hab_Wire
  imports Hab_Proto
begin

text \<open>
  Byte images of the structures that cross the channel, as a little-endian machine lays them out
  (\<^verbatim>\<open>hab.h\<close>, \<^verbatim>\<open>hab_grantable.h\<close>).  The locale \<open>wire_codec\<close> is the contract of such an image:
  a fixed size, and a decoder that recovers the value whatever follows it in the buffer.  Each
  structure interprets it.
\<close>

section \<open>The contract of a fixed-size image\<close>

locale wire_codec =
  fixes enc :: "'a \<Rightarrow> bytes" and dec :: "bytes \<Rightarrow> 'a" and sz :: nat
  assumes enc_length: "length (enc x) = sz"
    and dec_enc: "dec (enc x @ rest) = x"
begin

lemma dec_enc_exact: "dec (enc x) = x"
  using dec_enc [of x "[]"] by simp

lemma enc_inject: "enc x = enc y \<longleftrightarrow> x = y"
  using dec_enc_exact by metis

lemma take_enc: "take sz (enc x @ rest) = enc x"
  by (simp add: enc_length)

lemma drop_enc: "drop sz (enc x @ rest) = rest"
  by (simp add: enc_length)

end

section \<open>Fields\<close>

abbreviation le32 :: "u32 \<Rightarrow> bytes" where "le32 \<equiv> word_to_le 4"
abbreviation le64 :: "u64 \<Rightarrow> bytes" where "le64 \<equiv> word_to_le 8"

definition field32 :: "nat \<Rightarrow> bytes \<Rightarrow> u32" where
  "field32 off bs = le_to_word (take 4 (drop off bs))"

definition field64 :: "nat \<Rightarrow> bytes \<Rightarrow> u64" where
  "field64 off bs = le_to_word (take 8 (drop off bs))"

lemma le32_inverse [simp]: "le_to_word (le32 w) = w"
  by (simp add: le_to_word_inverse)

lemma le64_inverse [simp]: "le_to_word (le64 w) = w"
  by (simp add: le_to_word_inverse)

lemma field_here [simp]:
  "field32 0 (le32 w @ bs) = w"
  "field64 0 (le64 v @ bs) = v"
  by (simp_all add: field32_def field64_def)

lemma field_skip [simp]:
  "length xs \<le> off \<Longrightarrow> field32 off (xs @ bs) = field32 (off - length xs) bs"
  "length xs \<le> off \<Longrightarrow> field64 off (xs @ bs) = field64 (off - length xs) bs"
  by (simp_all add: field32_def field64_def)

section \<open>Open request data\<close>

record hab_open_send_data =
  od_vchan_id :: u32
  od_sub_id :: u32
  od_open_id :: u32
  od_ver_fe :: u32
  od_ver_be :: u32
  od_ver_proto :: u32

abbreviation (input) open_data_size :: nat where "open_data_size \<equiv> 24"

definition open_data_zero :: hab_open_send_data where
  "open_data_zero = \<lparr>od_vchan_id = 0, od_sub_id = 0, od_open_id = 0, od_ver_fe = 0,
     od_ver_be = 0, od_ver_proto = 0\<rparr>"

definition enc_open_data :: "hab_open_send_data \<Rightarrow> bytes" where
  "enc_open_data d =
     le32 (od_vchan_id d) @ le32 (od_sub_id d) @ le32 (od_open_id d) @
     le32 (od_ver_fe d) @ le32 (od_ver_be d) @ le32 (od_ver_proto d)"

definition dec_open_data :: "bytes \<Rightarrow> hab_open_send_data" where
  "dec_open_data bs = \<lparr>od_vchan_id = field32 0 bs, od_sub_id = field32 4 bs,
     od_open_id = field32 8 bs, od_ver_fe = field32 12 bs, od_ver_be = field32 16 bs,
     od_ver_proto = field32 20 bs\<rparr>"

interpretation open_codec: wire_codec enc_open_data dec_open_data open_data_size
  by unfold_locales (simp_all add: enc_open_data_def dec_open_data_def)

section \<open>Export and import acknowledgements, import requests\<close>

record hab_export_ack =
  ea_export_id :: u32
  ea_vcid_local :: u32
  ea_vcid_remote :: u32

abbreviation (input) export_ack_size :: nat where "export_ack_size \<equiv> 12"

definition enc_export_ack :: "hab_export_ack \<Rightarrow> bytes" where
  "enc_export_ack a = le32 (ea_export_id a) @ le32 (ea_vcid_local a) @ le32 (ea_vcid_remote a)"

definition dec_export_ack :: "bytes \<Rightarrow> hab_export_ack" where
  "dec_export_ack bs = \<lparr>ea_export_id = field32 0 bs, ea_vcid_local = field32 4 bs,
     ea_vcid_remote = field32 8 bs\<rparr>"

interpretation export_ack_codec: wire_codec enc_export_ack dec_export_ack export_ack_size
  by unfold_locales (simp_all add: enc_export_ack_def dec_export_ack_def)

record hab_import_data =
  id_exp_id :: u32
  id_page_cnt :: u32
  id_reserved :: u32

abbreviation (input) import_data_size :: nat where "import_data_size \<equiv> 12"

definition enc_import_data :: "hab_import_data \<Rightarrow> bytes" where
  "enc_import_data d = le32 (id_exp_id d) @ le32 (id_page_cnt d) @ le32 (id_reserved d)"

definition dec_import_data :: "bytes \<Rightarrow> hab_import_data" where
  "dec_import_data bs = \<lparr>id_exp_id = field32 0 bs, id_page_cnt = field32 4 bs,
     id_reserved = field32 8 bs\<rparr>"

interpretation import_data_codec: wire_codec enc_import_data dec_import_data import_data_size
  by unfold_locales (simp_all add: enc_import_data_def dec_import_data_def)

definition enc_u32 :: "u32 \<Rightarrow> bytes" where
  "enc_u32 w = le32 w"

definition dec_u32 :: "bytes \<Rightarrow> u32" where
  "dec_u32 bs = field32 0 bs"

interpretation u32_codec: wire_codec enc_u32 dec_u32 4
  by unfold_locales (simp_all add: enc_u32_def dec_u32_def)

section \<open>The packed message header\<close>

abbreviation (input) header_size :: nat where "header_size \<equiv> 20"

definition enc_header :: "hab_header \<Rightarrow> bytes" where
  "enc_header h = le32 (hh_id_type h) @ le32 (hh_payload_size h) @ le32 (hh_session_id h) @
     le32 (hh_signature h) @ le32 (hh_sequence h)"

definition dec_header :: "bytes \<Rightarrow> hab_header" where
  "dec_header bs = \<lparr>hh_id_type = field32 0 bs, hh_payload_size = field32 4 bs,
     hh_session_id = field32 8 bs, hh_signature = field32 12 bs, hh_sequence = field32 16 bs\<rparr>"

interpretation header_codec: wire_codec enc_header dec_header header_size
  by unfold_locales (simp_all add: enc_header_def dec_header_def)

section \<open>Compressed page frame numbers\<close>

record region =
  rg_size :: u32
  rg_space :: u32

abbreviation (input) region_size :: nat where "region_size \<equiv> 8"

definition enc_region :: "region \<Rightarrow> bytes" where
  "enc_region r = le32 (rg_size r) @ le32 (rg_space r)"

definition dec_region :: "bytes \<Rightarrow> region" where
  "dec_region bs = \<lparr>rg_size = field32 0 bs, rg_space = field32 4 bs\<rparr>"

interpretation region_codec: wire_codec enc_region dec_region region_size
  by unfold_locales (simp_all add: enc_region_def dec_region_def)

record compressed_pfns =
  cp_first_pfn :: u64
  cp_nregions :: u32
  cp_region :: "region list"

text \<open>\<^verbatim>\<open>sizeof(struct compressed_pfns)\<close> is 16, while the flexible array starts at offset 12.\<close>

abbreviation (input) compressed_pfns_size :: nat where "compressed_pfns_size \<equiv> 16"
abbreviation (input) compressed_pfns_hdr :: nat where "compressed_pfns_hdr \<equiv> 12"

fun dec_regions :: "nat \<Rightarrow> bytes \<Rightarrow> region list" where
  "dec_regions 0 bs = []"
| "dec_regions (Suc n) bs = dec_region bs # dec_regions n (drop region_size bs)"

definition enc_pfns :: "compressed_pfns \<Rightarrow> bytes" where
  "enc_pfns c = le64 (cp_first_pfn c) @ le32 (cp_nregions c) @ concat (map enc_region (cp_region c))"

definition dec_pfns :: "nat \<Rightarrow> bytes \<Rightarrow> compressed_pfns" where
  "dec_pfns n bs = \<lparr>cp_first_pfn = field64 0 bs, cp_nregions = field32 8 bs,
     cp_region = dec_regions n (drop compressed_pfns_hdr bs)\<rparr>"

lemma dec_regions_enc [simp]:
  "dec_regions (length rs) (concat (map enc_region rs) @ rest) = rs"
  by (induction rs) (simp_all add: region_codec.dec_enc region_codec.enc_length)

lemma dec_pfns_enc:
  "dec_pfns (length (cp_region c)) (enc_pfns c @ rest) = c"
  by (simp add: dec_pfns_def enc_pfns_def)

lemma length_enc_regions [simp]: "length (concat (map enc_region rs)) = 8 * length rs"
  by (induction rs) (simp_all add: region_codec.enc_length)

section \<open>Export descriptors\<close>

text \<open>
  \<^verbatim>\<open>struct export_desc\<close> is packed, 89 bytes, its one-byte \<^verbatim>\<open>payload[1]\<close> included.  The pointer
  fields are raw machine words here: what the sender's memory holds is what the peer receives.
\<close>

record export_desc_wire =
  ew_export_id :: u32
  ew_readonly :: u32
  ew_import_index :: u64
  ew_vchan :: u64
  ew_ctx :: u64
  ew_pchan :: u64
  ew_vcid_local :: u32
  ew_vcid_remote :: u32
  ew_domid_local :: u32
  ew_domid_remote :: u32
  ew_flags :: u32
  ew_node_next :: u64
  ew_node_prev :: u64
  ew_kva :: u64
  ew_payload_count :: u32

abbreviation (input) export_desc_size :: nat where "export_desc_size \<equiv> 89"
abbreviation (input) export_desc_payload_off :: nat where "export_desc_payload_off \<equiv> 88"

definition enc_export_desc :: "export_desc_wire \<Rightarrow> bytes" where
  "enc_export_desc e =
     le32 (ew_export_id e) @ le32 (ew_readonly e) @ le64 (ew_import_index e) @
     le64 (ew_vchan e) @ le64 (ew_ctx e) @ le64 (ew_pchan e) @
     le32 (ew_vcid_local e) @ le32 (ew_vcid_remote e) @
     le32 (ew_domid_local e) @ le32 (ew_domid_remote e) @ le32 (ew_flags e) @
     le64 (ew_node_next e) @ le64 (ew_node_prev e) @ le64 (ew_kva e) @
     le32 (ew_payload_count e)"

definition dec_export_desc :: "bytes \<Rightarrow> export_desc_wire" where
  "dec_export_desc bs =
     \<lparr>ew_export_id = field32 0 bs, ew_readonly = field32 4 bs, ew_import_index = field64 8 bs,
      ew_vchan = field64 16 bs, ew_ctx = field64 24 bs, ew_pchan = field64 32 bs,
      ew_vcid_local = field32 40 bs, ew_vcid_remote = field32 44 bs,
      ew_domid_local = field32 48 bs, ew_domid_remote = field32 52 bs, ew_flags = field32 56 bs,
      ew_node_next = field64 60 bs, ew_node_prev = field64 68 bs, ew_kva = field64 76 bs,
      ew_payload_count = field32 84 bs\<rparr>"

interpretation export_desc_codec:
  wire_codec enc_export_desc dec_export_desc export_desc_payload_off
  by unfold_locales (simp_all add: enc_export_desc_def dec_export_desc_def)

end
