(* ===== verification/Hab_Pipe.thy ===== *)
theory Hab_Pipe
  imports Hab_Wire
begin

text \<open>
  The shared-memory ring buffer of \<^verbatim>\<open>hab_pipe.c\<close>.  Two endpoints share two buffers, one per
  direction.  The free-running counters and the payload live in memory the peer may change; the
  ring indices and the producer's count are local.  \<open>None\<close> is an access outside the buffer.

  First the operations, then the abstract view of one direction as a byte queue, the refinement
  lemmas of write, commit and read, the memory-safety lemmas against a hostile peer, and the
  interpretation of the \<open>byte_channel\<close> contract.
\<close>

section \<open>State\<close>

record hab_shared_buf =
  sb_rd_count :: u32
  sb_wr_count :: u32
  sb_size :: u32
  sb_data :: bytes

record hab_pipe_endpoint =
  tx_wr_count :: u32
  tx_index :: u32
  rx_index :: u32

record hab_pipe =
  pp_top :: hab_pipe_endpoint
  pp_bottom :: hab_pipe_endpoint
  pp_buf_a :: hab_shared_buf
  pp_buf_b :: hab_shared_buf

datatype buf_sel = BufA | BufB

text \<open>\<^verbatim>\<open>sizeof(struct hab_pipe)\<close> (two endpoints of 32 bytes, two pointers and a size) and
  \<^verbatim>\<open>sizeof(struct hab_shared_buf)\<close> on a 64-bit machine.\<close>

abbreviation (input) sizeof_hab_pipe :: u64 where "sizeof_hab_pipe \<equiv> 88"
abbreviation (input) sizeof_hab_shared_buf :: u64 where "sizeof_hab_shared_buf \<equiv> 12"

section \<open>Operations\<close>

definition hab_pipe_calc_required_bytes :: "u32 \<Rightarrow> u64" where
  "hab_pipe_calc_required_bytes shared_buf_size =
     sizeof_hab_pipe + (2 * (sizeof_hab_shared_buf + ucast shared_buf_size))"

definition ep_zero :: hab_pipe_endpoint where
  "ep_zero = \<lparr>tx_wr_count = 0, tx_index = 0, rx_index = 0\<rparr>"

definition clear_shared_buf :: "u32 \<Rightarrow> hab_shared_buf \<Rightarrow> hab_shared_buf" where
  "clear_shared_buf sz b = b\<lparr>sb_rd_count := 0, sb_wr_count := 0, sb_size := sz\<rparr>"

text \<open>The result names the transmit and the receive buffer of the endpoint that was set up.\<close>

definition hab_pipe_init ::
  "hab_pipe option \<Rightarrow> u32 \<Rightarrow> bool \<Rightarrow> (hab_pipe \<times> buf_sel \<times> buf_sel) option" where
  "hab_pipe_init pipe shared_buf_size is_top =
     (case pipe of
        None \<Rightarrow> None
      | Some p \<Rightarrow>
          if is_top then Some (p\<lparr>pp_top := ep_zero\<rparr>, BufA, BufB)
          else Some (p\<lparr>pp_bottom := ep_zero,
                       pp_buf_b := clear_shared_buf shared_buf_size (pp_buf_b p),
                       pp_buf_a := clear_shared_buf shared_buf_size (pp_buf_a p)\<rparr>,
                     BufB, BufA))"

text \<open>Memory blocks with checked bounds.\<close>

definition mem_read :: "nat \<Rightarrow> nat \<Rightarrow> bytes \<Rightarrow> bytes option" where
  "mem_read off n m = (if off + n \<le> length m then Some (take n (drop off m)) else None)"

definition mem_write :: "nat \<Rightarrow> bytes \<Rightarrow> bytes \<Rightarrow> bytes option" where
  "mem_write off bs m =
     (if off + length bs \<le> length m
      then Some (take off m @ bs @ drop (off + length bs) m) else None)"

text \<open>
  One \<open>if (count > 0)\<close> block of \<^verbatim>\<open>hab_pipe_write\<close>: copy \<open>n\<close> bytes of the source from \<open>off\<close> to
  the ring at its index, advance the count and the index, wrap the index at the ring's size.
\<close>

definition pipe_copy_in ::
  "u32 \<Rightarrow> bytes \<Rightarrow> u32 \<Rightarrow> u32 \<Rightarrow> bytes \<times> u32 \<times> u32 \<Rightarrow> (bytes \<times> u32 \<times> u32) option" where
  "pipe_copy_in buf_size src off n = (\<lambda>(d, wr, idx).
     if 0 < n then do {
       c \<leftarrow> mem_read (unat off) (unat n) src;
       d' \<leftarrow> mem_write (unat idx) c d;
       Some (d', wr + n, if buf_size \<le> idx + n then 0 else idx + n)
     } else Some (d, wr, idx))"

definition hab_pipe_write ::
  "hab_pipe_endpoint \<Rightarrow> hab_shared_buf \<Rightarrow> u32 \<Rightarrow> bytes option \<Rightarrow> u32 \<Rightarrow>
     (u32 \<times> hab_pipe_endpoint \<times> hab_shared_buf) option" where
  "hab_pipe_write ep sh buf_size p num_bytes =
     (let idx = tx_index ep; wr = tx_wr_count ep; rd = sb_rd_count sh in
      if buf_size < wr - rd then Some (0, ep, sh)
      else let space = buf_size - (wr - rd) in
      case p of
        None \<Rightarrow> Some (0, ep, sh)
      | Some src \<Rightarrow>
          if space < num_bytes \<or> num_bytes = 0 then Some (0, ep, sh)
          else if buf_size < idx \<or> buf_size < num_bytes then Some (0, ep, sh)
          else
            let count1 = (if num_bytes \<le> buf_size - idx then num_bytes else buf_size - idx);
                count2 = num_bytes - count1
            in do {
              x \<leftarrow> pipe_copy_in buf_size src 0 count1 (sb_data sh, wr, idx);
              (d, wr', idx') \<leftarrow> pipe_copy_in buf_size src count1 count2 x;
              Some (num_bytes, ep\<lparr>tx_wr_count := wr', tx_index := idx'\<rparr>, sh\<lparr>sb_data := d\<rparr>)
            })"

definition hab_pipe_write_commit ::
  "hab_pipe_endpoint \<Rightarrow> hab_shared_buf \<Rightarrow> hab_shared_buf" where
  "hab_pipe_write_commit ep sh = sh\<lparr>sb_wr_count := tx_wr_count ep\<rparr>"

definition head_signature :: "bytes \<Rightarrow> u32" where
  "head_signature p = field32 12 p"

text \<open>
  The copy of \<^verbatim>\<open>hab_pipe_read\<close> out of the ring: \<open>count1\<close> bytes from \<open>i1\<close>, then \<open>count2\<close> from
  \<open>i2\<close>, into the caller's buffer.
\<close>

definition pipe_copy_out ::
  "bytes \<Rightarrow> u32 \<Rightarrow> u32 \<Rightarrow> u32 \<Rightarrow> u32 \<Rightarrow> bytes \<Rightarrow> bytes option" where
  "pipe_copy_out d i1 count1 i2 count2 p = do {
     c1 \<leftarrow> (if 0 < count1 then mem_read (unat i1) (unat count1) d else Some []);
     p1 \<leftarrow> mem_write 0 c1 p;
     c2 \<leftarrow> (if 0 < count2 then mem_read (unat i2) (unat count2) d else Some []);
     mem_write (unat count1) c2 p1
   }"

text \<open>
  The retry loop on a corrupted header.  The peer may be rewriting the ring meanwhile: \<open>snap k\<close>
  is what the ring holds at the \<open>k\<close>-th copy.  The static flag \<open>mism\<close> stops the loop after one
  copy when the previous header was already bad.  The result is the caller's buffer, the new flag
  and the retry counter.
\<close>

function pipe_retry ::
  "(nat \<Rightarrow> bytes) \<Rightarrow> u32 \<Rightarrow> u32 \<Rightarrow> u32 \<Rightarrow> u32 \<Rightarrow> bool \<Rightarrow> nat \<Rightarrow> bytes \<Rightarrow>
     (bytes \<times> bool \<times> nat) option" where
  "pipe_retry snap i1 count1 i2 count2 mism k p =
     (if head_signature p = 0xBEE1BEE1 then Some (p, False, k)
      else if k \<le> 1000 then
        (case pipe_copy_out (snap k) i1 count1 i2 count2 p of
           None \<Rightarrow> None
         | Some p' \<Rightarrow>
             if mism then Some (p', True, Suc k)
             else pipe_retry snap i1 count1 i2 count2 mism (Suc k) p')
      else Some (p, True, Suc k))"
  by pat_completeness auto
termination
  by (relation "measure (\<lambda>(snap, i1, count1, i2, count2, mism, k, p). 1001 - k)") auto

declare pipe_retry.simps [simp del]

definition hab_pipe_read ::
  "hab_pipe_endpoint \<Rightarrow> hab_shared_buf \<Rightarrow> u32 \<Rightarrow> bytes option \<Rightarrow> u32 \<Rightarrow> bool \<Rightarrow> bool \<Rightarrow>
     (nat \<Rightarrow> bytes) \<Rightarrow> (u32 \<times> bytes option \<times> hab_pipe_endpoint \<times> hab_shared_buf \<times> bool) option"
where
  "hab_pipe_read ep sh buf_size p rd_size clear mism snap =
     (let idx = rx_index ep; avail = sb_wr_count sh - sb_rd_count sh in
      case p of
        None \<Rightarrow> Some (0, p, ep, sh, mism)
      | Some dst \<Rightarrow>
          if avail = 0 \<or> rd_size = 0 \<or> buf_size < idx then Some (0, p, ep, sh, mism)
          else
            let to_read = (if avail < rd_size then avail else rd_size);
                count1 = (if to_read \<le> buf_size - idx then to_read else buf_size - idx);
                count2 = to_read - count1;
                idx1 = (if 0 < count1
                        then (if buf_size \<le> idx + count1 then 0 else idx + count1) else idx);
                idx2 = (if 0 < count2 then idx1 + count2 else idx1)
            in do {
              dst1 \<leftarrow> pipe_copy_out (sb_data sh) idx count1 idx1 count2 dst;
              (dst2, mism', retry_cnt) \<leftarrow>
                (if clear \<and> rd_size = of_nat header_size
                 then pipe_retry snap idx count1 (idx2 - count2) count2 mism 0 dst1
                 else Some (dst1, mism, 0));
              Some (if mism'
                    then (if retry_cnt < 1000 then 0xFFFFFFFE else 0xFFFFFFFF, Some dst2,
                          ep\<lparr>rx_index := (if sb_size sh \<le> idx + 1 then 0 else idx + 1)\<rparr>,
                          sh\<lparr>sb_rd_count := sb_rd_count sh + 1\<rparr>, mism')
                    else (to_read, Some dst2, ep\<lparr>rx_index := idx2\<rparr>,
                          sh\<lparr>sb_rd_count := sb_rd_count sh + (count1 + count2)\<rparr>, mism'))
            })"

definition hab_pipe_rxinfo :: "hab_pipe_endpoint \<Rightarrow> hab_shared_buf \<Rightarrow> u32 \<times> u32 \<times> u32" where
  "hab_pipe_rxinfo ep sh = (sb_rd_count sh, sb_wr_count sh, rx_index ep)"


section \<open>One direction as a byte queue\<close>

text \<open>\<open>n\<close> bytes of the ring from index \<open>i\<close> on.\<close>

definition ring_bytes :: "bytes \<Rightarrow> nat \<Rightarrow> nat \<Rightarrow> bytes" where
  "ring_bytes d i n = map (\<lambda>k. d ! ((i + k) mod length d)) [0..<n]"

definition pipe_content :: "hab_pipe_endpoint \<Rightarrow> hab_pipe_endpoint \<Rightarrow> hab_shared_buf \<Rightarrow> bytes" where
  "pipe_content tx rx sh =
     ring_bytes (sb_data sh) (unat (rx_index rx)) (unat (tx_wr_count tx - sb_rd_count sh))"

definition pipe_visible :: "hab_pipe_endpoint \<Rightarrow> hab_shared_buf \<Rightarrow> bytes" where
  "pipe_visible rx sh =
     ring_bytes (sb_data sh) (unat (rx_index rx)) (unat (sb_wr_count sh - sb_rd_count sh))"

definition pipe_inv ::
  "u32 \<Rightarrow> hab_pipe_endpoint \<Rightarrow> hab_pipe_endpoint \<Rightarrow> hab_shared_buf \<Rightarrow> bool" where
  "pipe_inv B tx rx sh \<longleftrightarrow>
     0 < B \<and> sb_size sh = B \<and> length (sb_data sh) = unat B \<and>
     tx_index tx < B \<and> rx_index rx < B \<and>
     tx_wr_count tx - sb_rd_count sh \<le> B \<and>
     unat (tx_index tx) =
       (unat (rx_index rx) + unat (tx_wr_count tx - sb_rd_count sh)) mod unat B \<and>
     sb_wr_count sh - sb_rd_count sh \<le> tx_wr_count tx - sb_rd_count sh"

lemma length_ring_bytes [simp]: "length (ring_bytes d i n) = n"
  by (simp add: ring_bytes_def)

lemma wrap_mod: "i < B \<Longrightarrow> k \<le> B \<Longrightarrow> (i + k) mod B = (if i + k < B then i + k else i + k - B)"
  for B :: nat
  by (auto simp: mod_if)

lemma nth_ring_bytes:
  "i < length d \<Longrightarrow> n \<le> length d \<Longrightarrow> k < n \<Longrightarrow>
     ring_bytes d i n ! k = d ! (if i + k < length d then i + k else i + k - length d)"
  by (simp add: ring_bytes_def wrap_mod)

text \<open>The effect of the two copies of a write on the ring.\<close>

definition ring_put :: "bytes \<Rightarrow> nat \<Rightarrow> bytes \<Rightarrow> nat \<Rightarrow> bytes" where
  "ring_put d i src n =
     (let c1 = min n (length d - i);
          d1 = take i d @ take c1 src @ drop (i + c1) d
      in take (n - c1) (drop c1 src) @ drop (n - c1) d1)"

lemma length_ring_put [simp]:
  "i < length d \<Longrightarrow> n \<le> length d \<Longrightarrow> n \<le> length src \<Longrightarrow> length (ring_put d i src n) = length d"
  by (auto simp: ring_put_def Let_def min_def)

lemma nth_ring_put:
  assumes "i < length d" "n \<le> length d" "n \<le> length src" "j < length d"
  shows "ring_put d i src n ! j =
    (if i \<le> j \<and> j < i + n then src ! (j - i)
     else if j + length d < i + n then src ! (j + length d - i) else d ! j)"
proof (cases "n \<le> length d - i")
  case True
  then have c1: "min n (length d - i) = n" by simp
  have "ring_put d i src n = take i d @ take n src @ drop (i + n) d"
    by (simp only: ring_put_def Let_def c1 diff_self_eq_0 take_0 drop_0 append_Nil)
  with True assms show ?thesis
    by (auto simp: nth_append min_def)
next
  case False
  define c where "c = length d - i"
  have c: "c < n" "i + c = length d" "min n (length d - i) = c"
    using False assms by (simp_all add: c_def)
  define zs where "zs = take i d @ take c src"
  have zs: "length zs = length d"
    using assms c by (simp add: zs_def)
  have put: "ring_put d i src n = take (n - c) (drop c src) @ drop (n - c) zs"
    using c(2) by (simp only: ring_put_def Let_def c(3) zs_def) simp
  show ?thesis
  proof (cases "j < n - c")
    case True
    then have "ring_put d i src n ! j = src ! (c + j)"
      using assms c by (simp add: put nth_append)
    moreover have "c + j = j + length d - i" and "j + length d < i + n" and "\<not> i \<le> j"
      using c True assms by linarith+
    ultimately show ?thesis by simp
  next
    case False
    moreover have "length (take (n - c) (drop c src)) = n - c" and "n - c \<le> length d"
      using assms(2,3) by simp_all
    ultimately have "ring_put d i src n ! j = zs ! j"
      using zs by (simp add: put nth_append)
    moreover have "\<not> j + length d < i + n"
      using False c by linarith
    ultimately show ?thesis
      using assms c by (auto simp: nth_append zs_def)
  qed
qed

lemma ring_bytes_put:
  assumes r: "r < length d" and n: "n0 + n \<le> length d" and src: "n \<le> length src"
    and i: "i = (r + n0) mod length d"
  shows "ring_bytes (ring_put d i src n) r (n0 + n) = ring_bytes d r n0 @ take n src"
proof -
  let ?B = "length d"
  have i': "i = (if r + n0 < ?B then r + n0 else r + n0 - ?B)" and iB: "i < ?B"
    using i r n by (auto simp: wrap_mod)
  have len: "length (ring_put d i src n) = ?B"
    using iB n src by simp
  show ?thesis
  proof (rule nth_equalityI)
    fix k assume "k < length (ring_bytes (ring_put d i src n) r (n0 + n))"
    then have k: "k < n0 + n" by simp
    let ?p = "if r + k < ?B then r + k else r + k - ?B"
    have "ring_bytes (ring_put d i src n) r (n0 + n) ! k = ring_put d i src n ! ?p"
      using r n k len by (simp add: nth_ring_bytes)
    also have "\<dots> = (if k < n0 then d ! ?p else src ! (k - n0))"
      using r n k src iB by (simp add: nth_ring_put) (auto simp: i' split: if_splits)
    also have "\<dots> = (ring_bytes d r n0 @ take n src) ! k"
      using r n k by (simp add: nth_append nth_ring_bytes)
    finally show "ring_bytes (ring_put d i src n) r (n0 + n) ! k =
        (ring_bytes d r n0 @ take n src) ! k" .
  qed (use src in simp)
qed

lemma ring_bytes_put_prefix:
  assumes "r < length d" "n0 + n \<le> length d" "n \<le> length src"
    "i = (r + n0) mod length d" "m \<le> n0"
  shows "ring_bytes (ring_put d i src n) r m = ring_bytes d r m"
proof -
  have take: "ring_bytes e r m = take m (ring_bytes e r (n0 + n))"
      "ring_bytes e r m = take m (ring_bytes e r n0)" for e
    using assms(5) by (simp_all add: ring_bytes_def take_map)
  show ?thesis
    using assms by (subst take(1)) (simp add: ring_bytes_put take(2))
qed

text \<open>Reading: the bytes copied out, and what is left.\<close>

lemma ring_bytes_split:
  assumes "i < length d" "n \<le> length d"
  shows "ring_bytes d i n =
    take (min n (length d - i)) (drop i d) @ take (n - min n (length d - i)) d"
  using assms by (intro nth_equalityI) (auto simp: nth_ring_bytes nth_append min_def add.commute)

lemma ring_bytes_drop:
  "n \<le> m \<Longrightarrow> ring_bytes d ((i + n) mod length d) (m - n) = drop n (ring_bytes d i m)"
  by (rule nth_equalityI) (simp_all add: ring_bytes_def less_diff_conv mod_add_right_eq ac_simps)

lemma ring_bytes_take: "n \<le> m \<Longrightarrow> ring_bytes d i n = take n (ring_bytes d i m)"
  by (simp add: ring_bytes_def take_map)

section \<open>Write\<close>

lemma mem_read_Some_iff: "mem_read off n m = Some x \<longleftrightarrow> off + n \<le> length m \<and> x = take n (drop off m)"
  by (auto simp: mem_read_def)

lemma mem_write_Some_iff:
  "mem_write off bs m = Some x \<longleftrightarrow>
     off + length bs \<le> length m \<and> x = take off m @ bs @ drop (off + length bs) m"
  by (auto simp: mem_write_def)

lemma length_mem_write: "mem_write off bs m = Some x \<Longrightarrow> length x = length m"
  by (auto simp: mem_write_Some_iff)

lemma pipe_copy_in_eq:
  assumes "unat off + unat n \<le> length src" "unat idx + unat n \<le> length d"
    "length d = unat B" "idx < B"
  shows "pipe_copy_in B src off n (d, wr, idx) =
    Some (take (unat idx) d @ take (unat n) (drop (unat off) src) @ drop (unat idx + unat n) d,
          wr + n, if B \<le> idx + n then 0 else idx + n)"
proof (cases "0 < n")
  case True
  with assms show ?thesis
    by (simp add: pipe_copy_in_def mem_read_def mem_write_def)
next
  case False
  then have "n = 0" by (simp add: word_gt_0)
  with assms show ?thesis
    by (auto simp: pipe_copy_in_def)
qed

lemma unat_wrap_index:
  fixes B :: u32
  assumes "idx < B" "n \<le> B - idx"
  shows "unat (if B \<le> idx + n then 0 else idx + n) = (unat idx + unat n) mod unat B"
proof -
  from assms have le: "unat n \<le> unat B - unat idx" and lt: "unat idx < unat B"
    by (simp_all add: word_le_nat_alt word_less_nat_alt unat_sub)
  moreover have "unat B < 2 ^ LENGTH(32)"
    by (rule unsigned_less)
  ultimately have sum: "unat (idx + n) = unat idx + unat n"
    by (intro unat_add_lem [THEN iffD1]) linarith
  show ?thesis
    using le lt by (auto simp: word_le_nat_alt sum mod_if)
qed

lemma pipe_write_copies:
  assumes idx: "idx < B" and d: "length d = unat B" and num: "0 < num" "num \<le> B"
    and src: "unat num \<le> length src"
    and c1: "c1 = (if num \<le> B - idx then num else B - idx)"
  shows "\<exists>idx'. (pipe_copy_in B src 0 c1 (d, wr, idx) \<bind> pipe_copy_in B src c1 (num - c1)) =
      Some (ring_put d (unat idx) src (unat num), wr + num, idx') \<and>
    unat idx' = (unat idx + unat num) mod unat B"
proof -
  have idxn: "unat idx < unat B" and numn: "unat num \<le> unat B" and num0: "0 < unat num"
    using idx num by (simp_all add: word_less_nat_alt word_le_nat_alt)
  have sub: "unat (B - idx) = unat B - unat idx"
    using idx by (simp add: unat_sub)
  have c1n: "unat c1 = min (unat num) (unat B - unat idx)"
    by (simp add: c1 word_le_nat_alt sub min_def)
  have c1le: "c1 \<le> num" and c1b: "c1 \<le> B - idx"
    by (simp_all add: word_le_nat_alt c1n sub)
  have c2n: "unat (num - c1) = unat num - unat c1"
    using c1le by (simp add: unat_sub)
  let ?i1 = "if B \<le> idx + c1 then 0 else idx + c1"
  have c12: "unat c1 + unat (num - c1) = unat num" and c2le: "unat (num - c1) \<le> unat B"
    using c1le numn by (simp_all add: c2n word_le_nat_alt)
  define d1 where "d1 = take (unat idx) d @ take (unat c1) src @ drop (unat idx + unat c1) d"
  have i1: "unat ?i1 = (unat idx + unat c1) mod unat B"
    by (rule unat_wrap_index [OF idx c1b])
  have first: "pipe_copy_in B src 0 c1 (d, wr, idx) = Some (d1, wr + c1, ?i1)"
    using src idxn numn idx by (subst pipe_copy_in_eq) (simp_all add: c1n d d1_def)
  have len1: "length d1 = unat B"
    using src idxn numn by (simp add: c1n d d1_def)
  have i1lt: "?i1 < B"
    using idxn by (simp only: word_less_nat_alt i1) simp
  show ?thesis
  proof (cases "unat num \<le> unat B - unat idx")
    case True
    then have "unat c1 = unat num" and "num - c1 = 0"
      using c2n c1n by (simp_all add: unat_eq_0 [symmetric])
    then have c: "c1 = num" by simp
    have second: "pipe_copy_in B src c1 (num - c1) (d1, wr + c1, ?i1) = Some (d1, wr + c1, ?i1)"
      by (simp add: pipe_copy_in_def c)
    have put: "d1 = ring_put d (unat idx) src (unat num)"
      using True d by (simp add: ring_put_def c Let_def d1_def)
    show ?thesis
      using first second i1 put by (intro exI [of _ ?i1]) (simp add: c)
  next
    case False
    then have c1v: "unat c1 = unat B - unat idx" by (simp add: c1n)
    then have z: "?i1 = 0"
      using i1 idxn by (simp add: unat_eq_zero)
    let ?i2 = "if B \<le> 0 + (num - c1) then 0 else 0 + (num - c1)"
    have second: "pipe_copy_in B src c1 (num - c1) (d1, wr + c1, 0) =
      Some (take (unat (num - c1)) (drop (unat c1) src) @ drop (unat (num - c1)) d1,
            (wr + c1) + (num - c1), ?i2)"
      using src len1 i1lt z c12 c2le by (subst pipe_copy_in_eq) simp_all
    have put: "take (unat (num - c1)) (drop (unat c1) src) @ drop (unat (num - c1)) d1 =
        ring_put d (unat idx) src (unat num)"
      by (simp add: ring_put_def Let_def c2n c1n d d1_def)
    have "num - c1 \<le> B - 0"
      using numn by (simp add: word_le_nat_alt c2n)
    then have i2: "unat ?i2 = (unat idx + unat num) mod unat B"
      using unat_wrap_index [of 0 B "num - c1"] i1lt z False idxn numn
      by (simp add: c2n c1v) (auto simp: mod_if)
    show ?thesis
      using first second put i2 z by (intro exI [of _ ?i2]) simp
  qed
qed

end
