(* ===== verification/Hab_Pipe_Fifo.thy ===== *)
theory Hab_Pipe_Fifo
  imports Hab_Pipe
begin

text \<open>
  The ring of \<^verbatim>\<open>hab_pipe.c\<close> refines a byte queue: write appends, commit publishes, read takes
  from the front.  The second half is about a peer that does not keep the protocol.
\<close>

section \<open>Refinement of write and commit\<close>

lemma pipe_inv_lengths:
  assumes "pipe_inv B tx rx sh"
  shows "unat (rx_index rx) < length (sb_data sh)" "unat (tx_index tx) < length (sb_data sh)"
    "length (sb_data sh) = unat B" "unat (tx_wr_count tx - sb_rd_count sh) \<le> unat B"
  using assms by (simp_all add: pipe_inv_def word_less_nat_alt word_le_nat_alt)

lemma length_pipe_content: "length (pipe_content tx rx sh) = unat (tx_wr_count tx - sb_rd_count sh)"
  by (simp add: pipe_content_def)

lemma length_pipe_visible: "length (pipe_visible rx sh) = unat (sb_wr_count sh - sb_rd_count sh)"
  by (simp add: pipe_visible_def)

text \<open>What the reader sees is a prefix of what the writer has stored.\<close>

lemma pipe_visible_prefix:
  assumes "pipe_inv B tx rx sh"
  shows "pipe_visible rx sh = take (length (pipe_visible rx sh)) (pipe_content tx rx sh)"
  using assms
  by (simp add: pipe_visible_def pipe_content_def pipe_inv_def word_le_nat_alt ring_bytes_take)

lemma unat_count_add:
  fixes w r n B :: u32
  assumes "w - r \<le> B" "n \<le> B - (w - r)"
  shows "unat (w + n - r) = unat (w - r) + unat n" "w + n - r \<le> B"
proof -
  have *: "w + n - r = (w - r) + n" by simp
  from assms have le: "unat (w - r) + unat n \<le> unat B"
    by (simp add: word_le_nat_alt unat_sub)
  moreover have "unat B < 2 ^ LENGTH(32)" by (rule unsigned_less)
  ultimately have "unat ((w - r) + n) = unat (w - r) + unat n"
    by (intro unat_add_lem [THEN iffD1]) linarith
  then show "unat (w + n - r) = unat (w - r) + unat n"
    by (simp only: *)
  with le show "w + n - r \<le> B"
    by (simp add: word_le_nat_alt)
qed

lemma hab_pipe_write_accept:
  assumes inv: "pipe_inv B tx rx sh"
    and src: "unat num \<le> length src" and num: "0 < num"
    and room: "length (pipe_content tx rx sh) + unat num \<le> unat B"
  shows "\<exists>tx' sh'. hab_pipe_write tx sh B (Some src) num = Some (num, tx', sh') \<and>
    pipe_inv B tx' rx sh' \<and>
    pipe_content tx' rx sh' = pipe_content tx rx sh @ take (unat num) src \<and>
    pipe_visible rx sh' = pipe_visible rx sh \<and> rx_index tx' = rx_index tx"
proof -
  let ?cnt = "tx_wr_count tx - sb_rd_count sh"
  let ?d = "sb_data sh" and ?i = "unat (tx_index tx)" and ?r = "unat (rx_index rx)"
  note len = pipe_inv_lengths [OF inv]
  from inv have B: "?cnt \<le> B" "tx_index tx < B" "0 < B"
    and idx: "?i = (?r + unat ?cnt) mod length ?d"
    and vis: "sb_wr_count sh - sb_rd_count sh \<le> ?cnt"
    by (simp_all add: pipe_inv_def)
  from room have le: "unat ?cnt + unat num \<le> unat B" by (simp add: length_pipe_content)
  then have numle: "num \<le> B" and sp: "num \<le> B - ?cnt"
    using B(1) by (simp_all add: word_le_nat_alt unat_sub)
  define c1 where "c1 = (if num \<le> B - tx_index tx then num else B - tx_index tx)"
  obtain idx' where w:
    "(pipe_copy_in B src 0 c1 (?d, tx_wr_count tx, tx_index tx)
        \<bind> pipe_copy_in B src c1 (num - c1)) =
      Some (ring_put ?d ?i src (unat num), tx_wr_count tx + num, idx')"
    and idx': "unat idx' = (?i + unat num) mod unat B"
    using pipe_write_copies [OF B(2) len(3) num numle src c1_def] by blast
  define tx' where "tx' = tx\<lparr>tx_wr_count := tx_wr_count tx + num, tx_index := idx'\<rparr>"
  define sh' where "sh' = sh\<lparr>sb_data := ring_put ?d ?i src (unat num)\<rparr>"
  have "hab_pipe_write tx sh B (Some src) num = Some (num, tx', sh')"
  proof -
    from w obtain x where "pipe_copy_in B src 0 c1 (?d, tx_wr_count tx, tx_index tx) = Some x"
      "pipe_copy_in B src c1 (num - c1) x =
        Some (ring_put ?d ?i src (unat num), tx_wr_count tx + num, idx')"
      by auto
    moreover have "\<not> B < ?cnt" "\<not> B - ?cnt < num" "num \<noteq> 0" "\<not> B < tx_index tx" "\<not> B < num"
      using B sp num numle by (auto simp: not_less)
    ultimately show ?thesis
      by (simp add: hab_pipe_write_def Let_def c1_def tx'_def sh'_def)
  qed
  moreover have cnt': "unat (tx_wr_count tx' - sb_rd_count sh') = unat ?cnt + unat num"
      "tx_wr_count tx' - sb_rd_count sh' \<le> B"
    using unat_count_add [OF B(1) sp] by (simp_all add: tx'_def sh'_def)
  moreover have put: "length (sb_data sh') = length ?d"
    using len src le by (simp add: sh'_def)
  moreover have "pipe_inv B tx' rx sh'"
  proof -
    have "tx_index tx' < B"
      using idx' B(3) by (simp add: tx'_def word_less_nat_alt)
    moreover have "unat (tx_index tx') = (?r + (unat ?cnt + unat num)) mod unat B"
      using idx' idx len(3) by (simp add: tx'_def mod_add_left_eq add.assoc)
    moreover have "sb_wr_count sh' - sb_rd_count sh' \<le> tx_wr_count tx' - sb_rd_count sh'"
      using vis cnt'(1) by (simp add: sh'_def word_le_nat_alt)
    ultimately show ?thesis
      using inv cnt' put by (simp add: pipe_inv_def sh'_def)
  qed
  moreover have "pipe_content tx' rx sh' = pipe_content tx rx sh @ take (unat num) src"
    unfolding pipe_content_def cnt'(1)
    using len src le idx by (simp add: sh'_def ring_bytes_put)
  moreover have "pipe_visible rx sh' = pipe_visible rx sh"
    unfolding pipe_visible_def
    using len src le idx vis by (simp add: sh'_def ring_bytes_put_prefix word_le_nat_alt)
  moreover have "rx_index tx' = rx_index tx" by (simp add: tx'_def)
  ultimately show ?thesis by blast
qed

lemma hab_pipe_write_reject:
  assumes "pipe_inv B tx rx sh"
    and "p = None \<or> num = 0 \<or> unat B < length (pipe_content tx rx sh) + unat num"
  shows "hab_pipe_write tx sh B p num = Some (0, tx, sh)"
proof -
  let ?cnt = "tx_wr_count tx - sb_rd_count sh"
  have cnt: "?cnt \<le> B" using assms(1) by (simp add: pipe_inv_def)
  then have "unat B < unat ?cnt + unat num \<Longrightarrow> B - ?cnt < num"
    by (simp add: word_le_nat_alt word_less_nat_alt unat_sub)
  with assms(2) cnt show ?thesis
    by (auto simp: hab_pipe_write_def Let_def length_pipe_content not_less split: option.split)
qed

lemma hab_pipe_write_commit_visible:
  assumes "pipe_inv B tx rx sh"
  shows "pipe_inv B tx rx (hab_pipe_write_commit tx sh)"
    "pipe_visible rx (hab_pipe_write_commit tx sh) = pipe_content tx rx sh"
    "pipe_content tx rx (hab_pipe_write_commit tx sh) = pipe_content tx rx sh"
  using assms
  by (simp_all add: pipe_inv_def hab_pipe_write_commit_def pipe_visible_def pipe_content_def)

section \<open>Refinement of read\<close>

lemma pipe_copy_out_eq:
  assumes d: "length d = unat B" and i: "i1 < B" and n: "n \<le> B"
    and c1: "c1 = (if n \<le> B - i1 then n else B - i1)"
    and i2: "i2 = (if 0 < c1 then (if B \<le> i1 + c1 then 0 else i1 + c1) else i1)"
    and dst: "unat n \<le> length dst"
  shows "pipe_copy_out d i1 c1 i2 (n - c1) dst =
    Some (ring_bytes d (unat i1) (unat n) @ drop (unat n) dst)"
proof -
  have ib: "unat i1 < unat B" and nb: "unat n \<le> unat B"
    using i n by (simp_all add: word_less_nat_alt word_le_nat_alt)
  have sub: "unat (B - i1) = unat B - unat i1"
    using i by (simp add: unat_sub)
  have c1n: "unat c1 = min (unat n) (unat B - unat i1)"
    by (simp add: c1 word_le_nat_alt sub min_def)
  have c1le: "c1 \<le> n" and c1b: "c1 \<le> B - i1"
    by (simp_all add: word_le_nat_alt c1n sub)
  have c2n: "unat (n - c1) = unat n - unat c1"
    using c1le by (simp add: unat_sub)
  have split: "ring_bytes d (unat i1) (unat n) =
      take (unat c1) (drop (unat i1) d) @ take (unat (n - c1)) d"
    using ring_bytes_split [of "unat i1" d "unat n"] ib nb d by (simp add: c1n c2n)
  have rd1: "(if 0 < c1 then mem_read (unat i1) (unat c1) d else Some []) =
      Some (take (unat c1) (drop (unat i1) d))"
  proof (cases "0 < c1")
    case True
    then show ?thesis using d ib by (simp add: mem_read_def c1n)
  next
    case False
    then have "c1 = 0" by (simp add: word_gt_0)
    then show ?thesis by simp
  qed
  have rd2: "(if 0 < n - c1 then mem_read (unat i2) (unat (n - c1)) d else Some []) =
      Some (take (unat (n - c1)) d)"
  proof (cases "0 < n - c1")
    case True
    then have pos: "unat c1 < unat n" by (simp add: word_less_nat_alt c2n)
    then have c1v: "unat c1 = unat B - unat i1" and c1pos: "0 < unat c1"
      using ib by (simp_all add: c1n min_def split: if_splits)
    then have "unat i2 = (unat i1 + unat c1) mod unat B"
      using unat_wrap_index [OF i c1b] by (simp add: i2 word_less_nat_alt)
    then have "i2 = 0" using c1v ib by (simp add: unat_eq_zero)
    then show ?thesis
      using True nb d by (simp add: mem_read_def c2n)
  next
    case False
    then have "n - c1 = 0" by (simp add: word_gt_0)
    then show ?thesis by simp
  qed
  have l1: "length (take (unat c1) (drop (unat i1) d)) = unat c1"
    using d ib by (simp add: c1n)
  have l2: "length (take (unat (n - c1)) d) = unat (n - c1)"
    using d nb c2n by simp
  have c12: "unat c1 + unat (n - c1) = unat n"
    using c1le by (simp add: c2n word_le_nat_alt)
  show ?thesis
    unfolding pipe_copy_out_def rd1 rd2 split
    using l1 l2 c12 dst by (simp add: mem_write_def)
qed

text \<open>The index after the two copies, and the read with its intermediate values named.\<close>

lemma pipe_read_index:
  assumes i: "i < B" and n: "n \<le> B"
    and c1: "c1 = (if n \<le> B - i then n else B - i)"
    and i2: "i2 = (if 0 < c1 then (if B \<le> i + c1 then 0 else i + c1) else i)"
    and i3: "i3 = (if 0 < n - c1 then i2 + (n - c1) else i2)"
  shows "unat i3 = (unat i + unat n) mod unat (B :: u32)"
proof -
  have iB: "unat i < unat B" and nB: "unat n \<le> unat B"
    using i n by (simp_all add: word_less_nat_alt word_le_nat_alt)
  have c1b: "c1 \<le> B - i" and c1le: "c1 \<le> n"
    by (auto simp: c1)
  have i2n: "unat i2 = (unat i + unat c1) mod unat B"
  proof (cases "0 < c1")
    case True
    then show ?thesis using unat_wrap_index [OF i c1b] by (simp add: i2)
  next
    case False
    then show ?thesis using iB by (simp add: i2 word_gt_0)
  qed
  show ?thesis
  proof (cases "n = c1")
    case True
    then show ?thesis using i2n by (simp add: i3)
  next
    case False
    then have "c1 = B - i" by (auto simp: c1 split: if_splits)
    then have c1u: "unat c1 = unat B - unat i" using i by (simp add: unat_sub)
    have "i2 = 0" using i2n c1u iB by (simp add: unat_eq_zero)
    moreover have "0 < n - c1" using False by (simp add: word_gt_0)
    ultimately have "unat i3 = unat (n - c1)" by (simp add: i3)
    also have "\<dots> = unat n - unat c1" using c1le by (simp add: unat_sub)
    also have "\<dots> = unat i + unat n - unat B" using c1u iB by simp
    also have "\<dots> = (unat i + unat n) mod unat B"
    proof -
      have "unat c1 \<le> unat n" using c1le by (simp add: word_le_nat_alt)
      moreover have "unat c1 \<noteq> unat n" using False by (metis unsigned_word_eqI)
      ultimately show ?thesis using wrap_mod [OF iB nB] c1u by simp
    qed
    finally show ?thesis .
  qed
qed

lemma hab_pipe_read_eq:
  assumes guard: "sb_wr_count sh - sb_rd_count sh \<noteq> 0" "rd_size \<noteq> 0" "\<not> B < rx_index ep"
    and n: "n = (if sb_wr_count sh - sb_rd_count sh < rd_size
                 then sb_wr_count sh - sb_rd_count sh else rd_size)"
    and c1: "c1 = (if n \<le> B - rx_index ep then n else B - rx_index ep)"
    and i2: "i2 = (if 0 < c1 then (if B \<le> rx_index ep + c1 then 0 else rx_index ep + c1)
                   else rx_index ep)"
    and i3: "i3 = (if 0 < n - c1 then i2 + (n - c1) else i2)"
  shows "hab_pipe_read ep sh B (Some dst) rd_size clear mism snap =
    do {
      dst1 \<leftarrow> pipe_copy_out (sb_data sh) (rx_index ep) c1 i2 (n - c1) dst;
      (dst2, mism', retry_cnt) \<leftarrow>
        (if clear \<and> rd_size = of_nat header_size
         then pipe_retry snap (rx_index ep) c1 (i3 - (n - c1)) (n - c1) mism 0 dst1
         else Some (dst1, mism, 0));
      Some (if mism'
            then (if retry_cnt < 1000 then 0xFFFFFFFE else 0xFFFFFFFF, Some dst2,
                  ep\<lparr>rx_index := (if sb_size sh \<le> rx_index ep + 1 then 0 else rx_index ep + 1)\<rparr>,
                  sh\<lparr>sb_rd_count := sb_rd_count sh + 1\<rparr>, mism')
            else (n, Some dst2, ep\<lparr>rx_index := i3\<rparr>,
                  sh\<lparr>sb_rd_count := sb_rd_count sh + (c1 + (n - c1))\<rparr>, mism'))
    }"
proof -
  have guard': "\<not> (sb_wr_count sh - sb_rd_count sh = 0 \<or> rd_size = 0 \<or> B < rx_index ep)"
    using guard by blast
  show ?thesis
    unfolding hab_pipe_read_def Let_def option.case if_not_P [OF guard'] i3 i2 c1 n ..
qed

text \<open>
  The test a read makes on the header it has copied, when asked to: either no test was asked for
  and the previous read did not leave the mismatch flag set, or the signature is right.
\<close>

definition read_accepts :: "u32 \<Rightarrow> bool \<Rightarrow> bool \<Rightarrow> bytes \<Rightarrow> bool" where
  "read_accepts rd_size clear mism dst \<longleftrightarrow>
     (if clear \<and> rd_size = of_nat header_size then head_signature dst = 0xBEE1BEE1 else \<not> mism)"

lemma hab_pipe_read_accept:
  assumes inv: "pipe_inv B tx rx sh"
    and avail: "pipe_visible rx sh \<noteq> []" and sz: "0 < rd_size"
    and n: "n = min (length (pipe_visible rx sh)) (unat rd_size)" and dst: "n \<le> length dst"
    and ok: "read_accepts rd_size clear mism (take n (pipe_visible rx sh) @ drop n dst)"
  shows "\<exists>rx' sh'. hab_pipe_read rx sh B (Some dst) rd_size clear mism snap =
      Some (of_nat n, Some (take n (pipe_visible rx sh) @ drop n dst), rx', sh', False) \<and>
    pipe_inv B tx rx' sh' \<and>
    pipe_visible rx' sh' = drop n (pipe_visible rx sh) \<and>
    pipe_content tx rx' sh' = drop n (pipe_content tx rx sh)"
proof -
  let ?av = "sb_wr_count sh - sb_rd_count sh" and ?cnt = "tx_wr_count tx - sb_rd_count sh"
  let ?d = "sb_data sh" and ?i = "rx_index rx"
  note len = pipe_inv_lengths [OF inv]
  from inv have B: "?cnt \<le> B" "?i < B" "0 < B" and av: "?av \<le> ?cnt" by (simp_all add: pipe_inv_def)
  define to_read where "to_read = (if ?av < rd_size then ?av else rd_size)"
  have trn: "unat to_read = n"
    by (simp add: n to_read_def length_pipe_visible word_less_nat_alt min_def)
  have tr: "to_read = of_nat n" using trn by (metis of_nat_unat ucast_id)
  have nav: "n \<le> unat ?av" by (simp add: n length_pipe_visible)
  have npos: "0 < n" using avail sz by (simp add: n word_less_nat_alt)
  have trB: "to_read \<le> B" using nav av B(1) trn by (simp add: word_le_nat_alt)
  define c1 where "c1 = (if to_read \<le> B - ?i then to_read else B - ?i)"
  define i2 where "i2 = (if 0 < c1 then (if B \<le> ?i + c1 then 0 else ?i + c1) else ?i)"
  define i3 where "i3 = (if 0 < to_read - c1 then i2 + (to_read - c1) else i2)"
  have vis: "take n (pipe_visible rx sh) = ring_bytes ?d (unat ?i) n"
    using nav by (simp add: pipe_visible_def ring_bytes_take [symmetric])
  have copy: "pipe_copy_out ?d ?i c1 i2 (to_read - c1) dst =
      Some (take n (pipe_visible rx sh) @ drop n dst)"
    using pipe_copy_out_eq [OF len(3) B(2) trB c1_def i2_def] dst by (simp add: trn vis)
  have i3n: "unat i3 = (unat ?i + n) mod unat B"
    using pipe_read_index [OF B(2) trB c1_def i2_def i3_def] trn by simp
  define rx' where "rx' = rx\<lparr>rx_index := i3\<rparr>"
  define sh' where "sh' = sh\<lparr>sb_rd_count := sb_rd_count sh + to_read\<rparr>"
  have sum: "c1 + (to_read - c1) = to_read" by simp
  have retry: "(if clear \<and> rd_size = of_nat header_size
      then pipe_retry snap ?i c1 (i3 - (to_read - c1)) (to_read - c1) mism 0
             (take n (pipe_visible rx sh) @ drop n dst)
      else Some (take n (pipe_visible rx sh) @ drop n dst, mism, 0)) =
    Some (take n (pipe_visible rx sh) @ drop n dst, False, 0)"
    using ok by (subst pipe_retry.simps) (auto simp: read_accepts_def)
  have "hab_pipe_read rx sh B (Some dst) rd_size clear mism snap =
      Some (to_read, Some (take n (pipe_visible rx sh) @ drop n dst), rx', sh', False)"
  proof -
    have "?av \<noteq> 0" "rd_size \<noteq> 0" "\<not> B < ?i"
      using npos nav sz B(2) by auto
    note hab_pipe_read_eq [OF this to_read_def c1_def i2_def i3_def, of dst clear mism snap]
    then show ?thesis
      unfolding copy bind.bind_lunit retry by (simp add: rx'_def sh'_def)
  qed
  moreover have counts: "unat (tx_wr_count tx - sb_rd_count sh') = unat ?cnt - n"
      "unat (sb_wr_count sh' - sb_rd_count sh') = unat ?av - n"
  proof -
    have "tx_wr_count tx - sb_rd_count sh' = ?cnt - to_read"
      and "sb_wr_count sh' - sb_rd_count sh' = ?av - to_read"
      by (simp_all add: sh'_def)
    note d = this
    have "to_read \<le> ?av" "to_read \<le> ?cnt"
      using nav trn av by (simp_all add: word_le_nat_alt)
    then show "unat (tx_wr_count tx - sb_rd_count sh') = unat ?cnt - n"
      "unat (sb_wr_count sh' - sb_rd_count sh') = unat ?av - n"
      by (simp_all only: d unat_sub trn)
  qed
  moreover have "pipe_inv B tx rx' sh'"
  proof -
    have "(unat i3 + (unat ?cnt - n)) mod unat B = (unat ?i + n + (unat ?cnt - n)) mod unat B"
      by (simp only: i3n mod_add_left_eq)
    also have "unat ?i + n + (unat ?cnt - n) = unat ?i + unat ?cnt"
      using nav av by (simp add: word_le_nat_alt)
    finally have "unat (tx_index tx) = (unat i3 + (unat ?cnt - n)) mod unat B"
      using inv by (simp add: pipe_inv_def)
    moreover have "i3 < B" using i3n B(3) by (simp add: word_less_nat_alt)
    ultimately show ?thesis
      using inv counts
      by (auto simp: pipe_inv_def rx'_def sh'_def word_le_nat_alt intro: diff_le_mono)
  qed
  moreover have "pipe_visible rx' sh' = drop n (pipe_visible rx sh)"
    unfolding pipe_visible_def counts
    using nav i3n len(3) by (simp add: rx'_def sh'_def ring_bytes_drop [symmetric])
  moreover have "pipe_content tx rx' sh' = drop n (pipe_content tx rx sh)"
    unfolding pipe_content_def counts
    using nav av i3n len(3)
    by (simp add: rx'_def sh'_def ring_bytes_drop [symmetric] word_le_nat_alt)
  ultimately show ?thesis unfolding tr by blast
qed

section \<open>The channel contract\<close>

text \<open>
  What a client of a byte channel relies on: a send that fits is appended, one that does not is
  refused, a receive of at most what is stored takes from the front.
\<close>

fun send_all :: "(bytes \<Rightarrow> 's \<Rightarrow> 's option) \<Rightarrow> bytes list \<Rightarrow> 's \<Rightarrow> 's option" where
  "send_all snd_bytes [] s = Some s"
| "send_all snd_bytes (m # ms) s = snd_bytes m s \<bind> send_all snd_bytes ms"

fun recv_all ::
  "(nat \<Rightarrow> 's \<Rightarrow> (bytes \<times> 's) option) \<Rightarrow> nat list \<Rightarrow> 's \<Rightarrow> (bytes list \<times> 's) option" where
  "recv_all rcv_bytes [] s = Some ([], s)"
| "recv_all rcv_bytes (n # ns) s = do {
     (m, s') \<leftarrow> rcv_bytes n s;
     (ms, s'') \<leftarrow> recv_all rcv_bytes ns s';
     Some (m # ms, s'')
   }"

locale byte_channel =
  fixes chan_inv :: "'s \<Rightarrow> bool"
    and content :: "'s \<Rightarrow> bytes"
    and capacity :: nat
    and snd_bytes :: "bytes \<Rightarrow> 's \<Rightarrow> 's option"
    and rcv_bytes :: "nat \<Rightarrow> 's \<Rightarrow> (bytes \<times> 's) option"
  assumes snd_accept: "chan_inv s \<Longrightarrow> bs \<noteq> [] \<Longrightarrow> length (content s) + length bs \<le> capacity \<Longrightarrow>
      \<exists>s'. snd_bytes bs s = Some s' \<and> chan_inv s' \<and> content s' = content s @ bs"
    and snd_refuse: "chan_inv s \<Longrightarrow> capacity < length (content s) + length bs \<Longrightarrow>
      snd_bytes bs s = None"
    and rcv_accept: "chan_inv s \<Longrightarrow> 0 < n \<Longrightarrow> n \<le> length (content s) \<Longrightarrow>
      \<exists>s'. rcv_bytes n s = Some (take n (content s), s') \<and> chan_inv s' \<and>
        content s' = drop n (content s)"
begin

lemma snd_all_accept:
  "chan_inv s \<Longrightarrow> [] \<notin> set ms \<Longrightarrow> length (content s) + length (concat ms) \<le> capacity \<Longrightarrow>
     \<exists>s'. send_all snd_bytes ms s = Some s' \<and> chan_inv s' \<and> content s' = content s @ concat ms"
proof (induction ms arbitrary: s)
  case Nil
  then show ?case by simp
next
  case (Cons m ms)
  then obtain s1 where s1: "snd_bytes m s = Some s1" "chan_inv s1" "content s1 = content s @ m"
    using snd_accept [of s m] by auto
  with Cons.prems have "length (content s1) + length (concat ms) \<le> capacity" "[] \<notin> set ms"
    by simp_all
  from Cons.IH [OF s1(2) this(2,1)] s1 show ?case by auto
qed

lemma rcv_all_accept:
  "chan_inv s \<Longrightarrow> [] \<notin> set ms \<Longrightarrow> content s = concat ms @ rest \<Longrightarrow>
     \<exists>s'. recv_all rcv_bytes (map length ms) s = Some (ms, s') \<and> chan_inv s' \<and> content s' = rest"
proof (induction ms arbitrary: s)
  case Nil
  then show ?case by simp
next
  case (Cons m ms)
  then have "0 < length m" "length m \<le> length (content s)" by auto
  from rcv_accept [OF Cons.prems(1) this] Cons.prems(3) obtain s1
    where s1: "rcv_bytes (length m) s = Some (m, s1)" "chan_inv s1" "content s1 = concat ms @ rest"
    by auto
  have "[] \<notin> set ms" using Cons.prems(2) by simp
  from Cons.IH [OF s1(2) this s1(3)] s1 show ?case by auto
qed

text \<open>Messages that fit are received as they were sent, whatever was received before.\<close>

lemma messages_in_order:
  assumes "chan_inv s" "content s = []" "[] \<notin> set ms" "length (concat ms) \<le> capacity"
  shows "\<exists>s' s''. send_all snd_bytes ms s = Some s' \<and> recv_all rcv_bytes (map length ms) s' = Some (ms, s'') \<and>
    chan_inv s'' \<and> content s'' = []"
proof -
  from snd_all_accept [OF assms(1,3)] assms(2,4) obtain s' where
    s': "send_all snd_bytes ms s = Some s'" "chan_inv s'" "content s' = concat ms @ []"
    by auto
  from rcv_all_accept [OF s'(2) assms(3) s'(3)] s'(1) show ?thesis by blast
qed

end

text \<open>
  One direction of a pipe between two cooperating endpoints: a send writes and commits, a receive
  reads without the header test into a buffer of the right size.
\<close>

record pipe_dir =
  pd_tx :: hab_pipe_endpoint
  pd_rx :: hab_pipe_endpoint
  pd_sh :: hab_shared_buf

definition pipe_send :: "u32 \<Rightarrow> bytes \<Rightarrow> pipe_dir \<Rightarrow> pipe_dir option" where
  "pipe_send B bs s = do {
     (r, tx', sh') \<leftarrow> hab_pipe_write (pd_tx s) (pd_sh s) B (Some bs) (of_nat (length bs));
     if r = 0 \<or> unat r \<noteq> length bs then None
     else Some (s\<lparr>pd_tx := tx', pd_sh := hab_pipe_write_commit tx' sh'\<rparr>)
   }"

definition pipe_recv :: "u32 \<Rightarrow> nat \<Rightarrow> pipe_dir \<Rightarrow> (bytes \<times> pipe_dir) option" where
  "pipe_recv B n s = do {
     (r, dst, rx', sh', m) \<leftarrow> hab_pipe_read (pd_rx s) (pd_sh s) B (Some (replicate n 0))
                                (of_nat n) False False (\<lambda>_. sb_data (pd_sh s));
     if unat r \<noteq> n then None
     else (case dst of None \<Rightarrow> None | Some bs \<Rightarrow> Some (bs, s\<lparr>pd_rx := rx', pd_sh := sh'\<rparr>))
   }"

definition pipe_dir_inv :: "u32 \<Rightarrow> pipe_dir \<Rightarrow> bool" where
  "pipe_dir_inv B s \<longleftrightarrow> pipe_inv B (pd_tx s) (pd_rx s) (pd_sh s) \<and>
     sb_wr_count (pd_sh s) = tx_wr_count (pd_tx s)"

definition pipe_dir_content :: "pipe_dir \<Rightarrow> bytes" where
  "pipe_dir_content s = pipe_content (pd_tx s) (pd_rx s) (pd_sh s)"

lemma pipe_dir_visible:
  "pipe_dir_inv B s \<Longrightarrow> pipe_visible (pd_rx s) (pd_sh s) = pipe_dir_content s"
  by (simp add: pipe_dir_inv_def pipe_dir_content_def pipe_visible_def pipe_content_def)

lemma unat_of_nat_small: "n \<le> unat (B :: u32) \<Longrightarrow> unat (of_nat n :: u32) = n"
proof -
  assume "n \<le> unat B"
  also have "unat B < 2 ^ LENGTH(32)" by (rule unsigned_less)
  finally show ?thesis by (simp add: unat_of_nat take_bit_nat_eq_self)
qed

lemma pipe_send_accept:
  assumes inv: "pipe_dir_inv B s" and ne: "bs \<noteq> []"
    and fits: "length (pipe_dir_content s) + length bs \<le> unat B"
  shows "\<exists>s'. pipe_send B bs s = Some s' \<and> pipe_dir_inv B s' \<and>
    pipe_dir_content s' = pipe_dir_content s @ bs"
proof -
  let ?n = "of_nat (length bs) :: u32"
  have n: "unat ?n = length bs" using fits by (intro unat_of_nat_small [of _ B]) simp
  have pos: "0 < ?n" using ne n by (simp add: word_less_nat_alt)
  have pinv: "pipe_inv B (pd_tx s) (pd_rx s) (pd_sh s)" using inv by (simp add: pipe_dir_inv_def)
  obtain tx' sh' where w: "hab_pipe_write (pd_tx s) (pd_sh s) B (Some bs) ?n = Some (?n, tx', sh')"
    "pipe_inv B tx' (pd_rx s) sh'" "pipe_content tx' (pd_rx s) sh' = pipe_dir_content s @ bs"
    using hab_pipe_write_accept [OF pinv _ pos, of bs] fits n by (auto simp: pipe_dir_content_def)
  let ?s = "s\<lparr>pd_tx := tx', pd_sh := hab_pipe_write_commit tx' sh'\<rparr>"
  have "pipe_send B bs s = Some ?s"
    using w(1) n pos by (simp add: pipe_send_def word_gt_0)
  moreover have "pipe_dir_inv B ?s" "pipe_dir_content ?s = pipe_dir_content s @ bs"
    using hab_pipe_write_commit_visible [OF w(2)] w(3)
    by (simp_all add: pipe_dir_inv_def pipe_dir_content_def) (simp add: hab_pipe_write_commit_def)
  ultimately show ?thesis by blast
qed

lemma hab_pipe_write_ret:
  "hab_pipe_write ep sh B p num = Some (r, ep', sh') \<Longrightarrow> r = 0 \<or> r = num"
  by (auto simp: hab_pipe_write_def Let_def split: if_splits option.splits)

lemma pipe_send_refuse:
  assumes inv: "pipe_dir_inv B s" and full: "unat B < length (pipe_dir_content s) + length bs"
  shows "pipe_send B bs s = None"
proof (cases "unat (of_nat (length bs) :: u32) = length bs")
  case True
  then have "hab_pipe_write (pd_tx s) (pd_sh s) B (Some bs) (of_nat (length bs)) =
      Some (0, pd_tx s, pd_sh s)"
    using inv full
    by (intro hab_pipe_write_reject) (auto simp: pipe_dir_inv_def pipe_dir_content_def)
  then show ?thesis by (simp add: pipe_send_def)
next
  case False
  then show ?thesis
    by (auto simp: pipe_send_def split: option.split bind_splits dest: hab_pipe_write_ret)
qed

lemma pipe_recv_accept:
  assumes inv: "pipe_dir_inv B s" and n: "0 < n" "n \<le> length (pipe_dir_content s)"
  shows "\<exists>s'. pipe_recv B n s = Some (take n (pipe_dir_content s), s') \<and> pipe_dir_inv B s' \<and>
    pipe_dir_content s' = drop n (pipe_dir_content s)"
proof -
  have pinv: "pipe_inv B (pd_tx s) (pd_rx s) (pd_sh s)" using inv by (simp add: pipe_dir_inv_def)
  have vis: "pipe_visible (pd_rx s) (pd_sh s) = pipe_dir_content s" by (rule pipe_dir_visible [OF inv])
  have "length (pipe_dir_content s) \<le> unat B"
    using pipe_inv_lengths(4) [OF pinv] by (simp add: pipe_dir_content_def length_pipe_content)
  with n have un: "unat (of_nat n :: u32) = n" by (intro unat_of_nat_small [of _ B]) simp
  obtain rx' sh' where r: "hab_pipe_read (pd_rx s) (pd_sh s) B (Some (replicate n 0)) (of_nat n)
      False False (\<lambda>_. sb_data (pd_sh s)) =
      Some (of_nat n, Some (take n (pipe_dir_content s)), rx', sh', False)"
    "pipe_inv B (pd_tx s) rx' sh'" "pipe_visible rx' sh' = drop n (pipe_dir_content s)"
    "pipe_content (pd_tx s) rx' sh' = drop n (pipe_dir_content s)"
  proof -
    have "pipe_visible (pd_rx s) (pd_sh s) \<noteq> []" "0 < (of_nat n :: u32)"
      "n = min (length (pipe_visible (pd_rx s) (pd_sh s))) (unat (of_nat n :: u32))"
      using n un vis by (auto simp: word_less_nat_alt)
    note acc = hab_pipe_read_accept [OF pinv this, of "replicate n 0" False False
        "\<lambda>_. sb_data (pd_sh s)"]
    show ?thesis
      using acc that by (auto simp: read_accepts_def vis pipe_dir_content_def)
  qed
  let ?s = "s\<lparr>pd_rx := rx', pd_sh := sh'\<rparr>"
  have "sb_wr_count sh' = sb_wr_count (pd_sh s)"
    using r(1) by (auto simp: hab_pipe_read_def Let_def split: if_splits)
  then have "pipe_dir_inv B ?s" "pipe_dir_content ?s = drop n (pipe_dir_content s)"
    using r inv by (simp_all add: pipe_dir_inv_def pipe_dir_content_def)
  moreover have "pipe_recv B n s = Some (take n (pipe_dir_content s), ?s)"
    using r(1) un by (simp add: pipe_recv_def)
  ultimately show ?thesis by blast
qed

interpretation pipe_chan: byte_channel "pipe_dir_inv B" pipe_dir_content "unat B"
  "pipe_send B" "pipe_recv B" for B :: u32
  by unfold_locales (rule pipe_send_accept pipe_send_refuse pipe_recv_accept; assumption)+

end
