(* ===== verification/Hab_Pipe_Hostile.thy ===== *)
theory Hab_Pipe_Hostile
  imports Hab_Pipe_Fifo
begin

text \<open>
  The shared counters and the shared size of a ring are writable by the peer VM.  These lemmas
  say what \<^verbatim>\<open>hab_pipe.c\<close> guarantees whatever the peer writes there, how the header retry loop
  ends, and where the guarantee stops: the index test of a read admits an index equal to the
  ring's size, which a peer that enlarges the shared size field can reach.
\<close>

section \<open>Writes never leave the ring\<close>

lemma hab_pipe_write_null: "hab_pipe_write ep sh B None num = Some (0, ep, sh)"
  by (simp add: hab_pipe_write_def Let_def)

lemma hab_pipe_write_cases:
  assumes idx: "tx_index ep < B" and d: "length (sb_data sh) = unat B"
    and src: "unat num \<le> length src"
  obtains (reject) "hab_pipe_write ep sh B (Some src) num = Some (0, ep, sh)"
  | (accept) idx' where "num \<le> B" "0 < num"
      "unat idx' = (unat (tx_index ep) + unat num) mod unat B"
      "hab_pipe_write ep sh B (Some src) num = Some (num,
         ep\<lparr>tx_wr_count := tx_wr_count ep + num, tx_index := idx'\<rparr>,
         sh\<lparr>sb_data := ring_put (sb_data sh) (unat (tx_index ep)) src (unat num)\<rparr>)"
proof (cases "num = 0 \<or> B < tx_wr_count ep - sb_rd_count sh \<or>
    B - (tx_wr_count ep - sb_rd_count sh) < num \<or> B < num")
  case True
  then have "hab_pipe_write ep sh B (Some src) num = Some (0, ep, sh)"
    by (auto simp: hab_pipe_write_def Let_def)
  then show ?thesis by (rule that(1))
next
  case False
  then have num: "0 < num" "num \<le> B" by (auto simp: word_gt_0 not_less)
  define c1 where "c1 = (if num \<le> B - tx_index ep then num else B - tx_index ep)"
  obtain idx' x where
    x: "pipe_copy_in B src 0 c1 (sb_data sh, tx_wr_count ep, tx_index ep) = Some x"
      "pipe_copy_in B src c1 (num - c1) x = Some
        (ring_put (sb_data sh) (unat (tx_index ep)) src (unat num), tx_wr_count ep + num, idx')"
    and idx': "unat idx' = (unat (tx_index ep) + unat num) mod unat B"
    using pipe_write_copies [OF idx d num src c1_def, of "tx_wr_count ep"] by auto
  have "hab_pipe_write ep sh B (Some src) num = Some (num,
      ep\<lparr>tx_wr_count := tx_wr_count ep + num, tx_index := idx'\<rparr>,
      sh\<lparr>sb_data := ring_put (sb_data sh) (unat (tx_index ep)) src (unat num)\<rparr>)"
    using x False idx by (auto simp: hab_pipe_write_def Let_def c1_def)
  with num idx' show ?thesis by (intro that(2))
qed

lemma pipe_write_safe:
  assumes idx: "tx_index ep < B" and d: "length (sb_data sh) = unat B"
    and src: "unat num \<le> length src"
  shows "\<exists>r ep' sh'. hab_pipe_write ep sh B (Some src) num = Some (r, ep', sh') \<and>
    tx_index ep' < B \<and> length (sb_data sh') = unat B \<and>
    sb_rd_count sh' = sb_rd_count sh \<and> sb_wr_count sh' = sb_wr_count sh"
proof (rule hab_pipe_write_cases [OF idx d src])
  assume "hab_pipe_write ep sh B (Some src) num = Some (0, ep, sh)"
  then show ?thesis using idx d by simp
next
  fix idx'
  assume a: "num \<le> B" "0 < num" "unat idx' = (unat (tx_index ep) + unat num) mod unat B"
    "hab_pipe_write ep sh B (Some src) num = Some (num,
       ep\<lparr>tx_wr_count := tx_wr_count ep + num, tx_index := idx'\<rparr>,
       sh\<lparr>sb_data := ring_put (sb_data sh) (unat (tx_index ep)) src (unat num)\<rparr>)"
  have "unat (tx_index ep) < unat B" "unat num \<le> unat B"
    using idx a(1) by (simp_all add: word_less_nat_alt word_le_nat_alt)
  then show ?thesis
    using a d src by (simp add: word_less_nat_alt)
qed

section \<open>The header retry loop\<close>

text \<open>The loop copies inside the ring at every turn, so it always ends with an answer.\<close>

lemma pipe_retry_total:
  assumes snap: "\<And>k. length (snap k) = unat B" and i: "i1 < B" and n: "n \<le> B"
    and c1: "c1 = (if n \<le> B - i1 then n else B - i1)"
    and i2: "i2 = (if 0 < c1 then (if B \<le> i1 + c1 then 0 else i1 + c1) else i1)"
  shows "unat n \<le> length p \<Longrightarrow>
    \<exists>p' m k'. pipe_retry snap i1 c1 i2 (n - c1) mism k p = Some (p', m, k') \<and>
      length p' = length p \<and> drop (unat n) p' = drop (unat n) p \<and> k' \<le> max k 1001 + 1"
proof (induction "1001 - k" arbitrary: k p rule: less_induct)
  case less
  let ?q = "ring_bytes (snap k) (unat i1) (unat n) @ drop (unat n) p"
  have copy: "pipe_copy_out (snap k) i1 c1 i2 (n - c1) p = Some ?q"
    by (rule pipe_copy_out_eq [OF snap i n c1 i2 less.prems])
  have q: "length ?q = length p" "drop (unat n) ?q = drop (unat n) p"
    using less.prems by simp_all
  show ?case
  proof (cases "head_signature p = 0xBEE1BEE1 \<or> 1000 < k \<or> mism")
    case True
    then show ?thesis
      using copy q by (subst pipe_retry.simps) auto
  next
    case False
    then have "1001 - Suc k < 1001 - k" and "unat n \<le> length ?q" by (auto simp: less.prems)
    from less.hyps [OF this] obtain p' m k' where
      "pipe_retry snap i1 c1 i2 (n - c1) mism (Suc k) ?q = Some (p', m, k')"
      "length p' = length ?q" "drop (unat n) p' = drop (unat n) ?q" "k' \<le> max (Suc k) 1001 + 1"
      by blast
    with False copy q show ?thesis
      by (subst pipe_retry.simps) (auto simp: max_def split: if_splits)
  qed
qed

text \<open>A header that stays bad is given up after 1001 further copies.\<close>

lemma pipe_retry_gives_up:
  assumes snap: "\<And>j. snap j = d" and copy: "pipe_copy_out d i1 c1 i2 c2 p = Some p"
    and bad: "head_signature p \<noteq> 0xBEE1BEE1"
  shows "k \<le> 1001 \<Longrightarrow> pipe_retry snap i1 c1 i2 c2 False k p = Some (p, True, 1002)"
proof (induction "1001 - k" arbitrary: k)
  case 0
  then have "k = 1001" by simp
  with bad show ?case by (subst pipe_retry.simps) simp
next
  case (Suc n)
  then have "pipe_retry snap i1 c1 i2 c2 False (Suc k) p = Some (p, True, 1002)"
    by (intro Suc.hyps) simp_all
  with Suc bad copy snap show ?case by (subst pipe_retry.simps) simp
qed

section \<open>Reads\<close>

lemma hab_pipe_read_refuse:
  assumes "sb_wr_count sh - sb_rd_count sh = 0 \<or> rd_size = 0 \<or> B < rx_index ep"
  shows "hab_pipe_read ep sh B (Some dst) rd_size clear mism snap =
    Some (0, Some dst, ep, sh, mism)"
  by (simp only: hab_pipe_read_def Let_def option.case assms if_True)

lemma pipe_read_safe:
  assumes idx: "rx_index ep < B" and d: "length (sb_data sh) = unat B"
    and snap: "\<And>k. length (snap k) = unat B"
    and sz: "rd_size \<le> B" and dst: "unat rd_size \<le> length dst"
  shows "\<exists>r dst' ep' sh' m. hab_pipe_read ep sh B (Some dst) rd_size clear mism snap =
      Some (r, Some dst', ep', sh', m) \<and>
    length dst' = length dst \<and> drop (unat rd_size) dst' = drop (unat rd_size) dst \<and>
    sb_data sh' = sb_data sh \<and> (sb_size sh = B \<longrightarrow> rx_index ep' < B)"
proof (cases "sb_wr_count sh - sb_rd_count sh = 0 \<or> rd_size = 0")
  case True
  then have "hab_pipe_read ep sh B (Some dst) rd_size clear mism snap =
      Some (0, Some dst, ep, sh, mism)"
    by (intro hab_pipe_read_refuse) blast
  with idx show ?thesis by simp
next
  case False
  let ?av = "sb_wr_count sh - sb_rd_count sh" and ?i = "rx_index ep"
  define n where "n = (if ?av < rd_size then ?av else rd_size)"
  define c1 where "c1 = (if n \<le> B - ?i then n else B - ?i)"
  define i2 where "i2 = (if 0 < c1 then (if B \<le> ?i + c1 then 0 else ?i + c1) else ?i)"
  define i3 where "i3 = (if 0 < n - c1 then i2 + (n - c1) else i2)"
  have nle: "n \<le> rd_size" by (auto simp: n_def)
  then have nB: "n \<le> B" and ndst: "unat n \<le> length dst"
    using sz dst by (auto simp: word_le_nat_alt)
  define q where "q = ring_bytes (sb_data sh) (unat ?i) (unat n) @ drop (unat n) dst"
  have copy: "pipe_copy_out (sb_data sh) ?i c1 i2 (n - c1) dst = Some q"
    unfolding q_def by (rule pipe_copy_out_eq [OF d idx nB c1_def i2_def ndst])
  have q: "length q = length dst" "drop (unat n) q = drop (unat n) dst" "unat n \<le> length q"
    using ndst by (simp_all add: q_def)
  have i3: "i3 - (n - c1) = i2" by (simp add: i3_def word_gt_0)
  obtain q' m k where
    retry: "(if clear \<and> rd_size = of_nat header_size
        then pipe_retry snap ?i c1 (i3 - (n - c1)) (n - c1) mism 0 q
        else Some (q, mism, 0)) = Some (q', m, k)"
    and q': "length q' = length q" "drop (unat n) q' = drop (unat n) q"
    using pipe_retry_total [where snap = snap and mism = mism and k = 0, OF snap idx nB c1_def i2_def q(3)] i3
    by (cases "clear \<and> rd_size = of_nat header_size") auto
  have tail: "drop (unat rd_size) q' = drop (unat rd_size) dst"
  proof -
    have "unat n \<le> unat rd_size" using nle by (simp add: word_le_nat_alt)
    then have "drop (unat rd_size) xs = drop (unat rd_size - unat n) (drop (unat n) xs)" for xs :: bytes
      by simp
    then show ?thesis by (metis q'(2) q(2))
  qed
  have Bpos: "0 < unat B" using idx by (simp add: word_less_nat_alt)
  have i3B: "i3 < B"
    using pipe_read_index [OF idx nB c1_def i2_def i3_def] Bpos by (simp add: word_less_nat_alt)
  have guard: "?av \<noteq> 0" "rd_size \<noteq> 0" "\<not> B < ?i"
    using False idx by auto
  have "hab_pipe_read ep sh B (Some dst) rd_size clear mism snap =
    Some (if m
          then (if k < 1000 then 0xFFFFFFFE else 0xFFFFFFFF, Some q',
                ep\<lparr>rx_index := (if sb_size sh \<le> ?i + 1 then 0 else ?i + 1)\<rparr>,
                sh\<lparr>sb_rd_count := sb_rd_count sh + 1\<rparr>, m)
          else (n, Some q', ep\<lparr>rx_index := i3\<rparr>,
                sh\<lparr>sb_rd_count := sb_rd_count sh + (c1 + (n - c1))\<rparr>, m))"
    unfolding hab_pipe_read_eq [OF guard n_def c1_def i2_def i3_def] copy bind.bind_lunit retry
      prod.case ..
  moreover have "(if sb_size sh \<le> ?i + 1 then 0 else ?i + 1) < B" if "sb_size sh = B"
    using that Bpos by (auto simp: not_le word_gt_0)
  moreover have "length q' = length dst" using q(1) q'(1) by (rule trans [rotated])
  ultimately show ?thesis
    using tail i3B by (cases m) (simp_all add: ex_bool_eq)
qed

text \<open>
  An index equal to the ring's size passes the test at the head of \<^verbatim>\<open>hab_pipe_read\<close>, and the copy
  that follows starts past the end of the ring.
\<close>

lemma pipe_read_index_at_size:
  assumes "rx_index ep = B" "length (sb_data sh) = unat B"
    "sb_wr_count sh - sb_rd_count sh \<noteq> 0" "rd_size \<noteq> 0"
  shows "hab_pipe_read ep sh B (Some dst) rd_size clear mism snap = None"
proof -
  define n where "n = (if sb_wr_count sh - sb_rd_count sh < rd_size
      then sb_wr_count sh - sb_rd_count sh else rd_size)"
  have n: "0 < n" using assms(3,4) by (auto simp: n_def word_gt_0)
  have "mem_read (unat B) (unat n) (sb_data sh) = None"
    using n assms(2) by (simp add: mem_read_def word_less_nat_alt)
  then have "pipe_copy_out (sb_data sh) B 0 B n dst = None"
    using n by (simp add: pipe_copy_out_def mem_write_def)
  moreover have "(if n \<le> B - rx_index ep then n else B - rx_index ep) = 0"
    using assms(1) by simp
  ultimately show ?thesis
    using hab_pipe_read_eq [OF assms(3,4) _ n_def refl refl refl, where dst = dst and clear = clear
        and mism = mism and snap = snap and B = B] assms(1)
    by simp
qed

text \<open>
  A resynchronisation step takes the wrap-around limit from the shared size field: with that
  field enlarged, the last index of the ring steps to the ring's size.
\<close>

lemma pipe_read_resync:
  assumes "rx_index ep < B" "length (sb_data sh) = unat B"
    and "sb_wr_count sh - sb_rd_count sh \<noteq> 0" "rd_size \<noteq> 0" "rd_size \<le> B"
    and "unat rd_size \<le> length dst" "\<not> clear"
  shows "\<exists>dst'. hab_pipe_read ep sh B (Some dst) rd_size clear True snap =
    Some (0xFFFFFFFE, Some dst',
          ep\<lparr>rx_index := (if sb_size sh \<le> rx_index ep + 1 then 0 else rx_index ep + 1)\<rparr>,
          sh\<lparr>sb_rd_count := sb_rd_count sh + 1\<rparr>, True)"
proof -
  define n where "n = (if sb_wr_count sh - sb_rd_count sh < rd_size
      then sb_wr_count sh - sb_rd_count sh else rd_size)"
  have "n \<le> rd_size" by (auto simp: n_def)
  then have "n \<le> B" "unat n \<le> length dst" using assms(5,6) by (auto simp: word_le_nat_alt)
  from pipe_copy_out_eq [OF assms(2,1) this(1) refl refl this(2)]
  show ?thesis
    using hab_pipe_read_eq [OF assms(3,4) _ n_def refl refl refl, where dst = dst and clear = clear
        and mism = True and snap = snap and B = B] assms(1,7)
    by auto
qed

section \<open>Properties\<close>

text \<open>A ring of eight bytes whose indices sit two bytes before its end, empty.\<close>

definition ex_ep :: hab_pipe_endpoint where
  "ex_ep = \<lparr>tx_wr_count = 0xFFFFFFFE, tx_index = 6, rx_index = 6\<rparr>"

definition ex_sh :: hab_shared_buf where
  "ex_sh = \<lparr>sb_rd_count = 0xFFFFFFFE, sb_wr_count = 0xFFFFFFFE, sb_size = 8,
     sb_data = replicate 8 0\<rparr>"

definition ex_dir :: pipe_dir where
  "ex_dir = \<lparr>pd_tx = ex_ep, pd_rx = ex_ep, pd_sh = ex_sh\<rparr>"

lemma ex_pipe:
  "pipe_inv 8 ex_ep ex_ep ex_sh" "pipe_content ex_ep ex_ep ex_sh = []"
  by (simp_all add: ex_ep_def ex_sh_def pipe_inv_def pipe_content_def ring_bytes_def)

lemma ex_dir:
  "pipe_dir_inv 8 ex_dir" "pipe_dir_content ex_dir = []"
  using ex_pipe by (simp_all add: pipe_dir_inv_def pipe_dir_content_def ex_dir_def ex_sh_def ex_ep_def)

text \<open>
  C5. Whatever the position of the indices and of the free-running counters (which may wrap around
  at 32 bits), messages that fit in an empty ring and are sent one after the other by
  \<open>hab_pipe_write\<close> and \<open>hab_pipe_write_commit\<close> are read back by \<open>hab_pipe_read\<close> byte for byte in
  the order of sending, and the ring is empty again.
\<close>

theorem pipe_messages_in_order:
  assumes "pipe_dir_inv B s" "pipe_dir_content s = []"
    and "[] \<notin> set ms" "length (concat ms) \<le> unat B"
  shows "\<exists>s' s''. send_all (pipe_send B) ms s = Some s' \<and>
    recv_all (pipe_recv B) (map length ms) s' = Some (ms, s'') \<and>
    pipe_dir_inv B s'' \<and> pipe_dir_content s'' = []"
  using assms by (rule pipe_chan.messages_in_order)

lemma pipe_messages_in_order_witness:
  "\<exists>s' s''. send_all (pipe_send 8) [[1, 2, 3], [4, 5]] ex_dir = Some s' \<and>
    recv_all (pipe_recv 8) [3, 2] s' = Some ([[1, 2, 3], [4, 5]], s'') \<and>
    pipe_dir_inv 8 s'' \<and> pipe_dir_content s'' = []"
proof -
  have lens: "map length [[1, 2, 3], [4, 5 :: u8]] = [3, 2]" by simp
  have "[] \<notin> set [[1, 2, 3], [4, 5 :: u8]]"
    "length (concat [[1, 2, 3], [4, 5 :: u8]]) \<le> unat (8 :: u32)" by simp_all
  from pipe_messages_in_order [OF ex_dir this] show ?thesis unfolding lens .
qed

text \<open>
  C23. The functional contract of \<open>hab_pipe_write\<close> on a well-formed ring: no source, no bytes or
  too little room leave the ring as it was and return 0; otherwise the bytes are appended to the
  content, are not yet visible to the reader, and \<open>hab_pipe_write_commit\<close> makes exactly the content
  visible.
\<close>

theorem hab_pipe_write_contract:
  assumes "pipe_inv B tx rx sh"
  shows "(p = None \<or> num = 0 \<or> unat B < length (pipe_content tx rx sh) + unat num \<longrightarrow>
      hab_pipe_write tx sh B p num = Some (0, tx, sh)) \<and>
    (0 < num \<longrightarrow> unat num \<le> length src \<longrightarrow>
      length (pipe_content tx rx sh) + unat num \<le> unat B \<longrightarrow>
      (\<exists>tx' sh'. hab_pipe_write tx sh B (Some src) num = Some (num, tx', sh') \<and>
        pipe_inv B tx' rx (hab_pipe_write_commit tx' sh') \<and>
        pipe_visible rx sh' = pipe_visible rx sh \<and>
        pipe_visible rx (hab_pipe_write_commit tx' sh') =
          pipe_content tx rx sh @ take (unat num) src))"
proof (intro conjI impI)
  assume "p = None \<or> num = 0 \<or> unat B < length (pipe_content tx rx sh) + unat num"
  then show "hab_pipe_write tx sh B p num = Some (0, tx, sh)"
    by (rule hab_pipe_write_reject [OF assms])
next
  assume a: "0 < num" "unat num \<le> length src"
    "length (pipe_content tx rx sh) + unat num \<le> unat B"
  obtain tx' sh' where w: "hab_pipe_write tx sh B (Some src) num = Some (num, tx', sh')"
    "pipe_inv B tx' rx sh'" "pipe_content tx' rx sh' = pipe_content tx rx sh @ take (unat num) src"
    "pipe_visible rx sh' = pipe_visible rx sh"
    using hab_pipe_write_accept [OF assms a(2,1,3)] by blast
  with hab_pipe_write_commit_visible [OF w(2)]
  show "\<exists>tx' sh'. hab_pipe_write tx sh B (Some src) num = Some (num, tx', sh') \<and>
        pipe_inv B tx' rx (hab_pipe_write_commit tx' sh') \<and>
        pipe_visible rx sh' = pipe_visible rx sh \<and>
        pipe_visible rx (hab_pipe_write_commit tx' sh') =
          pipe_content tx rx sh @ take (unat num) src"
    by auto
qed

lemma hab_pipe_write_contract_witness:
  "hab_pipe_write ex_ep ex_sh 8 (Some (replicate 9 1)) 9 = Some (0, ex_ep, ex_sh) \<and>
   (\<exists>tx' sh'. hab_pipe_write ex_ep ex_sh 8 (Some [1, 2, 3]) 3 = Some (3, tx', sh') \<and>
      pipe_visible ex_ep (hab_pipe_write_commit tx' sh') = [1, 2, 3])"
  using hab_pipe_write_contract [OF ex_pipe(1), of "Some (replicate 9 1)" 9 "[1, 2, 3]"]
    hab_pipe_write_contract [OF ex_pipe(1), of None 3 "[1, 2, 3]"]
  by (auto simp: ex_pipe(2))

text \<open>
  The reader's contract on a well-formed ring with visible bytes: a read returns the oldest
  bytes, as many as are visible and asked for, and consumes exactly those, provided the header
  test does not reject them.
\<close>

theorem hab_pipe_read_contract:
  assumes "pipe_inv B tx rx sh" "pipe_visible rx sh \<noteq> []" "0 < rd_size"
    and "n = min (length (pipe_visible rx sh)) (unat rd_size)" "n \<le> length dst"
    and "read_accepts rd_size clear mism (take n (pipe_visible rx sh) @ drop n dst)"
  shows "\<exists>rx' sh'. hab_pipe_read rx sh B (Some dst) rd_size clear mism snap =
      Some (of_nat n, Some (take n (pipe_visible rx sh) @ drop n dst), rx', sh', False) \<and>
    pipe_inv B tx rx' sh' \<and>
    pipe_visible rx' sh' = drop n (pipe_visible rx sh) \<and>
    pipe_content tx rx' sh' = drop n (pipe_content tx rx sh)"
  using assms by (rule hab_pipe_read_accept)

definition ex_sh5 :: hab_shared_buf where
  "ex_sh5 = ex_sh\<lparr>sb_wr_count := 3, sb_data := [13, 14, 15, 0, 0, 0, 11, 12]\<rparr>"

definition ex_tx5 :: hab_pipe_endpoint where
  "ex_tx5 = \<lparr>tx_wr_count = 3, tx_index = 3, rx_index = 0\<rparr>"

lemma ex_pipe5:
  "pipe_inv 8 ex_tx5 ex_ep ex_sh5" "pipe_visible ex_ep ex_sh5 = [11, 12, 13, 14, 15]"
  by (simp_all add: ex_tx5_def ex_ep_def ex_sh5_def ex_sh_def pipe_inv_def pipe_visible_def
      ring_bytes_def upt_rec)

lemma hab_pipe_read_contract_witness:
  "\<exists>rx' sh'. hab_pipe_read ex_ep ex_sh5 8 (Some [0, 0, 0]) 3 False False (\<lambda>_. []) =
      Some (3, Some [11, 12, 13], rx', sh', False) \<and> pipe_visible rx' sh' = [14, 15]"
proof -
  have "pipe_visible ex_ep ex_sh5 \<noteq> []" "0 < (3 :: u32)"
    "3 = min (length (pipe_visible ex_ep ex_sh5)) (unat (3 :: u32))" "3 \<le> length [0, 0, 0 :: u8]"
    "read_accepts 3 False False (take 3 (pipe_visible ex_ep ex_sh5) @ drop 3 [0, 0, 0])"
    by (simp_all add: ex_pipe5(2) read_accepts_def)
  note L = hab_pipe_read_contract [OF ex_pipe5(1) this, of "\<lambda>_. []", unfolded ex_pipe5(2)]
  have "take 3 [11, 12, 13, 14, 15] @ drop 3 [0, 0, 0] = [11, 12, 13 :: u8]"
    "drop 3 [11, 12, 13, 14, 15] = [14, 15 :: u8]" "(of_nat 3 :: u32) = 3" by simp_all
  from L [unfolded this] show ?thesis by blast
qed

text \<open>
  Memory safety against a hostile peer: whatever the counters and the size the peer writes into
  the shared buffer, a write started with its local index inside the ring never leaves the ring,
  keeps its index inside, and does not touch the shared counters.
\<close>

theorem hab_pipe_write_hostile_safe:
  assumes "tx_index ep < B" "length (sb_data sh) = unat B" "unat num \<le> length src"
  shows "\<exists>r ep' sh'. hab_pipe_write ep sh B (Some src) num = Some (r, ep', sh') \<and>
    tx_index ep' < B \<and> length (sb_data sh') = unat B \<and>
    sb_rd_count sh' = sb_rd_count sh \<and> sb_wr_count sh' = sb_wr_count sh"
  using assms by (rule pipe_write_safe)

lemma hab_pipe_write_hostile_safe_witness:
  "\<exists>r ep' sh'. hab_pipe_write ex_ep (ex_sh\<lparr>sb_rd_count := 12345, sb_size := 1000\<rparr>) 8
      (Some [1, 2, 3]) 3 = Some (r, ep', sh') \<and> tx_index ep' < 8"
  using hab_pipe_write_hostile_safe [of ex_ep 8 "ex_sh\<lparr>sb_rd_count := 12345, sb_size := 1000\<rparr>"
      3 "[1, 2, 3]"]
  by (auto simp: ex_ep_def ex_sh_def)

text \<open>
  C29. A read is safe against a hostile peer, also while the peer rewrites the ring during the header
  retry loop (\<open>snap\<close>): started with its local index inside the ring it returns, writes only the
  first \<open>rd_size\<close> bytes of the caller's buffer, never changes the ring, and keeps its index inside
  as long as the shared size field still holds the ring's size.
\<close>

theorem hab_pipe_read_hostile_safe:
  assumes "rx_index ep < B" "length (sb_data sh) = unat B" "\<And>k. length (snap k) = unat B"
    and "rd_size \<le> B" "unat rd_size \<le> length dst"
  shows "\<exists>r dst' ep' sh' m. hab_pipe_read ep sh B (Some dst) rd_size clear mism snap =
      Some (r, Some dst', ep', sh', m) \<and>
    length dst' = length dst \<and> drop (unat rd_size) dst' = drop (unat rd_size) dst \<and>
    sb_data sh' = sb_data sh \<and> (sb_size sh = B \<longrightarrow> rx_index ep' < B)"
  using assms by (rule pipe_read_safe)

lemma hab_pipe_read_hostile_safe_witness:
  "\<exists>r dst' ep' sh' m. hab_pipe_read ex_ep (ex_sh\<lparr>sb_wr_count := 77\<rparr>) 8 (Some [0, 0, 9]) 2 True True
      (\<lambda>_. replicate 8 0) = Some (r, Some dst', ep', sh', m) \<and> drop 2 dst' = [9] \<and>
    rx_index ep' < 8"
proof -
  have "rx_index ex_ep < 8" "length (sb_data (ex_sh\<lparr>sb_wr_count := 77\<rparr>)) = unat (8 :: u32)"
    "sb_size (ex_sh\<lparr>sb_wr_count := 77\<rparr>) = 8"
    by (simp_all add: ex_ep_def ex_sh_def)
  with hab_pipe_read_hostile_safe [of ex_ep 8 "ex_sh\<lparr>sb_wr_count := 77\<rparr>" "\<lambda>_. replicate 8 0" 2
      "[0, 0, 9]" True True]
  show ?thesis by auto
qed

text \<open>
  Where the guarantee ends.  On a mismatched header the index steps by one and wraps at the
  shared size field, which the peer owns: with that field enlarged, a reader at the last byte of
  the ring steps to the index equal to the ring's size, the test at the head of the next read lets
  that index pass, and the read that follows leaves the ring.
\<close>

theorem hab_pipe_read_resync_escape:
  assumes "rx_index ep + 1 = B" "0 < B" "length (sb_data sh) = unat B"
    and "sb_wr_count sh - sb_rd_count sh \<noteq> 0" "0 < rd_size" "rd_size \<le> B"
    and "unat rd_size \<le> length dst" "B < sb_size sh"
    and "sb_wr_count sh - (sb_rd_count sh + 1) \<noteq> 0"
  shows "\<exists>dst' ep' sh'. hab_pipe_read ep sh B (Some dst) rd_size False True snap =
      Some (0xFFFFFFFE, Some dst', ep', sh', True) \<and> rx_index ep' = B \<and>
    hab_pipe_read ep' sh' B (Some dst') rd_size False True snap' = None"
proof -
  have i: "rx_index ep < B"
    using assms(1,2) by unat_arith
  have sz: "rd_size \<noteq> 0" using assms(5) by (simp add: word_gt_0)
  have ix: "(if sb_size sh \<le> rx_index ep + 1 then 0 else rx_index ep + 1) = B"
    using assms(1,8) by auto
  from pipe_read_resync [OF i assms(3,4) sz assms(6,7), of False snap, unfolded ix]
  obtain dst' where r: "hab_pipe_read ep sh B (Some dst) rd_size False True snap =
      Some (0xFFFFFFFE, Some dst', ep\<lparr>rx_index := B\<rparr>, sh\<lparr>sb_rd_count := sb_rd_count sh + 1\<rparr>, True)"
    by auto
  have "hab_pipe_read (ep\<lparr>rx_index := B\<rparr>) (sh\<lparr>sb_rd_count := sb_rd_count sh + 1\<rparr>) B (Some dst')
      rd_size False True snap' = None"
    by (rule pipe_read_index_at_size) (use assms in auto)
  with r show ?thesis by fastforce
qed

lemma hab_pipe_read_resync_escape_witness:
  "\<exists>dst' ep' sh'. hab_pipe_read (ex_ep\<lparr>rx_index := 7\<rparr>) (ex_sh5\<lparr>sb_size := 4096\<rparr>) 8 (Some [0, 0]) 2
      False True (\<lambda>_. []) = Some (0xFFFFFFFE, Some dst', ep', sh', True) \<and> rx_index ep' = 8 \<and>
    hab_pipe_read ep' sh' 8 (Some dst') 2 False True (\<lambda>_. []) = None"
  using hab_pipe_read_resync_escape [of "ex_ep\<lparr>rx_index := 7\<rparr>" 8 "ex_sh5\<lparr>sb_size := 4096\<rparr>" 2
      "[0, 0]" "\<lambda>_. []" "\<lambda>_. []"]
  by (simp add: ex_ep_def ex_sh5_def ex_sh_def)

end
