(* ===== verification/Hab_Parser.thy ===== *)
theory Hab_Parser
  imports Hab_Proto "HOL-Library.Signed_Division"
begin

text \<open>
  Configuration: the settings table of \<^verbatim>\<open>hab_parser.c\<close>, filled from the device tree or with the
  defaults of a guest, and the generation of the physical channels from it in \<^verbatim>\<open>hab.c\<close>.  The
  device tree is an input: what the \<^verbatim>\<open>of_*\<close> calls return, an error code on the left.  \<open>None\<close> is an
  access outside an array.
\<close>

section \<open>The settings table\<close>

abbreviation (input) HABCFG_VMID_MAX :: nat where "HABCFG_VMID_MAX \<equiv> 16"
abbreviation (input) HABCFG_MMID_AREA_MAX :: nat where "HABCFG_MMID_AREA_MAX \<equiv> 16"
abbreviation (input) HABCFG_VMID_INVALID :: int where "HABCFG_VMID_INVALID \<equiv> - 1"
abbreviation (input) HABCFG_VMID_DONT_CARE :: int where "HABCFG_VMID_DONT_CARE \<equiv> - 2"
abbreviation (input) MM_AUD_START :: int where "MM_AUD_START \<equiv> 100"
abbreviation (input) MM_ID_MAX :: int where "MM_ID_MAX \<equiv> 1603"

record vmid_mmid_desc =
  vd_vmid :: int
  vd_mmid :: "int list"
  vd_is_listener :: "int list"

record local_vmid =
  lv_self :: int
  lv_list :: "vmid_mmid_desc list"

text \<open>The table after \<^verbatim>\<open>memset(&hab_driver.settings, HABCFG_VMID_INVALID, ...)\<close>.\<close>

definition desc_invalid :: vmid_mmid_desc where
  "desc_invalid = \<lparr>vd_vmid = - 1, vd_mmid = replicate (HABCFG_MMID_AREA_MAX + 1) (- 1),
     vd_is_listener = replicate (HABCFG_MMID_AREA_MAX + 1) (- 1)\<rparr>"

definition settings_invalid :: local_vmid where
  "settings_invalid = \<lparr>lv_self = - 1, lv_list = replicate HABCFG_VMID_MAX desc_invalid\<rparr>"

definition in_range :: "int \<Rightarrow> 'a list \<Rightarrow> bool" where
  "in_range i xs \<longleftrightarrow> 0 \<le> i \<and> nat i < length xs"

text \<open>The two loops of \<^verbatim>\<open>fill_vmid_mmid_tbl\<close>; the count is what is left of the range.\<close>

fun fill_mmids :: "vmid_mmid_desc \<Rightarrow> int \<Rightarrow> nat \<Rightarrow> int \<Rightarrow> vmid_mmid_desc option" where
  "fill_mmids d j 0 be = Some d"
| "fill_mmids d j (Suc n) be =
     (if in_range j (vd_mmid d) \<and> in_range j (vd_is_listener d)
      then fill_mmids (d\<lparr>vd_mmid := (vd_mmid d)[nat j := j],
                         vd_is_listener := (vd_is_listener d)[nat j := be]\<rparr>) (j + 1) n be
      else None)"

fun fill_vms ::
  "vmid_mmid_desc list \<Rightarrow> int \<Rightarrow> nat \<Rightarrow> int \<Rightarrow> nat \<Rightarrow> int \<Rightarrow> vmid_mmid_desc list option" where
  "fill_vms tbl i 0 mmid_start mmid_range be = Some tbl"
| "fill_vms tbl i (Suc n) mmid_start mmid_range be =
     (if in_range i tbl then do {
        d \<leftarrow> fill_mmids ((tbl ! nat i)\<lparr>vd_vmid := i\<rparr>) mmid_start mmid_range be;
        fill_vms (tbl[nat i := d]) (i + 1) n mmid_start mmid_range be
      } else None)"

definition fill_vmid_mmid_tbl ::
  "vmid_mmid_desc list \<Rightarrow> int \<Rightarrow> int \<Rightarrow> int \<Rightarrow> int \<Rightarrow> int \<Rightarrow> (int \<times> vmid_mmid_desc list) option"
where
  "fill_vmid_mmid_tbl tbl vm_start vm_range mmid_start mmid_range be = do {
     tbl' \<leftarrow> fill_vms tbl vm_start (nat vm_range) mmid_start (nat mmid_range) be;
     Some (0, tbl')
   }"

text \<open>\<open>vhost\<close> is \<^verbatim>\<open>CONFIG_MSM_VHOST_HAB\<close>: the host listens to one guest, a guest opens to the host.\<close>

definition fill_default_gvm_settings ::
  "bool \<Rightarrow> local_vmid \<Rightarrow> int \<Rightarrow> int \<Rightarrow> int \<Rightarrow> (int \<times> local_vmid) option" where
  "fill_default_gvm_settings vhost settings vmid mmid_start mmid_end =
     (let be = (if vhost then 1 else 0);
          vmremote = (if vhost then vmid else 0);
          self = (if vhost then 0 else vmid)
      in do {
        (r, tbl) \<leftarrow> fill_vmid_mmid_tbl (lv_list settings) vmremote 1
                     (mmid_start sdiv 100) ((mmid_end - mmid_start) sdiv 100 + 1) be;
        Some (r, settings\<lparr>lv_self := self, lv_list := tbl\<rparr>)
      })"

section \<open>The device tree\<close>

record dt_group =
  dg_start_id :: "int + u32"
  dg_role :: "int + string"
  dg_remote_vmids :: "int + u32 list"

record dt_hab =
  dh_vmid :: "int + u32"
  dh_groups :: "dt_group list"

fun dt_fill_vmids ::
  "local_vmid \<Rightarrow> u32 list \<Rightarrow> int \<Rightarrow> int \<Rightarrow> (int \<times> local_vmid) option" where
  "dt_fill_vmids settings [] grp_start_id be = Some (0, settings)"
| "dt_fill_vmids settings (v # vs) grp_start_id be =
     (if HABCFG_VMID_MAX \<le> unat v then Some (- EINVAL, settings)
      else do {
        (r, tbl) \<leftarrow> fill_vmid_mmid_tbl (lv_list settings) (uint v) 1 (grp_start_id sdiv 100) 1 be;
        if r \<noteq> 0 then Some (r, settings\<lparr>lv_list := tbl\<rparr>)
        else dt_fill_vmids (settings\<lparr>lv_list := tbl\<rparr>) vs grp_start_id be
      })"

text \<open>The remote vmids are copied into an array of sixteen on the stack.\<close>

fun dt_groups :: "local_vmid \<Rightarrow> dt_group list \<Rightarrow> (int \<times> local_vmid) option" where
  "dt_groups settings [] = Some (0, settings)"
| "dt_groups settings (g # gs) =
     (case dg_start_id g of
        Inl e \<Rightarrow> Some (e, settings)
      | Inr start \<Rightarrow>
          (case dg_role g of
             Inl e \<Rightarrow> Some (e, settings)
           | Inr role \<Rightarrow>
               let be = (if role = ''be'' then 1 else 0) in
               (case dg_remote_vmids g of
                  Inl e \<Rightarrow> Some (e, settings)
                | Inr vmids \<Rightarrow>
                    if 16 < length vmids then None
                    else do {
                      (r, settings') \<leftarrow> dt_fill_vmids settings vmids (sint start) be;
                      if r \<noteq> 0 then Some (r, settings') else dt_groups settings' gs
                    })))"

definition hab_parse_dt :: "dt_hab option \<Rightarrow> local_vmid \<Rightarrow> (int \<times> local_vmid) option" where
  "hab_parse_dt node settings =
     (case node of
        None \<Rightarrow> Some (- ENODEV, settings)
      | Some n \<Rightarrow>
          (case dh_vmid n of
             Inl e \<Rightarrow> Some (e, settings)
           | Inr v \<Rightarrow> dt_groups (settings\<lparr>lv_self := sint v\<rparr>) (dh_groups n)))"

definition hab_parse :: "dt_hab option \<Rightarrow> local_vmid \<Rightarrow> (int \<times> local_vmid) option" where
  "hab_parse node settings = hab_parse_dt node settings"

section \<open>Generation of the physical channels\<close>

text \<open>\<^verbatim>\<open>hab_devices\<close>: the multimedia devices by name and id.\<close>

definition hab_device_table :: "(string \<times> u32) list" where
  "hab_device_table =
     [(''hab_aud1'', 101), (''hab_aud2'', 102), (''hab_aud3'', 103), (''hab_aud4'', 104),
      (''hab_cam1'', 201), (''hab_cam2'', 202), (''hab_disp1'', 301), (''hab_disp2'', 302),
      (''hab_disp3'', 303), (''hab_disp4'', 304), (''hab_disp5'', 305), (''hab_ogles'', 401),
      (''hab_vid'', 501), (''hab_vid2'', 502), (''hab_vid3'', 503), (''hab_misc'', 601),
      (''hab_qcpe_vm1'', 701), (''hab_clock_vm1'', 801), (''hab_clock_vm2'', 802),
      (''hab_fde1'', 901), (''hab_bufferq1'', 1001), (''hab_data_network1'', 1101),
      (''hab_data_network2'', 1102), (''hab_hsi2s1'', 1201), (''hab_xvm1'', 1301),
      (''hab_xvm2'', 1302), (''hab_xvm3'', 1303), (''hab_vnw1'', 1401), (''hab_ext1'', 1501),
      (''hab_gpce1'', 1601)]"

text \<open>The index of the device in the table.\<close>

definition find_hab_device :: "u32 \<Rightarrow> nat option" where
  "find_hab_device mm_id =
     map_option (\<lambda>(before, _, _). length before)
       (take_first (\<lambda>(nm, i). i = HAB_MMID_GET_MAJOR mm_id) hab_device_table)"

text \<open>\<^verbatim>\<open>%d\<close> of a C int.\<close>

fun nat_dec :: "nat \<Rightarrow> string" where
  "nat_dec n = (if n < 10 then [char_of (48 + n)] else nat_dec (n div 10) @ [char_of (48 + n mod 10)])"

declare nat_dec.simps [simp del]

definition int_dec :: "int \<Rightarrow> string" where
  "int_dec i = (if i < 0 then CHR ''-'' # nat_dec (nat (- i)) else nat_dec (nat i))"

text \<open>A request to \<^verbatim>\<open>habhyp_commdev_alloc\<close>: device, name, local and remote vmid, role.\<close>

record pchan_req =
  pq_dev :: nat
  pq_name :: string
  pq_vmid_local :: int
  pq_vmid_remote :: int
  pq_is_be :: int

text \<open>
  \<open>alloc\<close> stands for the hypervisor layer's \<^verbatim>\<open>habhyp_commdev_alloc\<close> together with the assignment
  of the vmids to the channel it returns; it yields an error code and the new state of that layer.
\<close>

definition hab_initialize_pchan_entry ::
  "(pchan_req \<Rightarrow> 's \<Rightarrow> int \<times> 's) \<Rightarrow> nat option \<Rightarrow> int \<Rightarrow> int \<Rightarrow> int \<Rightarrow> 's \<Rightarrow> int \<times> 's" where
  "hab_initialize_pchan_entry alloc dev vmid_local vmid_remote is_be s =
     (case dev of
        None \<Rightarrow> (- EINVAL, s)
      | Some d \<Rightarrow>
          let vmid = (if is_be \<noteq> 0 then vmid_remote else vmid_local);
              nm = take 29 (take 29 (''vm'' @ int_dec vmid @ ''-'') @ fst (hab_device_table ! d))
          in alloc \<lparr>pq_dev = d, pq_name = nm, pq_vmid_local = vmid_local,
                    pq_vmid_remote = vmid_remote, pq_is_be = is_be\<rparr> s)"

fun pchan_group_loop ::
  "(pchan_req \<Rightarrow> 's \<Rightarrow> int \<times> 's) \<Rightarrow> int \<Rightarrow> int \<Rightarrow> int \<Rightarrow> int list \<Rightarrow> int \<Rightarrow> 's \<Rightarrow> int \<times> 's" where
  "pchan_group_loop alloc self vmid be [] ret s = (ret, s)"
| "pchan_group_loop alloc self vmid be (k # ks) ret s =
     (case hab_initialize_pchan_entry alloc (find_hab_device (of_int k)) self vmid be s of
        (r, s') \<Rightarrow> pchan_group_loop alloc self vmid be ks (ret + r) s')"

definition hab_generate_pchan_group ::
  "(pchan_req \<Rightarrow> 's \<Rightarrow> int \<times> 's) \<Rightarrow> local_vmid \<Rightarrow> nat \<Rightarrow> nat \<Rightarrow> int \<Rightarrow> int \<Rightarrow> 's \<Rightarrow> int \<times> 's"
where
  "hab_generate_pchan_group alloc settings i j start stop s =
     pchan_group_loop alloc (lv_self settings) (vd_vmid (lv_list settings ! i))
       (vd_is_listener (lv_list settings ! i) ! j) [start + 1..stop - 1] 0 s"

text \<open>The switch of \<^verbatim>\<open>hab_generate_pchan\<close>: case label, first and last identifier of the area.\<close>

definition mmid_areas :: "(int \<times> int \<times> int) list" where
  "mmid_areas =
     [(1, 100, 105), (2, 200, 203), (3, 300, 306), (4, 400, 402), (5, 500, 504), (6, 600, 602),
      (7, 700, 702), (8, 800, 803), (9, 900, 902), (10, 1000, 1002), (11, 1100, 1103),
      (12, 1200, 1202), (13, 1300, 1304), (14, 1400, 1402), (15, 1500, 1502), (16, 1600, 1602)]"

definition hab_generate_pchan ::
  "(pchan_req \<Rightarrow> 's \<Rightarrow> int \<times> 's) \<Rightarrow> local_vmid \<Rightarrow> nat \<Rightarrow> nat \<Rightarrow> 's \<Rightarrow> int \<times> 's" where
  "hab_generate_pchan alloc settings i j s =
     (case map_of mmid_areas (vd_mmid (lv_list settings ! i) ! j) of
        Some (start, stop) \<Rightarrow> hab_generate_pchan_group alloc settings i j start stop s
      | None \<Rightarrow> (0, s))"

fun pchan_area_loop ::
  "(pchan_req \<Rightarrow> 's \<Rightarrow> int \<times> 's) \<Rightarrow> local_vmid \<Rightarrow> nat \<Rightarrow> nat list \<Rightarrow> int \<Rightarrow> 's \<Rightarrow> int \<times> 's" where
  "pchan_area_loop alloc settings i [] ret s = (ret, s)"
| "pchan_area_loop alloc settings i (j # js) ret s =
     (if vd_mmid (lv_list settings ! i) ! j \<noteq> HABCFG_VMID_INVALID
      then (case hab_generate_pchan alloc settings i j s of
              (r, s') \<Rightarrow> pchan_area_loop alloc settings i js r s')
      else pchan_area_loop alloc settings i js ret s)"

fun pchan_vm_loop ::
  "(pchan_req \<Rightarrow> 's \<Rightarrow> int \<times> 's) \<Rightarrow> local_vmid \<Rightarrow> nat list \<Rightarrow> int \<Rightarrow> 's \<Rightarrow> int \<times> 's" where
  "pchan_vm_loop alloc settings [] ret s = (ret, s)"
| "pchan_vm_loop alloc settings (i # is) ret s =
     (if vd_vmid (lv_list settings ! i) \<noteq> HABCFG_VMID_INVALID \<and>
         vd_vmid (lv_list settings ! i) \<noteq> lv_self settings
      then (case pchan_area_loop alloc settings i [1..<HABCFG_MMID_AREA_MAX + 1] ret s of
              (r, s') \<Rightarrow> pchan_vm_loop alloc settings is r s')
      else pchan_vm_loop alloc settings is ret s)"

definition hab_generate_pchan_list ::
  "(pchan_req \<Rightarrow> 's \<Rightarrow> int \<times> 's) \<Rightarrow> local_vmid \<Rightarrow> 's \<Rightarrow> int \<times> 's" where
  "hab_generate_pchan_list alloc settings s =
     pchan_vm_loop alloc settings [0..<HABCFG_VMID_MAX] 0 s"

text \<open>\<open>hyp_register\<close> is the result of \<^verbatim>\<open>hab_hypervisor_register\<close>, \<open>2\<close> the default guest vmid.\<close>

definition do_hab_parse ::
  "bool \<Rightarrow> int \<Rightarrow> dt_hab option \<Rightarrow> (pchan_req \<Rightarrow> 's \<Rightarrow> int \<times> 's) \<Rightarrow> 's \<Rightarrow>
     (int \<times> local_vmid \<times> 's) option" where
  "do_hab_parse vhost hyp_register node alloc s =
     (if hyp_register \<noteq> 0 then Some (hyp_register, settings_invalid, s)
      else do {
        (r, settings) \<leftarrow> hab_parse node settings_invalid;
        settings' \<leftarrow>
          (if r \<noteq> 0
           then map_option snd (fill_default_gvm_settings vhost settings 2 MM_AUD_START MM_ID_MAX)
           else Some settings);
        (let (r', s') = hab_generate_pchan_list alloc settings' s in Some (r', settings', s'))
      })"

section \<open>What a fill sets\<close>

definition table_shape :: "vmid_mmid_desc list \<Rightarrow> bool" where
  "table_shape tbl \<longleftrightarrow> length tbl = HABCFG_VMID_MAX \<and>
     (\<forall>d \<in> set tbl. length (vd_mmid d) = HABCFG_MMID_AREA_MAX + 1 \<and>
        length (vd_is_listener d) = HABCFG_MMID_AREA_MAX + 1)"

lemma table_shape_nth:
  "table_shape tbl \<Longrightarrow> i < 16 \<Longrightarrow>
     length (vd_mmid (tbl ! i)) = 17 \<and> length (vd_is_listener (tbl ! i)) = 17"
  by (simp add: table_shape_def)

lemma table_shape_update:
  "table_shape tbl \<Longrightarrow> length (vd_mmid d) = 17 \<Longrightarrow> length (vd_is_listener d) = 17 \<Longrightarrow>
     table_shape (tbl[i := d])"
  by (auto simp: table_shape_def dest!: set_update_subset_insert [THEN subsetD])

lemma table_shape_invalid: "table_shape (lv_list settings_invalid)"
  by (simp add: table_shape_def settings_invalid_def desc_invalid_def)

lemma in_range_int [simp]: "in_range (int k) xs \<longleftrightarrow> k < length xs"
  by (simp add: in_range_def)

lemma fill_mmids_set:
  assumes "k + n \<le> length (vd_mmid d)" "length (vd_is_listener d) = length (vd_mmid d)"
  shows "\<exists>d'. fill_mmids d (int k) n be = Some d' \<and> vd_vmid d' = vd_vmid d \<and>
    length (vd_mmid d') = length (vd_mmid d) \<and>
    length (vd_is_listener d') = length (vd_is_listener d) \<and>
    (\<forall>j < length (vd_mmid d).
       vd_mmid d' ! j = (if k \<le> j \<and> j < k + n then int j else vd_mmid d ! j) \<and>
       vd_is_listener d' ! j = (if k \<le> j \<and> j < k + n then be else vd_is_listener d ! j))"
  using assms
proof (induction n arbitrary: k d)
  case 0
  then show ?case by simp
next
  case (Suc n)
  let ?d = "d\<lparr>vd_mmid := (vd_mmid d)[k := int k], vd_is_listener := (vd_is_listener d)[k := be]\<rparr>"
  have "Suc k + n \<le> length (vd_mmid ?d)" "length (vd_is_listener ?d) = length (vd_mmid ?d)"
    using Suc.prems by simp_all
  from Suc.IH [OF this] obtain d' where d': "fill_mmids ?d (int (Suc k)) n be = Some d'"
    "vd_vmid d' = vd_vmid ?d" "length (vd_mmid d') = length (vd_mmid ?d)"
    "length (vd_is_listener d') = length (vd_is_listener ?d)"
    "\<forall>j < length (vd_mmid ?d).
       vd_mmid d' ! j = (if Suc k \<le> j \<and> j < Suc k + n then int j else vd_mmid ?d ! j) \<and>
       vd_is_listener d' ! j =
         (if Suc k \<le> j \<and> j < Suc k + n then be else vd_is_listener ?d ! j)"
    by blast
  have "fill_mmids d (int k) (Suc n) be = Some d'"
    using d'(1) Suc.prems by (simp add: add.commute)
  moreover have "vd_mmid d' ! j = (if k \<le> j \<and> j < k + Suc n then int j else vd_mmid d ! j) \<and>
       vd_is_listener d' ! j = (if k \<le> j \<and> j < k + Suc n then be else vd_is_listener d ! j)"
    if "j < length (vd_mmid d)" for j
    using d'(5) that Suc.prems by (cases "j = k") auto
  ultimately show ?case using d'(2-4) by simp
qed

lemma fill_mmids_outside:
  assumes "length (vd_mmid d) < k + n" "0 < n"
  shows "fill_mmids d (int k) n be = None"
  using assms
proof (induction n arbitrary: k d)
  case (Suc n)
  then show ?case
  proof (cases "k < length (vd_mmid d) \<and> n \<noteq> 0")
    case True
    let ?d = "d\<lparr>vd_mmid := (vd_mmid d)[k := int k], vd_is_listener := (vd_is_listener d)[k := be]\<rparr>"
    have "fill_mmids ?d (int (Suc k)) n be = None"
      using Suc True by (intro Suc.IH) auto
    then show ?thesis by (simp add: add.commute)
  qed (use Suc.prems in auto)
qed simp

text \<open>One row of the table; \<open>set_entry\<close> is what one fill of one area of one row does.\<close>

definition set_entry :: "nat \<Rightarrow> nat \<Rightarrow> int \<Rightarrow> vmid_mmid_desc list \<Rightarrow> vmid_mmid_desc list" where
  "set_entry i j be tbl =
     tbl[i := (tbl ! i)\<lparr>vd_vmid := int i, vd_mmid := (vd_mmid (tbl ! i))[j := int j],
                        vd_is_listener := (vd_is_listener (tbl ! i))[j := be]\<rparr>]"

lemma fill_one_entry:
  assumes "table_shape tbl" "i < 16" "j < 17"
  shows "fill_vmid_mmid_tbl tbl (int i) 1 (int j) 1 be = Some (0, set_entry i j be tbl)"
  using table_shape_nth [OF assms(1,2)] assms
  by (simp add: fill_vmid_mmid_tbl_def set_entry_def table_shape_def)

lemma fill_one_entry_outside:
  assumes "table_shape tbl" "i < 16" "17 \<le> j"
  shows "fill_vmid_mmid_tbl tbl (int i) 1 (int j) 1 be = None"
  using table_shape_nth [OF assms(1,2)] assms
  by (simp add: fill_vmid_mmid_tbl_def table_shape_def)

lemma table_shape_set_entry: "table_shape tbl \<Longrightarrow> i < 16 \<Longrightarrow> table_shape (set_entry i j be tbl)"
  unfolding set_entry_def by (rule table_shape_update) (simp_all add: table_shape_nth)

text \<open>The fields of the table as functions of the row and the area.\<close>

definition tbl_vmid :: "vmid_mmid_desc list \<Rightarrow> nat \<Rightarrow> int" where
  "tbl_vmid tbl i = vd_vmid (tbl ! i)"

definition tbl_mmid :: "vmid_mmid_desc list \<Rightarrow> nat \<Rightarrow> nat \<Rightarrow> int" where
  "tbl_mmid tbl i j = vd_mmid (tbl ! i) ! j"

definition tbl_be :: "vmid_mmid_desc list \<Rightarrow> nat \<Rightarrow> nat \<Rightarrow> int" where
  "tbl_be tbl i j = vd_is_listener (tbl ! i) ! j"

lemma set_entry_fields:
  assumes "table_shape tbl" "i < 16" "j < 17" "i' < 16" "j' < 17"
  shows "tbl_vmid (set_entry i j be tbl) i' = (if i' = i then int i else tbl_vmid tbl i')"
    "tbl_mmid (set_entry i j be tbl) i' j' = (if i' = i \<and> j' = j then int j else tbl_mmid tbl i' j')"
    "tbl_be (set_entry i j be tbl) i' j' = (if i' = i \<and> j' = j then be else tbl_be tbl i' j')"
  using table_shape_nth [OF assms(1,2)] assms
  by (auto simp: set_entry_def tbl_vmid_def tbl_mmid_def tbl_be_def table_shape_def nth_list_update)

section \<open>The device tree as a table\<close>

text \<open>A group the parser accepts, and what the table holds after a list of them.\<close>

definition group_ok :: "dt_group \<Rightarrow> bool" where
  "group_ok g \<longleftrightarrow>
     (case (dg_start_id g, dg_role g, dg_remote_vmids g) of
        (Inr start, Inr role, Inr vmids) \<Rightarrow>
          0 \<le> sint start \<and> sint start < 1700 \<and> length vmids \<le> 16 \<and> (\<forall>v \<in> set vmids. unat v < 16)
      | _ \<Rightarrow> False)"

definition group_area :: "dt_group \<Rightarrow> nat" where
  "group_area g = (case dg_start_id g of Inr start \<Rightarrow> nat (sint start div 100) | Inl _ \<Rightarrow> 0)"

definition group_vms :: "dt_group \<Rightarrow> nat set" where
  "group_vms g = (case dg_remote_vmids g of Inr vmids \<Rightarrow> unat ` set vmids | Inl _ \<Rightarrow> {})"

definition group_be :: "dt_group \<Rightarrow> int" where
  "group_be g = (if dg_role g = Inr ''be'' then 1 else 0)"

definition group_covers :: "nat \<Rightarrow> nat \<Rightarrow> dt_group \<Rightarrow> bool" where
  "group_covers i j g \<longleftrightarrow> i \<in> group_vms g \<and> group_area g = j"

text \<open>\<open>tbl\<close> after the groups \<open>gs\<close> were added to \<open>tbl0\<close>: the last group that covers an entry
  decides its role.\<close>

definition table_after :: "vmid_mmid_desc list \<Rightarrow> dt_group list \<Rightarrow> vmid_mmid_desc list \<Rightarrow> bool" where
  "table_after tbl0 gs tbl \<longleftrightarrow> table_shape tbl \<and>
     (\<forall>i < 16. tbl_vmid tbl i = (if \<exists>g \<in> set gs. i \<in> group_vms g then int i else tbl_vmid tbl0 i) \<and>
       (\<forall>j < 17.
          tbl_mmid tbl i j = (if \<exists>g \<in> set gs. group_covers i j g then int j else tbl_mmid tbl0 i j) \<and>
          tbl_be tbl i j = fold (\<lambda>g b. if group_covers i j g then group_be g else b) gs
                             (tbl_be tbl0 i j)))"

lemma sdiv_nonneg: "0 \<le> (start :: int) \<Longrightarrow> start sdiv 100 = start div 100"
  by (cases "start = 0") (auto simp: signed_divide_int_def)

lemma dt_fill_vmids_ok:
  assumes "table_shape (lv_list st)" "\<forall>v \<in> set vs. unat v < 16" "0 \<le> start" "start < 1700"
  shows "\<exists>st'. dt_fill_vmids st vs start be = Some (0, st') \<and> lv_self st' = lv_self st \<and>
    table_shape (lv_list st') \<and>
    (\<forall>i < 16. tbl_vmid (lv_list st') i =
        (if i \<in> unat ` set vs then int i else tbl_vmid (lv_list st) i) \<and>
      (\<forall>j < 17.
        tbl_mmid (lv_list st') i j = (if i \<in> unat ` set vs \<and> j = nat (start div 100) then int j
                                      else tbl_mmid (lv_list st) i j) \<and>
        tbl_be (lv_list st') i j = (if i \<in> unat ` set vs \<and> j = nat (start div 100) then be
                                    else tbl_be (lv_list st) i j)))"
  using assms
proof (induction vs arbitrary: st)
  case Nil
  then show ?case by simp
next
  case (Cons v vs)
  define j0 where "j0 = nat (start div 100)"
  have j0: "start sdiv 100 = int j0" "j0 < 17"
    using Cons.prems(3,4) by (auto simp: j0_def sdiv_nonneg)
  have v: "unat v < 16" "uint v = int (unat v)" using Cons.prems(2) by simp_all
  let ?tbl = "set_entry (unat v) j0 be (lv_list st)"
  let ?st = "st\<lparr>lv_list := ?tbl\<rparr>"
  have sh: "table_shape (lv_list ?st)"
    using table_shape_set_entry [OF Cons.prems(1) v(1)] by simp
  have step: "dt_fill_vmids st (v # vs) start be = dt_fill_vmids ?st vs start be"
  proof -
    have "fill_vmid_mmid_tbl (lv_list st) (uint v) 1 (start sdiv 100) 1 be = Some (0, ?tbl)"
      using fill_one_entry [OF Cons.prems(1) v(1) j0(2), of be] by (simp only: v(2) j0(1))
    then show ?thesis using v(1) by simp
  qed
  have "\<forall>v \<in> set vs. unat v < 16" using Cons.prems(2) by simp
  from Cons.IH [OF sh this Cons.prems(3,4)] obtain st' where st':
    "dt_fill_vmids ?st vs start be = Some (0, st')" "lv_self st' = lv_self ?st"
    "table_shape (lv_list st')"
    "\<forall>i < 16. tbl_vmid (lv_list st') i =
        (if i \<in> unat ` set vs then int i else tbl_vmid ?tbl i) \<and>
      (\<forall>j < 17.
        tbl_mmid (lv_list st') i j = (if i \<in> unat ` set vs \<and> j = nat (start div 100) then int j
                                      else tbl_mmid ?tbl i j) \<and>
        tbl_be (lv_list st') i j = (if i \<in> unat ` set vs \<and> j = nat (start div 100) then be
                                    else tbl_be ?tbl i j))"
    by auto
  note f = set_entry_fields [OF Cons.prems(1) v(1) j0(2)]
  have "tbl_vmid (lv_list st') i =
      (if i \<in> unat ` set (v # vs) then int i else tbl_vmid (lv_list st) i)" if "i < 16" for i
    using st'(4) f(1) [OF that, of 0] that by auto
  moreover have
    "tbl_mmid (lv_list st') i j = (if i \<in> unat ` set (v # vs) \<and> j = nat (start div 100) then int j
       else tbl_mmid (lv_list st) i j) \<and>
     tbl_be (lv_list st') i j = (if i \<in> unat ` set (v # vs) \<and> j = nat (start div 100) then be
       else tbl_be (lv_list st) i j)" if "i < 16" "j < 17" for i j
    using st'(4) f(2,3) [OF that] that by (auto simp: j0_def)
  ultimately show ?case
    unfolding step using st'(1-3) by simp
qed

lemma table_after_refl: "table_shape tbl \<Longrightarrow> table_after tbl [] tbl"
  by (simp add: table_after_def)

lemma table_after_Cons:
  assumes g: "group_ok g" and t: "table_after tbl1 gs tbl"
    and v: "\<forall>i < 16. tbl_vmid tbl1 i = (if i \<in> group_vms g then int i else tbl_vmid tbl0 i)"
    and e: "\<forall>i < 16. \<forall>j < 17.
       tbl_mmid tbl1 i j = (if group_covers i j g then int j else tbl_mmid tbl0 i j) \<and>
       tbl_be tbl1 i j = (if group_covers i j g then group_be g else tbl_be tbl0 i j)"
  shows "table_after tbl0 (g # gs) tbl"
  using t v e by (simp add: table_after_def)

lemma dt_groups_ok:
  assumes "table_shape (lv_list st)" "\<forall>g \<in> set gs. group_ok g"
  shows "\<exists>st'. dt_groups st gs = Some (0, st') \<and> lv_self st' = lv_self st \<and>
    table_after (lv_list st) gs (lv_list st')"
  using assms
proof (induction gs arbitrary: st)
  case Nil
  then show ?case by (simp add: table_after_refl)
next
  case (Cons g gs)
  then have g: "group_ok g" by simp
  then obtain start role vs where f: "dg_start_id g = Inr start" "dg_role g = Inr role"
    "dg_remote_vmids g = Inr vs" "0 \<le> sint start" "sint start < 1700" "length vs \<le> 16"
    "\<forall>v \<in> set vs. unat v < 16"
    by (auto simp: group_ok_def split: sum.splits)
  let ?be = "if role = ''be'' then 1 else 0 :: int"
  from dt_fill_vmids_ok [OF Cons.prems(1) f(7,4,5), of ?be] obtain st1 where st1:
    "dt_fill_vmids st vs (sint start) ?be = Some (0, st1)" "lv_self st1 = lv_self st"
    "table_shape (lv_list st1)"
    "\<forall>i < 16. tbl_vmid (lv_list st1) i =
        (if i \<in> unat ` set vs then int i else tbl_vmid (lv_list st) i) \<and>
      (\<forall>j < 17.
        tbl_mmid (lv_list st1) i j = (if i \<in> unat ` set vs \<and> j = nat (sint start div 100) then int j
                                      else tbl_mmid (lv_list st) i j) \<and>
        tbl_be (lv_list st1) i j = (if i \<in> unat ` set vs \<and> j = nat (sint start div 100) then ?be
                                    else tbl_be (lv_list st) i j))"
    by blast
  from Cons.IH [OF st1(3)] Cons.prems(2) obtain st' where st':
    "dt_groups st1 gs = Some (0, st')" "lv_self st' = lv_self st1"
    "table_after (lv_list st1) gs (lv_list st')" by auto
  have "table_after (lv_list st) (g # gs) (lv_list st')"
    by (rule table_after_Cons [OF g st'(3)])
      (use st1(4) in \<open>auto simp: group_vms_def group_covers_def group_area_def group_be_def f\<close>)
  moreover have "dt_groups st (g # gs) = Some (0, st')"
    using f st1(1) st'(1) by (simp add: Let_def)
  ultimately show ?case using st'(2) st1(2) by simp
qed

section \<open>Properties\<close>

text \<open>
  C30. A device tree whose groups are well formed is accepted and the settings table holds exactly
  what it says: a row is valid when some group names that vmid, an entry is valid when some group
  with that area names the row, the last such group decides whether the local end listens, and
  everything else keeps its invalid mark.
\<close>

theorem hab_parse_dt_table:
  assumes "\<forall>g \<in> set gs. group_ok g"
  shows "\<exists>st. hab_parse_dt (Some \<lparr>dh_vmid = Inr v, dh_groups = gs\<rparr>) settings_invalid = Some (0, st) \<and>
    lv_self st = sint v \<and> table_after (lv_list settings_invalid) gs (lv_list st)"
proof -
  have "table_shape (lv_list (settings_invalid\<lparr>lv_self := sint v\<rparr>))"
    using table_shape_invalid by simp
  from dt_groups_ok [OF this assms] show ?thesis
    by (auto simp: hab_parse_dt_def)
qed

lemma hab_parse_dt_table_witness:
  "\<exists>st. hab_parse_dt (Some \<lparr>dh_vmid = Inr 0, dh_groups =
      [\<lparr>dg_start_id = Inr 100, dg_role = Inr ''be'', dg_remote_vmids = Inr [2, 3]\<rparr>]\<rparr>)
      settings_invalid = Some (0, st) \<and> tbl_be (lv_list st) 3 1 = 1"
  using hab_parse_dt_table [of
      "[\<lparr>dg_start_id = Inr 100, dg_role = Inr ''be'', dg_remote_vmids = Inr [2, 3]\<rparr>]" 0]
  by (auto simp: group_ok_def table_after_def group_covers_def group_vms_def group_area_def
      group_be_def)

text \<open>
  The parser does not check the group's start identifier nor the number of remote vmids: an
  area beyond the table's last column, or more vmids than the stack array holds, is an access
  outside the array.
\<close>

theorem hab_parse_dt_outside:
  assumes "dg_role g = Inr role" "dg_start_id g = Inr start" "dg_remote_vmids g = Inr vmids"
    and "(1700 \<le> sint start \<and> vmids \<noteq> [] \<and> unat (hd vmids) < 16) \<or> 16 < length vmids"
  shows "hab_parse_dt (Some \<lparr>dh_vmid = Inr v, dh_groups = g # gs\<rparr>) settings_invalid = None"
proof (cases "16 < length vmids")
  case True
  then show ?thesis using assms(1-3) by (simp add: hab_parse_dt_def Let_def)
next
  case False
  with assms(4) obtain w vs where w: "vmids = w # vs" "unat w < 16" "1700 \<le> sint start"
    by (cases vmids) auto
  define j where "j = nat (sint start div 100)"
  have j: "sint start sdiv 100 = int j" "17 \<le> j" and wi: "uint w = int (unat w)"
    using w(3) by (simp_all add: j_def sdiv_nonneg)
  have "table_shape (lv_list (settings_invalid\<lparr>lv_self := sint v\<rparr>))"
    using table_shape_invalid by simp
  from fill_one_entry_outside [OF this w(2) j(2)]
  have "fill_vmid_mmid_tbl (lv_list (settings_invalid\<lparr>lv_self := sint v\<rparr>)) (uint w) 1
      (sint start sdiv 100) 1 be = None" for be
    by (simp only: wi j(1))
  then show ?thesis
    using assms(1-3) w False by (simp add: hab_parse_dt_def Let_def)
qed

lemma hab_parse_dt_outside_witness:
  "hab_parse_dt (Some \<lparr>dh_vmid = Inr 0, dh_groups =
      [\<lparr>dg_start_id = Inr 5000, dg_role = Inr ''fe'', dg_remote_vmids = Inr [2]\<rparr>]\<rparr>)
      settings_invalid = None"
  by (rule hab_parse_dt_outside [where role = "''fe''" and start = 5000 and vmids = "[2]"]) simp_all

text \<open>
  C25. Without a device tree the driver still comes up: the default settings create exactly one
  physical channel for every device of the table, in the order of the areas, the host (\<open>vhost\<close>)
  as listener to guest 2 and the guest as opener to the host, and report success.
\<close>

theorem do_hab_parse_default:
  "map_option (\<lambda>(r, st, reqs). (r, map (\<lambda>q. (pq_dev q, pq_vmid_local q, pq_vmid_remote q, pq_is_be q)) reqs))
     (do_hab_parse vhost 0 None (\<lambda>r s. (0, s @ [r])) []) =
   Some (0, map (\<lambda>d. if vhost then (d, 0, 2, 1) else (d, 2, 0, 0)) [0..<30])"
  by (cases vhost; simp only:) code_simp+

text \<open>
  C30. The result of \<open>hab_generate_pchan_list\<close> is the result of the last area only: with the default
  settings the creation of every other channel may fail and the driver still reports success.
\<close>

theorem do_hab_parse_loses_errors:
  "map_option (\<lambda>(r, st, reqs). (r, map pq_dev reqs))
     (do_hab_parse vhost 0 None (\<lambda>r s. if pq_dev r = 29 then (0, s @ [r]) else (- ENOMEM, s)) []) =
   Some (0, [29])"
  by (cases vhost; simp only:) code_simp+

end
