(* ===== verification/Hab_Mem.thy ===== *)
theory Hab_Mem
  imports Hab_Wire
begin

text \<open>
  Shared memory below the export protocol (\<^verbatim>\<open>os/linux/hab_mem_linux.c\<close>): the compression of a page
  list into regions and its expansion on the importing side, the page lists with their reference
  counts, and the bounds of the fault handlers.  Pages are named by their frame numbers.
\<close>

section \<open>State\<close>

datatype hab_page_list_type = HAB_PAGE_LIST_NONE | HAB_PAGE_LIST_IMPORT | HAB_PAGE_LIST_EXPORT

record pages_list =
  pl_pages :: "u64 list"
  pl_npages :: int
  pl_vmapping :: bool
  pl_userflags :: u32
  pl_export_id :: u32
  pl_vcid :: u32
  pl_pchan :: "nat option"
  pl_type :: hab_page_list_type
  pl_refcount :: nat

text \<open>
  A dma-buf is this driver's own, with a page list behind it, or another driver's, with a
  scatterlist of frame numbers and page counts.
\<close>

datatype dma_priv = OwnPages nat | SgTable "(u64 \<times> nat) list"

record dma_buf =
  db_priv :: dma_priv
  db_refs :: nat

text \<open>
  \<open>mm_fail\<close> says which of the coming allocations fail, \<open>mm_next\<close> names the next object.  The kernel's
  view of the calling process: \<open>mm_fds\<close> its descriptors that are dma-bufs, \<open>mm_fd_next\<close> the number of
  the next one, \<open>mm_vmas\<close> its mappings in order (start, end, the dma-buf mapped).
\<close>

record mem_state =
  mm_pglists :: "nat \<Rightarrow> pages_list option"
  mm_imp_list :: "nat list"
  mm_imp_cnt :: int
  mm_dmabufs :: "nat \<Rightarrow> dma_buf option"
  mm_next :: nat
  mm_fail :: "bool list"
  mm_fds :: "(nat \<times> nat) list"
  mm_fd_next :: nat
  mm_vmas :: "(nat \<times> nat \<times> nat option) list"

definition mm_alloc :: "mem_state \<Rightarrow> bool \<times> mem_state" where
  "mm_alloc m = (case mm_fail m of [] \<Rightarrow> (True, m) | f # fs \<Rightarrow> (\<not> f, m\<lparr>mm_fail := fs\<rparr>))"

section \<open>Expansion of a region table\<close>

text \<open>The inner loop: consecutive pages into the array, from index \<open>k\<close> on; a write outside it is a fault.\<close>

fun fill_region :: "u64 list \<Rightarrow> nat \<Rightarrow> u64 \<Rightarrow> nat \<Rightarrow> u64 list option" where
  "fill_region pages k pfn 0 = Some pages"
| "fill_region pages k pfn (Suc n) =
     (if k < length pages then fill_region (pages[k := pfn]) (Suc k) (pfn + 1) n else None)"

text \<open>
  The outer loop: the error code, if any, and the array.  \<open>tot\<close> is \<^verbatim>\<open>region_total_page\<close>, which is
  also the next index; the comparisons are of unsigned longs, with the \<^verbatim>\<open>int\<close> sign-extended; so is
  \<open>size + space\<close>, an int, when it is added to the frame number.
\<close>

fun expand_regions :: "u32 \<Rightarrow> region list \<Rightarrow> u64 \<Rightarrow> nat \<Rightarrow> u64 list \<Rightarrow> (int \<times> u64 list) option" where
  "expand_regions payload_count [] pfn tot pages =
     Some (if tot \<noteq> unat (scast payload_count :: u64) then - EINVAL else 0, pages)"
| "expand_regions payload_count (r # rs) pfn tot pages =
     (if sint (rg_size r) \<le> 0 then Some (- EINVAL, pages)
      else let tot' = tot + nat (sint (rg_size r)) in
        if unat (scast payload_count :: u64) < tot' then Some (- EINVAL, pages)
        else do {
          pages' \<leftarrow> fill_region pages tot pfn (nat (sint (rg_size r)));
          expand_regions payload_count rs (pfn + scast (rg_size r + rg_space r)) tot' pages'
        })"

text \<open>The size handed to \<^verbatim>\<open>vmalloc\<close> is an \<^verbatim>\<open>int\<close>: the number of entries it makes room for.\<close>

definition pages_array_len :: "u32 \<Rightarrow> nat" where
  "pages_array_len payload_count = nat (sint (payload_count * 8)) div 8"

text \<open>
  \<^verbatim>\<open>pages_list_create\<close> up to the page list it builds: the error or the pages.  \<open>valid\<close> is the kernel's
  check of a frame number, made on the first page only.  The table is read from the descriptor's
  payload; reading past the end of it is a fault.  \<^verbatim>\<open>vmalloc\<close> fails for a size that is zero or, as an
  unsigned long, absurd.
\<close>

definition pages_of_table ::
  "(u64 \<Rightarrow> bool) \<Rightarrow> u32 \<Rightarrow> bytes \<Rightarrow> mem_state \<Rightarrow> ((int \<times> u64 list) \<times> mem_state) option" where
  "pages_of_table valid payload_count payload m =
     (let nregions = nat (sint (field32 8 payload));
          t = dec_pfns nregions payload
      in if length payload < compressed_pfns_hdr + nregions * region_size then None
         else if \<not> valid (cp_first_pfn t) then Some ((- EINVAL, []), m)
         else (case mm_alloc m of (ok1, m1) \<Rightarrow>
           if \<not> ok1 \<or> pages_array_len payload_count = 0 then Some ((- ENOMEM, []), m1)
           else (case mm_alloc m1 of (ok2, m2) \<Rightarrow>
             if \<not> ok2 then Some ((- ENOMEM, []), m2)
             else do {
               r \<leftarrow> expand_regions payload_count (cp_region t) (cp_first_pfn t) 0
                      (replicate (pages_array_len payload_count) 0);
               Some (r, m2)
             })))"

definition pages_list_create ::
  "(u64 \<Rightarrow> bool) \<Rightarrow> u32 \<Rightarrow> bytes \<Rightarrow> u32 \<Rightarrow> u32 \<Rightarrow> u32 \<Rightarrow> nat option \<Rightarrow> mem_state \<Rightarrow>
     ((int + nat) \<times> mem_state) option" where
  "pages_list_create valid payload_count payload userflags export_id vcid pchan m = do {
     ((r, pages), m1) \<leftarrow> pages_of_table valid payload_count payload m;
     if r \<noteq> 0 then Some (Inl r, m1)
     else let g = mm_next m1 in
       Some (Inr g, m1\<lparr>mm_next := g + 1, mm_pglists := (mm_pglists m1)(g \<mapsto>
         \<lparr>pl_pages = pages, pl_npages = sint payload_count, pl_vmapping = False,
          pl_userflags = userflags, pl_export_id = export_id, pl_vcid = vcid, pl_pchan = pchan,
          pl_type = HAB_PAGE_LIST_NONE, pl_refcount = 1\<rparr>)\<rparr>)
   }"

section \<open>Compression\<close>

text \<open>The loop over the pages of an own buffer: runs of consecutive frames, with the gap after each.\<close>

fun compress_loop :: "u64 \<Rightarrow> nat \<Rightarrow> u64 list \<Rightarrow> region list" where
  "compress_loop prev n [] = [\<lparr>rg_size = of_nat n, rg_space = 0\<rparr>]"
| "compress_loop prev n (q # qs) =
     (if q - 1 = prev then compress_loop q (n + 1) qs
      else \<lparr>rg_size = of_nat n, rg_space = ucast (q - prev - 1)\<rparr> # compress_loop q 1 qs)"

definition mk_pfns :: "u64 \<Rightarrow> region list \<Rightarrow> compressed_pfns" where
  "mk_pfns first rs = \<lparr>cp_first_pfn = first, cp_nregions = of_nat (length rs), cp_region = rs\<rparr>"

text \<open>The code reads \<open>page_count\<close> entries of the page list, whatever its length.\<close>

definition compress_own :: "u64 list \<Rightarrow> nat \<Rightarrow> compressed_pfns option" where
  "compress_own pages page_count =
     (if length pages < max 1 page_count then None
      else (case take (max 1 page_count) pages of
              [] \<Rightarrow> None
            | q # qs \<Rightarrow> Some (mk_pfns q (compress_loop q 1 qs))))"

text \<open>Setting the gap after the last region written so far.\<close>

definition set_last_space :: "u32 \<Rightarrow> region list \<Rightarrow> region list" where
  "set_last_space sp rs = (case rev rs of [] \<Rightarrow> [] | r # q \<Rightarrow> rev (r\<lparr>rg_space := sp\<rparr> # q))"

text \<open>
  The loop over a scatterlist.  \<open>off\<close> is \<^verbatim>\<open>page_offset\<close>, \<open>pre\<close> the frame of \<^verbatim>\<open>pre_page\<close>, \<open>rs\<close> the regions
  written; when the list ends early, the region at \<^verbatim>\<open>j\<close> is still zero and is counted.
\<close>

fun compress_sg ::
  "nat \<Rightarrow> nat \<Rightarrow> u64 \<Rightarrow> u64 \<Rightarrow> region list \<Rightarrow> (u64 \<times> nat) list \<Rightarrow> u64 \<times> region list" where
  "compress_sg off page_count first pre rs [] = (first, rs @ [\<lparr>rg_size = 0, rg_space = 0\<rparr>])"
| "compress_sg off page_count first pre rs ((pg, n) # sg) =
     (if n \<le> off then compress_sg (off - n) page_count first pre rs sg
      else
        let first' = (if rs = [] then pg + of_nat off else first);
            rs' = set_last_space (ucast (pg - pre - 1)) rs;
            sz = n - off
        in if page_count \<le> sz
           then (first', rs' @ [\<lparr>rg_size = of_nat page_count, rg_space = 0\<rparr>])
           else compress_sg 0 (page_count - sz) first' (pg + of_nat (sz - 1))
                  (rs' @ [\<lparr>rg_size = of_nat sz, rg_space = 0\<rparr>]) sg)"

text \<open>
  \<^verbatim>\<open>data_size\<close> and the table, or the error.  A buffer of another driver has to be attached and mapped.
\<close>

definition habmem_compress_pfns ::
  "nat \<Rightarrow> u64 \<Rightarrow> nat \<Rightarrow> mem_state \<Rightarrow> ((int + nat \<times> compressed_pfns) \<times> mem_state) option" where
  "habmem_compress_pfns dmabuf offset page_count m = (case mm_dmabufs m dmabuf of
      None \<Rightarrow> None
    | Some d \<Rightarrow> (case db_priv d of
        SgTable sg \<Rightarrow> (case mm_alloc m of (attached, m1) \<Rightarrow>
          if \<not> attached then Some (Inl (- EBADF), m1)
          else (case mm_alloc m1 of (mapped, m2) \<Rightarrow>
            if \<not> mapped then Some (Inl (- EBADF), m2)
            else (case compress_sg (unat offset div 4096) page_count 0 0 [] sg of (first, rs) \<Rightarrow>
              Some (Inr (compressed_pfns_size + region_size * length rs, mk_pfns first rs), m2))))
      | OwnPages g \<Rightarrow> do {
          pl \<leftarrow> mm_pglists m g;
          t \<leftarrow> compress_own (pl_pages pl) page_count;
          Some (Inr (compressed_pfns_size + region_size * length (cp_region t), t), m)
        }))"

section \<open>Page lists\<close>

definition mod_pglist :: "nat \<Rightarrow> (pages_list \<Rightarrow> pages_list) \<Rightarrow> mem_state \<Rightarrow> mem_state option" where
  "mod_pglist g f m = (case mm_pglists m g of
      None \<Rightarrow> None
    | Some x \<Rightarrow> Some (m\<lparr>mm_pglists := (mm_pglists m)(g \<mapsto> f x)\<rparr>))"

definition pages_list_add :: "nat \<Rightarrow> mem_state \<Rightarrow> mem_state" where
  "pages_list_add g m = m\<lparr>mm_imp_list := mm_imp_list m @ [g], mm_imp_cnt := mm_imp_cnt m + 1\<rparr>"

definition pages_list_remove :: "nat \<Rightarrow> mem_state \<Rightarrow> mem_state" where
  "pages_list_remove g m = m\<lparr>mm_imp_list := remove1 g (mm_imp_list m), mm_imp_cnt := mm_imp_cnt m - 1\<rparr>"

definition pages_list_destroy :: "nat \<Rightarrow> mem_state \<Rightarrow> mem_state option" where
  "pages_list_destroy g m = do {
     pl \<leftarrow> mm_pglists m g;
     let m1 = (if pl_type pl = HAB_PAGE_LIST_IMPORT then pages_list_remove g m else m);
     Some (m1\<lparr>mm_pglists := (mm_pglists m1)(g := None)\<rparr>)
   }"

definition pages_list_get :: "nat \<Rightarrow> mem_state \<Rightarrow> mem_state option" where
  "pages_list_get g m = mod_pglist g (\<lambda>pl. pl\<lparr>pl_refcount := pl_refcount pl + 1\<rparr>) m"

definition pages_list_put :: "nat \<Rightarrow> mem_state \<Rightarrow> mem_state option" where
  "pages_list_put g m = do {
     pl \<leftarrow> mm_pglists m g;
     m1 \<leftarrow> mod_pglist g (\<lambda>pl. pl\<lparr>pl_refcount := pl_refcount pl - 1\<rparr>) m;
     if pl_refcount pl \<le> 1 then pages_list_destroy g m1 else Some m1
   }"

fun lookup_in :: "u32 \<Rightarrow> nat option \<Rightarrow> nat list \<Rightarrow> mem_state \<Rightarrow> nat option option" where
  "lookup_in export_id pchan [] m = Some None"
| "lookup_in export_id pchan (g # gs) m = do {
     pl \<leftarrow> mm_pglists m g;
     if pl_export_id pl = export_id \<and> pl_pchan pl = pchan then Some (Some g)
     else lookup_in export_id pchan gs m
   }"

definition pages_list_lookup ::
  "u32 \<Rightarrow> nat option \<Rightarrow> bool \<Rightarrow> mem_state \<Rightarrow> (nat option \<times> mem_state) option" where
  "pages_list_lookup export_id pchan get m = do {
     r \<leftarrow> lookup_in export_id pchan (mm_imp_list m) m;
     (case r of
        None \<Rightarrow> Some (None, m)
      | Some g \<Rightarrow> if get then do { m1 \<leftarrow> pages_list_get g m; Some (Some g, m1) } else Some (Some g, m))
   }"

definition habmm_imp_hyp_map_check :: "u32 \<Rightarrow> nat option \<Rightarrow> mem_state \<Rightarrow> (bool \<times> mem_state) option" where
  "habmm_imp_hyp_map_check export_id pchan m = do {
     (r, m1) \<leftarrow> pages_list_lookup export_id pchan False m;
     Some (r \<noteq> None, m1)
   }"

section \<open>The dma-bufs\<close>

text \<open>The dma-buf around a page list; \<open>dma_buf_export\<close> can fail.\<close>

definition dma_buf_export :: "nat \<Rightarrow> mem_state \<Rightarrow> nat option \<times> mem_state" where
  "dma_buf_export g m = (case mm_alloc m of (ok, m1) \<Rightarrow>
     if \<not> ok then (None, m1)
     else (Some (mm_next m1), m1\<lparr>mm_next := mm_next m1 + 1,
             mm_dmabufs := (mm_dmabufs m1)(mm_next m1 \<mapsto> \<lparr>db_priv = OwnPages g, db_refs = 1\<rparr>)\<rparr>))"

text \<open>The release operation of this driver's dma-bufs.\<close>

definition hab_mem_dma_buf_release :: "dma_priv \<Rightarrow> mem_state \<Rightarrow> mem_state option" where
  "hab_mem_dma_buf_release priv m = (case priv of
      OwnPages g \<Rightarrow> pages_list_put g m
    | SgTable _ \<Rightarrow> Some m)"

text \<open>
  References to dma-bufs are the kernel's: \<open>get_dma_buf\<close>, \<open>dma_buf_get\<close> of a descriptor, and
  \<open>dma_buf_put\<close>, which releases at the last one.
\<close>

definition get_dma_buf :: "nat \<Rightarrow> mem_state \<Rightarrow> mem_state" where
  "get_dma_buf d m = m\<lparr>mm_dmabufs := (mm_dmabufs m)(d := map_option
     (\<lambda>b. b\<lparr>db_refs := db_refs b + 1\<rparr>) (mm_dmabufs m d))\<rparr>"

definition dma_buf_get :: "nat \<Rightarrow> mem_state \<Rightarrow> nat option \<times> mem_state" where
  "dma_buf_get fd m = (case map_of (mm_fds m) fd of
      None \<Rightarrow> (None, m)
    | Some d \<Rightarrow> (Some d, get_dma_buf d m))"

text \<open>
  Putting the last reference releases the page list.  A number that is no live buffer is left alone here; the
  kernel would follow it as a pointer, which is what a descriptor with an address the peer chose makes it do
  (\<^verbatim>\<open>habmm_imp_hyp_unmap\<close>): no theorem of this development excludes that, and \<open>Hab_Faults\<close> shows how
  such a number gets there.
\<close>

definition dma_buf_put :: "nat \<Rightarrow> mem_state \<Rightarrow> mem_state" where
  "dma_buf_put d m = (case mm_dmabufs m d of
      None \<Rightarrow> m
    | Some b \<Rightarrow>
        if 1 < db_refs b then m\<lparr>mm_dmabufs := (mm_dmabufs m)(d \<mapsto> b\<lparr>db_refs := db_refs b - 1\<rparr>)\<rparr>
        else (case hab_mem_dma_buf_release (db_priv b) m of
                None \<Rightarrow> m
              | Some m1 \<Rightarrow> m1\<lparr>mm_dmabufs := (mm_dmabufs m1)(d := None)\<rparr>))"

text \<open>\<open>dma_buf_fd\<close> gives the reference to a new descriptor of the process.\<close>

definition dma_buf_fd :: "nat \<Rightarrow> mem_state \<Rightarrow> nat option \<times> mem_state" where
  "dma_buf_fd d m = (case mm_alloc m of (ok, m1) \<Rightarrow>
     if \<not> ok then (None, m1)
     else (Some (mm_fd_next m1), m1\<lparr>mm_fd_next := mm_fd_next m1 + 1,
             mm_fds := (mm_fd_next m1, d) # mm_fds m1\<rparr>))"

definition hab_mem_dma_buf_vmap :: "nat \<Rightarrow> mem_state \<Rightarrow> (int \<times> mem_state) option" where
  "hab_mem_dma_buf_vmap g m = do {
     pl \<leftarrow> mm_pglists m g;
     if pl_vmapping pl then Some (0, m)
     else (case mm_alloc m of (ok, m1) \<Rightarrow>
       if \<not> ok then Some (- ENOMEM, m1)
       else do { m2 \<leftarrow> mod_pglist g (\<lambda>pl. pl\<lparr>pl_vmapping := True\<rparr>) m1; Some (0, m2) })
   }"

definition hab_mem_dma_buf_vunmap :: "nat \<Rightarrow> mem_state \<Rightarrow> mem_state option" where
  "hab_mem_dma_buf_vunmap g m = mod_pglist g (\<lambda>pl. pl\<lparr>pl_vmapping := False\<rparr>) m"

text \<open>One page per scatterlist entry for whoever attaches to an imported buffer.\<close>

definition hab_mem_map_dma_buf :: "nat \<Rightarrow> mem_state \<Rightarrow> ((u64 list) option \<times> mem_state) option" where
  "hab_mem_map_dma_buf g m = do {
     pl \<leftarrow> mm_pglists m g;
     (case mm_alloc m of (ok1, m1) \<Rightarrow>
        if \<not> ok1 then Some (None, m1)
        else (case mm_alloc m1 of (ok2, m2) \<Rightarrow>
          if \<not> ok2 then Some (None, m2)
          else if length (pl_pages pl) < nat (pl_npages pl) then None
          else Some (Some (take (nat (pl_npages pl)) (pl_pages pl)), m2)))
   }"

text \<open>An import becomes a dma-buf over the pages its table names.\<close>

definition habmem_import_to_dma_buf ::
  "(u64 \<Rightarrow> bool) \<Rightarrow> u32 \<Rightarrow> bytes \<Rightarrow> u32 \<Rightarrow> u32 \<Rightarrow> u32 \<Rightarrow> nat option \<Rightarrow> mem_state \<Rightarrow>
     (nat option \<times> mem_state) option" where
  "habmem_import_to_dma_buf valid payload_count payload userflags export_id vcid pchan m = do {
     (r, m1) \<leftarrow> pages_list_create valid payload_count payload userflags export_id vcid pchan m;
     (case r of
        Inl e \<Rightarrow> Some (None, m1)
      | Inr g \<Rightarrow> do {
          m2 \<leftarrow> mod_pglist g (\<lambda>pl. pl\<lparr>pl_type := HAB_PAGE_LIST_IMPORT\<rparr>) (pages_list_add g m1);
          (case dma_buf_export g m2 of
             (None, m3) \<Rightarrow> do { m4 \<leftarrow> pages_list_put g m3; Some (None, m4) }
           | (Some d, m3) \<Rightarrow> Some (Some d, m3))
        })
   }"

text \<open>The value handed back in \<^verbatim>\<open>param->kva\<close>: the buffer for a kernel client, a descriptor for a user.\<close>

definition habmem_imp_hyp_map ::
  "(u64 \<Rightarrow> bool) \<Rightarrow> u32 \<Rightarrow> bytes \<Rightarrow> u32 \<Rightarrow> u32 \<Rightarrow> u32 \<Rightarrow> nat option \<Rightarrow> bool \<Rightarrow> mem_state \<Rightarrow>
     ((int \<times> u64 option) \<times> mem_state) option" where
  "habmem_imp_hyp_map valid payload_count payload userflags export_id vcid pchan kern m = do {
     (db, m1) \<leftarrow> habmem_import_to_dma_buf valid payload_count payload userflags export_id vcid pchan m;
     (case db of
        None \<Rightarrow> Some ((- EINVAL, None), m1)
      | Some d \<Rightarrow>
          if kern then Some ((0, Some (of_nat d)), m1)
          else (case dma_buf_fd d m1 of
             (None, m2) \<Rightarrow> Some ((- EINVAL, None), dma_buf_put d m2)
           | (Some fd, m2) \<Rightarrow> Some ((0, Some (of_nat fd)), m2)))
   }"

section \<open>Buffers to export\<close>

text \<open>
  From a user address that maps a dma-buf: the first mapping that ends above it, whether or not it
  starts below it, and the offset into it.
\<close>

definition habmem_get_dma_buf_from_va :: "u64 \<Rightarrow> mem_state \<Rightarrow> (nat option \<times> u64) \<times> mem_state" where
  "habmem_get_dma_buf_from_va address m =
     (case List.find (\<lambda>(st, en, f). unat address < en) (mm_vmas m) of
        None \<Rightarrow> ((None, 0), m)
      | Some (st, en, None) \<Rightarrow> ((None, 0), m)
      | Some (st, en, Some f) \<Rightarrow>
          (case List.find (\<lambda>(fd, d). d = f) (mm_fds m) of
             None \<Rightarrow> ((None, 0), m)
           | Some (fd, d) \<Rightarrow> (case dma_buf_get fd m of
                (None, m1) \<Rightarrow> ((None, 0), m1)
              | (Some d', m1) \<Rightarrow> ((Some d', address - of_nat st), m1))))"

text \<open>
  From plain user memory: \<open>user_pages\<close> are the frames that could be pinned, possibly fewer than asked
  for; the rest of the array is not initialised, so that it is not part of \<open>pl_pages\<close>.
\<close>

definition export_page_list :: "u64 list \<Rightarrow> nat \<Rightarrow> u32 \<Rightarrow> nat option \<Rightarrow> pages_list" where
  "export_page_list frames page_count vcid pchan =
     \<lparr>pl_pages = frames, pl_npages = int page_count, pl_vmapping = False, pl_userflags = 0,
      pl_export_id = 0, pl_vcid = vcid, pl_pchan = pchan, pl_type = HAB_PAGE_LIST_EXPORT,
      pl_refcount = 1\<rparr>"

definition wrap_pages :: "pages_list \<Rightarrow> mem_state \<Rightarrow> nat option \<times> mem_state" where
  "wrap_pages pl m = (let g = mm_next m in
     case dma_buf_export g (m\<lparr>mm_next := g + 1, mm_pglists := (mm_pglists m)(g \<mapsto> pl)\<rparr>) of
       (None, m1) \<Rightarrow> (None, m1\<lparr>mm_pglists := (mm_pglists m1)(g := None)\<rparr>)
     | (Some d, m1) \<Rightarrow> (Some d, m1))"

definition habmem_get_dma_buf_from_uva :: "u64 list \<Rightarrow> nat \<Rightarrow> mem_state \<Rightarrow> nat option \<times> mem_state" where
  "habmem_get_dma_buf_from_uva user_pages page_count m = (case mm_alloc m of (ok1, m1) \<Rightarrow>
     if \<not> ok1 then (None, m1)
     else (case mm_alloc m1 of (ok2, m2) \<Rightarrow>
       if \<not> ok2 \<or> user_pages = [] then (None, m2)
       else wrap_pages (export_page_list (take page_count user_pages) page_count 0 None) m2))"

text \<open>From kernel memory: every page of it is there.\<close>

definition dma_buf_from_kva ::
  "u64 list \<Rightarrow> nat \<Rightarrow> u32 \<Rightarrow> nat option \<Rightarrow> mem_state \<Rightarrow> (int + nat) \<times> mem_state" where
  "dma_buf_from_kva kva_pages page_count vcid pchan m = (case mm_alloc m of (ok1, m1) \<Rightarrow>
     if \<not> ok1 then (Inl (- ENOMEM), m1)
     else (case mm_alloc m1 of (ok2, m2) \<Rightarrow>
       if \<not> ok2 then (Inl (- ENOMEM), m2)
       else (case wrap_pages (export_page_list (take page_count kva_pages) page_count vcid pchan) m2 of
          (None, m3) \<Rightarrow> (Inl (- EINVAL), m3)
        | (Some d, m3) \<Rightarrow> (Inr d, m3))))"

section \<open>Mapping into user space\<close>

text \<open>The size check of \<^verbatim>\<open>hab_mem_mmap\<close>: \<^verbatim>\<open>obj_size\<close> has 32 bits.\<close>

definition hab_mem_mmap :: "pages_list \<Rightarrow> nat \<Rightarrow> nat \<Rightarrow> int" where
  "hab_mem_mmap pl vm_start vm_end =
     (let obj_size = unat (of_int (pl_npages pl * 4096) :: u32)
      in if obj_size < vm_end - vm_start then - EINVAL else 0)"

datatype fault_ret = VM_FAULT_SIGBUS | FaultPage u64

text \<open>
  The answer is the page handed to \<^verbatim>\<open>vm_insert_page\<close>, or the refusal; how the code translates the kernel's
  return code of the insertion is not part of it.
\<close>

definition hab_buffer_fault :: "pages_list \<Rightarrow> nat \<Rightarrow> nat \<Rightarrow> fault_ret option" where
  "hab_buffer_fault pl vm_start address =
     (let page_offset = (address - vm_start) div 4096
      in if pl_npages pl < int page_offset then Some VM_FAULT_SIGBUS
         else if page_offset < length (pl_pages pl) then Some (FaultPage (pl_pages pl ! page_offset))
         else None)"

text \<open>\<^verbatim>\<open>page_idx\<close> is an int.\<close>

definition hab_map_fault :: "pages_list \<Rightarrow> nat \<Rightarrow> nat \<Rightarrow> nat \<Rightarrow> fault_ret option" where
  "hab_map_fault pl vm_start vm_pgoff address =
     (let fault_offset = address - vm_start + vm_pgoff * 4096;
          page_idx = sint (of_nat (fault_offset div 4096) :: u32)
      in if page_idx < 0 \<or> pl_npages pl \<le> page_idx then Some VM_FAULT_SIGBUS
         else if nat page_idx < length (pl_pages pl) then Some (FaultPage (pl_pages pl ! nat page_idx))
         else None)"

definition hab_map_open :: "nat \<Rightarrow> mem_state \<Rightarrow> mem_state option" where
  "hab_map_open g m = pages_list_get g m"

definition hab_map_close :: "nat \<Rightarrow> mem_state \<Rightarrow> mem_state option" where
  "hab_map_close g m = pages_list_put g m"

end
