(* ===== verification/Hab_State.thy ===== *)
theory Hab_State
  imports Hab_Wire Hab_Mem
begin

text \<open>
  The state of the driver: devices, physical channels, virtual channels, contexts, export
  descriptors and the global \<^verbatim>\<open>hab_driver\<close>, with the kernel objects they are built from.

  Objects live in heaps indexed by identifiers, which stand for addresses; an object that was freed
  is no longer in its heap, and an access to it makes the operation return \<open>None\<close>.  Intrusive lists
  are lists of identifiers.  The kernel facilities are modelled by their documented behaviour:
  \<open>idr\<close> maps as association lists, \<open>kref\<close> as a counter whose put at one releases the object,
  allocation as an oracle \<open>st_mem\<close> that says which of the coming allocations fail (\<open>True\<close>), and the
  clock as \<open>st_now\<close> (seconds), \<open>st_now_ns\<close> (nanoseconds of the second) and \<open>st_sclk\<close> (the counter of
  \<^verbatim>\<open>msm_timer_get_sclk_ticks\<close>).
\<close>

section \<open>Kernel objects\<close>

type_synonym idr = "(nat \<times> nat) list"

definition idr_find :: "idr \<Rightarrow> nat \<Rightarrow> nat option" where
  "idr_find m i = map_of m i"

definition idr_remove :: "idr \<Rightarrow> nat \<Rightarrow> idr" where
  "idr_remove m i = filter (\<lambda>(k, _). k \<noteq> i) m"

text \<open>The least free identifier of a range; a gap shows up within the first \<open>length m + 1\<close>.\<close>

definition idr_free :: "idr \<Rightarrow> nat \<Rightarrow> nat \<Rightarrow> nat option" where
  "idr_free m lo hi = List.find (\<lambda>i. map_of m i = None) [lo..<min hi (lo + length m + 1)]"

text \<open>\<open>idr_alloc\<close>, and \<open>idr_alloc_cyclic\<close> with its cursor: search upwards from it, then from \<open>lo\<close>.\<close>

definition idr_alloc :: "idr \<Rightarrow> nat \<Rightarrow> nat \<Rightarrow> nat \<Rightarrow> (nat \<times> idr) option" where
  "idr_alloc m obj lo hi = map_option (\<lambda>i. (i, (i, obj) # m)) (idr_free m lo hi)"

definition idr_alloc_cyclic :: "idr \<Rightarrow> nat \<Rightarrow> nat \<Rightarrow> nat \<Rightarrow> nat \<Rightarrow> (nat \<times> idr) option" where
  "idr_alloc_cyclic m cursor obj lo hi =
     (case idr_alloc m obj (max lo cursor) hi of
        Some r \<Rightarrow> Some r
      | None \<Rightarrow> idr_alloc m obj lo hi)"

lemma find_cong_Some: "List.find P xs = Some x \<Longrightarrow> P x \<and> x \<in> set xs"
  by (auto simp: find_Some_iff)

lemma idr_alloc_Some:
  "idr_alloc m obj lo hi = Some (i, m') \<Longrightarrow>
     m' = (i, obj) # m \<and> map_of m i = None \<and> lo \<le> i \<and> i < hi"
  by (auto simp: idr_alloc_def idr_free_def dest!: find_cong_Some)

lemma set_idr_remove: "set (idr_remove m i) = {x \<in> set m. fst x \<noteq> i}"
  by (auto simp: idr_remove_def)

lemma idr_find_remove: "idr_find (idr_remove m i) j = (if j = i then None else idr_find m j)"
  by (induction m) (auto simp: idr_find_def idr_remove_def)

lemma idr_find_Some_in: "idr_find m i = Some v \<Longrightarrow> (i, v) \<in> set m"
  by (simp add: idr_find_def map_of_SomeD)

section \<open>Messages\<close>

text \<open>
  A queued message is one block, or, when a block that large was not to be had, a table of page
  pointers.  \<open>Wild\<close> is a table entry overwritten by something that is not a page.
\<close>

datatype msg_page = Pg bytes | Wild u64

datatype msg_body = Flat bytes | Scatter "msg_page list"

record hab_message =
  ms_sizebytes :: nat
  ms_sequence_rx :: u32
  ms_body :: msg_body

section \<open>Open requests\<close>

record hab_open_request =
  rq_type :: u32
  rq_pchan :: "nat option"
  rq_xdata :: hab_open_send_data

record hab_open_node =
  on_request :: hab_open_request
  on_age :: int

section \<open>Channels to the other side\<close>

text \<open>
  \<^verbatim>\<open>hyp_data\<close>: absent, a vhost channel with its list of messages to send and what is left of the
  descriptor being received, or a loopback device with its message list and current message.
\<close>

record vhost_chan =
  vh_send_list :: "(hab_header \<times> bytes) list"
  vh_out_iter :: bytes

record loopback_dev =
  lb_msg_list :: "(hab_header \<times> bytes) list"
  lb_msg_cnt :: int
  lb_current :: "(hab_header \<times> bytes) option"

datatype hyp_data = HypNone | HypVhost vhost_chan | HypLoop loopback_dev

record physical_channel =
  pc_is_be :: bool
  pc_refcount :: nat
  pc_habdev :: nat
  pc_vchan_idr :: idr
  pc_expid_idr :: idr
  pc_expid_next :: nat
  pc_hyp_data :: hyp_data
  pc_dom_id :: int
  pc_vmid_local :: int
  pc_vmid_remote :: int
  pc_closed :: bool
  pc_otherend_closed :: bool
  pc_sequence_tx :: u32
  pc_sequence_rx :: u32
  pc_vchannels :: "nat list"
  pc_vcnt :: int
  pc_mem_proto :: u32

record hab_device =
  dv_id :: u32
  dv_pchannels :: "nat list"
  dv_pchan_cnt :: int
  dv_openq_list :: "hab_open_node list"
  dv_openq_cnt :: int
  dv_head_dom :: int

text \<open>\<open>dv_head_dom\<close> is what the memory behind the list head holds where a channel has its \<^verbatim>\<open>dom_id\<close>:
  \<^verbatim>\<open>hab_pchan_find_domid\<close> reads it when its loop ends without a match.\<close>

record virtual_channel =
  vc_refcount :: nat
  vc_pchan :: nat
  vc_ctx :: nat
  vc_rx_list :: "hab_message list"
  vc_id :: u32
  vc_otherend_id :: u32
  vc_otherend_closed :: bool
  vc_session_id :: u32
  vc_closed :: bool
  vc_tx_cnt :: u64
  vc_rx_cnt :: u64
  vc_rx_inflight :: bool

section \<open>Export descriptors\<close>

datatype exp_desc_state = EXP_DESC_INIT | EXP_DESC_IMPORTING | EXP_DESC_IMPORTED | EXP_DESC_UNIMPORTING

datatype export_state = HAB_EXP_EXPORTING | HAB_EXP_SUCCESS

text \<open>
  \<^verbatim>\<open>struct export_desc_super\<close> with the \<^verbatim>\<open>struct export_desc\<close> it ends in.  \<open>ex_payload\<close> is the memory
  from \<^verbatim>\<open>payload\<close> on.  \<open>ex_dmabuf\<close> is the buffer reference of the platform data.
\<close>

record export_desc_super =
  ex_refcount :: nat
  ex_dmabuf :: "nat option"
  ex_payload_size :: u32
  ex_import_state :: exp_desc_state
  ex_exp_state :: export_state
  ex_remote_imported :: bool
  ex_export_id :: u32
  ex_readonly :: u32
  ex_import_index :: u64
  ex_vchan :: "nat option"
  ex_ctx :: "nat option"
  ex_pchan :: "nat option"
  ex_vcid_local :: u32
  ex_vcid_remote :: u32
  ex_domid_local :: u32
  ex_domid_remote :: u32
  ex_flags :: u32
  ex_kva :: u64
  ex_payload_count :: u32
  ex_payload :: bytes

record hab_import_ack =
  ia_export_id :: u32
  ia_vcid_local :: u32
  ia_vcid_remote :: u32
  ia_imp_whse_added :: u32

text \<open>
  The import warehouse is the in-order sequence of the search tree of \<^verbatim>\<open>hab_linux.c\<close>: keys are pairs
  of export id and channel, in the order of the tree.
\<close>

type_synonym imp_key = "nat \<times> nat"
type_synonym imp_whse = "(imp_key \<times> nat) list"

record uhab_context =
  cx_refcount :: nat
  cx_vchannels :: "nat list"
  cx_vcnt :: int
  cx_exp_whse :: "nat list"
  cx_export_total :: u32
  cx_exp_rxq :: "(hab_export_ack \<times> int) list"
  cx_imp_whse :: imp_whse
  cx_import_total :: u32
  cx_imp_rxq :: "(hab_import_ack \<times> int) list"
  cx_pending_open :: "hab_open_request list"
  cx_pending_cnt :: int
  cx_forbidden_chans :: "u32 list"
  cx_closing :: bool
  cx_kernel :: bool
  cx_lb_be :: int

section \<open>The driver\<close>

record hab_driver =
  st_devs :: "hab_device list"
  st_pchans :: "nat \<Rightarrow> physical_channel option"
  st_vchans :: "nat \<Rightarrow> virtual_channel option"
  st_ctxs :: "nat \<Rightarrow> uhab_context option"
  st_exps :: "nat \<Rightarrow> export_desc_super option"
  st_next :: nat
  st_uctx_list :: "nat list"
  st_ctx_cnt :: int
  st_reclaim_list :: "nat list"
  st_open_id :: u32
  st_loopback :: bool
  st_loopback_be :: int
  st_mem :: "bool list"
  st_now :: int
  st_now_ns :: int
  st_sclk :: u64
  st_addr :: "nat \<Rightarrow> u64"
  st_hyp_mem :: mem_state

text \<open>\<open>st_addr\<close> gives the address of an object, for the places where the code sends raw pointers.\<close>

text \<open>One allocation: does it succeed, and what the oracle says of the next ones.\<close>

definition kalloc :: "hab_driver \<Rightarrow> bool \<times> hab_driver" where
  "kalloc s = (case st_mem s of
      [] \<Rightarrow> (True, s)
    | f # fs \<Rightarrow> (\<not> f, s\<lparr>st_mem := fs\<rparr>))"

text \<open>Updates of one object; the object has to be there.\<close>

definition mod_pchan ::
  "nat \<Rightarrow> (physical_channel \<Rightarrow> physical_channel) \<Rightarrow> hab_driver \<Rightarrow> hab_driver option" where
  "mod_pchan p f s = (case st_pchans s p of
      None \<Rightarrow> None
    | Some x \<Rightarrow> Some (s\<lparr>st_pchans := (st_pchans s)(p \<mapsto> f x)\<rparr>))"

definition mod_vchan ::
  "nat \<Rightarrow> (virtual_channel \<Rightarrow> virtual_channel) \<Rightarrow> hab_driver \<Rightarrow> hab_driver option" where
  "mod_vchan v f s = (case st_vchans s v of
      None \<Rightarrow> None
    | Some x \<Rightarrow> Some (s\<lparr>st_vchans := (st_vchans s)(v \<mapsto> f x)\<rparr>))"

definition mod_ctx ::
  "nat \<Rightarrow> (uhab_context \<Rightarrow> uhab_context) \<Rightarrow> hab_driver \<Rightarrow> hab_driver option" where
  "mod_ctx c f s = (case st_ctxs s c of
      None \<Rightarrow> None
    | Some x \<Rightarrow> Some (s\<lparr>st_ctxs := (st_ctxs s)(c \<mapsto> f x)\<rparr>))"

definition mod_exp ::
  "nat \<Rightarrow> (export_desc_super \<Rightarrow> export_desc_super) \<Rightarrow> hab_driver \<Rightarrow> hab_driver option" where
  "mod_exp e f s = (case st_exps s e of
      None \<Rightarrow> None
    | Some x \<Rightarrow> Some (s\<lparr>st_exps := (st_exps s)(e \<mapsto> f x)\<rparr>))"

definition mod_dev :: "nat \<Rightarrow> (hab_device \<Rightarrow> hab_device) \<Rightarrow> hab_driver \<Rightarrow> hab_driver option" where
  "mod_dev d f s =
     (if d < length (st_devs s) then Some (s\<lparr>st_devs := (st_devs s)[d := f (st_devs s ! d)]\<rparr>)
      else None)"

definition get_dev :: "nat \<Rightarrow> hab_driver \<Rightarrow> hab_device option" where
  "get_dev d s = (if d < length (st_devs s) then Some (st_devs s ! d) else None)"

lemma mod_pchan_Some [simp]:
  "mod_pchan p f s = Some s' \<longleftrightarrow>
     (\<exists>x. st_pchans s p = Some x \<and> s' = s\<lparr>st_pchans := (st_pchans s)(p \<mapsto> f x)\<rparr>)"
  by (auto simp: mod_pchan_def split: option.split)

lemma mod_vchan_Some [simp]:
  "mod_vchan v f s = Some s' \<longleftrightarrow>
     (\<exists>x. st_vchans s v = Some x \<and> s' = s\<lparr>st_vchans := (st_vchans s)(v \<mapsto> f x)\<rparr>)"
  by (auto simp: mod_vchan_def split: option.split)

lemma mod_ctx_Some [simp]:
  "mod_ctx c f s = Some s' \<longleftrightarrow>
     (\<exists>x. st_ctxs s c = Some x \<and> s' = s\<lparr>st_ctxs := (st_ctxs s)(c \<mapsto> f x)\<rparr>)"
  by (auto simp: mod_ctx_def split: option.split)

lemma mod_exp_Some [simp]:
  "mod_exp e f s = Some s' \<longleftrightarrow>
     (\<exists>x. st_exps s e = Some x \<and> s' = s\<lparr>st_exps := (st_exps s)(e \<mapsto> f x)\<rparr>)"
  by (auto simp: mod_exp_def split: option.split)

lemma mod_dev_Some [simp]:
  "mod_dev d f s = Some s' \<longleftrightarrow>
     d < length (st_devs s) \<and> s' = s\<lparr>st_devs := (st_devs s)[d := f (st_devs s ! d)]\<rparr>"
  by (auto simp: mod_dev_def)

lemma get_dev_Some [simp]:
  "get_dev d s = Some x \<longleftrightarrow> d < length (st_devs s) \<and> x = st_devs s ! d"
  by (auto simp: get_dev_def)

lemma safe_mod:
  "safe (mod_pchan p f s) Q \<longleftrightarrow>
     (\<exists>x. st_pchans s p = Some x \<and> Q (s\<lparr>st_pchans := (st_pchans s)(p \<mapsto> f x)\<rparr>))"
  "safe (mod_vchan v g s) Q \<longleftrightarrow>
     (\<exists>x. st_vchans s v = Some x \<and> Q (s\<lparr>st_vchans := (st_vchans s)(v \<mapsto> g x)\<rparr>))"
  "safe (mod_ctx c h s) Q \<longleftrightarrow>
     (\<exists>x. st_ctxs s c = Some x \<and> Q (s\<lparr>st_ctxs := (st_ctxs s)(c \<mapsto> h x)\<rparr>))"
  "safe (mod_exp e k s) Q \<longleftrightarrow>
     (\<exists>x. st_exps s e = Some x \<and> Q (s\<lparr>st_exps := (st_exps s)(e \<mapsto> k x)\<rparr>))"
  "safe (mod_dev d l s) Q \<longleftrightarrow>
     d < length (st_devs s) \<and> Q (s\<lparr>st_devs := (st_devs s)[d := l (st_devs s ! d)]\<rparr>)"
  by (auto simp: mod_pchan_def mod_vchan_def mod_ctx_def mod_exp_def mod_dev_def split: option.split)

lemma safe_Some_eq: "m = Some x \<Longrightarrow> safe m Q = Q x"
  by simp

lemma kalloc_frame:
  "kalloc s = (ok, s') \<Longrightarrow> s' = s\<lparr>st_mem := tl (st_mem s)\<rparr> \<and> (st_mem s = [] \<longrightarrow> ok)"
  by (auto simp: kalloc_def split: list.splits)

section \<open>The import warehouse as an ordered map\<close>

definition imp_less :: "imp_key \<Rightarrow> imp_key \<Rightarrow> bool" where
  "imp_less k l \<longleftrightarrow> fst k < fst l \<or> (fst k = fst l \<and> snd k < snd l)"

fun whse_insert :: "imp_key \<Rightarrow> nat \<Rightarrow> imp_whse \<Rightarrow> imp_whse" where
  "whse_insert k e [] = [(k, e)]"
| "whse_insert k e ((l, x) # m) =
     (if imp_less k l then (k, e) # (l, x) # m else (l, x) # whse_insert k e m)"

definition whse_remove :: "imp_key \<Rightarrow> imp_whse \<Rightarrow> imp_whse" where
  "whse_remove k m = filter (\<lambda>(l, _). l \<noteq> k) m"

lemma set_whse_insert: "set (whse_insert k e m) = insert (k, e) (set m)"
  by (induction k e m rule: whse_insert.induct) auto

lemma map_of_whse_insert:
  "map_of m k = None \<Longrightarrow> map_of (whse_insert k e m) = (map_of m)(k \<mapsto> e)"
  by (induction k e m rule: whse_insert.induct) (auto split: if_splits)

lemma map_of_whse_remove: "map_of (whse_remove k m) = (map_of m)(k := None)"
  by (induction m) (auto simp: whse_remove_def)

lemma set_whse_remove: "set (whse_remove k m) = {x \<in> set m. fst x \<noteq> k}"
  by (auto simp: whse_remove_def)

end
