(* ===== verification/Hab_Transport.thy ===== *)
theory Hab_Transport
  imports Hab_State
begin

text \<open>
  The transport below the driver core: \<^verbatim>\<open>physical_channel_send\<close>, \<^verbatim>\<open>physical_channel_read\<close> and
  \<^verbatim>\<open>physical_channel_rx_dispatch\<close> of the vhost back end (\<^verbatim>\<open>hab_vhost.c\<close>) and of the loopback device
  (\<^verbatim>\<open>hab_comm.c\<close>), chosen by what \<^verbatim>\<open>hyp_data\<close> holds, and the contract \<open>msg_transport\<close> both keep.
\<close>

section \<open>Sending\<close>

abbreviation (input) IN_BUF_SIZE :: nat where "IN_BUF_SIZE \<equiv> 5120"

text \<open>The block of \<open>n\<close> bytes behind a payload pointer; reading past it or through NULL is a fault.\<close>

definition payload_bytes :: "nat \<Rightarrow> bytes option \<Rightarrow> bytes option" where
  "payload_bytes n payload =
     (if n = 0 then Some []
      else (case payload of
              None \<Rightarrow> None
            | Some b \<Rightarrow> if n \<le> length b then Some (take n b) else None))"

definition patch64 :: "nat \<Rightarrow> u64 \<Rightarrow> bytes \<Rightarrow> bytes option" where
  "patch64 off w b =
     (if off + 8 \<le> length b then Some (take off b @ le64 w @ drop (off + 8) b) else None)"

definition set_hyp :: "nat \<Rightarrow> hyp_data \<Rightarrow> hab_driver \<Rightarrow> hab_driver option" where
  "set_hyp p hy s = mod_pchan p (\<lambda>pc. pc\<lparr>pc_hyp_data := hy\<rparr>) s"

definition vhost_send ::
  "nat \<Rightarrow> physical_channel \<Rightarrow> vhost_chan \<Rightarrow> hab_header \<Rightarrow> bytes option \<Rightarrow> hab_driver \<Rightarrow>
     (int \<times> hab_driver) option" where
  "vhost_send p pc vh header payload s =
     (let sizebytes = unat (HAB_HEADER_GET_SIZE header) in
      if pc_otherend_closed pc then Some (- ENODEV, s)
      else if IN_BUF_SIZE - header_size < sizebytes then Some (- EINVAL, s)
      else (case kalloc s of (ok, s1) \<Rightarrow>
        if \<not> ok then Some (- ENOMEM, s1)
        else do {
          b \<leftarrow> payload_bytes sizebytes payload;
          s2 \<leftarrow> set_hyp p (HypVhost (vh\<lparr>vh_send_list := vh_send_list vh @ [(header, b)]\<rparr>)) s1;
          Some (0, s2)
        }))"

text \<open>The loopback device stamps the sending time into profiling messages.\<close>

definition loopback_stamp :: "hab_header \<Rightarrow> bytes \<Rightarrow> hab_driver \<Rightarrow> bytes option" where
  "loopback_stamp header b s =
     (if HAB_HEADER_GET_TYPE header = payload_code HAB_PAYLOAD_TYPE_PROFILE \<and> b \<noteq> [] then do {
        b1 \<leftarrow> patch64 0 (of_int (st_now s)) b;
        patch64 8 (of_int (st_now_ns s div 1000)) b1
      } else Some b)"

text \<open>
  No caller passes a size without a payload; the code would then queue what the allocation held, here it is a
  fault.
\<close>

definition loopback_send ::
  "nat \<Rightarrow> loopback_dev \<Rightarrow> hab_header \<Rightarrow> bytes option \<Rightarrow> hab_driver \<Rightarrow> (int \<times> hab_driver) option"
where
  "loopback_send p lb header payload s =
     (case kalloc s of (ok, s1) \<Rightarrow>
        if \<not> ok then Some (- ENOMEM, s1)
        else do {
          b \<leftarrow> payload_bytes (unat (HAB_HEADER_GET_SIZE header)) payload;
          b' \<leftarrow> loopback_stamp header b s1;
          s2 \<leftarrow> set_hyp p (HypLoop (lb\<lparr>lb_msg_list := lb_msg_list lb @ [(header, b')],
                                      lb_msg_cnt := lb_msg_cnt lb + 1\<rparr>)) s1;
          Some (0, s2)
        })"

definition physical_channel_send ::
  "nat \<Rightarrow> hab_header \<Rightarrow> bytes option \<Rightarrow> hab_driver \<Rightarrow> (int \<times> hab_driver) option" where
  "physical_channel_send p header payload s = do {
     pc \<leftarrow> st_pchans s p;
     (case pc_hyp_data pc of
        HypNone \<Rightarrow> Some (- ENODEV, s)
      | HypVhost vh \<Rightarrow> vhost_send p pc vh header payload s
      | HypLoop lb \<Rightarrow> loopback_send p lb header payload s)
   }"

section \<open>Receiving\<close>

text \<open>The result, the bytes copied to the caller's buffer, and the new state.\<close>

definition vhost_read ::
  "nat \<Rightarrow> vhost_chan \<Rightarrow> nat \<Rightarrow> hab_driver \<Rightarrow> (int \<times> bytes \<times> hab_driver) option" where
  "vhost_read p vh read_size s = do {
     s1 \<leftarrow> set_hyp p (HypVhost (vh\<lparr>vh_out_iter := drop read_size (vh_out_iter vh)\<rparr>)) s;
     Some (int (length (take read_size (vh_out_iter vh))), take read_size (vh_out_iter vh), s1)
   }"

definition loopback_read ::
  "loopback_dev \<Rightarrow> nat \<Rightarrow> hab_driver \<Rightarrow> (int \<times> bytes \<times> hab_driver) option" where
  "loopback_read lb read_size s =
     (if read_size = 0 then Some (0, [], s)
      else do {
        (header, b) \<leftarrow> lb_current lb;
        Some (int read_size, take (min read_size (length b)) b, s)
      })"

definition physical_channel_read ::
  "nat \<Rightarrow> nat \<Rightarrow> hab_driver \<Rightarrow> (int \<times> bytes \<times> hab_driver) option" where
  "physical_channel_read p read_size s = do {
     pc \<leftarrow> st_pchans s p;
     (case pc_hyp_data pc of
        HypNone \<Rightarrow> Some (- ENODEV, [], s)
      | HypVhost vh \<Rightarrow> vhost_read p vh read_size s
      | HypLoop lb \<Rightarrow> loopback_read lb read_size s)
   }"

text \<open>A zeroed buffer of \<open>n\<close> bytes after \<open>b\<close> was copied to its start.\<close>

definition into_zeroed :: "nat \<Rightarrow> bytes \<Rightarrow> bytes" where
  "into_zeroed n b = take n b @ replicate (n - length b) 0"

lemma length_into_zeroed [simp]: "length (into_zeroed n b) = n"
  by (simp add: into_zeroed_def)

text \<open>The dispatch only queues work for a worker thread.\<close>

definition physical_channel_rx_dispatch :: "nat \<Rightarrow> hab_driver \<Rightarrow> hab_driver option" where
  "physical_channel_rx_dispatch p s = do { pc \<leftarrow> st_pchans s p; Some s }"

section \<open>What the transport touches\<close>

text \<open>Transport calls change the allocation oracle and the transport state of their channel.\<close>

definition hyp_frame :: "nat \<Rightarrow> hab_driver \<Rightarrow> hab_driver \<Rightarrow> bool" where
  "hyp_frame p s s' \<longleftrightarrow> (\<exists>pc hy m. st_pchans s p = Some pc \<and>
     s' = s\<lparr>st_mem := m, st_pchans := (st_pchans s)(p \<mapsto> pc\<lparr>pc_hyp_data := hy\<rparr>)\<rparr>)"

lemma hyp_frame_mem:
  assumes "st_pchans s p = Some pc" shows "hyp_frame p s (s\<lparr>st_mem := m\<rparr>)"
proof -
  have "s\<lparr>st_mem := m\<rparr> = s\<lparr>st_mem := m, st_pchans := (st_pchans s)(p \<mapsto> pc\<lparr>pc_hyp_data := pc_hyp_data pc\<rparr>)\<rparr>"
    using assms by (simp add: fun_upd_idem)
  with assms show ?thesis unfolding hyp_frame_def by blast
qed

lemma hyp_frame_refl: "st_pchans s p = Some pc \<Longrightarrow> hyp_frame p s s"
  using hyp_frame_mem [of s p pc "st_mem s"] by simp

text \<open>The outcomes of a send: an error with the queue as it was, or the message at its end.\<close>

definition enqueue_hyp :: "hab_header \<Rightarrow> bytes \<Rightarrow> hyp_data \<Rightarrow> hyp_data" where
  "enqueue_hyp h b hy = (case hy of
      HypNone \<Rightarrow> HypNone
    | HypVhost vh \<Rightarrow> HypVhost (vh\<lparr>vh_send_list := vh_send_list vh @ [(h, b)]\<rparr>)
    | HypLoop lb \<Rightarrow> HypLoop (lb\<lparr>lb_msg_list := lb_msg_list lb @ [(h, b)],
                               lb_msg_cnt := lb_msg_cnt lb + 1\<rparr>))"

lemma send_cases:
  assumes "physical_channel_send p h payload s = Some (r, s')"
  obtains (fail) pc m where "st_pchans s p = Some pc" "r \<noteq> 0" "s' = s\<lparr>st_mem := m\<rparr>"
  | (ok) pc m b b' where "st_pchans s p = Some pc" "r = 0" "pc_hyp_data pc \<noteq> HypNone"
      "payload_bytes (unat (HAB_HEADER_GET_SIZE h)) payload = Some b"
      "b' = b \<or> loopback_stamp h b (s\<lparr>st_mem := m\<rparr>) = Some b'"
      "s' = s\<lparr>st_mem := m, st_pchans := (st_pchans s)
                (p \<mapsto> pc\<lparr>pc_hyp_data := enqueue_hyp h b' (pc_hyp_data pc)\<rparr>)\<rparr>"
proof -
  from assms obtain pc where pc: "st_pchans s p = Some pc"
    by (auto simp: physical_channel_send_def)
  obtain k s1 where k: "kalloc s = (k, s1)" by fastforce
  then have s1: "s1 = s\<lparr>st_mem := tl (st_mem s)\<rparr>" using kalloc_frame [OF k] by simp
  show thesis
  proof (cases "pc_hyp_data pc")
    case HypNone
    with assms pc fail [OF pc, of "st_mem s"] show thesis
      by (simp add: physical_channel_send_def)
  next
    case (HypVhost vh)
    then have v: "vhost_send p pc vh h payload s = Some (r, s')"
      using assms pc by (simp add: physical_channel_send_def)
    show thesis
    proof (cases "pc_otherend_closed pc \<or> IN_BUF_SIZE - header_size < unat (HAB_HEADER_GET_SIZE h) \<or> \<not> k")
      case True
      then have "r \<noteq> 0 \<and> (s' = s\<lparr>st_mem := st_mem s\<rparr> \<or> s' = s1)"
        using v k unfolding vhost_send_def Let_def by (cases k) (simp_all split: if_splits)
      then show thesis unfolding s1 using fail [OF pc] by blast
    next
      case False
      then have "\<not> pc_otherend_closed pc" "\<not> IN_BUF_SIZE - header_size < unat (HAB_HEADER_GET_SIZE h)" "k"
        by blast+
      with v k have "\<exists>b. payload_bytes (unat (HAB_HEADER_GET_SIZE h)) payload = Some b \<and> r = 0 \<and>
          set_hyp p (HypVhost (vh\<lparr>vh_send_list := vh_send_list vh @ [(h, b)]\<rparr>)) s1 = Some s'"
        unfolding vhost_send_def Let_def by simp blast
      then obtain b where b: "payload_bytes (unat (HAB_HEADER_GET_SIZE h)) payload = Some b" "r = 0"
        "set_hyp p (HypVhost (vh\<lparr>vh_send_list := vh_send_list vh @ [(h, b)]\<rparr>)) s1 = Some s'"
        by blast
      show thesis
        by (rule ok [OF pc b(2) _ b(1) disjI1 [OF refl], of "tl (st_mem s)"])
          (use b(3) HypVhost pc in \<open>simp_all add: s1 set_hyp_def enqueue_hyp_def\<close>)
    qed
  next
    case (HypLoop lb)
    then have l: "loopback_send p lb h payload s = Some (r, s')"
      using assms pc by (simp add: physical_channel_send_def)
    show thesis
    proof (cases k)
      case False
      with l k s1 fail [OF pc, of "tl (st_mem s)"] show thesis by (simp add: loopback_send_def)
    next
      case True
      with l k have "\<exists>b b'. payload_bytes (unat (HAB_HEADER_GET_SIZE h)) payload = Some b \<and>
          loopback_stamp h b s1 = Some b' \<and> r = 0 \<and>
          set_hyp p (HypLoop (lb\<lparr>lb_msg_list := lb_msg_list lb @ [(h, b')],
                                 lb_msg_cnt := lb_msg_cnt lb + 1\<rparr>)) s1 = Some s'"
        unfolding loopback_send_def by simp blast
      then obtain b b' where b: "payload_bytes (unat (HAB_HEADER_GET_SIZE h)) payload = Some b"
        "loopback_stamp h b s1 = Some b'" "r = 0"
        "set_hyp p (HypLoop (lb\<lparr>lb_msg_list := lb_msg_list lb @ [(h, b')],
                               lb_msg_cnt := lb_msg_cnt lb + 1\<rparr>)) s1 = Some s'"
        by blast
      show thesis
        by (rule ok [OF pc b(3) _ b(1) disjI2 [OF b(2) [unfolded s1]]])
          (use b(4) HypLoop pc in \<open>simp_all add: s1 set_hyp_def enqueue_hyp_def\<close>)
    qed
  qed
qed

lemma send_frame:
  assumes "physical_channel_send p header payload s = Some (r, s')"
  shows "hyp_frame p s s'"
  using assms
proof (cases rule: send_cases)
  case (fail pc m)
  then show ?thesis by (simp add: hyp_frame_mem)
next
  case (ok pc m b b')
  then show ?thesis unfolding hyp_frame_def by blast
qed

text \<open>The outcomes of a read.\<close>

lemma read_cases:
  assumes "physical_channel_read p n s = Some (r, b, s')"
  obtains (none) pc where "st_pchans s p = Some pc" "r = - ENODEV" "b = []" "s' = s"
  | (vhost) pc vh where "st_pchans s p = Some pc" "pc_hyp_data pc = HypVhost vh"
      "b = take n (vh_out_iter vh)" "r = int (length b)"
      "s' = s\<lparr>st_pchans := (st_pchans s)(p \<mapsto> pc\<lparr>pc_hyp_data :=
               HypVhost (vh\<lparr>vh_out_iter := drop n (vh_out_iter vh)\<rparr>)\<rparr>)\<rparr>"
  | (loop) pc where "st_pchans s p = Some pc" "r = int n" "length b \<le> n" "s' = s"
proof -
  from assms obtain pc where pc: "st_pchans s p = Some pc"
    by (auto simp: physical_channel_read_def)
  show thesis
  proof (cases "pc_hyp_data pc")
    case HypNone
    with assms pc have "r = - ENODEV \<and> b = [] \<and> s' = s" by (simp add: physical_channel_read_def)
    with none [OF pc] show thesis by blast
  next
    case (HypVhost vh)
    with assms pc have "b = take n (vh_out_iter vh) \<and> r = int (length b) \<and>
      s' = s\<lparr>st_pchans := (st_pchans s)(p \<mapsto> pc\<lparr>pc_hyp_data :=
               HypVhost (vh\<lparr>vh_out_iter := drop n (vh_out_iter vh)\<rparr>)\<rparr>)\<rparr>"
      by (auto simp: physical_channel_read_def vhost_read_def set_hyp_def)
    with vhost [OF pc HypVhost] show thesis by blast
  next
    case (HypLoop lb)
    with assms pc have "r = int n \<and> length b \<le> n \<and> s' = s"
      by (auto simp: physical_channel_read_def loopback_read_def split: if_splits)
    with loop [OF pc] show thesis by blast
  qed
qed

lemma read_frame:
  assumes "physical_channel_read p n s = Some (r, b, s')"
  shows "hyp_frame p s s'"
  using assms
proof (cases rule: read_cases)
  case (vhost pc vh)
  then show ?thesis
    unfolding hyp_frame_def by (intro exI [of _ pc] exI [of _ _] exI [of _ "st_mem s"]) simp
qed (simp_all add: hyp_frame_refl)

lemma read_length:
  assumes "physical_channel_read p n s = Some (r, b, s')"
  shows "length b \<le> n" "r \<le> int n"
  using assms by (cases rule: read_cases; simp)+

lemma send_total:
  assumes "st_pchans s p = Some pc"
    and "unat (HAB_HEADER_GET_SIZE header) = 0 \<or>
      (\<exists>b. payload = Some b \<and> unat (HAB_HEADER_GET_SIZE header) \<le> length b)"
    and "HAB_HEADER_GET_TYPE header = payload_code HAB_PAYLOAD_TYPE_PROFILE \<longrightarrow>
      unat (HAB_HEADER_GET_SIZE header) = 0 \<or> 16 \<le> unat (HAB_HEADER_GET_SIZE header)"
  obtains r s' where "physical_channel_send p header payload s = Some (r, s')"
proof -
  obtain b where b: "payload_bytes (unat (HAB_HEADER_GET_SIZE header)) payload = Some b"
    "length b = unat (HAB_HEADER_GET_SIZE header)"
    using assms(2)
    by (cases "unat (HAB_HEADER_GET_SIZE header) = 0") (auto simp: payload_bytes_def)
  obtain ok s1 where k: "kalloc s = (ok, s1)" by fastforce
  then have s1: "st_pchans s1 p = Some pc" using kalloc_frame [OF k] assms(1) by simp
  have "\<exists>b'. loopback_stamp header b s1 = Some b'"
    using assms(3) b(2) by (auto simp: loopback_stamp_def patch64_def)
  then have "\<exists>x. physical_channel_send p header payload s = Some x"
    using b k s1 assms(1)
    by (cases "pc_hyp_data pc")
      (auto simp: physical_channel_send_def vhost_send_def loopback_send_def Let_def set_hyp_def
        mod_pchan_def)
  then show ?thesis using that by auto
qed

section \<open>The transport contract\<close>

text \<open>
  Messages not yet taken by the other side, oldest first, and what a client of the transport
  relies on: a send that reports success appends exactly the message, one that reports an error
  leaves the queue as it was, and neither touches the queue of another channel.
\<close>

definition pchan_outq :: "hab_driver \<Rightarrow> nat \<Rightarrow> (hab_header \<times> bytes) list" where
  "pchan_outq s p = (case st_pchans s p of
      None \<Rightarrow> []
    | Some pc \<Rightarrow> (case pc_hyp_data pc of
          HypNone \<Rightarrow> []
        | HypVhost vh \<Rightarrow> vh_send_list vh
        | HypLoop lb \<Rightarrow> lb_msg_list lb))"

locale msg_transport =
  fixes send :: "nat \<Rightarrow> hab_header \<Rightarrow> bytes option \<Rightarrow> 's \<Rightarrow> (int \<times> 's) option"
    and outq :: "'s \<Rightarrow> nat \<Rightarrow> (hab_header \<times> bytes) list"
  assumes send_ok: "send p h (Some b) s = Some (0, s') \<Longrightarrow>
      HAB_HEADER_GET_TYPE h \<noteq> payload_code HAB_PAYLOAD_TYPE_PROFILE \<Longrightarrow>
      outq s' p = outq s p @ [(h, take (unat (HAB_HEADER_GET_SIZE h)) b)]"
    and send_fail: "send p h payload s = Some (r, s') \<Longrightarrow> r \<noteq> 0 \<Longrightarrow> outq s' p = outq s p"
    and send_other: "send p h payload s = Some (r, s') \<Longrightarrow> q \<noteq> p \<Longrightarrow> outq s' q = outq s q"
begin

fun send_msgs :: "nat \<Rightarrow> (hab_header \<times> bytes) list \<Rightarrow> 's \<Rightarrow> (int list \<times> 's) option" where
  "send_msgs p [] s = Some ([], s)"
| "send_msgs p (m # ms) s = do {
     (r, s1) \<leftarrow> send p (fst m) (Some (snd m)) s;
     (rs, s2) \<leftarrow> send_msgs p ms s1;
     Some (r # rs, s2)
   }"

text \<open>What is queued after a sequence of sends: the accepted messages, in order, and no others.\<close>

lemma send_msgs_outq:
  assumes "send_msgs p ms s = Some (rs, s')"
    and "\<forall>(h, b) \<in> set ms. HAB_HEADER_GET_TYPE h \<noteq> payload_code HAB_PAYLOAD_TYPE_PROFILE \<and>
      unat (HAB_HEADER_GET_SIZE h) = length b"
  shows "outq s' p = outq s p @ map fst (filter (\<lambda>(m, r). r = 0) (zip ms rs))"
  using assms
proof (induction ms arbitrary: s rs)
  case Nil
  then show ?case by simp
next
  case (Cons m ms)
  obtain h b where m: "m = (h, b)" by fastforce
  from Cons.prems(1) obtain r s1 rs' where r: "send p h (Some b) s = Some (r, s1)"
    "send_msgs p ms s1 = Some (rs', s')" "rs = r # rs'"
    by (auto simp: m)
  have "outq s' p = outq s1 p @ map fst (filter (\<lambda>(m, r). r = 0) (zip ms rs'))"
    using Cons.IH [OF r(2)] Cons.prems(2) by auto
  moreover have "outq s1 p = outq s p @ (if r = 0 then [(h, b)] else [])"
    using send_ok [of p h b s s1] send_fail [OF r(1)] r(1) Cons.prems(2) by (auto simp: m)
  ultimately show ?case using r(3) by (simp add: m)
qed

end

lemma outq_mem [simp]: "pchan_outq (s\<lparr>st_mem := m\<rparr>) p = pchan_outq s p"
  by (simp add: pchan_outq_def)

lemma outq_enqueue:
  assumes "st_pchans s p = Some pc" "pc_hyp_data pc \<noteq> HypNone"
  shows "pchan_outq (s\<lparr>st_mem := m, st_pchans := (st_pchans s)
      (p \<mapsto> pc\<lparr>pc_hyp_data := enqueue_hyp h b (pc_hyp_data pc)\<rparr>)\<rparr>) p = pchan_outq s p @ [(h, b)]"
  using assms by (cases "pc_hyp_data pc") (simp_all add: pchan_outq_def enqueue_hyp_def)

interpretation core_transport: msg_transport physical_channel_send pchan_outq
proof
  fix p h b s s'
  assume a: "physical_channel_send p h (Some b) s = Some (0, s')"
    "HAB_HEADER_GET_TYPE h \<noteq> payload_code HAB_PAYLOAD_TYPE_PROFILE"
  from a(1) show "pchan_outq s' p = pchan_outq s p @ [(h, take (unat (HAB_HEADER_GET_SIZE h)) b)]"
  proof (cases rule: send_cases)
    case (ok pc m b0 b')
    then have "b' = take (unat (HAB_HEADER_GET_SIZE h)) b"
      using a(2) by (auto simp: payload_bytes_def loopback_stamp_def split: if_splits)
    then show ?thesis unfolding ok(6) using outq_enqueue [OF ok(1,3)] by simp
  qed simp
next
  fix p h payload s r s'
  assume a: "physical_channel_send p h payload s = Some (r, s')" "r \<noteq> 0"
  from a(1) show "pchan_outq s' p = pchan_outq s p"
    by (cases rule: send_cases) (use a(2) in auto)
next
  fix p h payload s r s' q
  assume "physical_channel_send p h payload s = Some (r, s')" "q \<noteq> p"
  then show "pchan_outq s' q = pchan_outq s q"
    using send_frame by (fastforce simp: hyp_frame_def pchan_outq_def)
qed

end
