(* ===== verification/Hab_Objects.thy ===== *)
theory Hab_Objects
  imports Hab_Transport
begin

text \<open>
  The life of the driver's objects: physical channels (\<^verbatim>\<open>hab_pchan.c\<close>), export descriptors, contexts
  (\<^verbatim>\<open>hab.c\<close>) and virtual channels (\<^verbatim>\<open>hab_vchan.c\<close>), from allocation over reference counting to the
  release that runs when the last reference is put.
\<close>

section \<open>Physical channels\<close>

definition hab_pchan_alloc :: "nat \<Rightarrow> int \<Rightarrow> hab_driver \<Rightarrow> (nat option \<times> hab_driver) option" where
  "hab_pchan_alloc habdev otherend_id s =
     (case kalloc s of (ok, s1) \<Rightarrow>
        if \<not> ok then Some (None, s1)
        else
          let p = st_next s1;
              pc = \<lparr>pc_is_be = False, pc_refcount = 1, pc_habdev = habdev, pc_vchan_idr = [],
                    pc_expid_idr = [], pc_expid_next = 0, pc_hyp_data = HypNone,
                    pc_dom_id = otherend_id, pc_vmid_local = 0, pc_vmid_remote = 0,
                    pc_closed = True, pc_otherend_closed = False, pc_sequence_tx = 0,
                    pc_sequence_rx = 0, pc_vchannels = [], pc_vcnt = 0, pc_mem_proto = 0\<rparr>;
              s2 = s1\<lparr>st_next := p + 1, st_pchans := (st_pchans s1)(p \<mapsto> pc)\<rparr>
          in do {
            s3 \<leftarrow> mod_dev habdev (\<lambda>d. d\<lparr>dv_pchannels := dv_pchannels d @ [p],
                                        dv_pchan_cnt := dv_pchan_cnt d + 1\<rparr>) s2;
            Some (Some p, s3)
          })"

text \<open>The walk over \<^verbatim>\<open>vchannels\<close> only logs, but it reads the channels.\<close>

definition hab_pchan_free :: "nat \<Rightarrow> hab_driver \<Rightarrow> hab_driver option" where
  "hab_pchan_free p s = do {
     pc \<leftarrow> st_pchans s p;
     s1 \<leftarrow> mod_dev (pc_habdev pc) (\<lambda>d. d\<lparr>dv_pchannels := remove1 p (dv_pchannels d),
                                           dv_pchan_cnt := dv_pchan_cnt d - 1\<rparr>) s;
     if list_all (\<lambda>v. st_vchans s v \<noteq> None) (pc_vchannels pc)
     then Some (s1\<lparr>st_pchans := (st_pchans s1)(p := None)\<rparr>) else None
   }"

definition hab_pchan_get :: "nat \<Rightarrow> hab_driver \<Rightarrow> hab_driver option" where
  "hab_pchan_get p s = mod_pchan p (\<lambda>pc. pc\<lparr>pc_refcount := pc_refcount pc + 1\<rparr>) s"

definition hab_pchan_put :: "nat \<Rightarrow> hab_driver \<Rightarrow> hab_driver option" where
  "hab_pchan_put p s = do {
     pc \<leftarrow> st_pchans s p;
     s1 \<leftarrow> mod_pchan p (\<lambda>pc. pc\<lparr>pc_refcount := pc_refcount pc - 1\<rparr>) s;
     if pc_refcount pc \<le> 1 then hab_pchan_free p s1 else Some s1
   }"

text \<open>
  The search ends on the matching channel, or, when none matches, on the list head, whose memory it
  then reads as a channel: a wrong match there is a fault, a mismatch is reported as not found.
\<close>

definition hab_pchan_find_domid ::
  "nat \<Rightarrow> int \<Rightarrow> hab_driver \<Rightarrow> (nat option \<times> hab_driver) option" where
  "hab_pchan_find_domid d dom_id s = do {
     dev \<leftarrow> get_dev d s;
     if list_all (\<lambda>p. st_pchans s p \<noteq> None) (dv_pchannels dev) then
       (case List.find (\<lambda>p. pc_dom_id (the (st_pchans s p)) = dom_id \<or> dom_id = - 2)
               (dv_pchannels dev) of
          None \<Rightarrow> if dv_head_dom dev \<noteq> dom_id \<and> dom_id \<noteq> - 2 then Some (None, s) else None
        | Some p \<Rightarrow> do {
            pc \<leftarrow> st_pchans s p;
            if pc_refcount pc = 0 then Some (None, s)
            else do { s1 \<leftarrow> hab_pchan_get p s; Some (Some p, s1) }
          })
     else None
   }"

section \<open>Messages of the core\<close>

text \<open>Freeing a queued message; a table entry that is not a page any more is a fault.\<close>

definition hab_msg_free :: "hab_message \<Rightarrow> hab_driver \<Rightarrow> hab_driver option" where
  "hab_msg_free m s = (case ms_body m of
      Flat b \<Rightarrow> Some s
    | Scatter ps \<Rightarrow>
        let page_num = ms_sizebytes m div 4096 + (if ms_sizebytes m mod 4096 \<noteq> 0 then 1 else 0)
        in if page_num \<le> length ps \<and> list_all (\<lambda>p. case p of Pg b \<Rightarrow> True | Wild w \<Rightarrow> False) (take page_num ps)
           then Some s else None)"

fun hab_msgs_free :: "hab_message list \<Rightarrow> hab_driver \<Rightarrow> hab_driver option" where
  "hab_msgs_free [] s = Some s"
| "hab_msgs_free (m # ms) s = do { s1 \<leftarrow> hab_msg_free m s; hab_msgs_free ms s1 }"

definition hab_send_close_msg :: "nat \<Rightarrow> hab_driver \<Rightarrow> hab_driver option" where
  "hab_send_close_msg v s = do {
     vc \<leftarrow> st_vchans s v;
     if vc_otherend_closed vc then Some s
     else do {
       (r, s1) \<leftarrow> physical_channel_send (vc_pchan vc)
          (mk_header 0 HAB_PAYLOAD_TYPE_CLOSE (vc_otherend_id vc) (vc_session_id vc)) None s;
       Some s1
     }
   }"

definition hab_send_unimport_msg :: "nat \<Rightarrow> u32 \<Rightarrow> hab_driver \<Rightarrow> hab_driver option" where
  "hab_send_unimport_msg v exp_id s = do {
     vc \<leftarrow> st_vchans s v;
     (r, s1) \<leftarrow> physical_channel_send (vc_pchan vc)
        (mk_header 4 HAB_PAYLOAD_TYPE_UNIMPORT (vc_otherend_id vc) (vc_session_id vc))
        (Some (enc_u32 exp_id)) s;
     Some s1
   }"

section \<open>Export descriptors\<close>

text \<open>\<^verbatim>\<open>habmem_exp_release\<close> gives the buffer of the platform data back.\<close>

definition habmem_exp_release :: "nat \<Rightarrow> hab_driver \<Rightarrow> hab_driver option" where
  "habmem_exp_release e s = do {
     x \<leftarrow> st_exps s e;
     let s1 = (case ex_dmabuf x of
         None \<Rightarrow> s
       | Some d \<Rightarrow> s\<lparr>st_hyp_mem := dma_buf_put d (st_hyp_mem s)\<rparr>);
     mod_exp e (\<lambda>x. x\<lparr>ex_dmabuf := None\<rparr>) s1
   }"

definition habmem_export_destroy :: "nat \<Rightarrow> hab_driver \<Rightarrow> hab_driver option" where
  "habmem_export_destroy e s = do {
     s1 \<leftarrow> habmem_exp_release e s;
     Some (s1\<lparr>st_exps := (st_exps s1)(e := None)\<rparr>)
   }"

definition habmem_export_get :: "nat \<Rightarrow> hab_driver \<Rightarrow> hab_driver option" where
  "habmem_export_get e s = mod_exp e (\<lambda>x. x\<lparr>ex_refcount := ex_refcount x + 1\<rparr>) s"

definition habmem_export_put :: "nat \<Rightarrow> hab_driver \<Rightarrow> hab_driver option" where
  "habmem_export_put e s = do {
     x \<leftarrow> st_exps s e;
     s1 \<leftarrow> mod_exp e (\<lambda>x. x\<lparr>ex_refcount := ex_refcount x - 1\<rparr>) s;
     if ex_refcount x \<le> 1 then habmem_export_destroy e s1 else Some s1
   }"

definition habmem_remove_export :: "nat \<Rightarrow> hab_driver \<Rightarrow> hab_driver option" where
  "habmem_remove_export e s = do {
     x \<leftarrow> st_exps s e;
     (case ex_ctx x of
        None \<Rightarrow> Some s
      | Some c \<Rightarrow> do {
          s1 \<leftarrow> mod_ctx c (\<lambda>cx. cx\<lparr>cx_export_total := cx_export_total cx - 1\<rparr>) s;
          s2 \<leftarrow> mod_exp e (\<lambda>x. x\<lparr>ex_ctx := None\<rparr>) s1;
          habmem_export_put e s2
        })
   }"

definition habmem_hyp_revoke :: "nat \<Rightarrow> hab_driver \<Rightarrow> (int \<times> hab_driver) option" where
  "habmem_hyp_revoke e s = do { x \<leftarrow> st_exps s e; Some (0, s) }"

text \<open>The identifier of an export in the idr of a channel.\<close>

definition expid_remove :: "nat \<Rightarrow> u32 \<Rightarrow> hab_driver \<Rightarrow> hab_driver option" where
  "expid_remove p i s =
     mod_pchan p (\<lambda>pc. pc\<lparr>pc_expid_idr := idr_remove (pc_expid_idr pc) (unat i)\<rparr>) s"

definition habmm_imp_hyp_unmap :: "nat \<Rightarrow> bool \<Rightarrow> hab_driver \<Rightarrow> (int \<times> hab_driver) option" where
  "habmm_imp_hyp_unmap e kern s = do {
     x \<leftarrow> st_exps s e;
     Some (0, if kern then s\<lparr>st_hyp_mem := dma_buf_put (unat (ex_kva x)) (st_hyp_mem s)\<rparr> else s)
   }"

section \<open>Contexts\<close>

definition ctx_new :: "bool \<Rightarrow> int \<Rightarrow> uhab_context" where
  "ctx_new kern lb_be =
     \<lparr>cx_refcount = 1, cx_vchannels = [], cx_vcnt = 0, cx_exp_whse = [], cx_export_total = 0,
      cx_exp_rxq = [], cx_imp_whse = [], cx_import_total = 0, cx_imp_rxq = [],
      cx_pending_open = [], cx_pending_cnt = 0, cx_forbidden_chans = [], cx_closing = False,
      cx_kernel = kern, cx_lb_be = lb_be\<rparr>"

text \<open>Two allocations: the context, and the importer context of \<^verbatim>\<open>habmem_imp_hyp_open\<close>.\<close>

definition hab_ctx_alloc :: "bool \<Rightarrow> hab_driver \<Rightarrow> nat option \<times> hab_driver" where
  "hab_ctx_alloc kern s =
     (case kalloc s of (ok1, s1) \<Rightarrow>
        if \<not> ok1 then (None, s1)
        else (case kalloc s1 of (ok2, s2) \<Rightarrow>
          if \<not> ok2 then (None, s2)
          else
            let c = st_next s2
            in (Some c, s2\<lparr>st_next := c + 1,
                  st_ctxs := (st_ctxs s2)(c \<mapsto> ctx_new kern (st_loopback_be s2)),
                  st_uctx_list := st_uctx_list s2 @ [c], st_ctx_cnt := st_ctx_cnt s2 + 1,
                  st_loopback_be := - st_loopback_be s2 - 1\<rparr>)))"

text \<open>\<^verbatim>\<open>~b\<close> of an int is \<open>- b - 1\<close>.\<close>

text \<open>The two collection loops of \<^verbatim>\<open>hab_ctx_free\<close>.\<close>

fun ctx_free_exports :: "nat \<Rightarrow> nat list \<Rightarrow> hab_driver \<Rightarrow> hab_driver option" where
  "ctx_free_exports c [] s = Some s"
| "ctx_free_exports c (e # es) s = do {
     s1 \<leftarrow> mod_ctx c (\<lambda>cx. cx\<lparr>cx_exp_whse := remove1 e (cx_exp_whse cx)\<rparr>) s;
     x \<leftarrow> st_exps s1 e;
     p \<leftarrow> ex_pchan x;
     pc \<leftarrow> st_pchans s1 p;
     s2 \<leftarrow>
       (if ex_remote_imported x \<and> pc_mem_proto pc = 1
        then Some (s1\<lparr>st_reclaim_list := st_reclaim_list s1 @ [e]\<rparr>)
        else do {
          s3 \<leftarrow> expid_remove p (ex_export_id x) s1;
          habmem_remove_export e s3
        });
     ctx_free_exports c es s2
   }"

fun ctx_free_imports :: "nat \<Rightarrow> imp_whse \<Rightarrow> hab_driver \<Rightarrow> hab_driver option" where
  "ctx_free_imports c [] s = Some s"
| "ctx_free_imports c ((k, e) # m) s = do {
     x \<leftarrow> st_exps s e;
     s1 \<leftarrow> mod_ctx c (\<lambda>cx. cx\<lparr>cx_imp_whse := whse_remove k (cx_imp_whse cx),
                               cx_import_total := cx_import_total cx - 1\<rparr>) s;
     cx \<leftarrow> st_ctxs s1 c;
     (r, s2) \<leftarrow> habmm_imp_hyp_unmap e (cx_kernel cx) s1;
     p \<leftarrow> ex_pchan x;
     pc \<leftarrow> st_pchans s2 p;
     s3 \<leftarrow>
       (if pc_mem_proto pc = 1 \<and> r = 0
        then do {
          (r', s') \<leftarrow> physical_channel_send p
             (mk_header 4 HAB_PAYLOAD_TYPE_UNIMPORT HAB_VCID_UNIMPORT HAB_SESSIONID_UNIMPORT)
             (Some (enc_u32 (ex_export_id x))) s2;
          Some s'
        }
        else Some s2);
     ctx_free_imports c m (s3\<lparr>st_exps := (st_exps s3)(e := None)\<rparr>)
   }"

definition hab_ctx_free :: "nat \<Rightarrow> hab_driver \<Rightarrow> hab_driver option" where
  "hab_ctx_free c s = do {
     s1 \<leftarrow> mod_ctx c (\<lambda>cx. cx\<lparr>cx_forbidden_chans := []\<rparr>) s;
     cx \<leftarrow> st_ctxs s1 c;
     s2 \<leftarrow> ctx_free_exports c (cx_exp_whse cx) s1;
     cx2 \<leftarrow> st_ctxs s2 c;
     s3 \<leftarrow> ctx_free_imports c (cx_imp_whse cx2) s2;
     cx3 \<leftarrow> st_ctxs s3 c;
     Some (s3\<lparr>st_ctx_cnt := st_ctx_cnt s3 - 1, st_uctx_list := filter (\<lambda>x. x \<noteq> c) (st_uctx_list s3),
              st_ctxs := (st_ctxs s3)(c := None)\<rparr>)
   }"

definition hab_ctx_get :: "nat \<Rightarrow> hab_driver \<Rightarrow> hab_driver option" where
  "hab_ctx_get c s = mod_ctx c (\<lambda>cx. cx\<lparr>cx_refcount := cx_refcount cx + 1\<rparr>) s"

definition hab_ctx_put :: "nat \<Rightarrow> hab_driver \<Rightarrow> hab_driver option" where
  "hab_ctx_put c s = do {
     cx \<leftarrow> st_ctxs s c;
     s1 \<leftarrow> mod_ctx c (\<lambda>cx. cx\<lparr>cx_refcount := cx_refcount cx - 1\<rparr>) s;
     if cx_refcount cx \<le> 1 then hab_ctx_free c s1 else Some s1
   }"

section \<open>Virtual channels\<close>

definition vchan_new :: "nat \<Rightarrow> nat \<Rightarrow> u32 \<Rightarrow> u32 \<Rightarrow> bool \<Rightarrow> virtual_channel" where
  "vchan_new p c vid session otherend_closed =
     \<lparr>vc_refcount = 1, vc_pchan = p, vc_ctx = c, vc_rx_list = [], vc_id = vid, vc_otherend_id = 0,
      vc_otherend_closed = otherend_closed, vc_session_id = session, vc_closed = False,
      vc_tx_cnt = 0, vc_rx_cnt = 0, vc_rx_inflight = False\<rparr>"

definition hab_vchan_alloc ::
  "nat \<Rightarrow> nat \<Rightarrow> u32 \<Rightarrow> hab_driver \<Rightarrow> (nat option \<times> hab_driver) option" where
  "hab_vchan_alloc c p openid s =
     (case kalloc s of (ok, s1) \<Rightarrow>
        if \<not> ok then Some (None, s1)
        else do {
          pc \<leftarrow> st_pchans s1 p;
          (case idr_alloc (pc_vchan_idr pc) (st_next s1) 1 4096 of
             None \<Rightarrow> Some (None, s1)
           | Some (i, idr) \<Rightarrow>
               let v = st_next s1 in do {
                 dev \<leftarrow> get_dev (pc_habdev pc) s1;
                 s2 \<leftarrow> mod_pchan p (\<lambda>pc. pc\<lparr>pc_vchan_idr := idr,
                         pc_refcount := pc_refcount pc + 1,
                         pc_vchannels := pc_vchannels pc @ [v], pc_vcnt := pc_vcnt pc + 1\<rparr>) s1;
                 s3 \<leftarrow> hab_ctx_get c s2;
                 Some (Some v, s3\<lparr>st_next := v + 1, st_vchans := (st_vchans s3)(v \<mapsto>
                   vchan_new p c (vcid_compose (of_nat i) (dv_id dev) (of_int (pc_dom_id pc)))
                     openid (pc_closed pc))\<rparr>)
               })
        })"

definition hab_vchan_free :: "nat \<Rightarrow> hab_driver \<Rightarrow> hab_driver option" where
  "hab_vchan_free v s = do {
     vc \<leftarrow> st_vchans s v;
     s1 \<leftarrow> hab_msgs_free (vc_rx_list vc) s;
     s2 \<leftarrow> mod_vchan v (\<lambda>vc. vc\<lparr>vc_rx_list := []\<rparr>) s1;
     s3 \<leftarrow> mod_pchan (vc_pchan vc) (\<lambda>pc.
             if v \<in> set (pc_vchannels pc)
             then pc\<lparr>pc_vchannels := remove1 v (pc_vchannels pc), pc_vcnt := pc_vcnt pc - 1\<rparr>
             else pc) s2;
     s4 \<leftarrow> hab_ctx_put (vc_ctx vc) s3;
     s5 \<leftarrow> mod_pchan (vc_pchan vc) (\<lambda>pc.
             pc\<lparr>pc_vchan_idr := idr_remove (pc_vchan_idr pc) (unat (HAB_VCID_GET_ID (vc_id vc)))\<rparr>) s4;
     s6 \<leftarrow> hab_pchan_put (vc_pchan vc) s5;
     Some (s6\<lparr>st_vchans := (st_vchans s6)(v := None)\<rparr>)
   }"

definition hab_vchan_put :: "nat \<Rightarrow> hab_driver \<Rightarrow> hab_driver option" where
  "hab_vchan_put v s = do {
     vc \<leftarrow> st_vchans s v;
     s1 \<leftarrow> mod_vchan v (\<lambda>vc. vc\<lparr>vc_refcount := vc_refcount vc - 1\<rparr>) s;
     if vc_refcount vc \<le> 1 then hab_vchan_free v s1 else Some s1
   }"

text \<open>\<open>kref_get_unless_zero\<close> on a channel.\<close>

definition vchan_get_unless_zero ::
  "nat \<Rightarrow> hab_driver \<Rightarrow> (nat option \<times> hab_driver) option" where
  "vchan_get_unless_zero v s = do {
     vc \<leftarrow> st_vchans s v;
     if vc_refcount vc = 0 then Some (None, s)
     else do {
       s1 \<leftarrow> mod_vchan v (\<lambda>vc. vc\<lparr>vc_refcount := vc_refcount vc + 1\<rparr>) s;
       Some (Some v, s1)
     }
   }"

definition hab_vchan_get ::
  "nat \<Rightarrow> hab_header \<Rightarrow> hab_driver \<Rightarrow> (nat option \<times> hab_driver) option" where
  "hab_vchan_get p header s = do {
     pc \<leftarrow> st_pchans s p;
     (case idr_find (pc_vchan_idr pc) (unat (HAB_VCID_GET_ID (HAB_HEADER_GET_ID header))) of
        None \<Rightarrow> Some (None, s)
      | Some v \<Rightarrow> do {
          vc \<leftarrow> st_vchans s v;
          if vc_session_id vc \<noteq> HAB_HEADER_GET_SESSION_ID header then Some (None, s)
          else if vc_otherend_id vc = 0 then Some (None, s)
          else if vc_otherend_closed vc \<or> vc_closed vc then Some (None, s)
          else vchan_get_unless_zero v s
        })
   }"

definition hab_vchan_stop :: "nat \<Rightarrow> hab_driver \<Rightarrow> hab_driver option" where
  "hab_vchan_stop v s = mod_vchan v (\<lambda>vc. vc\<lparr>vc_otherend_closed := True\<rparr>) s"

fun vchans_stop :: "nat list \<Rightarrow> hab_driver \<Rightarrow> hab_driver option" where
  "vchans_stop [] s = Some s"
| "vchans_stop (v # vs) s = do { s1 \<leftarrow> hab_vchan_stop v s; vchans_stop vs s1 }"

definition hab_vchans_stop :: "nat \<Rightarrow> hab_driver \<Rightarrow> hab_driver option" where
  "hab_vchans_stop p s = do { pc \<leftarrow> st_pchans s p; vchans_stop (pc_vchannels pc) s }"

definition hab_vchan_stop_notify :: "nat \<Rightarrow> hab_driver \<Rightarrow> hab_driver option" where
  "hab_vchan_stop_notify v s = do { s1 \<leftarrow> hab_send_close_msg v s; hab_vchan_stop v s1 }"

text \<open>A channel's virtual channels count as closed when only unpaired ones (session 0) are left.\<close>

definition hab_vchans_per_pchan_empty :: "nat \<Rightarrow> hab_driver \<Rightarrow> bool option" where
  "hab_vchans_per_pchan_empty p s = do {
     pc \<leftarrow> st_pchans s p;
     if pc_vchannels pc = [] then Some True
     else if list_all (\<lambda>v. st_vchans s v \<noteq> None) (pc_vchannels pc)
     then Some (pc_vcnt pc =
       int (length (filter (\<lambda>v. vc_session_id (the (st_vchans s v)) = 0) (pc_vchannels pc))))
     else None
   }"

fun pchans_empty :: "int \<Rightarrow> nat list \<Rightarrow> hab_driver \<Rightarrow> bool option" where
  "pchans_empty vmid [] s = Some True"
| "pchans_empty vmid (p # ps) s = do {
     pc \<leftarrow> st_pchans s p;
     if pc_vmid_remote pc = vmid then do {
       e \<leftarrow> hab_vchans_per_pchan_empty p s;
       if e then pchans_empty vmid ps s else Some False
     } else pchans_empty vmid ps s
   }"

fun devs_empty :: "int \<Rightarrow> hab_device list \<Rightarrow> hab_driver \<Rightarrow> bool option" where
  "devs_empty vmid [] s = Some True"
| "devs_empty vmid (d # ds) s = do {
     e \<leftarrow> pchans_empty vmid (dv_pchannels d) s;
     es \<leftarrow> devs_empty vmid ds s;
     Some (e \<and> es)
   }"

definition hab_vchans_empty :: "int \<Rightarrow> hab_driver \<Rightarrow> bool option" where
  "hab_vchans_empty vmid s = devs_empty vmid (st_devs s) s"

definition hab_vchan_find_domid :: "nat option \<Rightarrow> hab_driver \<Rightarrow> int option" where
  "hab_vchan_find_domid vo s = (case vo of
      None \<Rightarrow> Some (- 1)
    | Some v \<Rightarrow> do { vc \<leftarrow> st_vchans s v; pc \<leftarrow> st_pchans s (vc_pchan vc); Some (pc_dom_id pc) })"

text \<open>The lookup behind every call of a client: the context's channels, by virtual channel id.\<close>

fun find_vcid :: "u32 \<Rightarrow> nat list \<Rightarrow> hab_driver \<Rightarrow> nat option option" where
  "find_vcid vcid [] s = Some None"
| "find_vcid vcid (v # vs) s = do {
     vc \<leftarrow> st_vchans s v;
     if vc_id vc = vcid then Some (Some v) else find_vcid vcid vs s
   }"

definition hab_get_vchan_fromvcid ::
  "u32 \<Rightarrow> nat \<Rightarrow> bool \<Rightarrow> hab_driver \<Rightarrow> (nat option \<times> hab_driver) option" where
  "hab_get_vchan_fromvcid vcid c ignore_remote s = do {
     cx \<leftarrow> st_ctxs s c;
     r \<leftarrow> find_vcid vcid (cx_vchannels cx) s;
     (case r of
        None \<Rightarrow> Some (None, s)
      | Some v \<Rightarrow> do {
          vc \<leftarrow> st_vchans s v;
          if (\<not> ignore_remote \<and> vc_otherend_closed vc) \<or> vc_closed vc then Some (None, s)
          else vchan_get_unless_zero v s
        })
   }"

text \<open>The two vmids of the channel's ends, packed into one word.\<close>

definition hab_vchan_query ::
  "nat \<Rightarrow> u32 \<Rightarrow> hab_driver \<Rightarrow> (int \<times> u64 \<times> hab_driver) option" where
  "hab_vchan_query c vcid s = do {
     (r, s1) \<leftarrow> hab_get_vchan_fromvcid vcid c True s;
     (case r of
        None \<Rightarrow> Some (- EINVAL, 0, s1)
      | Some v \<Rightarrow> do {
          vc \<leftarrow> st_vchans s1 v;
          if vc_otherend_closed vc then do {
            s2 \<leftarrow> hab_vchan_put v s1;
            Some (- ENODEV, 0, s2)
          } else do {
            pc \<leftarrow> st_pchans s1 (vc_pchan vc);
            s2 \<leftarrow> hab_vchan_put v s1;
            Some (0, of_int (pc_vmid_local pc) OR push_bit 32 (of_int (pc_vmid_remote pc)), s2)
          }
        })
   }"

end
