(* ===== verification/Hab_Refs.thy ===== *)
theory Hab_Refs
  imports Hab_Objects
begin

text \<open>
  Accounting for references.  \<open>refs_wf\<close> says that every reference count covers the references the
  driver's own structures hold, plus those held by threads in the middle of an operation (\<open>hp\<close>,
  \<open>hv\<close>, \<open>hc\<close>: held references to channels, virtual channels, contexts), and that everything the
  structures point to is still allocated.  \<open>D\<close> names virtual channels in the middle of their release.

  The predicate is over a view of the state that keeps only what matters to references, so that
  operations on other fields preserve it by congruence; the lemmas of this theory are the moves the
  operations are made of.
\<close>

type_synonym pview = "nat \<Rightarrow> (nat \<times> nat list \<times> idr \<times> nat) option"
type_synonym vview = "nat \<Rightarrow> (nat \<times> nat \<times> nat \<times> u32) option"
type_synonym cview = "nat \<Rightarrow> (nat list \<times> nat) option"
type_synonym qview = "(nat list \<times> nat option list) list"

definition qrefs :: "qview \<Rightarrow> nat \<Rightarrow> nat" where
  "qrefs Q p = count_list (concat (map snd Q)) (Some p)"

definition vset :: "nat set \<Rightarrow> vview \<Rightarrow> nat \<Rightarrow> nat set" where
  "vset D V c = {v. v \<notin> D \<and> (\<exists>p k i. V v = Some (p, c, k, i))}"

definition pchan_ok ::
  "nat set \<Rightarrow> (nat \<Rightarrow> nat) \<Rightarrow> vview \<Rightarrow> qview \<Rightarrow> nat \<Rightarrow> nat \<Rightarrow> nat \<times> nat list \<times> idr \<times> nat \<Rightarrow> bool"
where
  "pchan_ok D hp V Q n p = (\<lambda>(h, vs, idr, r).
     p < n \<and> h < length Q \<and> distinct vs \<and>
     (\<forall>v \<in> set vs. v \<notin> D \<and> (\<exists>c k i. V v = Some (p, c, k, i))) \<and>
     (\<forall>j v. (j, v) \<in> set idr \<longrightarrow> (\<exists>c k i. V v = Some (p, c, k, i) \<and> j = unat (HAB_VCID_GET_ID i))) \<and>
     1 + length vs + qrefs Q p + hp p \<le> r)"

definition vchan_ok ::
  "nat set \<Rightarrow> (nat \<Rightarrow> nat) \<Rightarrow> pview \<Rightarrow> cview \<Rightarrow> nat \<Rightarrow> nat \<Rightarrow> nat \<times> nat \<times> nat \<times> u32 \<Rightarrow> bool" where
  "vchan_ok D hv P C n v = (\<lambda>(p, c, k, i).
     v < n \<and>
     (\<exists>h vs idr r. P p = Some (h, vs, idr, r) \<and> (v \<notin> D \<longrightarrow> v \<in> set vs)) \<and>
     (v \<notin> D \<longrightarrow> (\<exists>ws r. C c = Some (ws, r) \<and> (if v \<in> set ws then 1 else 0) + hv v \<le> k)))"

definition ctx_ok ::
  "nat set \<Rightarrow> (nat \<Rightarrow> nat) \<Rightarrow> vview \<Rightarrow> nat \<Rightarrow> nat \<Rightarrow> nat list \<times> nat \<Rightarrow> bool" where
  "ctx_ok D hc V n c = (\<lambda>(ws, r).
     c < n \<and> distinct ws \<and> set ws \<subseteq> vset D V c \<and> card (vset D V c) + hc c \<le> r)"

definition dev_ok :: "pview \<Rightarrow> qview \<Rightarrow> bool" where
  "dev_ok P Q \<longleftrightarrow> (\<forall>ps qs. (ps, qs) \<in> set Q \<longrightarrow>
     (\<forall>p \<in> set ps. P p \<noteq> None) \<and> (\<forall>q \<in> set qs. \<exists>p. q = Some p \<and> P p \<noteq> None))"

definition refs_ok ::
  "nat set \<Rightarrow> (nat \<Rightarrow> nat) \<Rightarrow> (nat \<Rightarrow> nat) \<Rightarrow> (nat \<Rightarrow> nat) \<Rightarrow>
     pview \<Rightarrow> vview \<Rightarrow> cview \<Rightarrow> qview \<Rightarrow> nat \<Rightarrow> bool" where
  "refs_ok D hp hv hc P V C Q n \<longleftrightarrow>
     (\<forall>p x. P p = Some x \<longrightarrow> pchan_ok D hp V Q n p x) \<and>
     (\<forall>v x. V v = Some x \<longrightarrow> vchan_ok D hv P C n v x) \<and>
     (\<forall>c x. C c = Some x \<longrightarrow> ctx_ok D hc V n c x) \<and>
     dev_ok P Q"

text \<open>The view of a driver state.\<close>

definition pview_of :: "hab_driver \<Rightarrow> pview" where
  "pview_of s p = map_option (\<lambda>pc. (pc_habdev pc, pc_vchannels pc, pc_vchan_idr pc, pc_refcount pc))
                    (st_pchans s p)"

definition vview_of :: "hab_driver \<Rightarrow> vview" where
  "vview_of s v = map_option (\<lambda>vc. (vc_pchan vc, vc_ctx vc, vc_refcount vc, vc_id vc))
                    (st_vchans s v)"

definition cview_of :: "hab_driver \<Rightarrow> cview" where
  "cview_of s c = map_option (\<lambda>cx. (cx_vchannels cx, cx_refcount cx)) (st_ctxs s c)"

definition qview_of :: "hab_driver \<Rightarrow> qview" where
  "qview_of s = map (\<lambda>d. (dv_pchannels d, map (\<lambda>n. rq_pchan (on_request n)) (dv_openq_list d)))
                  (st_devs s)"

definition refs_wf ::
  "nat set \<Rightarrow> (nat \<Rightarrow> nat) \<Rightarrow> (nat \<Rightarrow> nat) \<Rightarrow> (nat \<Rightarrow> nat) \<Rightarrow> hab_driver \<Rightarrow> bool" where
  "refs_wf D hp hv hc s \<longleftrightarrow>
     refs_ok D hp hv hc (pview_of s) (vview_of s) (cview_of s) (qview_of s) (st_next s)"

lemmas ok_defs = pchan_ok_def vchan_ok_def ctx_ok_def dev_ok_def
lemmas view_defs = pview_of_def vview_of_def cview_of_def qview_of_def

lemma refs_wf_cong:
  "pview_of s = pview_of s' \<Longrightarrow> vview_of s = vview_of s' \<Longrightarrow> cview_of s = cview_of s' \<Longrightarrow>
     qview_of s = qview_of s' \<Longrightarrow> st_next s = st_next s' \<Longrightarrow>
     refs_wf D hp hv hc s = refs_wf D hp hv hc s'"
  by (simp add: refs_wf_def)

section \<open>Consequences\<close>

lemma refs_ok_pchan: "refs_ok D hp hv hc P V C Q n \<Longrightarrow> P p = Some x \<Longrightarrow> pchan_ok D hp V Q n p x"
  unfolding refs_ok_def by blast

lemma refs_ok_vchan: "refs_ok D hp hv hc P V C Q n \<Longrightarrow> V v = Some x \<Longrightarrow> vchan_ok D hv P C n v x"
  unfolding refs_ok_def by blast

lemma refs_ok_ctx: "refs_ok D hp hv hc P V C Q n \<Longrightarrow> C c = Some x \<Longrightarrow> ctx_ok D hc V n c x"
  unfolding refs_ok_def by blast

lemma refs_ok_dev: "refs_ok D hp hv hc P V C Q n \<Longrightarrow> dev_ok P Q"
  by (simp add: refs_ok_def)

lemma refs_okI:
  "(\<And>p h vs idr r. P p = Some (h, vs, idr, r) \<Longrightarrow> pchan_ok D hp V Q n p (h, vs, idr, r)) \<Longrightarrow>
   (\<And>v p c k i. V v = Some (p, c, k, i) \<Longrightarrow> vchan_ok D hv P C n v (p, c, k, i)) \<Longrightarrow>
   (\<And>c ws r. C c = Some (ws, r) \<Longrightarrow> ctx_ok D hc V n c (ws, r)) \<Longrightarrow>
   dev_ok P Q \<Longrightarrow> refs_ok D hp hv hc P V C Q n"
  by (auto simp: refs_ok_def)

lemma finite_vset:
  assumes "refs_ok D hp hv hc P V C Q n"
  shows "finite (vset D' V c)"
proof (rule finite_subset)
  show "vset D' V c \<subseteq> {..<n}"
    using assms by (fastforce simp: vset_def refs_ok_def vchan_ok_def)
qed simp

lemma vset_insert: "V v = Some (p, c, k, i) \<Longrightarrow> v \<notin> D \<Longrightarrow> vset (insert v D) V c = vset D V c - {v}"
  by (auto simp: vset_def)

section \<open>Moves\<close>

text \<open>Taking and putting a reference to a channel.\<close>

lemma move_pchan_get:
  assumes "refs_ok D hp hv hc P V C Q n" "P p = Some (h, vs, idr, r)"
  shows "refs_ok D (hp(p := Suc (hp p))) hv hc (P(p \<mapsto> (h, vs, idr, Suc r))) V C Q n"
  using assms by (fastforce simp: refs_ok_def ok_defs split: if_splits)

lemma move_pchan_put:
  assumes "refs_ok D hp hv hc P V C Q n" "P p = Some (h, vs, idr, r)" "hp p = Suc k"
  shows "refs_ok D (hp(p := k)) hv hc (P(p \<mapsto> (h, vs, idr, r - 1))) V C Q n" "1 < r"
  using assms by (fastforce simp: refs_ok_def ok_defs split: if_splits)+

text \<open>Contexts; a context whose count reaches zero has no virtual channel left.\<close>

lemma move_ctx_get:
  assumes "refs_ok D hp hv hc P V C Q n" "C c = Some (ws, r)"
  shows "refs_ok D hp hv (hc(c := Suc (hc c))) P V (C(c \<mapsto> (ws, Suc r))) Q n"
  using assms by (fastforce simp: refs_ok_def ok_defs split: if_splits)

lemma move_ctx_put:
  assumes "refs_ok D hp hv hc P V C Q n" "C c = Some (ws, r)" "hc c = Suc k"
  shows "refs_ok D hp hv (hc(c := k)) P V (C(c \<mapsto> (ws, r - 1))) Q n" "0 < r"
  using assms by (fastforce simp: refs_ok_def ok_defs split: if_splits)+

lemma move_ctx_free:
  assumes "refs_ok D hp hv hc P V C Q n" "C c = Some (ws, 0)"
  shows "refs_ok D hp hv hc P V (C(c := None)) Q n"
proof -
  have "card (vset D V c) = 0" using refs_ok_ctx [OF assms] by (simp add: ctx_ok_def)
  then have none: "vset D V c = {}" using finite_vset [OF assms(1)] by simp
  show ?thesis
  proof (rule refs_okI)
    fix v p c' k i assume v: "V v = Some (p, c', k, i)"
    have "v \<in> D \<or> c' \<noteq> c" using v none by (auto simp: vset_def)
    then show "vchan_ok D hv P (C(c := None)) n v (p, c', k, i)"
      using refs_ok_vchan [OF assms(1) v] by (auto simp: vchan_ok_def)
  qed (use assms in \<open>auto simp: refs_ok_def split: if_splits\<close>)
qed

text \<open>Virtual channels.\<close>

lemma vset_count: "V v = Some (p, c, k, i) \<Longrightarrow> vset D (V(v \<mapsto> (p, c, k', i))) c' = vset D V c'"
  by (auto simp: vset_def)

lemma pchan_ok_count:
  assumes "pchan_ok D hp V Q n q x" "V v = Some (p, c, k, i)"
  shows "pchan_ok D hp (V(v \<mapsto> (p, c, k', i))) Q n q x"
  using assms by (cases x) (fastforce simp: pchan_ok_def)

lemma move_vchan_count:
  assumes wf: "refs_ok D hp hv hc P V C Q n" and v: "V v = Some (p, c, k, i)"
    and k': "\<And>ws r. C c = Some (ws, r) \<Longrightarrow> v \<notin> D \<Longrightarrow> (if v \<in> set ws then 1 else 0) + hv v \<le> k \<Longrightarrow>
      (if v \<in> set ws then 1 else 0) + m \<le> k'"
  shows "refs_ok D hp (hv(v := m)) hc P (V(v \<mapsto> (p, c, k', i))) C Q n"
proof (rule refs_okI)
  fix q h vs idr r assume "P q = Some (h, vs, idr, r)"
  from pchan_ok_count [OF refs_ok_pchan [OF wf this] v]
  show "pchan_ok D hp (V(v \<mapsto> (p, c, k', i))) Q n q (h, vs, idr, r)" .
next
  fix v' p' c' l i' assume v': "(V(v \<mapsto> (p, c, k', i))) v' = Some (p', c', l, i')"
  show "vchan_ok D (hv(v := m)) P C n v' (p', c', l, i')"
  proof (cases "v' = v")
    case True
    with v' refs_ok_vchan [OF wf v] k' show ?thesis by (fastforce simp: vchan_ok_def)
  next
    case False
    with v' have "V v' = Some (p', c', l, i')" by simp
    from refs_ok_vchan [OF wf this] False show ?thesis by (simp add: vchan_ok_def)
  qed
next
  fix c' ws r assume "C c' = Some (ws, r)"
  from refs_ok_ctx [OF wf this] show "ctx_ok D hc (V(v \<mapsto> (p, c, k', i))) n c' (ws, r)"
    by (simp add: ctx_ok_def vset_count [where V = V, OF v])
next
  show "dev_ok P Q" by (rule refs_ok_dev [OF wf])
qed

lemma move_vchan_get:
  assumes "refs_ok D hp hv hc P V C Q n" "V v = Some (p, c, k, i)"
  shows "refs_ok D hp (hv(v := Suc (hv v))) hc P (V(v \<mapsto> (p, c, Suc k, i))) C Q n"
  by (rule move_vchan_count [OF assms]) simp

lemma move_vchan_put:
  assumes "refs_ok D hp hv hc P V C Q n" "V v = Some (p, c, k, i)" "hv v = Suc m" "v \<notin> D"
  shows "refs_ok D hp (hv(v := m)) hc P (V(v \<mapsto> (p, c, k - 1, i))) C Q n" "0 < k"
proof -
  show "refs_ok D hp (hv(v := m)) hc P (V(v \<mapsto> (p, c, k - 1, i))) C Q n"
    by (rule move_vchan_count [OF assms(1,2)]) (use assms(3) in auto)
  show "0 < k" using refs_ok_vchan [OF assms(1,2)] assms(3,4) by (auto simp: vchan_ok_def)
qed

text \<open>The release of a virtual channel: it leaves its channel's list, its references to channel
  and context pass to the releasing thread, its identifier is given up, and its memory freed.\<close>

lemma move_vchan_detach:
  assumes wf: "refs_ok D hp hv hc P V C Q n" and v: "V v = Some (p, c, k, i)" "v \<notin> D"
    and p: "P p = Some (h, vs, idr, r)" and c: "C c = Some (ws, rc)" "v \<notin> set ws"
  shows "refs_ok (insert v D) (hp(p := Suc (hp p))) hv (hc(c := Suc (hc c)))
    (P(p \<mapsto> (h, remove1 v vs, idr, r))) V C Q n"
proof (rule refs_okI)
  have vs: "v \<in> set vs" "distinct vs"
    using refs_ok_vchan [OF wf v(1)] refs_ok_pchan [OF wf p] v(2) p
    by (auto simp: vchan_ok_def pchan_ok_def)
  then have len: "length vs = Suc (length (remove1 v vs))"
    by (simp add: length_remove1) (metis Suc_pred length_pos_if_in_set)
  fix p' h' vs' idr' r'
  assume p': "(P(p \<mapsto> (h, remove1 v vs, idr, r))) p' = Some (h', vs', idr', r')"
  show "pchan_ok (insert v D) (hp(p := Suc (hp p))) V Q n p' (h', vs', idr', r')"
  proof (cases "p' = p")
    case True
    with p' refs_ok_pchan [OF wf p] len vs show ?thesis by (auto simp: pchan_ok_def)
  next
    case False
    then have P': "P p' = Some (h', vs', idr', r')" using p' by simp
    have "v \<notin> set vs'" using refs_ok_pchan [OF wf P'] v False by (auto simp: pchan_ok_def)
    with refs_ok_pchan [OF wf P'] False show ?thesis by (auto simp: pchan_ok_def)
  qed
next
  fix v' p' c' k' i' assume v': "V v' = Some (p', c', k', i')"
  from refs_ok_vchan [OF wf v'] p show
    "vchan_ok (insert v D) hv (P(p \<mapsto> (h, remove1 v vs, idr, r))) C n v' (p', c', k', i')"
    by (auto simp: vchan_ok_def)
next
  fix c' ws' r' assume c': "C c' = Some (ws', r')"
  have "v \<notin> set ws'"
    using refs_ok_ctx [OF wf c'] c c' v by (auto simp: ctx_ok_def vset_def)
  moreover have "vset (insert v D) V c' = vset D V c' - {v}" by (auto simp: vset_def)
  moreover have "v \<in> vset D V c' \<longleftrightarrow> c' = c" using v by (auto simp: vset_def)
  moreover have "card (vset D V c) = Suc (card (vset D V c - {v}))"
    using finite_vset [OF wf] v by (intro card.remove) (auto simp: vset_def)
  ultimately show "ctx_ok (insert v D) (hc(c := Suc (hc c))) V n c' (ws', r')"
    using refs_ok_ctx [OF wf c'] by (auto simp: ctx_ok_def)
next
  show "dev_ok (P(p \<mapsto> (h, remove1 v vs, idr, r))) Q"
    using refs_ok_dev [OF wf] p by (force simp: dev_ok_def)
qed

lemma move_idr_remove:
  assumes "refs_ok D hp hv hc P V C Q n" "P p = Some (h, vs, idr, r)"
  shows "refs_ok D hp hv hc (P(p \<mapsto> (h, vs, idr_remove idr j, r))) V C Q n"
proof -
  have "set (idr_remove idr j) \<subseteq> set idr" by (auto simp: set_idr_remove)
  then show ?thesis
    using assms by (fastforce simp: refs_ok_def ok_defs split: if_splits)
qed

lemma move_vchan_gone:
  assumes wf: "refs_ok (insert v D) hp hv hc P V C Q n" and v: "V v = Some (p, c, k, i)" "v \<notin> D"
    and idr: "\<And>h vs idr r. P p = Some (h, vs, idr, r) \<Longrightarrow> (unat (HAB_VCID_GET_ID i), v) \<notin> set idr"
  shows "refs_ok D hp hv hc P (V(v := None)) C Q n"
proof (rule refs_okI)
  fix p' h' vs' idr' r' assume p': "P p' = Some (h', vs', idr', r')"
  have "(j, v) \<notin> set idr'" for j
    using refs_ok_pchan [OF wf p'] v idr [of h' vs' idr' r'] p' by (fastforce simp: pchan_ok_def)
  then show "pchan_ok D hp (V(v := None)) Q n p' (h', vs', idr', r')"
    using refs_ok_pchan [OF wf p'] by (fastforce simp: pchan_ok_def)
next
  fix v' p' c' k' i' assume v': "(V(v := None)) v' = Some (p', c', k', i')"
  then have "V v' = Some (p', c', k', i')" "v' \<noteq> v" by (auto split: if_splits)
  with refs_ok_vchan [OF wf this(1)] show "vchan_ok D hv P C n v' (p', c', k', i')"
    by (auto simp: vchan_ok_def)
next
  fix c' ws' r' assume c': "C c' = Some (ws', r')"
  have "vset D (V(v := None)) c' = vset (insert v D) V c'" by (auto simp: vset_def)
  with refs_ok_ctx [OF wf c'] show "ctx_ok D hc (V(v := None)) n c' (ws', r')"
    by (simp add: ctx_ok_def)
next
  show "dev_ok P Q" by (rule refs_ok_dev [OF wf])
qed

text \<open>The allocation of a virtual channel, which starts with one reference, held by its creator.\<close>

lemma move_vchan_alloc:
  assumes wf: "refs_ok D hp hv hc P V C Q n" and p: "P p = Some (h, vs, idr, r)"
    and c: "C c = Some (ws, rc)" and j: "j = unat (HAB_VCID_GET_ID i)" and D: "n \<notin> D"
  shows "refs_ok D hp (hv(n := 1)) hc (P(p \<mapsto> (h, vs @ [n], (j, n) # idr, Suc r)))
    (V(n \<mapsto> (p, c, 1, i))) (C(c \<mapsto> (ws, Suc rc))) Q (Suc n)"
proof (rule refs_okI)
  have fresh: "V n = None" using refs_ok_vchan [OF wf, of n] by (cases "V n") (auto simp: vchan_ok_def)
  fix p' h' vs' idr' r'
  assume p': "(P(p \<mapsto> (h, vs @ [n], (j, n) # idr, Suc r))) p' = Some (h', vs', idr', r')"
  show "pchan_ok D hp (V(n \<mapsto> (p, c, 1, i))) Q (Suc n) p' (h', vs', idr', r')"
  proof (cases "p' = p")
    case True
    have "n \<notin> set vs" using refs_ok_pchan [OF wf p] fresh by (auto simp: pchan_ok_def)
    moreover have "(m, n) \<notin> set idr" for m
      using refs_ok_pchan [OF wf p] fresh by (fastforce simp: pchan_ok_def)
    ultimately show ?thesis
      using True p' refs_ok_pchan [OF wf p] j D by (auto simp: pchan_ok_def)
  next
    case False
    then have P': "P p' = Some (h', vs', idr', r')" using p' by simp
    have "n \<notin> set vs'" using refs_ok_pchan [OF wf P'] fresh by (auto simp: pchan_ok_def)
    moreover have "(m, n) \<notin> set idr'" for m
      using refs_ok_pchan [OF wf P'] fresh by (fastforce simp: pchan_ok_def)
    ultimately show ?thesis
      using refs_ok_pchan [OF wf P'] by (fastforce simp: pchan_ok_def)
  qed
next
  have fresh: "V n = None" using refs_ok_vchan [OF wf, of n] by (cases "V n") (auto simp: vchan_ok_def)
  have nws: "n \<notin> set ws'" if "C c' = Some (ws', r')" for c' ws' r'
    using refs_ok_ctx [OF wf that] fresh by (auto simp: ctx_ok_def vset_def)
  fix v' p' c' k' i' assume v': "(V(n \<mapsto> (p, c, 1, i))) v' = Some (p', c', k', i')"
  show "vchan_ok D (hv(n := 1)) (P(p \<mapsto> (h, vs @ [n], (j, n) # idr, Suc r)))
      (C(c \<mapsto> (ws, Suc rc))) (Suc n) v' (p', c', k', i')"
  proof (cases "v' = n")
    case True
    then show ?thesis using v' nws [OF c] by (auto simp: vchan_ok_def)
  next
    case False
    then have V': "V v' = Some (p', c', k', i')" using v' by simp
    from refs_ok_vchan [OF wf V'] False p c show ?thesis
      by (auto simp: vchan_ok_def)
  qed
next
  have fresh: "V n = None" using refs_ok_vchan [OF wf, of n] by (cases "V n") (auto simp: vchan_ok_def)
  fix c' ws' r' assume c': "(C(c \<mapsto> (ws, Suc rc))) c' = Some (ws', r')"
  have "vset D (V(n \<mapsto> (p, c, 1, i))) c' = (if c' = c then insert n (vset D V c') else vset D V c')"
    using fresh D by (auto simp: vset_def)
  moreover have "n \<notin> vset D V c'" using fresh by (simp add: vset_def)
  ultimately show "ctx_ok D hc (V(n \<mapsto> (p, c, 1, i))) (Suc n) c' (ws', r')"
    using c' c refs_ok_ctx [OF wf, of c'] finite_vset [OF wf]
    by (auto simp: ctx_ok_def split: if_splits)
next
  show "dev_ok (P(p \<mapsto> (h, vs @ [n], (j, n) # idr, Suc r))) Q"
    using refs_ok_dev [OF wf] p by (force simp: dev_ok_def)
qed

text \<open>Entering and leaving the list of a context passes one reference.\<close>

lemma move_ctx_add:
  assumes wf: "refs_ok D hp hv hc P V C Q n" and v: "V v = Some (p, c, k, i)" "v \<notin> D" "hv v = Suc m"
    and c: "C c = Some (ws, rc)" "v \<notin> set ws"
  shows "refs_ok D hp (hv(v := m)) hc P V (C(c \<mapsto> (ws @ [v], rc))) Q n"
proof (rule refs_okI)
  fix v' p' c' k' i' assume v': "V v' = Some (p', c', k', i')"
  show "vchan_ok D (hv(v := m)) P (C(c \<mapsto> (ws @ [v], rc))) n v' (p', c', k', i')"
    using refs_ok_vchan [OF wf v'] v' v c by (cases "v' = v") (auto simp: vchan_ok_def)
next
  fix c' ws' r' assume c': "(C(c \<mapsto> (ws @ [v], rc))) c' = Some (ws', r')"
  show "ctx_ok D hc V n c' (ws', r')"
    using refs_ok_ctx [OF wf, of c'] c' c v
    by (cases "c' = c") (auto simp: ctx_ok_def vset_def)
qed (use wf in \<open>auto simp: refs_ok_def\<close>)

lemma move_ctx_del:
  assumes wf: "refs_ok D hp hv hc P V C Q n" and v: "v \<in> set ws" and c: "C c = Some (ws, rc)"
  shows "refs_ok D hp (hv(v := Suc (hv v))) hc P V (C(c \<mapsto> (remove1 v ws, rc))) Q n"
proof (rule refs_okI)
  have d: "distinct ws" using refs_ok_ctx [OF wf c] by (simp add: ctx_ok_def)
  fix v' p' c' k' i' assume v': "V v' = Some (p', c', k', i')"
  have "v' = v \<Longrightarrow> c' = c" using refs_ok_ctx [OF wf c] v v' by (auto simp: ctx_ok_def vset_def)
  then show "vchan_ok D (hv(v := Suc (hv v))) P (C(c \<mapsto> (remove1 v ws, rc))) n v' (p', c', k', i')"
    using refs_ok_vchan [OF wf v'] v c d by (auto simp: vchan_ok_def)
next
  fix c' ws' r' assume "(C(c \<mapsto> (remove1 v ws, rc))) c' = Some (ws', r')"
  then show "ctx_ok D hc V n c' (ws', r')"
    using refs_ok_ctx [OF wf, of c'] c by (auto simp: ctx_ok_def split: if_splits dest: notin_set_remove1)
qed (use wf in \<open>auto simp: refs_ok_def\<close>)

text \<open>An open request in the queue of a device holds a reference to its channel.\<close>

lemma qrefs_append:
  "d < length Q \<Longrightarrow> qrefs (Q[d := (fst (Q ! d), snd (Q ! d) @ [q])]) p =
     qrefs Q p + (if q = Some p then 1 else 0)"
proof (induction Q arbitrary: d)
  case (Cons x Q)
  then show ?case by (cases d) (simp_all add: qrefs_def)
qed simp

lemma dev_ok_update:
  assumes "dev_ok P Q" "\<forall>p \<in> set ps. P p \<noteq> None" "\<forall>q \<in> set qs. \<exists>p. q = Some p \<and> P p \<noteq> None"
  shows "dev_ok P (Q[d := (ps, qs)])"
  unfolding dev_ok_def
proof (intro allI impI)
  fix ps' qs' assume "(ps', qs') \<in> set (Q[d := (ps, qs)])"
  then have "(ps', qs') = (ps, qs) \<or> (ps', qs') \<in> set Q"
    using set_update_subset_insert [of Q d "(ps, qs)"] by blast
  then show "(\<forall>p \<in> set ps'. P p \<noteq> None) \<and> (\<forall>q \<in> set qs'. \<exists>p. q = Some p \<and> P p \<noteq> None)"
    using assms unfolding dev_ok_def by blast
qed

lemma move_openq_add:
  assumes wf: "refs_ok D hp hv hc P V C Q n" and p: "P p \<noteq> None" "hp p = Suc m" and d: "d < length Q"
  shows "refs_ok D (hp(p := m)) hv hc P V C (Q[d := (fst (Q ! d), snd (Q ! d) @ [Some p])]) n"
proof (rule refs_okI)
  fix p' h' vs' idr' r' assume "P p' = Some (h', vs', idr', r')"
  from refs_ok_pchan [OF wf this] p(2) show "pchan_ok D (hp(p := m)) V
      (Q[d := (fst (Q ! d), snd (Q ! d) @ [Some p])]) n p' (h', vs', idr', r')"
    by (auto simp: pchan_ok_def qrefs_append [OF d])
next
  have mem: "(fst (Q ! d), snd (Q ! d)) \<in> set Q" using d by simp
  show "dev_ok P (Q[d := (fst (Q ! d), snd (Q ! d) @ [Some p])])"
    by (rule dev_ok_update [OF refs_ok_dev [OF wf]])
      (use refs_ok_dev [OF wf, unfolded dev_ok_def, rule_format, OF mem] p(1) in auto)
qed (use wf in \<open>auto simp: refs_ok_def\<close>)

lemma qrefs_del:
  "d < length Q \<Longrightarrow> snd (Q ! d) = as @ q # bs \<Longrightarrow>
     qrefs Q p = qrefs (Q[d := (fst (Q ! d), as @ bs)]) p + (if q = Some p then 1 else 0)"
proof (induction Q arbitrary: d)
  case (Cons x Q)
  then show ?case by (cases d) (auto simp: qrefs_def)
qed simp

lemma move_openq_del:
  assumes wf: "refs_ok D hp hv hc P V C Q n" and d: "d < length Q" "snd (Q ! d) = as @ Some p # bs"
  shows "refs_ok D (hp(p := Suc (hp p))) hv hc P V C (Q[d := (fst (Q ! d), as @ bs)]) n"
    "P p \<noteq> None"
proof -
  have mem: "(fst (Q ! d), as @ Some p # bs) \<in> set Q" using d by (metis nth_mem prod.collapse)
  show "P p \<noteq> None"
    using refs_ok_dev [OF wf] mem unfolding dev_ok_def by fastforce
  show "refs_ok D (hp(p := Suc (hp p))) hv hc P V C (Q[d := (fst (Q ! d), as @ bs)]) n"
  proof (rule refs_okI)
    fix p' h' vs' idr' r' assume "P p' = Some (h', vs', idr', r')"
    from refs_ok_pchan [OF wf this] show "pchan_ok D (hp(p := Suc (hp p))) V
        (Q[d := (fst (Q ! d), as @ bs)]) n p' (h', vs', idr', r')"
      by (auto simp: pchan_ok_def qrefs_del [OF d])
  next
    show "dev_ok P (Q[d := (fst (Q ! d), as @ bs)])"
      by (rule dev_ok_update [OF refs_ok_dev [OF wf]])
        (use refs_ok_dev [OF wf, unfolded dev_ok_def, rule_format, OF mem] in auto)
  qed (use wf in \<open>auto simp: refs_ok_def\<close>)
qed

end
