(* ===== verification/Hab_Exps.thy ===== *)
theory Hab_Exps
  imports Hab_Refs
begin

text \<open>
  Accounting for export descriptors.  A descriptor is in one place at a time: only in the idr of its
  channel while its export is being prepared, in the export warehouse of a context, on the reclaim
  list after its context is gone while the remote still imports it, or, on the importing side, in
  the import warehouse of a context.  \<open>exps_ok\<close> says that the warehouses, the idrs and the reclaim
  list agree with such an assignment of owners and that everything they name is allocated.
\<close>

datatype exp_owner = OFloat | OWhse nat | OReclaim | OImp nat

type_synonym xview = "nat \<Rightarrow> (u32 \<times> nat option \<times> nat option) option"
type_synonym iview = "nat \<Rightarrow> idr option"
type_synonym wview = "nat \<Rightarrow> (nat list \<times> imp_whse) option"

definition owned_ok :: "xview \<Rightarrow> iview \<Rightarrow> nat \<Rightarrow> nat \<Rightarrow> exp_owner \<Rightarrow> bool" where
  "owned_ok X I n e own \<longleftrightarrow> e < n \<and> (\<exists>i co po. X e = Some (i, co, po) \<and>
     (own \<noteq> OFloat \<longrightarrow> (\<exists>p. po = Some p \<and> I p \<noteq> None)) \<and> (\<forall>c. own = OWhse c \<longrightarrow> co = Some c))"

definition idr_ok :: "(nat \<Rightarrow> exp_owner option) \<Rightarrow> xview \<Rightarrow> nat \<Rightarrow> idr \<Rightarrow> bool" where
  "idr_ok own X p m \<longleftrightarrow> (\<forall>j e. (j, e) \<in> set m \<longrightarrow>
     (\<exists>i co po q. own e = Some q \<and> (\<forall>c. q \<noteq> OImp c) \<and> X e = Some (i, co, po) \<and> j = unat i \<and>
        (po = None \<or> po = Some p)))"

definition whse_ok :: "(nat \<Rightarrow> exp_owner option) \<Rightarrow> nat \<Rightarrow> nat list \<times> imp_whse \<Rightarrow> bool" where
  "whse_ok own c = (\<lambda>(es, m). distinct es \<and> (\<forall>e \<in> set es. own e = Some (OWhse c)) \<and>
     distinct (map fst m) \<and> distinct (map snd m) \<and> (\<forall>e \<in> snd ` set m. own e = Some (OImp c)))"

definition exps_ok ::
  "(nat \<Rightarrow> exp_owner option) \<Rightarrow> xview \<Rightarrow> iview \<Rightarrow> wview \<Rightarrow> nat list \<Rightarrow> nat \<Rightarrow> bool" where
  "exps_ok own X I W R n \<longleftrightarrow>
     (\<forall>e q. own e = Some q \<longrightarrow> owned_ok X I n e q) \<and>
     (\<forall>p m. I p = Some m \<longrightarrow> idr_ok own X p m) \<and>
     (\<forall>c x. W c = Some x \<longrightarrow> whse_ok own c x) \<and>
     distinct R \<and> (\<forall>e \<in> set R. own e = Some OReclaim)"

definition xview_of :: "hab_driver \<Rightarrow> xview" where
  "xview_of s e = map_option (\<lambda>x. (ex_export_id x, ex_ctx x, ex_pchan x)) (st_exps s e)"

definition iview_of :: "hab_driver \<Rightarrow> iview" where
  "iview_of s p = map_option pc_expid_idr (st_pchans s p)"

definition wview_of :: "hab_driver \<Rightarrow> wview" where
  "wview_of s c = map_option (\<lambda>cx. (cx_exp_whse cx, cx_imp_whse cx)) (st_ctxs s c)"

definition exps_wf :: "hab_driver \<Rightarrow> bool" where
  "exps_wf s \<longleftrightarrow> (\<exists>own. exps_ok own (xview_of s) (iview_of s) (wview_of s) (st_reclaim_list s) (st_next s))"

lemma exps_wf_cong:
  "xview_of s = xview_of s' \<Longrightarrow> iview_of s = iview_of s' \<Longrightarrow> wview_of s = wview_of s' \<Longrightarrow>
     st_reclaim_list s = st_reclaim_list s' \<Longrightarrow> st_next s = st_next s' \<Longrightarrow> exps_wf s = exps_wf s'"
  by (simp add: exps_wf_def)

lemmas exps_defs = owned_ok_def idr_ok_def whse_ok_def
lemmas eview_defs = xview_of_def iview_of_def wview_of_def

lemma exps_ok_owned: "exps_ok own X I W R n \<Longrightarrow> own e = Some q \<Longrightarrow> owned_ok X I n e q"
  unfolding exps_ok_def by blast

lemma exps_ok_idr: "exps_ok own X I W R n \<Longrightarrow> I p = Some m \<Longrightarrow> idr_ok own X p m"
  unfolding exps_ok_def by blast

lemma exps_ok_whse: "exps_ok own X I W R n \<Longrightarrow> W c = Some x \<Longrightarrow> whse_ok own c x"
  unfolding exps_ok_def by blast

lemma exps_ok_reclaim: "exps_ok own X I W R n \<Longrightarrow> distinct R \<and> (\<forall>e \<in> set R. own e = Some OReclaim)"
  unfolding exps_ok_def by blast

lemma exps_okI:
  "(\<And>e q. own e = Some q \<Longrightarrow> owned_ok X I n e q) \<Longrightarrow> (\<And>p m. I p = Some m \<Longrightarrow> idr_ok own X p m) \<Longrightarrow>
   (\<And>c es m. W c = Some (es, m) \<Longrightarrow> whse_ok own c (es, m)) \<Longrightarrow> distinct R \<Longrightarrow>
   (\<And>e. e \<in> set R \<Longrightarrow> own e = Some OReclaim) \<Longrightarrow> exps_ok own X I W R n"
  unfolding exps_ok_def by auto

lemma idr_okD:
  "idr_ok own X p m \<Longrightarrow> (j, e) \<in> set m \<Longrightarrow>
     \<exists>i co po q. own e = Some q \<and> (\<forall>c. q \<noteq> OImp c) \<and> X e = Some (i, co, po) \<and> j = unat i \<and>
       (po = None \<or> po = Some p)"
  unfolding idr_ok_def by blast

section \<open>Moves\<close>

text \<open>
  A descriptor is given up: it is in no idr but that of its channel, from which its identifier was
  removed, and the caller took it off the list of its owner.
\<close>

lemma move_exp_gone:
  assumes wf: "exps_ok own X I W R n" and e: "own e = Some q" "X e = Some (i, co, Some p)"
    and W': "\<And>c es m. W' c = Some (es, m) \<Longrightarrow> \<exists>es0 m0. W c = Some (es0, m0) \<and> distinct es \<and>
      set es \<subseteq> set es0 - {e} \<and> distinct (map fst m) \<and> distinct (map snd m) \<and> snd ` set m \<subseteq> snd ` set m0 - {e}"
    and R': "distinct R'" "set R' \<subseteq> set R - {e}"
    and I': "I' = I(p := map_option (\<lambda>m. idr_remove m (unat i)) (I p)) \<or> ((\<exists>c. q = OImp c) \<and> I' = I)"
  shows "exps_ok (own(e := None)) (X(e := y)) I' W' R' n"
proof -
  have live: "I' p' \<noteq> None \<longleftrightarrow> I p' \<noteq> None" for p' using I' by (auto split: if_splits)
  show ?thesis
  proof (rule exps_okI)
    fix e' q' assume "(own(e := None)) e' = Some q'"
    then have "own e' = Some q'" "e' \<noteq> e" by (auto split: if_splits)
    from exps_ok_owned [OF wf this(1)] this(2) show "owned_ok (X(e := y)) I' n e' q'"
      unfolding owned_ok_def live by simp
  next
    fix p' m' assume m': "I' p' = Some m'"
    then obtain m where m: "I p' = Some m" "set m' \<subseteq> set m" using I'
      by (auto simp: set_idr_remove split: if_splits)
    have no: "(j, e) \<notin> set m'" for j
    proof
      assume j: "(j, e) \<in> set m'"
      then have "(j, e) \<in> set m" using m(2) by blast
      from idr_okD [OF exps_ok_idr [OF wf m(1)] this] e
      have "j = unat i" "p' = p" "\<forall>c. q \<noteq> OImp c" by auto
      with I' m' m(1) j show False by (auto simp: set_idr_remove)
    qed
    show "idr_ok (own(e := None)) (X(e := y)) p' m'"
      unfolding idr_ok_def
    proof (intro allI impI)
      fix j e' assume je: "(j, e') \<in> set m'"
      then have "e' \<noteq> e" "(j, e') \<in> set m" using no m(2) by auto
      then show "\<exists>i co po q. (own(e := None)) e' = Some q \<and> (\<forall>c. q \<noteq> OImp c) \<and>
          (X(e := y)) e' = Some (i, co, po) \<and> j = unat i \<and> (po = None \<or> po = Some p')"
        using exps_ok_idr [OF wf m(1)] by (simp add: idr_ok_def)
    qed
  next
    fix c es m assume "W' c = Some (es, m)"
    from W' [OF this] obtain es0 m0 where w: "W c = Some (es0, m0)" "distinct es"
      "set es \<subseteq> set es0 - {e}" "distinct (map fst m)" "distinct (map snd m)"
      "snd ` set m \<subseteq> snd ` set m0 - {e}" by blast
    have whs: "\<forall>x \<in> set es0. own x = Some (OWhse c)"
      and imp: "\<forall>x \<in> snd ` set m0. own x = Some (OImp c)"
      using exps_ok_whse [OF wf w(1)] unfolding whse_ok_def prod.case by blast+
    have "\<forall>x \<in> set es. (own(e := None)) x = Some (OWhse c)" using whs w(3) by fastforce
    moreover have "\<forall>x \<in> snd ` set m. (own(e := None)) x = Some (OImp c)"
    proof
      fix x assume "x \<in> snd ` set m"
      then have "x \<in> snd ` set m0" "x \<noteq> e" using w(6) by blast+
      with imp have "own x = Some (OImp c)" by blast
      with \<open>x \<noteq> e\<close> show "(own(e := None)) x = Some (OImp c)" by (simp only: fun_upd_apply if_False)
    qed
    ultimately show "whse_ok (own(e := None)) c (es, m)" using w(2,4,5)
      unfolding whse_ok_def prod.case by blast
  qed (use R' exps_ok_reclaim [OF wf] in auto)
qed

text \<open>A descriptor passes to another owner.\<close>

lemma move_exp_owner:
  assumes wf: "exps_ok own X I W R n" and e: "own e = Some q" "X e = Some (i, co, Some p)"
    and q: "\<forall>c. q \<noteq> OImp c" "\<forall>c. q' \<noteq> OImp c" and q': "\<forall>c. q' = OWhse c \<longrightarrow> co = Some c"
    and p: "I p \<noteq> None"
    and W': "\<And>c es m. W' c = Some (es, m) \<Longrightarrow> \<exists>es0. W c = Some (es0, m) \<and> distinct es \<and>
      set es - {e} \<subseteq> set es0 \<and> (e \<in> set es \<longrightarrow> q' = OWhse c)"
    and R': "distinct R'" "set R' - {e} \<subseteq> set R" "e \<in> set R' \<longrightarrow> q' = OReclaim"
  shows "exps_ok (own(e \<mapsto> q')) X I W' R' n"
proof (rule exps_okI)
  fix e' q'' assume a: "(own(e \<mapsto> q')) e' = Some q''"
  show "owned_ok X I n e' q''"
  proof (cases "e' = e")
    case True
    with a exps_ok_owned [OF wf e(1)] e(2) p q' show ?thesis by (auto simp: owned_ok_def)
  next
    case False
    with a exps_ok_owned [OF wf] show ?thesis by simp
  qed
next
  fix p' m assume "I p' = Some m"
  from exps_ok_idr [OF wf this] e q(2) show "idr_ok (own(e \<mapsto> q')) X p' m"
    by (fastforce simp: idr_ok_def)
next
  fix c es m assume "W' c = Some (es, m)"
  from W' [OF this] obtain es0 where w: "W c = Some (es0, m)" "distinct es" "set es - {e} \<subseteq> set es0"
    "e \<in> set es \<longrightarrow> q' = OWhse c" by blast
  have "e \<notin> snd ` set m" using exps_ok_whse [OF wf w(1)] e(1) q(1) by (auto simp: whse_ok_def)
  with exps_ok_whse [OF wf w(1)] w(2-) show "whse_ok (own(e \<mapsto> q')) c (es, m)"
    by (auto simp: whse_ok_def)
qed (use R' exps_ok_reclaim [OF wf] in auto)

text \<open>A new descriptor, floating in the idr of its channel or inserted into an import warehouse.\<close>

lemma exps_fresh: "exps_ok own X I W R n \<Longrightarrow> own n = None"
  using exps_ok_owned [of own X I W R n n] by (cases "own n") (auto simp: owned_ok_def)

lemma owned_ok_fresh:
  "owned_ok X I n e q \<Longrightarrow> (\<And>p. I p \<noteq> None \<Longrightarrow> I' p \<noteq> None) \<Longrightarrow> owned_ok (X(n := x)) I' (Suc n) e q"
  by (auto simp: owned_ok_def)

lemma move_exp_new:
  assumes wf: "exps_ok own X I W R n" and p: "I p = Some m" and po: "po = None \<or> po = Some p"
  shows "exps_ok (own(n \<mapsto> OFloat)) (X(n \<mapsto> (i, co, po))) (I(p \<mapsto> (unat i, n) # m)) W R (Suc n)"
proof (rule exps_okI)
  note fresh = exps_fresh [OF wf]
  fix e q assume a: "(own(n \<mapsto> OFloat)) e = Some q"
  show "owned_ok (X(n \<mapsto> (i, co, po))) (I(p \<mapsto> (unat i, n) # m)) (Suc n) e q"
  proof (cases "e = n")
    case True
    with a show ?thesis by (simp add: owned_ok_def)
  next
    case False
    with a have "own e = Some q" by simp
    from owned_ok_fresh [OF exps_ok_owned [OF wf this], of "I(p \<mapsto> (unat i, n) # m)"]
    show ?thesis by auto
  qed
next
  note fresh = exps_fresh [OF wf]
  fix p' m' assume a: "(I(p \<mapsto> (unat i, n) # m)) p' = Some m'"
  have old: "idr_ok (own(n \<mapsto> OFloat)) (X(n \<mapsto> (i, co, po))) p' m''" if "I p' = Some m''" for m''
    using exps_ok_idr [OF wf that] fresh by (fastforce simp: idr_ok_def)
  show "idr_ok (own(n \<mapsto> OFloat)) (X(n \<mapsto> (i, co, po))) p' m'"
  proof (cases "p' = p")
    case True
    have "(j, n) \<notin> set m" for j
      using idr_okD [OF exps_ok_idr [OF wf p], of j n] fresh by auto
    then have "idr_ok (own(n \<mapsto> OFloat)) (X(n \<mapsto> (i, co, po))) p m"
      using old True p by blast
    then have "idr_ok (own(n \<mapsto> OFloat)) (X(n \<mapsto> (i, co, po))) p ((unat i, n) # m)"
      using po unfolding idr_ok_def by auto
    with True a show ?thesis by simp
  next
    case False
    with a old show ?thesis by simp
  qed
next
  note fresh = exps_fresh [OF wf]
  fix c es m' assume w: "W c = Some (es, m')"
  have "n \<notin> set es \<and> n \<notin> snd ` set m'" using exps_ok_whse [OF wf w] fresh by (auto simp: whse_ok_def)
  with exps_ok_whse [OF wf w] show "whse_ok (own(n \<mapsto> OFloat)) c (es, m')"
    by (auto simp: whse_ok_def)
next
  show "distinct R" using exps_ok_reclaim [OF wf] by simp
next
  fix e assume "e \<in> set R"
  with exps_ok_reclaim [OF wf] exps_fresh [OF wf] show "(own(n \<mapsto> OFloat)) e = Some OReclaim"
    by auto
qed

lemma distinct_map_whse_insert:
  "distinct (map f m) \<Longrightarrow> f (k, n) \<notin> f ` set m \<Longrightarrow> distinct (map f (whse_insert k n m))"
  by (induction k n m rule: whse_insert.induct) (auto simp: set_whse_insert)

lemma move_imp_new:
  assumes wf: "exps_ok own X I W R n" and p: "I p \<noteq> None" and w: "W c = Some (es, m)"
    and k: "k \<notin> fst ` set m"
  shows "exps_ok (own(n \<mapsto> OImp c)) (X(n \<mapsto> (i, co, Some p))) I (W(c \<mapsto> (es, whse_insert k n m))) R (Suc n)"
proof (rule exps_okI)
  fix e q assume a: "(own(n \<mapsto> OImp c)) e = Some q"
  show "owned_ok (X(n \<mapsto> (i, co, Some p))) I (Suc n) e q"
  proof (cases "e = n")
    case True
    with a p show ?thesis by (auto simp: owned_ok_def)
  next
    case False
    with a have "own e = Some q" by simp
    from owned_ok_fresh [OF exps_ok_owned [OF wf this], of I] show ?thesis by auto
  qed
next
  fix p' m' assume "I p' = Some m'"
  from exps_ok_idr [OF wf this] exps_fresh [OF wf]
  show "idr_ok (own(n \<mapsto> OImp c)) (X(n \<mapsto> (i, co, Some p))) p' m'"
    by (fastforce simp: idr_ok_def)
next
  fix c' es' m' assume a: "(W(c \<mapsto> (es, whse_insert k n m))) c' = Some (es', m')"
  have old: "whse_ok (own(n \<mapsto> OImp c)) c' (es'', m'') \<and> n \<notin> snd ` set m''"
    if "W c' = Some (es'', m'')" for es'' m''
    using exps_ok_whse [OF wf that] exps_fresh [OF wf] by (auto simp: whse_ok_def)
  show "whse_ok (own(n \<mapsto> OImp c)) c' (es', m')"
  proof (cases "c' = c")
    case True
    note w' = w [folded True]
    have "distinct (map fst m)" "distinct (map snd m)" "n \<notin> snd ` set m"
      using old [OF w'] by (simp_all add: whse_ok_def)
    then have "distinct (map fst (whse_insert k n m))" "distinct (map snd (whse_insert k n m))"
      using k by (simp_all add: distinct_map_whse_insert)
    moreover have "\<forall>e \<in> snd ` set (whse_insert k n m). (own(n \<mapsto> OImp c)) e = Some (OImp c)"
      using old [OF w'] unfolding set_whse_insert whse_ok_def prod.case True by auto
    moreover have "distinct es" "\<forall>e \<in> set es. (own(n \<mapsto> OImp c)) e = Some (OWhse c)"
      using old [OF w'] unfolding whse_ok_def prod.case True by blast+
    ultimately show ?thesis using a True by (auto simp only: whse_ok_def prod.case fun_upd_same option.inject)
  next
    case False
    with a old show ?thesis by simp
  qed
next
  show "distinct R" using exps_ok_reclaim [OF wf] by simp
next
  fix e assume "e \<in> set R"
  with exps_ok_reclaim [OF wf] exps_fresh [OF wf] show "(own(n \<mapsto> OImp c)) e = Some OReclaim"
    by auto
qed

text \<open>The fields of a floating descriptor may change.\<close>

lemma move_exp_fields:
  assumes wf: "exps_ok own X I W R n" and e: "own e = Some OFloat" "X e = Some (i, co, po)"
    and po': "po' = po \<or> (\<exists>p. po' = Some p \<and> (\<forall>p' m j. I p' = Some m \<longrightarrow> (j, e) \<in> set m \<longrightarrow> p' = p))"
  shows "exps_ok own (X(e \<mapsto> (i, co', po'))) I W R n"
proof (rule exps_okI)
  fix e' q assume "own e' = Some q"
  from exps_ok_owned [OF wf this] this e show "owned_ok (X(e \<mapsto> (i, co', po'))) I n e' q"
    by (auto simp: owned_ok_def)
next
  fix p m assume m: "I p = Some m"
  show "idr_ok own (X(e \<mapsto> (i, co', po'))) p m"
    unfolding idr_ok_def
  proof (intro allI impI)
    fix j e' assume je: "(j, e') \<in> set m"
    from exps_ok_idr [OF wf m] je obtain i0 co0 po0 q where
      "own e' = Some q" "\<forall>c. q \<noteq> OImp c" "X e' = Some (i0, co0, po0)" "j = unat i0"
      "po0 = None \<or> po0 = Some p" unfolding idr_ok_def by blast
    then show "\<exists>i0 co0 po0 q. own e' = Some q \<and> (\<forall>c. q \<noteq> OImp c) \<and>
        (X(e \<mapsto> (i, co', po'))) e' = Some (i0, co0, po0) \<and> j = unat i0 \<and> (po0 = None \<or> po0 = Some p)"
      using e po' m je by (cases "e' = e") auto
  qed
qed (use exps_ok_whse [OF wf] exps_ok_reclaim [OF wf] in auto)

lemma move_whse_gone:
  assumes "exps_ok own X I W R n"
  shows "exps_ok own X I (W(c := None)) R n"
  using assms by (auto simp: exps_ok_def split: if_splits)

lemma move_whse_new:
  assumes "exps_ok own X I W R n"
  shows "exps_ok own X I (W(n \<mapsto> ([], []))) R (Suc n)"
  using assms by (fastforce simp: exps_ok_def exps_defs split: if_splits)

lemma exps_ok_next:
  assumes "exps_ok own X I W R n" "n \<le> n'"
  shows "exps_ok own X I W R n'"
  using assms by (fastforce simp: exps_ok_def owned_ok_def)

end
