(* ===== verification/Hab_Lifecycle.thy ===== *)
theory Hab_Lifecycle
  imports Hab_Exps
begin

text \<open>
  The invariant of the driver state and the operations on references under it.  \<open>drv_wf D hp hv hc\<close>
  puts together the accounting of references, the ownership of export descriptors, and the shape of
  queued messages; \<open>hp\<close>, \<open>hv\<close>, \<open>hc\<close> are the references to channels, virtual channels and contexts
  the running operations hold.  Under it no operation of this theory touches an object that is gone,
  and each one leaves the invariant with the references it took or gave back.
\<close>

section \<open>The invariant\<close>

text \<open>Queued messages have the bytes they claim: in one block, or in full pages but for the last.\<close>

primrec page_bytes :: "msg_page \<Rightarrow> bytes" where
  "page_bytes (Pg b) = b"
| "page_bytes (Wild w) = []"

fun pages_full :: "msg_page list \<Rightarrow> bool" where
  "pages_full [] = True"
| "pages_full [p] = (\<exists>b. p = Pg b \<and> length b \<le> 4096)"
| "pages_full (p # q # ps) = ((\<exists>b. p = Pg b \<and> length b = 4096) \<and> pages_full (q # ps))"

definition msg_ok :: "hab_message \<Rightarrow> bool" where
  "msg_ok m = (case ms_body m of
      Flat b \<Rightarrow> ms_sizebytes m \<le> length b
    | Scatter ps \<Rightarrow> pages_full ps \<and> ms_sizebytes m \<le> length (concat (map page_bytes ps)))"

lemma pages_full_facts:
  "pages_full ps \<Longrightarrow> list_all (\<lambda>p. \<exists>b. p = Pg b) ps \<and> length (concat (map page_bytes ps)) \<le> 4096 * length ps"
  by (induction ps rule: pages_full.induct) auto

lemma pages_fullI:
  "list_all (\<lambda>p. \<exists>b. p = Pg b) ps \<Longrightarrow> \<forall>n \<in> set (map (\<lambda>p. length (page_bytes p)) ps). n \<le> 4096 \<Longrightarrow>
   \<forall>n \<in> set (butlast (map (\<lambda>p. length (page_bytes p)) ps)). n = 4096 \<Longrightarrow> pages_full ps"
  by (induction ps rule: pages_full.induct) auto

definition rx_ok :: "hab_driver \<Rightarrow> bool" where
  "rx_ok s \<longleftrightarrow> (\<forall>v vc. st_vchans s v = Some vc \<longrightarrow> (\<forall>m \<in> set (vc_rx_list vc). msg_ok m))"

definition held_ok :: "(nat \<Rightarrow> nat) \<Rightarrow> (nat \<Rightarrow> nat) \<Rightarrow> (nat \<Rightarrow> nat) \<Rightarrow> hab_driver \<Rightarrow> bool" where
  "held_ok hp hv hc s \<longleftrightarrow> (\<forall>p. 0 < hp p \<longrightarrow> st_pchans s p \<noteq> None) \<and>
     (\<forall>v. 0 < hv v \<longrightarrow> st_vchans s v \<noteq> None) \<and> (\<forall>c. 0 < hc c \<longrightarrow> st_ctxs s c \<noteq> None)"

definition drv_wf ::
  "nat set \<Rightarrow> (nat \<Rightarrow> nat) \<Rightarrow> (nat \<Rightarrow> nat) \<Rightarrow> (nat \<Rightarrow> nat) \<Rightarrow> hab_driver \<Rightarrow> bool" where
  "drv_wf D hp hv hc s \<longleftrightarrow> refs_wf D hp hv hc s \<and> exps_wf s \<and> rx_ok s \<and> held_ok hp hv hc s"

text \<open>The views as functions of one heap each, with their behaviour under updates.\<close>

definition pv :: "(nat \<Rightarrow> physical_channel option) \<Rightarrow> pview" where
  "pv h = (\<lambda>p. map_option (\<lambda>pc. (pc_habdev pc, pc_vchannels pc, pc_vchan_idr pc, pc_refcount pc)) (h p))"

definition vv :: "(nat \<Rightarrow> virtual_channel option) \<Rightarrow> vview" where
  "vv h = (\<lambda>v. map_option (\<lambda>vc. (vc_pchan vc, vc_ctx vc, vc_refcount vc, vc_id vc)) (h v))"

definition cv :: "(nat \<Rightarrow> uhab_context option) \<Rightarrow> cview" where
  "cv h = (\<lambda>c. map_option (\<lambda>cx. (cx_vchannels cx, cx_refcount cx)) (h c))"

definition qv :: "hab_device list \<Rightarrow> qview" where
  "qv ds = map (\<lambda>d. (dv_pchannels d, map (\<lambda>n. rq_pchan (on_request n)) (dv_openq_list d))) ds"

definition xv :: "(nat \<Rightarrow> export_desc_super option) \<Rightarrow> xview" where
  "xv h = (\<lambda>e. map_option (\<lambda>x. (ex_export_id x, ex_ctx x, ex_pchan x)) (h e))"

definition iv :: "(nat \<Rightarrow> physical_channel option) \<Rightarrow> iview" where
  "iv h = (\<lambda>p. map_option pc_expid_idr (h p))"

definition wv :: "(nat \<Rightarrow> uhab_context option) \<Rightarrow> wview" where
  "wv h = (\<lambda>c. map_option (\<lambda>cx. (cx_exp_whse cx, cx_imp_whse cx)) (h c))"

lemma views:
  "pview_of s = pv (st_pchans s)" "vview_of s = vv (st_vchans s)" "cview_of s = cv (st_ctxs s)"
  "qview_of s = qv (st_devs s)" "xview_of s = xv (st_exps s)" "iview_of s = iv (st_pchans s)"
  "wview_of s = wv (st_ctxs s)"
  by (auto simp: view_defs eview_defs pv_def vv_def cv_def qv_def xv_def iv_def wv_def fun_eq_iff)

lemma view_upd [simp]:
  "pv (hh(p \<mapsto> pc)) = (pv hh)(p \<mapsto> (pc_habdev pc, pc_vchannels pc, pc_vchan_idr pc, pc_refcount pc))"
  "vv (hv'(v \<mapsto> vc)) = (vv hv')(v \<mapsto> (vc_pchan vc, vc_ctx vc, vc_refcount vc, vc_id vc))"
  "cv (hc'(c \<mapsto> cx)) = (cv hc')(c \<mapsto> (cx_vchannels cx, cx_refcount cx))"
  "xv (hx(e \<mapsto> x)) = (xv hx)(e \<mapsto> (ex_export_id x, ex_ctx x, ex_pchan x))"
  "iv (hh(p \<mapsto> pc)) = (iv hh)(p \<mapsto> pc_expid_idr pc)"
  "wv (hc'(c \<mapsto> cx)) = (wv hc')(c \<mapsto> (cx_exp_whse cx, cx_imp_whse cx))"
  "pv (hh(p := None)) = (pv hh)(p := None)" "vv (hv'(v := None)) = (vv hv')(v := None)"
  "cv (hc'(c := None)) = (cv hc')(c := None)" "xv (hx(e := None)) = (xv hx)(e := None)"
  "iv (hh(p := None)) = (iv hh)(p := None)" "wv (hc'(c := None)) = (wv hc')(c := None)"
  "qv (ds[d := dv]) = (qv ds)[d := (dv_pchannels dv, map (\<lambda>n. rq_pchan (on_request n)) (dv_openq_list dv))]"
  by (auto simp: pv_def vv_def cv_def xv_def iv_def wv_def qv_def map_update)

lemma view_look:
  "hh p = Some pc \<Longrightarrow> pv hh p = Some (pc_habdev pc, pc_vchannels pc, pc_vchan_idr pc, pc_refcount pc)"
  "hv' v = Some vc \<Longrightarrow> vv hv' v = Some (vc_pchan vc, vc_ctx vc, vc_refcount vc, vc_id vc)"
  "hc' c = Some cx \<Longrightarrow> cv hc' c = Some (cx_vchannels cx, cx_refcount cx)"
  "hx e = Some x \<Longrightarrow> xv hx e = Some (ex_export_id x, ex_ctx x, ex_pchan x)"
  "hh p = Some pc \<Longrightarrow> iv hh p = Some (pc_expid_idr pc)"
  "hc' c = Some cx \<Longrightarrow> wv hc' c = Some (cx_exp_whse cx, cx_imp_whse cx)"
  by (simp_all add: pv_def vv_def cv_def xv_def iv_def wv_def)

lemmas look_p = view_look(1) [of "st_pchans s" for s]
lemmas look_v = view_look(2) [of "st_vchans s" for s]
lemmas look_c = view_look(3) [of "st_ctxs s" for s]
lemmas look_x = view_look(4) [of "st_exps s" for s]
lemmas look_i = view_look(5) [of "st_pchans s" for s]
lemmas look_w = view_look(6) [of "st_ctxs s" for s]

lemma view_None [simp]:
  "pv hh p = None \<longleftrightarrow> hh p = None" "vv hv' v = None \<longleftrightarrow> hv' v = None"
  "cv hc' c = None \<longleftrightarrow> hc' c = None" "xv hx e = None \<longleftrightarrow> hx e = None"
  "iv hh p = None \<longleftrightarrow> hh p = None" "wv hc' c = None \<longleftrightarrow> hc' c = None"
  by (simp_all add: pv_def vv_def cv_def xv_def iv_def wv_def)

lemma qv_length [simp]: "length (qv ds) = length ds"
  by (simp add: qv_def)

lemma qv_nth: "d < length ds \<Longrightarrow>
    qv ds ! d = (dv_pchannels (ds ! d), map (\<lambda>n. rq_pchan (on_request n)) (dv_openq_list (ds ! d)))"
  by (simp add: qv_def)

section \<open>Changes the invariant does not see\<close>

lemma drv_wf_cong:
  assumes "st_pchans s' = st_pchans s" "st_vchans s' = st_vchans s" "st_ctxs s' = st_ctxs s"
    "st_exps s' = st_exps s" "st_devs s' = st_devs s" "st_next s' = st_next s"
    "st_reclaim_list s' = st_reclaim_list s"
  shows "drv_wf D hp hv hc s' = drv_wf D hp hv hc s"
  using assms by (simp add: drv_wf_def refs_wf_def exps_wf_def rx_ok_def held_ok_def views)

lemma drv_wf_scalars [simp]:
  "drv_wf D hp hv hc (s\<lparr>st_mem := a\<rparr>) = drv_wf D hp hv hc s"
  "drv_wf D hp hv hc (s\<lparr>st_now := b\<rparr>) = drv_wf D hp hv hc s"
  "drv_wf D hp hv hc (s\<lparr>st_now_ns := b\<rparr>) = drv_wf D hp hv hc s"
  "drv_wf D hp hv hc (s\<lparr>st_sclk := w\<rparr>) = drv_wf D hp hv hc s"
  "drv_wf D hp hv hc (s\<lparr>st_open_id := i\<rparr>) = drv_wf D hp hv hc s"
  "drv_wf D hp hv hc (s\<lparr>st_ctx_cnt := b\<rparr>) = drv_wf D hp hv hc s"
  "drv_wf D hp hv hc (s\<lparr>st_uctx_list := l\<rparr>) = drv_wf D hp hv hc s"
  "drv_wf D hp hv hc (s\<lparr>st_loopback_be := b\<rparr>) = drv_wf D hp hv hc s"
  "drv_wf D hp hv hc (s\<lparr>st_hyp_mem := y\<rparr>) = drv_wf D hp hv hc s"
  by (rule drv_wf_cong; simp)+

lemma upd_same: "f x = Some y \<Longrightarrow> f(x \<mapsto> y) = f"
  by auto

lemma drv_wf_pchan_fields:
  assumes "drv_wf D hp hv hc s" "st_pchans s p = Some pc"
    "pc_habdev pc' = pc_habdev pc" "pc_vchannels pc' = pc_vchannels pc"
    "pc_vchan_idr pc' = pc_vchan_idr pc" "pc_refcount pc' = pc_refcount pc"
    "pc_expid_idr pc' = pc_expid_idr pc"
  shows "drv_wf D hp hv hc (s\<lparr>st_pchans := (st_pchans s)(p \<mapsto> pc')\<rparr>)"
  using assms
  by (simp add: drv_wf_def refs_wf_def exps_wf_def rx_ok_def held_ok_def views upd_same view_look)

lemma drv_wf_vchan_fields:
  assumes "drv_wf D hp hv hc s" "st_vchans s v = Some vc"
    "vc_pchan vc' = vc_pchan vc" "vc_ctx vc' = vc_ctx vc" "vc_refcount vc' = vc_refcount vc"
    "vc_id vc' = vc_id vc" "\<forall>m \<in> set (vc_rx_list vc'). msg_ok m"
  shows "drv_wf D hp hv hc (s\<lparr>st_vchans := (st_vchans s)(v \<mapsto> vc')\<rparr>)"
  using assms
  by (simp add: drv_wf_def refs_wf_def exps_wf_def rx_ok_def held_ok_def views upd_same view_look)

lemma drv_wf_ctx_fields:
  assumes "drv_wf D hp hv hc s" "st_ctxs s c = Some cx"
    "cx_vchannels cx' = cx_vchannels cx" "cx_refcount cx' = cx_refcount cx"
    "cx_exp_whse cx' = cx_exp_whse cx" "cx_imp_whse cx' = cx_imp_whse cx"
  shows "drv_wf D hp hv hc (s\<lparr>st_ctxs := (st_ctxs s)(c \<mapsto> cx')\<rparr>)"
  using assms
  by (simp add: drv_wf_def refs_wf_def exps_wf_def rx_ok_def held_ok_def views upd_same view_look)

lemma drv_wf_exp_fields:
  assumes "drv_wf D hp hv hc s" "st_exps s e = Some x"
    "ex_export_id x' = ex_export_id x" "ex_ctx x' = ex_ctx x" "ex_pchan x' = ex_pchan x"
  shows "drv_wf D hp hv hc (s\<lparr>st_exps := (st_exps s)(e \<mapsto> x')\<rparr>)"
  using assms
  by (simp add: drv_wf_def refs_wf_def exps_wf_def rx_ok_def held_ok_def views upd_same view_look)

lemma drv_wf_hyp_frame:
  assumes "drv_wf D hp hv hc s" "hyp_frame p s s'"
  shows "drv_wf D hp hv hc s'"
proof -
  obtain pc hy m where s': "st_pchans s p = Some pc"
    "s' = s\<lparr>st_mem := m, st_pchans := (st_pchans s)(p \<mapsto> pc\<lparr>pc_hyp_data := hy\<rparr>)\<rparr>"
    using assms(2) unfolding hyp_frame_def by blast
  have "drv_wf D hp hv hc (s\<lparr>st_mem := m\<rparr>)" using assms(1) by simp
  then have "drv_wf D hp hv hc (s\<lparr>st_mem := m\<rparr>\<lparr>st_pchans :=
      (st_pchans (s\<lparr>st_mem := m\<rparr>))(p \<mapsto> pc\<lparr>pc_hyp_data := hy\<rparr>)\<rparr>)"
    by (rule drv_wf_pchan_fields) (simp_all add: s'(1))
  then show ?thesis by (simp add: s'(2))
qed

lemma kalloc_wf:
  assumes "kalloc s = (ok, s')" shows "drv_wf D hp hv hc s' = drv_wf D hp hv hc s"
  using kalloc_frame [OF assms] by simp

section \<open>References to channels\<close>

lemma drv_wf_refs: "drv_wf D hp hv hc s \<Longrightarrow> refs_ok D hp hv hc (pv (st_pchans s)) (vv (st_vchans s))
    (cv (st_ctxs s)) (qv (st_devs s)) (st_next s)"
  by (simp add: drv_wf_def refs_wf_def views)

lemma drv_wf_exps: "drv_wf D hp hv hc s \<Longrightarrow>
    \<exists>own. exps_ok own (xv (st_exps s)) (iv (st_pchans s)) (wv (st_ctxs s)) (st_reclaim_list s) (st_next s)"
  by (simp add: drv_wf_def exps_wf_def views)

lemma drv_wfI:
  "refs_ok D hp hv hc (pv (st_pchans s)) (vv (st_vchans s)) (cv (st_ctxs s)) (qv (st_devs s)) (st_next s) \<Longrightarrow>
   exps_ok own (xv (st_exps s)) (iv (st_pchans s)) (wv (st_ctxs s)) (st_reclaim_list s) (st_next s) \<Longrightarrow>
   rx_ok s \<Longrightarrow> held_ok hp hv hc s \<Longrightarrow> drv_wf D hp hv hc s"
  by (auto simp: drv_wf_def refs_wf_def exps_wf_def views)

lemma held_pchan: "drv_wf D hp hv hc s \<Longrightarrow> 0 < hp p \<Longrightarrow> \<exists>pc. st_pchans s p = Some pc"
  by (auto simp: drv_wf_def held_ok_def)

lemma held_vchan: "drv_wf D hp hv hc s \<Longrightarrow> 0 < hv v \<Longrightarrow> \<exists>vc. st_vchans s v = Some vc"
  by (auto simp: drv_wf_def held_ok_def)

lemma held_ctx: "drv_wf D hp hv hc s \<Longrightarrow> 0 < hc c \<Longrightarrow> \<exists>cx. st_ctxs s c = Some cx"
  by (auto simp: drv_wf_def held_ok_def)

text \<open>What a virtual channel points to is there.\<close>

lemma vchan_pchan:
  assumes "drv_wf D hp hv hc s" "st_vchans s v = Some vc"
  shows "\<exists>pc. st_pchans s (vc_pchan vc) = Some pc"
  using refs_ok_vchan [OF drv_wf_refs [OF assms(1)] look_v [OF assms(2)]]
  by (auto simp: vchan_ok_def pv_def)

lemma vchan_ctx:
  assumes "drv_wf D hp hv hc s" "st_vchans s v = Some vc" "v \<notin> D"
  shows "\<exists>cx. st_ctxs s (vc_ctx vc) = Some cx"
  using refs_ok_vchan [OF drv_wf_refs [OF assms(1)] look_v [OF assms(2)]] assms(3)
  by (auto simp: vchan_ok_def cv_def)

lemma ctx_vchan:
  assumes "drv_wf D hp hv hc s" "st_ctxs s c = Some cx" "v \<in> set (cx_vchannels cx)"
  shows "\<exists>vc. st_vchans s v = Some vc \<and> vc_ctx vc = c \<and> v \<notin> D"
  using refs_ok_ctx [OF drv_wf_refs [OF assms(1)] look_c [OF assms(2)]] assms(3)
  by (auto simp: ctx_ok_def vset_def vv_def)

lemma ctx_vchan_count:
  assumes "drv_wf D hp hv hc s" "st_ctxs s c = Some cx" "v \<in> set (cx_vchannels cx)"
    "st_vchans s v = Some vc"
  shows "0 < vc_refcount vc"
proof -
  have "vc_ctx vc = c" "v \<notin> D" using ctx_vchan [OF assms(1-3)] assms(4) by auto
  then show ?thesis
    using refs_ok_vchan [OF drv_wf_refs [OF assms(1)] look_v [OF assms(4)]] assms(2,3)
    by (auto simp: vchan_ok_def view_look)
qed

lemma pchan_vchan:
  assumes "drv_wf D hp hv hc s" "st_pchans s p = Some pc" "v \<in> set (pc_vchannels pc)"
  shows "\<exists>vc. st_vchans s v = Some vc \<and> vc_pchan vc = p \<and> v \<notin> D"
  using refs_ok_pchan [OF drv_wf_refs [OF assms(1)] look_p [OF assms(2)]] assms(3)
  by (fastforce simp: pchan_ok_def vv_def)

lemma idr_vchan:
  assumes "drv_wf D hp hv hc s" "st_pchans s p = Some pc" "idr_find (pc_vchan_idr pc) j = Some v"
  shows "\<exists>vc. st_vchans s v = Some vc \<and> vc_pchan vc = p \<and> j = unat (HAB_VCID_GET_ID (vc_id vc))"
  using refs_ok_pchan [OF drv_wf_refs [OF assms(1)] look_p [OF assms(2)]]
    idr_find_Some_in [OF assms(3)]
  by (fastforce simp: pchan_ok_def vv_def)

lemma pchan_dev:
  assumes "drv_wf D hp hv hc s" "st_pchans s p = Some pc"
  shows "pc_habdev pc < length (st_devs s)"
  using refs_ok_pchan [OF drv_wf_refs [OF assms(1)] look_p [OF assms(2)]]
  by (auto simp: pchan_ok_def)

lemma pchan_get_wf:
  assumes wf: "drv_wf D hp hv hc s" and p: "st_pchans s p = Some pc"
  shows "hab_pchan_get p s =
      Some (s\<lparr>st_pchans := (st_pchans s)(p \<mapsto> pc\<lparr>pc_refcount := pc_refcount pc + 1\<rparr>)\<rparr>)"
    "drv_wf D (hp(p := Suc (hp p))) hv hc
      (s\<lparr>st_pchans := (st_pchans s)(p \<mapsto> pc\<lparr>pc_refcount := pc_refcount pc + 1\<rparr>)\<rparr>)"
proof -
  from drv_wf_exps [OF wf] obtain own where own: "exps_ok own (xv (st_exps s)) (iv (st_pchans s))
    (wv (st_ctxs s)) (st_reclaim_list s) (st_next s)" by blast
  show "drv_wf D (hp(p := Suc (hp p))) hv hc
      (s\<lparr>st_pchans := (st_pchans s)(p \<mapsto> pc\<lparr>pc_refcount := pc_refcount pc + 1\<rparr>)\<rparr>)"
    by (rule drv_wfI [where own = own])
      (use move_pchan_get [OF drv_wf_refs [OF wf] look_p [OF p]] own wf p in
        \<open>auto simp: view_look upd_same drv_wf_def rx_ok_def held_ok_def split: if_splits\<close>)
qed (use p in \<open>simp add: hab_pchan_get_def\<close>)

lemma pchan_put_wf:
  assumes wf: "drv_wf D hp hv hc s" and k: "hp p = Suc k"
  obtains pc where "st_pchans s p = Some pc"
    "hab_pchan_put p s =
      Some (s\<lparr>st_pchans := (st_pchans s)(p \<mapsto> pc\<lparr>pc_refcount := pc_refcount pc - 1\<rparr>)\<rparr>)"
    "drv_wf D (hp(p := k)) hv hc
      (s\<lparr>st_pchans := (st_pchans s)(p \<mapsto> pc\<lparr>pc_refcount := pc_refcount pc - 1\<rparr>)\<rparr>)"
proof -
  from held_pchan [OF wf, of p] k obtain pc where p: "st_pchans s p = Some pc" by auto
  from drv_wf_exps [OF wf] obtain own where own: "exps_ok own (xv (st_exps s)) (iv (st_pchans s))
    (wv (st_ctxs s)) (st_reclaim_list s) (st_next s)" by blast
  note m = move_pchan_put [OF drv_wf_refs [OF wf] look_p [OF p] k]
  have "drv_wf D (hp(p := k)) hv hc
      (s\<lparr>st_pchans := (st_pchans s)(p \<mapsto> pc\<lparr>pc_refcount := pc_refcount pc - 1\<rparr>)\<rparr>)"
    by (rule drv_wfI [where own = own])
      (use m(1) own wf p in
        \<open>auto simp: view_look upd_same drv_wf_def rx_ok_def held_ok_def split: if_splits\<close>)
  moreover have "hab_pchan_put p s =
      Some (s\<lparr>st_pchans := (st_pchans s)(p \<mapsto> pc\<lparr>pc_refcount := pc_refcount pc - 1\<rparr>)\<rparr>)"
    using p m(2) by (simp add: hab_pchan_put_def)
  ultimately show ?thesis using that [OF p] by blast
qed

section \<open>Export descriptors of a context\<close>

text \<open>What the collection of exports and imports leaves alone.\<close>

definition exp_frame :: "hab_driver \<Rightarrow> hab_driver \<Rightarrow> bool" where
  "exp_frame s s' \<longleftrightarrow> st_vchans s' = st_vchans s \<and> pv (st_pchans s') = pv (st_pchans s) \<and>
     cv (st_ctxs s') = cv (st_ctxs s) \<and> st_devs s' = st_devs s \<and> st_next s' = st_next s"

lemma exp_frame_refl: "exp_frame s s"
  by (simp add: exp_frame_def)

lemma exp_frame_trans: "exp_frame s s' \<Longrightarrow> exp_frame s' s'' \<Longrightarrow> exp_frame s s''"
  by (simp add: exp_frame_def)

lemma hyp_exp_frame: "hyp_frame p s s' \<Longrightarrow> exp_frame s s'"
  by (auto simp: hyp_frame_def exp_frame_def upd_same view_look)

lemma live_cong: "pv hh = pv hh' \<Longrightarrow> (hh p = None) = (hh' p = None)"
    "cv hc = cv hc' \<Longrightarrow> (hc c = None) = (hc' c = None)"
  by (metis view_None(1)) (metis view_None(3))

lemma exp_frame_wf:
  assumes "drv_wf D hp hv hc s" "exp_frame s s'" "exps_wf s'"
  shows "drv_wf D hp hv hc s'"
proof -
  from assms(2) have f: "st_vchans s' = st_vchans s" "pv (st_pchans s') = pv (st_pchans s)"
    "cv (st_ctxs s') = cv (st_ctxs s)" "st_devs s' = st_devs s" "st_next s' = st_next s"
    by (simp_all add: exp_frame_def)
  have "held_ok hp hv hc s" "rx_ok s" "refs_wf D hp hv hc s" using assms(1) by (simp_all add: drv_wf_def)
  moreover have "held_ok hp hv hc s' = held_ok hp hv hc s"
    unfolding held_ok_def f(1) live_cong(1) [OF f(2)] live_cong(2) [OF f(3)] ..
  moreover have "rx_ok s' = rx_ok s" by (simp add: rx_ok_def f)
  moreover have "refs_wf D hp hv hc s' = refs_wf D hp hv hc s" by (simp add: refs_wf_def views f)
  ultimately show ?thesis using assms(3) by (simp add: drv_wf_def)
qed

lemma exp_whse_facts:
  assumes own: "exps_ok own (xv (st_exps s)) (iv (st_pchans s)) (wv (st_ctxs s)) R n"
    and c: "st_ctxs s c = Some cx" and e: "e \<in> set (cx_exp_whse cx)"
  obtains x p pc where "own e = Some (OWhse c)" "st_exps s e = Some x" "ex_ctx x = Some c"
    "ex_pchan x = Some p" "st_pchans s p = Some pc"
proof -
  have "own e = Some (OWhse c)"
    using exps_ok_whse [OF own look_w [OF c]] e by (simp add: whse_ok_def)
  moreover from exps_ok_owned [OF own this] obtain x p where "st_exps s e = Some x"
    "ex_ctx x = Some c" "ex_pchan x = Some p" "st_pchans s p \<noteq> None"
    by (auto simp: owned_ok_def xv_def)
  ultimately show ?thesis using that by auto
qed

lemma imp_whse_facts:
  assumes own: "exps_ok own (xv (st_exps s)) (iv (st_pchans s)) (wv (st_ctxs s)) R n"
    and c: "st_ctxs s c = Some cx" and e: "(k, e) \<in> set (cx_imp_whse cx)"
  obtains x p pc where "own e = Some (OImp c)" "st_exps s e = Some x"
    "ex_pchan x = Some p" "st_pchans s p = Some pc"
proof -
  have "own e = Some (OImp c)"
    using exps_ok_whse [OF own look_w [OF c]] e by (force simp: whse_ok_def)
  moreover from exps_ok_owned [OF own this] obtain x p where "st_exps s e = Some x"
    "ex_pchan x = Some p" "st_pchans s p \<noteq> None"
    by (auto simp: owned_ok_def xv_def)
  ultimately show ?thesis using that by auto
qed

lemma remove_export_effect:
  assumes x: "st_exps s e = Some x" "ex_ctx x = Some c" and c: "st_ctxs s c = Some cx"
  obtains y h where "habmem_remove_export e s =
    Some (s\<lparr>st_ctxs := (st_ctxs s)(c \<mapsto> cx\<lparr>cx_export_total := cx_export_total cx - 1\<rparr>),
            st_exps := (st_exps s)(e := y), st_hyp_mem := h\<rparr>)"
proof (cases "ex_refcount x \<le> 1")
  case True
  with x c that [where y = None and h = "case ex_dmabuf x of None \<Rightarrow> st_hyp_mem s
      | Some d \<Rightarrow> dma_buf_put d (st_hyp_mem s)"] show ?thesis
    by (simp add: habmem_remove_export_def habmem_export_put_def habmem_export_destroy_def
        habmem_exp_release_def mod_ctx_def mod_exp_def split: option.split)
next
  case False
  with x c that [where y = "Some (x\<lparr>ex_ctx := None, ex_refcount := ex_refcount x - 1\<rparr>)" and h = "st_hyp_mem s"] show ?thesis
    by (simp add: habmem_remove_export_def habmem_export_put_def mod_ctx_def mod_exp_def)
qed

text \<open>Removing an export from the warehouse and the idr it is in keeps the ownership of the others.\<close>

lemma exp_removed_wf:
  assumes own: "exps_ok own (xv X) (iv P) (wv C) R n" and e: "own e = Some (OWhse c)"
    and x: "X e = Some x" "ex_pchan x = Some p" and pc: "P p = Some pc" and c: "C c = Some cx"
    and cx': "cx_exp_whse cx' = remove1 e (cx_exp_whse cx)" "cx_imp_whse cx' = cx_imp_whse cx"
    and pc': "pc_expid_idr pc' = idr_remove (pc_expid_idr pc) (unat (ex_export_id x))"
  shows "exps_ok (own(e := None)) (xv (X(e := y))) (iv (P(p \<mapsto> pc'))) (wv (C(c \<mapsto> cx'))) R n"
proof -
  have xv: "xv (X(e := y)) = (xv X)(e := map_option (\<lambda>x. (ex_export_id x, ex_ctx x, ex_pchan x)) y)"
    by (auto simp: xv_def)
  show ?thesis
    unfolding xv
  proof (rule move_exp_gone [OF own e])
    show "xv X e = Some (ex_export_id x, ex_ctx x, Some p)" using x by (simp add: xv_def)
    fix c' es m assume w: "wv (C(c \<mapsto> cx')) c' = Some (es, m)"
    obtain cx0 where cx0: "C c' = Some cx0" "es = remove1 e (cx_exp_whse cx0)" "m = cx_imp_whse cx0"
    proof (cases "c' = c")
      case True
      with w cx' c that show thesis by simp
    next
      case False
      then obtain cx0 where cx0: "C c' = Some cx0" "es = cx_exp_whse cx0" "m = cx_imp_whse cx0"
        using w by (auto simp: wv_def)
      have "e \<notin> set (cx_exp_whse cx0)"
        using exps_ok_whse [OF own view_look(6) [of C, OF cx0(1)]] e False by (auto simp: whse_ok_def)
      with cx0 that [of cx0] show thesis by (simp add: remove1_idem)
    qed
    note wok = exps_ok_whse [OF own view_look(6) [of C, OF cx0(1)]]
    have "e \<notin> snd ` set m" using wok e cx0(3) by (auto simp: whse_ok_def)
    then have "snd ` set m \<subseteq> snd ` set m - {e}" by blast
    moreover have "distinct es \<and> set es \<subseteq> set (cx_exp_whse cx0) - {e} \<and> distinct (map fst m) \<and>
        distinct (map snd m)"
      using wok cx0 by (simp add: whse_ok_def)
    ultimately show "\<exists>es0 m0. wv C c' = Some (es0, m0) \<and> distinct es \<and> set es \<subseteq> set es0 - {e} \<and>
        distinct (map fst m) \<and> distinct (map snd m) \<and> snd ` set m \<subseteq> snd ` set m0 - {e}"
      using view_look(6) [of C, OF cx0(1)] cx0(3) by blast
  next
    show "distinct R" using exps_ok_reclaim [OF own] by simp
    show "set R \<subseteq> set R - {e}" using exps_ok_reclaim [OF own] e by auto
    show "iv (P(p \<mapsto> pc')) = (iv P)(p := map_option (\<lambda>m. idr_remove m (unat (ex_export_id x))) (iv P p)) \<or>
        ((\<exists>c'. OWhse c = OImp c') \<and> iv (P(p \<mapsto> pc')) = iv P)"
      using pc pc' by (simp add: view_look)
  qed
qed

lemma exp_reclaimed_wf:
  assumes own: "exps_ok own (xv X) (iv P) (wv C) R n" and e: "own e = Some (OWhse c)"
    and x: "X e = Some x" "ex_pchan x = Some p" and pc: "P p = Some pc" and c: "C c = Some cx"
    and cx': "cx_exp_whse cx' = remove1 e (cx_exp_whse cx)" "cx_imp_whse cx' = cx_imp_whse cx"
  shows "exps_ok (own(e \<mapsto> OReclaim)) (xv X) (iv P) (wv (C(c \<mapsto> cx'))) (R @ [e]) n"
proof (rule move_exp_owner [OF own e, where i = "ex_export_id x" and co = "ex_ctx x" and p = p])
  show "xv X e = Some (ex_export_id x, ex_ctx x, Some p)" using x by (simp add: xv_def)
  show "iv P p \<noteq> None" using pc by simp
  fix c' es m assume w: "wv (C(c \<mapsto> cx')) c' = Some (es, m)"
  show "\<exists>es0. wv C c' = Some (es0, m) \<and> distinct es \<and> set es - {e} \<subseteq> set es0 \<and>
      (e \<in> set es \<longrightarrow> OReclaim = OWhse c')"
  proof (cases "c' = c")
    case True
    have "distinct (cx_exp_whse cx)"
      using exps_ok_whse [OF own view_look(6) [of C, OF c]] by (simp add: whse_ok_def)
    moreover have "es = remove1 e (cx_exp_whse cx)" "wv C c' = Some (cx_exp_whse cx, m)"
      using True w cx' c by (simp_all add: view_look)
    ultimately have "wv C c' = Some (cx_exp_whse cx, m) \<and> distinct es \<and>
        set es - {e} \<subseteq> set (cx_exp_whse cx) \<and> e \<notin> set es" by (auto simp: set_remove1_eq)
    then show ?thesis by blast
  next
    case False
    then have "wv C c' = Some (es, m)" using w by simp
    moreover from exps_ok_whse [OF own this] e False have "distinct es" "e \<notin> set es"
      by (auto simp: whse_ok_def)
    ultimately show ?thesis by blast
  qed
next
  show "distinct (R @ [e])" "set (R @ [e]) - {e} \<subseteq> set R" "e \<in> set (R @ [e]) \<longrightarrow> OReclaim = OReclaim"
    using exps_ok_reclaim [OF own] e by auto
qed simp_all

text \<open>The two collection loops run through, leave an empty warehouse, and keep the invariant.\<close>

lemma ctx_free_exports_wf:
  assumes "drv_wf D hp hv hc s" "st_ctxs s c = Some cx" "cx_exp_whse cx = es"
  shows "safe (ctx_free_exports c es s) (\<lambda>s'. drv_wf D hp hv hc s' \<and> exp_frame s s' \<and>
    (\<exists>cx'. st_ctxs s' c = Some cx' \<and> cx_exp_whse cx' = [] \<and> cx_imp_whse cx' = cx_imp_whse cx))"
  using assms
proof (induction es arbitrary: s cx)
  case Nil
  then show ?case by (simp add: exp_frame_refl)
next
  case (Cons e es)
  note wf = Cons.prems(1) and c = Cons.prems(2)
  from drv_wf_exps [OF wf] obtain own where own: "exps_ok own (xv (st_exps s)) (iv (st_pchans s))
    (wv (st_ctxs s)) (st_reclaim_list s) (st_next s)" by blast
  from exp_whse_facts [OF own c, of e] Cons.prems(3) obtain x p pc where e:
    "own e = Some (OWhse c)" "st_exps s e = Some x" "ex_ctx x = Some c" "ex_pchan x = Some p"
    "st_pchans s p = Some pc" by auto
  define cx1 where "cx1 = cx\<lparr>cx_exp_whse := remove1 e (cx_exp_whse cx)\<rparr>"
  define s1 where "s1 = s\<lparr>st_ctxs := (st_ctxs s)(c \<mapsto> cx1)\<rparr>"
  have s1: "mod_ctx c (\<lambda>cx. cx\<lparr>cx_exp_whse := remove1 e (cx_exp_whse cx)\<rparr>) s = Some s1"
    using c by (simp add: s1_def cx1_def)
  have next_round: "safe (ctx_free_exports c es s2) (\<lambda>s'. drv_wf D hp hv hc s' \<and> exp_frame s s' \<and>
      (\<exists>cx'. st_ctxs s' c = Some cx' \<and> cx_exp_whse cx' = [] \<and> cx_imp_whse cx' = cx_imp_whse cx))"
    if s2: "exp_frame s s2" "exps_wf s2" "st_ctxs s2 c = Some cx2" "cx_exp_whse cx2 = es"
      "cx_imp_whse cx2 = cx_imp_whse cx" for s2 cx2
    using Cons.IH [OF exp_frame_wf [OF wf s2(1,2)] s2(3,4)] exp_frame_trans [OF s2(1)] s2(5)
    by (auto elim!: safe_mono)
  show ?case
  proof (cases "ex_remote_imported x \<and> pc_mem_proto pc = 1")
    case True
    define s2 where "s2 = s1\<lparr>st_reclaim_list := st_reclaim_list s1 @ [e]\<rparr>"
    have "exps_wf s2"
      using exp_reclaimed_wf [OF own e(1,2,4,5) c, of cx1]
      by (auto simp: exps_wf_def views s2_def s1_def cx1_def)
    moreover have "exp_frame s s2"
      using c by (simp add: exp_frame_def s2_def s1_def cx1_def upd_same view_look)
    ultimately have "safe (ctx_free_exports c es s2) (\<lambda>s'. drv_wf D hp hv hc s' \<and> exp_frame s s' \<and>
      (\<exists>cx'. st_ctxs s' c = Some cx' \<and> cx_exp_whse cx' = [] \<and> cx_imp_whse cx' = cx_imp_whse cx))"
      using next_round [of s2 cx1] Cons.prems(3) by (simp add: s2_def s1_def cx1_def)
    then show ?thesis
      using True e s1 unfolding ctx_free_exports.simps safe_simps s1 by (simp add: s2_def s1_def)
  next
    case False
    define pc1 where "pc1 = pc\<lparr>pc_expid_idr := idr_remove (pc_expid_idr pc) (unat (ex_export_id x))\<rparr>"
    define s3 where "s3 = s1\<lparr>st_pchans := (st_pchans s1)(p \<mapsto> pc1)\<rparr>"
    have s3: "expid_remove p (ex_export_id x) s1 = Some s3"
      using e(5) by (simp add: expid_remove_def s3_def s1_def pc1_def)
    define cx2 where "cx2 = cx1\<lparr>cx_export_total := cx_export_total cx1 - 1\<rparr>"
    have "st_exps s3 e = Some x" "st_ctxs s3 c = Some cx1" using e by (simp_all add: s3_def s1_def)
    from remove_export_effect [OF this(1) e(3) this(2)] obtain y h where y: "habmem_remove_export e s3 =
        Some (s3\<lparr>st_ctxs := (st_ctxs s3)(c \<mapsto> cx2), st_exps := (st_exps s3)(e := y), st_hyp_mem := h\<rparr>)"
      unfolding cx2_def by blast
    define s4 where "s4 = s3\<lparr>st_ctxs := (st_ctxs s3)(c \<mapsto> cx2), st_exps := (st_exps s3)(e := y),
        st_hyp_mem := h\<rparr>"
    have s4: "s4 = s\<lparr>st_ctxs := (st_ctxs s)(c \<mapsto> cx2), st_pchans := (st_pchans s)(p \<mapsto> pc1),
        st_exps := (st_exps s)(e := y), st_hyp_mem := h\<rparr>"
      by (simp add: s4_def s3_def s1_def)
    have "exps_wf s4"
      using exp_removed_wf [OF own e(1,2,4,5) c, of cx2 pc1 y]
      by (auto simp: exps_wf_def views s4 cx2_def cx1_def pc1_def)
    moreover have "exp_frame s s4"
      using c e(5) by (simp add: exp_frame_def s4 cx2_def cx1_def pc1_def upd_same view_look)
    ultimately have "safe (ctx_free_exports c es s4) (\<lambda>s'. drv_wf D hp hv hc s' \<and> exp_frame s s' \<and>
      (\<exists>cx'. st_ctxs s' c = Some cx' \<and> cx_exp_whse cx' = [] \<and> cx_imp_whse cx' = cx_imp_whse cx))"
      using next_round [of s4 cx2] Cons.prems(3) by (simp add: s4 cx2_def cx1_def)
    moreover have "st_exps s1 e = Some x" "st_pchans s1 p = Some pc" using e by (simp_all add: s1_def)
    ultimately show ?thesis
      using False e(4) s3 y
      unfolding ctx_free_exports.simps safe_simps s1
      by (cases "ex_remote_imported x") (simp_all add: s4_def [symmetric])
  qed
qed

lemma whse_remove_facts:
  assumes "whse_ok own c (es, m)"
  shows "distinct (map fst (whse_remove k m))" "distinct (map snd (whse_remove k m))"
    "snd ` set (whse_remove k m) \<subseteq> snd ` set m"
  using assms by (auto simp: whse_ok_def whse_remove_def distinct_map_filter)

text \<open>Removing an import from the warehouse it is in.\<close>

lemma imp_removed_wf:
  assumes own: "exps_ok own (xv X) (iv P) (wv C) R n" and e: "own e = Some (OImp c)"
    and x: "X e = Some x" "ex_pchan x = Some p" and c: "C c = Some cx" "(k, e) \<in> set (cx_imp_whse cx)"
    and cx': "cx_exp_whse cx' = cx_exp_whse cx" "cx_imp_whse cx' = whse_remove k (cx_imp_whse cx)"
  shows "exps_ok (own(e := None)) (xv (X(e := None))) (iv P) (wv (C(c \<mapsto> cx'))) R n"
  unfolding view_upd
proof (rule move_exp_gone [OF own e])
  show "xv X e = Some (ex_export_id x, ex_ctx x, Some p)" using x by (simp add: xv_def)
  fix c' es m assume w: "((wv C)(c \<mapsto> (cx_exp_whse cx', cx_imp_whse cx'))) c' = Some (es, m)"
  show "\<exists>es0 m0. wv C c' = Some (es0, m0) \<and> distinct es \<and> set es \<subseteq> set es0 - {e} \<and>
      distinct (map fst m) \<and> distinct (map snd m) \<and> snd ` set m \<subseteq> snd ` set m0 - {e}"
  proof (cases "c' = c")
    case True
    have W: "wv C c' = Some (cx_exp_whse cx, cx_imp_whse cx)" using c(1) True by (simp add: view_look)
    note wok = exps_ok_whse [OF own W]
    have "e \<notin> set es" "distinct es" using wok e w True cx' by (auto simp: whse_ok_def)
    moreover have "e \<notin> snd ` set m"
    proof
      assume "e \<in> snd ` set m"
      moreover have "m = whse_remove k (cx_imp_whse cx)" using w True cx' by simp
      ultimately obtain k' where k': "(k', e) \<in> set (cx_imp_whse cx)" "k' \<noteq> k"
        by (auto simp: set_whse_remove)
      have "distinct (map snd (cx_imp_whse cx))" using wok by (simp add: whse_ok_def)
      then have "inj_on snd (set (cx_imp_whse cx))" by (simp add: distinct_map)
      from inj_onD [OF this _ k'(1) c(2)] k'(2) show False by simp
    qed
    moreover have "es = cx_exp_whse cx" "m = whse_remove k (cx_imp_whse cx)"
      using w True cx' by simp_all
    moreover note whse_remove_facts [OF wok, of k]
    ultimately show ?thesis using W by blast
  next
    case False
    then have "wv C c' = Some (es, m)" using w by simp
    moreover from exps_ok_whse [OF own this] e False have
      "distinct es" "e \<notin> set es" "distinct (map fst m)" "distinct (map snd m)" "e \<notin> snd ` set m"
      by (auto simp: whse_ok_def)
    ultimately show ?thesis by blast
  qed
next
  show "distinct R" "set R \<subseteq> set R - {e}" using exps_ok_reclaim [OF own] e by auto
  show "iv P = (iv P)(p := map_option (\<lambda>m. idr_remove m (unat (ex_export_id x))) (iv P p)) \<or>
      ((\<exists>c'. OImp c = OImp c') \<and> iv P = iv P)" by blast
qed

lemma unimport_send_safe:
  assumes "st_pchans s p = Some pc"
  shows "safe (physical_channel_send p (mk_header 4 HAB_PAYLOAD_TYPE_UNIMPORT a b) (Some (enc_u32 w)) s)
    (\<lambda>(r, s'). hyp_frame p s s')"
proof -
  obtain r s' where "physical_channel_send p (mk_header 4 HAB_PAYLOAD_TYPE_UNIMPORT a b)
      (Some (enc_u32 w)) s = Some (r, s')"
    by (rule send_total [OF assms]) (auto simp: u32_codec.enc_length)
  with send_frame [OF this] show ?thesis by simp
qed

lemma ctx_free_imports_wf:
  assumes "drv_wf D hp hv hc s" "st_ctxs s c = Some cx" "cx_imp_whse cx = m"
  shows "safe (ctx_free_imports c m s) (\<lambda>s'. drv_wf D hp hv hc s' \<and> exp_frame s s' \<and>
    (\<exists>cx'. st_ctxs s' c = Some cx' \<and> cx_imp_whse cx' = [] \<and> cx_exp_whse cx' = cx_exp_whse cx))"
  using assms
proof (induction m arbitrary: s cx)
  case Nil
  then show ?case by (simp add: exp_frame_refl)
next
  case (Cons ke m)
  obtain k e where ke: "ke = (k, e)" by fastforce
  note wf = Cons.prems(1) and c = Cons.prems(2)
  from drv_wf_exps [OF wf] obtain own where own: "exps_ok own (xv (st_exps s)) (iv (st_pchans s))
    (wv (st_ctxs s)) (st_reclaim_list s) (st_next s)" by blast
  have ke': "(k, e) \<in> set (cx_imp_whse cx)" using Cons.prems(3) ke by simp
  from imp_whse_facts [OF own c this] obtain x p pc where e:
    "own e = Some (OImp c)" "st_exps s e = Some x" "ex_pchan x = Some p" "st_pchans s p = Some pc"
    by auto
  have rest: "whse_remove k (cx_imp_whse cx) = m"
    using exps_ok_whse [OF own look_w [OF c]] Cons.prems(3) ke
    by (force simp: whse_ok_def whse_remove_def filter_id_conv)
  define cx1 where "cx1 = cx\<lparr>cx_imp_whse := whse_remove k (cx_imp_whse cx),
    cx_import_total := cx_import_total cx - 1\<rparr>"
  define s1 where "s1 = s\<lparr>st_ctxs := (st_ctxs s)(c \<mapsto> cx1)\<rparr>"
  have s1: "mod_ctx c (\<lambda>cx. cx\<lparr>cx_imp_whse := whse_remove k (cx_imp_whse cx),
                               cx_import_total := cx_import_total cx - 1\<rparr>) s = Some s1"
    using c by (simp add: s1_def cx1_def)
  have fr1: "exp_frame s s1" using c by (simp add: exp_frame_def s1_def cx1_def upd_same view_look)
  have round: "safe (ctx_free_imports c m (s3\<lparr>st_exps := (st_exps s3)(e := None)\<rparr>))
      (\<lambda>s'. drv_wf D hp hv hc s' \<and> exp_frame s s' \<and>
      (\<exists>cx'. st_ctxs s' c = Some cx' \<and> cx_imp_whse cx' = [] \<and> cx_exp_whse cx' = cx_exp_whse cx))"
    if s3: "exp_frame s1 s3" "iv (st_pchans s3) = iv (st_pchans s)" "st_ctxs s3 = st_ctxs s1"
      "st_exps s3 = st_exps s" "st_reclaim_list s3 = st_reclaim_list s" "st_next s3 = st_next s" for s3
  proof -
    define s4 where "s4 = s3\<lparr>st_exps := (st_exps s3)(e := None)\<rparr>"
    have fr: "exp_frame s s4"
      using exp_frame_trans [OF fr1 s3(1)] by (simp add: exp_frame_def s4_def)
    have "exps_wf s4"
      using imp_removed_wf [OF own e(1,2,3) c ke', of cx1] s3
      by (auto simp: exps_wf_def views s4_def s1_def cx1_def)
    from Cons.IH [OF exp_frame_wf [OF wf fr this], of cx1] s3(3) rest
    have "safe (ctx_free_imports c m s4) (\<lambda>s'. drv_wf D hp hv hc s' \<and> exp_frame s4 s' \<and>
        (\<exists>cx'. st_ctxs s' c = Some cx' \<and> cx_imp_whse cx' = [] \<and> cx_exp_whse cx' = cx_exp_whse cx))"
      by (simp add: s4_def s1_def cx1_def)
    then show ?thesis unfolding s4_def [symmetric] using exp_frame_trans [OF fr] by (auto elim!: safe_mono)
  qed
  have s1': "st_exps s1 e = Some x" "st_pchans s1 p = Some pc" "st_ctxs s1 c = Some cx1"
    using e by (simp_all add: s1_def)
  obtain h where h: "habmm_imp_hyp_unmap e (cx_kernel cx1) s1 = Some (0, s1\<lparr>st_hyp_mem := h\<rparr>)"
    using that [of "if cx_kernel cx1 then dma_buf_put (unat (ex_kva x)) (st_hyp_mem s1) else st_hyp_mem s1"]
      s1'(1) by (simp add: habmm_imp_hyp_unmap_def)
  define s2 where "s2 = s1\<lparr>st_hyp_mem := h\<rparr>"
  have s2: "exp_frame s1 s2" "st_pchans s2 p = Some pc"
    using s1' by (simp_all add: exp_frame_def s2_def)
  show ?case
  proof (cases "pc_mem_proto pc = 1")
    case False
    then show ?thesis
      using round [OF s2(1)] e s1' h
      by (simp add: ke s1 s2_def) (simp add: s1_def)
  next
    case True
    have "safe (ctx_free_imports c m (s3\<lparr>st_exps := (st_exps s3)(e := None)\<rparr>))
      (\<lambda>s'. drv_wf D hp hv hc s' \<and> exp_frame s s' \<and>
      (\<exists>cx'. st_ctxs s' c = Some cx' \<and> cx_imp_whse cx' = [] \<and> cx_exp_whse cx' = cx_exp_whse cx))"
      if "hyp_frame p s2 s3" for s3
      using that by (intro round [OF exp_frame_trans [OF s2(1) hyp_exp_frame [OF that]]])
        (auto simp: hyp_frame_def s1_def s2_def upd_same view_look)
    moreover obtain r s3 where "physical_channel_send p (mk_header 4 HAB_PAYLOAD_TYPE_UNIMPORT
        HAB_VCID_UNIMPORT HAB_SESSIONID_UNIMPORT) (Some (enc_u32 (ex_export_id x))) s2 = Some (r, s3)"
      "hyp_frame p s2 s3"
      using unimport_send_safe [OF s2(2)] unfolding safe_ex by blast
    ultimately show ?thesis
      using True e s1' h by (simp add: ke s1 s2_def)
  qed
qed

section \<open>References to contexts\<close>

text \<open>What is left of the state when a context goes, and when a reference to it is put.\<close>

definition ctx_frame :: "hab_driver \<Rightarrow> hab_driver \<Rightarrow> bool" where
  "ctx_frame s s' \<longleftrightarrow> st_vchans s' = st_vchans s \<and> pv (st_pchans s') = pv (st_pchans s) \<and>
     st_devs s' = st_devs s \<and> st_next s' = st_next s"

lemma ctx_get_wf:
  assumes wf: "drv_wf D hp hv hc s" and c: "st_ctxs s c = Some cx"
  shows "safe (hab_ctx_get c s) (\<lambda>s'. drv_wf D hp hv (hc(c := Suc (hc c))) s' \<and>
    s' = s\<lparr>st_ctxs := (st_ctxs s)(c \<mapsto> cx\<lparr>cx_refcount := cx_refcount cx + 1\<rparr>)\<rparr>)"
proof -
  from drv_wf_exps [OF wf] obtain own where own: "exps_ok own (xv (st_exps s)) (iv (st_pchans s))
    (wv (st_ctxs s)) (st_reclaim_list s) (st_next s)" by blast
  have "drv_wf D hp hv (hc(c := Suc (hc c)))
      (s\<lparr>st_ctxs := (st_ctxs s)(c \<mapsto> cx\<lparr>cx_refcount := cx_refcount cx + 1\<rparr>)\<rparr>)"
    by (rule drv_wfI [where own = own])
      (use move_ctx_get [OF drv_wf_refs [OF wf] look_c [OF c]] own wf c in
        \<open>auto simp: view_look upd_same drv_wf_def rx_ok_def held_ok_def split: if_splits\<close>)
  then show ?thesis using c by (simp add: hab_ctx_get_def safe_mod)
qed

lemma ctx_free_wf:
  assumes wf: "drv_wf D hp hv hc s" and c: "st_ctxs s c = Some cx" "cx_refcount cx = 0"
  shows "safe (hab_ctx_free c s) (\<lambda>s'. drv_wf D hp hv hc s' \<and> ctx_frame s s' \<and>
    cv (st_ctxs s') = (cv (st_ctxs s))(c := None))"
proof -
  define s1 where "s1 = s\<lparr>st_ctxs := (st_ctxs s)(c \<mapsto> cx\<lparr>cx_forbidden_chans := []\<rparr>)\<rparr>"
  have m1: "mod_ctx c (\<lambda>cx. cx\<lparr>cx_forbidden_chans := []\<rparr>) s = Some s1" using c by (simp add: s1_def)
  have wf1: "drv_wf D hp hv hc s1" unfolding s1_def by (rule drv_wf_ctx_fields [OF wf c(1)]) simp_all
  have c1: "st_ctxs s1 c = Some (cx\<lparr>cx_forbidden_chans := []\<rparr>)" by (simp add: s1_def)
  have fr1: "exp_frame s s1" using c by (simp add: exp_frame_def s1_def upd_same view_look)
  from ctx_free_exports_wf [OF wf1 c1 refl] obtain s2 cx2 where s2:
    "ctx_free_exports c (cx_exp_whse cx) s1 = Some s2" "drv_wf D hp hv hc s2" "exp_frame s1 s2"
    "st_ctxs s2 c = Some cx2" "cx_exp_whse cx2 = []" unfolding safe_ex by auto
  from ctx_free_imports_wf [OF s2(2,4) refl] s2(5) obtain s3 cx3 where s3:
    "ctx_free_imports c (cx_imp_whse cx2) s2 = Some s3" "drv_wf D hp hv hc s3" "exp_frame s2 s3"
    "st_ctxs s3 c = Some cx3" "cx_imp_whse cx3 = []" "cx_exp_whse cx3 = []" unfolding safe_ex by auto
  have fr: "exp_frame s s3" using exp_frame_trans [OF exp_frame_trans [OF fr1 s2(3)] s3(3)] .
  define s4 where "s4 = s3\<lparr>st_ctx_cnt := st_ctx_cnt s3 - 1,
    st_uctx_list := filter (\<lambda>x. x \<noteq> c) (st_uctx_list s3), st_ctxs := (st_ctxs s3)(c := None)\<rparr>"
  have run: "hab_ctx_free c s = Some s4"
    using s3(4) s2(1,4) s3(1) by (simp add: hab_ctx_free_def m1 c1 s4_def del: mod_ctx_Some)
  have C: "cv (st_ctxs s3) = cv (st_ctxs s)" using fr by (simp add: exp_frame_def)
  have cv3: "cv (st_ctxs s3) c = Some (cx_vchannels cx, 0)" unfolding C using c by (simp add: view_look)
  note r3 = drv_wf_refs [OF s3(2)]
  from drv_wf_exps [OF s3(2)] obtain own where own: "exps_ok own (xv (st_exps s3)) (iv (st_pchans s3))
    (wv (st_ctxs s3)) (st_reclaim_list s3) (st_next s3)" by blast
  have "hc c = 0" using refs_ok_ctx [OF r3 cv3] by (simp add: ctx_ok_def)
  then have "drv_wf D hp hv hc s4"
    by (intro drv_wfI [where own = own])
      (use move_ctx_free [OF r3 cv3] move_whse_gone [OF own] s3(2) in
        \<open>auto simp: s4_def drv_wf_def rx_ok_def held_ok_def\<close>)
  moreover have "ctx_frame s s4" "cv (st_ctxs s4) = (cv (st_ctxs s))(c := None)"
    using fr by (simp_all add: ctx_frame_def exp_frame_def s4_def)
  ultimately show ?thesis by (simp add: run)
qed

lemma ctx_put_wf:
  assumes wf: "drv_wf D hp hv hc s" and k: "hc c = Suc k"
  shows "safe (hab_ctx_put c s) (\<lambda>s'. drv_wf D hp hv (hc(c := k)) s' \<and> ctx_frame s s' \<and>
    (\<forall>c'. c' \<noteq> c \<longrightarrow> cv (st_ctxs s') c' = cv (st_ctxs s) c'))"
proof -
  from held_ctx [OF wf, of c] k obtain cx where c: "st_ctxs s c = Some cx" by auto
  from drv_wf_exps [OF wf] obtain own where own: "exps_ok own (xv (st_exps s)) (iv (st_pchans s))
    (wv (st_ctxs s)) (st_reclaim_list s) (st_next s)" by blast
  define cx1 where "cx1 = cx\<lparr>cx_refcount := cx_refcount cx - 1\<rparr>"
  define s1 where "s1 = s\<lparr>st_ctxs := (st_ctxs s)(c \<mapsto> cx1)\<rparr>"
  have m1: "mod_ctx c (\<lambda>cx. cx\<lparr>cx_refcount := cx_refcount cx - 1\<rparr>) s = Some s1"
    using c by (simp add: s1_def cx1_def)
  note m = move_ctx_put [OF drv_wf_refs [OF wf] look_c [OF c] k]
  have wf1: "drv_wf D hp hv (hc(c := k)) s1"
    by (rule drv_wfI [where own = own])
      (use m own wf c in
        \<open>auto simp: s1_def cx1_def view_look upd_same drv_wf_def rx_ok_def held_ok_def split: if_splits\<close>)
  have fr: "ctx_frame s s1" "\<forall>c'. c' \<noteq> c \<longrightarrow> cv (st_ctxs s1) c' = cv (st_ctxs s) c'"
    by (simp_all add: ctx_frame_def s1_def)
  show ?thesis
  proof (cases "cx_refcount cx \<le> 1")
    case True
    have "st_ctxs s1 c = Some cx1" "cx_refcount cx1 = 0" using True by (simp_all add: s1_def cx1_def)
    from ctx_free_wf [OF wf1 this] have "safe (hab_ctx_free c s1) (\<lambda>s'. drv_wf D hp hv (hc(c := k)) s' \<and>
        ctx_frame s s' \<and> (\<forall>c'. c' \<noteq> c \<longrightarrow> cv (st_ctxs s') c' = cv (st_ctxs s) c'))"
      using fr by (auto simp: ctx_frame_def elim!: safe_mono)
    with True c show ?thesis by (simp add: hab_ctx_put_def m1 [unfolded One_nat_def] del: mod_ctx_Some)
  next
    case False
    with c wf1 fr show ?thesis by (simp add: hab_ctx_put_def m1 [unfolded One_nat_def] del: mod_ctx_Some)
  qed
qed

section \<open>References to virtual channels\<close>

lemma pages_needed: "(n :: nat) \<le> 4096 * l \<Longrightarrow> n div 4096 + (if n mod 4096 \<noteq> 0 then 1 else 0) \<le> l"
proof (cases "n mod 4096 = 0")
  case True
  assume "n \<le> 4096 * l"
  from div_le_mono [OF this, of 4096] True show ?thesis by simp
next
  case False
  assume "n \<le> 4096 * l"
  then have "n < l * 4096" using False by (cases "n = 4096 * l") auto
  from less_mult_imp_div_less [OF this] False show ?thesis by simp
qed

lemma msgs_free_ok:
  "\<forall>m \<in> set ms. msg_ok m \<Longrightarrow> hab_msgs_free ms s = Some s"
proof (induction ms)
  case (Cons m ms)
  have "hab_msg_free m s = Some s"
  proof (cases "ms_body m")
    case (Scatter ps)
    define n where "n = ms_sizebytes m div 4096 + (if ms_sizebytes m mod 4096 \<noteq> 0 then 1 else 0)"
    have ok: "ms_sizebytes m \<le> 4096 * length ps" "list_all (\<lambda>p. \<exists>b. p = Pg b) ps"
      using Cons.prems Scatter pages_full_facts [of ps] by (auto simp: msg_ok_def)
    have "n \<le> length ps" unfolding n_def by (rule pages_needed [OF ok(1)])
    moreover have "list_all (\<lambda>p. case p of Pg b \<Rightarrow> True | Wild w \<Rightarrow> False) (take n ps)"
      using ok(2) by (fastforce simp: list_all_iff dest: in_set_takeD)
    ultimately show ?thesis using Scatter by (simp add: hab_msg_free_def n_def)
  qed (simp add: hab_msg_free_def)
  with Cons show ?case by simp
qed simp

lemma vchan_get_wf:
  assumes wf: "drv_wf D hp hv hc s" and v: "st_vchans s v = Some vc"
  shows "drv_wf D hp (hv(v := Suc (hv v))) hc
    (s\<lparr>st_vchans := (st_vchans s)(v \<mapsto> vc\<lparr>vc_refcount := vc_refcount vc + 1\<rparr>)\<rparr>)"
proof -
  from drv_wf_exps [OF wf] obtain own where own: "exps_ok own (xv (st_exps s)) (iv (st_pchans s))
    (wv (st_ctxs s)) (st_reclaim_list s) (st_next s)" by blast
  show ?thesis
    by (rule drv_wfI [where own = own])
      (use move_vchan_get [OF drv_wf_refs [OF wf] look_v [OF v]] own wf v in
        \<open>auto simp: view_look upd_same drv_wf_def rx_ok_def held_ok_def split: if_splits\<close>)
qed

lemma vchan_get_unless_zero_wf:
  assumes wf: "drv_wf D hp hv hc s" and v: "st_vchans s v = Some vc"
  shows "safe (vchan_get_unless_zero v s) (\<lambda>(r, s'). case r of
      None \<Rightarrow> s' = s \<and> vc_refcount vc = 0
    | Some w \<Rightarrow> w = v \<and> drv_wf D hp (hv(v := Suc (hv v))) hc s' \<and>
        s' = s\<lparr>st_vchans := (st_vchans s)(v \<mapsto> vc\<lparr>vc_refcount := vc_refcount vc + 1\<rparr>)\<rparr>)"
  using vchan_get_wf [OF wf v] v by (simp add: vchan_get_unless_zero_def safe_mod)

text \<open>The release: from the detached channel on.\<close>

lemma vchan_detach_wf:
  assumes wf: "drv_wf D hp hv hc s" and v: "st_vchans s v = Some vc" "v \<notin> D"
    and p: "st_pchans s (vc_pchan vc) = Some pc"
    and c: "\<And>cx. st_ctxs s (vc_ctx vc) = Some cx \<Longrightarrow> v \<notin> set (cx_vchannels cx)"
    and pc': "pc' = pc\<lparr>pc_vchannels := remove1 v (pc_vchannels pc), pc_vcnt := n\<rparr>"
  shows "drv_wf (insert v D) (hp(vc_pchan vc := Suc (hp (vc_pchan vc)))) hv
    (hc(vc_ctx vc := Suc (hc (vc_ctx vc)))) (s\<lparr>st_pchans := (st_pchans s)(vc_pchan vc \<mapsto> pc')\<rparr>)"
proof -
  from drv_wf_exps [OF wf] obtain own where own: "exps_ok own (xv (st_exps s)) (iv (st_pchans s))
    (wv (st_ctxs s)) (st_reclaim_list s) (st_next s)" by blast
  from vchan_ctx [OF wf v] obtain cx where cx: "st_ctxs s (vc_ctx vc) = Some cx" by blast
  show ?thesis
    by (rule drv_wfI [where own = own])
      (use move_vchan_detach [OF drv_wf_refs [OF wf] look_v [OF v(1)] v(2) look_p [OF p] look_c [OF cx] c [OF cx]]
        own wf p cx in
        \<open>auto simp: pc' view_look upd_same drv_wf_def rx_ok_def held_ok_def split: if_splits\<close>)
qed

lemma vchan_gone_wf:
  assumes wf: "drv_wf (insert v D) hp hv hc s" and v: "vv (st_vchans s) v = Some (p, c, k, i)" "v \<notin> D" "hv v = 0"
    and p: "\<And>pc. st_pchans s p = Some pc \<Longrightarrow> (unat (HAB_VCID_GET_ID i), v) \<notin> set (pc_vchan_idr pc)"
  shows "drv_wf D hp hv hc (s\<lparr>st_vchans := (st_vchans s)(v := None)\<rparr>)"
proof -
  from drv_wf_exps [OF wf] obtain own where own: "exps_ok own (xv (st_exps s)) (iv (st_pchans s))
    (wv (st_ctxs s)) (st_reclaim_list s) (st_next s)" by blast
  have "refs_ok D hp hv hc (pv (st_pchans s)) ((vv (st_vchans s))(v := None)) (cv (st_ctxs s))
      (qv (st_devs s)) (st_next s)"
    by (rule move_vchan_gone [OF drv_wf_refs [OF wf] v(1,2)]) (use p in \<open>auto simp: pv_def\<close>)
  then show ?thesis
    by (intro drv_wfI [where own = own]) (use own wf v in \<open>auto simp: drv_wf_def rx_ok_def held_ok_def\<close>)
qed

lemma idr_removed_wf:
  assumes wf: "drv_wf D hp hv hc s" and p: "st_pchans s p = Some pc"
  shows "drv_wf D hp hv hc (s\<lparr>st_pchans := (st_pchans s)(p \<mapsto>
    pc\<lparr>pc_vchan_idr := idr_remove (pc_vchan_idr pc) j\<rparr>)\<rparr>)"
proof -
  from drv_wf_exps [OF wf] obtain own where own: "exps_ok own (xv (st_exps s)) (iv (st_pchans s))
    (wv (st_ctxs s)) (st_reclaim_list s) (st_next s)" by blast
  show ?thesis
    by (rule drv_wfI [where own = own])
      (use move_idr_remove [OF drv_wf_refs [OF wf] look_p [OF p]] own wf p in
        \<open>auto simp: view_look upd_same drv_wf_def rx_ok_def held_ok_def\<close>)
qed

lemma vchan_free_wf:
  assumes wf: "drv_wf D hp hv hc s" and v: "st_vchans s v = Some vc" "v \<notin> D" "hv v = 0"
    and c: "\<And>cx. st_ctxs s (vc_ctx vc) = Some cx \<Longrightarrow> v \<notin> set (cx_vchannels cx)"
  shows "safe (hab_vchan_free v s) (\<lambda>s'. drv_wf D hp hv hc s' \<and> st_devs s' = st_devs s)"
proof -
  let ?p = "vc_pchan vc" and ?c = "vc_ctx vc"
  from vchan_pchan [OF wf v(1)] obtain pc where p: "st_pchans s ?p = Some pc" by blast
  have free: "hab_msgs_free (vc_rx_list vc) s = Some s"
    by (rule msgs_free_ok) (use wf v in \<open>auto simp: drv_wf_def rx_ok_def\<close>)
  define s2 where "s2 = s\<lparr>st_vchans := (st_vchans s)(v \<mapsto> vc\<lparr>vc_rx_list := []\<rparr>)\<rparr>"
  have m2: "mod_vchan v (\<lambda>vc. vc\<lparr>vc_rx_list := []\<rparr>) s = Some s2" using v by (simp add: s2_def)
  have wf2: "drv_wf D hp hv hc s2" unfolding s2_def by (rule drv_wf_vchan_fields [OF wf v(1)]) simp_all
  have in_list: "v \<in> set (pc_vchannels pc)"
    using refs_ok_vchan [OF drv_wf_refs [OF wf] look_v [OF v(1)]] v(2) p
    by (auto simp: vchan_ok_def view_look)
  define pc3 where "pc3 = pc\<lparr>pc_vchannels := remove1 v (pc_vchannels pc), pc_vcnt := pc_vcnt pc - 1\<rparr>"
  define s3 where "s3 = s2\<lparr>st_pchans := (st_pchans s2)(?p \<mapsto> pc3)\<rparr>"
  have m3: "mod_pchan ?p (\<lambda>pc. if v \<in> set (pc_vchannels pc)
      then pc\<lparr>pc_vchannels := remove1 v (pc_vchannels pc), pc_vcnt := pc_vcnt pc - 1\<rparr> else pc) s2 = Some s3"
    using p in_list by (simp add: s3_def s2_def pc3_def)
  have v2: "st_vchans s2 v = Some (vc\<lparr>vc_rx_list := []\<rparr>)" by (simp add: s2_def)
  have wf3: "drv_wf (insert v D) (hp(?p := Suc (hp ?p))) hv (hc(?c := Suc (hc ?c))) s3"
  proof -
    have "st_pchans s2 (vc_pchan (vc\<lparr>vc_rx_list := []\<rparr>)) = Some pc" using p by (simp add: s2_def)
    moreover have "v \<notin> set (cx_vchannels cx)" if "st_ctxs s2 (vc_ctx (vc\<lparr>vc_rx_list := []\<rparr>)) = Some cx" for cx
      using that c by (simp add: s2_def)
    ultimately show ?thesis
      using vchan_detach_wf [OF wf2 v2 v(2) _ _ pc3_def] by (simp add: s3_def)
  qed
  from ctx_put_wf [OF wf3, of ?c "hc ?c"] obtain s4 where s4: "hab_ctx_put ?c s3 = Some s4"
    "drv_wf (insert v D) (hp(?p := Suc (hp ?p))) hv hc s4" "ctx_frame s3 s4"
    unfolding safe_ex by auto
  from held_pchan [OF s4(2), of ?p] obtain pc4 where p4: "st_pchans s4 ?p = Some pc4" by auto
  define pc5 where "pc5 = pc4\<lparr>pc_vchan_idr := idr_remove (pc_vchan_idr pc4) (unat (HAB_VCID_GET_ID (vc_id vc)))\<rparr>"
  define s5 where "s5 = s4\<lparr>st_pchans := (st_pchans s4)(?p \<mapsto> pc5)\<rparr>"
  have m5: "mod_pchan ?p (\<lambda>pc. pc\<lparr>pc_vchan_idr :=
      idr_remove (pc_vchan_idr pc) (unat (HAB_VCID_GET_ID (vc_id vc)))\<rparr>) s4 = Some s5"
    using p4 by (simp add: s5_def pc5_def)
  have wf5: "drv_wf (insert v D) (hp(?p := Suc (hp ?p))) hv hc s5"
    using idr_removed_wf [OF s4(2) p4] by (simp add: s5_def pc5_def)
  have p5: "st_pchans s5 ?p = Some pc5" by (simp add: s5_def)
  have hold: "(hp(?p := Suc (hp ?p))) ?p = Suc (hp ?p)" by simp
  obtain pc6 where put: "st_pchans s5 ?p = Some pc6" "hab_pchan_put ?p s5 =
      Some (s5\<lparr>st_pchans := (st_pchans s5)(?p \<mapsto> pc6\<lparr>pc_refcount := pc_refcount pc6 - 1\<rparr>)\<rparr>)"
    "drv_wf (insert v D) ((hp(?p := Suc (hp ?p)))(?p := hp ?p)) hv hc
      (s5\<lparr>st_pchans := (st_pchans s5)(?p \<mapsto> pc6\<lparr>pc_refcount := pc_refcount pc6 - 1\<rparr>)\<rparr>)"
    by (rule pchan_put_wf [where p = ?p, OF wf5 hold])
  define s6 where "s6 = s5\<lparr>st_pchans := (st_pchans s5)(?p \<mapsto> pc5\<lparr>pc_refcount := pc_refcount pc5 - 1\<rparr>)\<rparr>"
  have "pc6 = pc5" using put(1) p5 by simp
  with put have s6: "hab_pchan_put ?p s5 = Some s6" "drv_wf (insert v D) hp hv hc s6"
    by (simp_all add: s6_def)
  have "st_vchans s6 = st_vchans s2"
    using s4(3) by (simp add: s6_def s5_def ctx_frame_def s3_def)
  then have v6: "vv (st_vchans s6) v = Some (?p, ?c, vc_refcount vc, vc_id vc)"
    by (simp add: s2_def)
  have "drv_wf D hp hv hc (s6\<lparr>st_vchans := (st_vchans s6)(v := None)\<rparr>)"
    by (rule vchan_gone_wf [OF s6(2) v6 v(2,3)]) (simp add: s6_def pc5_def set_idr_remove)
  moreover have "st_devs s6 = st_devs s" using s4(3) by (simp add: s6_def s5_def ctx_frame_def s3_def s2_def)
  ultimately show ?thesis
    by (simp add: hab_vchan_free_def v(1) free m2 m3 s4(1) m5 s6(1) del: mod_pchan_Some mod_vchan_Some)
qed

text \<open>
  Putting a reference one holds never faults: either others are left, or the channel is released,
  and with it its references to its context (which may go too) and its physical channel.
\<close>

lemma vchan_put_devs_wf:
  assumes wf: "drv_wf D hp hv hc s" and k: "hv v = Suc k" "v \<notin> D"
  shows "safe (hab_vchan_put v s) (\<lambda>s'. drv_wf D hp (hv(v := k)) hc s' \<and> st_devs s' = st_devs s)"
proof -
  from held_vchan [OF wf, of v] k obtain vc where v: "st_vchans s v = Some vc" by auto
  from drv_wf_exps [OF wf] obtain own where own: "exps_ok own (xv (st_exps s)) (iv (st_pchans s))
    (wv (st_ctxs s)) (st_reclaim_list s) (st_next s)" by blast
  define vc1 where "vc1 = vc\<lparr>vc_refcount := vc_refcount vc - 1\<rparr>"
  define s1 where "s1 = s\<lparr>st_vchans := (st_vchans s)(v \<mapsto> vc1)\<rparr>"
  have m1: "mod_vchan v (\<lambda>vc. vc\<lparr>vc_refcount := vc_refcount vc - 1\<rparr>) s = Some s1"
    using v by (simp add: s1_def vc1_def)
  note m = move_vchan_put [OF drv_wf_refs [OF wf] look_v [OF v] k]
  have wf1: "drv_wf D hp (hv(v := k)) hc s1"
    by (rule drv_wfI [where own = own])
      (use m own wf v in
        \<open>auto simp: s1_def vc1_def view_look upd_same drv_wf_def rx_ok_def held_ok_def split: if_splits\<close>)
  show ?thesis
  proof (cases "vc_refcount vc \<le> 1")
    case True
    from vchan_ctx [OF wf v k(2)] obtain cx where cx: "st_ctxs s (vc_ctx vc) = Some cx" by blast
    have "(if v \<in> set (cx_vchannels cx) then 1 else 0) + hv v \<le> vc_refcount vc"
      using refs_ok_vchan [OF drv_wf_refs [OF wf] look_v [OF v]] k(2) cx
      by (simp add: vchan_ok_def view_look split del: if_split)
    then have "v \<notin> set (cx_vchannels cx)" "k = 0" using True k(1) by (auto split: if_splits)
    then have "safe (hab_vchan_free v s1) (\<lambda>s'. drv_wf D hp (hv(v := k)) hc s' \<and> st_devs s' = st_devs s1)"
      by (intro vchan_free_wf [OF wf1, of v vc1]) (use k cx in \<open>simp_all add: s1_def vc1_def\<close>)
    moreover have "st_devs s1 = st_devs s" by (simp add: s1_def)
    ultimately show ?thesis using True v
      by (simp add: hab_vchan_put_def m1 [unfolded One_nat_def] del: mod_vchan_Some)
  next
    case False
    moreover have "st_devs s1 = st_devs s" by (simp add: s1_def)
    ultimately show ?thesis using v wf1
      by (simp add: hab_vchan_put_def m1 [unfolded One_nat_def] del: mod_vchan_Some)
  qed
qed

lemma vchan_put_wf:
  assumes "drv_wf D hp hv hc s" "hv v = Suc k" "v \<notin> D"
  shows "safe (hab_vchan_put v s) (drv_wf D hp (hv(v := k)) hc)"
  by (rule safe_mono [OF vchan_put_devs_wf [OF assms]]) simp

lemma vchan_fresh:
  assumes "drv_wf D hp hv hc s" shows "hv (st_next s) = 0" "st_vchans s (st_next s) = None"
proof -
  show none: "st_vchans s (st_next s) = None"
  proof (cases "st_vchans s (st_next s)")
    case (Some vc)
    from refs_ok_vchan [OF drv_wf_refs [OF assms] look_v [OF Some]] show ?thesis
      by (simp add: vchan_ok_def)
  qed
  show "hv (st_next s) = 0" using assms none by (auto simp: drv_wf_def held_ok_def)
qed

lemma vchan_alloc_wf:
  assumes wf: "drv_wf D hp hv hc s" and p: "st_pchans s p = Some pc" and c: "st_ctxs s c = Some cx"
    and D: "st_next s \<notin> D"
  shows "safe (hab_vchan_alloc c p openid s) (\<lambda>(r, s'). case r of
      None \<Rightarrow> drv_wf D hp hv hc s' \<and> (\<exists>m. s' = s\<lparr>st_mem := m\<rparr>)
    | Some v \<Rightarrow> v = st_next s \<and> hv v = 0 \<and> drv_wf D hp (hv(v := 1)) hc s' \<and>
        (\<exists>vc. st_vchans s' = (st_vchans s)(v \<mapsto> vc) \<and> vc_pchan vc = p \<and> vc_ctx vc = c \<and>
           vc_session_id vc = openid \<and> vc_closed vc = False))"
proof -
  obtain ok s1 where k: "kalloc s = (ok, s1)" by fastforce
  then have s1: "s1 = s\<lparr>st_mem := tl (st_mem s)\<rparr>" using kalloc_frame by blast
  have wf1: "drv_wf D hp hv hc s1" using wf k by (simp add: kalloc_wf)
  show ?thesis
  proof (cases "ok \<and> idr_alloc (pc_vchan_idr pc) (st_next s) 1 4096 \<noteq> None")
    case False
    then show ?thesis using k s1 p wf1
      by (cases "idr_alloc (pc_vchan_idr pc) (st_next s) 1 4096") (auto simp: hab_vchan_alloc_def)
  next
    case True
    then obtain i idr where i: "idr_alloc (pc_vchan_idr pc) (st_next s) 1 4096 = Some (i, idr)"
      by auto
    from idr_alloc_Some [OF i] have idr: "idr = (i, st_next s) # pc_vchan_idr pc" "1 \<le> i" "i < 4096"
      by auto
    have d: "pc_habdev pc < length (st_devs s)" by (rule pchan_dev [OF wf p])
    define v where "v = st_next s"
    define vid where "vid = vcid_compose (of_nat i) (dv_id (st_devs s ! pc_habdev pc)) (of_int (pc_dom_id pc))"
    define vc where "vc = vchan_new p c vid openid (pc_closed pc)"
    define pc' where "pc' = pc\<lparr>pc_vchan_idr := idr, pc_refcount := pc_refcount pc + 1,
      pc_vchannels := pc_vchannels pc @ [v], pc_vcnt := pc_vcnt pc + 1\<rparr>"
    define cx' where "cx' = cx\<lparr>cx_refcount := cx_refcount cx + 1\<rparr>"
    define s' where "s' = s1\<lparr>st_pchans := (st_pchans s)(p \<mapsto> pc'), st_ctxs := (st_ctxs s)(c \<mapsto> cx'),
      st_next := v + 1, st_vchans := (st_vchans s)(v \<mapsto> vc)\<rparr>"
    have run: "hab_vchan_alloc c p openid s = Some (Some v, s')"
      using True k s1 p c i d
      by (simp add: hab_vchan_alloc_def hab_ctx_get_def get_dev_def mod_pchan_def mod_ctx_def Let_def
          s'_def vc_def vid_def pc'_def cx'_def v_def)
    have small: "unat (of_nat i :: u32) = i" using idr by (simp add: unat_of_nat)
    then have "HAB_VCID_GET_ID vid = of_nat i"
      using idr by (simp add: vid_def vcid_id_small)
    then have "i = unat (HAB_VCID_GET_ID vid)" using small by simp
    from move_vchan_alloc [OF drv_wf_refs [OF wf] look_p [OF p] look_c [OF c] this D]
    have refs: "refs_ok D hp (hv(v := 1)) hc (pv (st_pchans s')) (vv (st_vchans s')) (cv (st_ctxs s'))
        (qv (st_devs s')) (st_next s')"
      by (simp add: s'_def v_def s1 pc'_def cx'_def vc_def vchan_new_def idr)
    from drv_wf_exps [OF wf] obtain own where own: "exps_ok own (xv (st_exps s)) (iv (st_pchans s))
      (wv (st_ctxs s)) (st_reclaim_list s) (st_next s)" by blast
    have "drv_wf D hp (hv(v := 1)) hc s'"
    proof (rule drv_wfI [OF refs])
      show "exps_ok own (xv (st_exps s')) (iv (st_pchans s')) (wv (st_ctxs s')) (st_reclaim_list s')
          (st_next s')"
        using exps_ok_next [OF own, of "Suc (st_next s)"] p c
        by (simp add: s'_def s1 pc'_def cx'_def v_def upd_same view_look)
      show "rx_ok s'" using wf by (auto simp: s'_def drv_wf_def rx_ok_def vc_def vchan_new_def)
      show "held_ok hp (hv(v := 1)) hc s'" using wf by (auto simp: s'_def s1 drv_wf_def held_ok_def)
    qed
    moreover have "st_vchans s' = (st_vchans s)(v \<mapsto> vc)" "hv v = 0"
      using vchan_fresh(1) [OF wf] by (simp_all add: s'_def v_def)
    moreover have "vc_pchan vc = p" "vc_ctx vc = c" "vc_session_id vc = openid" "\<not> vc_closed vc"
      by (simp_all add: vc_def vchan_new_def)
    ultimately have "v = st_next s \<and> hv v = 0 \<and> drv_wf D hp (hv(v := 1)) hc s' \<and>
        (\<exists>vc. st_vchans s' = (st_vchans s)(v \<mapsto> vc) \<and> vc_pchan vc = p \<and> vc_ctx vc = c \<and>
           vc_session_id vc = openid \<and> vc_closed vc = False)"
      unfolding v_def by blast
    then show ?thesis unfolding run safe_simps prod.case option.case .
  qed
qed

section \<open>Lookups\<close>

lemma find_vcid_wf:
  assumes "\<forall>v \<in> set vs. st_vchans s v \<noteq> None"
  shows "safe (find_vcid vcid vs s) (\<lambda>r. case r of
      None \<Rightarrow> \<forall>v \<in> set vs. \<forall>vc. st_vchans s v = Some vc \<longrightarrow> vc_id vc \<noteq> vcid
    | Some v \<Rightarrow> v \<in> set vs \<and> (\<exists>vc. st_vchans s v = Some vc \<and> vc_id vc = vcid))"
  using assms
proof (induction vs)
  case (Cons v vs)
  then obtain vc where v: "st_vchans s v = Some vc" by auto
  show ?case
  proof (cases "vc_id vc = vcid")
    case False
    from Cons have "safe (find_vcid vcid vs s) (\<lambda>r. case r of
        None \<Rightarrow> \<forall>v \<in> set vs. \<forall>vc. st_vchans s v = Some vc \<longrightarrow> vc_id vc \<noteq> vcid
      | Some v \<Rightarrow> v \<in> set vs \<and> (\<exists>vc. st_vchans s v = Some vc \<and> vc_id vc = vcid))" by simp
    then show ?thesis using v False by (auto elim!: safe_mono split: option.splits)
  qed (simp add: v)
qed simp

text \<open>
  A lookup by a client either fails and changes nothing, or returns a live channel of the client's
  own context with that identifier, not closed locally, and takes one reference to it.
\<close>

lemma get_fromvcid_wf:
  assumes wf: "drv_wf D hp hv hc s" and c: "st_ctxs s c = Some cx"
  shows "safe (hab_get_vchan_fromvcid vcid c ign s) (\<lambda>(r, s'). case r of
      None \<Rightarrow> s' = s
    | Some v \<Rightarrow> v \<in> set (cx_vchannels cx) \<and> v \<notin> D \<and> drv_wf D hp (hv(v := Suc (hv v))) hc s' \<and>
        (\<exists>vc. st_vchans s v = Some vc \<and> vc_id vc = vcid \<and> vc_ctx vc = c \<and> \<not> vc_closed vc \<and>
          (ign \<or> \<not> vc_otherend_closed vc) \<and>
          s' = s\<lparr>st_vchans := (st_vchans s)(v \<mapsto> vc\<lparr>vc_refcount := vc_refcount vc + 1\<rparr>)\<rparr>))"
proof -
  have "\<forall>v \<in> set (cx_vchannels cx). st_vchans s v \<noteq> None" using ctx_vchan [OF wf c] by auto
  from find_vcid_wf [OF this, of vcid] obtain r where r: "find_vcid vcid (cx_vchannels cx) s = Some r"
    "\<And>v. r = Some v \<Longrightarrow> v \<in> set (cx_vchannels cx) \<and> (\<exists>vc. st_vchans s v = Some vc \<and> vc_id vc = vcid)"
    unfolding safe_ex by (auto split: option.splits)
  show ?thesis
  proof (cases r)
    case None
    then show ?thesis using c r(1) by (simp add: hab_get_vchan_fromvcid_def)
  next
    case (Some v)
    from r(2) [OF Some] obtain vc where v: "v \<in> set (cx_vchannels cx)" "st_vchans s v = Some vc"
      "vc_id vc = vcid" by blast
    have own: "vc_ctx vc = c" "v \<notin> D" using ctx_vchan [OF wf c v(1)] v(2) by auto
    have pos: "vc_refcount vc \<noteq> 0" using ctx_vchan_count [OF wf c v(1,2)] by simp
    show ?thesis
    proof (cases "(\<not> ign \<and> vc_otherend_closed vc) \<or> vc_closed vc")
      case True
      then show ?thesis using c r(1) v Some by (auto simp: hab_get_vchan_fromvcid_def)
    next
      case False
      have "safe (vchan_get_unless_zero v s) (\<lambda>(r, s'). case r of
          None \<Rightarrow> s' = s
        | Some w \<Rightarrow> w = v \<and> drv_wf D hp (hv(v := Suc (hv v))) hc s' \<and>
            s' = s\<lparr>st_vchans := (st_vchans s)(v \<mapsto> vc\<lparr>vc_refcount := vc_refcount vc + 1\<rparr>)\<rparr>)"
        using vchan_get_unless_zero_wf [OF wf v(2)] pos by (auto elim!: safe_mono split: option.splits)
      moreover have "hab_get_vchan_fromvcid vcid c ign s = vchan_get_unless_zero v s"
        using c r(1) v(2) Some False by (auto simp: hab_get_vchan_fromvcid_def)
      ultimately show ?thesis
        using v own False by (auto elim!: safe_mono split: option.splits)
    qed
  qed
qed

text \<open>The lookup behind a received message.\<close>

lemma vchan_get_msg_wf:
  assumes wf: "drv_wf {} hp hv hc s" and p: "st_pchans s p = Some pc"
  shows "safe (hab_vchan_get p header s) (\<lambda>(r, s'). case r of
      None \<Rightarrow> s' = s
    | Some v \<Rightarrow> drv_wf {} hp (hv(v := Suc (hv v))) hc s' \<and>
        (\<exists>vc. st_vchans s v = Some vc \<and> vc_pchan vc = p \<and> \<not> vc_closed vc \<and> \<not> vc_otherend_closed vc \<and>
          vc_session_id vc = HAB_HEADER_GET_SESSION_ID header \<and>
          s' = s\<lparr>st_vchans := (st_vchans s)(v \<mapsto> vc\<lparr>vc_refcount := vc_refcount vc + 1\<rparr>)\<rparr>))"
proof (cases "idr_find (pc_vchan_idr pc) (unat (HAB_VCID_GET_ID (HAB_HEADER_GET_ID header)))")
  case None
  then show ?thesis using p by (simp add: hab_vchan_get_def)
next
  case (Some v)
  from idr_vchan [OF wf p Some] obtain vc where v: "st_vchans s v = Some vc" "vc_pchan vc = p" by blast
  show ?thesis
  proof (cases "vc_session_id vc \<noteq> HAB_HEADER_GET_SESSION_ID header \<or> vc_otherend_id vc = 0 \<or>
      vc_otherend_closed vc \<or> vc_closed vc")
    case True
    then show ?thesis using Some p v by (auto simp: hab_vchan_get_def)
  next
    case False
    then have "hab_vchan_get p header s = vchan_get_unless_zero v s"
      using Some p v by (simp add: hab_vchan_get_def)
    then show ?thesis
      using vchan_get_unless_zero_wf [OF wf v(1)] v False by (auto elim!: safe_mono split: option.splits)
  qed
qed

section \<open>Sends and reads\<close>

text \<open>A channel can be read: it has a transport, and a loopback device has a message at hand.\<close>

definition readable :: "nat \<Rightarrow> hab_driver \<Rightarrow> bool" where
  "readable p s \<longleftrightarrow> (\<exists>pc. st_pchans s p = Some pc \<and> pc_hyp_data pc \<noteq> HypNone \<and>
     (\<forall>lb. pc_hyp_data pc = HypLoop lb \<longrightarrow> lb_current lb \<noteq> None))"

lemma readable_pchan: "readable p s \<Longrightarrow> \<exists>pc. st_pchans s p = Some pc"
  by (auto simp: readable_def)

lemma readable_mem [simp]: "readable p (s\<lparr>st_mem := m\<rparr>) = readable p s"
  by (simp add: readable_def)

lemma readable_upd:
  "st_pchans s p = Some pc \<Longrightarrow> pc_hyp_data pc' = pc_hyp_data pc \<Longrightarrow> readable q s \<Longrightarrow>
     readable q (s\<lparr>st_pchans := (st_pchans s)(p \<mapsto> pc')\<rparr>)"
  by (auto simp: readable_def)

lemma kalloc_readable: "kalloc s = (ok, s') \<Longrightarrow> readable p s' = readable p s"
  using kalloc_frame by fastforce

lemma read_wf:
  assumes wf: "drv_wf D hp hv hc s" and r: "readable p s"
  shows "safe (physical_channel_read p n s) (\<lambda>(r, b, s'). drv_wf D hp hv hc s' \<and> readable p s' \<and>
    length b \<le> n \<and> r \<le> int n \<and> 0 \<le> r \<and> hyp_frame p s s')"
proof -
  from r obtain pc where p: "st_pchans s p = Some pc" "\<And>lb. pc_hyp_data pc = HypLoop lb \<Longrightarrow> lb_current lb \<noteq> None"
    and some: "pc_hyp_data pc \<noteq> HypNone"
    by (auto simp: readable_def)
  have "\<exists>x. physical_channel_read p n s = Some x"
    using p by (cases "pc_hyp_data pc")
      (auto simp: physical_channel_read_def vhost_read_def set_hyp_def mod_pchan_def loopback_read_def)
  then obtain r b s' where read: "physical_channel_read p n s = Some (r, b, s')" by auto
  have "readable p s' \<and> 0 \<le> r"
    using read
  proof (cases rule: read_cases)
    case (none pc)
    with p some read show ?thesis
      by (cases "pc_hyp_data pc")
        (auto simp: physical_channel_read_def vhost_read_def loopback_read_def split: if_splits)
  next
    case (vhost pc vh)
    then show ?thesis by (simp add: readable_def)
  qed (use r in simp_all)
  with read read_frame [OF read] read_length [OF read] drv_wf_hyp_frame [OF wf read_frame [OF read]]
  show ?thesis by simp
qed

lemma send_readable:
  assumes "physical_channel_send p h payload s = Some (r, s')" "readable q s"
  shows "readable q s'"
  using assms(1)
proof (cases rule: send_cases)
  case (ok pc m b b')
  have "enqueue_hyp h b' (pc_hyp_data pc) \<noteq> HypNone"
    using ok(3) by (cases "pc_hyp_data pc") (auto simp: enqueue_hyp_def)
  moreover have "lb_current lb' \<noteq> None" if "q = p" "enqueue_hyp h b' (pc_hyp_data pc) = HypLoop lb'" for lb'
    using that assms(2) ok(1) by (cases "pc_hyp_data pc") (auto simp: enqueue_hyp_def readable_def)
  ultimately show ?thesis using ok assms(2) by (auto simp: readable_def)
qed (use assms(2) in simp)

text \<open>
  A send never faults when its payload is as long as the header says and, for a profiling message,
  large enough for the two time stamps.
\<close>

lemma send_wf:
  assumes wf: "drv_wf D hp hv hc s" and p: "st_pchans s p = Some pc"
    and len: "unat (HAB_HEADER_GET_SIZE h) = 0 \<or> (\<exists>b. payload = Some b \<and> unat (HAB_HEADER_GET_SIZE h) \<le> length b)"
    and prof: "HAB_HEADER_GET_TYPE h = payload_code HAB_PAYLOAD_TYPE_PROFILE \<longrightarrow>
      unat (HAB_HEADER_GET_SIZE h) = 0 \<or> 16 \<le> unat (HAB_HEADER_GET_SIZE h)"
  shows "safe (physical_channel_send p h payload s) (\<lambda>(r, s'). drv_wf D hp hv hc s' \<and> hyp_frame p s s' \<and>
    (\<forall>q. readable q s \<longrightarrow> readable q s'))"
proof -
  from send_total [OF p len prof] obtain r s' where send: "physical_channel_send p h payload s = Some (r, s')" .
  with send_frame [OF send] drv_wf_hyp_frame [OF wf send_frame [OF send]] send_readable [OF send]
  show ?thesis by simp
qed

lemma send_close_wf:
  assumes wf: "drv_wf D hp hv hc s" and v: "st_vchans s v = Some vc"
  shows "safe (hab_send_close_msg v s) (\<lambda>s'. drv_wf D hp hv hc s' \<and> st_vchans s' = st_vchans s)"
proof (cases "vc_otherend_closed vc")
  case False
  from vchan_pchan [OF wf v] obtain pc where p: "st_pchans s (vc_pchan vc) = Some pc" by blast
  have "safe (physical_channel_send (vc_pchan vc)
      (mk_header 0 HAB_PAYLOAD_TYPE_CLOSE (vc_otherend_id vc) (vc_session_id vc)) None s)
      (\<lambda>(r, s'). drv_wf D hp hv hc s' \<and> hyp_frame (vc_pchan vc) s s' \<and> (\<forall>q. readable q s \<longrightarrow> readable q s'))"
    by (rule send_wf [OF wf p]) simp_all
  then show ?thesis
    unfolding safe_ex using v False by (auto simp: hab_send_close_msg_def hyp_frame_def)
qed (use v wf in \<open>simp add: hab_send_close_msg_def\<close>)

lemma send_unimport_wf:
  assumes wf: "drv_wf D hp hv hc s" and v: "st_vchans s v = Some vc"
  shows "safe (hab_send_unimport_msg v i s) (\<lambda>s'. drv_wf D hp hv hc s' \<and> hyp_frame (vc_pchan vc) s s' \<and>
    (\<forall>q. readable q s \<longrightarrow> readable q s'))"
proof -
  from vchan_pchan [OF wf v] obtain pc where p: "st_pchans s (vc_pchan vc) = Some pc" by blast
  have "safe (physical_channel_send (vc_pchan vc)
      (mk_header 4 HAB_PAYLOAD_TYPE_UNIMPORT (vc_otherend_id vc) (vc_session_id vc)) (Some (enc_u32 i)) s)
      (\<lambda>(r, s'). drv_wf D hp hv hc s' \<and> hyp_frame (vc_pchan vc) s s' \<and> (\<forall>q. readable q s \<longrightarrow> readable q s'))"
    by (rule send_wf [OF wf p]) (simp_all add: u32_codec.enc_length)
  then show ?thesis
    unfolding safe_ex using v by (auto simp: hab_send_unimport_msg_def)
qed

lemma vchan_stop_wf:
  assumes wf: "drv_wf D hp hv hc s" and v: "st_vchans s v = Some vc"
  shows "safe (hab_vchan_stop v s) (\<lambda>s'. drv_wf D hp hv hc s' \<and>
    s' = s\<lparr>st_vchans := (st_vchans s)(v \<mapsto> vc\<lparr>vc_otherend_closed := True\<rparr>)\<rparr>)"
proof -
  have "drv_wf D hp hv hc (s\<lparr>st_vchans := (st_vchans s)(v \<mapsto> vc\<lparr>vc_otherend_closed := True\<rparr>)\<rparr>)"
    by (rule drv_wf_vchan_fields [OF wf v]) (use wf v in \<open>auto simp: drv_wf_def rx_ok_def\<close>)
  then show ?thesis using v by (simp add: hab_vchan_stop_def safe_mod)
qed

lemma vchan_stop_notify_wf:
  assumes wf: "drv_wf D hp hv hc s" and v: "st_vchans s v = Some vc"
  shows "safe (hab_vchan_stop_notify v s) (drv_wf D hp hv hc)"
proof -
  from send_close_wf [OF wf v] obtain s1 where s1: "hab_send_close_msg v s = Some s1"
    "drv_wf D hp hv hc s1" "st_vchans s1 = st_vchans s" unfolding safe_ex by blast
  from vchan_stop_wf [OF s1(2), of v vc] s1(3) v have "safe (hab_vchan_stop v s1) (drv_wf D hp hv hc)"
    by (auto elim!: safe_mono)
  with s1(1) show ?thesis by (simp add: hab_vchan_stop_notify_def)
qed

end
