(* ===== verification/Hab_Wait.thy ===== *)
theory Hab_Wait
  imports Hab_Lifecycle
begin

text \<open>
  Blocking.  A thread that waits for a condition runs against a schedule of events: what other
  threads do to the driver state (\<open>Env\<close>), a signal for the thread, and the expiry of its timeout.
  \<^verbatim>\<open>wait_event\<close> evaluates its condition once before it queues the thread and once each time the
  thread is about to sleep; a condition may have effects, as the driver's conditions do.  A schedule
  that ends while the thread sleeps leaves it \<open>Blocked\<close>, which is a result like any other.
\<close>

datatype wait_ev = Env "hab_driver \<Rightarrow> hab_driver option" | Sig | Tmo

datatype 'a run = Done 'a "wait_ev list" hab_driver | Blocked hab_driver

datatype 'a wait_res = WMet 'a | WTimeout | WSignal

definition run_bind :: "'a run option \<Rightarrow> ('a \<Rightarrow> wait_ev list \<Rightarrow> hab_driver \<Rightarrow> 'b run option) \<Rightarrow> 'b run option" where
  "run_bind m f = (case m of
      None \<Rightarrow> None
    | Some (Blocked s) \<Rightarrow> Some (Blocked s)
    | Some (Done a w s) \<Rightarrow> f a w s)"

text \<open>A condition returns its output when it holds; the flags say whether signals and timeouts count.\<close>

fun wait_loop ::
  "(hab_driver \<Rightarrow> ('a option \<times> hab_driver) option) \<Rightarrow> bool \<Rightarrow> bool \<Rightarrow> wait_ev list \<Rightarrow> hab_driver \<Rightarrow>
     'a wait_res run option" where
  "wait_loop cond sigs tmos [] s = do {
     (r, s1) \<leftarrow> cond s;
     (case r of Some a \<Rightarrow> Some (Done (WMet a) [] s1) | None \<Rightarrow> Some (Blocked s1))
   }"
| "wait_loop cond sigs tmos (ev # w) s = do {
     (r, s1) \<leftarrow> cond s;
     (case r of
        Some a \<Rightarrow> Some (Done (WMet a) (ev # w) s1)
      | None \<Rightarrow>
          (case ev of
             Env f \<Rightarrow> do { s2 \<leftarrow> f s1; wait_loop cond sigs tmos w s2 }
           | Sig \<Rightarrow> if sigs then Some (Done WSignal w s1) else wait_loop cond sigs tmos w s1
           | Tmo \<Rightarrow>
               if tmos then do {
                 (r2, s2) \<leftarrow> cond s1;
                 Some (Done (case r2 of Some a \<Rightarrow> WMet a | None \<Rightarrow> WTimeout) w s2)
               } else wait_loop cond sigs tmos w s1))
   }"

definition wait_event ::
  "(hab_driver \<Rightarrow> ('a option \<times> hab_driver) option) \<Rightarrow> bool \<Rightarrow> bool \<Rightarrow> wait_ev list \<Rightarrow> hab_driver \<Rightarrow>
     'a wait_res run option" where
  "wait_event cond sigs tmos w s = do {
     (r, s1) \<leftarrow> cond s;
     (case r of
        Some a \<Rightarrow> Some (Done (WMet a) w s1)
      | None \<Rightarrow> wait_loop cond sigs tmos w s1)
   }"

section \<open>Waiting under an invariant\<close>

text \<open>
  \<open>run_ok I Q\<close>: a run that does not fault, that blocks only in states satisfying \<open>I\<close> and returns
  only results satisfying \<open>Q\<close>.  What the other threads do has to keep \<open>I\<close>.
\<close>

definition run_ok ::
  "(hab_driver \<Rightarrow> bool) \<Rightarrow> ('a \<Rightarrow> wait_ev list \<Rightarrow> hab_driver \<Rightarrow> bool) \<Rightarrow> 'a run option \<Rightarrow> bool" where
  "run_ok I Q m = (case m of
      None \<Rightarrow> False
    | Some (Blocked s) \<Rightarrow> I s
    | Some (Done a w s) \<Rightarrow> Q a w s)"

definition env_ok :: "(hab_driver \<Rightarrow> bool) \<Rightarrow> wait_ev list \<Rightarrow> bool" where
  "env_ok I w \<longleftrightarrow> (\<forall>f s. Env f \<in> set w \<longrightarrow> I s \<longrightarrow> safe (f s) I)"

lemma run_ok_simps [simp]:
  "run_ok I Q None = False" "run_ok I Q (Some (Blocked s)) = I s"
  "run_ok I Q (Some (Done a w s)) = Q a w s"
  by (simp_all add: run_ok_def)

lemma run_bind_simps [simp]:
  "run_bind None f = None" "run_bind (Some (Blocked s)) f = Some (Blocked s)"
  "run_bind (Some (Done a w s)) f = f a w s"
  by (simp_all add: run_bind_def)

lemma run_ok_bind:
  assumes "run_ok I Q m" "\<And>s. I s \<Longrightarrow> J s" "\<And>a w s. Q a w s \<Longrightarrow> run_ok J R (f a w s)"
  shows "run_ok J R (run_bind m f)"
proof (cases m)
  case (Some r)
  with assms show ?thesis by (cases r) simp_all
qed (use assms(1) in simp)

lemma run_ok_mono:
  assumes "run_ok I Q m" "\<And>s. I s \<Longrightarrow> J s" "\<And>a w s. Q a w s \<Longrightarrow> R a w s"
  shows "run_ok J R m"
  using assms by (cases m) (auto split: run.splits simp: run_ok_def)

lemma run_ok_safe:
  assumes "safe m Q" "\<And>x. Q x \<Longrightarrow> run_ok I R (f x)"
  shows "run_ok I R (m \<bind> f)"
  using assms by (cases m) auto

lemma env_ok_Cons: "env_ok I (ev # w) \<Longrightarrow> env_ok I w"
  by (simp add: env_ok_def)

text \<open>
  A wait whose condition keeps \<open>I\<close> while it is false and establishes \<open>Q\<close> when it becomes true ends,
  if it ends, with the condition met and \<open>Q\<close>, or by a timeout or signal with \<open>I\<close>.
\<close>

definition wait_post ::
  "(hab_driver \<Rightarrow> bool) \<Rightarrow> ('a \<Rightarrow> hab_driver \<Rightarrow> bool) \<Rightarrow> bool \<Rightarrow> bool \<Rightarrow> wait_ev list \<Rightarrow>
     'a wait_res \<Rightarrow> wait_ev list \<Rightarrow> hab_driver \<Rightarrow> bool" where
  "wait_post I Q sigs tmos w0 r w s \<longleftrightarrow> set w \<subseteq> set w0 \<and> length w \<le> length w0 \<and> (case r of
      WMet a \<Rightarrow> Q a s
    | WTimeout \<Rightarrow> tmos \<and> length w < length w0 \<and> I s
    | WSignal \<Rightarrow> sigs \<and> length w < length w0 \<and> I s)"

lemma wait_post_Cons: "wait_post I Q sigs tmos w0 r w s \<Longrightarrow> wait_post I Q sigs tmos (ev # w0) r w s"
  by (auto simp: wait_post_def split: wait_res.splits)

lemma wait_loop_ok:
  assumes cond: "\<And>s. I s \<Longrightarrow> safe (cond s) (\<lambda>(r, s'). case r of Some a \<Rightarrow> Q a s' | None \<Rightarrow> I s')"
    and env: "env_ok I w" and s: "I s"
  shows "run_ok I (wait_post I Q sigs tmos w) (wait_loop cond sigs tmos w s)"
  using env s
proof (induction w arbitrary: s)
  case Nil
  from cond [OF Nil(2)] obtain r s1 where c: "cond s = Some (r, s1)"
    "case r of Some a \<Rightarrow> Q a s1 | None \<Rightarrow> I s1" by (cases "cond s") auto
  then show ?case by (cases r) (simp_all add: wait_post_def)
next
  case (Cons ev w)
  from cond [OF Cons(3)] obtain r s1 where c: "cond s = Some (r, s1)"
    "case r of Some a \<Rightarrow> Q a s1 | None \<Rightarrow> I s1" by (cases "cond s") auto
  show ?case
  proof (cases r)
    case (Some a)
    with c show ?thesis by (simp add: wait_post_def)
  next
    case None
    with c have s1: "I s1" by simp
    have rest: "run_ok I (wait_post I Q sigs tmos (ev # w)) (wait_loop cond sigs tmos w s2)" if "I s2" for s2
      by (rule run_ok_mono [OF Cons.IH [OF env_ok_Cons [OF Cons.prems(1)] that]])
        (simp_all add: wait_post_Cons)
    show ?thesis
    proof (cases ev)
      case (Env f)
      then have "safe (f s1) I" using Cons.prems(1) s1 by (simp add: env_ok_def)
      then obtain s2 where "f s1 = Some s2" "I s2" unfolding safe_ex by blast
      with rest c None Env show ?thesis by simp
    next
      case Sig
      show ?thesis
      proof (cases sigs)
        case True
        with c None Sig s1 show ?thesis by (auto simp: wait_post_def)
      next
        case False
        with rest [OF s1] c None Sig show ?thesis by simp
      qed
    next
      case Tmo
      from cond [OF s1] obtain r2 s2 where c2: "cond s1 = Some (r2, s2)"
        "case r2 of Some a \<Rightarrow> Q a s2 | None \<Rightarrow> I s2" by (cases "cond s1") auto
      show ?thesis
      proof (cases tmos)
        case True
        with c c2 None Tmo show ?thesis by (cases r2) (auto simp: wait_post_def)
      next
        case False
        with rest [OF s1] c None Tmo show ?thesis by simp
      qed
    qed
  qed
qed

lemma wait_event_ok:
  assumes cond: "\<And>s. I s \<Longrightarrow> safe (cond s) (\<lambda>(r, s'). case r of Some a \<Rightarrow> Q a s' | None \<Rightarrow> I s')"
    and env: "env_ok I w" and s: "I s"
  shows "run_ok I (wait_post I Q sigs tmos w) (wait_event cond sigs tmos w s)"
proof -
  from cond [OF s] obtain r s1 where c: "cond s = Some (r, s1)"
    "case r of Some a \<Rightarrow> Q a s1 | None \<Rightarrow> I s1" by (cases "cond s") auto
  show ?thesis
  proof (cases r)
    case None
    with c have "I s1" by simp
    from wait_loop_ok [where I = I and cond = cond and Q = Q, OF cond env this] c None show ?thesis
      by (simp add: wait_event_def)
  qed (use c in \<open>simp add: wait_event_def wait_post_def\<close>)
qed

end
