(* ===== verification/Hab_Open.thy ===== *)
theory Hab_Open
  imports Hab_Wait
begin

text \<open>
  Open requests (\<^verbatim>\<open>hab_open.c\<close>) and the list of forbidden devices of a context (\<^verbatim>\<open>hab.c\<close>): a request
  received from the other side waits in the queue of its device, with a reference to the channel it
  came in on, until an opener takes it, it is cancelled, or it expires.
\<close>

abbreviation (input) HAB_OPEN_REQ_EXPIRE_TIME_S :: int where "HAB_OPEN_REQ_EXPIRE_TIME_S \<equiv> 36000"

definition hab_open_request_init ::
  "u32 \<Rightarrow> nat option \<Rightarrow> u32 \<Rightarrow> u32 \<Rightarrow> u32 \<Rightarrow> hab_open_request \<Rightarrow> hab_open_request" where
  "hab_open_request_init ty p vchan_id sub_id open_id r =
     r\<lparr>rq_type := ty, rq_pchan := p,
       rq_xdata := (rq_xdata r)\<lparr>od_vchan_id := vchan_id, od_sub_id := sub_id, od_open_id := open_id,
                                od_ver_proto := HAB_VER_PROT\<rparr>\<rparr>"

definition open_header :: "u32 \<Rightarrow> hab_header" where
  "open_header ty = HAB_HEADER_SET_TYPE ty (HAB_HEADER_SET_SIZE (of_nat open_data_size) HAB_HEADER_INITIALIZER)"

definition hab_open_request_send :: "hab_open_request \<Rightarrow> hab_driver \<Rightarrow> (int \<times> hab_driver) option" where
  "hab_open_request_send r s = do {
     p \<leftarrow> rq_pchan r;
     physical_channel_send p (open_header (rq_type r)) (Some (enc_open_data (rq_xdata r))) s
   }"

definition open_age :: "hab_driver \<Rightarrow> int" where
  "open_age s = st_now s + HAB_OPEN_REQ_EXPIRE_TIME_S + st_now_ns s div 1000000000"

text \<open>Adding a node to the queue, with a reference to its channel.\<close>

definition openq_add :: "nat \<Rightarrow> hab_open_node \<Rightarrow> nat \<Rightarrow> hab_driver \<Rightarrow> hab_driver option" where
  "openq_add d node p s = do {
     s1 \<leftarrow> hab_pchan_get p s;
     mod_dev d (\<lambda>dv. dv\<lparr>dv_openq_list := dv_openq_list dv @ [node],
                        dv_openq_cnt := dv_openq_cnt dv + 1\<rparr>) s1
   }"

definition hab_open_request_add ::
  "nat \<Rightarrow> nat \<Rightarrow> u32 \<Rightarrow> hab_driver \<Rightarrow> (int \<times> hab_driver) option" where
  "hab_open_request_add p sizebytes ty s = do {
     pc \<leftarrow> st_pchans s p;
     (case kalloc s of (ok, s1) \<Rightarrow>
       if \<not> ok then Some (- ENOMEM, s1)
       else if open_data_size < sizebytes then None
       else do {
         (r, b, s2) \<leftarrow> physical_channel_read p sizebytes s1;
         if r \<noteq> int sizebytes then Some (- EIO, s2)
         else do {
           s3 \<leftarrow> openq_add (pc_habdev pc)
             \<lparr>on_request = \<lparr>rq_type = ty, rq_pchan = Some p,
                             rq_xdata = dec_open_data (into_zeroed open_data_size b)\<rparr>,
              on_age = open_age s2\<rparr> p s2;
           Some (0, s3)
         }
       })
   }"

definition hab_open_request_free :: "hab_open_request \<Rightarrow> hab_driver \<Rightarrow> hab_driver option" where
  "hab_open_request_free r s = (case rq_pchan r of None \<Rightarrow> Some s | Some p \<Rightarrow> hab_pchan_put p s)"

text \<open>Is a device and minor number on the list of what the context must not open?\<close>

definition hab_is_forbidden :: "nat \<Rightarrow> nat option \<Rightarrow> u32 \<Rightarrow> hab_driver \<Rightarrow> bool option" where
  "hab_is_forbidden c d sub_id s = (case d of
      None \<Rightarrow> Some False
    | Some d \<Rightarrow> do {
        dev \<leftarrow> get_dev d s;
        cx \<leftarrow> st_ctxs s c;
        Some (list_ex (\<lambda>m. HAB_MMID_GET_MAJOR m = dv_id dev \<and> HAB_MMID_GET_MINOR m = sub_id)
                (cx_forbidden_chans cx))
      })"

definition open_match :: "hab_open_request \<Rightarrow> hab_open_request \<Rightarrow> bool" where
  "open_match listen r \<longleftrightarrow>
     (rq_type r = rq_type listen \<or> rq_type r = payload_code HAB_PAYLOAD_TYPE_INIT_CANCEL) \<and>
     od_sub_id (rq_xdata r) = od_sub_id (rq_xdata listen) \<and>
     (od_open_id (rq_xdata listen) = 0 \<or> od_open_id (rq_xdata r) = od_open_id (rq_xdata listen)) \<and>
     (rq_pchan listen = None \<or> rq_pchan r = rq_pchan listen)"

text \<open>
  The walk over the queue: it stops at the first match, which leaves the queue, and drops the
  expired nodes it passes (without counting them down in \<^verbatim>\<open>openq_cnt\<close>).
\<close>

fun open_find_loop ::
  "nat \<Rightarrow> hab_open_request \<Rightarrow> hab_open_node list \<Rightarrow> hab_open_node list \<Rightarrow> hab_driver \<Rightarrow>
     (hab_open_request option \<times> hab_driver) option" where
  "open_find_loop d listen kept [] s = Some (None, s)"
| "open_find_loop d listen kept (n # ns) s =
     (if open_match listen (on_request n) then do {
        s1 \<leftarrow> mod_dev d (\<lambda>dv. dv\<lparr>dv_openq_list := kept @ ns, dv_openq_cnt := dv_openq_cnt dv - 1\<rparr>) s;
        Some (Some (on_request n), s1)
      } else if on_age n < st_now s + st_now_ns s div 1000000000 then do {
        s1 \<leftarrow> mod_dev d (\<lambda>dv. dv\<lparr>dv_openq_list := kept @ ns\<rparr>) s;
        s2 \<leftarrow> hab_open_request_free (on_request n) s1;
        open_find_loop d listen kept ns s2
      } else open_find_loop d listen (kept @ [n]) ns s)"

text \<open>The wait condition: its output is the request received, if any.\<close>

definition hab_open_request_find ::
  "nat \<Rightarrow> nat \<Rightarrow> hab_open_request \<Rightarrow> hab_driver \<Rightarrow>
     (hab_open_request option option \<times> hab_driver) option" where
  "hab_open_request_find c d listen s = do {
     cx \<leftarrow> st_ctxs s c;
     closed \<leftarrow> (case rq_pchan listen of
                   None \<Rightarrow> Some False
                 | Some p \<Rightarrow> do { pc \<leftarrow> st_pchans s p; Some (pc_closed pc) });
     if cx_closing cx \<or> closed then Some (Some None, s)
     else do {
       dev \<leftarrow> get_dev d s;
       (found, s1) \<leftarrow> open_find_loop d listen [] (dv_openq_list dev) s;
       f \<leftarrow> hab_is_forbidden c (Some d) (od_sub_id (rq_xdata listen)) s1;
       Some (if found \<noteq> None \<or> f then Some found else None, s1)
     }
   }"

definition listen_ret_timeout :: "hab_open_request option wait_res \<Rightarrow> bool \<Rightarrow> int" where
  "listen_ret_timeout r forbidden = (case r of
      WTimeout \<Rightarrow> - EAGAIN
    | WSignal \<Rightarrow> - EINTR
    | WMet _ \<Rightarrow> if forbidden then - ENXIO else 0)"

definition listen_ret_forever :: "hab_open_request option wait_res \<Rightarrow> bool \<Rightarrow> bool \<Rightarrow> int" where
  "listen_ret_forever r closing forbidden =
     (if closing then - ENODEV
      else if r = WSignal then - EINTR
      else if forbidden then - ENXIO
      else 0)"

definition wait_request :: "hab_open_request option wait_res \<Rightarrow> hab_open_request option" where
  "wait_request r = (case r of WMet q \<Rightarrow> q | WTimeout \<Rightarrow> None | WSignal \<Rightarrow> None)"

definition hab_open_listen ::
  "nat \<Rightarrow> nat \<Rightarrow> hab_open_request \<Rightarrow> int \<Rightarrow> wait_ev list \<Rightarrow> hab_driver \<Rightarrow>
     (int \<times> hab_open_request option) run option" where
  "hab_open_listen c d listen ms_timeout w s =
     run_bind (wait_event (hab_open_request_find c d listen) True (0 < ms_timeout) w s)
       (\<lambda>r w' s'. do {
          cx \<leftarrow> st_ctxs s' c;
          f \<leftarrow> hab_is_forbidden c (Some d) (od_sub_id (rq_xdata listen)) s';
          Some (Done (if 0 < ms_timeout then listen_ret_timeout r f
                      else listen_ret_forever r (cx_closing cx) f, wait_request r) w' s')
        })"

text \<open>The node a cancel withdraws: an unserved request of the same virtual channel and open.\<close>

definition cancel_match :: "hab_open_send_data \<Rightarrow> hab_open_node \<Rightarrow> bool" where
  "cancel_match data n \<longleftrightarrow> (let r = on_request n in
     (rq_type r = payload_code HAB_PAYLOAD_TYPE_INIT \<or> rq_type r = payload_code HAB_PAYLOAD_TYPE_INIT_ACK) \<and>
     od_sub_id (rq_xdata r) = od_sub_id data \<and> od_open_id (rq_xdata r) = od_open_id data \<and>
     od_vchan_id (rq_xdata r) = od_vchan_id data)"

definition hab_open_receive_cancel :: "nat \<Rightarrow> nat \<Rightarrow> hab_driver \<Rightarrow> (int \<times> hab_driver) option" where
  "hab_open_receive_cancel p sizebytes s = do {
     pc \<leftarrow> st_pchans s p;
     if open_data_size < sizebytes then None
     else do {
       (r, b, s1) \<leftarrow> physical_channel_read p sizebytes s;
       if r \<noteq> int sizebytes then Some (- EIO, s1)
       else let data = dec_open_data (into_zeroed open_data_size b) in do {
         dev \<leftarrow> get_dev (pc_habdev pc) s1;
         (case take_first (cancel_match data) (dv_openq_list dev) of
            Some (as, n, bs) \<Rightarrow> do {
              s2 \<leftarrow> mod_dev (pc_habdev pc)
                (\<lambda>dv. dv\<lparr>dv_openq_list := as @ bs, dv_openq_cnt := dv_openq_cnt dv - 1\<rparr>) s1;
              Some (0, s2)
            }
          | None \<Rightarrow>
              (case kalloc s1 of (ok, s2) \<Rightarrow>
                if \<not> ok then Some (- ENOMEM, s2)
                else do {
                  s3 \<leftarrow> openq_add (pc_habdev pc)
                    \<lparr>on_request = \<lparr>rq_type = payload_code HAB_PAYLOAD_TYPE_INIT_CANCEL, rq_pchan = Some p,
                                    rq_xdata = data\<lparr>od_ver_proto := 0\<rparr>\<rparr>,
                     on_age = open_age s2\<rparr> p s2;
                  Some (0, s3)
                }))
       }
     }
   }"

definition hab_open_cancel_notify :: "hab_open_request \<Rightarrow> hab_driver \<Rightarrow> (int \<times> hab_driver) option" where
  "hab_open_cancel_notify r s = do {
     p \<leftarrow> rq_pchan r;
     physical_channel_send p (open_header (payload_code HAB_PAYLOAD_TYPE_INIT_CANCEL))
       (Some (enc_open_data (rq_xdata r))) s
   }"

definition hab_open_pending_enter :: "nat \<Rightarrow> hab_open_request \<Rightarrow> hab_driver \<Rightarrow> hab_driver option" where
  "hab_open_pending_enter c r s =
     mod_ctx c (\<lambda>cx. cx\<lparr>cx_pending_open := cx_pending_open cx @ [r],
                        cx_pending_cnt := cx_pending_cnt cx + 1\<rparr>) s"

definition pending_match :: "hab_open_request \<Rightarrow> hab_open_request \<Rightarrow> bool" where
  "pending_match r q \<longleftrightarrow> rq_type q = rq_type r \<and> rq_pchan q = rq_pchan r \<and>
     od_vchan_id (rq_xdata q) = od_vchan_id (rq_xdata r) \<and>
     od_sub_id (rq_xdata q) = od_sub_id (rq_xdata r) \<and>
     od_open_id (rq_xdata q) = od_open_id (rq_xdata r)"

definition hab_open_pending_exit ::
  "nat \<Rightarrow> hab_open_request \<Rightarrow> hab_driver \<Rightarrow> (int \<times> hab_driver) option" where
  "hab_open_pending_exit c r s = do {
     cx \<leftarrow> st_ctxs s c;
     s1 \<leftarrow> mod_ctx c (\<lambda>cx. cx\<lparr>
             cx_pending_open := filter (\<lambda>q. \<not> pending_match r q) (cx_pending_open cx),
             cx_pending_cnt := cx_pending_cnt cx
               - int (length (filter (pending_match r) (cx_pending_open cx)))\<rparr>) s;
     Some (if list_ex (pending_match r) (cx_pending_open cx) then 0 else - ENOENT, s1)
   }"

section \<open>Open requests under the invariant\<close>

lemma drv_wf_mono:
  assumes "drv_wf D hp hv hc s" "\<And>p. hp' p \<le> hp p"
  shows "drv_wf D hp' hv hc s"
proof -
  from drv_wf_exps [OF assms(1)] obtain own where own: "exps_ok own (xv (st_exps s)) (iv (st_pchans s))
    (wv (st_ctxs s)) (st_reclaim_list s) (st_next s)" by blast
  have "pchan_ok D hp' V Q n p x" if "pchan_ok D hp V Q n p x" for V Q n p x
    using that assms(2) [of p] by (cases x) (auto simp: pchan_ok_def intro: order_trans [rotated])
  then have "refs_ok D hp' hv hc (pv (st_pchans s)) (vv (st_vchans s)) (cv (st_ctxs s)) (qv (st_devs s)) (st_next s)"
    using drv_wf_refs [OF assms(1)] unfolding refs_ok_def by blast
  moreover have "held_ok hp' hv hc s"
    using assms(1) less_le_trans [OF _ assms(2)] unfolding drv_wf_def held_ok_def by blast
  ultimately show ?thesis
    using own assms(1) by (intro drv_wfI [where own = own]) (simp_all add: drv_wf_def)
qed

lemma drv_wf_dev_fields:
  assumes wf: "drv_wf D hp hv hc s" and d: "d < length (st_devs s)"
    and dv: "dv_pchannels dv = dv_pchannels (st_devs s ! d)" "dv_openq_list dv = dv_openq_list (st_devs s ! d)"
  shows "drv_wf D hp hv hc (s\<lparr>st_devs := (st_devs s)[d := dv]\<rparr>)"
proof -
  have "qv ((st_devs s)[d := dv]) = qv (st_devs s)"
    using d dv by (simp add: list_update_same_conv qv_nth)
  with wf show ?thesis by (simp add: drv_wf_def refs_wf_def exps_wf_def rx_ok_def held_ok_def views del: view_upd)
qed

lemma openq_enter_wf:
  assumes wf: "drv_wf D hp hv hc s" and k: "hp p = Suc k" and d: "d < length (st_devs s)"
    and node: "rq_pchan (on_request node) = Some p" and dv: "dv_pchannels dv = dv_pchannels (st_devs s ! d)"
      "dv_openq_list dv = dv_openq_list (st_devs s ! d) @ [node]"
  shows "drv_wf D (hp(p := k)) hv hc (s\<lparr>st_devs := (st_devs s)[d := dv]\<rparr>)"
proof -
  from drv_wf_exps [OF wf] obtain own where own: "exps_ok own (xv (st_exps s)) (iv (st_pchans s))
    (wv (st_ctxs s)) (st_reclaim_list s) (st_next s)" by blast
  from held_pchan [OF wf, of p] k have p: "pv (st_pchans s) p \<noteq> None" by auto
  then have p': "\<exists>y. st_pchans s p = Some y" by simp
  have dq: "d < length (qv (st_devs s))" using d by simp
  show ?thesis
    by (rule drv_wfI [where own = own])
      (use move_openq_add [OF drv_wf_refs [OF wf] p k dq] own wf d node dv p' in
        \<open>auto simp: qv_nth drv_wf_def rx_ok_def held_ok_def split: if_splits\<close>)
qed

lemma openq_leave_wf:
  assumes wf: "drv_wf D hp hv hc s" and d: "d < length (st_devs s)"
    and q: "dv_openq_list (st_devs s ! d) = as @ node # bs"
    and dv: "dv_pchannels dv = dv_pchannels (st_devs s ! d)" "dv_openq_list dv = as @ bs"
  obtains p where "rq_pchan (on_request node) = Some p"
    "drv_wf D (hp(p := Suc (hp p))) hv hc (s\<lparr>st_devs := (st_devs s)[d := dv]\<rparr>)"
proof -
  from drv_wf_exps [OF wf] obtain own where own: "exps_ok own (xv (st_exps s)) (iv (st_pchans s))
    (wv (st_ctxs s)) (st_reclaim_list s) (st_next s)" by blast
  have "(dv_pchannels (st_devs s ! d), map (\<lambda>n. rq_pchan (on_request n)) (as @ node # bs)) \<in> set (qv (st_devs s))"
    using d q by (auto simp: qv_def)
  then obtain p where p: "rq_pchan (on_request node) = Some p"
    using refs_ok_dev [OF drv_wf_refs [OF wf]] unfolding dev_ok_def by fastforce
  have dq: "d < length (qv (st_devs s))" using d by simp
  have sq: "snd (qv (st_devs s) ! d) = map (\<lambda>n. rq_pchan (on_request n)) as @ Some p #
      map (\<lambda>n. rq_pchan (on_request n)) bs" using d q p by (simp add: qv_nth)
  note m = move_openq_del [OF drv_wf_refs [OF wf] dq sq]
  have "drv_wf D (hp(p := Suc (hp p))) hv hc (s\<lparr>st_devs := (st_devs s)[d := dv]\<rparr>)"
    by (rule drv_wfI [where own = own])
      (use m own wf d dv in \<open>auto simp: qv_nth drv_wf_def rx_ok_def held_ok_def split: if_splits\<close>)
  with that p show ?thesis by blast
qed

lemma openq_add_wf:
  assumes wf: "drv_wf D hp hv hc s" and p: "st_pchans s p = Some pc" and d: "d < length (st_devs s)"
    and node: "rq_pchan (on_request node) = Some p"
  shows "safe (openq_add d node p s) (drv_wf D hp hv hc)"
proof -
  note g = pchan_get_wf [OF wf p]
  define s1 where "s1 = s\<lparr>st_pchans := (st_pchans s)(p \<mapsto> pc\<lparr>pc_refcount := pc_refcount pc + 1\<rparr>)\<rparr>"
  have g1: "hab_pchan_get p s = Some s1" "drv_wf D (hp(p := Suc (hp p))) hv hc s1"
    using g by (simp_all add: s1_def)
  have d1: "d < length (st_devs s1)" using d by (simp add: s1_def)
  define dv where "dv = (st_devs s1 ! d)\<lparr>dv_openq_list := dv_openq_list (st_devs s1 ! d) @ [node],
    dv_openq_cnt := dv_openq_cnt (st_devs s1 ! d) + 1\<rparr>"
  have "drv_wf D ((hp(p := Suc (hp p)))(p := hp p)) hv hc (s1\<lparr>st_devs := (st_devs s1)[d := dv]\<rparr>)"
    by (rule openq_enter_wf [OF g1(2) _ d1 node]) (simp_all add: dv_def)
  then have "drv_wf D hp hv hc (s1\<lparr>st_devs := (st_devs s1)[d := dv]\<rparr>)" by simp
  then show ?thesis
    unfolding openq_add_def by (simp add: g1(1) safe_mod d1 dv_def del: view_upd)
qed

text \<open>A request received from the other side.\<close>

lemma open_request_add_wf:
  assumes wf: "drv_wf D hp hv hc s" and r: "readable p s" and n: "n \<le> open_data_size"
  shows "safe (hab_open_request_add p n ty s) (\<lambda>(r, s'). drv_wf D hp hv hc s')"
proof -
  from readable_pchan [OF r] obtain pc where p: "st_pchans s p = Some pc" by blast
  obtain ok s1 where k: "kalloc s = (ok, s1)" by fastforce
  have wf1: "drv_wf D hp hv hc s1" using wf k by (simp add: kalloc_wf)
  have r1: "readable p s1" using r k by (simp add: kalloc_readable)
  from read_wf [OF wf1 r1, of n] obtain r b s2 where read: "physical_channel_read p n s1 = Some (r, b, s2)"
    "drv_wf D hp hv hc s2" "readable p s2" "hyp_frame p s1 s2" unfolding safe_ex by auto
  from readable_pchan [OF read(3)] obtain pc2 where p2: "st_pchans s2 p = Some pc2" by blast
  have d: "pc_habdev pc < length (st_devs s2)"
    using pchan_dev [OF wf p] kalloc_frame [OF k] read(4) by (auto simp: hyp_frame_def)
  have "safe (openq_add (pc_habdev pc)
      \<lparr>on_request = \<lparr>rq_type = ty, rq_pchan = Some p, rq_xdata = dec_open_data (into_zeroed open_data_size b)\<rparr>,
       on_age = open_age s2\<rparr> p s2) (drv_wf D hp hv hc)"
    by (rule openq_add_wf [OF read(2) p2 d]) simp
  then show ?thesis
    using p k wf1 read(1,2) n by (auto simp: hab_open_request_add_def elim!: safe_mono)
qed

lemma open_receive_cancel_wf:
  assumes wf: "drv_wf D hp hv hc s" and r: "readable p s" and n: "n \<le> open_data_size"
  shows "safe (hab_open_receive_cancel p n s) (\<lambda>(r, s'). drv_wf D hp hv hc s')"
proof -
  from readable_pchan [OF r] obtain pc where p: "st_pchans s p = Some pc" by blast
  from read_wf [OF wf r, of n] obtain r b s1 where read: "physical_channel_read p n s = Some (r, b, s1)"
    "drv_wf D hp hv hc s1" "readable p s1" "hyp_frame p s s1" unfolding safe_ex by auto
  have d: "pc_habdev pc < length (st_devs s1)"
    using pchan_dev [OF wf p] read(4) by (auto simp: hyp_frame_def)
  show ?thesis
  proof (cases "r = int n")
    case False
    with p read n show ?thesis by (simp add: hab_open_receive_cancel_def)
  next
    case True
    define data where "data = dec_open_data (into_zeroed open_data_size b)"
    show ?thesis
    proof (cases "take_first (cancel_match data) (dv_openq_list (st_devs s1 ! pc_habdev pc))")
      case (Some x)
      then obtain as node bs where t: "take_first (cancel_match data) (dv_openq_list (st_devs s1 ! pc_habdev pc))
          = Some (as, node, bs)" by (cases x) auto
      from take_first_Some [OF t] have q: "dv_openq_list (st_devs s1 ! pc_habdev pc) = as @ node # bs" by simp
      define dv where "dv = (st_devs s1 ! pc_habdev pc)\<lparr>dv_openq_list := as @ bs,
        dv_openq_cnt := dv_openq_cnt (st_devs s1 ! pc_habdev pc) - 1\<rparr>"
      from openq_leave_wf [OF read(2) d q, of dv] obtain q where
        "drv_wf D (hp(q := Suc (hp q))) hv hc (s1\<lparr>st_devs := (st_devs s1)[pc_habdev pc := dv]\<rparr>)"
        by (auto simp: dv_def)
      then have "drv_wf D hp hv hc (s1\<lparr>st_devs := (st_devs s1)[pc_habdev pc := dv]\<rparr>)"
        by (rule drv_wf_mono) simp
      with p read n True t d show ?thesis
        by (simp add: hab_open_receive_cancel_def Let_def data_def dv_def safe_mod get_dev_def)
    next
      case None
      obtain ok s2 where k: "kalloc s1 = (ok, s2)" by fastforce
      have wf2: "drv_wf D hp hv hc s2" using read(2) k by (simp add: kalloc_wf)
      from readable_pchan [of p s2] read(3) kalloc_readable [OF k] obtain pc2 where
        p2: "st_pchans s2 p = Some pc2" by blast
      have d2: "pc_habdev pc < length (st_devs s2)" using d kalloc_frame [OF k] by auto
      have "safe (openq_add (pc_habdev pc)
          \<lparr>on_request = \<lparr>rq_type = payload_code HAB_PAYLOAD_TYPE_INIT_CANCEL, rq_pchan = Some p,
             rq_xdata = data\<lparr>od_ver_proto := 0\<rparr>\<rparr>, on_age = open_age s2\<rparr> p s2) (drv_wf D hp hv hc)"
        by (rule openq_add_wf [OF wf2 p2 d2]) simp
      then show ?thesis
        using p read(1) n True None k wf2 d
        by (auto simp: hab_open_receive_cancel_def Let_def data_def get_dev_def elim!: safe_mono)
    qed
  qed
qed

text \<open>The search of the queue: what it takes out comes with the reference the queue held.\<close>

definition got_request ::
  "(nat \<Rightarrow> nat) \<Rightarrow> (nat \<Rightarrow> nat) \<Rightarrow> (nat \<Rightarrow> nat) \<Rightarrow> hab_open_request option \<Rightarrow> hab_driver \<Rightarrow> bool" where
  "got_request hp hv hc r s = (case r of
      None \<Rightarrow> drv_wf {} hp hv hc s
    | Some q \<Rightarrow> (\<exists>p. rq_pchan q = Some p \<and> drv_wf {} (hp(p := Suc (hp p))) hv hc s))"

lemma put_held:
  assumes "drv_wf D (hp(p := Suc (hp p))) hv hc s"
  shows "safe (hab_pchan_put p s) (\<lambda>s'. drv_wf D hp hv hc s' \<and> st_devs s' = st_devs s \<and> st_ctxs s' = st_ctxs s)"
proof -
  have "(hp(p := Suc (hp p))) p = Suc (hp p)" by simp
  from pchan_put_wf [where p = p, OF assms this] obtain pc where
    "hab_pchan_put p s = Some (s\<lparr>st_pchans := (st_pchans s)(p \<mapsto> pc\<lparr>pc_refcount := pc_refcount pc - 1\<rparr>)\<rparr>)"
    "drv_wf D ((hp(p := Suc (hp p)))(p := hp p)) hv hc
      (s\<lparr>st_pchans := (st_pchans s)(p \<mapsto> pc\<lparr>pc_refcount := pc_refcount pc - 1\<rparr>)\<rparr>)" by metis
  then show ?thesis by simp
qed

text \<open>A property of everything queued at a device is a property of what is taken out.\<close>

definition queue_sat :: "(hab_open_request \<Rightarrow> bool) \<Rightarrow> nat \<Rightarrow> hab_driver \<Rightarrow> bool" where
  "queue_sat K d s \<longleftrightarrow> d < length (st_devs s) \<and>
     (\<forall>n \<in> set (dv_openq_list (st_devs s ! d)). K (on_request n))"

definition taken :: "(hab_open_request \<Rightarrow> bool) \<Rightarrow> hab_open_request \<Rightarrow> hab_open_request option \<Rightarrow> bool" where
  "taken K listen r \<longleftrightarrow> (\<forall>q. r = Some q \<longrightarrow> K q \<and> open_match listen q)"

lemma taken_None [simp]: "taken K listen None"
  by (simp add: taken_def)

lemma queue_sat_cong: "st_devs s' = st_devs s \<Longrightarrow> queue_sat K d s' = queue_sat K d s"
  by (simp add: queue_sat_def)

lemma open_find_loop_wf:
  assumes "drv_wf {} hp hv hc s" "queue_sat K d s" "dv_openq_list (st_devs s ! d) = kept @ ns"
  shows "safe (open_find_loop d listen kept ns s) (\<lambda>(r, s'). got_request hp hv hc r s' \<and>
    queue_sat K d s' \<and> st_ctxs s' = st_ctxs s \<and> taken K listen r)"
  using assms
proof (induction ns arbitrary: kept s)
  case Nil
  then show ?case by (simp add: got_request_def)
next
  case (Cons n ns)
  let ?dv = "st_devs s ! d"
  have d: "d < length (st_devs s)" using Cons.prems(2) by (simp add: queue_sat_def)
  have K: "\<forall>m \<in> set (kept @ n # ns). K (on_request m)"
    using Cons.prems(2) unfolding queue_sat_def Cons.prems(3) by blast
  show ?case
  proof (cases "open_match listen (on_request n)")
    case True
    obtain p where "rq_pchan (on_request n) = Some p" "drv_wf {} (hp(p := Suc (hp p))) hv hc
        (s\<lparr>st_devs := (st_devs s)[d := ?dv\<lparr>dv_openq_list := kept @ ns, dv_openq_cnt := dv_openq_cnt ?dv - 1\<rparr>]\<rparr>)"
      by (rule openq_leave_wf [where dv = "?dv\<lparr>dv_openq_list := kept @ ns, dv_openq_cnt := dv_openq_cnt ?dv - 1\<rparr>",
            OF Cons.prems(1) d Cons.prems(3)]) (simp, simp, blast)
    with True K d show ?thesis by (simp add: safe_mod got_request_def queue_sat_def taken_def ball_Un)
  next
    case no_match: False
    show ?thesis
    proof (cases "on_age n < st_now s + st_now_ns s div 1000000000")
      case False
      with no_match Cons.IH [of s "kept @ [n]"] Cons.prems show ?thesis by simp
    next
      case True
      define s1 where "s1 = s\<lparr>st_devs := (st_devs s)[d := ?dv\<lparr>dv_openq_list := kept @ ns\<rparr>]\<rparr>"
      obtain p where p: "rq_pchan (on_request n) = Some p" "drv_wf {} (hp(p := Suc (hp p))) hv hc s1"
        unfolding s1_def
        by (rule openq_leave_wf [where dv = "?dv\<lparr>dv_openq_list := kept @ ns\<rparr>", OF Cons.prems(1) d Cons.prems(3)])
          (simp, simp, blast)
      from put_held [OF p(2)] obtain s2 where s2: "hab_pchan_put p s1 = Some s2" "drv_wf {} hp hv hc s2"
        "st_devs s2 = st_devs s1" "st_ctxs s2 = st_ctxs s1" unfolding safe_ex by blast
      have "queue_sat K d s2" "dv_openq_list (st_devs s2 ! d) = kept @ ns"
        using d K s2(3) by (simp_all add: s1_def queue_sat_def ball_Un)
      from Cons.IH [OF s2(2) this] have "safe (open_find_loop d listen kept ns s2)
          (\<lambda>(r, s'). got_request hp hv hc r s' \<and> queue_sat K d s' \<and> st_ctxs s' = st_ctxs s \<and> taken K listen r)"
        using s2(4) by (simp add: s1_def)
      moreover have "mod_dev d (\<lambda>dv. dv\<lparr>dv_openq_list := kept @ ns\<rparr>) s = Some s1"
        using d by (simp add: s1_def)
      moreover have "hab_open_request_free (on_request n) s1 = Some s2"
        using p(1) s2(1) by (simp add: hab_open_request_free_def)
      ultimately show ?thesis using no_match True by (simp del: mod_dev_Some)
    qed
  qed
qed

lemma got_request_mem [simp]: "got_request hp hv hc r (s\<lparr>st_mem := m\<rparr>) = got_request hp hv hc r s"
  by (simp add: got_request_def split: option.split)

lemma open_request_find_wf:
  assumes wf: "drv_wf {} hp hv hc s" and q: "queue_sat K d s" and c: "0 < hc c"
    and p: "\<And>p. rq_pchan listen = Some p \<Longrightarrow> 0 < hp p"
  shows "safe (hab_open_request_find c d listen s) (\<lambda>(r, s'). queue_sat K d s' \<and>
    (case r of None \<Rightarrow> drv_wf {} hp hv hc s' | Some q \<Rightarrow> got_request hp hv hc q s' \<and> taken K listen q))"
proof -
  from q have d: "d < length (st_devs s)" by (simp add: queue_sat_def)
  from held_ctx [where hc = hc, OF wf c] obtain cx where cx: "st_ctxs s c = Some cx" by blast
  have "\<exists>b. (case rq_pchan listen of None \<Rightarrow> Some False
      | Some p \<Rightarrow> st_pchans s p \<bind> (\<lambda>pc. Some (pc_closed pc))) = Some b"
  proof (cases "rq_pchan listen")
    case (Some p')
    from held_pchan [where hp = hp, OF wf p [OF Some]] Some show ?thesis by auto
  qed auto
  then obtain b where b: "(case rq_pchan listen of None \<Rightarrow> Some False
      | Some p \<Rightarrow> st_pchans s p \<bind> (\<lambda>pc. Some (pc_closed pc))) = Some b" by blast
  show ?thesis
  proof (cases "cx_closing cx \<or> b")
    case True
    with cx b wf q show ?thesis
      by (simp add: hab_open_request_find_def got_request_def del: bind_eq_Some)
  next
    case False
    from open_find_loop_wf [where hp = hp and kept = "[]", OF wf q, of "dv_openq_list (st_devs s ! d)" listen]
    obtain q s1 where q: "open_find_loop d listen [] (dv_openq_list (st_devs s ! d)) s = Some (q, s1)"
      "got_request hp hv hc q s1" "queue_sat K d s1" "st_ctxs s1 = st_ctxs s" "taken K listen q"
      unfolding safe_ex by auto
    have "\<exists>f. hab_is_forbidden c (Some d) (od_sub_id (rq_xdata listen)) s1 = Some f"
      using cx q(3,4) by (simp add: hab_is_forbidden_def get_dev_def queue_sat_def)
    then obtain f where "hab_is_forbidden c (Some d) (od_sub_id (rq_xdata listen)) s1 = Some f" by blast
    then have "hab_open_request_find c d listen s = Some (if q \<noteq> None \<or> f then Some q else None, s1)"
      using cx b False q(1) d
      by (simp add: hab_open_request_find_def get_dev_def del: bind_eq_Some)
    with q show ?thesis by (auto simp: got_request_def)
  qed
qed

text \<open>
  Listening ends, if it ends, with a result and, when a request was received, with the reference it
  came with.  \<open>-EAGAIN\<close> means that the timeout passed, so the schedule got shorter.
\<close>

definition listen_inv ::
  "(hab_open_request \<Rightarrow> bool) \<Rightarrow> (nat \<Rightarrow> nat) \<Rightarrow> (nat \<Rightarrow> nat) \<Rightarrow> (nat \<Rightarrow> nat) \<Rightarrow> nat \<Rightarrow> hab_driver \<Rightarrow> bool" where
  "listen_inv K hp hv hc d s \<longleftrightarrow> drv_wf {} hp hv hc s \<and> queue_sat K d s"

lemma listen_ret_cases:
  "listen_ret_timeout r f = - EAGAIN \<Longrightarrow> r = WTimeout" "listen_ret_forever r cl f \<noteq> - EAGAIN"
  by (auto simp: listen_ret_timeout_def listen_ret_forever_def split: wait_res.splits if_splits)

lemma got_request_live:
  assumes "got_request hp hv hc q s" "0 < hc c" obtains cx where "st_ctxs s c = Some cx"
proof (cases q)
  case None
  with assms(1) have "drv_wf {} hp hv hc s" by (simp add: got_request_def)
  from held_ctx [where hc = hc, OF this assms(2)] that show ?thesis by blast
next
  case (Some r)
  with assms(1) obtain p where "drv_wf {} (hp(p := Suc (hp p))) hv hc s" by (auto simp: got_request_def)
  from held_ctx [where hc = hc, OF this assms(2)] that show ?thesis by blast
qed

lemma open_listen_wf:
  assumes wf: "listen_inv K hp hv hc d s" and env: "env_ok (listen_inv K hp hv hc d) w" and c: "0 < hc c"
    and p: "\<And>p. rq_pchan listen = Some p \<Longrightarrow> 0 < hp p"
  shows "run_ok (listen_inv K hp hv hc d)
    (\<lambda>(r, q) w' s'. set w' \<subseteq> set w \<and> length w' \<le> length w \<and> (r = - EAGAIN \<longrightarrow> length w' < length w) \<and>
       got_request hp hv hc q s' \<and> queue_sat K d s' \<and> taken K listen q)
    (hab_open_listen c d listen tmo w s)"
  unfolding hab_open_listen_def
proof (rule run_ok_bind [where I = "listen_inv K hp hv hc d"])
  show "run_ok (listen_inv K hp hv hc d)
      (wait_post (listen_inv K hp hv hc d) (\<lambda>q s. got_request hp hv hc q s \<and> queue_sat K d s \<and> taken K listen q)
         True (0 < tmo) w)
      (wait_event (hab_open_request_find c d listen) True (0 < tmo) w s)"
  proof (rule wait_event_ok [OF _ env wf])
    fix s assume "listen_inv K hp hv hc d s"
    then have "drv_wf {} hp hv hc s" "queue_sat K d s" by (simp_all add: listen_inv_def)
    from open_request_find_wf [OF this c p, of listen]
    show "safe (hab_open_request_find c d listen s) (\<lambda>(r, s'). case r of
        None \<Rightarrow> listen_inv K hp hv hc d s'
      | Some q \<Rightarrow> got_request hp hv hc q s' \<and> queue_sat K d s' \<and> taken K listen q)"
      by (auto simp: listen_inv_def elim!: safe_mono split: option.splits)
  qed
next
  fix r w' s'
  assume post: "wait_post (listen_inv K hp hv hc d) (\<lambda>q s. got_request hp hv hc q s \<and> queue_sat K d s \<and> taken K listen q)
         True (0 < tmo) w r w' s'"
  have g: "got_request hp hv hc (wait_request r) s'" "queue_sat K d s'" "taken K listen (wait_request r)"
    using post by (auto simp: wait_post_def wait_request_def listen_inv_def got_request_def
        split: wait_res.splits)
  from got_request_live [OF g(1) c] obtain cx where cx: "st_ctxs s' c = Some cx" .
  have "r = WTimeout \<Longrightarrow> length w' < length w" using post by (simp add: wait_post_def)
  with post g cx listen_ret_cases show "run_ok (listen_inv K hp hv hc d)
    (\<lambda>(r, q) w' s'. set w' \<subseteq> set w \<and> length w' \<le> length w \<and> (r = - EAGAIN \<longrightarrow> length w' < length w) \<and>
       got_request hp hv hc q s' \<and> queue_sat K d s' \<and> taken K listen q)
    (do { cx \<leftarrow> st_ctxs s' c;
          f \<leftarrow> hab_is_forbidden c (Some d) (od_sub_id (rq_xdata listen)) s';
          Some (Done (if 0 < tmo then listen_ret_timeout r f
                      else listen_ret_forever r (cx_closing cx) f, wait_request r) w' s') })"
    by (auto simp: hab_is_forbidden_def get_dev_def wait_post_def queue_sat_def)
qed simp

end
