(* ===== verification/Hab_Msg.thy ===== *)
theory Hab_Msg
  imports Hab_Open
begin

text \<open>
  Received messages (\<^verbatim>\<open>hab_msg.c\<close>): their allocation and queueing, the reader's dequeue, and
  \<^verbatim>\<open>hab_msg_recv\<close>, the dispatch of everything the other side sends.
\<close>

abbreviation (input) PAGE_SIZE :: nat where "PAGE_SIZE \<equiv> 4096"
abbreviation (input) MAX_EXP_PAYLOAD_COUNT :: int where "MAX_EXP_PAYLOAD_COUNT \<equiv> 0xFFFFF"
abbreviation (input) xing_vm_stat_size :: nat where "xing_vm_stat_size \<equiv> 32"

text \<open>C conversions: an int to \<^verbatim>\<open>size_t\<close>, and a \<^verbatim>\<open>size_t\<close> to int.\<close>

definition to_size_t :: "int \<Rightarrow> nat" where
  "to_size_t i = nat (i mod 2 ^ 64)"

definition to_int32 :: "nat \<Rightarrow> int" where
  "to_int32 n = sint (of_nat n :: u32)"

section \<open>Message buffers\<close>

definition hab_rx_queue_empty :: "nat \<Rightarrow> hab_driver \<Rightarrow> bool option" where
  "hab_rx_queue_empty v s = do { vc \<leftarrow> st_vchans s v; Some (vc_rx_list vc = []) }"

text \<open>\<open>n\<close> allocations in a row, up to the first that fails.\<close>

fun kallocs :: "nat \<Rightarrow> hab_driver \<Rightarrow> bool \<times> hab_driver" where
  "kallocs 0 s = (True, s)"
| "kallocs (Suc n) s = (case kalloc s of (ok, s1) \<Rightarrow> if ok then kallocs n s1 else (False, s1))"

fun read_pages ::
  "nat \<Rightarrow> nat list \<Rightarrow> hab_driver \<Rightarrow> (int \<times> msg_page list \<times> hab_driver) option" where
  "read_pages p [] s = Some (0, [], s)"
| "read_pages p (n # ns) s = do {
     (r, b, s1) \<leftarrow> physical_channel_read p n s;
     (t, ps, s2) \<leftarrow> read_pages p ns s1;
     Some (r + t, Pg (into_zeroed n b) # ps, s2)
   }"

definition page_sizes :: "nat \<Rightarrow> nat list" where
  "page_sizes sizebytes = replicate (sizebytes div PAGE_SIZE) PAGE_SIZE @
     (if sizebytes mod PAGE_SIZE = 0 then [] else [sizebytes mod PAGE_SIZE])"

text \<open>All pages are allocated before anything is read: a table, and one block for each page.\<close>

definition hab_scatter_msg_alloc ::
  "nat \<Rightarrow> nat \<Rightarrow> hab_driver \<Rightarrow> (hab_message option \<times> hab_driver) option" where
  "hab_scatter_msg_alloc p sizebytes s =
     (if sizebytes \<le> PAGE_SIZE then Some (None, s)
      else (case kallocs (1 + length (page_sizes sizebytes)) s of (ok, s1) \<Rightarrow>
        if \<not> ok then Some (None, s1)
        else do {
          (t, ps, s2) \<leftarrow> read_pages p (page_sizes sizebytes) s1;
          pc \<leftarrow> st_pchans s2 p;
          Some (Some \<lparr>ms_sizebytes = to_size_t t, ms_sequence_rx = pc_sequence_rx pc,
                      ms_body = Scatter ps\<rparr>, s2)
        }))"

definition hab_msg_alloc ::
  "nat \<Rightarrow> nat \<Rightarrow> hab_driver \<Rightarrow> (hab_message option \<times> hab_driver) option" where
  "hab_msg_alloc p sizebytes s =
     (if HAB_HEADER_SIZE_MAX < sizebytes then Some (None, s)
      else (case kalloc s of (ok, s1) \<Rightarrow>
        if \<not> ok then hab_scatter_msg_alloc p sizebytes s1
        else do {
          (r, b, s2) \<leftarrow> physical_channel_read p sizebytes s1;
          pc \<leftarrow> st_pchans s2 p;
          Some (Some \<lparr>ms_sizebytes = to_size_t r, ms_sequence_rx = pc_sequence_rx pc,
                      ms_body = Flat (into_zeroed sizebytes b)\<rparr>, s2)
        }))"

section \<open>The reader's side\<close>

abbreviation (input) HABMM_SOCKET_RECV_FLAGS_NON_BLOCKING :: u32 where
  "HABMM_SOCKET_RECV_FLAGS_NON_BLOCKING \<equiv> 1"
abbreviation (input) HABMM_SOCKET_RECV_FLAGS_UNINTERRUPTIBLE :: u32 where
  "HABMM_SOCKET_RECV_FLAGS_UNINTERRUPTIBLE \<equiv> 2"
abbreviation (input) HABMM_SOCKET_RECV_FLAGS_TIMEOUT :: u32 where
  "HABMM_SOCKET_RECV_FLAGS_TIMEOUT \<equiv> 4"

definition rx_ready :: "nat \<Rightarrow> hab_driver \<Rightarrow> (unit option \<times> hab_driver) option" where
  "rx_ready v s = do {
     vc \<leftarrow> st_vchans s v;
     Some (if vc_rx_list vc \<noteq> [] \<or> vc_otherend_closed vc then Some () else None, s)
   }"

text \<open>What \<^verbatim>\<open>wait_event_timeout\<close> returns, up to the number of jiffies left.\<close>

definition wait_code :: "'a wait_res \<Rightarrow> int" where
  "wait_code r = (case r of WMet _ \<Rightarrow> 1 | WTimeout \<Rightarrow> 0 | WSignal \<Rightarrow> - ERESTARTSYS)"

text \<open>The part under the lock: the return value, the new \<^verbatim>\<open>*rsize\<close>, the message.\<close>

definition msg_take ::
  "nat \<Rightarrow> int \<Rightarrow> int \<Rightarrow> hab_driver \<Rightarrow> (int \<times> int \<times> hab_message option \<times> hab_driver) option" where
  "msg_take v rsize ret s = do {
     vc \<leftarrow> st_vchans s v;
     (case vc_rx_list vc of
        m # ms \<Rightarrow>
          if ms_sizebytes m \<le> to_size_t rsize then do {
            s1 \<leftarrow> mod_vchan v (\<lambda>vc. vc\<lparr>vc_rx_list := ms\<rparr>) s;
            Some (0, to_int32 (ms_sizebytes m), Some m, s1)
          } else Some (- EOVERFLOW, to_int32 (ms_sizebytes m), None, s)
      | [] \<Rightarrow>
          Some (if vc_otherend_closed vc then - ENODEV
                else if ret = - ERESTARTSYS then - EINTR
                else if ret = 0 then - ETIMEDOUT
                else - EAGAIN, 0, None, s))
   }"

definition hab_msg_dequeue ::
  "nat \<Rightarrow> int \<Rightarrow> u32 \<Rightarrow> wait_ev list \<Rightarrow> hab_driver \<Rightarrow>
     (int \<times> int \<times> hab_message option) run option" where
  "hab_msg_dequeue v rsize flags w s = do {
     empty \<leftarrow> hab_rx_queue_empty v s;
     let wait = (flags AND HABMM_SOCKET_RECV_FLAGS_NON_BLOCKING = 0);
     let sigs = (flags AND HABMM_SOCKET_RECV_FLAGS_UNINTERRUPTIBLE = 0);
     let tmos = (flags AND HABMM_SOCKET_RECV_FLAGS_TIMEOUT \<noteq> 0);
     run_bind
       (if wait \<and> empty
        then run_bind (wait_event (rx_ready v) sigs tmos w s) (\<lambda>r w1 s1. Some (Done (wait_code r) w1 s1))
        else Some (Done (- EAGAIN) w s))
       (\<lambda>ret w1 s1. do {
          (ret', rsize', m, s2) \<leftarrow> msg_take v rsize ret s1;
          Some (Done (ret', rsize', m) w1 s2)
        })
   }"

definition hab_msg_queue :: "nat \<Rightarrow> hab_message \<Rightarrow> hab_driver \<Rightarrow> hab_driver option" where
  "hab_msg_queue v m s = mod_vchan v (\<lambda>vc. vc\<lparr>vc_rx_list := vc_rx_list vc @ [m]\<rparr>) s"

section \<open>Exports and their acknowledgements\<close>

text \<open>The key of a descriptor in the import warehouse: its identifier and its channel.\<close>

definition exp_key :: "export_desc_super \<Rightarrow> imp_key option" where
  "exp_key x = map_option (\<lambda>p. (unat (ex_export_id x), p)) (ex_pchan x)"

text \<open>A new descriptor enters the import warehouse of the channel's context unless its key is taken.\<close>

definition hab_export_enqueue ::
  "nat \<Rightarrow> export_desc_super \<Rightarrow> hab_driver \<Rightarrow> (int \<times> hab_driver) option" where
  "hab_export_enqueue v x s = do {
     vc \<leftarrow> st_vchans s v;
     cx \<leftarrow> st_ctxs s (vc_ctx vc);
     k \<leftarrow> exp_key x;
     if map_of (cx_imp_whse cx) k \<noteq> None then Some (- EINVAL, s)
     else let e = st_next s in do {
       s1 \<leftarrow> mod_ctx (vc_ctx vc) (\<lambda>cx. cx\<lparr>cx_imp_whse := whse_insert k e (cx_imp_whse cx),
                                            cx_import_total := cx_import_total cx + 1\<rparr>) s;
       Some (0, s1\<lparr>st_next := e + 1, st_exps := (st_exps s1)(e \<mapsto> x)\<rparr>)
     }
   }"

definition hab_send_import_ack_fail :: "nat \<Rightarrow> u32 \<Rightarrow> hab_driver \<Rightarrow> (int \<times> hab_driver) option" where
  "hab_send_import_ack_fail v exp_id s = do {
     vc \<leftarrow> st_vchans s v;
     physical_channel_send (vc_pchan vc)
       (mk_header 4 HAB_PAYLOAD_TYPE_IMPORT_ACK_FAIL (vc_otherend_id vc) (vc_session_id vc))
       (Some (enc_u32 exp_id)) s
   }"

text \<open>
  The memory image of a descriptor.  \<open>links\<close> are the two pointers of its list node, which are sent
  with the rest.
\<close>

definition ptr :: "hab_driver \<Rightarrow> nat option \<Rightarrow> u64" where
  "ptr s o' = (case o' of None \<Rightarrow> 0 | Some i \<Rightarrow> st_addr s i)"

definition export_wire :: "hab_driver \<Rightarrow> u64 \<times> u64 \<Rightarrow> export_desc_super \<Rightarrow> export_desc_wire" where
  "export_wire s links x =
     \<lparr>ew_export_id = ex_export_id x, ew_readonly = ex_readonly x, ew_import_index = ex_import_index x,
      ew_vchan = ptr s (ex_vchan x), ew_ctx = ptr s (ex_ctx x), ew_pchan = ptr s (ex_pchan x),
      ew_vcid_local = ex_vcid_local x, ew_vcid_remote = ex_vcid_remote x,
      ew_domid_local = ex_domid_local x, ew_domid_remote = ex_domid_remote x, ew_flags = ex_flags x,
      ew_node_next = fst links, ew_node_prev = snd links, ew_kva = ex_kva x,
      ew_payload_count = ex_payload_count x\<rparr>"

definition export_image :: "hab_driver \<Rightarrow> u64 \<times> u64 \<Rightarrow> export_desc_super \<Rightarrow> bytes" where
  "export_image s links x = enc_export_desc (export_wire s links x) @ ex_payload x"

text \<open>The neighbours of a node in a circular list with its head.\<close>

definition list_links :: "nat \<Rightarrow> nat \<Rightarrow> nat list \<Rightarrow> hab_driver \<Rightarrow> u64 \<times> u64" where
  "list_links head e es s = (case take_first (\<lambda>x. x = e) es of
      None \<Rightarrow> (0, 0)
    | Some (as, _, bs) \<Rightarrow>
        (st_addr s (case bs of [] \<Rightarrow> head | b # _ \<Rightarrow> b),
         st_addr s (if as = [] then head else last as)))"

definition export_links :: "nat \<Rightarrow> export_desc_super \<Rightarrow> hab_driver \<Rightarrow> u64 \<times> u64" where
  "export_links e x s = (case ex_ctx x of
      None \<Rightarrow> (0, 0)
    | Some c \<Rightarrow> (case st_ctxs s c of
          None \<Rightarrow> (0, 0)
        | Some cx \<Rightarrow> list_links c e (cx_exp_whse cx) s))"

definition hab_send_import_ack :: "nat \<Rightarrow> nat \<Rightarrow> hab_driver \<Rightarrow> (int \<times> hab_driver) option" where
  "hab_send_import_ack v e s = do {
     vc \<leftarrow> st_vchans s v;
     x \<leftarrow> st_exps s e;
     let sizebytes = of_nat export_desc_size + ex_payload_size x;
     let links = export_links e x s;
     let x1 = x\<lparr>ex_pchan := None, ex_vchan := None, ex_ctx := None\<rparr>;
     s1 \<leftarrow> mod_exp e (\<lambda>_. x1) s;
     (r, s2) \<leftarrow> physical_channel_send (vc_pchan vc)
        (mk_header (unat sizebytes) HAB_PAYLOAD_TYPE_IMPORT_ACK (vc_otherend_id vc) (vc_session_id vc))
        (Some (export_image s1 links x1)) s1;
     s3 \<leftarrow> mod_exp e (\<lambda>x. x\<lparr>ex_pchan := Some (vc_pchan vc), ex_vchan := Some v,
                               ex_ctx := Some (vc_ctx vc)\<rparr>) s2;
     Some (r, s3)
   }"

text \<open>An acknowledgement for a local importer, in the queue of the channel's context.\<close>

definition imp_rxq_add :: "nat \<Rightarrow> hab_import_ack \<Rightarrow> hab_driver \<Rightarrow> hab_driver option" where
  "imp_rxq_add c a s = mod_ctx c (\<lambda>cx. cx\<lparr>cx_imp_rxq := cx_imp_rxq cx @ [(a, 0)]\<rparr>) s"

definition hab_create_invalid_ack :: "nat \<Rightarrow> u32 \<Rightarrow> hab_driver \<Rightarrow> hab_driver option" where
  "hab_create_invalid_ack v export_id s = do {
     vc \<leftarrow> st_vchans s v;
     (case kalloc s of (ok, s1) \<Rightarrow>
        if \<not> ok then Some s1
        else imp_rxq_add (vc_ctx vc)
          \<lparr>ia_export_id = export_id, ia_vcid_local = vc_id vc, ia_vcid_remote = vc_otherend_id vc,
           ia_imp_whse_added = 0\<rparr> s1)
   }"

definition hab_receive_import_ack_fail :: "nat \<Rightarrow> nat \<Rightarrow> hab_driver \<Rightarrow> (int \<times> hab_driver) option" where
  "hab_receive_import_ack_fail p v s = do {
     (r, b, s1) \<leftarrow> physical_channel_read p 4 s;
     vc \<leftarrow> st_vchans s1 v;
     (case kalloc s1 of (ok, s2) \<Rightarrow>
        if \<not> ok then Some (- ENOMEM, s2)
        else do {
          s3 \<leftarrow> imp_rxq_add (vc_ctx vc)
            \<lparr>ia_export_id = dec_u32 (into_zeroed 4 b), ia_vcid_local = vc_id vc,
             ia_vcid_remote = vc_otherend_id vc, ia_imp_whse_added = 0\<rparr> s2;
          Some (0, s3)
        })
   }"

definition hab_send_export_ack ::
  "nat \<Rightarrow> nat \<Rightarrow> export_desc_super \<Rightarrow> hab_driver \<Rightarrow> (int \<times> hab_driver) option" where
  "hab_send_export_ack v p x s = do {
     vc \<leftarrow> st_vchans s v;
     physical_channel_send p
       (mk_header export_ack_size HAB_PAYLOAD_TYPE_EXPORT_ACK (ex_vcid_local x) (vc_session_id vc))
       (Some (enc_export_ack \<lparr>ea_export_id = ex_export_id x, ea_vcid_local = ex_vcid_local x,
                               ea_vcid_remote = ex_vcid_remote x\<rparr>)) s
   }"

definition hab_receive_create_export_ack ::
  "nat \<Rightarrow> nat \<Rightarrow> nat \<Rightarrow> hab_driver \<Rightarrow> (int \<times> hab_driver) option" where
  "hab_receive_create_export_ack p c sizebytes s =
     (case kalloc s of (ok, s1) \<Rightarrow>
        if \<not> ok then Some (- ENOMEM, s1)
        else if export_ack_size < sizebytes then Some (- EINVAL, s1)
        else do {
          (r, b, s2) \<leftarrow> physical_channel_read p sizebytes s1;
          if r \<noteq> int sizebytes then Some (- EIO, s2)
          else if sizebytes = export_ack_size then do {
            s3 \<leftarrow> mod_ctx c (\<lambda>cx. cx\<lparr>cx_exp_rxq := cx_exp_rxq cx @
                    [(dec_export_ack (into_zeroed export_ack_size b), 0)]\<rparr>) s2;
            Some (0, s3)
          } else Some (- EINVAL, s2)
        })"

section \<open>Received export descriptors\<close>

text \<open>
  The descriptor read from the channel into zeroed memory.  The pointers it arrived with are words of
  the other side; the only one the code sets, and reads, is \<^verbatim>\<open>pchan\<close>.
\<close>

definition export_of_bytes :: "bytes \<Rightarrow> export_desc_super" where
  "export_of_bytes b = (let w = dec_export_desc b in
     \<lparr>ex_refcount = 0, ex_dmabuf = None, ex_payload_size = 0, ex_import_state = EXP_DESC_INIT,
      ex_exp_state = HAB_EXP_EXPORTING, ex_remote_imported = False, ex_export_id = ew_export_id w,
      ex_readonly = ew_readonly w, ex_import_index = ew_import_index w, ex_vchan = None, ex_ctx = None,
      ex_pchan = None, ex_vcid_local = ew_vcid_local w, ex_vcid_remote = ew_vcid_remote w,
      ex_domid_local = ew_domid_local w, ex_domid_remote = ew_domid_remote w, ex_flags = ew_flags w,
      ex_kva = ew_kva w, ex_payload_count = ew_payload_count w,
      ex_payload = drop export_desc_payload_off b\<rparr>)"

definition export_localize ::
  "nat \<Rightarrow> physical_channel \<Rightarrow> virtual_channel \<Rightarrow> export_desc_super \<Rightarrow> export_desc_super" where
  "export_localize p pc vc x =
     (let x1 = x\<lparr>ex_domid_remote := of_int (pc_vmid_remote pc), ex_domid_local := of_int (pc_vmid_local pc),
                 ex_pchan := Some p\<rparr>
      in if pc_mem_proto pc = 1
         then x1\<lparr>ex_vcid_remote := ex_vcid_local x1, ex_vcid_local := vc_id vc\<rparr> else x1)"

definition exp_nregions :: "export_desc_super \<Rightarrow> int" where
  "exp_nregions x = sint (field32 8 (ex_payload x))"

text \<open>
  The checks of the table of regions, in order; the message has to be exactly as long as the number
  of regions says.
\<close>

definition export_desc_valid :: "export_desc_super \<Rightarrow> nat \<Rightarrow> bool" where
  "export_desc_valid x sizebytes \<longleftrightarrow>
     \<not> exp_nregions x \<le> 0 \<and>
     \<not> sint (ex_payload_count x) < exp_nregions x \<and>
     \<not> MAX_EXP_PAYLOAD_COUNT < sint (ex_payload_count x) \<and>
     sizebytes = export_desc_size + compressed_pfns_size + nat (exp_nregions x) * region_size"

text \<open>The common failure path: wake the local importer, tell the remote, drop the descriptor.\<close>

definition export_desc_reject ::
  "nat \<Rightarrow> physical_channel \<Rightarrow> u32 \<Rightarrow> hab_driver \<Rightarrow> hab_driver option" where
  "export_desc_reject v pc export_id s =
     (if pc_mem_proto pc = 1 then do {
        s1 \<leftarrow> hab_create_invalid_ack v export_id s;
        hab_send_unimport_msg v export_id s1
      } else Some s)"

definition hab_receive_export_desc ::
  "nat \<Rightarrow> nat \<Rightarrow> nat \<Rightarrow> hab_driver \<Rightarrow> (int \<times> hab_driver) option" where
  "hab_receive_export_desc p v sizebytes s =
     (if HAB_HEADER_SIZE_MAX < sizebytes \<or> sizebytes < export_desc_size + compressed_pfns_size
      then Some (- EINVAL, s)
      else (case kalloc s of (ok, s1) \<Rightarrow>
        if \<not> ok then Some (- ENOMEM, s1)
        else do {
          (r, b, s2) \<leftarrow> physical_channel_read p sizebytes s1;
          if r \<noteq> int sizebytes then Some (- EIO, s2)
          else do {
            pc \<leftarrow> st_pchans s2 p;
            vc \<leftarrow> st_vchans s2 v;
            let x = export_localize p pc vc (export_of_bytes (into_zeroed sizebytes b));
            if \<not> export_desc_valid x sizebytes then do {
              s3 \<leftarrow> export_desc_reject v pc (ex_export_id x) s2;
              Some (- EINVAL, s3)
            } else if pc_mem_proto pc = 1 then
              (case kalloc s2 of (ok2, s3) \<Rightarrow>
                if \<not> ok2 then do {
                  s4 \<leftarrow> export_desc_reject v pc (ex_export_id x) s3;
                  Some (- ENOMEM, s4)
                } else do {
                  (ret, s4) \<leftarrow> hab_export_enqueue v x s3;
                  s5 \<leftarrow> imp_rxq_add (vc_ctx vc)
                    \<lparr>ia_export_id = ex_export_id x, ia_vcid_local = ex_vcid_local x,
                     ia_vcid_remote = ex_vcid_remote x,
                     ia_imp_whse_added = (if ret \<noteq> 0 then 0 else 1)\<rparr> s4;
                  Some (ret, s5)
                })
            else do {
              (ret, s3) \<leftarrow> hab_export_enqueue v x s2;
              (r2, s4) \<leftarrow> hab_send_export_ack v p x s3;
              Some (ret, s4)
            }
          }
        }))"

definition hab_msg_drop :: "nat \<Rightarrow> nat \<Rightarrow> hab_driver \<Rightarrow> hab_driver option" where
  "hab_msg_drop p sizebytes s =
     (if HAB_HEADER_SIZE_MAX < sizebytes then Some s
      else (case kalloc s of (ok, s1) \<Rightarrow>
        if \<not> ok then Some s1
        else do { (r, b, s2) \<leftarrow> physical_channel_read p sizebytes s1; Some s2 }))"

text \<open>Dropping a message that has a payload, and returning a code.\<close>

definition drop_ret :: "nat \<Rightarrow> nat \<Rightarrow> int \<Rightarrow> hab_driver \<Rightarrow> (int \<times> hab_driver) option" where
  "drop_ret p sizebytes ret s = do {
     s1 \<leftarrow> (if sizebytes \<noteq> 0 then hab_msg_drop p sizebytes s else Some s);
     Some (ret, s1)
   }"

text \<open>The remote gives an import back; the cleanup of the reclaim list is only scheduled here.\<close>

definition hab_recv_unimport_msg :: "nat \<Rightarrow> hab_driver \<Rightarrow> hab_driver option" where
  "hab_recv_unimport_msg p s = do {
     (r, b, s1) \<leftarrow> physical_channel_read p 4 s;
     pc \<leftarrow> st_pchans s1 p;
     let exp_id = dec_u32 (into_zeroed 4 b);
     (case idr_find (pc_expid_idr pc) (unat exp_id) of
        None \<Rightarrow> Some s1
      | Some e \<Rightarrow> do {
          x \<leftarrow> st_exps s1 e;
          if exp_id = ex_export_id x \<and> ex_pchan x = Some p \<and> ex_remote_imported x
          then mod_exp e (\<lambda>x. x\<lparr>ex_remote_imported := False\<rparr>) s1
          else Some s1
        })
   }"

section \<open>The dispatch\<close>

definition is_open_type :: "u32 \<Rightarrow> bool" where
  "is_open_type t \<longleftrightarrow> t = payload_code HAB_PAYLOAD_TYPE_INIT \<or> t = payload_code HAB_PAYLOAD_TYPE_INIT_ACK \<or>
     t = payload_code HAB_PAYLOAD_TYPE_INIT_DONE \<or> t = payload_code HAB_PAYLOAD_TYPE_INIT_CANCEL"

definition recv_message :: "nat \<Rightarrow> nat \<Rightarrow> nat \<Rightarrow> hab_driver \<Rightarrow> hab_driver option" where
  "recv_message p v sizebytes s = do {
     (m, s1) \<leftarrow> hab_msg_alloc p sizebytes s;
     (case m of None \<Rightarrow> Some s1 | Some m \<Rightarrow> hab_msg_queue v m s1)
   }"

text \<open>
  Writing the word at byte \<open>off\<close> of \<^verbatim>\<open>message->data\<close>: in a scattered message that memory is the table of
  page pointers.
\<close>

definition stamp_message :: "nat \<Rightarrow> u64 \<Rightarrow> hab_message \<Rightarrow> hab_message option" where
  "stamp_message off w m = (case ms_body m of
      Flat b \<Rightarrow> do { b' \<leftarrow> patch64 off w b; Some (m\<lparr>ms_body := Flat b'\<rparr>) }
    | Scatter ps \<Rightarrow>
        if off div 8 < length ps then Some (m\<lparr>ms_body := Scatter (ps[off div 8 := Wild w])\<rparr>) else None)"

definition recv_profile :: "nat \<Rightarrow> nat \<Rightarrow> nat \<Rightarrow> hab_driver \<Rightarrow> hab_driver option" where
  "recv_profile p v sizebytes s =
     (if sizebytes < xing_vm_stat_size then Some s
      else do {
        (m, s1) \<leftarrow> hab_msg_alloc p sizebytes s;
        (case m of
           None \<Rightarrow> Some s1
         | Some m \<Rightarrow> do {
             m1 \<leftarrow> stamp_message 16 (of_int (st_now s)) m;
             m2 \<leftarrow> stamp_message 24 (of_int (st_now_ns s div 1000)) m1;
             hab_msg_queue v m2 s1
           })
      })"

definition recv_sche :: "nat \<Rightarrow> nat \<Rightarrow> nat \<Rightarrow> hab_driver \<Rightarrow> hab_driver option" where
  "recv_sche p v sizebytes s =
     (if sizebytes < 8 then Some s
      else do {
        (m, s1) \<leftarrow> hab_msg_alloc p sizebytes s;
        (case m of
           None \<Rightarrow> Some s1
         | Some m \<Rightarrow> do { m1 \<leftarrow> stamp_message 0 (st_sclk s) m; hab_msg_queue v m1 s1 })
      })"

text \<open>An import request: answered with the descriptor, or with a refusal.\<close>

definition recv_import :: "nat \<Rightarrow> nat \<Rightarrow> hab_driver \<Rightarrow> hab_driver option" where
  "recv_import p v s = do {
     (r, b, s1) \<leftarrow> physical_channel_read p import_data_size s;
     if r \<noteq> int import_data_size then Some s1
     else do {
       pc \<leftarrow> st_pchans s1 p;
       let req = dec_import_data (into_zeroed import_data_size b);
       x \<leftarrow> (case idr_find (pc_expid_idr pc) (unat (id_exp_id req)) of
               None \<Rightarrow> Some None
             | Some e \<Rightarrow> do { x \<leftarrow> st_exps s1 e; Some (Some (e, x)) });
       (case x of
          Some (e, x) \<Rightarrow>
            if id_page_cnt req = ex_payload_count x \<and> ex_exp_state x = HAB_EXP_SUCCESS then do {
              s2 \<leftarrow> mod_exp e (\<lambda>x. x\<lparr>ex_remote_imported := True\<rparr>) s1;
              (r2, s3) \<leftarrow> hab_send_import_ack v e s2;
              Some s3
            } else do { (r2, s2) \<leftarrow> hab_send_import_ack_fail v (id_exp_id req) s1; Some s2 }
        | None \<Rightarrow> do { (r2, s2) \<leftarrow> hab_send_import_ack_fail v (id_exp_id req) s1; Some s2 })
     }
   }"

text \<open>The cases of the switch that have a virtual channel.\<close>

definition recv_vchan_msg ::
  "nat \<Rightarrow> nat \<Rightarrow> u32 \<Rightarrow> nat \<Rightarrow> hab_driver \<Rightarrow> (int \<times> hab_driver) option" where
  "recv_vchan_msg p v ty sizebytes s = (case payload_of_code ty of
      Some HAB_PAYLOAD_TYPE_MSG \<Rightarrow> do { s1 \<leftarrow> recv_message p v sizebytes s; Some (0, s1) }
    | Some HAB_PAYLOAD_TYPE_SCHE_RESULT_REQ \<Rightarrow> do { s1 \<leftarrow> recv_message p v sizebytes s; Some (0, s1) }
    | Some HAB_PAYLOAD_TYPE_SCHE_RESULT_RSP \<Rightarrow> do { s1 \<leftarrow> recv_message p v sizebytes s; Some (0, s1) }
    | Some HAB_PAYLOAD_TYPE_EXPORT \<Rightarrow> hab_receive_export_desc p v sizebytes s
    | Some HAB_PAYLOAD_TYPE_EXPORT_ACK \<Rightarrow> do {
        vc \<leftarrow> st_vchans s v;
        hab_receive_create_export_ack p (vc_ctx vc) sizebytes s
      }
    | Some HAB_PAYLOAD_TYPE_CLOSE \<Rightarrow> do { s1 \<leftarrow> hab_vchan_stop v s; Some (0, s1) }
    | Some HAB_PAYLOAD_TYPE_PROFILE \<Rightarrow> do { s1 \<leftarrow> recv_profile p v sizebytes s; Some (0, s1) }
    | Some HAB_PAYLOAD_TYPE_SCHE_MSG \<Rightarrow> do { s1 \<leftarrow> recv_sche p v sizebytes s; Some (0, s1) }
    | Some HAB_PAYLOAD_TYPE_SCHE_MSG_ACK \<Rightarrow> do { s1 \<leftarrow> recv_sche p v sizebytes s; Some (0, s1) }
    | Some HAB_PAYLOAD_TYPE_IMPORT \<Rightarrow> do { s1 \<leftarrow> recv_import p v s; Some (0, s1) }
    | Some HAB_PAYLOAD_TYPE_IMPORT_ACK \<Rightarrow> hab_receive_export_desc p v sizebytes s
    | Some HAB_PAYLOAD_TYPE_IMPORT_ACK_FAIL \<Rightarrow> hab_receive_import_ack_fail p v s
    | Some HAB_PAYLOAD_TYPE_UNIMPORT \<Rightarrow> do { s1 \<leftarrow> hab_recv_unimport_msg p s; Some (0, s1) }
    | _ \<Rightarrow> Some (0, s))"

definition hab_msg_recv :: "nat \<Rightarrow> hab_header \<Rightarrow> hab_driver \<Rightarrow> (int \<times> hab_driver) option" where
  "hab_msg_recv p header s =
     (let sizebytes = unat (HAB_HEADER_GET_SIZE header);
          ty = HAB_HEADER_GET_TYPE header
      in if \<not> is_open_type ty then do {
           (r, s1) \<leftarrow> hab_vchan_get p header s;
           (case r of
              None \<Rightarrow>
                if ty = payload_code HAB_PAYLOAD_TYPE_UNIMPORT then do {
                  s2 \<leftarrow> hab_recv_unimport_msg p s1;
                  Some (0, s2)
                } else drop_ret p sizebytes (- EINVAL) s1
            | Some v \<Rightarrow> do {
                vc \<leftarrow> st_vchans s1 v;
                if vc_otherend_closed vc then do {
                  s2 \<leftarrow> hab_vchan_put v s1;
                  drop_ret p sizebytes (- ENODEV) s2
                } else do {
                  (ret, s2) \<leftarrow> recv_vchan_msg p v ty sizebytes s1;
                  s3 \<leftarrow> hab_vchan_put v s2;
                  Some (ret, s3)
                }
              })
         }
         else if sizebytes \<noteq> open_data_size then drop_ret p sizebytes (- ENODEV) s
         else if ty = payload_code HAB_PAYLOAD_TYPE_INIT_CANCEL then hab_open_receive_cancel p sizebytes s
         else hab_open_request_add p sizebytes ty s)"

end
