(* ===== verification/Hab_Mimex.thy ===== *)
theory Hab_Mimex
  imports Hab_Msg
begin

text \<open>
  Exporting and importing memory (\<^verbatim>\<open>hab_mimex.c\<close>, and the grant functions of
  \<^verbatim>\<open>os/linux/hab_mem_linux.c\<close>).  In the old memory protocol (0) the exporter sends the descriptor and
  waits for an acknowledgement; in the new one (1) it only keeps the descriptor, and the importer asks
  for it and waits.  The parameters and their fields are those of \<^verbatim>\<open>hab_ioctl.h\<close>.
\<close>

record hab_export =
  he_buffer :: u64
  he_vcid :: u32
  he_sizebytes :: u32
  he_exportid :: u32
  he_flags :: u32

record hab_import =
  hi_index :: u64
  hi_kva :: u64
  hi_vcid :: u32
  hi_sizebytes :: u32
  hi_exportid :: u32
  hi_flags :: u32

record hab_unexport =
  hu_vcid :: u32
  hu_exportid :: u32

record hab_unimport =
  hn_vcid :: u32
  hn_exportid :: u32
  hn_kva :: u64

text \<open>
  What the handlers learn from the rest of the kernel: which frame numbers are device memory, the
  frames behind a user or a kernel address, and what an uninitialised local variable holds.
\<close>

record kernel_view =
  kv_pfn_valid :: "u64 \<Rightarrow> bool"
  kv_user_pages :: "u64 \<Rightarrow> nat \<Rightarrow> u64 list"
  kv_kva_pages :: "u64 \<Rightarrow> nat \<Rightarrow> u64 list"
  kv_stack :: int

section \<open>Acknowledgement queues\<close>

text \<open>
  The walk of both queues: the first match is taken off and ends the walk; every acknowledgement
  passed on the way grows older and is dropped beyond the threshold.
\<close>

abbreviation (input) Q_AGE_MAX :: int where "Q_AGE_MAX \<equiv> 1000000"

fun ack_walk :: "('a \<Rightarrow> bool) \<Rightarrow> ('a \<times> int) list \<Rightarrow> 'a option \<times> ('a \<times> int) list" where
  "ack_walk P [] = (None, [])"
| "ack_walk P ((a, age) # q) =
     (if P a then (Some a, q)
      else (case ack_walk P q of (r, q') \<Rightarrow>
        (r, if Q_AGE_MAX < age + 1 then q' else (a, age + 1) # q')))"

definition import_ack_match :: "hab_import_ack \<Rightarrow> hab_import_ack \<Rightarrow> bool" where
  "import_ack_match expect a \<longleftrightarrow> ia_export_id a = ia_export_id expect \<and>
     ia_vcid_local a = ia_vcid_local expect \<and> ia_vcid_remote a = ia_vcid_remote expect"

text \<open>
  The condition is met by the acknowledgement, whose \<^verbatim>\<open>imp_whse_added\<close> is handed over, or, without one,
  by a remote close, which leaves \<^verbatim>\<open>scan_imp_whse\<close> as it was.
\<close>

definition hab_import_ack_find ::
  "nat \<Rightarrow> hab_import_ack \<Rightarrow> nat \<Rightarrow> hab_driver \<Rightarrow> (u32 option option \<times> hab_driver) option" where
  "hab_import_ack_find c expect v s = do {
     cx \<leftarrow> st_ctxs s c;
     vc \<leftarrow> st_vchans s v;
     (case ack_walk (import_ack_match expect) (cx_imp_rxq cx) of (r, q) \<Rightarrow> do {
        s1 \<leftarrow> mod_ctx c (\<lambda>cx. cx\<lparr>cx_imp_rxq := q\<rparr>) s;
        Some (case r of
            Some a \<Rightarrow> Some (Some (ia_imp_whse_added a))
          | None \<Rightarrow> if vc_otherend_closed vc then Some None else None, s1)
      })
   }"

definition ack_wait_ret :: "'a wait_res \<Rightarrow> bool \<Rightarrow> int" where
  "ack_wait_ret r closed = (case r of
      WTimeout \<Rightarrow> - EAGAIN
    | WSignal \<Rightarrow> - EAGAIN
    | WMet _ \<Rightarrow> if closed then - ENODEV else 0)"

text \<open>The result and \<^verbatim>\<open>scan_imp_whse\<close>, which the caller initialised to 0.\<close>

definition hab_import_ack_wait ::
  "nat \<Rightarrow> hab_import_ack \<Rightarrow> nat \<Rightarrow> wait_ev list \<Rightarrow> hab_driver \<Rightarrow> (int \<times> u32) run option" where
  "hab_import_ack_wait c expect v w s =
     run_bind (wait_event (hab_import_ack_find c expect v) True True w s) (\<lambda>r w1 s1. do {
       vc \<leftarrow> st_vchans s1 v;
       Some (Done (ack_wait_ret r (vc_otherend_closed vc),
                   case r of WMet (Some scan) \<Rightarrow> scan | _ \<Rightarrow> 0) w1 s1)
     })"

text \<open>
  On the exporting side a remote close counts as a match of whatever acknowledgement is at the front;
  an empty queue does not end the wait.
\<close>

definition hab_export_ack_find ::
  "nat \<Rightarrow> hab_export_ack \<Rightarrow> nat \<Rightarrow> hab_driver \<Rightarrow> (unit option \<times> hab_driver) option" where
  "hab_export_ack_find c expect v s = do {
     cx \<leftarrow> st_ctxs s c;
     vc \<leftarrow> st_vchans s v;
     (case ack_walk (\<lambda>a. a = expect \<or> vc_otherend_closed vc) (cx_exp_rxq cx) of (r, q) \<Rightarrow> do {
        s1 \<leftarrow> mod_ctx c (\<lambda>cx. cx\<lparr>cx_exp_rxq := q\<rparr>) s;
        Some (map_option (\<lambda>_. ()) r, s1)
      })
   }"

definition hab_export_ack_wait ::
  "nat \<Rightarrow> hab_export_ack \<Rightarrow> nat \<Rightarrow> wait_ev list \<Rightarrow> hab_driver \<Rightarrow> int run option" where
  "hab_export_ack_wait c expect v w s =
     run_bind (wait_event (hab_export_ack_find c expect v) True True w s) (\<lambda>r w1 s1. do {
       vc \<leftarrow> st_vchans s1 v;
       Some (Done (ack_wait_ret r (vc_otherend_closed vc)) w1 s1)
     })"

section \<open>Making an export descriptor\<close>

text \<open>
  \<open>extra\<close> is the number of bytes asked for beyond the structure.  The result of \<^verbatim>\<open>idr_alloc_cyclic\<close> is
  stored unchecked: an error number becomes the identifier.
\<close>

definition export_new ::
  "u32 \<Rightarrow> u32 \<Rightarrow> nat \<Rightarrow> nat \<Rightarrow> virtual_channel \<Rightarrow> physical_channel \<Rightarrow> export_desc_super" where
  "export_new export_id flags extra v vc pc =
     (let proto1 = (pc_mem_proto pc = 1)
      in \<lparr>ex_refcount = 0, ex_dmabuf = None, ex_payload_size = 0, ex_import_state = EXP_DESC_INIT,
          ex_exp_state = HAB_EXP_EXPORTING, ex_remote_imported = False, ex_export_id = export_id,
          ex_readonly = flags, ex_import_index = 0, ex_vchan = (if proto1 then Some v else None),
          ex_ctx = (if proto1 then Some (vc_ctx vc) else None),
          ex_pchan = (if proto1 then Some (vc_pchan vc) else None),
          ex_vcid_local = vc_id vc, ex_vcid_remote = vc_otherend_id vc,
          ex_domid_local = of_int (pc_vmid_local pc), ex_domid_remote = of_int (pc_vmid_remote pc),
          ex_flags = 0, ex_kva = 0, ex_payload_count = 0, ex_payload = replicate (1 + extra) 0\<rparr>)"

definition expid_alloc :: "nat \<Rightarrow> nat \<Rightarrow> hab_driver \<Rightarrow> (u32 \<times> hab_driver) option" where
  "expid_alloc p e s = do {
     pc \<leftarrow> st_pchans s p;
     (case kalloc s of (ok, s1) \<Rightarrow>
        if \<not> ok then Some (of_int (- ENOMEM), s1)
        else (case idr_alloc_cyclic (pc_expid_idr pc) (pc_expid_next pc) e 1 (2 ^ 31) of
            None \<Rightarrow> Some (of_int (- 28), s1)
          | Some (i, m) \<Rightarrow> do {
              s2 \<leftarrow> mod_pchan p (\<lambda>pc. pc\<lparr>pc_expid_idr := m, pc_expid_next := i + 1\<rparr>) s1;
              Some (of_nat i, s2)
            }))
   }"

definition habmem_add_export ::
  "nat \<Rightarrow> nat \<Rightarrow> u32 \<Rightarrow> hab_driver \<Rightarrow> (nat option \<times> hab_driver) option" where
  "habmem_add_export v extra flags s =
     (case kalloc s of (ok, s1) \<Rightarrow>
        if \<not> ok then Some (None, s1)
        else do {
          vc \<leftarrow> st_vchans s1 v;
          let e = st_next s1;
          (i, s2) \<leftarrow> expid_alloc (vc_pchan vc) e (s1\<lparr>st_next := e + 1\<rparr>);
          pc \<leftarrow> st_pchans s2 (vc_pchan vc);
          Some (Some e, s2\<lparr>st_exps := (st_exps s2)(e \<mapsto> export_new i flags extra v vc pc)\<rparr>)
        })"

text \<open>Memory operations on the state of \<^verbatim>\<open>Hab_Mem\<close> inside the driver.\<close>

definition put_buf :: "nat \<Rightarrow> hab_driver \<Rightarrow> hab_driver" where
  "put_buf d s = s\<lparr>st_hyp_mem := dma_buf_put d (st_hyp_mem s)\<rparr>"

text \<open>
  \<^verbatim>\<open>habmem_add_export_compress\<close>: the result, \<^verbatim>\<open>payload_size\<close> and \<^verbatim>\<open>export_id\<close>.  Its failure path takes
  the lock of \<^verbatim>\<open>export->pchan\<close>: \<^verbatim>\<open>export\<close> is still NULL when the platform data could not be allocated,
  and \<^verbatim>\<open>pchan\<close> is NULL in the old protocol; both are faults.
\<close>

definition habmem_add_export_compress ::
  "nat \<Rightarrow> u64 \<Rightarrow> nat \<Rightarrow> nat \<Rightarrow> u32 \<Rightarrow> hab_driver \<Rightarrow> ((int \<times> nat \<times> u32) \<times> hab_driver) option" where
  "habmem_add_export_compress v offset page_count buf flags s = do {
     (r, s1) \<leftarrow> habmem_add_export v (compressed_pfns_size + page_count * region_size) flags s;
     (case r of
        None \<Rightarrow> Some ((- ENOMEM, 0, 0), put_buf buf s1)
      | Some e \<Rightarrow> (case kalloc s1 of (ok, s2) \<Rightarrow>
          if \<not> ok then None
          else do {
            s3 \<leftarrow> mod_exp e (\<lambda>x. x\<lparr>ex_payload_count := of_nat page_count, ex_dmabuf := Some buf,
                                     ex_refcount := 1\<rparr>) s2;
            x \<leftarrow> st_exps s3 e;
            (cr, m) \<leftarrow> habmem_compress_pfns buf offset page_count (st_hyp_mem s3);
            let s4 = s3\<lparr>st_hyp_mem := m\<rparr>;
            (case cr of
               Inr (sz, t) \<Rightarrow> do {
                 s5 \<leftarrow> mod_exp e (\<lambda>x. x\<lparr>ex_payload := enc_pfns t @ drop (length (enc_pfns t)) (ex_payload x)\<rparr>) s4;
                 Some ((0, sz, ex_export_id x), s5)
               }
             | Inl err \<Rightarrow> (case ex_pchan x of
                   None \<Rightarrow> None
                 | Some _ \<Rightarrow> do {
                     vc \<leftarrow> st_vchans s4 v;
                     s5 \<leftarrow> expid_remove (vc_pchan vc) (ex_export_id x) s4;
                     Some ((err, 0, 0), put_buf buf (s5\<lparr>st_exps := (st_exps s5)(e := None)\<rparr>))
                   }))
          }))
   }"

definition has_flag :: "u32 \<Rightarrow> u32 \<Rightarrow> bool" where
  "has_flag flags f \<longleftrightarrow> flags AND f \<noteq> 0"

text \<open>The buffer of a user's or a kernel client's address.\<close>

definition habmem_hyp_grant_user ::
  "kernel_view \<Rightarrow> nat \<Rightarrow> u64 \<Rightarrow> nat \<Rightarrow> u32 \<Rightarrow> hab_driver \<Rightarrow> ((int \<times> nat \<times> u32) \<times> hab_driver) option" where
  "habmem_hyp_grant_user k v address page_count flags s =
     (let ((db, off), m) =
        (if has_flag flags 1 then habmem_get_dma_buf_from_va address (st_hyp_mem s)
         else if has_flag flags 0x10000
         then (case dma_buf_get (unat address) (st_hyp_mem s) of (db, m) \<Rightarrow> ((db, 0), m))
         else (case habmem_get_dma_buf_from_uva (kv_user_pages k address page_count) page_count
                      (st_hyp_mem s) of (db, m) \<Rightarrow> ((db, 0), m)))
      in case db of
           None \<Rightarrow> Some ((- EINVAL, 0, 0), s\<lparr>st_hyp_mem := m\<rparr>)
         | Some d \<Rightarrow> habmem_add_export_compress v off page_count d flags (s\<lparr>st_hyp_mem := m\<rparr>))"

definition habmem_hyp_grant ::
  "kernel_view \<Rightarrow> nat \<Rightarrow> u64 \<Rightarrow> nat \<Rightarrow> u32 \<Rightarrow> hab_driver \<Rightarrow> ((int \<times> nat \<times> u32) \<times> hab_driver) option" where
  "habmem_hyp_grant k v address page_count flags s = do {
     vc \<leftarrow> st_vchans s v;
     let (db, m) =
       (if has_flag flags 0x20000
        then (if address = 0 then (Inl (- EINVAL), st_hyp_mem s)
              else (Inr (unat address), get_dma_buf (unat address) (st_hyp_mem s)))
        else if has_flag flags 0x10000
        then (case dma_buf_get (unat address) (st_hyp_mem s) of
                (None, m) \<Rightarrow> (Inl (- EINVAL), m) | (Some d, m) \<Rightarrow> (Inr d, m))
        else dma_buf_from_kva (kv_kva_pages k address page_count) page_count (vc_id vc)
               (Some (vc_pchan vc)) (st_hyp_mem s));
     (case db of
        Inl e \<Rightarrow> Some ((e, 0, 0), s\<lparr>st_hyp_mem := m\<rparr>)
      | Inr d \<Rightarrow> habmem_add_export_compress v 0 page_count d flags (s\<lparr>st_hyp_mem := m\<rparr>))
   }"

section \<open>Export\<close>

text \<open>
  \<^verbatim>\<open>habmem_export_vchan\<close>.  \<^verbatim>\<open>ret\<close> is set only in the old protocol; in the new one the caller gets what
  the variable happened to hold.
\<close>

definition habmem_export_vchan ::
  "int \<Rightarrow> nat \<Rightarrow> nat \<Rightarrow> nat \<Rightarrow> u32 \<Rightarrow> wait_ev list \<Rightarrow> hab_driver \<Rightarrow> int run option" where
  "habmem_export_vchan stack c v payload_size export_id w s =
     (let sizebytes = export_desc_size + payload_size in
      if HAB_HEADER_SIZE_MAX < sizebytes then Some (Done (- EINVAL) w s)
      else do {
        vc \<leftarrow> st_vchans s v;
        pc \<leftarrow> st_pchans s (vc_pchan vc);
        (case idr_find (pc_expid_idr pc) (unat export_id) of
           None \<Rightarrow> Some (Done (- EINVAL) w s)
         | Some e \<Rightarrow> do {
             x \<leftarrow> st_exps s e;
             run_bind
               (if pc_mem_proto pc = 0 then do {
                  (r, s1) \<leftarrow> physical_channel_send (vc_pchan vc)
                     (mk_header sizebytes HAB_PAYLOAD_TYPE_EXPORT (vc_otherend_id vc) (vc_session_id vc))
                     (Some (export_image s (0, 0) x)) s;
                  if r \<noteq> 0 then Some (Done (False, r) w s1)
                  else run_bind (hab_export_ack_wait c
                      \<lparr>ea_export_id = ex_export_id x, ea_vcid_local = ex_vcid_local x,
                       ea_vcid_remote = ex_vcid_remote x\<rparr> v w s1)
                    (\<lambda>r w2 s2. if r \<noteq> 0 then Some (Done (False, r) w2 s2)
                       else do {
                         s3 \<leftarrow> mod_exp e (\<lambda>x. x\<lparr>ex_pchan := Some (vc_pchan vc), ex_vchan := Some v,
                                                  ex_ctx := Some c\<rparr>) s2;
                         Some (Done (True, 0) w2 s3)
                       })
                } else Some (Done (True, stack) w s))
               (\<lambda>(go_on, r) w4 s4.
                  if \<not> go_on then Some (Done r w4 s4)
                  else do {
                    s5 \<leftarrow> mod_ctx c (\<lambda>cx. cx\<lparr>cx_export_total := cx_export_total cx + 1,
                             cx_exp_whse := cx_exp_whse cx @ [e]\<rparr>) s4;
                    s6 \<leftarrow> mod_exp e (\<lambda>x. x\<lparr>ex_exp_state := HAB_EXP_SUCCESS\<rparr>) s5;
                    Some (Done r w4 s6)
                  })
           })
      })"

definition hab_mem_export ::
  "kernel_view \<Rightarrow> nat \<Rightarrow> hab_export \<Rightarrow> bool \<Rightarrow> wait_ev list \<Rightarrow> hab_driver \<Rightarrow>
     (int \<times> hab_export) run option" where
  "hab_mem_export k c param kern w s =
     (if he_sizebytes param = 0 \<or> he_sizebytes param mod 4096 \<noteq> 0 \<or>
         (he_buffer param = 0 \<and> \<not> has_flag (he_flags param) 0x10000)
      then Some (Done (- EINVAL, param) w s)
      else let param1 = param\<lparr>he_exportid := 0\<rparr> in do {
        (vo, s1) \<leftarrow> hab_get_vchan_fromvcid (he_vcid param) c False s;
        (case vo of
           None \<Rightarrow> Some (Done (- ENODEV, param1) w s1)
         | Some v \<Rightarrow> do {
             let page_count = unat (he_sizebytes param) div 4096;
             ((r, payload_size, export_id), s2) \<leftarrow>
               (if kern then habmem_hyp_grant k v (he_buffer param) page_count (he_flags param) s1
                else habmem_hyp_grant_user k v (he_buffer param) page_count (he_flags param) s1);
             if r < 0 then do { s3 \<leftarrow> hab_vchan_put v s2; Some (Done (r, param1) w s3) }
             else run_bind (habmem_export_vchan (kv_stack k) c v payload_size export_id w s2)
               (\<lambda>r w3 s3. do {
                  s4 \<leftarrow> hab_vchan_put v s3;
                  Some (Done (r, param1\<lparr>he_exportid := export_id\<rparr>) w3 s4)
                })
           })
      })"

text \<open>
  \<open>list_del\<close> of an export: off whichever list it is on.  One whose state is \<^verbatim>\<open>HAB_EXP_SUCCESS\<close> was put
  on one.
\<close>

definition export_list_del :: "nat \<Rightarrow> hab_driver \<Rightarrow> hab_driver" where
  "export_list_del e s = s\<lparr>
     st_ctxs := (\<lambda>c. map_option (\<lambda>cx. cx\<lparr>cx_exp_whse := remove1 e (cx_exp_whse cx)\<rparr>) (st_ctxs s c)),
     st_reclaim_list := remove1 e (st_reclaim_list s)\<rparr>"

definition hab_mem_unexport ::
  "nat \<Rightarrow> hab_unexport \<Rightarrow> hab_driver \<Rightarrow> (int \<times> hab_driver) option" where
  "hab_mem_unexport c param s = do {
     (vo, s1) \<leftarrow> hab_get_vchan_fromvcid (hu_vcid param) c True s;
     (case vo of
        None \<Rightarrow> Some (- ENODEV, s1)
      | Some v \<Rightarrow> do {
          vc \<leftarrow> st_vchans s1 v;
          pc \<leftarrow> st_pchans s1 (vc_pchan vc);
          (r, s2) \<leftarrow> (case idr_find (pc_expid_idr pc) (unat (hu_exportid param)) of
              None \<Rightarrow> Some (- EINVAL, s1)
            | Some e \<Rightarrow> do {
                x \<leftarrow> st_exps s1 e;
                if ex_exp_state x = HAB_EXP_SUCCESS \<and> ex_ctx x = Some c \<and> \<not> ex_remote_imported x
                then do {
                  s2 \<leftarrow> expid_remove (vc_pchan vc) (hu_exportid param) s1;
                  (r, s3) \<leftarrow> habmem_hyp_revoke e (export_list_del e s2);
                  s4 \<leftarrow> habmem_remove_export e s3;
                  Some (r, s4)
                } else Some (if \<not> ex_remote_imported x then - EINVAL else - EBUSY, s1)
              });
          s5 \<leftarrow> hab_vchan_put v s2;
          Some (r, s5)
        })
   }"

section \<open>Import\<close>

text \<open>The handshake of the new protocol: ask for the descriptor and wait for it.\<close>

definition import_handshake ::
  "nat \<Rightarrow> hab_import \<Rightarrow> nat \<Rightarrow> wait_ev list \<Rightarrow> hab_driver \<Rightarrow> int run option" where
  "import_handshake c param v w s = do {
     vc \<leftarrow> st_vchans s v;
     (r, s1) \<leftarrow> physical_channel_send (vc_pchan vc)
        (mk_header 12 HAB_PAYLOAD_TYPE_IMPORT (vc_otherend_id vc) (vc_session_id vc))
        (Some (enc_import_data \<lparr>id_exp_id = hi_exportid param,
           id_page_cnt = drop_bit 12 (hi_sizebytes param), id_reserved = 0\<rparr>)) s;
     if r \<noteq> 0 then Some (Done r w s1)
     else run_bind (hab_import_ack_wait c
         \<lparr>ia_export_id = hi_exportid param, ia_vcid_local = vc_id vc,
          ia_vcid_remote = vc_otherend_id vc, ia_imp_whse_added = 0\<rparr> v w s1)
       (\<lambda>(r, scan) w2 s2.
          Some (Done (if r \<noteq> 0 then r else if scan = 0 then - EINVAL else 0) w2 s2))
   }"

definition exp_set_state :: "nat \<Rightarrow> exp_desc_state \<Rightarrow> hab_driver \<Rightarrow> hab_driver option" where
  "exp_set_state e st s = mod_exp e (\<lambda>x. x\<lparr>ex_import_state := st\<rparr>) s"

text \<open>
  The descriptor is claimed: only one in the initial state can be, and it is then in progress.
\<close>

definition import_claim :: "nat \<Rightarrow> imp_key \<Rightarrow> hab_driver \<Rightarrow> ((int + nat) \<times> hab_driver) option" where
  "import_claim c key s = do {
     cx \<leftarrow> st_ctxs s c;
     (case map_of (cx_imp_whse cx) key of
        None \<Rightarrow> Some (Inl (- ENODEV), s)
      | Some e \<Rightarrow> do {
          x \<leftarrow> st_exps s e;
          if ex_import_state x \<noteq> EXP_DESC_INIT then Some (Inl (- EINVAL), s)
          else do { s1 \<leftarrow> exp_set_state e EXP_DESC_IMPORTING s; Some (Inr e, s1) }
        })
   }"

text \<open>The claimed descriptor is mapped, or goes back to its initial state.\<close>

definition import_map ::
  "kernel_view \<Rightarrow> hab_import \<Rightarrow> bool \<Rightarrow> nat \<Rightarrow> hab_driver \<Rightarrow> ((int \<times> hab_import) \<times> hab_driver) option" where
  "import_map k param kern e s = do {
     x \<leftarrow> st_exps s e;
     if ex_payload_count x * 4096 \<noteq> hi_sizebytes param then do {
       s1 \<leftarrow> exp_set_state e EXP_DESC_INIT s;
       Some ((- EINVAL, param), s1)
     } else do {
       ((r, kva), m) \<leftarrow> habmem_imp_hyp_map (kv_pfn_valid k) (ex_payload_count x) (ex_payload x)
          (hi_flags param) (ex_export_id x) (ex_vcid_remote x) (ex_pchan x) kern (st_hyp_mem s);
       let s1 = s\<lparr>st_hyp_mem := m\<rparr>;
       if r \<noteq> 0 then do { s2 \<leftarrow> exp_set_state e EXP_DESC_INIT s1; Some ((r, param), s2) }
       else do {
         let param1 = (case kva of None \<Rightarrow> param | Some a \<Rightarrow> param\<lparr>hi_kva := a\<rparr>);
         s2 \<leftarrow> mod_exp e (\<lambda>x. x\<lparr>ex_import_index := hi_index param,
                  ex_kva := (if kern then hi_kva param1 else 0), ex_import_state := EXP_DESC_IMPORTED\<rparr>) s1;
         Some ((0, param1), s2)
       }
     }
   }"

definition imp_whse_drop :: "nat \<Rightarrow> nat \<Rightarrow> hab_driver \<Rightarrow> hab_driver option" where
  "imp_whse_drop c e s = do {
     x \<leftarrow> st_exps s e;
     p \<leftarrow> ex_pchan x;
     s1 \<leftarrow> mod_ctx c (\<lambda>cx. cx\<lparr>cx_imp_whse := whse_remove (unat (ex_export_id x), p) (cx_imp_whse cx),
                               cx_import_total := cx_import_total cx - 1\<rparr>) s;
     Some (s1\<lparr>st_exps := (st_exps s1)(e := None)\<rparr>)
   }"

text \<open>
  After a failure in the new protocol the remote is told and the descriptor dropped.
\<close>

definition import_rollback :: "nat \<Rightarrow> nat \<Rightarrow> nat \<Rightarrow> nat \<Rightarrow> int \<Rightarrow> hab_driver \<Rightarrow> hab_driver option" where
  "import_rollback c v p e r s = do {
     pc \<leftarrow> st_pchans s p;
     if pc_mem_proto pc = 1 \<and> r \<noteq> 0 then do {
       x \<leftarrow> st_exps s e;
       s1 \<leftarrow> hab_send_unimport_msg v (ex_export_id x) s;
       imp_whse_drop c e s1
     } else Some s
   }"

text \<open>Everything after the handshake, on channel \<open>v\<close> of physical channel \<open>p\<close>.\<close>

definition import_rest ::
  "kernel_view \<Rightarrow> nat \<Rightarrow> hab_import \<Rightarrow> bool \<Rightarrow> nat \<Rightarrow> nat \<Rightarrow> int \<Rightarrow> hab_driver \<Rightarrow>
     ((int \<times> hab_import) \<times> hab_driver) option" where
  "import_rest k c param kern v p r s =
     (if r \<noteq> 0 then do { s1 \<leftarrow> hab_vchan_put v s; Some ((r, param), s1) }
      else do {
        (cl, s1) \<leftarrow> import_claim c (unat (hi_exportid param), p) s;
        (case cl of
           Inl err \<Rightarrow> do { s2 \<leftarrow> hab_vchan_put v s1; Some ((err, param), s2) }
         | Inr e \<Rightarrow> do {
             ((r2, param2), s2) \<leftarrow> import_map k param kern e s1;
             s3 \<leftarrow> import_rollback c v p e r2 s2;
             s4 \<leftarrow> hab_vchan_put v s3;
             Some ((r2, param2), s4)
           })
      })"

definition hab_mem_import ::
  "kernel_view \<Rightarrow> nat \<Rightarrow> hab_import \<Rightarrow> bool \<Rightarrow> wait_ev list \<Rightarrow> hab_driver \<Rightarrow>
     (int \<times> hab_import) run option" where
  "hab_mem_import k c param kern w s =
     (if hi_sizebytes param mod 4096 \<noteq> 0 then Some (Done (- EINVAL, param) w s)
      else do {
        (vo, s1) \<leftarrow> hab_get_vchan_fromvcid (hi_vcid param) c False s;
        (case vo of
           None \<Rightarrow> Some (Done (- ENODEV, param) w s1)
         | Some v \<Rightarrow> do {
             vc \<leftarrow> st_vchans s1 v;
             pc \<leftarrow> st_pchans s1 (vc_pchan vc);
             run_bind (if pc_mem_proto pc = 1 then import_handshake c param v w s1 else Some (Done 0 w s1))
               (\<lambda>r w2 s2. do {
                  (res, s3) \<leftarrow> import_rest k c param kern v (vc_pchan vc) r s2;
                  Some (Done res w2 s3)
                })
           })
      })"

text \<open>
  Only an imported descriptor can be claimed for the way back; it is unmapped, the remote is told in
  the new protocol, and it is dropped.
\<close>

definition unimport_claim :: "nat \<Rightarrow> imp_key \<Rightarrow> hab_driver \<Rightarrow> ((int + nat) \<times> hab_driver) option" where
  "unimport_claim c key s = do {
     cx \<leftarrow> st_ctxs s c;
     (case map_of (cx_imp_whse cx) key of
        None \<Rightarrow> Some (Inl (- EINVAL), s)
      | Some e \<Rightarrow> do {
          x \<leftarrow> st_exps s e;
          if ex_import_state x \<noteq> EXP_DESC_IMPORTED then Some (Inl (- EINVAL), s)
          else do { s1 \<leftarrow> exp_set_state e EXP_DESC_UNIMPORTING s; Some (Inr e, s1) }
        })
   }"

definition unimport_unmap :: "nat \<Rightarrow> bool \<Rightarrow> hab_driver \<Rightarrow> (int \<times> hab_driver) option" where
  "unimport_unmap e kern s = do {
     (r, s1) \<leftarrow> habmm_imp_hyp_unmap e kern s;
     if r \<noteq> 0 then do { s2 \<leftarrow> exp_set_state e EXP_DESC_IMPORTED s1; Some (r, s2) }
     else Some (0, s1)
   }"

definition unimport_drop :: "nat \<Rightarrow> nat \<Rightarrow> nat \<Rightarrow> hab_driver \<Rightarrow> hab_driver option" where
  "unimport_drop c v e s = do {
     x \<leftarrow> st_exps s e;
     vc \<leftarrow> st_vchans s v;
     pc \<leftarrow> st_pchans s (vc_pchan vc);
     s1 \<leftarrow> (if pc_mem_proto pc = 1 then hab_send_unimport_msg v (ex_export_id x) s else Some s);
     imp_whse_drop c e s1
   }"

definition hab_mem_unimport ::
  "nat \<Rightarrow> hab_unimport \<Rightarrow> bool \<Rightarrow> hab_driver \<Rightarrow> ((int \<times> hab_unimport) \<times> hab_driver) option" where
  "hab_mem_unimport c param kern s = do {
     (vo, s1) \<leftarrow> hab_get_vchan_fromvcid (hn_vcid param) c True s;
     (case vo of
        None \<Rightarrow> Some ((- ENODEV, param), s1)
      | Some v \<Rightarrow> do {
          vc \<leftarrow> st_vchans s1 v;
          (cl, s2) \<leftarrow> unimport_claim c (unat (hn_exportid param), vc_pchan vc) s1;
          ((r, param1), s3) \<leftarrow>
            (case cl of
               Inl err \<Rightarrow> Some ((err, param), s2)
             | Inr e \<Rightarrow> do {
                 (r, s3) \<leftarrow> unimport_unmap e kern s2;
                 if r \<noteq> 0 then Some ((r, param), s3)
                 else do {
                   x \<leftarrow> st_exps s3 e;
                   s4 \<leftarrow> unimport_drop c v e s3;
                   Some ((0, param\<lparr>hn_kva := ex_kva x\<rparr>), s4)
                 }
               });
          s6 \<leftarrow> hab_vchan_put v s3;
          Some ((r, param1), s6)
        })
   }"

end
