(* ===== verification/Hab_Api.thy ===== *)
theory Hab_Api
  imports Hab_Mimex
begin

text \<open>
  The calls of a client on virtual channels (\<^verbatim>\<open>hab.c\<close>): the open handshake of front end and back end,
  send, receive, close and stop.
\<close>

section \<open>The open handshake\<close>

definition find_device :: "u32 \<Rightarrow> hab_driver \<Rightarrow> nat option" where
  "find_device mm_id s =
     List.find (\<lambda>d. dv_id (st_devs s ! d) = HAB_MMID_GET_MAJOR mm_id) [0..<length (st_devs s)]"

abbreviation (input) HABCFG_VMID_DONT_CARE :: int where "HABCFG_VMID_DONT_CARE \<equiv> - 2"
abbreviation (input) LOOPBACK_DOM :: int where "LOOPBACK_DOM \<equiv> 0xFF"
abbreviation (input) HAB_HS_TIMEOUT :: int where "HAB_HS_TIMEOUT \<equiv> 10000000"

definition major_version :: "u32 \<Rightarrow> u32" where
  "major_version v = v AND 0xFFFF0000"

text \<open>The common exit: both references go back, the error is returned.\<close>

definition open_err ::
  "nat option \<Rightarrow> nat option \<Rightarrow> int \<Rightarrow> wait_ev list \<Rightarrow> hab_driver \<Rightarrow> (int + nat) run option" where
  "open_err vo po ret w s = do {
     s1 \<leftarrow> (case vo of None \<Rightarrow> Some s | Some v \<Rightarrow> hab_vchan_put v s);
     s2 \<leftarrow> (case po of None \<Rightarrow> Some s1 | Some p \<Rightarrow> hab_pchan_put p s1);
     Some (Done (Inl ret) w s2)
   }"

definition set_ver_fe :: "u32 \<Rightarrow> hab_open_request \<Rightarrow> hab_open_request" where
  "set_ver_fe ver r = r\<lparr>rq_xdata := (rq_xdata r)\<lparr>od_ver_fe := ver\<rparr>\<rparr>"

definition set_ver_be :: "u32 \<Rightarrow> hab_open_request \<Rightarrow> hab_open_request" where
  "set_ver_be ver r = r\<lparr>rq_xdata := (rq_xdata r)\<lparr>od_ver_be := ver\<rparr>\<rparr>"

definition set_mem_proto :: "nat \<Rightarrow> u32 \<Rightarrow> hab_driver \<Rightarrow> hab_driver option" where
  "set_mem_proto p ver_proto s =
     mod_pchan p (\<lambda>pc. pc\<lparr>pc_mem_proto := (if ver_proto = 0 then 0 else 1)\<rparr>) s"

text \<open>
  The front end after the wait for INIT-ACK: \<open>request\<close> is its request variable, \<open>pending\<close> the pending
  node, \<open>ret\<close> and \<open>recv\<close> what the wait returned.
\<close>

definition frontend_cancel ::
  "nat \<Rightarrow> nat \<Rightarrow> nat \<Rightarrow> u32 \<Rightarrow> u32 \<Rightarrow> hab_open_request \<Rightarrow> hab_open_request \<Rightarrow> int \<Rightarrow>
     wait_ev list \<Rightarrow> hab_driver \<Rightarrow> (int + nat) run option" where
  "frontend_cancel c p v sub_id open_id pending request ret w s = do {
     vc \<leftarrow> st_vchans s v;
     (_, s1) \<leftarrow> hab_open_request_send (set_ver_fe HAB_API_VER (hab_open_request_init
         (payload_code HAB_PAYLOAD_TYPE_INIT_CANCEL) (Some p) (vc_id vc) sub_id open_id request)) s;
     (_, s2) \<leftarrow> hab_open_pending_exit c pending s1;
     open_err (Some v) (Some p) (if ret \<noteq> - EINTR \<and> ret \<noteq> - ENXIO then - EINVAL else ret) w s2
   }"

definition frontend_paired ::
  "nat \<Rightarrow> nat \<Rightarrow> nat \<Rightarrow> u32 \<Rightarrow> u32 \<Rightarrow> hab_open_request \<Rightarrow> hab_open_request \<Rightarrow> hab_open_request \<Rightarrow>
     wait_ev list \<Rightarrow> hab_driver \<Rightarrow> (int + nat) run option" where
  "frontend_paired c p v sub_id open_id pending request a w s = do {
     (_, s1) \<leftarrow> hab_open_pending_exit c pending s;
     s2 \<leftarrow> set_mem_proto p (od_ver_proto (rq_xdata a)) s1;
     s3 \<leftarrow> mod_vchan v (\<lambda>vc. vc\<lparr>vc_otherend_id := od_vchan_id (rq_xdata a)\<rparr>) s2;
     s4 \<leftarrow> hab_open_request_free a s3;
     (r, s5) \<leftarrow> hab_open_request_send (set_ver_fe HAB_API_VER (hab_open_request_init
         (payload_code HAB_PAYLOAD_TYPE_INIT_DONE) (Some p) 0 sub_id open_id request)) s4;
     if r \<noteq> 0 then open_err (Some v) (Some p) r w s5
     else do { s6 \<leftarrow> hab_pchan_put p s5; Some (Done (Inr v) w s6) }
   }"

definition frontend_finish ::
  "nat \<Rightarrow> nat \<Rightarrow> nat \<Rightarrow> u32 \<Rightarrow> u32 \<Rightarrow> hab_open_request \<Rightarrow> hab_open_request \<Rightarrow> int \<Rightarrow>
     hab_open_request option \<Rightarrow> wait_ev list \<Rightarrow> hab_driver \<Rightarrow> (int + nat) run option" where
  "frontend_finish c p v sub_id open_id pending request ret recv w s =
     (case recv of
        None \<Rightarrow> frontend_cancel c p v sub_id open_id pending request ret w s
      | Some a \<Rightarrow>
          if ret \<noteq> 0 then frontend_cancel c p v sub_id open_id pending request ret w s
          else if major_version (od_ver_fe (rq_xdata a)) \<noteq> major_version (od_ver_be (rq_xdata a)) then do {
            (_, s1) \<leftarrow> hab_open_pending_exit c pending s;
            open_err (Some v) (Some p) (- EPROTO) w s1
          } else frontend_paired c p v sub_id open_id pending request a w s)"

text \<open>From the new virtual channel on: send INIT, wait for INIT-ACK without a timeout.\<close>

definition frontend_handshake ::
  "nat \<Rightarrow> nat \<Rightarrow> nat \<Rightarrow> nat \<Rightarrow> u32 \<Rightarrow> u32 \<Rightarrow> hab_open_request \<Rightarrow> wait_ev list \<Rightarrow> hab_driver \<Rightarrow>
     (int + nat) run option" where
  "frontend_handshake c d p v sub_id open_id stack w s = do {
     vc \<leftarrow> st_vchans s v;
     let request = set_ver_fe HAB_API_VER (hab_open_request_init
           (payload_code HAB_PAYLOAD_TYPE_INIT) (Some p) (vc_id vc) sub_id open_id stack);
     (r, s1) \<leftarrow> hab_open_request_send request s;
     if r \<noteq> 0 then open_err (Some v) (Some p) r w s1
     else do {
       s2 \<leftarrow> hab_open_pending_enter c request s1;
       let listen = hab_open_request_init (payload_code HAB_PAYLOAD_TYPE_INIT_ACK) (Some p) 0
             sub_id open_id request;
       run_bind (hab_open_listen c d listen 0 w s2)
         (\<lambda>(ret, recv) w3 s3. frontend_finish c p v sub_id open_id request listen ret recv w3 s3)
     }
   }"

text \<open>\<open>stack\<close> is what the uninitialised request variable holds; the open identifier is a counter.\<close>

definition frontend_open ::
  "hab_open_request \<Rightarrow> nat \<Rightarrow> u32 \<Rightarrow> int \<Rightarrow> wait_ev list \<Rightarrow> hab_driver \<Rightarrow> (int + nat) run option" where
  "frontend_open stack c mm_id dom_id w s = (case find_device mm_id s of
      None \<Rightarrow> Some (Done (Inl (- EINVAL)) w s)
    | Some d \<Rightarrow> do {
        (po, s1) \<leftarrow> hab_pchan_find_domid d dom_id s;
        (case po of
           None \<Rightarrow> Some (Done (Inl (- EINVAL)) w s1)
         | Some p \<Rightarrow> do {
             let open_id = st_open_id s1 + 1;
             (vo, s2) \<leftarrow> hab_vchan_alloc c p open_id (s1\<lparr>st_open_id := open_id\<rparr>);
             (case vo of
                None \<Rightarrow> open_err None (Some p) (- ENOMEM) w s2
              | Some v \<Rightarrow>
                  frontend_handshake c d p v (HAB_MMID_GET_MINOR mm_id) open_id stack w s2)
           })
      })"

definition request_zero :: hab_open_request where
  "request_zero = \<lparr>rq_type = 0, rq_pchan = None, rq_xdata = open_data_zero\<rparr>"

text \<open>
  The back end after the wait for INIT-DONE: its exits, and the choice between them.  \<open>Inr request\<close>:
  everything is freed, try again.  A cancel is noticed only when the wait also failed.
\<close>

definition backend_err ::
  "nat \<Rightarrow> nat \<Rightarrow> int \<Rightarrow> wait_ev list \<Rightarrow> hab_driver \<Rightarrow> ((int + nat) + hab_open_request) run option" where
  "backend_err p v ret w s =
     run_bind (open_err (Some v) (Some p) ret w s) (\<lambda>r w s. Some (Done (Inl r) w s))"

definition backend_cancel ::
  "nat \<Rightarrow> hab_open_request \<Rightarrow> hab_open_request \<Rightarrow> hab_driver \<Rightarrow> hab_driver option" where
  "backend_cancel c pending cancel s = do {
     (_, s1) \<leftarrow> hab_open_request_send cancel s;
     (_, s2) \<leftarrow> hab_open_pending_exit c pending s1;
     Some s2
   }"

definition backend_received ::
  "nat \<Rightarrow> nat \<Rightarrow> nat \<Rightarrow> hab_open_request \<Rightarrow> int \<Rightarrow> hab_open_request option \<Rightarrow> wait_ev list \<Rightarrow>
     hab_driver \<Rightarrow> ((int + nat) + hab_open_request) run option" where
  "backend_received c p v pending ret recv w s = do {
     (_, s1) \<leftarrow> hab_open_pending_exit c pending s;
     (case recv of
        None \<Rightarrow> backend_err p v (- EINVAL) w s1
      | Some a \<Rightarrow>
          if ret \<noteq> 0 then backend_err p v (- EINVAL) w s1
          else do {
            s2 \<leftarrow> hab_open_request_free a s1;
            s3 \<leftarrow> hab_pchan_put p s2;
            Some (Done (Inl (Inr v)) w s3)
          })
   }"

definition backend_retry ::
  "nat \<Rightarrow> nat \<Rightarrow> nat \<Rightarrow> hab_open_request \<Rightarrow> hab_open_request \<Rightarrow> wait_ev list \<Rightarrow> hab_driver \<Rightarrow>
     ((int + nat) + hab_open_request) run option" where
  "backend_retry c p v pending cancel w s = do {
     s1 \<leftarrow> backend_cancel c pending cancel s;
     s2 \<leftarrow> hab_vchan_put v s1;
     s3 \<leftarrow> hab_pchan_put p s2;
     Some (Done (Inr cancel) w s3)
   }"

definition backend_finish ::
  "nat \<Rightarrow> nat \<Rightarrow> nat \<Rightarrow> u32 \<Rightarrow> u32 \<Rightarrow> u32 \<Rightarrow> hab_open_request \<Rightarrow> hab_open_request \<Rightarrow> int \<Rightarrow>
     hab_open_request option \<Rightarrow> wait_ev list \<Rightarrow> hab_driver \<Rightarrow>
     ((int + nat) + hab_open_request) run option" where
  "backend_finish c p v sub_id open_id ver_fe pending request ret recv w s = do {
     vc \<leftarrow> st_vchans s v;
     (_, s1) \<leftarrow> hab_open_pending_exit c pending s;
     let cancel = hab_open_request_init (payload_code HAB_PAYLOAD_TYPE_INIT_CANCEL) (Some p)
           (vc_id vc) sub_id open_id request;
     if ret \<noteq> 0 \<and> map_option rq_type recv = Some (payload_code HAB_PAYLOAD_TYPE_INIT_CANCEL) then do {
       s2 \<leftarrow> backend_cancel c pending cancel s1;
       backend_err p v (- EINVAL) w s2
     } else if ret = - ENXIO then backend_err p v ret w s1
     else if ret \<noteq> - EAGAIN then backend_received c p v pending ret recv w s1
     else backend_retry c p v pending (set_ver_be HAB_API_VER (set_ver_fe ver_fe cancel)) w s1
   }"

text \<open>One INIT of a matching version: pair with it, answer, wait for INIT-DONE.\<close>

definition backend_pair ::
  "nat \<Rightarrow> nat \<Rightarrow> u32 \<Rightarrow> hab_open_request \<Rightarrow> hab_open_request \<Rightarrow> wait_ev list \<Rightarrow> hab_driver \<Rightarrow>
     ((int + nat) + hab_open_request) run option" where
  "backend_pair c d sub_id request a w s = do {
     p \<leftarrow> rq_pchan a;
     s1 \<leftarrow> set_mem_proto p (od_ver_proto (rq_xdata a)) s;
     let open_id = od_open_id (rq_xdata a);
     let ver_fe = od_ver_fe (rq_xdata a);
     s2 \<leftarrow> hab_pchan_get p s1;
     s3 \<leftarrow> hab_open_request_free a s2;
     (vo, s4) \<leftarrow> hab_vchan_alloc c p open_id s3;
     (case vo of
        None \<Rightarrow> run_bind (open_err None (Some p) (- ENOMEM) w s4) (\<lambda>r w s. Some (Done (Inl r) w s))
      | Some v \<Rightarrow> do {
          s5 \<leftarrow> mod_vchan v (\<lambda>vc. vc\<lparr>vc_otherend_id := od_vchan_id (rq_xdata a)\<rparr>) s4;
          vc \<leftarrow> st_vchans s5 v;
          let ack = set_ver_be HAB_API_VER (set_ver_fe ver_fe (hab_open_request_init
                (payload_code HAB_PAYLOAD_TYPE_INIT_ACK) (Some p) (vc_id vc) sub_id open_id request));
          (r, s6) \<leftarrow> hab_open_request_send ack s5;
          if r \<noteq> 0 then run_bind (open_err (Some v) (Some p) r w s6) (\<lambda>r w s. Some (Done (Inl r) w s))
          else do {
            s7 \<leftarrow> hab_open_pending_enter c ack s6;
            let listen = hab_open_request_init (payload_code HAB_PAYLOAD_TYPE_INIT_DONE) (Some p) 0
                  sub_id open_id ack;
            run_bind (hab_open_listen c d listen HAB_HS_TIMEOUT w s7)
              (\<lambda>(ret, recv) w s. backend_finish c p v sub_id open_id ver_fe ack listen ret recv w s)
          }
        })
   }"

text \<open>
  The answer to an INIT of another major version is a request without a channel, which
  \<^verbatim>\<open>hab_open_request_send\<close> dereferences.
\<close>

definition backend_mismatch ::
  "u32 \<Rightarrow> hab_open_request \<Rightarrow> hab_open_request \<Rightarrow> wait_ev list \<Rightarrow> hab_driver \<Rightarrow>
     ((int + nat) + hab_open_request) run option" where
  "backend_mismatch sub_id request a w s = do {
     (_, s1) \<leftarrow> hab_open_request_send (set_ver_be HAB_API_VER (hab_open_request_init
         (payload_code HAB_PAYLOAD_TYPE_INIT_ACK) None 0 sub_id (od_open_id (rq_xdata a)) request)) s;
     Some (Done (Inl (Inl (- EPROTO))) w s1)
   }"

definition backend_round ::
  "nat \<Rightarrow> nat \<Rightarrow> u32 \<Rightarrow> int \<Rightarrow> hab_open_request \<Rightarrow> wait_ev list \<Rightarrow> hab_driver \<Rightarrow>
     ((int + nat) + hab_open_request) run option" where
  "backend_round c d sub_id timeout request w s = (
     let listen = hab_open_request_init (payload_code HAB_PAYLOAD_TYPE_INIT) None 0 sub_id 0 request in
     run_bind (hab_open_listen c d listen timeout w s)
       (\<lambda>(ret, recv) w s. (case recv of
            None \<Rightarrow> Some (Done (Inl (Inl (if ret = 0 then - EINVAL
                                        else if ret = - EAGAIN then - ETIMEDOUT else ret))) w s)
          | Some a \<Rightarrow>
              if ret \<noteq> 0 then Some (Done (Inl (Inl (if ret = - EAGAIN then - ETIMEDOUT else ret))) w s)
              else if major_version (od_ver_fe (rq_xdata a)) \<noteq> major_version HAB_API_VER
              then backend_mismatch sub_id listen a w s
              else backend_pair c d sub_id listen a w s)))"

text \<open>A round is repeated only when the wait for INIT-DONE timed out.\<close>

fun backend_loop ::
  "nat \<Rightarrow> nat \<Rightarrow> nat \<Rightarrow> u32 \<Rightarrow> int \<Rightarrow> hab_open_request \<Rightarrow> wait_ev list \<Rightarrow> hab_driver \<Rightarrow>
     (int + nat) run option" where
  "backend_loop 0 c d sub_id timeout request w s = None"
| "backend_loop (Suc n) c d sub_id timeout request w s =
     run_bind (backend_round c d sub_id timeout request w s)
       (\<lambda>r w s. (case r of
            Inl r \<Rightarrow> Some (Done r w s)
          | Inr request \<Rightarrow> backend_loop n c d sub_id timeout request w s))"

definition backend_listen ::
  "nat \<Rightarrow> u32 \<Rightarrow> int \<Rightarrow> wait_ev list \<Rightarrow> hab_driver \<Rightarrow> (int + nat) run option" where
  "backend_listen c mm_id timeout w s = (case find_device mm_id s of
      None \<Rightarrow> Some (Done (Inl (- EINVAL)) w s)
    | Some d \<Rightarrow> backend_loop (Suc (length w)) c d (HAB_MMID_GET_MINOR mm_id) timeout request_zero w s)"

section \<open>Send and receive\<close>

abbreviation (input) HAB_HEADER_SIZE_MAX :: nat where "HAB_HEADER_SIZE_MAX \<equiv> 0x7D000"
abbreviation (input) HABMM_SOCKET_SEND_FLAGS_NON_BLOCKING :: u32 where
  "HABMM_SOCKET_SEND_FLAGS_NON_BLOCKING \<equiv> 1"
abbreviation (input) HABMM_SOCKET_SEND_FLAGS_XING_VM_STAT :: u32 where
  "HABMM_SOCKET_SEND_FLAGS_XING_VM_STAT \<equiv> 2"
abbreviation (input) HABMM_SOCKET_XVM_SCHE_TEST :: u32 where "HABMM_SOCKET_XVM_SCHE_TEST \<equiv> 4"
abbreviation (input) HABMM_SOCKET_XVM_SCHE_TEST_ACK :: u32 where "HABMM_SOCKET_XVM_SCHE_TEST_ACK \<equiv> 8"
abbreviation (input) HABMM_SOCKET_XVM_SCHE_RESULT_REQ :: u32 where "HABMM_SOCKET_XVM_SCHE_RESULT_REQ \<equiv> 0x10"
abbreviation (input) HABMM_SOCKET_XVM_SCHE_RESULT_RSP :: u32 where "HABMM_SOCKET_XVM_SCHE_RESULT_RSP \<equiv> 0x20"

text \<open>The payload type for the flags, or the buffer is too small for it.\<close>

definition send_type :: "u32 \<Rightarrow> nat \<Rightarrow> hab_payload_type option" where
  "send_type flags sizebytes =
     (if has_flag flags HABMM_SOCKET_SEND_FLAGS_XING_VM_STAT
      then if sizebytes < xing_vm_stat_size then None else Some HAB_PAYLOAD_TYPE_PROFILE
      else if has_flag flags HABMM_SOCKET_XVM_SCHE_TEST then Some HAB_PAYLOAD_TYPE_SCHE_MSG
      else if has_flag flags HABMM_SOCKET_XVM_SCHE_TEST_ACK then Some HAB_PAYLOAD_TYPE_SCHE_MSG_ACK
      else if has_flag flags HABMM_SOCKET_XVM_SCHE_RESULT_REQ
      then if sizebytes < 8 then None else Some HAB_PAYLOAD_TYPE_SCHE_RESULT_REQ
      else if has_flag flags HABMM_SOCKET_XVM_SCHE_RESULT_RSP
      then if sizebytes < 24 then None else Some HAB_PAYLOAD_TYPE_SCHE_RESULT_RSP
      else Some HAB_PAYLOAD_TYPE_MSG)"

definition send_header :: "virtual_channel \<Rightarrow> hab_payload_type \<Rightarrow> nat \<Rightarrow> hab_header" where
  "send_header vc ty sizebytes = mk_header sizebytes ty (vc_otherend_id vc) (vc_session_id vc)"

text \<open>The retry loop: between two attempts other threads run (\<^verbatim>\<open>schedule()\<close>).\<close>

fun send_loop ::
  "nat \<Rightarrow> bool \<Rightarrow> hab_header \<Rightarrow> bytes option \<Rightarrow> wait_ev list \<Rightarrow> hab_driver \<Rightarrow> int run option" where
  "send_loop v nonblocking header data w s = do {
     vc \<leftarrow> st_vchans s v;
     (r, s1) \<leftarrow> physical_channel_send (vc_pchan vc) header data s;
     vc1 \<leftarrow> st_vchans s1 v;
     if vc_otherend_closed vc1 \<or> nonblocking \<or> r \<noteq> - EAGAIN then Some (Done r w s1)
     else (case w of
         [] \<Rightarrow> Some (Blocked s1)
       | Env f # w' \<Rightarrow> do { s2 \<leftarrow> f s1; send_loop v nonblocking header data w' s2 }
       | _ # w' \<Rightarrow> send_loop v nonblocking header data w' s1)
   }"

declare send_loop.simps [simp del]

text \<open>The two buffer checks return without giving the reference back.\<close>

definition hab_vchan_send ::
  "nat \<Rightarrow> u32 \<Rightarrow> nat \<Rightarrow> bytes option \<Rightarrow> u32 \<Rightarrow> wait_ev list \<Rightarrow> hab_driver \<Rightarrow> int run option" where
  "hab_vchan_send c vcid sizebytes data flags w s =
     (if HAB_HEADER_SIZE_MAX < sizebytes then Some (Done (- EINVAL) w s)
      else do {
        (vo, s1) \<leftarrow> hab_get_vchan_fromvcid vcid c False s;
        (case vo of
           None \<Rightarrow> Some (Done (- ENODEV) w s1)
         | Some v \<Rightarrow> do {
             vc \<leftarrow> st_vchans s1 v;
             if vc_otherend_closed vc then do {
               s2 \<leftarrow> hab_vchan_put v s1;
               Some (Done (- ENODEV) w s2)
             } else (case send_type flags sizebytes of
                None \<Rightarrow> Some (Done (- EINVAL) w s1)
              | Some ty \<Rightarrow>
                  run_bind (send_loop v
                      (has_flag flags HABMM_SOCKET_SEND_FLAGS_NON_BLOCKING)
                      (send_header vc ty sizebytes) data w s1)
                    (\<lambda>r w s2. do {
                       s3 \<leftarrow> (if r = 0 then mod_vchan v (\<lambda>vc. vc\<lparr>vc_tx_cnt := vc_tx_cnt vc + 1\<rparr>) s2
                              else Some s2);
                       s4 \<leftarrow> hab_vchan_put v s3;
                       Some (Done r w s4)
                     }))
           })
      })"

definition hab_vchan_recv ::
  "nat \<Rightarrow> u32 \<Rightarrow> int \<Rightarrow> u32 \<Rightarrow> wait_ev list \<Rightarrow> hab_driver \<Rightarrow>
     (int \<times> int \<times> hab_message option) run option" where
  "hab_vchan_recv c vcid rsize flags w s = do {
     (vo, s1) \<leftarrow> hab_get_vchan_fromvcid vcid c True s;
     (case vo of
        None \<Rightarrow> Some (Done (- ENODEV, rsize, None) w s1)
      | Some v \<Rightarrow> do {
          vc \<leftarrow> st_vchans s1 v;
          s2 \<leftarrow> mod_vchan v (\<lambda>vc. vc\<lparr>vc_rx_inflight := True\<rparr>) s1;
          s3 \<leftarrow> (if has_flag flags HABMM_SOCKET_RECV_FLAGS_NON_BLOCKING
                 then physical_channel_rx_dispatch (vc_pchan vc) s2 else Some s2);
          run_bind (hab_msg_dequeue v rsize flags w s3)
            (\<lambda>(ret, rsize', m) w s4. do {
               s5 \<leftarrow> (if ret = 0 \<and> m \<noteq> None then mod_vchan v (\<lambda>vc. vc\<lparr>vc_rx_cnt := vc_rx_cnt vc + 1\<rparr>) s4
                      else Some s4);
               s6 \<leftarrow> mod_vchan v (\<lambda>vc. vc\<lparr>vc_rx_inflight := False\<rparr>) s5;
               s7 \<leftarrow> hab_vchan_put v s6;
               Some (Done (ret, rsize', m) w s7)
             })
        })
   }"

section \<open>Open, stop and close\<close>

definition hab_stop :: "nat \<Rightarrow> u32 \<Rightarrow> hab_driver \<Rightarrow> (int \<times> hab_driver) option" where
  "hab_stop c mmid s = (case find_device mmid s of
      None \<Rightarrow> Some (- EINVAL, s)
    | Some d \<Rightarrow> do {
        cx \<leftarrow> st_ctxs s c;
        if mmid \<in> set (cx_forbidden_chans cx) then Some (0, s)
        else (case kalloc s of (ok, s1) \<Rightarrow>
          if \<not> ok then Some (- ENOMEM, s1)
          else do {
            s2 \<leftarrow> mod_ctx c (\<lambda>cx. cx\<lparr>cx_forbidden_chans := cx_forbidden_chans cx @ [mmid]\<rparr>) s1;
            Some (0, s2)
          })
      })"

text \<open>Which side a client is: the loopback flag of its context, else the role of the device's channel.\<close>

definition vchan_connect ::
  "hab_open_request \<Rightarrow> nat \<Rightarrow> u32 \<Rightarrow> int \<Rightarrow> wait_ev list \<Rightarrow> hab_driver \<Rightarrow> (int + nat) run option" where
  "vchan_connect stack c mmid timeout w s =
     (if st_loopback s then do {
        cx \<leftarrow> st_ctxs s c;
        if cx_lb_be cx \<noteq> 0 then backend_listen c mmid timeout w s
        else frontend_open stack c mmid LOOPBACK_DOM w s
      } else do {
        f \<leftarrow> hab_is_forbidden c (find_device mmid s) (HAB_MMID_GET_MINOR mmid) s;
        if f then Some (Done (Inl (- ENXIO)) w s)
        else (case find_device mmid s of
           None \<Rightarrow> Some (Done (Inl (- ENODEV)) w s)
         | Some d \<Rightarrow> do {
             (po, s1) \<leftarrow> hab_pchan_find_domid d HABCFG_VMID_DONT_CARE s;
             (case po of
                None \<Rightarrow> Some (Done (Inl (- ENODEV)) w s1)
              | Some p \<Rightarrow> do {
                  pc \<leftarrow> st_pchans s1 p;
                  if pc_is_be pc then backend_listen c mmid timeout w s1
                  else frontend_open stack c mmid HABCFG_VMID_DONT_CARE w s1
                })
           })
      })"

definition hab_vchan_open ::
  "hab_open_request \<Rightarrow> nat \<Rightarrow> u32 \<Rightarrow> int \<Rightarrow> wait_ev list \<Rightarrow> hab_driver \<Rightarrow> (int + u32) run option" where
  "hab_vchan_open stack c mmid timeout w s =
     run_bind (vchan_connect stack c mmid timeout w s)
       (\<lambda>r w s. (case r of
            Inl e \<Rightarrow> Some (Done (Inl e) w s)
          | Inr v \<Rightarrow> do {
              s1 \<leftarrow> mod_ctx c (\<lambda>cx. cx\<lparr>cx_vchannels := cx_vchannels cx @ [v], cx_vcnt := cx_vcnt cx + 1\<rparr>) s;
              vc \<leftarrow> st_vchans s1 v;
              Some (Done (Inr (vc_id vc)) w s1)
            }))"

definition hab_vchan_close :: "nat \<Rightarrow> u32 \<Rightarrow> hab_driver \<Rightarrow> (int \<times> hab_driver) option" where
  "hab_vchan_close c vcid s = do {
     cx \<leftarrow> st_ctxs s c;
     r \<leftarrow> find_vcid vcid (cx_vchannels cx) s;
     (case r of
        Some v \<Rightarrow> do {
          s1 \<leftarrow> mod_vchan v (\<lambda>vc. vc\<lparr>vc_closed := True\<rparr>) s;
          s2 \<leftarrow> mod_ctx c (\<lambda>cx. cx\<lparr>cx_vchannels := remove1 v (cx_vchannels cx),
                                  cx_vcnt := cx_vcnt cx - 1\<rparr>) s1;
          s3 \<leftarrow> hab_vchan_stop_notify v s2;
          s4 \<leftarrow> hab_vchan_put v s3;
          Some (0, s4)
        }
      | None \<Rightarrow> do {
          (ret, s1) \<leftarrow> hab_stop c vcid s;
          Some (if ret = - EINVAL then - ENODEV else ret, s1)
        })
   }"

end
