(* ===== verification/Hab_Mem_Facts.thy ===== *)
theory Hab_Mem_Facts
  imports Hab_Mem
begin

text \<open>
  What the memory layer guarantees: expansion inverts compression, no region table makes the
  expansion write outside its array, the fault handlers stay within the pages, page lists live as
  long as they are referenced.
\<close>

section \<open>Expanding what was compressed\<close>

lemma fill_region_eq:
  "k + n \<le> length pages \<Longrightarrow>
     fill_region pages k pfn n =
       Some (take k pages @ map (\<lambda>i. pfn + of_nat i) [0..<n] @ drop (k + n) pages)"
proof (induction pages k pfn n rule: fill_region.induct)
  case (2 pages k pfn n)
  have "map (\<lambda>i. pfn + of_nat i) [0..<Suc n] = pfn # map (\<lambda>i. pfn + 1 + of_nat i) [0..<n]"
    by (simp add: upt_conv_Cons map_Suc_upt [symmetric] add.assoc del: upt_Suc)
  then show ?case
    using 2 by (simp add: take_Suc_conv_app_nth drop_update_cancel del: upt_Suc)
qed simp

text \<open>Neighbouring frames at most 2^30 frames apart, in either direction: 4 TB of physical memory.\<close>

definition near :: "u64 \<Rightarrow> u64 \<Rightarrow> bool" where
  "near p q \<longleftrightarrow> - (2 ^ 30) \<le> sint (q - p - 1) \<and> sint (q - p - 1) < 2 ^ 30"

lemma scast_down_ucast: "(scast (d :: u64) :: u32) = ucast d"
  by transfer (simp add: take_bit_signed_take_bit)

lemma near_step:
  assumes "near p q" "n < 2 ^ 28"
  shows "(scast (of_nat n + ucast (q - p - 1) :: u32) :: u64) = of_nat n + (q - p - 1)"
proof -
  let ?d = "q - p - 1"
  have d: "- (2 ^ 30) \<le> sint ?d" "sint ?d < 2 ^ 30"
    using assms(1) by (auto simp: near_def)
  have "(of_nat n + ucast ?d :: u32) = of_int (int n + sint ?d)"
    by (simp add: scast_down_ucast)
  moreover have "sint (of_int (int n + sint ?d) :: u32) = int n + sint ?d"
    unfolding sint_sbintrunc' by (rule signed_take_bit_int_eq_self) (use d assms(2) in simp_all)
  ultimately have "sint (of_nat n + ucast ?d :: u32) = int n + sint ?d"
    by simp
  then have "(scast (of_nat n + ucast ?d :: u32) :: u64) = of_int (int n + sint ?d)"
    by (simp add: scast_eq)
  then show ?thesis
    by simp
qed

fun gaps_ok :: "u64 list \<Rightarrow> bool" where
  "gaps_ok (p # q # ps) \<longleftrightarrow> near p q \<and> gaps_ok (q # ps)"
| "gaps_ok ps \<longleftrightarrow> True"

lemma sint_of_nat_small: "n < 2 ^ 28 \<Longrightarrow> sint (of_nat n :: u32) = int n"
  by (simp add: signed_of_nat signed_take_bit_int_eq_self)

lemma expand_compress_loop:
  assumes "gaps_ok (prev # qs)" "0 < n" "length pages = tot + n + length qs"
    "unat (scast pc :: u64) = tot + n + length qs" "tot + n + length qs < 2 ^ 28"
  shows "expand_regions pc (compress_loop prev n qs) (prev + 1 - of_nat n) tot pages =
           Some (0, take tot pages @ map (\<lambda>i. prev + 1 - of_nat n + of_nat i) [0..<n] @ qs)"
  using assms
proof (induction prev n qs arbitrary: tot pages rule: compress_loop.induct)
  case (1 prev n)
  then show ?case
    by (simp add: sint_of_nat_small fill_region_eq)
next
  case (2 prev n q qs)
  show ?case
  proof (cases "q - 1 = prev")
    case True
    then have q: "q = prev + 1" by (simp add: algebra_simps)
    have "q + 1 - of_nat (n + 1) = prev + 1 - of_nat n" by (simp add: q)
    moreover have "map (\<lambda>i. prev + 1 - of_nat n + of_nat i) [0..<n + 1] =
        map (\<lambda>i. prev + 1 - of_nat n + of_nat i) [0..<n] @ [q]"
      by (simp add: q)
    ultimately show ?thesis
      using "2.IH" (1) [OF True, where tot = tot and pages = pages] "2.prems" True by (simp add: algebra_simps)
  next
    case False
    let ?run = "map (\<lambda>i. prev + 1 - of_nat n + of_nat i) [0..<n]"
    let ?pages = "take tot pages @ ?run @ drop (tot + n) pages"
    have nr: "near prev q" "gaps_ok (q # qs)" using "2.prems" (1) by simp_all
    have n: "n < 2 ^ 28" using "2.prems" by simp
    have pf: "prev + 1 - of_nat n + scast (of_nat n + ucast (q - prev - 1) :: u32) = q"
      using near_step [OF nr(1) n] by simp
    have "expand_regions pc (compress_loop q 1 qs) (q + 1 - of_nat 1) (tot + n) ?pages =
        Some (0, take (tot + n) ?pages @ map (\<lambda>i. q + 1 - of_nat 1 + of_nat i) [0..<1] @ qs)"
      by (rule "2.IH" (2) [OF False]) (use nr "2.prems" in auto)
    moreover have "take (tot + n) ?pages = take tot pages @ ?run" using "2.prems" by simp
    ultimately show ?thesis
      using False "2.prems" n pf
      by (simp add: sint_of_nat_small fill_region_eq Let_def del: map_append)
  qed
qed

section \<open>Hostile tables\<close>

lemma fill_region_length:
  "k + n \<le> length pages \<Longrightarrow> safe (fill_region pages k pfn n) (\<lambda>ps. length ps = length pages)"
  by (simp add: fill_region_eq)

lemma expand_regions_safe:
  "tot \<le> length pages \<Longrightarrow> length pages = unat (scast pc :: u64) \<Longrightarrow>
     safe (expand_regions pc rs pfn tot pages) (\<lambda>(r, ps). length ps = length pages)"
proof (induction pc rs pfn tot pages rule: expand_regions.induct)
  case (2 pc r rs pfn tot pages)
  show ?case
  proof (cases "sint (rg_size r) \<le> 0 \<or> unat (scast pc :: u64) < tot + nat (sint (rg_size r))")
    case True
    then show ?thesis by (auto simp: Let_def)
  next
    case False
    then have k: "tot + nat (sint (rg_size r)) \<le> length pages" using "2.prems" by simp
    have "safe (fill_region pages tot pfn (nat (sint (rg_size r)))) (\<lambda>ps.
        safe (expand_regions pc rs (pfn + scast (rg_size r + rg_space r))
               (tot + nat (sint (rg_size r))) ps) (\<lambda>(q, qs). length qs = length pages))"
    proof (rule safe_mono [OF fill_region_length [OF k]])
      fix ps assume f: "fill_region pages tot pfn (nat (sint (rg_size r))) = Some ps"
        and "length ps = length pages"
      then show "safe (expand_regions pc rs (pfn + scast (rg_size r + rg_space r))
          (tot + nat (sint (rg_size r))) ps) (\<lambda>(q, qs). length qs = length pages)"
        using "2.IH" [OF _ refl _ f] False k "2.prems" by (simp add: not_less)
    qed
    with False show ?thesis by (simp add: Let_def)
  qed
qed auto

lemma unat_scast_small:
  "0 \<le> sint (w :: u32) \<Longrightarrow> unat (scast w :: u64) = nat (sint w)"
proof -
  assume "0 \<le> sint w"
  moreover have "sint w < 2 ^ 31" using sint_lt [of w] by simp
  ultimately have "uint (of_int (sint w) :: u64) = sint w"
    unfolding uint_word_of_int_eq by (intro take_bit_int_eq_self) simp_all
  then show ?thesis unfolding unat_eq_nat_uint by (simp only: scast_eq)
qed

lemma pages_array_len_small:
  "0 \<le> sint pc \<Longrightarrow> sint pc \<le> 0xFFFFF \<Longrightarrow> pages_array_len pc = nat (sint pc)"
  by (simp add: pages_array_len_def sint_word_mult signed_take_bit_int_eq_self nat_mult_distrib)

lemma mm_alloc_frame:
  "mm_alloc m = (ok, m') \<Longrightarrow> m' = m\<lparr>mm_fail := tl (mm_fail m)\<rparr> \<and> (mm_fail m = [] \<longrightarrow> ok)"
  by (auto simp: mm_alloc_def split: list.splits)

lemma pages_of_table_safe:
  assumes "0 \<le> sint pc" "sint pc \<le> 0xFFFFF"
    "compressed_pfns_hdr + nat (sint (field32 8 payload)) * region_size \<le> length payload"
  shows "safe (pages_of_table valid pc payload m) (\<lambda>((r, ps), m').
           (r = 0 \<longrightarrow> length ps = nat (sint pc)) \<and> mm_pglists m' = mm_pglists m \<and> mm_next m' = mm_next m)"
proof -
  obtain ok1 m1 where m1: "mm_alloc m = (ok1, m1)" by fastforce
  obtain ok2 m2 where m2: "mm_alloc m1 = (ok2, m2)" by fastforce
  have fr: "mm_pglists m1 = mm_pglists m" "mm_next m1 = mm_next m"
      "mm_pglists m2 = mm_pglists m" "mm_next m2 = mm_next m"
    using mm_alloc_frame [OF m1] mm_alloc_frame [OF m2] by simp_all
  let ?t = "dec_pfns (nat (sint (field32 8 payload))) payload"
  have "safe (expand_regions pc (cp_region ?t) (cp_first_pfn ?t) 0 (replicate (pages_array_len pc) 0))
      (\<lambda>(r, ps). length ps = nat (sint pc))"
    using expand_regions_safe [of 0 "replicate (pages_array_len pc) 0" pc "cp_region ?t"] assms
    by (simp add: pages_array_len_small unat_scast_small)
  then show ?thesis
    using assms(3) fr
    by (auto simp: pages_of_table_def Let_def m1 m2 safe_ex)
qed

lemma pages_list_create_safe:
  assumes "0 \<le> sint pc" "sint pc \<le> 0xFFFFF"
    "compressed_pfns_hdr + nat (sint (field32 8 payload)) * region_size \<le> length payload"
  shows "safe (pages_list_create valid pc payload uf eid vcid pch m) (\<lambda>(r, m').
           case r of Inl e \<Rightarrow> e \<noteq> 0 \<and> mm_pglists m' = mm_pglists m
           | Inr g \<Rightarrow> (\<exists>pl. g = mm_next m \<and> mm_pglists m' = (mm_pglists m)(g \<mapsto> pl) \<and>
               pl_npages pl = sint pc \<and> int (length (pl_pages pl)) = pl_npages pl \<and> pl_refcount pl = 1))"
  unfolding pages_list_create_def safe_simps
  by (rule safe_mono [OF pages_of_table_safe [OF assms]])
     (use assms(1) in \<open>auto simp: Let_def intro!: exI [where x = "pages_list.make _ _ _ _ _ _ _ _ _"]
        simp: pages_list.defs\<close>)

section \<open>Scatterlists\<close>

text \<open>The frames a scatterlist names, and the regions \<^verbatim>\<open>habmem_compress_pfns\<close> makes of its start.\<close>

definition sg_frames :: "(u64 \<times> nat) list \<Rightarrow> u64 list" where
  "sg_frames sg = concat (map (\<lambda>(pg, n). map (\<lambda>i. pg + of_nat i) [0..<n]) sg)"

fun sg_regions :: "nat \<Rightarrow> (u64 \<times> nat) list \<Rightarrow> region list" where
  "sg_regions c [] = []"
| "sg_regions c ((pg, n) # sg) =
     (if c \<le> n \<or> sg = [] then [\<lparr>rg_size = of_nat c, rg_space = 0\<rparr>]
      else \<lparr>rg_size = of_nat n, rg_space = ucast (fst (List.hd sg) - (pg + of_nat (n - 1)) - 1)\<rparr>
             # sg_regions (c - n) sg)"

lemma set_last_space_snoc [simp]: "set_last_space sp (rs @ [r]) = rs @ [r\<lparr>rg_space := sp\<rparr>]"
  by (simp add: set_last_space_def)

lemma compress_sg_regions:
  assumes "\<forall>(pg, n) \<in> set sg. 0 < n" "sg \<noteq> []" "c \<le> sum_list (map snd sg)" "0 < c"
    "first' = (if rs = [] then fst (List.hd sg) else first)"
  shows "compress_sg 0 c first pre rs sg =
           (first', set_last_space (ucast (fst (List.hd sg) - pre - 1)) rs @ sg_regions c sg)"
  using assms
proof (induction sg arbitrary: c first first' pre rs)
  case (Cons e sg)
  obtain pg n where e: "e = (pg, n)" by fastforce
  show ?case
  proof (cases "c \<le> n")
    case True
    with Cons.prems show ?thesis by (simp add: e)
  next
    case False
    then have "sg \<noteq> []" using Cons.prems by (auto simp: e)
    with False Cons.prems Cons.IH [where c = "c - n" and first' = first'] show ?thesis
      by (simp add: e Let_def)
  qed
qed simp

fun sg_gaps_ok :: "(u64 \<times> nat) list \<Rightarrow> bool" where
  "sg_gaps_ok ((pg, n) # (pg', n') # sg) \<longleftrightarrow>
     near (pg + of_nat (n - 1)) pg' \<and> sg_gaps_ok ((pg', n') # sg)"
| "sg_gaps_ok sg \<longleftrightarrow> True"

lemma sg_frames_simps [simp]:
  "sg_frames [] = []"
  "sg_frames ((pg, n) # sg) = map (\<lambda>i. pg + of_nat i) [0..<n] @ sg_frames sg"
  by (simp_all add: sg_frames_def)

lemma expand_sg_regions:
  assumes "\<forall>(pg, n) \<in> set sg. 0 < n" "sg \<noteq> []" "0 < c" "c \<le> sum_list (map snd sg)" "sg_gaps_ok sg"
    "length pages = tot + c" "unat (scast pc :: u64) = tot + c" "tot + c < 2 ^ 28"
  shows "expand_regions pc (sg_regions c sg) (fst (List.hd sg)) tot pages =
           Some (0, take tot pages @ take c (sg_frames sg))"
  using assms
proof (induction sg arbitrary: c tot pages)
  case (Cons e sg)
  obtain pg n where e: "e = (pg, n)" by fastforce
  show ?case
  proof (cases "c \<le> n")
    case True
    with Cons.prems show ?thesis
      by (simp add: e sint_of_nat_small fill_region_eq take_map)
  next
    case False
    with Cons.prems obtain pg' n' sg' where sg: "sg = (pg', n') # sg'"
      by (cases sg) (auto simp: e)
    have n: "0 < n" "n < 2 ^ 28" using Cons.prems False by (auto simp: e)
    have "near (pg + of_nat (n - 1)) pg'" using Cons.prems(5) by (simp add: e sg)
    from near_step [OF this n(2)]
    have pf: "pg + scast (of_nat n + ucast (pg' - (pg + of_nat (n - 1)) - 1) :: u32) = pg'"
      using n(1) by (simp add: of_nat_diff)
    let ?run = "map (\<lambda>i. pg + of_nat i) [0..<n]"
    let ?pages = "take tot pages @ ?run @ drop (tot + n) pages"
    have "expand_regions pc (sg_regions (c - n) sg) (fst (List.hd sg)) (tot + n) ?pages =
        Some (0, take (tot + n) ?pages @ take (c - n) (sg_frames sg))"
      by (rule Cons.IH) (use Cons.prems False in \<open>auto simp: e sg\<close>)
    moreover have "take (tot + n) ?pages = take tot pages @ ?run" using Cons.prems False by simp
    ultimately show ?thesis
      using Cons.prems False pf n
      by (simp add: e sg sint_of_nat_small fill_region_eq Let_def del: map_append sg_regions.simps
            add: sg_regions.simps(2) [of c pg n "(pg', n') # sg'"])
  qed
qed simp

section \<open>What the memory layer promises\<close>

lemma length_compress_loop: "length (compress_loop p n qs) \<le> length qs + 1"
  by (induction p n qs rule: compress_loop.induct) auto

lemma mm_alloc_ok: "mm_fail m = [] \<Longrightarrow> mm_alloc m = (True, m)"
  by (simp add: mm_alloc_def)

lemma length_enc_pfns: "length (enc_pfns t) = compressed_pfns_hdr + region_size * length (cp_region t)"
  by (simp add: enc_pfns_def)

lemma field32_nregions: "field32 8 (enc_pfns t @ rest) = cp_nregions t"
  by (simp add: enc_pfns_def)

lemma pages_of_table_enc:
  assumes "cp_nregions t = of_nat (length (cp_region t))" "length (cp_region t) < 2 ^ 28"
    "valid (cp_first_pfn t)" "mm_fail m = []" "0 < n" "n < 2 ^ 20"
  shows "pages_of_table valid (of_nat n) (enc_pfns t @ rest) m =
           map_option (\<lambda>r. (r, m)) (expand_regions (of_nat n) (cp_region t) (cp_first_pfn t) 0
             (replicate n 0))"
proof -
  have "sint (field32 8 (enc_pfns t @ rest)) = int (length (cp_region t))"
    using assms(1,2) by (simp add: field32_nregions sint_of_nat_small)
  moreover have "pages_array_len (of_nat n) = n"
    using assms(5,6) by (simp add: pages_array_len_small sint_of_nat_small)
  ultimately show ?thesis
    using assms by (simp add: pages_of_table_def Let_def length_enc_pfns dec_pfns_enc mm_alloc_ok
        map_conv_bind_option comp_def)
qed

text \<open>
  C8. What an importer maps is what the exporter shared, for buffers of the driver's own making: take a page array
  of fewer than 2^20 pages whose neighbours are less than 2^30 frames apart in either direction and whose first
  frame the importer takes for valid, compress it as \<^verbatim>\<open>habmem_compress_pfns\<close> does with such a buffer, send the
  table with anything after it, and, while allocations succeed, \<^verbatim>\<open>pages_list_create\<close> builds a page list with
  exactly that page array and one reference.  (The path of \<^verbatim>\<open>habmem_compress_pfns\<close> for the scatterlist of
  another driver's buffer is not the subject: it does compute gaps wrongly.)\<close>

theorem import_recovers_exported_pages:
  assumes "pages \<noteq> []" "length pages < 2 ^ 20" "gaps_ok pages" "valid (List.hd pages)" "mm_fail m = []"
  shows "\<exists>t m' pl. compress_own pages (length pages) = Some t \<and>
    pages_list_create valid (of_nat (length pages)) (enc_pfns t @ rest) uf eid vcid pch m =
      Some (Inr (mm_next m), m') \<and>
    mm_pglists m' (mm_next m) = Some pl \<and> pl_pages pl = pages \<and> pl_refcount pl = 1"
proof -
  obtain q qs where pages: "pages = q # qs" using assms(1) by (cases pages) auto
  let ?n = "length pages" and ?t = "mk_pfns q (compress_loop q 1 qs)"
  have n: "0 < ?n" "unat (scast (of_nat ?n :: u32) :: u64) = ?n"
    using assms(1,2) unat_scast_small [of "of_nat ?n"] by (simp_all add: sint_of_nat_small)
  have t: "compress_own pages ?n = Some ?t" by (simp add: compress_own_def pages)
  have "expand_regions (of_nat ?n) (compress_loop q 1 qs) (q + 1 - of_nat 1) 0 (replicate ?n 0) =
      Some (0, take 0 (replicate ?n 0) @ map (\<lambda>i. q + 1 - of_nat 1 + of_nat i) [0..<1] @ qs)"
    by (rule expand_compress_loop) (use assms n in \<open>simp_all add: pages\<close>)
  then have "pages_of_table valid (of_nat ?n) (enc_pfns ?t @ rest) m = Some ((0, pages), m)"
    using pages_of_table_enc [of ?t valid m ?n rest] length_compress_loop [of q 1 qs] assms
    by (simp add: mk_pfns_def pages)
  then show ?thesis
    by (intro exI [of _ ?t]) (simp add: t pages_list_create_def Let_def)
qed

definition mem_example :: mem_state where
  "mem_example = \<lparr>mm_pglists = Map.empty, mm_imp_list = [], mm_imp_cnt = 0, mm_dmabufs = Map.empty,
     mm_next = 7, mm_fail = [], mm_fds = [], mm_fd_next = 3, mm_vmas = []\<rparr>"

definition frames_example :: "u64 list" where
  "frames_example = [100, 101, 102, 200, 90, 91]"

theorem import_recovers_exported_pages_witness:
  "\<exists>t m' pl. compress_own frames_example (length frames_example) = Some t \<and>
    pages_list_create (\<lambda>pfn. pfn < 1000) (of_nat (length frames_example)) (enc_pfns t @ [0, 0, 0, 0])
      0 1 2 None mem_example = Some (Inr (mm_next mem_example), m') \<and>
    mm_pglists m' (mm_next mem_example) = Some pl \<and> pl_pages pl = frames_example \<and> pl_refcount pl = 1"
  by (rule import_recovers_exported_pages)
     (simp_all add: near_def mem_example_def frames_example_def)

text \<open>
  C34. No region table makes the importing side write outside its page array: whatever bytes the peer
  sent, once \<^verbatim>\<open>hab_receive_export_desc\<close> has checked the number of pages (0 to 2^20 - 1) and that the
  message is as long as its number of regions says, \<^verbatim>\<open>pages_list_create\<close> runs without a fault; it
  either reports an error and leaves every page list alone, or creates one whose array has exactly
  \<open>npages\<close> entries, the promised number.\<close>

theorem pages_list_create_any_table:
  assumes "0 \<le> sint pc" "sint pc \<le> 0xFFFFF" "12 + nat (sint (field32 8 payload)) * 8 \<le> length payload"
  shows "\<exists>r m'. pages_list_create valid pc payload uf eid vcid pch m = Some (r, m') \<and>
    (case r of Inl e \<Rightarrow> e \<noteq> 0 \<and> mm_pglists m' = mm_pglists m
     | Inr g \<Rightarrow> (\<exists>pl. mm_pglists m' = (mm_pglists m)(g \<mapsto> pl) \<and>
         pl_npages pl = sint pc \<and> int (length (pl_pages pl)) = pl_npages pl))"
proof -
  obtain r m' where "pages_list_create valid pc payload uf eid vcid pch m = Some (r, m')"
    using pages_list_create_safe [OF assms, of valid uf eid vcid pch m] by (auto simp: safe_ex)
  with pages_list_create_safe [OF assms, of valid uf eid vcid pch m] show ?thesis
    by (cases r) auto
qed

theorem pages_list_create_any_table_witness:
  "\<exists>r m'. pages_list_create (\<lambda>_. True) 3
      (enc_pfns \<lparr>cp_first_pfn = 5, cp_nregions = 2, cp_region =
         [\<lparr>rg_size = 2, rg_space = 0xFFFFFFF0\<rparr>, \<lparr>rg_size = 0x7FFFFFFF, rg_space = 1\<rparr>]\<rparr>)
      0 1 2 None mem_example = Some (r, m') \<and>
    (case r of Inl e \<Rightarrow> e \<noteq> 0 \<and> mm_pglists m' = mm_pglists mem_example
     | Inr g \<Rightarrow> (\<exists>pl. mm_pglists m' = (mm_pglists mem_example)(g \<mapsto> pl) \<and>
         pl_npages pl = sint (3 :: u32) \<and> int (length (pl_pages pl)) = pl_npages pl))"
  by (rule pages_list_create_any_table)
     (simp_all add: field32_nregions [where rest = "[]", simplified] length_enc_pfns)

text \<open>
  C37. For a buffer another driver exported, the table built from its scatterlist names the first
  \<open>page_count\<close> frames of the scatterlist in order, whatever the sizes of its entries, when the
  buffer is shared from its beginning.\<close>

theorem scatterlist_roundtrip:
  assumes "\<forall>(pg, n) \<in> set sg. 0 < n" "sg \<noteq> []" "0 < c" "c \<le> sum_list (map snd sg)" "sg_gaps_ok sg"
    "c < 2 ^ 20"
  shows "\<exists>first rs. compress_sg 0 c 0 0 [] sg = (first, rs) \<and>
    expand_regions (of_nat c) rs first 0 (replicate c 0) = Some (0, take c (sg_frames sg))"
proof -
  have "compress_sg 0 c 0 0 [] sg = (fst (List.hd sg), sg_regions c sg)"
    using compress_sg_regions [OF assms(1,2,4,3), of "fst (List.hd sg)" "[]" 0 0]
    by (simp add: set_last_space_def)
  moreover have "expand_regions (of_nat c) (sg_regions c sg) (fst (List.hd sg)) 0 (replicate c 0) =
      Some (0, take 0 (replicate c 0) @ take c (sg_frames sg))"
    by (rule expand_sg_regions)
       (use assms in \<open>simp_all add: unat_scast_small sint_of_nat_small\<close>)
  ultimately show ?thesis by simp
qed

theorem scatterlist_roundtrip_witness:
  "\<exists>first rs. compress_sg 0 6 0 0 [] [(0x100, 4), (0x200, 1), (0x80, 9)] = (first, rs) \<and>
    expand_regions (of_nat 6) rs first 0 (replicate 6 0) =
      Some (0, take 6 (sg_frames [(0x100, 4), (0x200, 1), (0x80, 9)]))"
  by (rule scatterlist_roundtrip) (simp_all add: near_def)

text \<open>
  Shared from an offset inside the first entry, the same buffer is described wrongly: here a
  buffer of two four-page entries shared from its second page on.  The gap before the second entry
  is computed from a page that ignores the offset, so the importer maps frames 0x201 to 0x203 where
  the exporter meant 0x200 to 0x202: a page outside the shared range is exposed and one is lost.\<close>

theorem scatterlist_offset_shares_wrong_pages:
  "(case compress_sg 1 6 0 0 [] [(0x100, 4), (0x200, 4)] of (first, rs) \<Rightarrow>
      expand_regions 6 rs first 0 (replicate 6 0)) =
     Some (0, [0x101, 0x102, 0x103, 0x201, 0x202, 0x203]) \<and>
   take 6 (drop 1 (sg_frames [(0x100, 4), (0x200, 4)])) =
     [0x101, 0x102, 0x103, 0x200, 0x201, 0x202]"
  by code_simp

text \<open>
  C35. A user mapping that \<^verbatim>\<open>hab_mem_mmap\<close> accepted never makes \<^verbatim>\<open>hab_buffer_fault\<close> read outside the
  page array, although the handler's own bound lets the index \<open>npages\<close> through: every address of the
  mapping gets the page at its own index.\<close>

theorem mmap_then_fault_in_bounds:
  assumes "hab_mem_mmap pl vm_start vm_end = 0" "int (length (pl_pages pl)) = pl_npages pl"
    "vm_start \<le> address" "address < vm_end"
  shows "hab_buffer_fault pl vm_start address =
    Some (FaultPage (pl_pages pl ! ((address - vm_start) div 4096)))"
proof -
  let ?k = "(address - vm_start) div 4096"
  have n: "pl_npages pl = int (length (pl_pages pl))" using assms(2) by simp
  have "unat (of_int (pl_npages pl * 4096) :: u32) \<le> length (pl_pages pl) * 4096"
  proof -
    have "(of_int (pl_npages pl * 4096) :: u32) = of_nat (length (pl_pages pl) * 4096)"
      by (simp add: n)
    then show ?thesis by (metis unat_of_nat mod_less_eq_dividend)
  qed
  with assms have "address - vm_start < length (pl_pages pl) * 4096"
    by (auto simp: hab_mem_mmap_def Let_def split: if_splits)
  then have "?k < length (pl_pages pl)"
    by (simp add: less_mult_imp_div_less)
  then show ?thesis by (simp add: hab_buffer_fault_def Let_def n)
qed

definition pglist_example :: pages_list where
  "pglist_example = \<lparr>pl_pages = [7, 9], pl_npages = 2, pl_vmapping = False, pl_userflags = 0,
     pl_export_id = 1, pl_vcid = 2, pl_pchan = None, pl_type = HAB_PAGE_LIST_IMPORT, pl_refcount = 1\<rparr>"

theorem mmap_then_fault_in_bounds_witness:
  "hab_buffer_fault pglist_example 0x10000 0x11FFF =
     Some (FaultPage (pl_pages pglist_example ! ((0x11FFF - 0x10000) div 4096)))"
  by (rule mmap_then_fault_in_bounds [where vm_end = "0x12000"])
     (simp_all add: pglist_example_def hab_mem_mmap_def)

text \<open>
  C38. \<^verbatim>\<open>hab_map_fault\<close> stays within the page array for every address and every page offset of the
  mapping: it delivers a page of the list or SIGBUS.\<close>

theorem map_fault_in_bounds:
  assumes "int (length (pl_pages pl)) = pl_npages pl"
  shows "hab_map_fault pl vm_start vm_pgoff address = Some VM_FAULT_SIGBUS \<or>
    (\<exists>pg \<in> set (pl_pages pl). hab_map_fault pl vm_start vm_pgoff address = Some (FaultPage pg))"
  using assms by (auto simp: hab_map_fault_def Let_def)

theorem map_fault_in_bounds_witness:
  "hab_map_fault pglist_example 0 1 0 = Some VM_FAULT_SIGBUS \<or>
    (\<exists>pg \<in> set (pl_pages pglist_example). hab_map_fault pglist_example 0 1 0 = Some (FaultPage pg))"
  by (rule map_fault_in_bounds) (simp add: pglist_example_def)

end
