(* ===== verification/Hab_Msg_Safe.thy ===== *)
theory Hab_Msg_Safe
  imports Hab_Msg
begin

text \<open>
  Received messages under the invariant: whatever bytes the other side puts on a channel,
  \<^verbatim>\<open>hab_msg_recv\<close> does not fault and keeps the invariant, except for the two cases its statement
  excludes: a time stamp written into a scattered message, and an import request that reaches an
  export of another context.
\<close>

section \<open>Message buffers\<close>

lemma to_size_t_nonneg: "0 \<le> i \<Longrightarrow> i < 2 ^ 64 \<Longrightarrow> to_size_t i = nat i"
  by (simp add: to_size_t_def)

lemma kallocs_frame: "kallocs n s = (ok, s') \<Longrightarrow> \<exists>m. s' = s\<lparr>st_mem := m\<rparr>"
proof (induction n arbitrary: s)
  case 0
  then have "s' = s\<lparr>st_mem := st_mem s\<rparr>" by simp
  then show ?case by blast
next
  case (Suc n)
  obtain o1 s1 where k: "kalloc s = (o1, s1)" by fastforce
  with kalloc_frame have s1: "s1 = s\<lparr>st_mem := tl (st_mem s)\<rparr>" by blast
  show ?case
  proof (cases o1)
    case True
    with Suc k obtain m where "s' = s1\<lparr>st_mem := m\<rparr>" by auto
    then show ?thesis by (auto simp: s1)
  next
    case False
    with Suc k s1 show ?thesis by auto
  qed
qed

lemma hyp_frame_trans: "hyp_frame p s s' \<Longrightarrow> hyp_frame p s' s'' \<Longrightarrow> hyp_frame p s s''"
  unfolding hyp_frame_def by auto blast

lemma sum_list_pages: "\<forall>n \<in> set ns. n \<le> PAGE_SIZE \<Longrightarrow> sum_list ns \<le> PAGE_SIZE * length ns"
  by (induction ns) auto

lemma read_pages_wf:
  assumes "drv_wf D hp hv hc s" "readable p s"
  shows "safe (read_pages p ns s) (\<lambda>(t, ps, s'). drv_wf D hp hv hc s' \<and> readable p s' \<and> hyp_frame p s s' \<and>
    0 \<le> t \<and> t \<le> int (sum_list ns) \<and> map (\<lambda>q. length (page_bytes q)) ps = ns \<and>
    list_all (\<lambda>q. \<exists>b. q = Pg b) ps)"
  using assms
proof (induction ns arbitrary: s)
  case Nil
  from readable_pchan [OF Nil(2)] obtain pc where "st_pchans s p = Some pc" by blast
  with Nil show ?case by (simp add: hyp_frame_refl)
next
  case (Cons n ns)
  from read_wf [OF Cons.prems, of n] obtain r b s1 where r: "physical_channel_read p n s = Some (r, b, s1)"
    "drv_wf D hp hv hc s1" "readable p s1" "r \<le> int n" "0 \<le> r" "hyp_frame p s s1" unfolding safe_ex by auto
  from Cons.IH [OF r(2,3)] obtain t ps s2 where t: "read_pages p ns s1 = Some (t, ps, s2)"
    "drv_wf D hp hv hc s2" "readable p s2" "hyp_frame p s1 s2" "0 \<le> t" "t \<le> int (sum_list ns)"
    "map (\<lambda>q. length (page_bytes q)) ps = ns" "list_all (\<lambda>q. \<exists>b. q = Pg b) ps" unfolding safe_ex by auto
  show ?case using r t hyp_frame_trans [OF r(6) t(4)] by simp
qed

lemma page_sizes_facts:
  "\<forall>n \<in> set (page_sizes k). n \<le> PAGE_SIZE" "sum_list (page_sizes k) = k"
proof -
  show "\<forall>n \<in> set (page_sizes k). n \<le> PAGE_SIZE" by (auto simp: page_sizes_def less_imp_le)
  show "sum_list (page_sizes k) = k" by (auto simp: page_sizes_def sum_list_replicate mult.commute)
qed

lemma page_sizes_butlast: "n \<in> set (butlast (page_sizes k)) \<Longrightarrow> n = PAGE_SIZE"
  by (auto simp: page_sizes_def butlast_append split: if_splits dest!: in_set_butlastD)

text \<open>An allocated message is fit to be freed later, and only the channel's transport moved.\<close>

lemma scatter_alloc_wf:
  assumes wf: "drv_wf D hp hv hc s" and r: "readable p s" and k: "k \<le> HAB_HEADER_SIZE_MAX"
  shows "safe (hab_scatter_msg_alloc p k s) (\<lambda>(m, s'). drv_wf D hp hv hc s' \<and> readable p s' \<and> hyp_frame p s s' \<and>
    (\<forall>m'. m = Some m' \<longrightarrow> msg_ok m' \<and> ms_sizebytes m' \<le> k))"
proof -
  from readable_pchan [OF r] obtain pc where p: "st_pchans s p = Some pc" by blast
  show ?thesis
  proof (cases "k \<le> PAGE_SIZE")
    case True
    with wf r p show ?thesis by (simp add: hab_scatter_msg_alloc_def hyp_frame_refl)
  next
    case False
    obtain ok s1 where ka: "kallocs (1 + length (page_sizes k)) s = (ok, s1)" by fastforce
    from kallocs_frame [OF this] obtain m where s1: "s1 = s\<lparr>st_mem := m\<rparr>" by blast
    have wf1: "drv_wf D hp hv hc s1" "readable p s1" "hyp_frame p s s1"
      using wf r p by (simp_all add: s1 hyp_frame_mem)
    from read_pages_wf [OF wf1(1,2), of "page_sizes k"] page_sizes_facts [of k]
    obtain t ps s2 where t: "read_pages p (page_sizes k) s1 = Some (t, ps, s2)"
      "drv_wf D hp hv hc s2" "readable p s2" "hyp_frame p s1 s2" "0 \<le> t" "t \<le> int k"
      "map (\<lambda>q. length (page_bytes q)) ps = page_sizes k" "list_all (\<lambda>q. \<exists>b. q = Pg b) ps"
      unfolding safe_ex by auto
    have "pages_full ps"
      by (rule pages_fullI [OF t(8)]) (unfold t(7), use page_sizes_facts(1) [of k] page_sizes_butlast in auto)
    moreover have "k = length (concat (map page_bytes ps))"
      using t(7) page_sizes_facts(2) [of k] by (simp add: length_concat comp_def)
    moreover have "to_size_t t \<le> k" using t(5,6) k by (simp add: to_size_t_def)
    moreover from readable_pchan [OF t(3)] obtain pc2 where "st_pchans s2 p = Some pc2" by blast
    ultimately show ?thesis
      using False ka wf1 t hyp_frame_trans [OF wf1(3) t(4)]
      by (auto simp: hab_scatter_msg_alloc_def msg_ok_def)
  qed
qed

lemma msg_alloc_wf:
  assumes wf: "drv_wf D hp hv hc s" and r: "readable p s"
  shows "safe (hab_msg_alloc p k s) (\<lambda>(m, s'). drv_wf D hp hv hc s' \<and> readable p s' \<and> hyp_frame p s s' \<and>
    (\<forall>m'. m = Some m' \<longrightarrow> msg_ok m' \<and> (k \<le> PAGE_SIZE \<longrightarrow> (\<exists>b. ms_body m' = Flat b \<and> length b = k))))"
proof -
  from readable_pchan [OF r] obtain pc where p: "st_pchans s p = Some pc" by blast
  obtain ok s1 where ka: "kalloc s = (ok, s1)" by fastforce
  with kalloc_frame have s1: "s1 = s\<lparr>st_mem := tl (st_mem s)\<rparr>" by blast
  have wf1: "drv_wf D hp hv hc s1" "readable p s1" "hyp_frame p s s1"
    using wf r p by (simp_all add: s1 hyp_frame_mem)
  show ?thesis
  proof (cases "HAB_HEADER_SIZE_MAX < k")
    case True
    with wf r p show ?thesis by (simp add: hab_msg_alloc_def hyp_frame_refl)
  next
    case small: False
    show ?thesis
    proof (cases ok)
      case True
      from read_wf [OF wf1(1,2), of k] obtain r b s2 where r: "physical_channel_read p k s1 = Some (r, b, s2)"
        "drv_wf D hp hv hc s2" "readable p s2" "hyp_frame p s1 s2" "r \<le> int k" "0 \<le> r" unfolding safe_ex by auto
      have "to_size_t r \<le> k" using r(5,6) small by (simp add: to_size_t_def)
      moreover from readable_pchan [OF r(3)] obtain pc2 where "st_pchans s2 p = Some pc2" by blast
      ultimately show ?thesis using True small ka r hyp_frame_trans [OF wf1(3) r(4)]
        by (simp add: hab_msg_alloc_def msg_ok_def)
    next
      case False
      have none: "hab_scatter_msg_alloc p k s1 = Some (None, s1)" if "k \<le> PAGE_SIZE"
        using that by (simp add: hab_scatter_msg_alloc_def)
      show ?thesis
        using scatter_alloc_wf [OF wf1(1,2), of k] False small ka none hyp_frame_trans [OF wf1(3)]
        by (cases "k \<le> PAGE_SIZE") (auto simp: hab_msg_alloc_def wf1 elim!: safe_mono)
    qed
  qed
qed

lemma msg_queue_wf:
  assumes wf: "drv_wf D hp hv hc s" and v: "st_vchans s v = Some vc" and m: "msg_ok m"
  shows "safe (hab_msg_queue v m s) (drv_wf D hp hv hc)"
proof -
  have "drv_wf D hp hv hc (s\<lparr>st_vchans := (st_vchans s)(v \<mapsto> vc\<lparr>vc_rx_list := vc_rx_list vc @ [m]\<rparr>)\<rparr>)"
    by (rule drv_wf_vchan_fields [OF wf v]) (use wf v m in \<open>auto simp: drv_wf_def rx_ok_def\<close>)
  then show ?thesis using v by (simp add: hab_msg_queue_def safe_mod)
qed

lemma stamp_ok:
  assumes "ms_body m = Flat b" "off + 8 \<le> length b"
  shows "\<exists>m' b'. stamp_message off w m = Some m' \<and> ms_body m' = Flat b' \<and> length b' = length b \<and>
    (msg_ok m \<longrightarrow> msg_ok m')"
  using assms by (auto simp: stamp_message_def patch64_def msg_ok_def)

section \<open>Each kind of message\<close>

lemma hyp_vchans: "hyp_frame p s s' \<Longrightarrow> st_vchans s' = st_vchans s"
  by (auto simp: hyp_frame_def)

lemma hyp_ctxs: "hyp_frame p s s' \<Longrightarrow> st_ctxs s' = st_ctxs s"
  by (auto simp: hyp_frame_def)

lemma hyp_exps: "hyp_frame p s s' \<Longrightarrow> st_exps s' = st_exps s"
  by (auto simp: hyp_frame_def)

lemma hyp_idr: "hyp_frame p s s' \<Longrightarrow> st_pchans s' q = Some pc' \<Longrightarrow>
    \<exists>pc. st_pchans s q = Some pc \<and> pc_expid_idr pc' = pc_expid_idr pc \<and> pc_mem_proto pc' = pc_mem_proto pc"
  by (auto simp: hyp_frame_def split: if_splits)

text \<open>
  The messages of a virtual channel are handled by someone who holds a reference to it, so the
  channel and its context are there.  \<open>vmsg\<close> is the situation: invariant, readable channel, and \<open>v\<close>.
\<close>

definition vmsg ::
  "(nat \<Rightarrow> nat) \<Rightarrow> (nat \<Rightarrow> nat) \<Rightarrow> (nat \<Rightarrow> nat) \<Rightarrow> nat \<Rightarrow> nat \<Rightarrow> virtual_channel \<Rightarrow> hab_driver \<Rightarrow> bool" where
  "vmsg hp hv hc p v vc s \<longleftrightarrow> drv_wf {} hp hv hc s \<and> readable p s \<and> st_vchans s v = Some vc \<and> vc_pchan vc = p"

lemma vmsg_hyp: "vmsg hp hv hc p v vc s \<Longrightarrow> hyp_frame p s s' \<Longrightarrow> drv_wf {} hp hv hc s' \<Longrightarrow> readable p s' \<Longrightarrow>
    vmsg hp hv hc p v vc s'"
  using hyp_vchans by (simp add: vmsg_def)

lemma vmsg_mem: "vmsg hp hv hc p v vc s \<Longrightarrow> kalloc s = (ok, s') \<Longrightarrow> vmsg hp hv hc p v vc s'"
  using kalloc_frame by (fastforce simp: vmsg_def)

lemma vmsg_read:
  assumes "vmsg hp hv hc p v vc s"
  shows "safe (physical_channel_read p n s) (\<lambda>(r, b, s'). vmsg hp hv hc p v vc s' \<and> length b \<le> n \<and> r \<le> int n \<and>
    0 \<le> r \<and> hyp_frame p s s')"
  using read_wf [of "{}" hp hv hc s p n] assms vmsg_hyp [OF assms]
  by (auto simp: vmsg_def elim!: safe_mono)

lemma recv_message_wf:
  assumes "vmsg hp hv hc p v vc s"
  shows "safe (recv_message p v k s) (drv_wf {} hp hv hc)"
proof -
  from msg_alloc_wf [of "{}" hp hv hc s p k] assms obtain m s1 where m: "hab_msg_alloc p k s = Some (m, s1)"
    "drv_wf {} hp hv hc s1" "hyp_frame p s s1" "\<And>m'. m = Some m' \<Longrightarrow> msg_ok m'"
    unfolding safe_ex vmsg_def by auto
  have "st_vchans s1 v = Some vc" using assms hyp_vchans [OF m(3)] by (simp add: vmsg_def)
  with m msg_queue_wf [OF m(2)] show ?thesis by (cases m) (simp_all add: recv_message_def)
qed

lemma recv_profile_wf:
  assumes "vmsg hp hv hc p v vc s" "k \<le> PAGE_SIZE"
  shows "safe (recv_profile p v k s) (drv_wf {} hp hv hc)"
proof (cases "k < xing_vm_stat_size")
  case True
  with assms show ?thesis by (simp add: recv_profile_def vmsg_def)
next
  case False
  from msg_alloc_wf [of "{}" hp hv hc s p k] assms obtain m s1 where m: "hab_msg_alloc p k s = Some (m, s1)"
    "drv_wf {} hp hv hc s1" "hyp_frame p s s1" "\<And>m'. m = Some m' \<Longrightarrow> msg_ok m' \<and> (\<exists>b. ms_body m' = Flat b \<and> length b = k)"
    unfolding safe_ex vmsg_def by auto
  have v: "st_vchans s1 v = Some vc" using assms hyp_vchans [OF m(3)] by (simp add: vmsg_def)
  show ?thesis
  proof (cases m)
    case None
    with m False show ?thesis by (simp add: recv_profile_def)
  next
    case (Some m')
    from m(4) [OF Some] obtain b where b: "ms_body m' = Flat b" "length b = k" and m': "msg_ok m'" by blast
    from stamp_ok [OF b(1), of 16] b(2) False obtain m1 b1 where m1:
      "stamp_message 16 (of_int (st_now s)) m' = Some m1" "ms_body m1 = Flat b1" "length b1 = k" "msg_ok m1" using m' by fastforce
    from stamp_ok [OF m1(2), of 24] m1(3) False obtain m2 b2 where m2:
      "stamp_message 24 (of_int (st_now_ns s div 1000)) m1 = Some m2" "ms_body m2 = Flat b2" "msg_ok m2" using m1(4) by fastforce
    with m m1 m2 Some False msg_queue_wf [OF m(2) v] show ?thesis by (simp add: recv_profile_def)
  qed
qed

lemma recv_sche_wf:
  assumes "vmsg hp hv hc p v vc s" "k \<le> PAGE_SIZE"
  shows "safe (recv_sche p v k s) (drv_wf {} hp hv hc)"
proof (cases "k < 8")
  case True
  with assms show ?thesis by (simp add: recv_sche_def vmsg_def)
next
  case False
  from msg_alloc_wf [of "{}" hp hv hc s p k] assms obtain m s1 where m: "hab_msg_alloc p k s = Some (m, s1)"
    "drv_wf {} hp hv hc s1" "hyp_frame p s s1" "\<And>m'. m = Some m' \<Longrightarrow> msg_ok m' \<and> (\<exists>b. ms_body m' = Flat b \<and> length b = k)"
    unfolding safe_ex vmsg_def by auto
  have v: "st_vchans s1 v = Some vc" using assms hyp_vchans [OF m(3)] by (simp add: vmsg_def)
  show ?thesis
  proof (cases m)
    case None
    with m False show ?thesis by (simp add: recv_sche_def)
  next
    case (Some m')
    from m(4) [OF Some] obtain b where b: "ms_body m' = Flat b" "length b = k" and m': "msg_ok m'" by blast
    from stamp_ok [OF b(1), of 0] b(2) False obtain m1 b1 where m1:
      "stamp_message 0 (st_sclk s) m' = Some m1" "ms_body m1 = Flat b1" "msg_ok m1" using m' by fastforce
    with m m1 Some False msg_queue_wf [OF m(2) v] show ?thesis by (simp add: recv_sche_def)
  qed
qed

text \<open>Acknowledgements go to the queues of the context.\<close>

lemma imp_rxq_add_wf:
  assumes "drv_wf D hp hv hc s" "st_ctxs s c = Some cx"
  shows "safe (imp_rxq_add c a s) (\<lambda>s'. drv_wf D hp hv hc s' \<and> st_vchans s' = st_vchans s \<and>
    st_pchans s' = st_pchans s)"
proof -
  have "drv_wf D hp hv hc (s\<lparr>st_ctxs := (st_ctxs s)(c \<mapsto> cx\<lparr>cx_imp_rxq := cx_imp_rxq cx @ [(a, 0)]\<rparr>)\<rparr>)"
    by (rule drv_wf_ctx_fields [OF assms]) simp_all
  with assms(2) show ?thesis by (simp add: imp_rxq_add_def safe_mod)
qed

lemma receive_export_ack_wf:
  assumes "vmsg hp hv hc p v vc s"
  shows "safe (hab_receive_create_export_ack p (vc_ctx vc) k s) (\<lambda>(r, s'). drv_wf {} hp hv hc s')"
proof -
  obtain ok s1 where ka: "kalloc s = (ok, s1)" by fastforce
  note s1 = vmsg_mem [OF assms ka]
  from vmsg_read [OF s1, of k] obtain r b s2 where r: "physical_channel_read p k s1 = Some (r, b, s2)"
    "vmsg hp hv hc p v vc s2" unfolding safe_ex by auto
  from vchan_ctx [of "{}" hp hv hc s2 v vc] r(2) obtain cx where cx: "st_ctxs s2 (vc_ctx vc) = Some cx"
    by (auto simp: vmsg_def)
  have "drv_wf {} hp hv hc (s2\<lparr>st_ctxs := (st_ctxs s2)(vc_ctx vc \<mapsto>
      cx\<lparr>cx_exp_rxq := cx_exp_rxq cx @ [(dec_export_ack (into_zeroed export_ack_size b), 0)]\<rparr>)\<rparr>)"
    by (rule drv_wf_ctx_fields [OF _ cx]) (use r(2) in \<open>simp_all add: vmsg_def\<close>)
  with ka s1 r cx show ?thesis
    by (simp add: hab_receive_create_export_ack_def vmsg_def safe_mod)
qed

lemma receive_import_ack_fail_wf:
  assumes "vmsg hp hv hc p v vc s"
  shows "safe (hab_receive_import_ack_fail p v s) (\<lambda>(r, s'). drv_wf {} hp hv hc s')"
proof -
  from vmsg_read [OF assms, of 4] obtain r b s1 where r: "physical_channel_read p 4 s = Some (r, b, s1)"
    "vmsg hp hv hc p v vc s1" unfolding safe_ex by auto
  obtain ok s2 where ka: "kalloc s1 = (ok, s2)" by fastforce
  note s2 = vmsg_mem [OF r(2) ka]
  from vchan_ctx [of "{}" hp hv hc s2 v vc] s2 obtain cx where cx: "st_ctxs s2 (vc_ctx vc) = Some cx"
    by (auto simp: vmsg_def)
  have wf2: "drv_wf {} hp hv hc s2" using s2 by (simp add: vmsg_def)
  have "safe (imp_rxq_add (vc_ctx vc) a s2) (drv_wf {} hp hv hc)" for a
    by (rule safe_mono [OF imp_rxq_add_wf [OF wf2 cx]]) simp
  with r ka s2 show ?thesis by (simp add: hab_receive_import_ack_fail_def vmsg_def)
qed

lemma msg_drop_wf:
  assumes "drv_wf D hp hv hc s" "readable p s"
  shows "safe (hab_msg_drop p k s) (drv_wf D hp hv hc)"
proof -
  obtain ok s1 where ka: "kalloc s = (ok, s1)" by fastforce
  have "drv_wf D hp hv hc s1" "readable p s1" using assms ka by (simp_all add: kalloc_wf kalloc_readable)
  with read_wf [OF this, of k] assms ka show ?thesis by (auto simp: hab_msg_drop_def safe_prod elim!: safe_mono)
qed

lemma drop_ret_wf:
  assumes "drv_wf D hp hv hc s" "readable p s"
  shows "safe (drop_ret p k r s) (\<lambda>(r', s'). r' = r \<and> drv_wf D hp hv hc s')"
  using msg_drop_wf [OF assms, of k] assms by (auto simp: drop_ret_def elim!: safe_mono)

section \<open>Export descriptors from the other side\<close>

lemma export_enqueue_wf:
  assumes s: "vmsg hp hv hc p v vc s" and x: "ex_pchan x = Some p"
  shows "safe (hab_export_enqueue v x s) (\<lambda>(r, s'). vmsg hp hv hc p v vc s' \<and> (r = 0 \<or> s' = s))"
proof -
  have wf: "drv_wf {} hp hv hc s" "st_vchans s v = Some vc" "readable p s" using s by (simp_all add: vmsg_def)
  from vchan_ctx [OF wf(1,2)] obtain cx where cx: "st_ctxs s (vc_ctx vc) = Some cx" by blast
  define k where "k = (unat (ex_export_id x), p)"
  have key: "exp_key x = Some k" using x by (simp add: exp_key_def k_def)
  show ?thesis
  proof (cases "map_of (cx_imp_whse cx) k = None")
    case False
    with s cx key wf show ?thesis by (simp add: hab_export_enqueue_def)
  next
    case True
    define e where "e = st_next s"
    define cx' where "cx' = cx\<lparr>cx_imp_whse := whse_insert k e (cx_imp_whse cx),
      cx_import_total := cx_import_total cx + 1\<rparr>"
    define s' where "s' = s\<lparr>st_ctxs := (st_ctxs s)(vc_ctx vc \<mapsto> cx'), st_next := e + 1,
      st_exps := (st_exps s)(e \<mapsto> x)\<rparr>"
    have run: "hab_export_enqueue v x s = Some (0, s')"
      using True cx key wf by (simp add: hab_export_enqueue_def s'_def cx'_def e_def mod_ctx_def Let_def)
    from drv_wf_exps [OF wf(1)] obtain own where own: "exps_ok own (xv (st_exps s)) (iv (st_pchans s))
      (wv (st_ctxs s)) (st_reclaim_list s) (st_next s)" by blast
    from readable_pchan [OF wf(3)] obtain pc where pc: "st_pchans s p = Some pc" by blast
    have fresh_k: "k \<notin> fst ` set (cx_imp_whse cx)" using True by (simp add: map_of_eq_None_iff)
    have live: "iv (st_pchans s) p \<noteq> None" using pc by simp
    note m = move_imp_new [OF own live look_w [OF cx] fresh_k]
    have "refs_ok {} hp hv hc (pv (st_pchans s)) (vv (st_vchans s)) (cv (st_ctxs s)) (qv (st_devs s)) (Suc (st_next s))"
      using drv_wf_refs [OF wf(1)] by (fastforce simp: refs_ok_def pchan_ok_def vchan_ok_def ctx_ok_def)
    then have refs: "refs_ok {} hp hv hc (pv (st_pchans s')) (vv (st_vchans s')) (cv (st_ctxs s'))
        (qv (st_devs s')) (st_next s')"
      using cx by (simp add: s'_def cx'_def e_def upd_same view_look)
    have "drv_wf {} hp hv hc s'"
      by (rule drv_wfI [where own = "own(e \<mapsto> OImp (vc_ctx vc))", OF refs])
        (use m [of "ex_export_id x" "ex_ctx x"] x cx wf(1) in
          \<open>auto simp: s'_def cx'_def e_def upd_same view_look drv_wf_def rx_ok_def held_ok_def\<close>)
    then have "vmsg hp hv hc p v vc s'" using s by (simp add: vmsg_def s'_def readable_def)
    then show ?thesis by (simp add: run)
  qed
qed

lemma send_export_ack_wf:
  assumes s: "vmsg hp hv hc p v vc s"
  shows "safe (hab_send_export_ack v p x s) (\<lambda>(r, s'). drv_wf {} hp hv hc s')"
proof -
  have wf: "drv_wf {} hp hv hc s" "st_vchans s v = Some vc" "readable p s" using s by (simp_all add: vmsg_def)
  from readable_pchan [OF wf(3)] obtain pc where pc: "st_pchans s p = Some pc" by blast
  have "safe (physical_channel_send p
      (mk_header export_ack_size HAB_PAYLOAD_TYPE_EXPORT_ACK (ex_vcid_local x) (vc_session_id vc))
      (Some (enc_export_ack \<lparr>ea_export_id = ex_export_id x, ea_vcid_local = ex_vcid_local x,
             ea_vcid_remote = ex_vcid_remote x\<rparr>)) s)
      (\<lambda>(r, s'). drv_wf {} hp hv hc s' \<and> hyp_frame p s s' \<and> (\<forall>q. readable q s \<longrightarrow> readable q s'))"
    by (rule send_wf [OF wf(1) pc]) (simp_all add: export_ack_codec.enc_length)
  then show ?thesis using wf(2) by (auto simp: hab_send_export_ack_def elim!: safe_mono)
qed

lemma export_desc_reject_wf:
  assumes s: "vmsg hp hv hc p v vc s"
  shows "safe (export_desc_reject v pc i s) (drv_wf {} hp hv hc)"
proof (cases "pc_mem_proto pc = 1")
  case False
  with s show ?thesis by (simp add: export_desc_reject_def vmsg_def)
next
  case True
  have v: "st_vchans s v = Some vc" using s by (simp add: vmsg_def)
  obtain ok s1 where ka: "kalloc s = (ok, s1)" by fastforce
  note s1 = vmsg_mem [OF s ka]
  have wf1: "drv_wf {} hp hv hc s1" "st_vchans s1 v = Some vc" using s1 by (simp_all add: vmsg_def)
  from vchan_ctx [OF wf1] obtain cx where cx: "st_ctxs s1 (vc_ctx vc) = Some cx" by blast
  have "safe (hab_create_invalid_ack v i s) (\<lambda>s2. drv_wf {} hp hv hc s2 \<and> st_vchans s2 v = Some vc)"
    using safe_mono [OF imp_rxq_add_wf [OF wf1(1) cx],
        where R = "\<lambda>s2. drv_wf {} hp hv hc s2 \<and> st_vchans s2 v = Some vc"] v ka wf1
    by (cases ok) (simp_all add: hab_create_invalid_ack_def)
  then obtain s2 where s2: "hab_create_invalid_ack v i s = Some s2" "drv_wf {} hp hv hc s2"
    "st_vchans s2 v = Some vc" unfolding safe_ex by blast
  from send_unimport_wf [OF s2(2,3), of i] have "safe (hab_send_unimport_msg v i s2) (drv_wf {} hp hv hc)"
    by (auto elim: safe_mono)
  with True s2(1) show ?thesis by (simp add: export_desc_reject_def)
qed

lemma localize_pchan [simp]: "ex_pchan (export_localize p pc vc x) = Some p"
  by (simp add: export_localize_def Let_def)

lemma receive_export_desc_wf:
  assumes s: "vmsg hp hv hc p v vc s"
  shows "safe (hab_receive_export_desc p v k s) (\<lambda>(r, s'). drv_wf {} hp hv hc s')"
proof (cases "HAB_HEADER_SIZE_MAX < k \<or> k < export_desc_size + compressed_pfns_size")
  case True
  with s show ?thesis unfolding hab_receive_export_desc_def vmsg_def if_P [OF True] by simp
next
  case False
  obtain ok s1 where ka: "kalloc s = (ok, s1)" by fastforce
  note s1 = vmsg_mem [OF s ka]
  from vmsg_read [OF s1, of k] obtain r b s2 where r: "physical_channel_read p k s1 = Some (r, b, s2)"
    "vmsg hp hv hc p v vc s2" unfolding safe_ex by auto
  have s2: "drv_wf {} hp hv hc s2" "st_vchans s2 v = Some vc" "readable p s2" using r(2) by (simp_all add: vmsg_def)
  from readable_pchan [OF s2(3)] obtain pc where pc: "st_pchans s2 p = Some pc" by blast
  define x where "x = export_localize p pc vc (export_of_bytes (into_zeroed k b))"
  have xp: "ex_pchan x = Some p" by (simp add: x_def)
  consider "\<not> ok" | "ok" "r \<noteq> int k" | "ok" "r = int k" "\<not> export_desc_valid x k"
    | "ok" "r = int k" "export_desc_valid x k" "pc_mem_proto pc = 1"
    | "ok" "r = int k" "export_desc_valid x k" "pc_mem_proto pc \<noteq> 1" by blast
  then show ?thesis
  proof cases
    case 1
    then show ?thesis using ka s1 s by (simp add: hab_receive_export_desc_def vmsg_def)
  next
    case 2
    then show ?thesis using ka s1 r s2 s by (simp add: hab_receive_export_desc_def vmsg_def)
  next
    case 3
    then show ?thesis
      using ka s1 r s2 pc False export_desc_reject_wf [OF r(2), of pc "ex_export_id x"]
      by (simp add: hab_receive_export_desc_def vmsg_def x_def Let_def)
  next
    case 4
    obtain ok2 s3 where ka2: "kalloc s2 = (ok2, s3)" by fastforce
    note s3 = vmsg_mem [OF r(2) ka2]
    show ?thesis
    proof (cases ok2)
      case False
      then show ?thesis
        using 4 ka s s1 r s2 pc ka2 export_desc_reject_wf [OF s3, of pc "ex_export_id x"]
        by (simp add: hab_receive_export_desc_def vmsg_def x_def Let_def)
    next
      case True
      from export_enqueue_wf [OF s3 xp] obtain ret s4 where enq: "hab_export_enqueue v x s3 = Some (ret, s4)"
        "vmsg hp hv hc p v vc s4" unfolding safe_ex by auto
      have s4: "drv_wf {} hp hv hc s4" "st_vchans s4 v = Some vc" using enq(2) by (simp_all add: vmsg_def)
      from vchan_ctx [OF s4] obtain cx where cx: "st_ctxs s4 (vc_ctx vc) = Some cx" by blast
      have "safe (imp_rxq_add (vc_ctx vc) a s4) (drv_wf {} hp hv hc)" for a
        by (rule safe_mono [OF imp_rxq_add_wf [OF s4(1) cx]]) simp
      then show ?thesis
        using 4 True ka s1 r s2 pc ka2 enq(1) False
        by (simp add: hab_receive_export_desc_def vmsg_def x_def [symmetric] Let_def)
    qed
  next
    case 5
    from export_enqueue_wf [OF r(2) xp] obtain ret s3 where enq: "hab_export_enqueue v x s2 = Some (ret, s3)"
      "vmsg hp hv hc p v vc s3" unfolding safe_ex by auto
    from send_export_ack_wf [OF enq(2), of x] show ?thesis
      using 5 ka s1 r s2 pc enq(1) False
      by (auto simp: hab_receive_export_desc_def vmsg_def x_def [symmetric] Let_def elim!: safe_mono)
  qed
qed

section \<open>Import requests\<close>

text \<open>
  The exports of a channel that a peer can name: complete descriptors of the channel, of one
  context whose virtual channels are the only ones on it.
\<close>

definition exports_ok :: "nat \<Rightarrow> hab_driver \<Rightarrow> bool" where
  "exports_ok p s \<longleftrightarrow> (\<forall>pc j e x. st_pchans s p = Some pc \<longrightarrow> idr_find (pc_expid_idr pc) j = Some e \<longrightarrow>
     st_exps s e = Some x \<longrightarrow> ex_exp_state x = HAB_EXP_SUCCESS \<longrightarrow>
     1 + unat (ex_payload_size x) \<le> length (ex_payload x) \<and> unat (ex_payload_size x) + export_desc_size < 2 ^ 32 \<and>
     ex_pchan x = Some p \<and>
     (\<forall>v vc. st_vchans s v = Some vc \<longrightarrow> vc_pchan vc = p \<longrightarrow> ex_ctx x = Some (vc_ctx vc)))"

lemma exports_ok_hyp:
  assumes "exports_ok p s" "hyp_frame p s s'" shows "exports_ok p s'"
  unfolding exports_ok_def
proof (intro allI impI)
  fix pc' j e x
  assume a: "st_pchans s' p = Some pc'" "idr_find (pc_expid_idr pc') j = Some e" "st_exps s' e = Some x"
    "ex_exp_state x = HAB_EXP_SUCCESS"
  from hyp_idr [OF assms(2) a(1)] obtain pc where "st_pchans s p = Some pc" "pc_expid_idr pc' = pc_expid_idr pc"
    by blast
  with assms(1) a show "1 + unat (ex_payload_size x) \<le> length (ex_payload x) \<and>
      unat (ex_payload_size x) + export_desc_size < 2 ^ 32 \<and> ex_pchan x = Some p \<and>
      (\<forall>v vc. st_vchans s' v = Some vc \<longrightarrow> vc_pchan vc = p \<longrightarrow> ex_ctx x = Some (vc_ctx vc))"
    unfolding exports_ok_def hyp_exps [OF assms(2)] hyp_vchans [OF assms(2)] by metis
qed

lemma idr_export:
  assumes "drv_wf D hp hv hc s" "st_pchans s p = Some pc" "idr_find (pc_expid_idr pc) j = Some e"
  obtains x where "st_exps s e = Some x"
proof -
  from drv_wf_exps [OF assms(1)] obtain own where own: "exps_ok own (xv (st_exps s)) (iv (st_pchans s))
    (wv (st_ctxs s)) (st_reclaim_list s) (st_next s)" by blast
  from exps_ok_idr [OF own look_i [OF assms(2)]] idr_find_Some_in [OF assms(3)] that show ?thesis
    by (fastforce simp: idr_ok_def xv_def)
qed

lemma length_enc_export_desc [simp]: "length (enc_export_desc w) = 88"
  by (rule export_desc_codec.enc_length)

lemma send_import_ack_wf:
  assumes s: "vmsg hp hv hc p v vc s" and x: "st_exps s e = Some x" "ex_pchan x = Some p" "ex_ctx x = Some (vc_ctx vc)"
    and len: "1 + unat (ex_payload_size x) \<le> length (ex_payload x)" "unat (ex_payload_size x) + export_desc_size < 2 ^ 32"
  shows "safe (hab_send_import_ack v e s) (\<lambda>(r, s'). drv_wf {} hp hv hc s')"
proof -
  have wf: "drv_wf {} hp hv hc s" "st_vchans s v = Some vc" "readable p s" "vc_pchan vc = p"
    using s by (simp_all add: vmsg_def)
  from readable_pchan [OF wf(3)] obtain pc where pc: "st_pchans s p = Some pc" by blast
  define x1 where "x1 = x\<lparr>ex_pchan := None, ex_vchan := None, ex_ctx := None\<rparr>"
  define s1 where "s1 = s\<lparr>st_exps := (st_exps s)(e \<mapsto> x1)\<rparr>"
  define sz where "sz = of_nat export_desc_size + ex_payload_size x"
  have usz: "unat sz = export_desc_size + unat (ex_payload_size x)"
    using len(2) by (simp add: sz_def unat_word_ariths)
  have p1: "st_pchans s1 p = Some pc" using pc by (simp add: s1_def)
  obtain r s2 where send: "physical_channel_send p
      (mk_header (unat sz) HAB_PAYLOAD_TYPE_IMPORT_ACK (vc_otherend_id vc) (vc_session_id vc))
      (Some (export_image s1 (export_links e x s) x1)) s1 = Some (r, s2)"
    by (rule send_total [OF p1])
      (use len usz usz [unfolded sz_def, simplified] in \<open>auto simp: export_image_def x1_def\<close>)
  note fr = send_frame [OF send]
  define x3 where "x3 = x1\<lparr>ex_pchan := Some p, ex_vchan := Some v, ex_ctx := Some (vc_ctx vc)\<rparr>"
  define s3 where "s3 = s2\<lparr>st_exps := (st_exps s2)(e \<mapsto> x3)\<rparr>"
  have run: "hab_send_import_ack v e s = Some (r, s3)"
    using wf x send hyp_exps [OF fr]
    by (simp add: hab_send_import_ack_def Let_def x1_def s1_def sz_def s3_def x3_def mod_exp_def)
  from fr obtain pc0 hy m where s2: "st_pchans s1 p = Some pc0"
    "s2 = s1\<lparr>st_mem := m, st_pchans := (st_pchans s1)(p \<mapsto> pc0\<lparr>pc_hyp_data := hy\<rparr>)\<rparr>"
    unfolding hyp_frame_def by blast
  define t where "t = s\<lparr>st_exps := (st_exps s)(e \<mapsto> x3)\<rparr>"
  have wft: "drv_wf {} hp hv hc t"
    unfolding t_def by (rule drv_wf_exp_fields [OF wf(1) x(1)]) (use x in \<open>simp_all add: x3_def x1_def\<close>)
  have "hyp_frame p t s3"
    unfolding hyp_frame_def
    by (intro exI [of _ pc0] exI [of _ hy] exI [of _ m]) (use s2 in \<open>simp add: t_def s3_def s1_def\<close>)
  with drv_wf_hyp_frame [OF wft] run show ?thesis by simp
qed

lemma send_import_ack_fail_wf:
  assumes s: "vmsg hp hv hc p v vc s"
  shows "safe (hab_send_import_ack_fail v i s) (\<lambda>(r, s'). drv_wf {} hp hv hc s')"
proof -
  have wf: "drv_wf {} hp hv hc s" "st_vchans s v = Some vc" "readable p s" "vc_pchan vc = p"
    using s by (simp_all add: vmsg_def)
  from readable_pchan [OF wf(3)] obtain pc where pc: "st_pchans s p = Some pc" by blast
  have "safe (physical_channel_send p
      (mk_header 4 HAB_PAYLOAD_TYPE_IMPORT_ACK_FAIL (vc_otherend_id vc) (vc_session_id vc)) (Some (enc_u32 i)) s)
      (\<lambda>(r, s'). drv_wf {} hp hv hc s' \<and> hyp_frame p s s' \<and> (\<forall>q. readable q s \<longrightarrow> readable q s'))"
    by (rule send_wf [OF wf(1) pc]) (simp_all add: u32_codec.enc_length)
  then show ?thesis using wf by (auto simp: hab_send_import_ack_fail_def elim!: safe_mono)
qed

lemma recv_import_wf:
  assumes s: "vmsg hp hv hc p v vc s" and ok: "exports_ok p s"
  shows "safe (recv_import p v s) (drv_wf {} hp hv hc)"
proof -
  from vmsg_read [OF s, of import_data_size] obtain r b s1 where r:
    "physical_channel_read p import_data_size s = Some (r, b, s1)" "vmsg hp hv hc p v vc s1" "hyp_frame p s s1"
    unfolding safe_ex by auto
  have s1: "drv_wf {} hp hv hc s1" "readable p s1" "st_vchans s1 v = Some vc" "vc_pchan vc = p"
    using r(2) by (simp_all add: vmsg_def)
  from readable_pchan [OF s1(2)] obtain pc where pc: "st_pchans s1 p = Some pc" by blast
  define req where "req = dec_import_data (into_zeroed import_data_size b)"
  have fail: "safe (do { (r2, s2) \<leftarrow> hab_send_import_ack_fail v (id_exp_id req) s1; Some s2 }) (drv_wf {} hp hv hc)"
    using send_import_ack_fail_wf [OF r(2), of "id_exp_id req"] by (auto simp: safe_prod elim!: safe_mono)
  show ?thesis
  proof (cases "r = int import_data_size")
    case False
    then show ?thesis using r(1) s1 by (simp add: recv_import_def)
  next
    case True
    show ?thesis
    proof (cases "idr_find (pc_expid_idr pc) (unat (id_exp_id req))")
      case None
      with True r(1) pc fail show ?thesis by (simp add: recv_import_def req_def Let_def)
    next
      case (Some e)
      from idr_export [OF s1(1) pc Some] obtain x where x: "st_exps s1 e = Some x" .
      show ?thesis
      proof (cases "id_page_cnt req = ex_payload_count x \<and> ex_exp_state x = HAB_EXP_SUCCESS")
        case False
        with True r(1) pc Some x fail show ?thesis by (auto simp: recv_import_def req_def Let_def)
      next
        case good: True
        from exports_ok_hyp [OF ok r(3)] pc Some x good s1 have ex:
          "1 + unat (ex_payload_size x) \<le> length (ex_payload x)" "unat (ex_payload_size x) + export_desc_size < 2 ^ 32"
          "ex_pchan x = Some p" "ex_ctx x = Some (vc_ctx vc)"
          unfolding exports_ok_def by blast+
        define x2 where "x2 = x\<lparr>ex_remote_imported := True\<rparr>"
        define s2 where "s2 = s1\<lparr>st_exps := (st_exps s1)(e \<mapsto> x2)\<rparr>"
        have m: "mod_exp e (\<lambda>x. x\<lparr>ex_remote_imported := True\<rparr>) s1 = Some s2"
          using x by (simp add: s2_def x2_def)
        have "drv_wf {} hp hv hc s2"
          unfolding s2_def by (rule drv_wf_exp_fields [OF s1(1) x]) (simp_all add: x2_def)
        then have "vmsg hp hv hc p v vc s2" using s1 by (simp add: vmsg_def s2_def readable_def)
        then have "safe (hab_send_import_ack v e s2) (\<lambda>(r, s'). drv_wf {} hp hv hc s')"
          by (rule send_import_ack_wf [where x = x2]) (use ex in \<open>simp_all add: s2_def x2_def\<close>)
        with True r(1) pc Some x good m show ?thesis
          by (auto simp: recv_import_def req_def [symmetric] Let_def safe_prod elim!: safe_mono simp del: mod_exp_Some)
      qed
    qed
  qed
qed

lemma recv_unimport_wf:
  assumes wf: "drv_wf {} hp hv hc s" and r: "readable p s"
  shows "safe (hab_recv_unimport_msg p s) (drv_wf {} hp hv hc)"
proof -
  from read_wf [OF wf r, of 4] obtain r b s1 where r: "physical_channel_read p 4 s = Some (r, b, s1)"
    "drv_wf {} hp hv hc s1" "readable p s1" unfolding safe_ex by auto
  from readable_pchan [OF r(3)] obtain pc where pc: "st_pchans s1 p = Some pc" by blast
  define i where "i = dec_u32 (into_zeroed 4 b)"
  show ?thesis
  proof (cases "idr_find (pc_expid_idr pc) (unat i)")
    case None
    with r pc show ?thesis by (simp add: hab_recv_unimport_msg_def i_def Let_def)
  next
    case (Some e)
    from idr_export [OF r(2) pc Some] obtain x where x: "st_exps s1 e = Some x" .
    have "drv_wf {} hp hv hc (s1\<lparr>st_exps := (st_exps s1)(e \<mapsto> x\<lparr>ex_remote_imported := False\<rparr>)\<rparr>)"
      by (rule drv_wf_exp_fields [OF r(2) x]) simp_all
    with r pc Some x show ?thesis by (simp add: hab_recv_unimport_msg_def i_def Let_def safe_mod)
  qed
qed

section \<open>The dispatch\<close>

text \<open>
  The messages that \<^verbatim>\<open>hab_msg_recv\<close> stamps in place have to fit in one page, or the stamp may hit the
  page table of a scattered message.
\<close>

definition stamped_small :: "hab_header \<Rightarrow> bool" where
  "stamped_small h \<longleftrightarrow> (HAB_HEADER_GET_TYPE h \<in> {payload_code HAB_PAYLOAD_TYPE_PROFILE,
       payload_code HAB_PAYLOAD_TYPE_SCHE_MSG, payload_code HAB_PAYLOAD_TYPE_SCHE_MSG_ACK} \<longrightarrow>
     unat (HAB_HEADER_GET_SIZE h) \<le> PAGE_SIZE)"

lemma payload_of_code_Some: "payload_of_code c = Some t \<Longrightarrow> c = payload_code t"
proof -
  assume "payload_of_code c = Some t"
  then have c: "unat c < 17" "t = payload_types ! unat c"
    by (auto simp: payload_of_code_def payload_types_def split: if_splits)
  have "list_all (\<lambda>n. payload_code (payload_types ! n) = of_nat n) [0..<17]" by code_simp
  then have "payload_code t = of_nat (unat c)" using c by (simp add: list_all_iff)
  then show ?thesis by simp
qed

lemma recv_vchan_msg_wf:
  assumes s: "vmsg hp hv hc p v vc s" and ok: "exports_ok p s"
    and small: "ty \<in> {payload_code HAB_PAYLOAD_TYPE_PROFILE, payload_code HAB_PAYLOAD_TYPE_SCHE_MSG,
      payload_code HAB_PAYLOAD_TYPE_SCHE_MSG_ACK} \<Longrightarrow> k \<le> PAGE_SIZE"
  shows "safe (recv_vchan_msg p v ty k s) (\<lambda>(r, s'). drv_wf {} hp hv hc s')"
proof -
  have wf: "drv_wf {} hp hv hc s" "st_vchans s v = Some vc" "readable p s" using s by (simp_all add: vmsg_def)
  note close = safe_mono [OF vchan_stop_wf [OF wf(1,2)], where R = "drv_wf {} hp hv hc"]
  show ?thesis
  proof (cases "payload_of_code ty")
    case None
    with wf show ?thesis by (simp add: recv_vchan_msg_def)
  next
    case (Some t)
    note ty = payload_of_code_Some [OF Some]
    show ?thesis
      by (cases t) (use Some ty small s wf close recv_message_wf [OF s] recv_profile_wf [OF s] recv_sche_wf [OF s]
          recv_import_wf [OF s ok] recv_unimport_wf [OF wf(1,3)] receive_export_desc_wf [OF s]
          receive_export_ack_wf [OF s] receive_import_ack_fail_wf [OF s] in
          \<open>simp_all add: recv_vchan_msg_def\<close>)
  qed
qed

text \<open>Whatever arrives, the dispatch does not fault and keeps the invariant.\<close>

lemma msg_recv_wf:
  assumes wf: "drv_wf {} hp hv hc s" and r: "readable p s" and ok: "exports_ok p s" and small: "stamped_small h"
  shows "safe (hab_msg_recv p h s) (\<lambda>(r, s'). drv_wf {} hp hv hc s')"
proof -
  from readable_pchan [OF r] obtain pc where p: "st_pchans s p = Some pc" by blast
  define k where "k = unat (HAB_HEADER_GET_SIZE h)"
  define ty where "ty = HAB_HEADER_GET_TYPE h"
  show ?thesis
  proof (cases "is_open_type ty")
    case True
    then show ?thesis
      using drop_ret_wf [OF wf r, of k "- ENODEV"] open_request_add_wf [OF wf r, of k ty]
        open_receive_cancel_wf [OF wf r, of k]
      by (cases "k = open_data_size")
        (auto simp: hab_msg_recv_def Let_def k_def [symmetric] ty_def [symmetric] elim!: safe_mono)
  next
    case False
    from vchan_get_msg_wf [OF wf p, of h] obtain ro s1 where g: "hab_vchan_get p h s = Some (ro, s1)"
      "case ro of None \<Rightarrow> s1 = s
       | Some v \<Rightarrow> drv_wf {} hp (hv(v := Suc (hv v))) hc s1 \<and>
        (\<exists>vc. st_vchans s v = Some vc \<and> vc_pchan vc = p \<and> \<not> vc_closed vc \<and> \<not> vc_otherend_closed vc \<and>
          vc_session_id vc = HAB_HEADER_GET_SESSION_ID h \<and>
          s1 = s\<lparr>st_vchans := (st_vchans s)(v \<mapsto> vc\<lparr>vc_refcount := vc_refcount vc + 1\<rparr>)\<rparr>)"
      unfolding safe_ex by auto
    show ?thesis
    proof (cases ro)
      case None
      with g False show ?thesis
        using drop_ret_wf [OF wf r, of k "- EINVAL"] recv_unimport_wf [OF wf r]
        by (auto simp: hab_msg_recv_def Let_def k_def [symmetric] ty_def [symmetric] elim!: safe_mono)
    next
      case (Some v)
      from g(2) Some obtain vc where v: "drv_wf {} hp (hv(v := Suc (hv v))) hc s1" "st_vchans s v = Some vc"
        "vc_pchan vc = p" "\<not> vc_otherend_closed vc"
        "s1 = s\<lparr>st_vchans := (st_vchans s)(v \<mapsto> vc\<lparr>vc_refcount := vc_refcount vc + 1\<rparr>)\<rparr>" by auto
      define vc1 where "vc1 = vc\<lparr>vc_refcount := vc_refcount vc + 1\<rparr>"
      have v1: "st_vchans s1 v = Some vc1" by (simp add: v(5) vc1_def)
      have vm: "vmsg hp (hv(v := Suc (hv v))) hc p v vc1 s1"
        using v r by (simp add: vmsg_def vc1_def readable_def)
      have "exports_ok p s1"
        using ok v(2) by (auto simp: exports_ok_def v(5) split: if_splits)
      from recv_vchan_msg_wf [OF vm this, of ty k] small obtain ret s2 where
        m: "recv_vchan_msg p v ty k s1 = Some (ret, s2)" "drv_wf {} hp (hv(v := Suc (hv v))) hc s2"
        unfolding safe_ex stamped_small_def ty_def [symmetric] k_def [symmetric] by auto
      from vchan_put_wf [OF m(2), of v "hv v"] have "safe (hab_vchan_put v s2) (drv_wf {} hp hv hc)" by simp
      with g(1) Some False v1 v(4) m(1) show ?thesis
        by (simp add: hab_msg_recv_def Let_def k_def [symmetric] ty_def [symmetric] vc1_def)
    qed
  qed
qed

end
