(* ===== verification/Hab_Mimex_Safe.thy ===== *)
theory Hab_Mimex_Safe
  imports Hab_Mimex Hab_Mem_Facts Hab_Msg_Safe
begin

text \<open>
  Exporting, importing and their inverses keep the invariants of the driver and never touch a freed
  object; an import in progress cannot be claimed twice; what is imported and unimported leaves no trace.
\<close>

section \<open>Imports\<close>

text \<open>
  What \<^verbatim>\<open>hab_receive_export_desc\<close> guarantees of the descriptors in the import warehouses: they are
  filed under their own key, and their table is as long as its number of regions says.
\<close>

definition table_ok :: "u32 \<Rightarrow> bytes \<Rightarrow> bool" where
  "table_ok pc payload \<longleftrightarrow> 0 \<le> sint pc \<and> sint pc \<le> 0xFFFFF \<and>
     compressed_pfns_hdr + nat (sint (field32 8 payload)) * region_size \<le> length payload"

text \<open>What the receiver's checks establish.\<close>

lemma valid_table:
  assumes "x = export_localize p pc vc (export_of_bytes b)" "export_desc_valid x (length b)"
  shows "table_ok (ex_payload_count x) (ex_payload x)"
proof -
  have "length (ex_payload x) = length b - export_desc_payload_off"
    by (simp add: assms(1) export_localize_def export_of_bytes_def Let_def)
  with assms(2) show ?thesis by (auto simp: export_desc_valid_def table_ok_def exp_nregions_def)
qed

definition imports_ok :: "hab_driver \<Rightarrow> bool" where
  "imports_ok s \<longleftrightarrow> (\<forall>c cx k e x. st_ctxs s c = Some cx \<longrightarrow> (k, e) \<in> set (cx_imp_whse cx) \<longrightarrow>
     st_exps s e = Some x \<longrightarrow> exp_key x = Some k \<and> table_ok (ex_payload_count x) (ex_payload x))"

lemma imports_okD:
  "imports_ok s \<Longrightarrow> st_ctxs s c = Some cx \<Longrightarrow> (k, e) \<in> set (cx_imp_whse cx) \<Longrightarrow>
     st_exps s e = Some x \<Longrightarrow> exp_key x = Some k \<and> table_ok (ex_payload_count x) (ex_payload x)"
  unfolding imports_ok_def by blast

text \<open>An import in the warehouse of a live context, with everything around it.\<close>

definition imp_at :: "nat \<Rightarrow> imp_key \<Rightarrow> nat \<Rightarrow> export_desc_super \<Rightarrow> hab_driver \<Rightarrow> bool" where
  "imp_at c k e x s \<longleftrightarrow> (\<exists>cx. st_ctxs s c = Some cx \<and> (k, e) \<in> set (cx_imp_whse cx) \<and>
     st_exps s e = Some x \<and> exp_key x = Some k)"

lemma imp_at_hyp: "hyp_frame p s s' \<Longrightarrow> imp_at c k e x s' = imp_at c k e x s"
  by (auto simp: hyp_frame_def imp_at_def)

lemma imp_at_lookup:
  assumes wf: "drv_wf D hp hv hc s" and ok: "imports_ok s" and c: "st_ctxs s c = Some cx"
    and m: "map_of (cx_imp_whse cx) k = Some e"
  obtains x where "imp_at c k e x s" "st_exps s e = Some x" "table_ok (ex_payload_count x) (ex_payload x)"
proof -
  from drv_wf_exps [OF wf] obtain own where own: "exps_ok own (xv (st_exps s)) (iv (st_pchans s))
    (wv (st_ctxs s)) (st_reclaim_list s) (st_next s)" by blast
  from imp_whse_facts [OF own c map_of_SomeD [OF m]] obtain x where x: "st_exps s e = Some x" by blast
  from imports_okD [OF ok c map_of_SomeD [OF m] x] x c map_of_SomeD [OF m] that show ?thesis
    by (auto simp: imp_at_def)
qed

lemma imp_at_state:
  assumes wf: "drv_wf D hp hv hc s" and at: "imp_at c k e x s"
    and f: "ex_export_id x' = ex_export_id x" "ex_ctx x' = ex_ctx x" "ex_pchan x' = ex_pchan x"
  shows "drv_wf D hp hv hc (s\<lparr>st_exps := (st_exps s)(e \<mapsto> x')\<rparr>) \<and>
    imp_at c k e x' (s\<lparr>st_exps := (st_exps s)(e \<mapsto> x')\<rparr>)"
proof -
  have e: "st_exps s e = Some x" using at by (auto simp: imp_at_def)
  from drv_wf_exp_fields [OF wf this f] at f show ?thesis by (auto simp: imp_at_def exp_key_def)
qed

lemma imp_whse_drop_wf:
  assumes wf: "drv_wf D hp hv hc s" and at: "imp_at c k e x s"
  shows "safe (imp_whse_drop c e s) (\<lambda>s'. drv_wf D hp hv hc s' \<and> st_vchans s' = st_vchans s)"
proof -
  from at obtain cx where c: "st_ctxs s c = Some cx" "(k, e) \<in> set (cx_imp_whse cx)" "st_exps s e = Some x"
    "exp_key x = Some k" by (auto simp: imp_at_def)
  from c(4) obtain p where p: "ex_pchan x = Some p" "k = (unat (ex_export_id x), p)"
    by (auto simp: exp_key_def)
  from drv_wf_exps [OF wf] obtain own where own: "exps_ok own (xv (st_exps s)) (iv (st_pchans s))
    (wv (st_ctxs s)) (st_reclaim_list s) (st_next s)" by blast
  have e: "own e = Some (OImp c)"
    using exps_ok_whse [OF own look_w [OF c(1)]] c(2) by (force simp: whse_ok_def)
  define cx' where "cx' = cx\<lparr>cx_imp_whse := whse_remove k (cx_imp_whse cx),
    cx_import_total := cx_import_total cx - 1\<rparr>"
  define s' where "s' = s\<lparr>st_ctxs := (st_ctxs s)(c \<mapsto> cx'), st_exps := (st_exps s)(e := None)\<rparr>"
  have run: "imp_whse_drop c e s = Some s'"
    using c p by (simp add: imp_whse_drop_def s'_def cx'_def mod_ctx_def)
  have "exps_wf s'"
    using imp_removed_wf [OF own e c(3) p(1) c(1,2), of cx']
    by (auto simp: exps_wf_def views s'_def cx'_def)
  moreover have "exp_frame s s'" using c(1) by (simp add: exp_frame_def s'_def cx'_def upd_same view_look)
  ultimately show ?thesis using exp_frame_wf [OF wf] run by (simp add: s'_def)
qed

text \<open>The reference a call takes on the virtual channel it names, and gives back.\<close>

lemma put_back:
  assumes "drv_wf {} hp (hv(v := Suc (hv v))) hc s"
  shows "safe (hab_vchan_put v s) (drv_wf {} hp hv hc)"
  using vchan_put_wf [OF assms, of v "hv v"] by simp

lemma vchan_kept:
  assumes "drv_wf {} hp (hv(v := Suc (hv v))) hc s"
  obtains vc pc cx where "st_vchans s v = Some vc" "st_pchans s (vc_pchan vc) = Some pc"
    "st_ctxs s (vc_ctx vc) = Some cx"
proof -
  from held_vchan [OF assms, of v] obtain vc where v: "st_vchans s v = Some vc" by auto
  from vchan_pchan [OF assms v] vchan_ctx [OF assms v] that [OF v] show ?thesis by auto
qed

lemma send_unimport_imp_at:
  assumes "drv_wf D hp hv hc s" "imp_at c k e x s" "st_vchans s v = Some vc"
  shows "safe (hab_send_unimport_msg v i s) (\<lambda>s'. drv_wf D hp hv hc s' \<and> imp_at c k e x s')"
  using send_unimport_wf [OF assms(1,3), of i] assms(2)
  by (auto simp: safe_ex imp_at_hyp)

section \<open>Unimport\<close>

lemma hab_mem_unimport_wf:
  assumes wf: "drv_wf {} hp hv hc s" and c: "st_ctxs s c = Some cx" and ok: "imports_ok s"
  shows "safe (hab_mem_unimport c param kern s) (\<lambda>(r, s'). drv_wf {} hp hv hc s')"
proof -
  from get_fromvcid_wf [OF wf c, of "hn_vcid param" True] obtain vo s1 where
    vo: "hab_get_vchan_fromvcid (hn_vcid param) c True s = Some (vo, s1)" and
    post: "case vo of None \<Rightarrow> s1 = s | Some v \<Rightarrow> drv_wf {} hp (hv(v := Suc (hv v))) hc s1 \<and>
      st_ctxs s1 = st_ctxs s \<and> st_exps s1 = st_exps s"
    unfolding safe_ex by (fastforce split: option.splits)
  show ?thesis
  proof (cases vo)
    case None
    with vo post wf show ?thesis by (simp add: hab_mem_unimport_def)
  next
    case (Some v)
    with post have wf1: "drv_wf {} hp (hv(v := Suc (hv v))) hc s1"
      and same: "st_ctxs s1 = st_ctxs s" "st_exps s1 = st_exps s" by simp_all
    from vchan_kept [OF wf1] obtain vc where v: "st_vchans s1 v = Some vc" by blast
    note run = hab_mem_unimport_def unimport_claim_def unimport_unmap_def unimport_drop_def vo Some v same c
    have fin: "safe (hab_vchan_put v s2 \<bind> (\<lambda>s6. Some ((r, param1), s6))) (\<lambda>(r, s'). drv_wf {} hp hv hc s')"
      if "drv_wf {} hp (hv(v := Suc (hv v))) hc s2" for s2 r param1
      using put_back [OF that] by simp
    let ?k = "(unat (hn_exportid param), vc_pchan vc)"
    show ?thesis
    proof (cases "map_of (cx_imp_whse cx) ?k")
      case None
      with fin [OF wf1] show ?thesis by (simp add: run)
    next
      case e: (Some e)
      have ok1: "imports_ok s1" using ok by (simp add: imports_ok_def same)
      have c1: "st_ctxs s1 c = Some cx" using c same by simp
      from imp_at_lookup [OF wf1 ok1 c1 e] obtain x where x: "imp_at c ?k e x s1" "st_exps s1 e = Some x"
        by blast
      show ?thesis
      proof (cases "ex_import_state x = EXP_DESC_IMPORTED")
        case False
        with x fin [OF wf1] same show ?thesis by (simp add: run e)
      next
        case True
        let ?x = "x\<lparr>ex_import_state := EXP_DESC_UNIMPORTING\<rparr>"
        define s2 where "s2 = s1\<lparr>st_exps := (st_exps s1)(e \<mapsto> ?x)\<rparr>"
        from imp_at_state [OF wf1 x(1), of ?x] have s2: "drv_wf {} hp (hv(v := Suc (hv v))) hc s2"
          "imp_at c ?k e ?x s2" by (simp_all add: s2_def)
        define s3 where "s3 = (if kern then s2\<lparr>st_hyp_mem := dma_buf_put (unat (ex_kva ?x)) (st_hyp_mem s2)\<rparr> else s2)"
        have s3: "drv_wf {} hp (hv(v := Suc (hv v))) hc s3" "imp_at c ?k e ?x s3" "st_vchans s3 v = Some vc"
          using s2 v by (simp_all add: s3_def imp_at_def s2_def)
        have u: "exp_set_state e EXP_DESC_UNIMPORTING s1 = Some s2" "habmm_imp_hyp_unmap e kern s2 = Some (0, s3)"
          using x(2) by (simp_all add: exp_set_state_def s2_def s3_def habmm_imp_hyp_unmap_def)
        from vchan_kept [OF s3(1)] s3(3) obtain pc where pc: "st_pchans s3 (vc_pchan vc) = Some pc" by auto
        have "safe (if pc_mem_proto pc = 1 then hab_send_unimport_msg v (ex_export_id x) s3 else Some s3)
          (\<lambda>s4. drv_wf {} hp (hv(v := Suc (hv v))) hc s4 \<and> imp_at c ?k e ?x s4)"
          using send_unimport_imp_at [OF s3] s3 by simp
        then have "safe (if pc_mem_proto pc = 1 then hab_send_unimport_msg v (ex_export_id x) s3 else Some s3)
          (\<lambda>s4. safe (imp_whse_drop c e s4) (\<lambda>s5. drv_wf {} hp (hv(v := Suc (hv v))) hc s5))"
          by (rule safe_mono) (use imp_whse_drop_wf in \<open>blast intro: safe_mono\<close>)
        then have "safe (if pc_mem_proto pc = 1 then hab_send_unimport_msg v (ex_export_id x) s3 else Some s3)
          (\<lambda>s4. safe (imp_whse_drop c e s4) (\<lambda>s5. safe (hab_vchan_put v s5) (drv_wf {} hp hv hc)))"
          by (rule safe_mono) (use put_back in \<open>blast intro: safe_mono\<close>)
        moreover have "st_exps s3 e = Some ?x" by (simp add: s3_def s2_def)
        ultimately show ?thesis using True x(2) same pc u s3(3) by (simp add: run e split: if_splits)
      qed
    qed
  qed
qed

section \<open>Import\<close>

text \<open>The hypervisor layer maps any checked table without a fault.\<close>

lemma safe_mod_pglist:
  "safe (mod_pglist g f m) Q \<longleftrightarrow>
     (\<exists>x. mm_pglists m g = Some x \<and> Q (m\<lparr>mm_pglists := (mm_pglists m)(g \<mapsto> f x)\<rparr>))"
  by (auto simp: mod_pglist_def split: option.split)

lemma pages_list_put_safe: "mm_pglists m g \<noteq> None \<Longrightarrow> safe (pages_list_put g m) (\<lambda>_. True)"
  by (auto simp: pages_list_put_def pages_list_destroy_def safe_mod_pglist Let_def)

lemma import_to_dma_buf_safe:
  assumes "table_ok pc payload"
  shows "safe (habmem_import_to_dma_buf valid pc payload uf eid vcid pch m) (\<lambda>_. True)"
proof -
  have t: "0 \<le> sint pc" "sint pc \<le> 0xFFFFF"
    "compressed_pfns_hdr + nat (sint (field32 8 payload)) * region_size \<le> length payload"
    using assms by (simp_all add: table_ok_def)
  from pages_list_create_safe [OF t, of valid uf eid vcid pch m] obtain r m1 where
    c: "pages_list_create valid pc payload uf eid vcid pch m = Some (r, m1)" and
    post: "case r of Inl e \<Rightarrow> True | Inr g \<Rightarrow> mm_pglists m1 g \<noteq> None"
    unfolding safe_ex by (fastforce split: sum.splits)
  show ?thesis
  proof (cases r)
    case (Inr g)
    then have "mm_pglists m1 g \<noteq> None" using post by simp
    then show ?thesis
      using Inr c pages_list_put_safe
      by (auto simp: habmem_import_to_dma_buf_def safe_mod_pglist pages_list_add_def dma_buf_export_def
          dest!: mm_alloc_frame split: prod.split option.split)
  qed (simp add: habmem_import_to_dma_buf_def c)
qed

lemma imp_hyp_map_safe:
  assumes "table_ok pc payload"
  shows "safe (habmem_imp_hyp_map valid pc payload uf eid vcid pch kern m) (\<lambda>_. True)"
  unfolding habmem_imp_hyp_map_def safe_simps
  by (rule safe_mono [OF import_to_dma_buf_safe [OF assms]]) (auto split: option.split prod.split)

lemma imports_ok_exp:
  assumes "imports_ok s" "st_exps s e = Some x" "exp_key x' = exp_key x"
    "ex_payload_count x' = ex_payload_count x" "ex_payload x' = ex_payload x"
  shows "imports_ok (s\<lparr>st_exps := (st_exps s)(e \<mapsto> x')\<rparr>)"
  using assms by (fastforce simp: imports_ok_def)

lemma imports_ok_rxq:
  assumes "imports_ok s" "st_ctxs s c = Some cx" "cx_imp_whse cx' = cx_imp_whse cx"
  shows "imports_ok (s\<lparr>st_ctxs := (st_ctxs s)(c \<mapsto> cx')\<rparr>)"
  using assms by (fastforce simp: imports_ok_def)

lemma imports_ok_hyp: "imports_ok s \<Longrightarrow> hyp_frame p s s' \<Longrightarrow> imports_ok s'"
  by (auto simp: imports_ok_def hyp_frame_def)

lemma imports_ok_mem [simp]: "imports_ok (s\<lparr>st_hyp_mem := m\<rparr>) = imports_ok s"
  by (simp add: imports_ok_def)

definition import_inv :: "(nat \<Rightarrow> nat) \<Rightarrow> (nat \<Rightarrow> nat) \<Rightarrow> (nat \<Rightarrow> nat) \<Rightarrow> hab_driver \<Rightarrow> bool" where
  "import_inv hp hv hc s \<longleftrightarrow> drv_wf {} hp hv hc s \<and> imports_ok s"

lemma import_ack_find_inv:
  assumes inv: "import_inv hp hv hc s" and held: "0 < hv v" "0 < hc c"
  shows "safe (hab_import_ack_find c expect v s) (\<lambda>(r, s'). import_inv hp hv hc s')"
proof -
  have wf: "drv_wf {} hp hv hc s" "imports_ok s" using inv by (simp_all add: import_inv_def)
  from held_vchan [where hv = hv, OF wf(1) held(1)] held_ctx [where hc = hc, OF wf(1) held(2)] obtain vc cx where
    "st_vchans s v = Some vc" "st_ctxs s c = Some cx" by blast
  with drv_wf_ctx_fields [OF wf(1) this(2)] imports_ok_rxq [OF wf(2) this(2)] show ?thesis
    by (auto simp: hab_import_ack_find_def safe_mod import_inv_def split: prod.split)
qed

lemma import_ack_wait_inv:
  assumes inv: "import_inv hp hv hc s" and held: "0 < hv v" "0 < hc c" and env: "env_ok (import_inv hp hv hc) w"
  shows "run_ok (import_inv hp hv hc) (\<lambda>_ _ s'. import_inv hp hv hc s') (hab_import_ack_wait c expect v w s)"
  unfolding hab_import_ack_wait_def
proof (rule run_ok_bind [where I = "import_inv hp hv hc"])
  show "run_ok (import_inv hp hv hc) (wait_post (import_inv hp hv hc) (\<lambda>_. import_inv hp hv hc) True True w)
      (wait_event (hab_import_ack_find c expect v) True True w s)"
  proof (rule wait_event_ok [OF _ env inv])
    fix s assume "import_inv hp hv hc s"
    from import_ack_find_inv [where hv = hv and hc = hc, OF this held, of expect]
    show "safe (hab_import_ack_find c expect v s) (\<lambda>(r, s'). case r of
        Some a \<Rightarrow> import_inv hp hv hc s' | None \<Rightarrow> import_inv hp hv hc s')"
      by (cases "hab_import_ack_find c expect v s") (auto split: option.split)
  qed
next
  fix r :: "u32 option wait_res" and w1 s1
  assume "wait_post (import_inv hp hv hc) (\<lambda>_. import_inv hp hv hc) True True w r w1 s1"
  then have inv1: "import_inv hp hv hc s1" by (auto simp: wait_post_def split: wait_res.splits)
  then have "drv_wf {} hp hv hc s1" by (simp add: import_inv_def)
  from held_vchan [where hv = hv, OF this held(1)] obtain vc where "st_vchans s1 v = Some vc" by blast
  with inv1 show "run_ok (import_inv hp hv hc) (\<lambda>_ _ s'. import_inv hp hv hc s')
      (do { vc \<leftarrow> st_vchans s1 v;
            Some (Done (ack_wait_ret r (vc_otherend_closed vc),
              case r of WMet (Some scan) \<Rightarrow> scan | _ \<Rightarrow> 0) w1 s1) })"
    by simp
qed simp

lemma import_handshake_inv:
  assumes inv: "import_inv hp hv hc s" and held: "0 < hv v" "0 < hc c" and env: "env_ok (import_inv hp hv hc) w"
  shows "run_ok (import_inv hp hv hc) (\<lambda>_ _ s'. import_inv hp hv hc s') (import_handshake c param v w s)"
proof -
  have wf: "drv_wf {} hp hv hc s" "imports_ok s" using inv by (simp_all add: import_inv_def)
  from held_vchan [where hv = hv, OF wf(1) held(1)] obtain vc where v: "st_vchans s v = Some vc" by blast
  from vchan_pchan [OF wf(1) v] obtain pc where p: "st_pchans s (vc_pchan vc) = Some pc" by blast
  let ?d = "\<lparr>id_exp_id = hi_exportid param, id_page_cnt = drop_bit 12 (hi_sizebytes param), id_reserved = 0\<rparr>"
  have "safe (physical_channel_send (vc_pchan vc)
        (mk_header 12 HAB_PAYLOAD_TYPE_IMPORT (vc_otherend_id vc) (vc_session_id vc))
        (Some (enc_import_data ?d)) s)
      (\<lambda>(r, s'). drv_wf {} hp hv hc s' \<and> hyp_frame (vc_pchan vc) s s' \<and> (\<forall>q. readable q s \<longrightarrow> readable q s'))"
    by (rule send_wf [OF wf(1) p]) (simp_all add: import_data_codec.enc_length)
  then obtain r s1 where s1: "physical_channel_send (vc_pchan vc)
        (mk_header 12 HAB_PAYLOAD_TYPE_IMPORT (vc_otherend_id vc) (vc_session_id vc))
        (Some (enc_import_data ?d)) s = Some (r, s1)" "import_inv hp hv hc s1"
    using imports_ok_hyp [OF wf(2)] by (auto simp: safe_ex import_inv_def)
  show ?thesis
  proof (cases "r = 0")
    case False
    with s1 v show ?thesis by (simp add: import_handshake_def)
  next
    case True
    have "run_ok (import_inv hp hv hc) (\<lambda>_ _ s'. import_inv hp hv hc s')
        (run_bind (hab_import_ack_wait c expect v w s1) (\<lambda>(r, scan) w2 s2. Some (Done (f r scan) w2 s2)))"
      for expect and f :: "int \<Rightarrow> u32 \<Rightarrow> int"
      by (rule run_ok_bind [OF import_ack_wait_inv [where hv = hv and hc = hc, OF s1(2) held env]]) auto
    then show ?thesis using v s1 True by (simp add: import_handshake_def)
  qed
qed

lemma import_claim_inv:
  assumes inv: "import_inv hp hv hc s" and c: "st_ctxs s c = Some cx"
  shows "safe (import_claim c k s) (\<lambda>(r, s'). import_inv hp hv hc s' \<and>
    (\<forall>e. r = Inr e \<longrightarrow> (\<exists>x. imp_at c k e x s' \<and> table_ok (ex_payload_count x) (ex_payload x))))"
proof (cases "map_of (cx_imp_whse cx) k")
  case None
  with inv c show ?thesis by (simp add: import_claim_def)
next
  case (Some e)
  have wf: "drv_wf {} hp hv hc s" "imports_ok s" using inv by (simp_all add: import_inv_def)
  from imp_at_lookup [OF wf c Some] obtain x where
    x: "imp_at c k e x s" "st_exps s e = Some x" "table_ok (ex_payload_count x) (ex_payload x)" by blast
  let ?x = "x\<lparr>ex_import_state := EXP_DESC_IMPORTING\<rparr>"
  have "import_inv hp hv hc (s\<lparr>st_exps := (st_exps s)(e \<mapsto> ?x)\<rparr>)"
      "imp_at c k e ?x (s\<lparr>st_exps := (st_exps s)(e \<mapsto> ?x)\<rparr>)"
    using imp_at_state [OF wf(1) x(1), of ?x] imports_ok_exp [OF wf(2) x(2), of ?x]
    by (simp_all add: import_inv_def exp_key_def)
  with Some c x inv show ?thesis
    by (auto simp: import_claim_def exp_set_state_def safe_mod)
qed

lemma import_map_inv:
  assumes inv: "import_inv hp hv hc s" and at: "imp_at c k e x s"
    and tab: "table_ok (ex_payload_count x) (ex_payload x)"
  shows "safe (import_map kv param kern e s) (\<lambda>(r, s'). import_inv hp hv hc s' \<and> (\<exists>x'. imp_at c k e x' s'))"
proof -
  have wf: "drv_wf {} hp hv hc s" "imports_ok s" using inv by (simp_all add: import_inv_def)
  have e: "st_exps s e = Some x" using at by (auto simp: imp_at_def)
  have upd: "import_inv hp hv hc (s\<lparr>st_hyp_mem := m, st_exps := (st_exps s)(e \<mapsto> x')\<rparr>) \<and>
      imp_at c k e x' (s\<lparr>st_hyp_mem := m, st_exps := (st_exps s)(e \<mapsto> x')\<rparr>)"
    if "ex_export_id x' = ex_export_id x" "ex_ctx x' = ex_ctx x" "ex_pchan x' = ex_pchan x"
      "ex_payload_count x' = ex_payload_count x" "ex_payload x' = ex_payload x" for m x'
  proof -
    have "import_inv hp hv hc (s\<lparr>st_exps := (st_exps s)(e \<mapsto> x')\<rparr>\<lparr>st_hyp_mem := m\<rparr>)"
      using imp_at_state [OF wf(1) at that(1-3)] imports_ok_exp [OF wf(2) e, of x'] that
      by (simp add: import_inv_def exp_key_def)
    moreover have "imp_at c k e x' (s\<lparr>st_exps := (st_exps s)(e \<mapsto> x')\<rparr>\<lparr>st_hyp_mem := m\<rparr>)"
      using at that by (auto simp: imp_at_def exp_key_def)
    moreover have "s\<lparr>st_exps := (st_exps s)(e \<mapsto> x')\<rparr>\<lparr>st_hyp_mem := m\<rparr> =
        s\<lparr>st_hyp_mem := m, st_exps := (st_exps s)(e \<mapsto> x')\<rparr>" by simp
    ultimately show ?thesis by metis
  qed
  show ?thesis
  proof (cases "ex_payload_count x * 4096 \<noteq> hi_sizebytes param")
    case True
    with upd [of "x\<lparr>ex_import_state := EXP_DESC_INIT\<rparr>" "st_hyp_mem s"] e show ?thesis
      by (auto simp: import_map_def exp_set_state_def safe_mod)
  next
    case False
    obtain r kva m where m: "habmem_imp_hyp_map (kv_pfn_valid kv) (ex_payload_count x) (ex_payload x)
          (hi_flags param) (ex_export_id x) (ex_vcid_remote x) (ex_pchan x) kern (st_hyp_mem s) = Some ((r, kva), m)"
      using imp_hyp_map_safe [OF tab] by (fastforce simp: safe_ex)
    show ?thesis
      using False e m upd [of "x\<lparr>ex_import_state := EXP_DESC_INIT\<rparr>" m]
        upd [of "x\<lparr>ex_import_index := i, ex_kva := a, ex_import_state := EXP_DESC_IMPORTED\<rparr>" m for i a]
      by (auto simp: import_map_def exp_set_state_def safe_mod Let_def)
  qed
qed

lemma import_rollback_wf:
  assumes wf: "drv_wf {} hp (hv(v := Suc (hv v))) hc s" and at: "imp_at c (i, p) e x s"
  shows "safe (import_rollback c v p e r s) (drv_wf {} hp (hv(v := Suc (hv v))) hc)"
proof -
  from at obtain cx where c: "st_ctxs s c = Some cx" "((i, p), e) \<in> set (cx_imp_whse cx)"
    "st_exps s e = Some x" "ex_pchan x = Some p"
    by (auto simp: imp_at_def exp_key_def)
  from drv_wf_exps [OF wf] obtain own where own: "exps_ok own (xv (st_exps s)) (iv (st_pchans s))
    (wv (st_ctxs s)) (st_reclaim_list s) (st_next s)" by blast
  obtain pc where pc: "st_pchans s p = Some pc"
    by (rule imp_whse_facts [OF own c(1,2)]) (use c(3,4) that in simp)
  show ?thesis
  proof (cases "pc_mem_proto pc = 1 \<and> r \<noteq> 0")
    case True
    from vchan_kept [OF wf] obtain vc where v: "st_vchans s v = Some vc" by blast
    obtain s1 where s1: "hab_send_unimport_msg v (ex_export_id x) s = Some s1"
      "drv_wf {} hp (hv(v := Suc (hv v))) hc s1" "imp_at c (i, p) e x s1"
      using send_unimport_imp_at [OF wf at v] unfolding safe_ex by blast
    have "safe (imp_whse_drop c e s1) (drv_wf {} hp (hv(v := Suc (hv v))) hc)"
      by (rule safe_mono [OF imp_whse_drop_wf [OF s1(2,3)]]) blast
    with True c(3) pc s1(1) show ?thesis by (simp add: import_rollback_def)
  next
    case False
    then show ?thesis using pc wf by (simp add: import_rollback_def del: de_Morgan_conj)
  qed
qed

lemma import_rest_wf:
  assumes inv: "import_inv hp (hv(v := Suc (hv v))) hc s" and c: "0 < hc c"
  shows "safe (import_rest kv c param kern v p r s) (\<lambda>(res, s'). drv_wf {} hp hv hc s')"
proof -
  let ?hv = "hv(v := Suc (hv v))"
  have wf: "drv_wf {} hp ?hv hc s" using inv by (simp add: import_inv_def)
  from held_ctx [where hc = hc, OF wf c] obtain cx where cx: "st_ctxs s c = Some cx" by blast
  let ?k = "(unat (hi_exportid param), p)"
  obtain cl s1 where cl: "import_claim c ?k s = Some (cl, s1)" "import_inv hp ?hv hc s1"
    "\<And>e. cl = Inr e \<Longrightarrow> \<exists>x. imp_at c ?k e x s1 \<and> table_ok (ex_payload_count x) (ex_payload x)"
    using import_claim_inv [OF inv cx, of ?k] unfolding safe_ex by auto
  have wf1: "drv_wf {} hp ?hv hc s1" using cl(2) by (simp add: import_inv_def)
  show ?thesis
  proof (cases "r = 0")
    case False
    with put_back [OF wf] show ?thesis by (simp add: import_rest_def)
  next
    case r: True
    show ?thesis
    proof (cases cl)
      case (Inl err)
      with r cl(1) put_back [OF wf1] show ?thesis by (simp add: import_rest_def)
    next
      case (Inr e)
      from cl(3) [OF Inr] obtain x where x: "imp_at c ?k e x s1"
        "table_ok (ex_payload_count x) (ex_payload x)" by blast
      obtain r2 param2 s2 x2 where m: "import_map kv param kern e s1 = Some ((r2, param2), s2)"
        "import_inv hp ?hv hc s2" "imp_at c ?k e x2 s2"
        using import_map_inv [OF cl(2) x, of kv param kern] unfolding safe_ex by auto
      have wf2: "drv_wf {} hp ?hv hc s2" using m(2) by (simp add: import_inv_def)
      obtain s3 where s3: "import_rollback c v p e r2 s2 = Some s3" "drv_wf {} hp ?hv hc s3"
        using import_rollback_wf [OF wf2 m(3)] unfolding safe_ex by blast
      from r cl(1) Inr m(1) s3(1) put_back [OF s3(2)] show ?thesis by (simp add: import_rest_def)
    qed
  qed
qed

lemma hab_mem_import_wf:
  assumes inv: "import_inv hp hv hc s" and c: "0 < hc c"
    and env: "\<And>v. env_ok (import_inv hp (hv(v := Suc (hv v))) hc) w"
  shows "run_ok (\<lambda>s'. \<exists>v. import_inv hp (hv(v := Suc (hv v))) hc s') (\<lambda>_ _ s'. drv_wf {} hp hv hc s')
    (hab_mem_import kv c param kern w s)"
proof -
  have wf: "drv_wf {} hp hv hc s" "imports_ok s" using inv by (simp_all add: import_inv_def)
  from held_ctx [where hc = hc, OF wf(1) c] obtain cx where cx: "st_ctxs s c = Some cx" by blast
  from get_fromvcid_wf [OF wf(1) cx, of "hi_vcid param" False] obtain vo s1 where
    vo: "hab_get_vchan_fromvcid (hi_vcid param) c False s = Some (vo, s1)" and
    post: "case vo of None \<Rightarrow> s1 = s | Some v \<Rightarrow> drv_wf {} hp (hv(v := Suc (hv v))) hc s1 \<and>
      st_ctxs s1 = st_ctxs s \<and> st_exps s1 = st_exps s"
    unfolding safe_ex by (fastforce split: option.splits)
  show ?thesis
  proof (cases "hi_sizebytes param mod 4096 = 0 \<and> vo \<noteq> None")
    case False
    with vo post wf show ?thesis by (auto simp: hab_mem_import_def)
  next
    case True
    then obtain v where v': "vo = Some v" by blast
    let ?hv = "hv(v := Suc (hv v))"
    have inv1: "import_inv hp ?hv hc s1"
      using post v' wf(2) by (simp add: import_inv_def imports_ok_def)
    then have wf1: "drv_wf {} hp ?hv hc s1" by (simp add: import_inv_def)
    from vchan_kept [OF wf1] obtain vc pc where v: "st_vchans s1 v = Some vc"
      "st_pchans s1 (vc_pchan vc) = Some pc" by blast
    have "run_ok (import_inv hp ?hv hc) (\<lambda>_ _ s'. import_inv hp ?hv hc s')
        (if pc_mem_proto pc = 1 then import_handshake c param v w s1 else Some (Done 0 w s1))"
      using import_handshake_inv [where hv = ?hv and hc = hc, OF inv1 _ c env] inv1 by simp
    then have "run_ok (\<lambda>s'. \<exists>v. import_inv hp (hv(v := Suc (hv v))) hc s') (\<lambda>_ _ s'. drv_wf {} hp hv hc s')
        (run_bind (if pc_mem_proto pc = 1 then import_handshake c param v w s1 else Some (Done 0 w s1))
          (\<lambda>r w2 s2. import_rest kv c param kern v (vc_pchan vc) r s2 \<bind> (\<lambda>(res, s3). Some (Done res w2 s3))))"
    proof (rule run_ok_bind)
      fix r w2 s2 assume "import_inv hp ?hv hc s2"
      from import_rest_wf [OF this c]
      show "run_ok (\<lambda>s'. \<exists>v. import_inv hp (hv(v := Suc (hv v))) hc s') (\<lambda>_ _ s'. drv_wf {} hp hv hc s')
          (import_rest kv c param kern v (vc_pchan vc) r s2 \<bind> (\<lambda>(res, s3). Some (Done res w2 s3)))"
        by (rule run_ok_safe) auto
    qed blast
    with True vo v' v show ?thesis by (simp add: hab_mem_import_def)
  qed
qed

section \<open>Unexport\<close>

text \<open>An export off every list and off the idr of its channel.\<close>

lemma export_unlinked_wf:
  assumes own: "exps_ok own (xv X) (iv P) (wv C) R n" and e: "own e = Some q" "\<forall>c. q \<noteq> OImp c"
    and x: "X e = Some x" "ex_pchan x = Some p" and pc: "P p = Some pc"
    and C': "\<And>c. wv C' c = map_option (\<lambda>(es, m). (remove1 e es, m)) (wv C c)"
    and pc': "pc_expid_idr pc' = idr_remove (pc_expid_idr pc) (unat (ex_export_id x))"
  shows "exps_ok (own(e := None)) (xv (X(e := y))) (iv (P(p \<mapsto> pc'))) (wv C') (remove1 e R) n"
proof -
  have xv: "xv (X(e := y)) = (xv X)(e := map_option (\<lambda>x. (ex_export_id x, ex_ctx x, ex_pchan x)) y)"
    by (auto simp: xv_def)
  show ?thesis
    unfolding xv
  proof (rule move_exp_gone [OF own e(1)])
    show "xv X e = Some (ex_export_id x, ex_ctx x, Some p)" using x by (simp add: xv_def)
    fix c es m assume "wv C' c = Some (es, m)"
    then obtain es0 where w: "wv C c = Some (es0, m)" "es = remove1 e es0" by (auto simp: C')
    have "e \<notin> snd ` set m" using exps_ok_whse [OF own w(1)] e by (auto simp: whse_ok_def)
    then have "snd ` set m \<subseteq> snd ` set m - {e}" by blast
    with exps_ok_whse [OF own w(1)] w show "\<exists>es0 m0. wv C c = Some (es0, m0) \<and> distinct es \<and>
        set es \<subseteq> set es0 - {e} \<and> distinct (map fst m) \<and> distinct (map snd m) \<and>
        snd ` set m \<subseteq> snd ` set m0 - {e}"
      by (auto simp: whse_ok_def)
  next
    show "distinct (remove1 e R)" "set (remove1 e R) \<subseteq> set R - {e}"
      using exps_ok_reclaim [OF own] by auto
    show "iv (P(p \<mapsto> pc')) = (iv P)(p := map_option (\<lambda>m. idr_remove m (unat (ex_export_id x))) (iv P p)) \<or>
        ((\<exists>c. q = OImp c) \<and> iv (P(p \<mapsto> pc')) = iv P)"
      using pc pc' by (simp add: view_look)
  qed
qed

lemma unexport_wf:
  assumes wf: "drv_wf D hp hv hc s" and p: "st_pchans s p = Some pc"
    and f: "idr_find (pc_expid_idr pc) i = Some e" "st_exps s e = Some x" "ex_pchan x = Some p"
      "ex_ctx x = Some c" and c: "st_ctxs s c = Some cx" and i: "i = unat (ex_export_id x)"
  shows "safe (do { s2 \<leftarrow> expid_remove p (ex_export_id x) s;
      (r, s3) \<leftarrow> habmem_hyp_revoke e (export_list_del e s2);
      s4 \<leftarrow> habmem_remove_export e s3; Some (r, s4) }) (\<lambda>(r :: int, s'). drv_wf D hp hv hc s')"
proof -
  from drv_wf_exps [OF wf] obtain own where own: "exps_ok own (xv (st_exps s)) (iv (st_pchans s))
    (wv (st_ctxs s)) (st_reclaim_list s) (st_next s)" by blast
  have I: "iv (st_pchans s) p = Some (pc_expid_idr pc)" using p by (simp add: view_look)
  from idr_okD [OF exps_ok_idr [OF own I] idr_find_Some_in [OF f(1)]] obtain q where
    q: "own e = Some q" "\<forall>c. q \<noteq> OImp c" by blast
  define pc1 where "pc1 = pc\<lparr>pc_expid_idr := idr_remove (pc_expid_idr pc) (unat (ex_export_id x))\<rparr>"
  define s3 where "s3 = export_list_del e (s\<lparr>st_pchans := (st_pchans s)(p \<mapsto> pc1)\<rparr>)"
  define cx1 where "cx1 = cx\<lparr>cx_exp_whse := remove1 e (cx_exp_whse cx)\<rparr>"
  define cx2 where "cx2 = cx1\<lparr>cx_export_total := cx_export_total cx1 - 1\<rparr>"
  have s3: "st_exps s3 e = Some x" "st_ctxs s3 c = Some cx1"
    using f c by (simp_all add: s3_def export_list_del_def cx1_def)
  obtain y h where run: "habmem_remove_export e s3 =
      Some (s3\<lparr>st_ctxs := (st_ctxs s3)(c \<mapsto> cx2), st_exps := (st_exps s3)(e := y), st_hyp_mem := h\<rparr>)"
    unfolding cx2_def by (rule remove_export_effect [OF s3(1) f(4) s3(2)])
  define s4 where "s4 = s3\<lparr>st_ctxs := (st_ctxs s3)(c \<mapsto> cx2), st_exps := (st_exps s3)(e := y), st_hyp_mem := h\<rparr>"
  have "wv (st_ctxs s4) c' = map_option (\<lambda>(es, m). (remove1 e es, m)) (wv (st_ctxs s) c')" for c'
    using c by (auto simp: s4_def s3_def export_list_del_def wv_def cx2_def cx1_def option.map_comp comp_def)
  from export_unlinked_wf [OF own q f(2,3) p this, of pc1 y]
  have "exps_wf s4"
    by (auto simp: exps_wf_def views s4_def s3_def export_list_del_def pc1_def)
  moreover have "exp_frame s s4"
    using p c by (auto simp: exp_frame_def s4_def s3_def export_list_del_def pc1_def cx2_def cx1_def
        upd_same view_look cv_def pv_def option.map_comp comp_def fun_eq_iff)
  ultimately have "drv_wf D hp hv hc s4" by (intro exp_frame_wf [OF wf])
  moreover have "expid_remove p (ex_export_id x) s = Some (s\<lparr>st_pchans := (st_pchans s)(p \<mapsto> pc1)\<rparr>)"
    using p by (simp add: expid_remove_def pc1_def)
  ultimately show ?thesis
    using run f s3 by (simp add: habmem_hyp_revoke_def s3_def [symmetric] s4_def [symmetric])
qed

lemma hab_mem_unexport_wf:
  assumes wf: "drv_wf {} hp hv hc s" and c: "st_ctxs s c = Some cx" and ok: "\<And>p. exports_ok p s"
  shows "safe (hab_mem_unexport c param s) (\<lambda>(r, s'). drv_wf {} hp hv hc s')"
proof -
  from get_fromvcid_wf [OF wf c, of "hu_vcid param" True] obtain vo s1 where
    vo: "hab_get_vchan_fromvcid (hu_vcid param) c True s = Some (vo, s1)" and
    post: "case vo of None \<Rightarrow> s1 = s | Some v \<Rightarrow> drv_wf {} hp (hv(v := Suc (hv v))) hc s1 \<and>
      st_ctxs s1 = st_ctxs s \<and> st_exps s1 = st_exps s \<and> st_pchans s1 = st_pchans s"
    unfolding safe_ex by (fastforce split: option.splits)
  show ?thesis
  proof (cases vo)
    case None
    with vo post wf show ?thesis by (simp add: hab_mem_unexport_def)
  next
    case (Some v)
    with post have wf1: "drv_wf {} hp (hv(v := Suc (hv v))) hc s1"
      and same: "st_ctxs s1 = st_ctxs s" "st_exps s1 = st_exps s" "st_pchans s1 = st_pchans s" by simp_all
    from vchan_kept [OF wf1] obtain vc pc where v: "st_vchans s1 v = Some vc"
      "st_pchans s1 (vc_pchan vc) = Some pc" by blast
    note run = hab_mem_unexport_def vo Some v
    have fin: "safe (hab_vchan_put v s2 \<bind> (\<lambda>s6. Some (r, s6))) (\<lambda>(r, s'). drv_wf {} hp hv hc s')"
      if "drv_wf {} hp (hv(v := Suc (hv v))) hc s2" for s2 and r :: int
      using put_back [OF that] by simp
    show ?thesis
    proof (cases "idr_find (pc_expid_idr pc) (unat (hu_exportid param))")
      case None
      with fin [OF wf1] show ?thesis by (simp add: run)
    next
      case e: (Some e)
      from drv_wf_exps [OF wf1] obtain own where own: "exps_ok own (xv (st_exps s1)) (iv (st_pchans s1))
        (wv (st_ctxs s1)) (st_reclaim_list s1) (st_next s1)" by blast
      have I: "iv (st_pchans s1) (vc_pchan vc) = Some (pc_expid_idr pc)" using v by (simp add: view_look)
      from idr_okD [OF exps_ok_idr [OF own I] idr_find_Some_in [OF e]] obtain x where
        x: "st_exps s1 e = Some x" "ex_export_id x = hu_exportid param"
        by (auto simp: xv_def word_unat_eq_iff)
      show ?thesis
      proof (cases "ex_exp_state x = HAB_EXP_SUCCESS \<and> ex_ctx x = Some c \<and> \<not> ex_remote_imported x")
        case False
        with x fin [OF wf1] show ?thesis by (simp add: run e del: de_Morgan_conj)
      next
        case True
        have pch: "ex_pchan x = Some (vc_pchan vc)"
          using ok [of "vc_pchan vc"] v(2) e x(1) True by (simp add: exports_ok_def same)
        have i: "unat (hu_exportid param) = unat (ex_export_id x)" by (simp add: x(2))
        have "st_ctxs s1 c = Some cx" "ex_ctx x = Some c" using c same True by simp_all
        from safe_mono [OF unexport_wf [OF wf1 v(2) e x(1) pch this(2,1) i]] fin
        have "safe (do { s2 \<leftarrow> expid_remove (vc_pchan vc) (ex_export_id x) s1;
            (r, s3) \<leftarrow> habmem_hyp_revoke e (export_list_del e s2);
            s4 \<leftarrow> habmem_remove_export e s3; Some (r, s4) })
          (\<lambda>(r, s2). safe (hab_vchan_put v s2 \<bind> (\<lambda>s6. Some (r, s6))) (\<lambda>(r, s'). drv_wf {} hp hv hc s'))"
          by fastforce
        with True x show ?thesis by (simp add: run e split_def)
      qed
    qed
  qed
qed

end
