(* ===== verification/Hab_Api_Safe.thy ===== *)
theory Hab_Api_Safe
  imports Hab_Api Hab_Mimex_Safe
begin

text \<open>
  The client calls of \<^verbatim>\<open>hab.c\<close> keep the reference invariant: none of them faults, and each gives back
  the references it took.  A call that sleeps does so with exactly the references it holds.
\<close>

lemma drv_wf_mono_v:
  assumes wf: "drv_wf D hp hv hc s" and le: "\<And>v. hv' v \<le> hv v"
  shows "drv_wf D hp hv' hc s"
proof -
  from drv_wf_exps [OF wf] obtain own where own: "exps_ok own (xv (st_exps s)) (iv (st_pchans s))
    (wv (st_ctxs s)) (st_reclaim_list s) (st_next s)" by blast
  have "vchan_ok D hv' P C n v x" if "vchan_ok D hv P C n v x" for P C n v x
    using that le [of v] by (cases x) (fastforce simp: vchan_ok_def)
  then have "refs_ok D hp hv' hc (pv (st_pchans s)) (vv (st_vchans s)) (cv (st_ctxs s)) (qv (st_devs s)) (st_next s)"
    using drv_wf_refs [OF wf] unfolding refs_ok_def by blast
  moreover have "held_ok hp hv' hc s"
    using wf less_le_trans [OF _ le] unfolding drv_wf_def held_ok_def by blast
  ultimately show ?thesis
    using own wf by (intro drv_wfI [where own = own]) (simp_all add: drv_wf_def)
qed

lemma mod_eqs:
  "st_pchans s p = Some pc \<Longrightarrow> mod_pchan p f s = Some (s\<lparr>st_pchans := (st_pchans s)(p \<mapsto> f pc)\<rparr>)"
  "st_vchans s v = Some vc \<Longrightarrow> mod_vchan v g s = Some (s\<lparr>st_vchans := (st_vchans s)(v \<mapsto> g vc)\<rparr>)"
  "st_ctxs s c = Some cx \<Longrightarrow> mod_ctx c h s = Some (s\<lparr>st_ctxs := (st_ctxs s)(c \<mapsto> h cx)\<rparr>)"
  by simp_all

section \<open>Send\<close>

lemma send_type_large: "send_type flags n = Some HAB_PAYLOAD_TYPE_PROFILE \<Longrightarrow> 16 \<le> n"
  by (auto simp: send_type_def split: if_splits)

definition payload_holds :: "bytes option \<Rightarrow> nat \<Rightarrow> bool" where
  "payload_holds data n \<longleftrightarrow> n = 0 \<or> (\<exists>b. data = Some b \<and> n \<le> length b)"

lemma send_header_wf:
  assumes wf: "drv_wf {} hp hv hc s" and n: "n \<le> 0x7D000" and data: "payload_holds data n"
    and ty: "send_type flags n = Some ty" and v: "st_vchans s v = Some vc"
  shows "safe (physical_channel_send (vc_pchan vc) (send_header vc' ty n) data s)
    (\<lambda>(r, s'). drv_wf {} hp hv hc s' \<and> st_vchans s' = st_vchans s)"
proof -
  from vchan_pchan [OF wf v] obtain pc where p: "st_pchans s (vc_pchan vc) = Some pc" by blast
  have sz: "unat (HAB_HEADER_GET_SIZE (send_header vc' ty n)) = n"
    using n by (simp add: send_header_def unat_of_nat take_bit_eq_mod)
  have "safe (physical_channel_send (vc_pchan vc) (send_header vc' ty n) data s)
      (\<lambda>(r, s'). drv_wf {} hp hv hc s' \<and> hyp_frame (vc_pchan vc) s s' \<and>
        (\<forall>q. readable q s \<longrightarrow> readable q s'))"
  proof (rule send_wf [OF wf p])
    show "HAB_HEADER_GET_TYPE (send_header vc' ty n) = payload_code HAB_PAYLOAD_TYPE_PROFILE \<longrightarrow>
        unat (HAB_HEADER_GET_SIZE (send_header vc' ty n)) = 0 \<or> 16 \<le> unat (HAB_HEADER_GET_SIZE (send_header vc' ty n))"
      unfolding sz using send_type_large [of flags n] ty by (cases ty) (auto simp: send_header_def)
  qed (use data in \<open>auto simp: sz payload_holds_def\<close>)
  then show ?thesis by (auto elim!: safe_mono simp: hyp_vchans)
qed

lemma send_loop_wf:
  assumes wf: "drv_wf {} hp hv hc s" and k: "0 < hv v" and n: "n \<le> 0x7D000" and data: "payload_holds data n"
    and ty: "send_type flags n = Some ty"
    and env: "env_ok (drv_wf {} hp hv hc) w"
  shows "run_ok (drv_wf {} hp hv hc) (\<lambda>_ w' s'. drv_wf {} hp hv hc s')
    (send_loop v nb (send_header vc ty n) data w s)"
  using env wf
proof (induction w arbitrary: s)
  case Nil
  from held_vchan [OF Nil(2) k] obtain vc1 where v: "st_vchans s v = Some vc1" by blast
  from send_header_wf [OF Nil(2) n data ty v, where vc' = vc] obtain r s1 where
    "physical_channel_send (vc_pchan vc1) (send_header vc ty n) data s = Some (r, s1)"
    "drv_wf {} hp hv hc s1" "st_vchans s1 = st_vchans s" unfolding safe_ex by auto
  with v show ?case by (simp add: send_loop.simps)
next
  case (Cons ev w)
  from held_vchan [OF Cons.prems(2) k] obtain vc1 where v: "st_vchans s v = Some vc1" by blast
  from send_header_wf [OF Cons.prems(2) n data ty v, where vc' = vc] obtain r s1 where
    s1: "physical_channel_send (vc_pchan vc1) (send_header vc ty n) data s = Some (r, s1)"
    "drv_wf {} hp hv hc s1" "st_vchans s1 = st_vchans s" unfolding safe_ex by auto
  note rest = Cons.IH [OF env_ok_Cons [OF Cons.prems(1)]]
  show ?case
  proof (cases "vc_otherend_closed vc1 \<or> nb \<or> r \<noteq> - EAGAIN")
    case True
    with s1 v show ?thesis by (subst send_loop.simps) simp
  next
    case False
    show ?thesis
    proof (cases ev)
      case (Env f)
      then have "safe (f s1) (drv_wf {} hp hv hc)"
        using Cons.prems(1) s1(2) by (simp add: env_ok_def)
      then obtain s2 where "f s1 = Some s2" "drv_wf {} hp hv hc s2" unfolding safe_ex by blast
      with rest False s1 v Env show ?thesis by (subst send_loop.simps) simp
    qed (use rest False s1 v in \<open>subst send_loop.simps, simp\<close>)+
  qed
qed

text \<open>On a buffer too small for its flags the reference stays taken; the count only grows.\<close>

lemma hab_vchan_send_wf:
  assumes wf: "drv_wf {} hp hv hc s" and c: "st_ctxs s c = Some cx" and data: "payload_holds data n"
    and env: "\<And>v. env_ok (drv_wf {} hp (hv(v := Suc (hv v))) hc) w"
  shows "run_ok (\<lambda>s'. drv_wf {} hp hv hc s') (\<lambda>_ _ s'. drv_wf {} hp hv hc s')
    (hab_vchan_send c vcid n data flags w s)"
proof (cases "n \<le> 0x7D000")
  case n: True
  from get_fromvcid_wf [OF wf c, of vcid False] obtain vo s1 where
    g: "hab_get_vchan_fromvcid vcid c False s = Some (vo, s1)" "case vo of
      None \<Rightarrow> s1 = s
    | Some v \<Rightarrow> drv_wf {} hp (hv(v := Suc (hv v))) hc s1"
    unfolding safe_ex by (auto split: option.splits)
  show ?thesis
  proof (cases vo)
    case None
    with g wf n show ?thesis by (simp add: hab_vchan_send_def)
  next
    case (Some v)
    with g have wf1: "drv_wf {} hp (hv(v := Suc (hv v))) hc s1" by simp
    have less: "drv_wf {} hp hv hc s'" if "drv_wf {} hp (hv(v := Suc (hv v))) hc s'" for s'
      by (rule drv_wf_mono_v [OF that]) simp
    from vchan_kept [OF wf1] obtain vc where v: "st_vchans s1 v = Some vc" by blast
    consider "vc_otherend_closed vc" | "\<not> vc_otherend_closed vc" "send_type flags n = None"
      | ty where "\<not> vc_otherend_closed vc" "send_type flags n = Some ty" by (cases "send_type flags n") auto
    then show ?thesis
    proof cases
      case 1
      with put_back [OF wf1] g(1) Some v n show ?thesis
        unfolding safe_ex by (auto simp: hab_vchan_send_def)
    next
      case 2
      with less [OF wf1] g(1) Some v n show ?thesis by (simp add: hab_vchan_send_def)
    next
      case (3 ty)
      have "run_ok (drv_wf {} hp hv hc) (\<lambda>_ _ s'. drv_wf {} hp hv hc s')
          (run_bind (send_loop v (has_flag flags 1) (send_header vc ty n) data w s1)
            (\<lambda>r w s2. do {
               s3 \<leftarrow> (if r = 0 then mod_vchan v (\<lambda>vc. vc\<lparr>vc_tx_cnt := vc_tx_cnt vc + 1\<rparr>) s2 else Some s2);
               s4 \<leftarrow> hab_vchan_put v s3;
               Some (Done r w s4) }))"
      proof (rule run_ok_bind [OF send_loop_wf [OF wf1 _ n data 3(2) env] less])
        fix r w' s2 assume wf2: "drv_wf {} hp (hv(v := Suc (hv v))) hc s2"
        from vchan_kept [OF wf2] obtain vc2 where v2: "st_vchans s2 v = Some vc2" by blast
        obtain s3 where s3: "(if r = 0 then mod_vchan v (\<lambda>vc. vc\<lparr>vc_tx_cnt := vc_tx_cnt vc + 1\<rparr>) s2 else Some s2) = Some s3"
          "drv_wf {} hp (hv(v := Suc (hv v))) hc s3"
          using drv_wf_vchan_fields [OF wf2 v2, of "vc2\<lparr>vc_tx_cnt := vc_tx_cnt vc2 + 1\<rparr>"] wf2 v2
          by (cases "r = 0") (auto simp: drv_wf_def rx_ok_def)
        from put_back [OF s3(2)] s3(1) show "run_ok (drv_wf {} hp hv hc) (\<lambda>_ _ s'. drv_wf {} hp hv hc s')
            (do { s3 \<leftarrow> (if r = 0 then mod_vchan v (\<lambda>vc. vc\<lparr>vc_tx_cnt := vc_tx_cnt vc + 1\<rparr>) s2 else Some s2);
                  s4 \<leftarrow> hab_vchan_put v s3; Some (Done r w' s4) })"
          unfolding safe_ex by auto
      qed simp_all
      with 3 g(1) Some v n show ?thesis by (simp add: hab_vchan_send_def)
    qed
  qed
qed (use wf in \<open>simp add: hab_vchan_send_def\<close>)

section \<open>Receive\<close>

text \<open>What a receive returns: a message with all its bytes and in the room given, or an error.\<close>

definition got_msg :: "int \<Rightarrow> int \<times> int \<times> hab_message option \<Rightarrow> bool" where
  "got_msg rsize r = (case r of (ret, rsize', m) \<Rightarrow> (ret = 0 \<longleftrightarrow> m \<noteq> None) \<and>
     (case m of None \<Rightarrow> True
      | Some x \<Rightarrow> msg_ok x \<and> ms_sizebytes x \<le> to_size_t rsize \<and> rsize' = to_int32 (ms_sizebytes x)))"

lemma msg_take_wf:
  assumes wf: "drv_wf {} hp hv hc s" and v: "st_vchans s v = Some vc"
  shows "safe (msg_take v rsize ret s) (\<lambda>(r, n, m, s'). drv_wf {} hp hv hc s' \<and> got_msg rsize (r, n, m))"
proof (cases "vc_rx_list vc")
  case (Cons m ms)
  have "\<forall>m \<in> set (vc_rx_list vc). msg_ok m" using wf v by (simp add: drv_wf_def rx_ok_def)
  with drv_wf_vchan_fields [OF wf v, of "vc\<lparr>vc_rx_list := ms\<rparr>"] Cons v wf show ?thesis
    by (simp add: msg_take_def safe_mod got_msg_def)
qed (use v wf in \<open>simp add: msg_take_def got_msg_def\<close>)

lemma msg_dequeue_wf:
  assumes wf: "drv_wf {} hp hv hc s" and k: "0 < hv v" and env: "env_ok (drv_wf {} hp hv hc) w"
  shows "run_ok (drv_wf {} hp hv hc) (\<lambda>r w' s'. drv_wf {} hp hv hc s' \<and> got_msg rsize r)
    (hab_msg_dequeue v rsize flags w s)"
proof -
  let ?I = "drv_wf {} hp hv hc"
  from held_vchan [OF wf k] obtain vc where v: "st_vchans s v = Some vc" by blast
  have "safe (rx_ready v s) (\<lambda>(r, s'). case r of Some a \<Rightarrow> ?I s' | None \<Rightarrow> ?I s')" if "?I s" for s
    using held_vchan [OF that k] that by (auto simp: rx_ready_def)
  note wait = wait_event_ok [where I = ?I, OF this env wf]
  have "run_ok ?I (\<lambda>_ w' s'. ?I s')
      (if flags AND 1 = 0 \<and> vc_rx_list vc = []
       then run_bind (wait_event (rx_ready v) (flags AND 2 = 0) (flags AND 4 \<noteq> 0) w s)
              (\<lambda>r w1 s1. Some (Done (wait_code r) w1 s1))
       else Some (Done (- EAGAIN) w s))"
    using wf by (auto intro!: run_ok_bind [where I = ?I, OF wait] simp: wait_post_def split: wait_res.splits)
  then have "run_ok ?I (\<lambda>r w' s'. ?I s' \<and> got_msg rsize r)
      (run_bind (if flags AND 1 = 0 \<and> vc_rx_list vc = []
         then run_bind (wait_event (rx_ready v) (flags AND 2 = 0) (flags AND 4 \<noteq> 0) w s)
              (\<lambda>r w1 s1. Some (Done (wait_code r) w1 s1))
         else Some (Done (- EAGAIN) w s))
       (\<lambda>ret w1 s1. do {
          (ret', rsize', m, s2) \<leftarrow> msg_take v rsize ret s1;
          Some (Done (ret', rsize', m) w1 s2) }))"
  proof (rule run_ok_bind)
    fix ret w1 s1 assume s1: "?I s1"
    from held_vchan [OF s1 k] obtain vc1 where "st_vchans s1 v = Some vc1" by blast
    from msg_take_wf [OF s1 this, of rsize ret] show "run_ok ?I (\<lambda>r w' s'. ?I s' \<and> got_msg rsize r) (do {
          (ret', rsize', m, s2) \<leftarrow> msg_take v rsize ret s1;
          Some (Done (ret', rsize', m) w1 s2) })"
      unfolding safe_ex by auto
  qed
  with v show ?thesis by (simp add: hab_msg_dequeue_def hab_rx_queue_empty_def)
qed

lemma hab_vchan_recv_wf:
  assumes wf: "drv_wf {} hp hv hc s" and c: "st_ctxs s c = Some cx"
    and env: "\<And>v. env_ok (drv_wf {} hp (hv(v := Suc (hv v))) hc) w"
  shows "run_ok (\<lambda>s'. \<exists>v. drv_wf {} hp (hv(v := Suc (hv v))) hc s') (\<lambda>r _ s'. drv_wf {} hp hv hc s' \<and> got_msg rsize r)
    (hab_vchan_recv c vcid rsize flags w s)"
proof -
  from get_fromvcid_wf [OF wf c, of vcid True] obtain vo s1 where
    g: "hab_get_vchan_fromvcid vcid c True s = Some (vo, s1)" "case vo of
      None \<Rightarrow> s1 = s
    | Some v \<Rightarrow> drv_wf {} hp (hv(v := Suc (hv v))) hc s1"
    unfolding safe_ex by (auto split: option.splits)
  show ?thesis
  proof (cases vo)
    case None
    with g wf show ?thesis by (simp add: hab_vchan_recv_def got_msg_def)
  next
    case (Some v)
    let ?I = "drv_wf {} hp (hv(v := Suc (hv v))) hc"
    from g Some have wf1: "?I s1" by simp
    from vchan_kept [OF wf1] obtain vc pc where v: "st_vchans s1 v = Some vc"
      "st_pchans s1 (vc_pchan vc) = Some pc" by blast
    define s2 where "s2 = s1\<lparr>st_vchans := (st_vchans s1)(v \<mapsto> vc\<lparr>vc_rx_inflight := True\<rparr>)\<rparr>"
    have scalar: "?I (s'\<lparr>st_vchans := (st_vchans s')(v \<mapsto> x)\<rparr>)"
      if "?I s'" "st_vchans s' v = Some y" "x = y\<lparr>vc_rx_inflight := b\<rparr> \<or> x = y\<lparr>vc_rx_cnt := n\<rparr>" for s' x y b n
      by (rule drv_wf_vchan_fields [OF that(1,2)]) (use that in \<open>auto simp: drv_wf_def rx_ok_def\<close>)
    have wf2: "?I s2" unfolding s2_def by (rule scalar [OF wf1 v(1) disjI1 [OF refl]])
    have s3: "mod_vchan v (\<lambda>vc. vc\<lparr>vc_rx_inflight := True\<rparr>) s1 = Some s2"
      "physical_channel_rx_dispatch (vc_pchan vc) s2 = Some s2"
      using v by (simp_all add: s2_def physical_channel_rx_dispatch_def)
    have "run_ok (\<lambda>s'. \<exists>v. drv_wf {} hp (hv(v := Suc (hv v))) hc s') (\<lambda>r _ s'. drv_wf {} hp hv hc s' \<and> got_msg rsize r)
        (run_bind (hab_msg_dequeue v rsize flags w s2)
            (\<lambda>(ret, rsize', m) w s4. do {
               s5 \<leftarrow> (if ret = 0 \<and> m \<noteq> None then mod_vchan v (\<lambda>vc. vc\<lparr>vc_rx_cnt := vc_rx_cnt vc + 1\<rparr>) s4
                      else Some s4);
               s6 \<leftarrow> mod_vchan v (\<lambda>vc. vc\<lparr>vc_rx_inflight := False\<rparr>) s5;
               s7 \<leftarrow> hab_vchan_put v s6;
               Some (Done (ret, rsize', m) w s7)
             }))"
    proof (rule run_ok_bind [OF msg_dequeue_wf [where v = v, OF wf2 _ env]], simp, blast, clarify)
      fix ret rsize' m w' s4 assume wf4: "?I s4" and g4: "got_msg rsize (ret, rsize', m)"
      from vchan_kept [OF wf4] obtain vc4 where v4: "st_vchans s4 v = Some vc4" by blast
      obtain s5 vc5 where s5: "(if ret = 0 \<and> m \<noteq> None then mod_vchan v (\<lambda>vc. vc\<lparr>vc_rx_cnt := vc_rx_cnt vc + 1\<rparr>) s4
          else Some s4) = Some s5" "?I s5" "st_vchans s5 v = Some vc5"
        using scalar [OF wf4 v4 disjI2 [OF refl], of "vc_rx_cnt vc4 + 1"] wf4 v4 by (cases "ret = 0 \<and> m \<noteq> None") auto
      have wf6: "?I (s5\<lparr>st_vchans := (st_vchans s5)(v \<mapsto> vc5\<lparr>vc_rx_inflight := False\<rparr>)\<rparr>)"
        by (rule scalar [OF s5(2,3) disjI1 [OF refl]])
      from put_back [OF wf6] s5(1,3) g4 show "run_ok (\<lambda>s'. \<exists>v. drv_wf {} hp (hv(v := Suc (hv v))) hc s')
          (\<lambda>r _ s'. drv_wf {} hp hv hc s' \<and> got_msg rsize r)
          (do { s5 \<leftarrow> (if ret = 0 \<and> m \<noteq> None then mod_vchan v (\<lambda>vc. vc\<lparr>vc_rx_cnt := vc_rx_cnt vc + 1\<rparr>) s4
                      else Some s4);
                s6 \<leftarrow> mod_vchan v (\<lambda>vc. vc\<lparr>vc_rx_inflight := False\<rparr>) s5;
                s7 \<leftarrow> hab_vchan_put v s6;
                Some (Done (ret, rsize', m) w' s7) })"
        unfolding safe_ex by (auto simp: mod_eqs(2))
    qed
    then show ?thesis using g(1) Some v(1) s3 by (simp add: hab_vchan_recv_def del: mod_vchan_Some)
  qed
qed

section \<open>Stop and close\<close>

lemma hab_stop_wf:
  assumes wf: "drv_wf {} hp hv hc s" and c: "st_ctxs s c = Some cx"
  shows "safe (hab_stop c mmid s) (\<lambda>(_, s'). drv_wf {} hp hv hc s')"
proof (cases "find_device mmid s = None \<or> mmid \<in> set (cx_forbidden_chans cx)")
  case False
  obtain ok s1 where k: "kalloc s = (ok, s1)" by fastforce
  have s1: "drv_wf {} hp hv hc s1" "st_ctxs s1 c = Some cx"
    using kalloc_frame [OF k] wf c by simp_all
  have "drv_wf {} hp hv hc (s1\<lparr>st_ctxs := (st_ctxs s1)(c \<mapsto>
      cx\<lparr>cx_forbidden_chans := cx_forbidden_chans cx @ [mmid]\<rparr>)\<rparr>)"
    by (rule drv_wf_ctx_fields [OF s1]) simp_all
  with False k s1 c show ?thesis by (auto simp: hab_stop_def safe_mod)
qed (use wf c in \<open>auto simp: hab_stop_def split: option.splits\<close>)

text \<open>Taking a virtual channel off its context's list turns the list's reference into a held one.\<close>

lemma ctx_unlink_wf:
  assumes wf: "drv_wf {} hp hv hc s" and c: "st_ctxs s c = Some cx" and v: "v \<in> set (cx_vchannels cx)"
    and cx': "cx_vchannels cx' = remove1 v (cx_vchannels cx)" "cx_refcount cx' = cx_refcount cx"
      "cx_exp_whse cx' = cx_exp_whse cx" "cx_imp_whse cx' = cx_imp_whse cx"
  shows "drv_wf {} hp (hv(v := Suc (hv v))) hc (s\<lparr>st_ctxs := (st_ctxs s)(c \<mapsto> cx')\<rparr>)"
proof -
  from drv_wf_exps [OF wf] obtain own where own: "exps_ok own (xv (st_exps s)) (iv (st_pchans s))
    (wv (st_ctxs s)) (st_reclaim_list s) (st_next s)" by blast
  from ctx_vchan [OF wf c v] obtain vc where vc: "st_vchans s v = Some vc" by blast
  show ?thesis
    by (rule drv_wfI [where own = own])
      (use move_ctx_del [OF drv_wf_refs [OF wf] v look_c [OF c]] own wf c cx' vc in
        \<open>auto simp: upd_same view_look drv_wf_def rx_ok_def held_ok_def\<close>)
qed

lemma find_vcid_set: "find_vcid i vs s = Some (Some v) \<Longrightarrow> v \<in> set vs"
  by (induction i vs s rule: find_vcid.induct) (auto split: if_splits)

lemma hab_vchan_close_wf:
  assumes wf: "drv_wf {} hp hv hc s" and c: "st_ctxs s c = Some cx"
  shows "safe (hab_vchan_close c vcid s) (\<lambda>(_, s'). drv_wf {} hp hv hc s')"
proof -
  have "\<forall>v \<in> set (cx_vchannels cx). st_vchans s v \<noteq> None" using ctx_vchan [OF wf c] by blast
  from find_vcid_wf [OF this, of vcid] obtain r where r: "find_vcid vcid (cx_vchannels cx) s = Some r"
    unfolding safe_ex by blast
  show ?thesis
  proof (cases r)
    case None
    from hab_stop_wf [OF wf c, of vcid] obtain ret s1 where
      "hab_stop c vcid s = Some (ret, s1)" "drv_wf {} hp hv hc s1" unfolding safe_ex by auto
    with r None c show ?thesis by (simp add: hab_vchan_close_def)
  next
    case (Some v)
    with r have v: "v \<in> set (cx_vchannels cx)" using find_vcid_set by simp
    from ctx_vchan [OF wf c v] obtain vc where vc: "st_vchans s v = Some vc" by blast
    define s1 where "s1 = s\<lparr>st_vchans := (st_vchans s)(v \<mapsto> vc\<lparr>vc_closed := True\<rparr>)\<rparr>"
    define s2 where "s2 = s1\<lparr>st_ctxs := (st_ctxs s1)(c \<mapsto>
      cx\<lparr>cx_vchannels := remove1 v (cx_vchannels cx), cx_vcnt := cx_vcnt cx - 1\<rparr>)\<rparr>"
    have wf1: "drv_wf {} hp hv hc s1"
      unfolding s1_def by (rule drv_wf_vchan_fields [OF wf vc]) (use wf vc in \<open>auto simp: drv_wf_def rx_ok_def\<close>)
    have wf2: "drv_wf {} hp (hv(v := Suc (hv v))) hc s2"
      unfolding s2_def by (rule ctx_unlink_wf [OF wf1 _ v]) (use c in \<open>simp_all add: s1_def\<close>)
    have v2: "st_vchans s2 v = Some (vc\<lparr>vc_closed := True\<rparr>)" by (simp add: s2_def s1_def)
    from vchan_stop_notify_wf [OF wf2 v2] obtain s3 where s3: "hab_vchan_stop_notify v s2 = Some s3"
      "drv_wf {} hp (hv(v := Suc (hv v))) hc s3" unfolding safe_ex by blast
    from put_back [OF s3(2)] obtain s4 where "hab_vchan_put v s3 = Some s4" "drv_wf {} hp hv hc s4"
      unfolding safe_ex by blast
    with c r Some vc s3(1) show ?thesis
      by (simp add: hab_vchan_close_def s1_def s2_def safe_mod)
  qed
qed

section \<open>The front end of the open handshake\<close>

lemma put_p:
  assumes "drv_wf {} hp hv hc s" "0 < hp p"
  shows "safe (hab_pchan_put p s) (\<lambda>s'. drv_wf {} (hp(p := hp p - 1)) hv hc s' \<and> st_devs s' = st_devs s)"
proof -
  from assms(2) have "hp p = Suc (hp p - 1)" by simp
  from pchan_put_wf [OF assms(1) this] obtain pc where
    "hab_pchan_put p s = Some (s\<lparr>st_pchans := (st_pchans s)(p \<mapsto> pc\<lparr>pc_refcount := pc_refcount pc - 1\<rparr>)\<rparr>)"
    "drv_wf {} (hp(p := hp p - 1)) hv hc
      (s\<lparr>st_pchans := (st_pchans s)(p \<mapsto> pc\<lparr>pc_refcount := pc_refcount pc - 1\<rparr>)\<rparr>)" by metis
  then show ?thesis by simp
qed

lemma put_v:
  assumes "drv_wf {} hp hv hc s" "0 < hv v"
  shows "safe (hab_vchan_put v s) (\<lambda>s'. drv_wf {} hp (hv(v := hv v - 1)) hc s' \<and> st_devs s' = st_devs s)"
  using vchan_put_devs_wf [OF assms(1), of v "hv v - 1"] assms(2) by simp

lemma request_send_wf:
  assumes wf: "drv_wf {} hp hv hc s" and k: "0 < hp p" and r: "rq_pchan r = Some p"
    and ty: "rq_type r \<noteq> payload_code HAB_PAYLOAD_TYPE_PROFILE"
  shows "safe (hab_open_request_send r s) (\<lambda>(_, s'). drv_wf {} hp hv hc s' \<and>
    st_vchans s' = st_vchans s \<and> st_ctxs s' = st_ctxs s \<and> st_devs s' = st_devs s)"
proof -
  from held_pchan [OF wf k] obtain pc where p: "st_pchans s p = Some pc" by blast
  have "safe (physical_channel_send p (open_header (rq_type r)) (Some (enc_open_data (rq_xdata r))) s)
      (\<lambda>(ret, s'). drv_wf {} hp hv hc s' \<and> hyp_frame p s s' \<and> (\<forall>q. readable q s \<longrightarrow> readable q s'))"
    by (rule send_wf [OF wf p]) (use ty in \<open>simp_all add: open_header_def open_codec.enc_length\<close>)
  then show ?thesis
    using r by (auto simp: hab_open_request_send_def hyp_vchans hyp_ctxs hyp_frame_def elim!: safe_mono)
qed

lemma pending_enter_wf:
  assumes wf: "drv_wf {} hp hv hc s" and c: "0 < hc c"
  shows "safe (hab_open_pending_enter c r s) (\<lambda>s'. drv_wf {} hp hv hc s' \<and>
    st_vchans s' = st_vchans s \<and> st_devs s' = st_devs s)"
proof -
  from held_ctx [OF wf c] obtain cx where cx: "st_ctxs s c = Some cx" by blast
  show ?thesis unfolding hab_open_pending_enter_def safe_mod
    by (intro exI [of _ cx] conjI drv_wf_ctx_fields [OF wf cx] cx) simp_all
qed

lemma pending_exit_wf:
  assumes wf: "drv_wf {} hp hv hc s" and c: "0 < hc c"
  shows "safe (hab_open_pending_exit c r s) (\<lambda>(_, s'). drv_wf {} hp hv hc s' \<and>
    st_vchans s' = st_vchans s \<and> st_devs s' = st_devs s)"
proof -
  from held_ctx [OF wf c] obtain cx where cx: "st_ctxs s c = Some cx" by blast
  let ?cx = "cx\<lparr>cx_pending_open := filter (\<lambda>q. \<not> pending_match r q) (cx_pending_open cx),
             cx_pending_cnt := cx_pending_cnt cx - int (length (filter (pending_match r) (cx_pending_open cx)))\<rparr>"
  have "drv_wf {} hp hv hc (s\<lparr>st_ctxs := (st_ctxs s)(c \<mapsto> ?cx)\<rparr>)"
    by (rule drv_wf_ctx_fields [OF wf cx]) simp_all
  with cx show ?thesis by (simp add: hab_open_pending_exit_def mod_eqs(3) safe_mod)
qed

lemma open_err_wf:
  assumes wf: "drv_wf {} hp hv hc s" and p: "0 < hp p" and v: "0 < hv v"
  obtains s' where "open_err (Some v) (Some p) ret w s = Some (Done (Inl ret) w s')"
    "drv_wf {} (hp(p := hp p - 1)) (hv(v := hv v - 1)) hc s'"
proof -
  from put_v [OF wf v] obtain s1 where s1: "hab_vchan_put v s = Some s1"
    "drv_wf {} hp (hv(v := hv v - 1)) hc s1" unfolding safe_ex by blast
  from put_p [OF s1(2) p] obtain s2 where "hab_pchan_put p s1 = Some s2"
    "drv_wf {} (hp(p := hp p - 1)) (hv(v := hv v - 1)) hc s2" unfolding safe_ex by blast
  with s1 that show ?thesis by (simp add: open_err_def)
qed

text \<open>What an open leaves behind: on an error both references are back, else only the channel's.\<close>

definition open_post ::
  "(nat \<Rightarrow> nat) \<Rightarrow> (nat \<Rightarrow> nat) \<Rightarrow> (nat \<Rightarrow> nat) \<Rightarrow> nat \<Rightarrow> nat \<Rightarrow> int + nat \<Rightarrow> hab_driver \<Rightarrow> bool" where
  "open_post hp hv hc p v r s \<longleftrightarrow> (case r of
      Inl e \<Rightarrow> drv_wf {} (hp(p := hp p - 1)) (hv(v := hv v - 1)) hc s
    | Inr u \<Rightarrow> u = v \<and> drv_wf {} (hp(p := hp p - 1)) hv hc s)"

lemma request_init_simps [simp]:
  "rq_pchan (hab_open_request_init ty po vi si oi r) = po"
  "rq_type (hab_open_request_init ty po vi si oi r) = ty"
  "rq_pchan (set_ver_fe a r) = rq_pchan r" "rq_type (set_ver_fe a r) = rq_type r"
  "rq_pchan (set_ver_be a r) = rq_pchan r" "rq_type (set_ver_be a r) = rq_type r"
  by (simp_all add: hab_open_request_init_def set_ver_fe_def set_ver_be_def)

lemma frontend_cancel_wf:
  assumes wf: "drv_wf {} hp hv hc s" and p: "0 < hp p" and v: "0 < hv v" and c: "0 < hc c"
  shows "run_ok I (\<lambda>r _ s'. open_post hp hv hc p v r s')
    (frontend_cancel c p v sub_id open_id pending request ret w s)"
proof -
  from held_vchan [OF wf v] obtain vc where vc: "st_vchans s v = Some vc" by blast
  let ?q = "set_ver_fe HAB_API_VER (hab_open_request_init (payload_code HAB_PAYLOAD_TYPE_INIT_CANCEL)
      (Some p) (vc_id vc) sub_id open_id request)"
  from request_send_wf [OF wf p, of ?q] obtain r s1 where s1: "hab_open_request_send ?q s = Some (r, s1)"
    "drv_wf {} hp hv hc s1" unfolding safe_ex by auto
  from pending_exit_wf [OF s1(2) c, of pending] obtain e s2 where s2:
    "hab_open_pending_exit c pending s1 = Some (e, s2)" "drv_wf {} hp hv hc s2" unfolding safe_ex by auto
  from open_err_wf [OF s2(2) p v] obtain s3 where
    "open_err (Some v) (Some p) (if ret \<noteq> - EINTR \<and> ret \<noteq> - ENXIO then - EINVAL else ret) w s2 =
       Some (Done (Inl (if ret \<noteq> - EINTR \<and> ret \<noteq> - ENXIO then - EINVAL else ret)) w s3)"
    "drv_wf {} (hp(p := hp p - 1)) (hv(v := hv v - 1)) hc s3" .
  with vc s1 s2 show ?thesis by (simp add: frontend_cancel_def open_post_def del: fun_upd_apply)
qed

lemma set_mem_proto_wf:
  assumes wf: "drv_wf {} hp hv hc s" and k: "0 < hp p"
  shows "safe (set_mem_proto p n s) (\<lambda>s'. drv_wf {} hp hv hc s' \<and> st_vchans s' = st_vchans s \<and>
    st_ctxs s' = st_ctxs s \<and> st_devs s' = st_devs s)"
proof -
  from held_pchan [OF wf k] obtain pc where pc: "st_pchans s p = Some pc" by blast
  show ?thesis unfolding set_mem_proto_def safe_mod
    by (intro exI [of _ pc] conjI drv_wf_pchan_fields [OF wf pc] pc) simp_all
qed

lemma set_otherend_wf:
  assumes wf: "drv_wf {} hp hv hc s" and k: "0 < hv v"
  shows "safe (mod_vchan v (\<lambda>vc. vc\<lparr>vc_otherend_id := i\<rparr>) s) (\<lambda>s'. drv_wf {} hp hv hc s' \<and>
    (\<exists>vc. st_vchans s' v = Some vc) \<and> st_ctxs s' = st_ctxs s \<and> st_devs s' = st_devs s)"
proof -
  from held_vchan [OF wf k] obtain vc where vc: "st_vchans s v = Some vc" by blast
  then have "\<forall>m \<in> set (vc_rx_list vc). msg_ok m" using wf by (simp add: drv_wf_def rx_ok_def)
  with vc drv_wf_vchan_fields [OF wf vc, of "vc\<lparr>vc_otherend_id := i\<rparr>"] show ?thesis
    by (simp add: safe_mod)
qed

lemma frontend_paired_wf:
  assumes wf: "drv_wf {} (hp(q := Suc (hp q))) hv hc s" and q: "rq_pchan a = Some q"
    and p: "0 < hp p" and v: "0 < hv v" and c: "0 < hc c"
  shows "run_ok I (\<lambda>r _ s'. open_post hp hv hc p v r s')
    (frontend_paired c p v sub_id open_id pending request a w s)"
proof -
  let ?h = "hp(q := Suc (hp q))"
  have p': "0 < ?h p" using p by simp
  from pending_exit_wf [OF wf c, of pending] obtain e s1 where s1:
    "hab_open_pending_exit c pending s = Some (e, s1)" "drv_wf {} ?h hv hc s1" unfolding safe_ex by auto
  from set_mem_proto_wf [OF s1(2) p'] obtain s2 where s2:
    "set_mem_proto p (od_ver_proto (rq_xdata a)) s1 = Some s2" "drv_wf {} ?h hv hc s2" unfolding safe_ex by auto
  from set_otherend_wf [OF s2(2) v, where i = "od_vchan_id (rq_xdata a)"] obtain s3 where s3:
    "mod_vchan v (\<lambda>vc. vc\<lparr>vc_otherend_id := od_vchan_id (rq_xdata a)\<rparr>) s2 = Some s3" "drv_wf {} ?h hv hc s3"
    unfolding safe_ex by blast
  from put_held [OF s3(2)] obtain s4 where s4: "hab_open_request_free a s3 = Some s4" "drv_wf {} hp hv hc s4"
    using q unfolding safe_ex by (auto simp: hab_open_request_free_def)
  let ?q = "set_ver_fe HAB_API_VER (hab_open_request_init (payload_code HAB_PAYLOAD_TYPE_INIT_DONE)
      (Some p) 0 sub_id open_id request)"
  from request_send_wf [OF s4(2) p, of ?q] obtain r s5 where s5: "hab_open_request_send ?q s4 = Some (r, s5)"
    "drv_wf {} hp hv hc s5" unfolding safe_ex by auto
  note calls = s1(1) s2(1) s3(1) s4(1) s5(1)
  show ?thesis
  proof (cases "r = 0")
    case True
    from put_p [OF s5(2) p] obtain s6 where "hab_pchan_put p s5 = Some s6"
      "drv_wf {} (hp(p := hp p - 1)) hv hc s6" unfolding safe_ex by blast
    with calls True show ?thesis
      by (simp add: frontend_paired_def open_post_def del: mod_vchan_Some fun_upd_apply)
  next
    case False
    from open_err_wf [OF s5(2) p v] obtain s6 where
      "open_err (Some v) (Some p) r w s5 = Some (Done (Inl r) w s6)"
      "drv_wf {} (hp(p := hp p - 1)) (hv(v := hv v - 1)) hc s6" .
    with calls False show ?thesis
      by (simp add: frontend_paired_def open_post_def del: mod_vchan_Some fun_upd_apply)
  qed
qed

text \<open>The reference of an answer that is dropped stays taken; the count only grows.\<close>

lemma frontend_finish_wf:
  assumes g: "got_request hp hv hc recv s" and p: "0 < hp p" and v: "0 < hv v" and c: "0 < hc c"
  shows "run_ok I (\<lambda>r _ s'. open_post hp hv hc p v r s')
    (frontend_finish c p v sub_id open_id pending request ret recv w s)"
proof (cases recv)
  case None
  with g frontend_cancel_wf [where hp = hp and hv = hv and hc = hc, OF _ p v c] show ?thesis by (simp add: frontend_finish_def got_request_def)
next
  case (Some a)
  from g Some obtain q where q: "rq_pchan a = Some q" "drv_wf {} (hp(q := Suc (hp q))) hv hc s"
    by (auto simp: got_request_def)
  have wf: "drv_wf {} hp hv hc s" by (rule drv_wf_mono [OF q(2)]) simp
  consider "ret \<noteq> 0" | "ret = 0" "major_version (od_ver_fe (rq_xdata a)) \<noteq> major_version (od_ver_be (rq_xdata a))"
    | "ret = 0" "major_version (od_ver_fe (rq_xdata a)) = major_version (od_ver_be (rq_xdata a))" by blast
  then show ?thesis
  proof cases
    case 1
    with Some frontend_cancel_wf [OF wf p v c] show ?thesis by (simp add: frontend_finish_def)
  next
    case 2
    from pending_exit_wf [OF wf c, of pending] obtain e s1 where s1:
      "hab_open_pending_exit c pending s = Some (e, s1)" "drv_wf {} hp hv hc s1" unfolding safe_ex by auto
    from open_err_wf [OF s1(2) p v] obtain s2 where
      "open_err (Some v) (Some p) (- EPROTO) w s1 = Some (Done (Inl (- EPROTO)) w s2)"
      "drv_wf {} (hp(p := hp p - 1)) (hv(v := hv v - 1)) hc s2" .
    with Some 2 s1(1) show ?thesis by (simp add: frontend_finish_def open_post_def del: fun_upd_apply)
  next
    case 3
    with Some frontend_paired_wf [OF q(2,1) p v c] show ?thesis by (simp add: frontend_finish_def)
  qed
qed

lemma frontend_handshake_wf:
  assumes inv: "listen_inv K hp hv hc d s" and p: "0 < hp p" and v: "0 < hv v" and c: "0 < hc c"
    and env: "env_ok (listen_inv K hp hv hc d) w"
  shows "run_ok (listen_inv K hp hv hc d) (\<lambda>r _ s'. open_post hp hv hc p v r s')
    (frontend_handshake c d p v sub_id open_id stack w s)"
proof -
  from inv have wf: "drv_wf {} hp hv hc s" and d: "queue_sat K d s" by (simp_all add: listen_inv_def)
  from held_vchan [OF wf v] obtain vc where vc: "st_vchans s v = Some vc" by blast
  define request where "request = set_ver_fe HAB_API_VER (hab_open_request_init
      (payload_code HAB_PAYLOAD_TYPE_INIT) (Some p) (vc_id vc) sub_id open_id stack)"
  have ty: "rq_pchan request = Some p" "rq_type request \<noteq> payload_code HAB_PAYLOAD_TYPE_PROFILE"
    by (simp_all add: request_def)
  from request_send_wf [OF wf p ty] obtain r s1 where s1: "hab_open_request_send request s = Some (r, s1)"
    "drv_wf {} hp hv hc s1" "st_devs s1 = st_devs s" unfolding safe_ex by auto
  show ?thesis
  proof (cases "r = 0")
    case False
    from open_err_wf [OF s1(2) p v] obtain s2 where
      "open_err (Some v) (Some p) r w s1 = Some (Done (Inl r) w s2)"
      "drv_wf {} (hp(p := hp p - 1)) (hv(v := hv v - 1)) hc s2" .
    with False vc s1(1) show ?thesis
      by (simp add: frontend_handshake_def request_def Let_def open_post_def del: fun_upd_apply)
  next
    case True
    from pending_enter_wf [OF s1(2) c] obtain s2 where s2: "hab_open_pending_enter c request s1 = Some s2"
      "drv_wf {} hp hv hc s2" "st_devs s2 = st_devs s" using s1(3) unfolding safe_ex by auto
    let ?l = "hab_open_request_init (payload_code HAB_PAYLOAD_TYPE_INIT_ACK) (Some p) 0 sub_id open_id request"
    have "run_ok (listen_inv K hp hv hc d) (\<lambda>r _ s'. open_post hp hv hc p v r s')
        (run_bind (hab_open_listen c d ?l 0 w s2)
          (\<lambda>(ret, recv) w3 s3. frontend_finish c p v sub_id open_id request ?l ret recv w3 s3))"
    proof (rule run_ok_bind [OF open_listen_wf [where hp = hp and hv = hv and hc = hc, OF _ env c]])
      show "listen_inv K hp hv hc d s2" using s2 d by (simp add: listen_inv_def queue_sat_def)
      show "\<And>p'. rq_pchan ?l = Some p' \<Longrightarrow> 0 < hp p'" using p by simp
    qed (auto intro: frontend_finish_wf [where hp = hp and hv = hv and hc = hc, OF _ p v c])
    with True vc s1(1) s2(1) show ?thesis
      by (simp add: frontend_handshake_def request_def Let_def)
  qed
qed

lemma find_device_less: "find_device i s = Some d \<Longrightarrow> d < length (st_devs s)"
  unfolding find_device_def by (drule find_cong_Some) simp

text \<open>The device has a channel of the domain asked for, or the memory behind its list does not look like one.\<close>

definition dom_listed :: "nat \<Rightarrow> int \<Rightarrow> hab_driver \<Rightarrow> bool" where
  "dom_listed d dm s \<longleftrightarrow> (dv_head_dom (st_devs s ! d) \<noteq> dm \<and> dm \<noteq> - 2) \<or>
     list_ex (\<lambda>p. pc_dom_id (the (st_pchans s p)) = dm \<or> dm = - 2) (dv_pchannels (st_devs s ! d))"

lemma find_domid_wf:
  assumes wf: "drv_wf {} hp hv hc s" and d: "d < length (st_devs s)" and l: "dom_listed d dm s"
  shows "safe (hab_pchan_find_domid d dm s) (\<lambda>(r, s'). case r of
      None \<Rightarrow> s' = s
    | Some p \<Rightarrow> (\<exists>pc. st_pchans s p = Some pc \<and>
        drv_wf {} (hp(p := Suc (hp p))) hv hc s' \<and> st_devs s' = st_devs s \<and> st_ctxs s' = st_ctxs s \<and>
        st_open_id s' = st_open_id s))"
proof -
  have live: "list_all (\<lambda>p. st_pchans s p \<noteq> None) (dv_pchannels (st_devs s ! d))"
    using refs_ok_dev [OF drv_wf_refs [OF wf]] d
    by (fastforce simp: dev_ok_def list_all_iff qv_def in_set_conv_nth)
  show ?thesis
  proof (cases "List.find (\<lambda>p. pc_dom_id (the (st_pchans s p)) = dm \<or> dm = - 2) (dv_pchannels (st_devs s ! d))")
    case None
    with l have "dv_head_dom (st_devs s ! d) \<noteq> dm" "dm \<noteq> - 2"
      by (auto simp: dom_listed_def find_None_iff list_ex_iff)
    with None live d show ?thesis by (simp add: hab_pchan_find_domid_def get_dev_def)
  next
    case (Some p)
    with live obtain pc where pc: "st_pchans s p = Some pc"
      by (auto simp: list_all_iff dest!: find_cong_Some)
    note get = pchan_get_wf [OF wf pc]
    show ?thesis
    proof (cases "pc_refcount pc = 0")
      case True
      with Some live d pc show ?thesis by (simp add: hab_pchan_find_domid_def get_dev_def)
    next
      case False
      with Some live d pc get show ?thesis by (simp add: hab_pchan_find_domid_def get_dev_def)
    qed
  qed
qed

lemma vchan_alloc_devs: "hab_vchan_alloc c p oid s = Some (r, s') \<Longrightarrow> st_devs s' = st_devs s"
  using kalloc_frame [of s "fst (kalloc s)" "snd (kalloc s)"]
  by (auto simp: hab_vchan_alloc_def hab_ctx_get_def Let_def split: prod.splits if_splits option.splits)

lemma frontend_open_wf:
  assumes wf: "drv_wf {} hp hv hc s" and c: "0 < hc c"
    and l: "\<And>d. find_device mm_id s = Some d \<Longrightarrow> dom_listed d dm s"
    and env: "\<And>d p v. env_ok (listen_inv (\<lambda>_. True) (hp(p := Suc (hp p))) (hv(v := Suc (hv v))) hc d) w"
  shows "run_ok (\<lambda>s'. \<exists>p v. drv_wf {} (hp(p := Suc (hp p))) (hv(v := Suc (hv v))) hc s')
    (\<lambda>r _ s'. case r of Inl e \<Rightarrow> drv_wf {} hp hv hc s' | Inr v \<Rightarrow> drv_wf {} hp (hv(v := Suc (hv v))) hc s')
    (frontend_open stack c mm_id dm w s)"
proof (cases "find_device mm_id s")
  case (Some d)
  note d = find_device_less [OF Some]
  from find_domid_wf [OF wf d l [OF Some]] obtain po s1 where s1: "hab_pchan_find_domid d dm s = Some (po, s1)"
    "case po of None \<Rightarrow> s1 = s | Some p \<Rightarrow> (\<exists>pc. st_pchans s p = Some pc \<and>
        drv_wf {} (hp(p := Suc (hp p))) hv hc s1 \<and> st_devs s1 = st_devs s \<and> st_ctxs s1 = st_ctxs s \<and>
        st_open_id s1 = st_open_id s)" unfolding safe_ex by auto
  show ?thesis
  proof (cases po)
    case None
    with Some s1 wf show ?thesis by (simp add: frontend_open_def)
  next
    case p: (Some p)
    let ?hp = "hp(p := Suc (hp p))"
    let ?o = "st_open_id s1 + 1"
    let ?s1 = "s1\<lparr>st_open_id := ?o\<rparr>"
    from s1 p have wf1: "drv_wf {} ?hp hv hc ?s1" "st_devs s1 = st_devs s" by auto
    from held_pchan [OF wf1(1), of p] obtain pc where pc: "st_pchans ?s1 p = Some pc" by auto
    from held_ctx [OF wf1(1) c] obtain cx where cx: "st_ctxs ?s1 c = Some cx" by blast
    have "safe (hab_vchan_alloc c p ?o ?s1) (\<lambda>(vo, s2). case vo of
          None \<Rightarrow> drv_wf {} ?hp hv hc s2
        | Some v \<Rightarrow> hv v = 0 \<and> drv_wf {} ?hp (hv(v := 1)) hc s2)"
      by (rule safe_mono [OF vchan_alloc_wf [OF wf1(1) pc cx, of ?o]]) (auto split: option.splits)
    then obtain vo s2 where s2: "hab_vchan_alloc c p ?o ?s1 = Some (vo, s2)" and vo: "case vo of
          None \<Rightarrow> drv_wf {} ?hp hv hc s2
        | Some v \<Rightarrow> hv v = 0 \<and> drv_wf {} ?hp (hv(v := 1)) hc s2"
      unfolding safe_ex by auto
    show ?thesis
    proof (cases vo)
      case None
      with vo have "drv_wf {} ?hp hv hc s2" by simp
      from put_held [OF this] obtain s3 where "hab_pchan_put p s2 = Some s3" "drv_wf {} hp hv hc s3"
        unfolding safe_ex by blast
      with Some p s1(1) s2 None show ?thesis by (simp add: frontend_open_def open_err_def)
    next
      case v: (Some v)
      let ?hv = "hv(v := Suc (hv v))"
      have d2: "d < length (st_devs s2)" using vchan_alloc_devs [OF s2] wf1(2) d by simp
      have "listen_inv (\<lambda>_. True) ?hp ?hv hc d s2" using vo v d2 by (simp add: listen_inv_def queue_sat_def)
      from frontend_handshake_wf [where c = c and p = p and v = v, OF this _ _ c env] 
      have "run_ok (listen_inv (\<lambda>_. True) ?hp ?hv hc d) (\<lambda>r _ s'. open_post ?hp ?hv hc p v r s')
          (frontend_handshake c d p v (HAB_MMID_GET_MINOR mm_id) ?o stack w s2)" by simp
      then have "run_ok (\<lambda>s'. \<exists>p v. drv_wf {} (hp(p := Suc (hp p))) (hv(v := Suc (hv v))) hc s')
          (\<lambda>r _ s'. case r of Inl e \<Rightarrow> drv_wf {} hp hv hc s' | Inr v \<Rightarrow> drv_wf {} hp (hv(v := Suc (hv v))) hc s')
          (frontend_handshake c d p v (HAB_MMID_GET_MINOR mm_id) ?o stack w s2)"
        by (rule run_ok_mono) (auto simp: listen_inv_def open_post_def split: sum.splits)
      with Some p s1(1) s2 v show ?thesis by (simp add: frontend_open_def Let_def)
    qed
  qed
qed (use wf in \<open>simp add: frontend_open_def\<close>)

section \<open>The back end of the open handshake\<close>

definition back_post ::
  "(hab_open_request \<Rightarrow> bool) \<Rightarrow> (nat \<Rightarrow> nat) \<Rightarrow> (nat \<Rightarrow> nat) \<Rightarrow> (nat \<Rightarrow> nat) \<Rightarrow> nat \<Rightarrow> nat \<Rightarrow> nat \<Rightarrow>
     (int + nat) + hab_open_request \<Rightarrow> hab_driver \<Rightarrow> bool" where
  "back_post K hp hv hc d p v r s \<longleftrightarrow> (case r of
      Inl x \<Rightarrow> open_post hp hv hc p v x s
    | Inr q \<Rightarrow> listen_inv K (hp(p := hp p - 1)) (hv(v := hv v - 1)) hc d s)"

lemma pending_exit_got:
  assumes g: "got_request hp hv hc recv s" and c: "0 < hc c"
  shows "safe (hab_open_pending_exit c r s) (\<lambda>(_, s'). got_request hp hv hc recv s' \<and>
    st_vchans s' = st_vchans s \<and> st_devs s' = st_devs s)"
proof (cases recv)
  case None
  with g pending_exit_wf [where hp = hp and hv = hv and hc = hc, OF _ c, of s r] show ?thesis by (simp add: got_request_def)
next
  case (Some a)
  with g obtain q where q: "rq_pchan a = Some q" "drv_wf {} (hp(q := Suc (hp q))) hv hc s"
    by (auto simp: got_request_def)
  from safe_mono [OF pending_exit_wf [OF q(2) c, of r]] Some q(1) show ?thesis
    by (auto simp: got_request_def elim!: safe_mono)
qed

lemma got_request_wf: "got_request hp hv hc recv s \<Longrightarrow> drv_wf {} hp hv hc s"
  by (auto simp: got_request_def intro: drv_wf_mono split: option.splits)

lemma back_err:
  assumes "drv_wf {} hp hv hc s" "0 < hp p" "0 < hv v"
  obtains s' where "backend_err p v ret w s = Some (Done (Inl (Inl ret)) w s')"
    "back_post K hp hv hc d p v (Inl (Inl ret)) s'"
proof -
  from open_err_wf [OF assms] obtain s' where "open_err (Some v) (Some p) ret w s = Some (Done (Inl ret) w s')"
    "drv_wf {} (hp(p := hp p - 1)) (hv(v := hv v - 1)) hc s'" by blast
  with that show ?thesis by (simp add: backend_err_def back_post_def open_post_def del: fun_upd_apply)
qed

lemma backend_cancel_wf:
  assumes wf: "drv_wf {} hp hv hc s" and p: "0 < hp p" and c: "0 < hc c"
    and q: "rq_pchan q = Some p" "rq_type q \<noteq> payload_code HAB_PAYLOAD_TYPE_PROFILE"
  shows "safe (backend_cancel c pending q s) (\<lambda>s'. drv_wf {} hp hv hc s' \<and> st_devs s' = st_devs s)"
proof -
  from request_send_wf [OF wf p q] obtain r s1 where s1: "hab_open_request_send q s = Some (r, s1)"
    "drv_wf {} hp hv hc s1" "st_devs s1 = st_devs s" unfolding safe_ex by auto
  from pending_exit_wf [OF s1(2) c, of pending] s1(1,3) show ?thesis
    unfolding safe_ex by (auto simp: backend_cancel_def)
qed

abbreviation (input) back_ok ::
  "(hab_open_request \<Rightarrow> bool) \<Rightarrow> (nat \<Rightarrow> nat) \<Rightarrow> (nat \<Rightarrow> nat) \<Rightarrow> (nat \<Rightarrow> nat) \<Rightarrow> nat \<Rightarrow> nat \<Rightarrow> nat \<Rightarrow> int \<Rightarrow>
     wait_ev list \<Rightarrow> (int + nat) + hab_open_request \<Rightarrow> wait_ev list \<Rightarrow> hab_driver \<Rightarrow> bool" where
  "back_ok K hp hv hc d p v ret w r w' s' \<equiv>
     w' = w \<and> (\<forall>x. r = Inr x \<longrightarrow> ret = - EAGAIN) \<and> back_post K hp hv hc d p v r s'"

lemma backend_received_wf:
  assumes g: "got_request hp hv hc recv s" and p: "0 < hp p" and v: "0 < hv v" and c: "0 < hc c"
  shows "run_ok I (back_ok K hp hv hc d p v ret w) (backend_received c p v pending ret recv w s)"
proof -
  from pending_exit_got [OF g c, of pending] obtain e s1 where s1:
    "hab_open_pending_exit c pending s = Some (e, s1)" "got_request hp hv hc recv s1" unfolding safe_ex by auto
  from back_err [OF got_request_wf [OF s1(2)] p v, of "- EINVAL" w K d] obtain s2 where s2:
    "backend_err p v (- EINVAL) w s1 = Some (Done (Inl (Inl (- EINVAL))) w s2)"
    "back_post K hp hv hc d p v (Inl (Inl (- EINVAL))) s2" by blast
  show ?thesis
  proof (cases "recv = None \<or> ret \<noteq> 0")
    case True
    with s1(1) s2 show ?thesis by (auto simp: backend_received_def split: option.split)
  next
    case False
    then obtain a where a: "recv = Some a" by auto
    with s1(2) obtain q where q: "rq_pchan a = Some q" "drv_wf {} (hp(q := Suc (hp q))) hv hc s1"
      by (auto simp: got_request_def)
    from put_held [OF q(2)] q(1) obtain s3 where s3: "hab_open_request_free a s1 = Some s3" "drv_wf {} hp hv hc s3"
      unfolding safe_ex by (auto simp: hab_open_request_free_def)
    from put_p [OF s3(2) p] obtain s4 where "hab_pchan_put p s3 = Some s4"
      "drv_wf {} (hp(p := hp p - 1)) hv hc s4" unfolding safe_ex by blast
    with False a s1(1) s3(1) show ?thesis
      by (simp add: backend_received_def back_post_def open_post_def del: fun_upd_apply)
  qed
qed

lemma backend_retry_wf:
  assumes wf: "drv_wf {} hp hv hc s" and q: "queue_sat K d s" and p: "0 < hp p" and v: "0 < hv v" and c: "0 < hc c"
    and x: "rq_pchan x = Some p" "rq_type x \<noteq> payload_code HAB_PAYLOAD_TYPE_PROFILE"
  shows "run_ok I (back_ok K hp hv hc d p v (- EAGAIN) w) (backend_retry c p v pending x w s)"
proof -
  from backend_cancel_wf [OF wf p c x, of pending] obtain s1 where s1: "backend_cancel c pending x s = Some s1"
    "drv_wf {} hp hv hc s1" "st_devs s1 = st_devs s" unfolding safe_ex by auto
  from put_v [OF s1(2) v] obtain s2 where s2: "hab_vchan_put v s1 = Some s2"
    "drv_wf {} hp (hv(v := hv v - 1)) hc s2" "st_devs s2 = st_devs s1" unfolding safe_ex by auto
  from put_p [OF s2(2) p] obtain s3 where s3: "hab_pchan_put p s2 = Some s3"
    "drv_wf {} (hp(p := hp p - 1)) (hv(v := hv v - 1)) hc s3" "st_devs s3 = st_devs s2" unfolding safe_ex by auto
  have "queue_sat K d s3" using q s1(3) s2(3) s3(3) by (simp add: queue_sat_def)
  with s1(1) s2(1) s3 show ?thesis
    by (simp add: backend_retry_def back_post_def listen_inv_def del: fun_upd_apply)
qed

lemma backend_finish_wf:
  assumes g: "got_request hp hv hc recv s" and q: "queue_sat K d s"
    and p: "0 < hp p" and v: "0 < hv v" and c: "0 < hc c"
  shows "run_ok I (back_ok K hp hv hc d p v ret w)
    (backend_finish c p v sub_id open_id ver_fe pending request ret recv w s)"
proof -
  from held_vchan [OF got_request_wf [OF g] v] obtain vc where vc: "st_vchans s v = Some vc" by blast
  from pending_exit_got [OF g c, of pending] obtain e s1 where s1:
    "hab_open_pending_exit c pending s = Some (e, s1)" "got_request hp hv hc recv s1" "st_devs s1 = st_devs s"
    unfolding safe_ex by auto
  note wf1 = got_request_wf [OF s1(2)]
  have q1: "queue_sat K d s1" using q s1(3) by (simp add: queue_sat_def)
  let ?x = "hab_open_request_init (payload_code HAB_PAYLOAD_TYPE_INIT_CANCEL) (Some p) (vc_id vc) sub_id open_id request"
  from backend_cancel_wf [OF wf1 p c, of ?x pending] obtain s2 where s2:
    "backend_cancel c pending ?x s1 = Some s2" "drv_wf {} hp hv hc s2" unfolding safe_ex by auto
  from back_err [OF s2(2) p v, of "- EINVAL" w K d] obtain s3 where s3:
    "backend_err p v (- EINVAL) w s2 = Some (Done (Inl (Inl (- EINVAL))) w s3)"
    "back_post K hp hv hc d p v (Inl (Inl (- EINVAL))) s3" by blast
  from back_err [OF wf1 p v, of ret w K d] obtain s4 where s4:
    "backend_err p v ret w s1 = Some (Done (Inl (Inl ret)) w s4)"
    "back_post K hp hv hc d p v (Inl (Inl ret)) s4" by blast
  define b where "b \<longleftrightarrow> ret \<noteq> 0 \<and> map_option rq_type recv = Some (payload_code HAB_PAYLOAD_TYPE_INIT_CANCEL)"
  let ?y = "set_ver_be HAB_API_VER (set_ver_fe ver_fe ?x)"
  have eq: "backend_finish c p v sub_id open_id ver_fe pending request ret recv w s =
      (if b then backend_cancel c pending ?x s1 \<bind> backend_err p v (- EINVAL) w
       else if ret = - ENXIO then backend_err p v ret w s1
       else if ret \<noteq> - EAGAIN then backend_received c p v pending ret recv w s1
       else backend_retry c p v pending ?y w s1)"
    unfolding backend_finish_def b_def Let_def using vc s1(1) by simp
  consider b | "\<not> b" "ret = - ENXIO" | "\<not> b" "ret \<noteq> - ENXIO" "ret \<noteq> - EAGAIN" | "\<not> b" "ret = - EAGAIN"
    by fastforce
  then show ?thesis
  proof cases
    case 1
    with s2(1) s3 show ?thesis unfolding eq by simp
  next
    case 2
    with s4 show ?thesis unfolding eq by simp
  next
    case 3
    then have "backend_finish c p v sub_id open_id ver_fe pending request ret recv w s =
        backend_received c p v pending ret recv w s1" unfolding eq by simp
    then show ?thesis using backend_received_wf [OF s1(2) p v c] by (simp only:)
  next
    case 4
    with backend_retry_wf [OF wf1 q1 p v c, of ?y] show ?thesis unfolding eq by simp
  qed
qed

text \<open>
  One round.  The version check sees the requests it can receive: INIT, and a cancel, which it takes
  for one.
\<close>

definition version_ok :: "hab_open_request \<Rightarrow> bool" where
  "version_ok r \<longleftrightarrow> (rq_type r = payload_code HAB_PAYLOAD_TYPE_INIT \<or>
       rq_type r = payload_code HAB_PAYLOAD_TYPE_INIT_CANCEL) \<longrightarrow>
     major_version (od_ver_fe (rq_xdata r)) = major_version HAB_API_VER"

definition round_post ::
  "(nat \<Rightarrow> nat) \<Rightarrow> (nat \<Rightarrow> nat) \<Rightarrow> (nat \<Rightarrow> nat) \<Rightarrow> nat \<Rightarrow> wait_ev list \<Rightarrow>
     (int + nat) + hab_open_request \<Rightarrow> wait_ev list \<Rightarrow> hab_driver \<Rightarrow> bool" where
  "round_post hp hv hc d w r w' s \<longleftrightarrow> (case r of
      Inl (Inl e) \<Rightarrow> drv_wf {} hp hv hc s
    | Inl (Inr v) \<Rightarrow> drv_wf {} hp (hv(v := Suc (hv v))) hc s
    | Inr q \<Rightarrow> listen_inv version_ok hp hv hc d s \<and> set w' \<subseteq> set w \<and> length w' < length w)"

definition round_blocked ::
  "(nat \<Rightarrow> nat) \<Rightarrow> (nat \<Rightarrow> nat) \<Rightarrow> (nat \<Rightarrow> nat) \<Rightarrow> hab_driver \<Rightarrow> bool" where
  "round_blocked hp hv hc s \<longleftrightarrow> drv_wf {} hp hv hc s \<or>
     (\<exists>p v. drv_wf {} (hp(p := Suc (hp p))) (hv(v := Suc (hv v))) hc s)"

lemma backend_pair_wf:
  assumes wf: "drv_wf {} (hp(p := Suc (hp p))) hv hc s" and q: "queue_sat version_ok d s"
    and a: "rq_pchan a = Some p" and c: "0 < hc c"
    and env: "\<And>p v. env_ok (listen_inv version_ok (hp(p := Suc (hp p))) (hv(v := Suc (hv v))) hc d) w"
  shows "run_ok (round_blocked hp hv hc) (round_post hp hv hc d w) (backend_pair c d sub_id request a w s)"
proof -
  let ?hp = "hp(p := Suc (hp p))"
  have p: "0 < ?hp p" by simp
  from set_mem_proto_wf [OF wf p] obtain s1 where s1: "set_mem_proto p (od_ver_proto (rq_xdata a)) s = Some s1"
    "drv_wf {} ?hp hv hc s1" "st_devs s1 = st_devs s" unfolding safe_ex by auto
  from held_pchan [OF s1(2) p] obtain pc where pc: "st_pchans s1 p = Some pc" by blast
  note get = pchan_get_wf [OF s1(2) pc]
  from put_held [OF get(2)] obtain s3 where s3: "hab_open_request_free a
      (s1\<lparr>st_pchans := (st_pchans s1)(p \<mapsto> pc\<lparr>pc_refcount := pc_refcount pc + 1\<rparr>)\<rparr>) = Some s3"
    "drv_wf {} ?hp hv hc s3" "st_devs s3 = st_devs s1" using a unfolding safe_ex
    by (auto simp: hab_open_request_free_def)
  from held_pchan [OF s3(2) p] obtain pc3 where pc3: "st_pchans s3 p = Some pc3" by blast
  from held_ctx [OF s3(2) c] obtain cx where cx: "st_ctxs s3 c = Some cx" by blast
  let ?o = "od_open_id (rq_xdata a)"
  have "safe (hab_vchan_alloc c p ?o s3) (\<lambda>(vo, s4). case vo of
      None \<Rightarrow> drv_wf {} ?hp hv hc s4 | Some v \<Rightarrow> hv v = 0 \<and> drv_wf {} ?hp (hv(v := 1)) hc s4)"
    by (rule safe_mono [OF vchan_alloc_wf [OF s3(2) pc3 cx, of ?o]]) (auto split: option.splits)
  then obtain vo s4 where s4: "hab_vchan_alloc c p ?o s3 = Some (vo, s4)" and vo: "case vo of
      None \<Rightarrow> drv_wf {} ?hp hv hc s4 | Some v \<Rightarrow> hv v = 0 \<and> drv_wf {} ?hp (hv(v := 1)) hc s4"
    unfolding safe_ex by auto
  note calls = s1(1) get(1) s3(1) s4
  show ?thesis
  proof (cases vo)
    case None
    with vo have "drv_wf {} ?hp hv hc s4" by simp
    from put_held [OF this] obtain s5 where "hab_pchan_put p s4 = Some s5" "drv_wf {} hp hv hc s5"
      unfolding safe_ex by blast
    with calls None a show ?thesis by (simp add: backend_pair_def open_err_def round_post_def)
  next
    case (Some v)
    let ?hv = "hv(v := Suc (hv v))"
    from vo Some have wf4: "drv_wf {} ?hp ?hv hc s4" and v0: "hv v = 0" by simp_all
    have v: "0 < ?hv v" by simp
    from set_otherend_wf [OF wf4 v, where i = "od_vchan_id (rq_xdata a)"] obtain s5 vc where
      s5: "mod_vchan v (\<lambda>vc. vc\<lparr>vc_otherend_id := od_vchan_id (rq_xdata a)\<rparr>) s4 = Some s5" "drv_wf {} ?hp ?hv hc s5"
      "st_vchans s5 v = Some vc" "st_devs s5 = st_devs s4" unfolding safe_ex by blast
    define ack where "ack = set_ver_be HAB_API_VER (set_ver_fe (od_ver_fe (rq_xdata a)) (hab_open_request_init
          (payload_code HAB_PAYLOAD_TYPE_INIT_ACK) (Some p) (vc_id vc) sub_id ?o request))"
    have ack: "rq_pchan ack = Some p" "rq_type ack \<noteq> payload_code HAB_PAYLOAD_TYPE_PROFILE"
      by (simp_all add: ack_def)
    from request_send_wf [OF s5(2) p ack] obtain r s6 where s6: "hab_open_request_send ack s5 = Some (r, s6)"
      "drv_wf {} ?hp ?hv hc s6" "st_devs s6 = st_devs s5" unfolding safe_ex by auto
    have post: "round_post hp hv hc d w r' w' s'"
      if "back_ok version_ok ?hp ?hv hc d p v ret w1 r' w' s'" "set w1 \<subseteq> set w"
        "length w1 \<le> length w" "ret = - EAGAIN \<longrightarrow> length w1 < length w" for r' ret w1 w' s'
      using that by (auto simp: round_post_def back_post_def open_post_def split: sum.splits)
    show ?thesis
    proof (cases "r = 0")
      case False
      from back_err [OF s6(2) p v, of r w version_ok d] obtain s7 where
        s7: "backend_err p v r w s6 = Some (Done (Inl (Inl r)) w s7)"
        "back_post version_ok ?hp ?hv hc d p v (Inl (Inl r)) s7" by blast
      have "run_ok (round_blocked hp hv hc) (round_post hp hv hc d w) (backend_err p v r w s6)"
        using post [where r' = "Inl (Inl r)" and ret = 0 and ?w1.0 = w and w' = w and s' = s7] s7 by simp
      with a calls Some s5(1,3) s6(1) False show ?thesis
        by (simp add: backend_pair_def ack_def Let_def backend_err_def del: mod_vchan_Some)
    next
      case True
      from pending_enter_wf [OF s6(2) c] obtain s7 where s7: "hab_open_pending_enter c ack s6 = Some s7"
        "drv_wf {} ?hp ?hv hc s7" "st_devs s7 = st_devs s6" unfolding safe_ex by auto
      let ?l = "hab_open_request_init (payload_code HAB_PAYLOAD_TYPE_INIT_DONE) (Some p) 0 sub_id ?o ack"
      have "st_devs s7 = st_devs s"
        using s1(3) s3(3) vchan_alloc_devs [OF s4] s5(4) s6(3) s7(3) by simp
      then have inv: "listen_inv version_ok ?hp ?hv hc d s7"
        using q s7(2) by (simp add: listen_inv_def queue_sat_def)
      let ?fin = "backend_finish c p v sub_id ?o (od_ver_fe (rq_xdata a)) ack ?l"
      have fin: "run_ok (round_blocked hp hv hc) (round_post hp hv hc d w) (?fin ret recv w1 s')"
        if "set w1 \<subseteq> set w" "length w1 \<le> length w" "ret = - EAGAIN \<longrightarrow> length w1 < length w"
          "got_request ?hp ?hv hc recv s'" "queue_sat version_ok d s'" for ret recv w1 s'
        by (rule run_ok_mono [OF backend_finish_wf [where I = "round_blocked hp hv hc", OF that(4,5) p v c]])
          (assumption, rule post [OF _ that(1-3)], assumption)
      have "run_ok (round_blocked hp hv hc) (round_post hp hv hc d w) (run_bind
          (hab_open_listen c d ?l HAB_HS_TIMEOUT w s7) (\<lambda>(ret, recv) w s. ?fin ret recv w s))"
      proof (rule run_ok_bind [OF open_listen_wf [OF inv env c]])
        show "\<And>p'. rq_pchan ?l = Some p' \<Longrightarrow> 0 < ?hp p'" by simp
        show "\<And>s. listen_inv version_ok ?hp ?hv hc d s \<Longrightarrow> round_blocked hp hv hc s"
          by (auto simp: round_blocked_def listen_inv_def)
      qed (use fin in \<open>clarsimp del: subsetI\<close>)
      with a calls Some s5(1,3) s6(1) s7(1) True show ?thesis
        by (simp add: backend_pair_def ack_def Let_def del: mod_vchan_Some)
    qed
  qed
qed

lemma backend_round_wf:
  assumes inv: "listen_inv version_ok hp hv hc d s" and c: "0 < hc c"
    and env0: "env_ok (listen_inv version_ok hp hv hc d) w"
    and env: "\<And>p v. env_ok (listen_inv version_ok (hp(p := Suc (hp p))) (hv(v := Suc (hv v))) hc d) w"
  shows "run_ok (round_blocked hp hv hc) (round_post hp hv hc d w)
    (backend_round c d sub_id timeout request w s)"
proof -
  let ?l = "hab_open_request_init (payload_code HAB_PAYLOAD_TYPE_INIT) None 0 sub_id 0 request"
  have env': "env_ok I w'" if "env_ok I w" "set w' \<subseteq> set w" for I w'
    using that by (auto simp: env_ok_def)
  let ?next = "\<lambda>ret recv w s. case recv of
      None \<Rightarrow> Some (Done (Inl (Inl (if ret = 0 then - EINVAL else if ret = - EAGAIN then - ETIMEDOUT else ret))) w s)
    | Some a \<Rightarrow>
        if ret \<noteq> 0 then Some (Done (Inl (Inl (if ret = - EAGAIN then - ETIMEDOUT else ret))) w s)
        else if major_version (od_ver_fe (rq_xdata a)) \<noteq> major_version HAB_API_VER
        then backend_mismatch sub_id ?l a w s
        else backend_pair c d sub_id ?l a w s"
  have rest: "run_ok (round_blocked hp hv hc) (round_post hp hv hc d w) (?next ret recv w1 s1)"
    if w1: "set w1 \<subseteq> set w" "length w1 \<le> length w"
      and g: "got_request hp hv hc recv s1" "queue_sat version_ok d s1" "taken version_ok ?l recv"
    for ret recv w1 s1
  proof (cases "recv = None \<or> ret \<noteq> 0")
    case True
    with got_request_wf [OF g(1)] show ?thesis by (auto simp: round_post_def split: option.split)
  next
    case False
    then obtain a where a: "recv = Some a" "ret = 0" by auto
    from g(1) a obtain p where p: "rq_pchan a = Some p" "drv_wf {} (hp(p := Suc (hp p))) hv hc s1"
      by (auto simp: got_request_def)
    have "major_version (od_ver_fe (rq_xdata a)) = major_version HAB_API_VER"
      using g(3) a by (auto simp: taken_def version_ok_def open_match_def)
    moreover have "run_ok (round_blocked hp hv hc) (round_post hp hv hc d w) (backend_pair c d sub_id ?l a w1 s1)"
      by (rule run_ok_mono [OF backend_pair_wf [where hv = hv, OF p(2) g(2) p(1) c env' [OF env w1(1)]]])
        (use w1 in \<open>auto simp: round_post_def split: sum.splits\<close>)
    ultimately show ?thesis using a by simp
  qed
  show ?thesis unfolding backend_round_def Let_def
  proof (rule run_ok_bind [OF open_listen_wf [where hp = hp and hv = hv and hc = hc, OF inv env0 c]])
    show "\<And>p. rq_pchan ?l = Some p \<Longrightarrow> 0 < hp p" by simp
    show "\<And>s. listen_inv version_ok hp hv hc d s \<Longrightarrow> round_blocked hp hv hc s"
      by (simp add: round_blocked_def listen_inv_def)
  qed (simp only: split_paired_all prod.case, elim conjE, rule rest, assumption+)
qed

text \<open>A round ends with a retry only after its timeout, so the schedule bounds the rounds.\<close>

lemma backend_loop_wf:
  assumes inv: "listen_inv version_ok hp hv hc d s" and c: "0 < hc c"
    and env0: "env_ok (listen_inv version_ok hp hv hc d) w"
    and env: "\<And>p v. env_ok (listen_inv version_ok (hp(p := Suc (hp p))) (hv(v := Suc (hv v))) hc d) w"
    and n: "length w < n"
  shows "run_ok (round_blocked hp hv hc)
    (\<lambda>r _ s'. case r of Inl e \<Rightarrow> drv_wf {} hp hv hc s' | Inr v \<Rightarrow> drv_wf {} hp (hv(v := Suc (hv v))) hc s')
    (backend_loop n c d sub_id timeout request w s)"
  using inv env0 env n
proof (induction n arbitrary: request w s)
  case (Suc n)
  show ?case unfolding backend_loop.simps
  proof (rule run_ok_bind [OF backend_round_wf [OF Suc.prems(1) c Suc.prems(2,3)]])
    fix r w' s' assume post: "round_post hp hv hc d w r w' s'"
    show "run_ok (round_blocked hp hv hc)
        (\<lambda>r _ s'. case r of Inl e \<Rightarrow> drv_wf {} hp hv hc s' | Inr v \<Rightarrow> drv_wf {} hp (hv(v := Suc (hv v))) hc s')
        (case r of Inl r \<Rightarrow> Some (Done r w' s')
         | Inr request \<Rightarrow> backend_loop n c d sub_id timeout request w' s')"
    proof (cases r)
      case (Inl x)
      with post show ?thesis by (auto simp: round_post_def split: sum.splits)
    next
      case (Inr q)
      with post have *: "listen_inv version_ok hp hv hc d s'" "set w' \<subseteq> set w" "length w' < length w"
        by (simp_all add: round_post_def)
      have "env_ok I w'" if "env_ok I w" for I using that *(2) by (auto simp: env_ok_def)
      with Suc.IH [OF *(1)] Suc.prems(2-4) *(3) Inr show ?thesis by simp
    qed
  qed
qed simp

lemma backend_listen_wf:
  assumes wf: "drv_wf {} hp hv hc s" and c: "0 < hc c"
    and q: "\<And>d. find_device mm_id s = Some d \<Longrightarrow> queue_sat version_ok d s"
    and env0: "\<And>d. env_ok (listen_inv version_ok hp hv hc d) w"
    and env: "\<And>d p v. env_ok (listen_inv version_ok (hp(p := Suc (hp p))) (hv(v := Suc (hv v))) hc d) w"
  shows "run_ok (round_blocked hp hv hc)
    (\<lambda>r _ s'. case r of Inl e \<Rightarrow> drv_wf {} hp hv hc s' | Inr v \<Rightarrow> drv_wf {} hp (hv(v := Suc (hv v))) hc s')
    (backend_listen c mm_id timeout w s)"
proof (cases "find_device mm_id s")
  case (Some d)
  with backend_loop_wf [where s = s and d = d and n = "Suc (length w)", OF _ c env0 env]
    q wf show ?thesis by (simp add: backend_listen_def listen_inv_def)
qed (use wf in \<open>simp add: backend_listen_def\<close>)

end
