(* ===== verification/Hab_Example.thy ===== *)
theory Hab_Example
  imports Hab_Msg_Safe Hab_Mimex_Safe
begin

text \<open>
  A small driver state for concrete runs: one device with one vhost channel (1) in the new memory
  protocol, a context (2) with one open virtual channel (3), which has received the descriptor of a
  two-page import (4) and exports a buffer (5).  The context is held once, by its file.
\<close>

definition pchan_ex :: physical_channel where
  "pchan_ex = \<lparr>pc_is_be = True, pc_refcount = 2, pc_habdev = 0, pc_vchan_idr = [(1, 3)],
     pc_expid_idr = [(7, 5)], pc_expid_next = 8,
     pc_hyp_data = HypVhost \<lparr>vh_send_list = [], vh_out_iter = []\<rparr>, pc_dom_id = 2, pc_vmid_local = 0,
     pc_vmid_remote = 2, pc_closed = False, pc_otherend_closed = False, pc_sequence_tx = 0,
     pc_sequence_rx = 0, pc_vchannels = [3], pc_vcnt = 1, pc_mem_proto = 1\<rparr>"

definition vchan_ex :: virtual_channel where
  "vchan_ex = \<lparr>vc_refcount = 1, vc_pchan = 1, vc_ctx = 2,
     vc_rx_list = [\<lparr>ms_sizebytes = 3, ms_sequence_rx = 1, ms_body = Flat [10, 20, 30]\<rparr>],
     vc_id = 0x25902001, vc_otherend_id = 0x25900001, vc_otherend_closed = False, vc_session_id = 77,
     vc_closed = False, vc_tx_cnt = 0, vc_rx_cnt = 0, vc_rx_inflight = False\<rparr>"

definition pfns_ex :: compressed_pfns where
  "pfns_ex = \<lparr>cp_first_pfn = 100, cp_nregions = 1, cp_region = [\<lparr>rg_size = 2, rg_space = 0\<rparr>]\<rparr>"

definition export_ex :: "u32 \<Rightarrow> export_state \<Rightarrow> export_desc_super" where
  "export_ex i st = \<lparr>ex_refcount = 1, ex_dmabuf = None, ex_payload_size = 0,
     ex_import_state = EXP_DESC_INIT, ex_exp_state = st, ex_remote_imported = False, ex_export_id = i,
     ex_readonly = 0, ex_import_index = 0, ex_vchan = Some 3, ex_ctx = Some 2, ex_pchan = Some 1,
     ex_vcid_local = 0x25902001, ex_vcid_remote = 0x25900001, ex_domid_local = 0, ex_domid_remote = 2,
     ex_flags = 0, ex_kva = 0, ex_payload_count = 2, ex_payload = enc_pfns pfns_ex @ [0, 0, 0, 0, 0]\<rparr>"

definition ctx_ex :: uhab_context where
  "ctx_ex = \<lparr>cx_refcount = 2, cx_vchannels = [3], cx_vcnt = 1, cx_exp_whse = [5], cx_export_total = 1,
     cx_exp_rxq = [], cx_imp_whse = [((9, 1), 4)], cx_import_total = 1, cx_imp_rxq = [],
     cx_pending_open = [], cx_pending_cnt = 0, cx_forbidden_chans = [], cx_closing = False,
     cx_kernel = True, cx_lb_be = 0\<rparr>"

definition dev_ex :: hab_device where
  "dev_ex = \<lparr>dv_id = 601, dv_pchannels = [1], dv_pchan_cnt = 1, dv_openq_list = [], dv_openq_cnt = 0,
     dv_head_dom = 0\<rparr>"

definition drv_ex :: hab_driver where
  "drv_ex = \<lparr>st_devs = [dev_ex], st_pchans = [1 \<mapsto> pchan_ex], st_vchans = [3 \<mapsto> vchan_ex],
     st_ctxs = [2 \<mapsto> ctx_ex], st_exps = [4 \<mapsto> export_ex 9 HAB_EXP_EXPORTING, 5 \<mapsto> export_ex 7 HAB_EXP_SUCCESS],
     st_next = 10, st_uctx_list = [2], st_ctx_cnt = 1, st_reclaim_list = [], st_open_id = 1,
     st_loopback = False, st_loopback_be = 0, st_mem = [], st_now = 1000, st_now_ns = 0, st_sclk = 0,
     st_addr = of_nat, st_hyp_mem = mem_example\<rparr>"

abbreviation (input) none_held :: "nat \<Rightarrow> nat" where "none_held \<equiv> \<lambda>_. 0"

definition files_ex :: "nat \<Rightarrow> nat" where
  "files_ex c = (if c = 2 then 1 else 0)"

lemma drv_ex_own:
  "exps_ok [4 \<mapsto> OImp 2, 5 \<mapsto> OWhse 2] (xv (st_exps drv_ex)) (iv (st_pchans drv_ex))
     (wv (st_ctxs drv_ex)) (st_reclaim_list drv_ex) (st_next drv_ex)"
  by (auto simp: exps_ok_def exps_defs drv_ex_def export_ex_def pchan_ex_def ctx_ex_def xv_def iv_def wv_def
      split: if_splits)

lemma drv_ex_vset: "vset {} (vv (st_vchans drv_ex)) c = (if c = 2 then {3} else {})"
  by (auto simp: vset_def vv_def drv_ex_def vchan_ex_def split: if_splits)

lemma drv_ex_refs:
  "refs_ok {} none_held none_held files_ex (pv (st_pchans drv_ex)) (vv (st_vchans drv_ex))
     (cv (st_ctxs drv_ex)) (qv (st_devs drv_ex)) (st_next drv_ex)"
proof -
  have "HAB_VCID_GET_ID 0x25902001 = 1" by code_simp
  moreover have "ctx_ok {} files_ex (vv (st_vchans drv_ex)) 10 2 ([3], 2)"
    unfolding ctx_ok_def drv_ex_vset by (simp add: files_ex_def)
  ultimately show ?thesis
    by (auto simp: refs_ok_def pchan_ok_def vchan_ok_def dev_ok_def qrefs_def drv_ex_def pv_def vv_def
        cv_def qv_def pchan_ex_def vchan_ex_def ctx_ex_def dev_ex_def split: if_splits)
qed

lemma drv_ex_wf: "drv_wf {} none_held none_held files_ex drv_ex"
proof (rule drv_wfI [OF drv_ex_refs drv_ex_own])
  show "rx_ok drv_ex" by (auto simp: rx_ok_def drv_ex_def vchan_ex_def msg_ok_def split: if_splits)
  show "held_ok none_held none_held files_ex drv_ex"
    by (simp add: held_ok_def files_ex_def drv_ex_def)
qed

lemma drv_ex_readable: "readable 1 drv_ex"
  by (simp add: readable_def drv_ex_def pchan_ex_def)

lemma drv_ex_exports: "exports_ok 1 drv_ex"
  by (auto simp: exports_ok_def drv_ex_def pchan_ex_def export_ex_def vchan_ex_def idr_find_def
      split: if_splits)

lemma table_ex: "table_ok 2 (enc_pfns pfns_ex @ rest)"
  by (simp add: table_ok_def length_enc_pfns field32_nregions pfns_ex_def)

lemma drv_ex_imports: "imports_ok drv_ex"
  using table_ex by (auto simp: imports_ok_def drv_ex_def ctx_ex_def export_ex_def exp_key_def split: if_splits)

lemma drv_ex_ctx: "st_ctxs drv_ex 2 = Some ctx_ex"
  by (simp add: drv_ex_def)

text \<open>A machine with a gigabyte of page frames and buffers mapped one to one.\<close>

definition kernel_ex :: kernel_view where
  "kernel_ex = \<lparr>kv_pfn_valid = (\<lambda>f. f < 0x40000),
     kv_user_pages = (\<lambda>a n. map (\<lambda>i. drop_bit 12 a + of_nat i) [0..<n]),
     kv_kva_pages = (\<lambda>a n. map (\<lambda>i. drop_bit 12 a + of_nat i) [0..<n]), kv_stack = 0\<rparr>"

end
