(* ===== verification/Hab_Delivery.thy ===== *)
theory Hab_Delivery
  imports Hab_Api_Safe Hab_Example
begin

text \<open>
  What a message is worth: one that \<^verbatim>\<open>hab_vchan_send\<close> accepted is at the end of the transport's queue,
  one that the other side's \<^verbatim>\<open>hab_msg_recv\<close> takes from the transport is at the end of the queue of the
  virtual channel it is addressed to, and \<^verbatim>\<open>hab_vchan_recv\<close> hands out the oldest one.
\<close>

section \<open>References that are not the last one\<close>

text \<open>A virtual channel found through its context is still on the context's list when it is put.\<close>

lemma put_listed:
  assumes v: "st_vchans s v = Some vc" and k: "1 < vc_refcount vc"
  shows "hab_vchan_put v s =
    Some (s\<lparr>st_vchans := (st_vchans s)(v \<mapsto> vc\<lparr>vc_refcount := vc_refcount vc - 1\<rparr>)\<rparr>)"
  using v k by (simp add: hab_vchan_put_def mod_eqs(2))

abbreviation (input) with_ref :: "nat \<Rightarrow> virtual_channel \<Rightarrow> hab_driver \<Rightarrow> hab_driver" where
  "with_ref v vc s \<equiv> s\<lparr>st_vchans := (st_vchans s)(v \<mapsto> vc\<lparr>vc_refcount := vc_refcount vc + 1\<rparr>)\<rparr>"

lemma fromvcid_cases:
  assumes wf: "drv_wf {} hp hv hc s" and c: "st_ctxs s c = Some cx"
  obtains (none) "hab_get_vchan_fromvcid vcid c ign s = Some (None, s)"
  | (found) v vc where "hab_get_vchan_fromvcid vcid c ign s = Some (Some v, with_ref v vc s)"
      "v \<in> set (cx_vchannels cx)" "st_vchans s v = Some vc" "vc_id vc = vcid" "\<not> vc_closed vc"
      "ign \<or> \<not> vc_otherend_closed vc" "0 < vc_refcount vc"
      "drv_wf {} hp (hv(v := Suc (hv v))) hc (with_ref v vc s)"
proof -
  from get_fromvcid_wf [OF wf c, of vcid ign] obtain vo s1 where
    g: "hab_get_vchan_fromvcid vcid c ign s = Some (vo, s1)" "case vo of None \<Rightarrow> s1 = s
      | Some v \<Rightarrow> v \<in> set (cx_vchannels cx) \<and> v \<notin> {} \<and> drv_wf {} hp (hv(v := Suc (hv v))) hc s1 \<and>
        (\<exists>vc. st_vchans s v = Some vc \<and> vc_id vc = vcid \<and> vc_ctx vc = c \<and> \<not> vc_closed vc \<and>
          (ign \<or> \<not> vc_otherend_closed vc) \<and> s1 = with_ref v vc s)"
    unfolding safe_ex by blast
  show thesis
  proof (cases vo)
    case (Some v)
    with g(2) obtain vc where vc: "v \<in> set (cx_vchannels cx)" "st_vchans s v = Some vc" "vc_id vc = vcid"
      "\<not> vc_closed vc" "ign \<or> \<not> vc_otherend_closed vc" "s1 = with_ref v vc s"
      "drv_wf {} hp (hv(v := Suc (hv v))) hc s1" by auto
    from found [OF _ vc(1-5) ctx_vchan_count [OF wf c vc(1,2)]] g(1) Some vc(6,7) show thesis by simp
  qed (use g none in simp)
qed

text \<open>Concrete runs: the test evaluates, and gives the run.\<close>

definition done_with :: "'a run option \<Rightarrow> ('a \<Rightarrow> wait_ev list \<Rightarrow> hab_driver \<Rightarrow> bool) \<Rightarrow> bool" where
  "done_with m P = (case m of None \<Rightarrow> False | Some (Blocked s) \<Rightarrow> False | Some (Done a w s) \<Rightarrow> P a w s)"

lemma done_withE:
  assumes "done_with m P" obtains a w s where "m = Some (Done a w s)" "P a w s"
  using assms by (auto simp: done_with_def split: option.splits run.splits)

text \<open>The example driver with bytes waiting in its receive descriptor.\<close>

definition drv_rx :: "bytes \<Rightarrow> hab_message list \<Rightarrow> hab_driver" where
  "drv_rx b ms = drv_ex\<lparr>st_pchans := [1 \<mapsto> pchan_ex\<lparr>pc_hyp_data := HypVhost \<lparr>vh_send_list = [], vh_out_iter = b\<rparr>\<rparr>],
     st_vchans := [3 \<mapsto> vchan_ex\<lparr>vc_rx_list := ms\<rparr>]\<rparr>"

section \<open>Sending\<close>

lemma outq_vchans [simp]: "pchan_outq (s\<lparr>st_vchans := V\<rparr>) q = pchan_outq s q"
  by (simp add: pchan_outq_def)

lemma send_header_fields [simp]:
  "HAB_HEADER_GET_TYPE (send_header vc ty n) = payload_code ty"
  "n \<le> 0x7D000 \<Longrightarrow> unat (HAB_HEADER_GET_SIZE (send_header vc ty n)) = n"
  by (simp_all add: send_header_def unat_of_nat take_bit_eq_mod)

lemma send_header_ref [simp]: "send_header (vc\<lparr>vc_refcount := k\<rparr>) ty n = send_header vc ty n"
  by (simp add: send_header_def)

lemma send_outq:
  assumes s: "physical_channel_send p (send_header vc ty n) (Some b) s = Some (r, s')"
    and ty: "payload_code ty \<noteq> payload_code HAB_PAYLOAD_TYPE_PROFILE" and n: "n \<le> 0x7D000"
  shows "pchan_outq s' q = pchan_outq s q @
    (if r = 0 \<and> q = p then [(send_header vc ty n, take n b)] else [])"
proof (cases "q = p")
  case True
  with s ty n core_transport.send_ok [of p "send_header vc ty n" b s s']
    core_transport.send_fail [OF s] show ?thesis by (cases "r = 0") auto
qed (use core_transport.send_other [OF s] in simp)

lemma send_type_not_profile:
  "\<not> has_flag flags 2 \<Longrightarrow> send_type flags n = Some ty \<Longrightarrow> payload_code ty \<noteq> payload_code HAB_PAYLOAD_TYPE_PROFILE"
  by (auto simp: send_type_def split: if_splits)

lemma run_bind_Done:
  "run_bind m f = Some (Done a w s) \<longleftrightarrow> (\<exists>a1 w1 s1. m = Some (Done a1 w1 s1) \<and> f a1 w1 s1 = Some (Done a w s))"
  by (cases m) (auto simp: run_bind_def split: run.splits)

lemma send_loop_once:
  assumes "send_loop v nb h data [] s = Some (Done r w' s')" "st_vchans s v = Some vc"
  shows "physical_channel_send (vc_pchan vc) h data s = Some (r, s')"
  using assms by (auto simp: send_loop.simps split: if_splits)

lemma send_queues:
  assumes wf: "drv_wf {} hp hv hc s" and c: "st_ctxs s c = Some cx" and n: "n \<le> length b"
    and prof: "\<not> has_flag flags 2"
    and run: "hab_vchan_send c vcid n (Some b) flags [] s = Some (Done r w s')"
  shows "(r \<noteq> 0 \<and> pchan_outq s' = pchan_outq s) \<or>
    (r = 0 \<and> (\<exists>v vc ty. v \<in> set (cx_vchannels cx) \<and> st_vchans s v = Some vc \<and> vc_id vc = vcid \<and>
       send_type flags n = Some ty \<and>
       pchan_outq s' = (pchan_outq s)(vc_pchan vc :=
         pchan_outq s (vc_pchan vc) @ [(send_header vc ty n, take n b)])))"
proof (cases "n \<le> 0x7D000")
  case small: True
  from wf c show ?thesis
  proof (cases rule: fromvcid_cases [where vcid = vcid and ign = False])
    case none
    with run small show ?thesis by (auto simp: hab_vchan_send_def)
  next
    case (found v vc)
    let ?vc = "vc\<lparr>vc_refcount := vc_refcount vc + 1\<rparr>" and ?s1 = "with_ref v vc s"
    have v1: "st_vchans ?s1 v = Some ?vc" by simp
    show ?thesis
    proof (cases "send_type flags n")
      case None
      with found run small show ?thesis by (auto simp: hab_vchan_send_def)
    next
      case ty: (Some ty)
      from run found small ty obtain s2 where
        sent: "physical_channel_send (vc_pchan vc) (send_header vc ty n) (Some b) ?s1 = Some (r, s2)"
        and tail: "(if r = 0 then mod_vchan v (\<lambda>vc. vc\<lparr>vc_tx_cnt := vc_tx_cnt vc + 1\<rparr>) s2 else Some s2) \<bind>
            hab_vchan_put v = Some s'"
        by (auto simp: hab_vchan_send_def run_bind_Done dest!: send_loop_once)
      have v2: "st_vchans s2 v = Some ?vc" using hyp_vchans [OF send_frame [OF sent]] v1 by simp
      from tail v2 obtain s3 vc3 where "hab_vchan_put v s3 = Some s'" "st_vchans s3 v = Some vc3"
        "vc_refcount vc3 = vc_refcount vc + 1" "pchan_outq s3 = pchan_outq s2"
        by (cases "r = 0") (auto simp: fun_eq_iff)
      then have "pchan_outq s' = pchan_outq s2"
        using found(7) by (auto simp: put_listed fun_eq_iff)
      moreover have "pchan_outq s2 q = pchan_outq s q @
          (if r = 0 \<and> q = vc_pchan vc then [(send_header vc ty n, take n b)] else [])" for q
        using send_outq [OF sent send_type_not_profile [OF prof ty] small, of q] by simp
      ultimately show ?thesis using found ty by (cases "r = 0") (auto simp: fun_eq_iff)
    qed
  qed
qed (use run in \<open>simp add: hab_vchan_send_def\<close>)

text \<open>
  C11. What \<^verbatim>\<open>hab_vchan_send\<close> reports is what happened to the message.  Success means that the message,
  with the header of the connection (the type the flags select, the length, the other end's id and
  the session) and exactly the first \<open>n\<close> bytes of the buffer, is now the last one queued on the
  channel's transport; an error means that no queue of any channel changed.  (Profiling messages,
  into which a loopback device stamps the time, are left out; the call runs without being rescheduled.)
\<close>
theorem hab_vchan_send_queues:
  assumes wf: "drv_wf {} hp hv hc s" and c: "st_ctxs s c = Some cx" and n: "n \<le> length b"
    and prof: "\<not> has_flag flags 2"
    and run: "hab_vchan_send c vcid n (Some b) flags [] s = Some (Done r w s')"
  shows "(r \<noteq> 0 \<and> pchan_outq s' = pchan_outq s) \<or>
    (r = 0 \<and> (\<exists>v vc ty. v \<in> set (cx_vchannels cx) \<and> st_vchans s v = Some vc \<and> vc_id vc = vcid \<and>
       send_type flags n = Some ty \<and>
       pchan_outq s' = (pchan_outq s)(vc_pchan vc :=
         pchan_outq s (vc_pchan vc) @ [(send_header vc ty n, take n b)])))"
  by (rule send_queues [OF assms])

lemma vchan_ex_fields:
  "vc_refcount vchan_ex = 1" "vc_pchan vchan_ex = 1" "vc_id vchan_ex = 0x25902001"
  "\<not> vc_otherend_closed vchan_ex" "\<not> vc_closed vchan_ex"
  by (simp_all add: vchan_ex_def)

lemma send_ex:
  "done_with (hab_vchan_send 2 0x25902001 2 (Some [1, 2, 3]) 0 [] drv_ex) (\<lambda>r w s. r = 0 \<and> w = [] \<and>
     last (pchan_outq s 1) = (send_header vchan_ex HAB_PAYLOAD_TYPE_MSG 2, [1, 2]))"
  by (simp add: done_with_def hab_vchan_send_def hab_get_vchan_fromvcid_def vchan_get_unless_zero_def
      drv_ex_def ctx_ex_def vchan_ex_fields pchan_ex_def mod_eqs(2) send_type_def has_flag_def send_loop.simps
      physical_channel_send_def vhost_send_def kalloc_def payload_bytes_def set_hyp_def mod_eqs(1)
      put_listed pchan_outq_def Let_def)

theorem hab_vchan_send_queues_witness:
  "\<exists>s'. hab_vchan_send 2 0x25902001 2 (Some [1, 2, 3]) 0 [] drv_ex = Some (Done 0 [] s') \<and>
     pchan_outq s' = (pchan_outq drv_ex)(1 := [(send_header vchan_ex HAB_PAYLOAD_TYPE_MSG 2, [1, 2])])"
proof -
  from send_ex obtain s' where run: "hab_vchan_send 2 0x25902001 2 (Some [1, 2, 3]) 0 [] drv_ex = Some (Done 0 [] s')"
    by (auto elim: done_withE)
  have "\<not> has_flag 0 2" by (simp add: has_flag_def)
  from hab_vchan_send_queues [OF drv_ex_wf drv_ex_ctx _ this run] obtain v vc ty where
    "v \<in> set (cx_vchannels ctx_ex)" "st_vchans drv_ex v = Some vc" "send_type 0 2 = Some ty"
    "pchan_outq s' = (pchan_outq drv_ex)(vc_pchan vc :=
       pchan_outq drv_ex (vc_pchan vc) @ [(send_header vc ty 2, take 2 [1, 2, 3])])" by auto
  moreover have "send_type 0 2 = Some HAB_PAYLOAD_TYPE_MSG" by code_simp
  moreover have "pchan_outq drv_ex 1 = []" by (simp add: pchan_outq_def drv_ex_def pchan_ex_def)
  ultimately have "pchan_outq s' = (pchan_outq drv_ex)(1 := [(send_header vchan_ex HAB_PAYLOAD_TYPE_MSG 2, [1, 2])])"
    by (auto simp: ctx_ex_def drv_ex_def vchan_ex_def numeral_2_eq_2)
  with run show ?thesis by blast
qed

section \<open>Receiving from the other side\<close>

text \<open>The virtual channel that a header addresses, as \<^verbatim>\<open>hab_vchan_get\<close> decides it.\<close>

definition addressed :: "hab_driver \<Rightarrow> nat \<Rightarrow> hab_header \<Rightarrow> nat \<Rightarrow> virtual_channel \<Rightarrow> bool" where
  "addressed s p h v vc \<longleftrightarrow> (\<exists>pc. st_pchans s p = Some pc \<and>
       idr_find (pc_vchan_idr pc) (unat (HAB_VCID_GET_ID (HAB_HEADER_GET_ID h))) = Some v) \<and>
     st_vchans s v = Some vc \<and> vc_session_id vc = HAB_HEADER_GET_SESSION_ID h \<and> vc_otherend_id vc \<noteq> 0 \<and>
     \<not> vc_otherend_closed vc \<and> \<not> vc_closed vc \<and> 0 < vc_refcount vc"

lemma addressed_get:
  "addressed s p h v vc \<Longrightarrow> hab_vchan_get p h s = Some (Some v, with_ref v vc s)"
  by (auto simp: addressed_def hab_vchan_get_def vchan_get_unless_zero_def mod_eqs(2))

lemma msg_alloc_flat:
  assumes "st_pchans s p = Some pc" "pc_hyp_data pc = HypVhost vh" "st_mem s = []"
    "n \<le> 0x7D000" "n \<le> length (vh_out_iter vh)"
  shows "hab_msg_alloc p n s = Some (Some \<lparr>ms_sizebytes = n, ms_sequence_rx = pc_sequence_rx pc,
      ms_body = Flat (take n (vh_out_iter vh))\<rparr>,
    s\<lparr>st_pchans := (st_pchans s)(p \<mapsto> pc\<lparr>pc_hyp_data := HypVhost (vh\<lparr>vh_out_iter := drop n (vh_out_iter vh)\<rparr>)\<rparr>)\<rparr>)"
  using assms by (simp add: hab_msg_alloc_def kalloc_def physical_channel_read_def vhost_read_def set_hyp_def
      mod_eqs(1) to_size_t_nonneg into_zeroed_def)

definition plain_type :: "hab_payload_type \<Rightarrow> bool" where
  "plain_type ty \<longleftrightarrow> ty = HAB_PAYLOAD_TYPE_MSG \<or> ty = HAB_PAYLOAD_TYPE_SCHE_RESULT_REQ \<or>
     ty = HAB_PAYLOAD_TYPE_SCHE_RESULT_RSP"

lemma recv_plain:
  "plain_type ty \<Longrightarrow> \<not> is_open_type (payload_code ty) \<and>
     recv_vchan_msg p v (payload_code ty) n s = do { s1 \<leftarrow> recv_message p v n s; Some (0, s1) }"
  by (auto simp: plain_type_def is_open_type_def recv_vchan_msg_def payload_of_code_inverse)

text \<open>A message for an open channel, whose bytes the transport holds.\<close>

lemma recv_delivers:
  assumes adr: "addressed s p h v vc" and ty: "HAB_HEADER_GET_TYPE h = payload_code ty" "plain_type ty"
    and pc: "st_pchans s p = Some pc" "pc_hyp_data pc = HypVhost vh" and mem: "st_mem s = []"
    and n: "unat (HAB_HEADER_GET_SIZE h) = n" "n \<le> 0x7D000" "n \<le> length (vh_out_iter vh)"
  shows "hab_msg_recv p h s = Some (0, s\<lparr>
      st_vchans := (st_vchans s)(v \<mapsto> vc\<lparr>vc_rx_list := vc_rx_list vc @
        [\<lparr>ms_sizebytes = n, ms_sequence_rx = pc_sequence_rx pc, ms_body = Flat (take n (vh_out_iter vh))\<rparr>]\<rparr>),
      st_pchans := (st_pchans s)(p \<mapsto> pc\<lparr>pc_hyp_data := HypVhost (vh\<lparr>vh_out_iter := drop n (vh_out_iter vh)\<rparr>)\<rparr>)\<rparr>)"
proof -
  let ?m = "\<lparr>ms_sizebytes = n, ms_sequence_rx = pc_sequence_rx pc, ms_body = Flat (take n (vh_out_iter vh))\<rparr>"
  let ?pc = "pc\<lparr>pc_hyp_data := HypVhost (vh\<lparr>vh_out_iter := drop n (vh_out_iter vh)\<rparr>)\<rparr>"
  let ?s1 = "with_ref v vc s"
  have v: "st_vchans s v = Some vc" "\<not> vc_otherend_closed vc" "0 < vc_refcount vc"
    using adr by (auto simp: addressed_def)
  have alloc: "hab_msg_alloc p n ?s1 = Some (Some ?m, ?s1\<lparr>st_pchans := (st_pchans s)(p \<mapsto> ?pc)\<rparr>)"
    using msg_alloc_flat [of ?s1 p pc vh n] pc mem n by simp
  have "recv_message p v n ?s1 = Some (?s1\<lparr>st_pchans := (st_pchans s)(p \<mapsto> ?pc),
      st_vchans := (st_vchans s)(v \<mapsto> vc\<lparr>vc_refcount := vc_refcount vc + 1,
        vc_rx_list := vc_rx_list vc @ [?m]\<rparr>)\<rparr>)"
    unfolding recv_message_def alloc by (simp add: hab_msg_queue_def mod_eqs(2))
  then show ?thesis
    using addressed_get [OF adr] recv_plain [OF ty(2)] ty(1) n(1) v
    by (simp add: hab_msg_recv_def mod_eqs(2) put_listed Let_def)
qed

lemma addressed_ex:
  "addressed (drv_rx b ms) 1 (send_header vchan_ex HAB_PAYLOAD_TYPE_MSG n) 3 (vchan_ex\<lparr>vc_rx_list := ms\<rparr>)"
proof -
  have "HAB_VCID_GET_ID (HAB_VCID_GET_ID 0x25900001) = 1" by code_simp
  then show ?thesis
    by (simp add: addressed_def drv_rx_def send_header_def pchan_ex_def vchan_ex_def idr_find_def)
qed

lemma not_addressed_get:
  assumes wf: "drv_wf D hp hv hc s" and p: "st_pchans s p = Some pc" and no: "\<nexists>v vc. addressed s p h v vc"
  shows "hab_vchan_get p h s = Some (None, s)"
proof (cases "idr_find (pc_vchan_idr pc) (unat (HAB_VCID_GET_ID (HAB_HEADER_GET_ID h)))")
  case (Some v)
  from idr_vchan [OF wf p Some] obtain vc where "st_vchans s v = Some vc" by auto
  with p Some no show ?thesis
    by (auto simp: addressed_def hab_vchan_get_def vchan_get_unless_zero_def)
qed (use p in \<open>simp add: hab_vchan_get_def\<close>)

lemma drop_vhost:
  assumes pc: "st_pchans s p = Some pc" "pc_hyp_data pc = HypVhost vh" and mem: "st_mem s = []" and n: "n \<le> 0x7D000"
  shows "drop_ret p n e s = Some (e, s\<lparr>st_pchans := (st_pchans s)(p \<mapsto>
    pc\<lparr>pc_hyp_data := HypVhost (vh\<lparr>vh_out_iter := drop n (vh_out_iter vh)\<rparr>)\<rparr>)\<rparr>)"
proof (cases "n = 0")
  case True
  have "pc\<lparr>pc_hyp_data := HypVhost vh\<rparr> = pc" using pc(2) by simp
  moreover have "(st_pchans s)(p \<mapsto> pc) = st_pchans s" using pc(1) by auto
  ultimately show ?thesis using True by (simp add: drop_ret_def)
next
  case False
  with assms show ?thesis
    by (simp add: drop_ret_def hab_msg_drop_def kalloc_def physical_channel_read_def vhost_read_def set_hyp_def mod_pchan_def)
qed

text \<open>
  C19. An ordinary message of the other side (at most 0x7D000 bytes, over vhost, while allocations succeed) is
  read off the transport completely, so that the next header is where the reader looks for it, and goes to the
  virtual channel it is addressed to and to no other: the one found by the id in the header, whose session
  matches and which neither side has closed, gets the bytes as its newest message.  If there is no such
  channel the message is dropped with \<^verbatim>\<open>-EINVAL\<close>.  Every reference count, every other virtual channel, every
  context and every export is as before.
\<close>
theorem hab_msg_recv_dispatches:
  assumes wf: "drv_wf D hp hv hc s" and ty: "HAB_HEADER_GET_TYPE h = payload_code ty" "plain_type ty"
    and pc: "st_pchans s p = Some pc" "pc_hyp_data pc = HypVhost vh" and mem: "st_mem s = []"
    and n: "unat (HAB_HEADER_GET_SIZE h) = n" "n \<le> 0x7D000" "n \<le> length (vh_out_iter vh)"
  defines "pc1 \<equiv> pc\<lparr>pc_hyp_data := HypVhost (vh\<lparr>vh_out_iter := drop n (vh_out_iter vh)\<rparr>)\<rparr>"
  shows "(\<exists>v vc. addressed s p h v vc \<and> hab_msg_recv p h s = Some (0, s\<lparr>st_vchans := (st_vchans s)(v \<mapsto>
        vc\<lparr>vc_rx_list := vc_rx_list vc @ [\<lparr>ms_sizebytes = n, ms_sequence_rx = pc_sequence_rx pc,
          ms_body = Flat (take n (vh_out_iter vh))\<rparr>]\<rparr>), st_pchans := (st_pchans s)(p \<mapsto> pc1)\<rparr>)) \<or>
    ((\<nexists>v vc. addressed s p h v vc) \<and> hab_msg_recv p h s = Some (- EINVAL, s\<lparr>st_pchans := (st_pchans s)(p \<mapsto> pc1)\<rparr>))"
proof (cases "\<exists>v vc. addressed s p h v vc")
  case True
  then obtain v vc where adr: "addressed s p h v vc" by blast
  from recv_delivers [OF adr ty pc mem n] adr show ?thesis unfolding pc1_def by auto
next
  case False
  have "payload_code ty \<noteq> payload_code HAB_PAYLOAD_TYPE_UNIMPORT" "\<not> is_open_type (payload_code ty)"
    using ty(2) by (auto simp: plain_type_def is_open_type_def)
  with not_addressed_get [OF wf pc(1) False] drop_vhost [OF pc mem n(2), of "- EINVAL"] ty(1) n(1) False
  show ?thesis by (simp add: hab_msg_recv_def pc1_def)
qed

text \<open>
  A message of two bytes for the example driver's channel, which holds one already; and one that carries
  another session, for no channel.
\<close>

lemma drv_rx_wf: "drv_wf {} none_held none_held files_ex (drv_rx b (vc_rx_list vchan_ex))"
proof -
  have "vchan_ex\<lparr>vc_rx_list := vc_rx_list vchan_ex\<rparr> = vchan_ex" by simp
  moreover have "hyp_frame 1 drv_ex (drv_ex\<lparr>st_mem := [], st_pchans := (st_pchans drv_ex)(1 \<mapsto>
      pchan_ex\<lparr>pc_hyp_data := HypVhost \<lparr>vh_send_list = [], vh_out_iter = b\<rparr>\<rparr>)\<rparr>)"
    by (auto simp: hyp_frame_def drv_ex_def)
  from drv_wf_hyp_frame [OF drv_ex_wf this]
  show ?thesis by (simp add: drv_rx_def drv_ex_def)
qed

definition stale_ex :: hab_header where
  "stale_ex = (send_header vchan_ex HAB_PAYLOAD_TYPE_MSG 2)\<lparr>hh_session_id := 78\<rparr>"

theorem hab_msg_recv_dispatches_witness:
  "(\<exists>s' vc. hab_msg_recv 1 (send_header vchan_ex HAB_PAYLOAD_TYPE_MSG 2) (drv_rx [5, 6, 7] (vc_rx_list vchan_ex)) = Some (0, s') \<and>
     st_vchans s' 3 = Some vc \<and> map ms_body (vc_rx_list vc) = [Flat [10, 20, 30], Flat [5, 6]]) \<and>
   (\<exists>s'. hab_msg_recv 1 stale_ex (drv_rx [5, 6, 7] (vc_rx_list vchan_ex)) = Some (- EINVAL, s') \<and>
     st_vchans s' = st_vchans (drv_rx [5, 6, 7] (vc_rx_list vchan_ex)))"
proof -
  let ?s = "drv_rx [5, 6, 7] (vc_rx_list vchan_ex)" and ?h = "send_header vchan_ex HAB_PAYLOAD_TYPE_MSG 2"
  have p: "st_pchans ?s 1 = Some (pchan_ex\<lparr>pc_hyp_data := HypVhost \<lparr>vh_send_list = [], vh_out_iter = [5, 6, 7]\<rparr>\<rparr>)"
    and v: "st_vchans ?s w = Some vc \<Longrightarrow> w = 3 \<and> vc = vchan_ex" for w vc
    by (auto simp: drv_rx_def split: if_splits)
  have ty: "plain_type HAB_PAYLOAD_TYPE_MSG" "HAB_HEADER_GET_TYPE stale_ex = payload_code HAB_PAYLOAD_TYPE_MSG"
    "unat (HAB_HEADER_GET_SIZE stale_ex) = 2" "st_mem ?s = []"
    using send_header_fields [where vc = vchan_ex and ty = HAB_PAYLOAD_TYPE_MSG and n = 2]
    by (simp_all add: plain_type_def stale_ex_def drv_rx_def drv_ex_def HAB_HEADER_GET_TYPE_def HAB_HEADER_GET_SIZE_def
        del: send_header_fields)
  have bytes: "2 \<le> (0x7D000 :: nat)" "2 \<le> length [5, 6, 7 :: u8]" by simp_all
  have adr: "addressed ?s 1 ?h 3 (vchan_ex\<lparr>vc_rx_list := vc_rx_list vchan_ex\<rparr>)" by (rule addressed_ex)
  have stale: "\<nexists>w vc. addressed ?s 1 stale_ex w vc"
  proof
    assume "\<exists>w vc. addressed ?s 1 stale_ex w vc"
    then obtain w vc where a: "st_vchans ?s w = Some vc" "vc_session_id vc = HAB_HEADER_GET_SESSION_ID stale_ex"
      by (auto simp: addressed_def)
    from v [OF a(1)] a(2) show False by (simp add: stale_ex_def HAB_HEADER_GET_SESSION_ID_def vchan_ex_def)
  qed
  let ?vh = "\<lparr>vh_send_list = [], vh_out_iter = [5, 6, 7]\<rparr>"
  note hf = send_header_fields [where vc = vchan_ex and ty = HAB_PAYLOAD_TYPE_MSG and n = 2]
  from hab_msg_recv_dispatches [OF drv_rx_wf hf(1) ty(1) p _ ty(4) hf(2) bytes(1), of ?vh] adr bytes
  obtain w vc s' where "addressed ?s 1 ?h w vc" and run: "hab_msg_recv 1 ?h ?s = Some (0, s')"
    and q: "st_vchans s' w = Some (vc\<lparr>vc_rx_list := vc_rx_list vc @ [\<lparr>ms_sizebytes = 2,
      ms_sequence_rx = 0, ms_body = Flat [5, 6]\<rparr>]\<rparr>)" by (auto simp: pchan_ex_def)
  then have "w = 3" "vc = vchan_ex" using v [of w vc] by (simp_all add: addressed_def)
  with run q have "\<exists>s' vc. hab_msg_recv 1 ?h ?s = Some (0, s') \<and> st_vchans s' 3 = Some vc \<and>
      map ms_body (vc_rx_list vc) = [Flat [10, 20, 30], Flat [5, 6]]"
    by (auto simp: vchan_ex_def)
  moreover from hab_msg_recv_dispatches [OF drv_rx_wf ty(2) ty(1) p _ ty(4) ty(3) bytes(1), of ?vh] stale bytes
  have "\<exists>s'. hab_msg_recv 1 stale_ex ?s = Some (- EINVAL, s') \<and> st_vchans s' = st_vchans ?s" by auto
  ultimately show ?thesis by blast
qed

section \<open>Handing messages to the client\<close>

lemma dequeue_nonblocking:
  assumes "has_flag flags 1" "st_vchans s v = Some vc"
  shows "hab_msg_dequeue v rsize flags w s = do {
     (ret', rsize', m, s2) \<leftarrow> msg_take v rsize (- EAGAIN) s;
     Some (Done (ret', rsize', m) w s2) }"
  using assms by (simp add: hab_msg_dequeue_def has_flag_def hab_rx_queue_empty_def)

lemma recv_oldest:
  assumes wf: "drv_wf {} hp hv hc s" and c: "st_ctxs s c = Some cx" and nb: "has_flag flags 1"
    and run: "hab_vchan_recv c vcid rsize flags w s = Some (Done (ret, rsize', m) w' s')"
  shows "(ret = - ENODEV \<and> m = None \<and> s' = s) \<or>
    (\<exists>v vc. v \<in> set (cx_vchannels cx) \<and> st_vchans s v = Some vc \<and> vc_id vc = vcid \<and>
       (case vc_rx_list vc of
          [] \<Rightarrow> m = None \<and> ret = (if vc_otherend_closed vc then - ENODEV else - EAGAIN) \<and>
            st_vchans s' = (st_vchans s)(v \<mapsto> vc\<lparr>vc_rx_inflight := False\<rparr>)
        | q # qs \<Rightarrow>
            if ms_sizebytes q \<le> to_size_t rsize
            then m = Some q \<and> ret = 0 \<and> rsize' = to_int32 (ms_sizebytes q) \<and>
              st_vchans s' = (st_vchans s)(v \<mapsto> vc\<lparr>vc_rx_list := qs, vc_rx_inflight := False,
                vc_rx_cnt := vc_rx_cnt vc + 1\<rparr>)
            else m = None \<and> ret = - EOVERFLOW \<and> rsize' = to_int32 (ms_sizebytes q) \<and>
              st_vchans s' = (st_vchans s)(v \<mapsto> vc\<lparr>vc_rx_inflight := False\<rparr>)))"
  using wf c
proof (cases rule: fromvcid_cases [where vcid = vcid and ign = True])
  case none
  with run show ?thesis by (simp add: hab_vchan_recv_def)
next
  case (found v vc)
  let ?vc = "vc\<lparr>vc_refcount := vc_refcount vc + 1, vc_rx_inflight := True\<rparr>"
  define s2 where "s2 = s\<lparr>st_vchans := (st_vchans s)(v \<mapsto> ?vc)\<rparr>"
  from vchan_pchan [OF wf found(3)] obtain pc where "st_pchans s (vc_pchan vc) = Some pc" by blast
  then have disp: "physical_channel_rx_dispatch (vc_pchan vc) s2 = Some s2"
    by (simp add: s2_def physical_channel_rx_dispatch_def)
  have v2: "st_vchans s2 v = Some ?vc" by (simp add: s2_def)
  from run have run': "(do { (ret', rsize', m, s4) \<leftarrow> msg_take v rsize (- EAGAIN) s2;
       s5 \<leftarrow> (if ret' = 0 \<and> m \<noteq> None then mod_vchan v (\<lambda>vc. vc\<lparr>vc_rx_cnt := vc_rx_cnt vc + 1\<rparr>) s4 else Some s4);
       s6 \<leftarrow> mod_vchan v (\<lambda>vc. vc\<lparr>vc_rx_inflight := False\<rparr>) s5;
       s7 \<leftarrow> hab_vchan_put v s6;
       Some (Done (ret', rsize', m) w s7) }) = Some (Done (ret, rsize', m) w' s')"
    using found nb disp v2 dequeue_nonblocking [OF nb v2]
    by (auto simp: hab_vchan_recv_def mod_eqs(2) s2_def run_bind_Done)
  have "(case vc_rx_list vc of
          [] \<Rightarrow> m = None \<and> ret = (if vc_otherend_closed vc then - ENODEV else - EAGAIN) \<and>
            st_vchans s' = (st_vchans s)(v \<mapsto> vc\<lparr>vc_rx_inflight := False\<rparr>)
        | q # qs \<Rightarrow>
            if ms_sizebytes q \<le> to_size_t rsize
            then m = Some q \<and> ret = 0 \<and> rsize' = to_int32 (ms_sizebytes q) \<and>
              st_vchans s' = (st_vchans s)(v \<mapsto> vc\<lparr>vc_rx_list := qs, vc_rx_inflight := False,
                vc_rx_cnt := vc_rx_cnt vc + 1\<rparr>)
            else m = None \<and> ret = - EOVERFLOW \<and> rsize' = to_int32 (ms_sizebytes q) \<and>
              st_vchans s' = (st_vchans s)(v \<mapsto> vc\<lparr>vc_rx_inflight := False\<rparr>))"
  proof (cases "vc_rx_list vc")
    case Nil
    then show ?thesis using run' v2 found(7)
      by (auto simp: msg_take_def mod_eqs(2) put_listed s2_def)
  next
    case (Cons q qs)
    show ?thesis
    proof (cases "ms_sizebytes q \<le> to_size_t rsize")
      case True
      then show ?thesis using run' v2 found(7) Cons
        by (auto simp: msg_take_def mod_eqs(2) put_listed s2_def)
    next
      case False
      then show ?thesis using run' v2 found(7) Cons
        by (auto simp: msg_take_def mod_eqs(2) put_listed s2_def)
    qed
  qed
  with found show ?thesis by blast
qed

text \<open>
  C10. \<^verbatim>\<open>hab_vchan_recv\<close> hands out the oldest message of the channel, if the caller's buffer can hold
  it, and removes exactly that one; if it cannot, the call fails with -EOVERFLOW, tells the length
  needed and keeps the message.  With no message queued a non-blocking call fails with -EAGAIN, or
  with -ENODEV once the other end is closed: what was queued before the close is still delivered.
\<close>
theorem hab_vchan_recv_oldest:
  assumes wf: "drv_wf {} hp hv hc s" and c: "st_ctxs s c = Some cx" and nb: "has_flag flags 1"
    and run: "hab_vchan_recv c vcid rsize flags w s = Some (Done (ret, rsize', m) w' s')"
  shows "(ret = - ENODEV \<and> m = None \<and> s' = s) \<or>
    (\<exists>v vc. v \<in> set (cx_vchannels cx) \<and> st_vchans s v = Some vc \<and> vc_id vc = vcid \<and>
       (case vc_rx_list vc of
          [] \<Rightarrow> m = None \<and> ret = (if vc_otherend_closed vc then - ENODEV else - EAGAIN) \<and>
            st_vchans s' = (st_vchans s)(v \<mapsto> vc\<lparr>vc_rx_inflight := False\<rparr>)
        | q # qs \<Rightarrow>
            if ms_sizebytes q \<le> to_size_t rsize
            then m = Some q \<and> ret = 0 \<and> rsize' = to_int32 (ms_sizebytes q) \<and>
              st_vchans s' = (st_vchans s)(v \<mapsto> vc\<lparr>vc_rx_list := qs, vc_rx_inflight := False,
                vc_rx_cnt := vc_rx_cnt vc + 1\<rparr>)
            else m = None \<and> ret = - EOVERFLOW \<and> rsize' = to_int32 (ms_sizebytes q) \<and>
              st_vchans s' = (st_vchans s)(v \<mapsto> vc\<lparr>vc_rx_inflight := False\<rparr>)))"
  by (rule recv_oldest [OF assms])

theorem hab_vchan_recv_oldest_witness:
  "\<exists>s'. hab_vchan_recv 2 0x25902001 16 1 [] drv_ex =
       Some (Done (0, 3, Some \<lparr>ms_sizebytes = 3, ms_sequence_rx = 1, ms_body = Flat [10, 20, 30]\<rparr>) [] s') \<and>
     (\<exists>vc. st_vchans s' 3 = Some vc \<and> vc_rx_list vc = [])"
proof -
  have "done_with (hab_vchan_recv 2 0x25902001 16 1 [] drv_ex) (\<lambda>(ret, n, m) w s. ret = 0 \<and> n = 3 \<and>
      m = Some \<lparr>ms_sizebytes = 3, ms_sequence_rx = 1, ms_body = Flat [10, 20, 30]\<rparr> \<and> w = [])"
    by code_simp
  then obtain s' where run: "hab_vchan_recv 2 0x25902001 16 1 [] drv_ex =
       Some (Done (0, 3, Some \<lparr>ms_sizebytes = 3, ms_sequence_rx = 1, ms_body = Flat [10, 20, 30]\<rparr>) [] s')"
    by (auto elim!: done_withE)
  have "has_flag 1 1" by (simp add: has_flag_def)
  from hab_vchan_recv_oldest [OF drv_ex_wf drv_ex_ctx this run] have "\<exists>vc. st_vchans s' 3 = Some vc \<and> vc_rx_list vc = []"
    by (auto simp: ctx_ex_def drv_ex_def vchan_ex_def split: if_splits)
  with run show ?thesis by blast
qed

section \<open>End to end\<close>

lemma find_vcid_upd:
  assumes "st_vchans s v = Some vc" "vc_id vc' = vc_id vc" "st_vchans s' = (st_vchans s)(v \<mapsto> vc')"
  shows "find_vcid i vs s' = find_vcid i vs s"
  using assms
proof (induction vs)
  case (Cons a vs)
  then show ?case by (cases "a = v"; cases "st_vchans s a") simp_all
qed simp

lemma recv_head:
  assumes c: "st_ctxs s c = Some cx" "find_vcid vcid (cx_vchannels cx) s = Some (Some v)"
    and v: "st_vchans s v = Some vc" "\<not> vc_closed vc" "0 < vc_refcount vc" "vc_rx_list vc = q # qs"
    and p: "st_pchans s (vc_pchan vc) = Some pc" and nb: "has_flag flags 1" and r: "ms_sizebytes q \<le> to_size_t rsize"
  shows "hab_vchan_recv c vcid rsize flags w s = Some (Done (0, to_int32 (ms_sizebytes q), Some q) w
    (s\<lparr>st_vchans := (st_vchans s)(v \<mapsto> vc\<lparr>vc_rx_list := qs, vc_rx_cnt := vc_rx_cnt vc + 1,
       vc_rx_inflight := False\<rparr>)\<rparr>))"
  using assms dequeue_nonblocking [OF nb, of "s\<lparr>st_vchans := (st_vchans s)
      (v \<mapsto> vc\<lparr>vc_refcount := vc_refcount vc + 1, vc_rx_inflight := True\<rparr>)\<rparr>" v]
  by (simp add: hab_vchan_recv_def hab_get_vchan_fromvcid_def vchan_get_unless_zero_def mod_eqs(2)
      physical_channel_rx_dispatch_def msg_take_def put_listed)

lemma message_delivered:
  assumes wf: "drv_wf {} hp hv hc s" and c: "st_ctxs s c = Some cx" and n: "n \<le> length b" "n \<le> 0x7D000"
    and ty: "send_type flags n = Some ty" "plain_type ty"
    and send: "hab_vchan_send c vcid n (Some b) flags [] s = Some (Done 0 w' s')"
    and link: "\<And>v vc. st_vchans s v = Some vc \<Longrightarrow> vc_id vc = vcid \<Longrightarrow> vc_pchan vc = p"
      "last (pchan_outq s' p) = (h, vh_out_iter vh)"
    and peer: "st_pchans t q = Some pc" "pc_hyp_data pc = HypVhost vh" "st_mem t = []"
      "addressed t q h u uc" "vc_pchan uc = q" "vc_rx_list uc = []"
    and peer_ctx: "st_ctxs t k = Some ctx" "find_vcid (vc_id uc) (cx_vchannels ctx) t = Some (Some u)"
    and room: "n \<le> to_size_t rsize" "has_flag rflags 1"
  shows "\<exists>t1 t2 m. hab_msg_recv q h t = Some (0, t1) \<and>
    hab_vchan_recv k (vc_id uc) rsize rflags [] t1 = Some (Done (0, to_int32 n, Some m) [] t2) \<and>
    ms_sizebytes m = n \<and> ms_body m = Flat (take n b)"
proof -
  have prof: "\<not> has_flag flags 2" using ty by (auto simp: send_type_def plain_type_def split: if_splits)
  from send_queues [OF wf c n(1) prof send] obtain v vc where
    v: "st_vchans s v = Some vc" "vc_id vc = vcid"
    and out: "pchan_outq s' = (pchan_outq s)(vc_pchan vc := pchan_outq s (vc_pchan vc) @ [(send_header vc ty n, take n b)])"
    using ty(1) by auto
  from link(1) [OF v] link(2) out have h: "h = send_header vc ty n" "vh_out_iter vh = take n b" by auto
  let ?m = "\<lparr>ms_sizebytes = n, ms_sequence_rx = pc_sequence_rx pc, ms_body = Flat (take n b)\<rparr>"
  let ?uc = "uc\<lparr>vc_rx_list := [?m]\<rparr>"
  obtain t1 where t1: "hab_msg_recv q h t = Some (0, t1)" "st_vchans t1 = (st_vchans t)(u \<mapsto> ?uc)"
    "st_ctxs t1 = st_ctxs t" "st_pchans t1 q \<noteq> None"
    using recv_delivers [OF peer(4) _ ty(2) peer(1-3), of n] h n peer(6) by simp
  have u: "st_vchans t u = Some uc" "\<not> vc_closed uc" "0 < vc_refcount uc" using peer(4) by (auto simp: addressed_def)
  have "find_vcid (vc_id uc) (cx_vchannels ctx) t1 = Some (Some u)"
    using find_vcid_upd [OF u(1) _ t1(2)] peer_ctx(2) by simp
  from recv_head [OF _ this, where vc = ?uc and q = ?m and qs = "[]" and rsize = rsize and flags = rflags and w = "[]"] t1 u peer_ctx(1) peer(5) room
  have "\<exists>t2. hab_vchan_recv k (vc_id uc) rsize rflags [] t1 =
      Some (Done (0, to_int32 (ms_sizebytes ?m), Some ?m) [] t2)" by auto
  with t1(1) show ?thesis by auto
qed

text \<open>
  End to end: bytes that one driver's \<^verbatim>\<open>hab_vchan_send\<close> accepted come out of the peer's
  \<^verbatim>\<open>hab_vchan_recv\<close> unchanged.  The transport hands the peer's \<^verbatim>\<open>hab_msg_recv\<close> the message that the
  send queued (its header, and its bytes in the receive descriptor); if the header addresses the
  peer's virtual channel and nothing else is waiting there, a receive with room for \<open>n\<close> bytes returns
  exactly the first \<open>n\<close> bytes of the sender's buffer.
\<close>
theorem message_end_to_end:
  assumes wf: "drv_wf {} hp hv hc s" and c: "st_ctxs s c = Some cx" and n: "n \<le> length b" "n \<le> 0x7D000"
    and ty: "send_type flags n = Some ty" "plain_type ty"
    and send: "hab_vchan_send c vcid n (Some b) flags [] s = Some (Done 0 w' s')"
    and link: "\<And>v vc. st_vchans s v = Some vc \<Longrightarrow> vc_id vc = vcid \<Longrightarrow> vc_pchan vc = p"
      "last (pchan_outq s' p) = (h, vh_out_iter vh)"
    and peer: "st_pchans t q = Some pc" "pc_hyp_data pc = HypVhost vh" "st_mem t = []"
      "addressed t q h u uc" "vc_pchan uc = q" "vc_rx_list uc = []"
    and peer_ctx: "st_ctxs t k = Some ctx" "find_vcid (vc_id uc) (cx_vchannels ctx) t = Some (Some u)"
    and room: "n \<le> to_size_t rsize" "has_flag rflags 1"
  shows "\<exists>t1 t2 m. hab_msg_recv q h t = Some (0, t1) \<and>
    hab_vchan_recv k (vc_id uc) rsize rflags [] t1 = Some (Done (0, to_int32 n, Some m) [] t2) \<and>
    ms_sizebytes m = n \<and> ms_body m = Flat (take n b)"
  by (rule message_delivered [OF assms])

theorem message_end_to_end_witness:
  "\<exists>s' t1 t2 m. hab_vchan_send 2 0x25902001 2 (Some [1, 2, 3]) 0 [] drv_ex = Some (Done 0 [] s') \<and>
     hab_msg_recv 1 (send_header vchan_ex HAB_PAYLOAD_TYPE_MSG 2) (drv_rx [1, 2] []) = Some (0, t1) \<and>
     hab_vchan_recv 2 0x25902001 64 1 [] t1 = Some (Done (0, to_int32 2, Some m) [] t2) \<and>
     ms_body m = Flat [1, 2]"
proof -
  let ?send = "hab_vchan_send 2 0x25902001 2 (Some [1, 2, 3]) 0 [] drv_ex"
  from send_ex obtain s' where run: "?send = Some (Done 0 [] s')"
    and last: "last (pchan_outq s' 1) = (send_header vchan_ex HAB_PAYLOAD_TYPE_MSG 2, [1, 2])"
    by (auto elim: done_withE)
  have ty: "send_type 0 2 = Some HAB_PAYLOAD_TYPE_MSG" by code_simp
  have f: "find_vcid 0x25902001 [3] (drv_rx [1, 2] []) = Some (Some 3)"
    by (simp add: drv_rx_def vchan_ex_def)
  have "\<exists>t1 t2 m. hab_msg_recv 1 (send_header vchan_ex HAB_PAYLOAD_TYPE_MSG 2) (drv_rx [1, 2] []) = Some (0, t1) \<and>
      hab_vchan_recv 2 (vc_id (vchan_ex\<lparr>vc_rx_list := []\<rparr>)) 64 1 [] t1 = Some (Done (0, to_int32 2, Some m) [] t2) \<and>
      ms_sizebytes m = 2 \<and> ms_body m = Flat (take 2 [1, 2, 3])"
  proof (rule message_end_to_end [OF drv_ex_wf drv_ex_ctx _ _ ty _ run])
    show "last (pchan_outq s' 1) = (send_header vchan_ex HAB_PAYLOAD_TYPE_MSG 2,
        vh_out_iter \<lparr>vh_send_list = [], vh_out_iter = [1, 2]\<rparr>)" using last by simp
    show "addressed (drv_rx [1, 2] []) 1 (send_header vchan_ex HAB_PAYLOAD_TYPE_MSG 2) 3 (vchan_ex\<lparr>vc_rx_list := []\<rparr>)"
      by (rule addressed_ex)
    show "find_vcid (vc_id (vchan_ex\<lparr>vc_rx_list := []\<rparr>)) (cx_vchannels ctx_ex) (drv_rx [1, 2] []) = Some (Some 3)"
      using f by (simp add: vchan_ex_def ctx_ex_def)
  qed (auto simp: plain_type_def drv_rx_def drv_ex_def vchan_ex_def pchan_ex_def to_size_t_def has_flag_def
      split: if_splits)
  with run show ?thesis by (auto simp: vchan_ex_def numeral_2_eq_2)
qed

end
