(* ===== verification/Hab_Guarantees.thy ===== *)
theory Hab_Guarantees
  imports Hab_Delivery
begin

text \<open>
  The guarantees of the driver core as one reads them from outside: no message of the other side and
  no call of a client makes it follow a pointer to freed memory, underflow a reference count or touch
  memory outside an object.  \<open>drv_wf {} hp hv hc\<close> is the reference invariant with \<open>hp\<close>, \<open>hv\<close>, \<open>hc\<close>
  counting the references other threads hold.  It bounds a count from below by the references there
  are: it excludes every premature free, and no leak (the code has some, \<open>Hab_Faults\<close>).
\<close>

section \<open>Messages of the other side\<close>

text \<open>
  C4. Except for profiling and scheduling messages larger than a page, no message of the other side on a
  readable channel makes \<^verbatim>\<open>hab_msg_recv\<close> fault, whatever its header, its payload and the allocation
  failures, and the reference invariant holds afterwards.  The exception is needed: such a message may be stored
  as a table of pages, over which the code then writes its time stamps
  (\<open>profile_message_overruns_page_table\<close>).  Of the local side it is assumed that the finished exports
  of the channel are complete and belong to the context of its virtual channels (\<open>exports_ok\<close>).
\<close>
theorem hab_msg_recv_any_message:
  assumes "drv_wf {} hp hv hc s" "readable p s" "exports_ok p s" "stamped_small h"
  shows "\<exists>r s'. hab_msg_recv p h s = Some (r, s') \<and> drv_wf {} hp hv hc s'"
  using msg_recv_wf [OF assms] unfolding safe_ex by auto

theorem hab_msg_recv_any_message_witness:
  "\<exists>r s'. hab_msg_recv 1 \<lparr>hh_id_type = 0xFFFFFFFF, hh_payload_size = 0xFFFFFFFF, hh_session_id = 77,
       hh_signature = 0, hh_sequence = 0\<rparr> drv_ex = Some (r, s') \<and> drv_wf {} none_held none_held files_ex s'"
proof -
  let ?h = "\<lparr>hh_id_type = 0xFFFFFFFF, hh_payload_size = 0xFFFFFFFF, hh_session_id = 77,
       hh_signature = 0, hh_sequence = 0\<rparr> :: hab_header"
  have "HAB_HEADER_GET_TYPE ?h \<notin> {payload_code HAB_PAYLOAD_TYPE_PROFILE,
       payload_code HAB_PAYLOAD_TYPE_SCHE_MSG, payload_code HAB_PAYLOAD_TYPE_SCHE_MSG_ACK}" by code_simp
  then have "stamped_small ?h" by (simp only: stamped_small_def) blast
  from hab_msg_recv_any_message [OF drv_ex_wf drv_ex_readable drv_ex_exports this] show ?thesis .
qed

section \<open>Calls of a client\<close>

text \<open>A schedule on which other threads leave the driver alone, until the timeout.\<close>

lemma env_ok_idle: "env_ok I [Env Some, Tmo]"
  by (simp add: env_ok_def)

text \<open>
  C12. \<^verbatim>\<open>hab_vchan_send\<close> and \<^verbatim>\<open>hab_vchan_recv\<close> never fault, for any virtual channel id, size, flags and
  timeout, while other threads do to the driver whatever respects the references this call holds.  If
  they return, the invariant holds without the reference they took, and while they sleep it counts
  that one; a receive that returns 0 returns a message that has all its bytes and fits the room given.
\<close>
theorem send_recv_safe:
  assumes wf: "drv_wf {} hp hv hc s" and c: "st_ctxs s c = Some cx" and data: "payload_holds data n"
    and env: "\<And>v. env_ok (drv_wf {} hp (hv(v := Suc (hv v))) hc) w"
  shows "run_ok (drv_wf {} hp hv hc) (\<lambda>r w' s'. drv_wf {} hp hv hc s')
      (hab_vchan_send c vcid n data flags w s) \<and>
    run_ok (\<lambda>s'. \<exists>v. drv_wf {} hp (hv(v := Suc (hv v))) hc s') (\<lambda>r w' s'. drv_wf {} hp hv hc s' \<and> got_msg rsize r)
      (hab_vchan_recv c vcid rsize flags w s)"
  using hab_vchan_send_wf [OF wf c data env] hab_vchan_recv_wf [OF wf c env] by blast

theorem send_recv_safe_witness:
  "run_ok (drv_wf {} none_held none_held files_ex) (\<lambda>r w' s'. drv_wf {} none_held none_held files_ex s')
     (hab_vchan_send 2 0x25902001 3 (Some [1, 2, 3]) 0 [Env Some, Tmo] drv_ex)"
  using send_recv_safe [OF drv_ex_wf drv_ex_ctx _ env_ok_idle, of "Some [1, 2, 3]" 3]
  by (simp add: payload_holds_def)

text \<open>
  \<^verbatim>\<open>hab_vchan_close\<close> never faults: a channel of the context leaves its list, the other side is told,
  and the reference of the list is put, so that the channel goes when the last call on it returns; an
  id that is no channel is taken for a device to stop.
\<close>
theorem hab_vchan_close_safe:
  assumes "drv_wf {} hp hv hc s" "st_ctxs s c = Some cx"
  shows "\<exists>r s'. hab_vchan_close c vcid s = Some (r, s') \<and> drv_wf {} hp hv hc s'"
  using hab_vchan_close_wf [OF assms, of vcid] unfolding safe_ex by auto

theorem hab_vchan_close_safe_witness:
  "\<exists>r s'. hab_vchan_close 2 0x25902001 drv_ex = Some (r, s') \<and> drv_wf {} none_held none_held files_ex s'"
  by (rule hab_vchan_close_safe [OF drv_ex_wf drv_ex_ctx])

text \<open>
  C14. On a device that has a channel for the domain asked for, the front end's open handshake does not fault
  (\<open>dom_listed\<close>; without such a channel the search ends on the list head and the code takes the list head for
  a channel, \<open>open_without_channel_crashes\<close>).  On an error the invariant holds without the
  references it took to the new virtual channel and its physical channel, on success with the one to
  the new channel, which the caller holds; while it waits for INIT-ACK it holds both.
\<close>
theorem frontend_open_safe:
  assumes "drv_wf {} hp hv hc s" "0 < hc c"
    and "\<And>d. find_device mm_id s = Some d \<Longrightarrow> dom_listed d dm s"
    and "\<And>d p v. env_ok (listen_inv (\<lambda>_. True) (hp(p := Suc (hp p))) (hv(v := Suc (hv v))) hc d) w"
  shows "run_ok (\<lambda>s'. \<exists>p v. drv_wf {} (hp(p := Suc (hp p))) (hv(v := Suc (hv v))) hc s')
    (\<lambda>r w' s'. case r of Inl e \<Rightarrow> drv_wf {} hp hv hc s' | Inr v \<Rightarrow> drv_wf {} hp (hv(v := Suc (hv v))) hc s')
    (frontend_open stack c mm_id dm w s)"
  by (rule frontend_open_wf [OF assms])

theorem frontend_open_safe_witness:
  "run_ok (\<lambda>s'. \<exists>p v. drv_wf {} (none_held(p := Suc 0)) (none_held(v := Suc 0)) files_ex s')
    (\<lambda>r w' s'. case r of Inl e \<Rightarrow> drv_wf {} none_held none_held files_ex s'
       | Inr v \<Rightarrow> drv_wf {} none_held (none_held(v := Suc 0)) files_ex s')
    (frontend_open request_zero 2 601 2 [Env Some, Tmo] drv_ex)"
proof -
  have "dom_listed d 2 drv_ex" if "find_device 601 drv_ex = Some d" for d
    using find_device_less [OF that] by (simp add: dom_listed_def drv_ex_def dev_ex_def pchan_ex_def)
  from frontend_open_safe [where c = 2 and mm_id = 601 and dm = 2 and stack = request_zero, OF drv_ex_wf _ this env_ok_idle] show ?thesis by (simp add: files_ex_def)
qed

text \<open>
  C13. As long as the requests queued at the device, now and by the other threads meanwhile, carry the
  driver's own major version, the back end's listen loop does not fault, and one pass per wake-up of the
  schedule is enough: the loop repeats a round only after its ten-second wait timed out, so with as many
  rounds as the schedule has events, and one more, it always returns or still sleeps (the model's fuel never
  runs out).  The condition is needed: \<^verbatim>\<open>init_of_other_version_crashes_listener\<close> shows what a request with
  another version does.
\<close>
theorem backend_listen_terminates:
  assumes "drv_wf {} hp hv hc s" "0 < hc c"
    and "\<And>d. find_device mm_id s = Some d \<Longrightarrow> queue_sat version_ok d s"
    and "\<And>d. env_ok (listen_inv version_ok hp hv hc d) w"
    and "\<And>d p v. env_ok (listen_inv version_ok (hp(p := Suc (hp p))) (hv(v := Suc (hv v))) hc d) w"
  shows "run_ok (round_blocked hp hv hc)
    (\<lambda>r w' s'. case r of Inl e \<Rightarrow> drv_wf {} hp hv hc s' | Inr v \<Rightarrow> drv_wf {} hp (hv(v := Suc (hv v))) hc s')
    (backend_listen c mm_id timeout w s)"
  by (rule backend_listen_wf [OF assms])

theorem backend_listen_terminates_witness:
  "run_ok (round_blocked none_held none_held files_ex)
    (\<lambda>r w' s'. case r of Inl e \<Rightarrow> drv_wf {} none_held none_held files_ex s'
       | Inr v \<Rightarrow> drv_wf {} none_held (none_held(v := Suc 0)) files_ex s')
    (backend_listen 2 601 500 [Env Some, Tmo] drv_ex)"
proof -
  have "queue_sat version_ok d drv_ex" if "find_device 601 drv_ex = Some d" for d
    using find_device_less [OF that] by (simp add: queue_sat_def drv_ex_def dev_ex_def)
  from backend_listen_terminates [where c = 2 and mm_id = 601 and timeout = 500, OF drv_ex_wf _ this env_ok_idle env_ok_idle] show ?thesis
    by (simp add: files_ex_def)
qed

section \<open>Shared memory\<close>

text \<open>
  C15. \<^verbatim>\<open>hab_mem_import\<close> never faults, whatever table of regions the exporter sent with the descriptor and
  whatever other threads do while it waits for the acknowledgement: it reads only the table, writes
  only its page array, and the invariant holds afterwards without the reference it took.
\<close>
theorem hab_mem_import_safe:
  assumes "import_inv hp hv hc s" "0 < hc c"
    and "\<And>v. env_ok (import_inv hp (hv(v := Suc (hv v))) hc) w"
  shows "run_ok (\<lambda>s'. \<exists>v. import_inv hp (hv(v := Suc (hv v))) hc s') (\<lambda>_ w' s'. drv_wf {} hp hv hc s')
    (hab_mem_import kv c param kern w s)"
  by (rule hab_mem_import_wf [OF assms])

theorem hab_mem_import_safe_witness:
  "run_ok (\<lambda>s'. \<exists>v. import_inv none_held (none_held(v := Suc 0)) files_ex s')
     (\<lambda>_ w' s'. drv_wf {} none_held none_held files_ex s')
     (hab_mem_import kernel_ex 2 \<lparr>hi_index = 0, hi_kva = 0, hi_vcid = 0x25902001, hi_sizebytes = 8192,
        hi_exportid = 9, hi_flags = 0\<rparr> False [Env Some, Tmo] drv_ex)"
proof -
  have "import_inv none_held none_held files_ex drv_ex" using drv_ex_wf drv_ex_imports by (simp add: import_inv_def)
  from hab_mem_import_safe [OF this _ env_ok_idle] show ?thesis by (simp add: files_ex_def)
qed

text \<open>
  Giving memory back never faults: \<^verbatim>\<open>hab_mem_unimport\<close> and \<^verbatim>\<open>hab_mem_unexport\<close> release the descriptor
  from every list that names it, for any id a client passes.
\<close>
theorem unimport_unexport_safe:
  assumes "drv_wf {} hp hv hc s" "st_ctxs s c = Some cx" "imports_ok s" "\<And>p. exports_ok p s"
  shows "(\<exists>r s'. hab_mem_unimport c ni kern s = Some (r, s') \<and> drv_wf {} hp hv hc s') \<and>
    (\<exists>r s'. hab_mem_unexport c nx s = Some (r, s') \<and> drv_wf {} hp hv hc s')"
  using hab_mem_unimport_wf [OF assms(1-3), of ni kern] hab_mem_unexport_wf [OF assms(1,2,4), of nx]
  unfolding safe_ex by auto

theorem unimport_unexport_safe_witness:
  "(\<exists>r s'. hab_mem_unimport 2 \<lparr>hn_vcid = 0x25902001, hn_exportid = 9, hn_kva = 0\<rparr> False drv_ex = Some (r, s') \<and>
      drv_wf {} none_held none_held files_ex s') \<and>
   (\<exists>r s'. hab_mem_unexport 2 \<lparr>hu_vcid = 0x25902001, hu_exportid = 7\<rparr> drv_ex = Some (r, s') \<and>
      drv_wf {} none_held none_held files_ex s')"
proof (rule unimport_unexport_safe [OF drv_ex_wf drv_ex_ctx drv_ex_imports])
  fix p show "exports_ok p drv_ex"
    using drv_ex_exports by (cases "p = 1") (auto simp: exports_ok_def drv_ex_def)
qed

end
