(* ===== verification/Hab_Faults.thy ===== *)
theory Hab_Faults
  imports Hab_Guarantees
begin

text \<open>
  What the code does where it does not do what it means to: concrete runs of the model, each a defect
  of the driver at the lines its manifest entry names.
\<close>

section \<open>An open request of another version\<close>

abbreviation (input) init_header :: hab_header where
  "init_header \<equiv> open_header (payload_code HAB_PAYLOAD_TYPE_INIT)"

definition init_of_version :: "u32 \<Rightarrow> hab_open_send_data" where
  "init_of_version ver = \<lparr>od_vchan_id = 1, od_sub_id = 0, od_open_id = 5, od_ver_fe = ver, od_ver_be = 0,
     od_ver_proto = 1\<rparr>"

text \<open>An open request that arrives at an idle device is the only one queued there.\<close>

definition dev_with :: "hab_open_request \<Rightarrow> hab_device" where
  "dev_with r = dev_ex\<lparr>dv_openq_list := [\<lparr>on_request = r, on_age = 37000\<rparr>], dv_openq_cnt := 1\<rparr>"

definition drv_queued :: "hab_open_request \<Rightarrow> hab_driver" where
  "drv_queued r = (drv_rx [] [])\<lparr>st_devs := [dev_with r], st_pchans :=
     [1 \<mapsto> pchan_ex\<lparr>pc_hyp_data := HypVhost \<lparr>vh_send_list = [], vh_out_iter = []\<rparr>, pc_refcount := 3\<rparr>]\<rparr>"

lemma open_header_fields:
  assumes "is_open_type ty"
  shows "HAB_HEADER_GET_TYPE (open_header ty) = ty" "HAB_HEADER_GET_SIZE (open_header ty) = 24"
proof -
  have "ty AND 0xFF = ty" using assms by (auto simp: is_open_type_def)
  then show "HAB_HEADER_GET_TYPE (open_header ty) = ty" "HAB_HEADER_GET_SIZE (open_header ty) = 24"
    by (simp_all add: open_header_def)
qed

lemmas open_run_defs = drv_rx_def drv_ex_def pchan_ex_def dev_ex_def kalloc_def physical_channel_read_def
  vhost_read_def set_hyp_def mod_eqs(1) openq_add_def hab_pchan_get_def mod_dev_def get_dev_def
  open_codec.enc_length into_zeroed_def open_codec.dec_enc_exact drv_queued_def dev_with_def open_age_def

lemma open_request_arrives:
  assumes "is_open_type ty" "ty \<noteq> payload_code HAB_PAYLOAD_TYPE_INIT_CANCEL"
  shows "hab_msg_recv 1 (open_header ty) (drv_rx (enc_open_data d) []) =
    Some (0, drv_queued \<lparr>rq_type = ty, rq_pchan = Some 1, rq_xdata = d\<rparr>)"
  using open_header_fields [OF assms(1)] assms
  by (simp add: hab_msg_recv_def hab_open_request_add_def open_run_defs Let_def)

lemma open_cancel_arrives:
  "hab_msg_recv 1 (open_header (payload_code HAB_PAYLOAD_TYPE_INIT_CANCEL)) (drv_rx (enc_open_data d) []) =
    Some (0, drv_queued \<lparr>rq_type = payload_code HAB_PAYLOAD_TYPE_INIT_CANCEL, rq_pchan = Some 1,
      rq_xdata = d\<lparr>od_ver_proto := 0\<rparr>\<rparr>)"
proof -
  have "is_open_type (payload_code HAB_PAYLOAD_TYPE_INIT_CANCEL)" by (simp add: is_open_type_def)
  with open_header_fields [OF this] show ?thesis
    by (simp add: hab_msg_recv_def hab_open_receive_cancel_def open_run_defs Let_def)
qed

text \<open>What a search of that queue sees.\<close>

lemma drv_queued_fields:
  "st_devs (drv_queued r) = [dev_with r]" "st_ctxs (drv_queued r) 2 = Some ctx_ex"
  "st_pchans (drv_queued r) 1 \<noteq> None" "\<And>pc. st_pchans (drv_queued r) 1 = Some pc \<Longrightarrow> \<not> pc_closed pc"
  by (auto simp: drv_queued_def drv_rx_def drv_ex_def pchan_ex_def)

lemma find_queued:
  assumes "open_match listen r" "rq_pchan listen = None \<or> rq_pchan listen = Some 1"
  shows "hab_open_request_find 2 0 listen (drv_queued r) =
    Some (Some (Some r), (drv_queued r)\<lparr>st_devs := [(dev_with r)\<lparr>dv_openq_list := [], dv_openq_cnt := 0\<rparr>]\<rparr>)"
proof -
  obtain pc where pc: "st_pchans (drv_queued r) 1 = Some pc" "\<not> pc_closed pc"
    using drv_queued_fields(3,4) by blast
  have q: "dv_openq_list (dev_with r) = [\<lparr>on_request = r, on_age = 37000\<rparr>]" "dv_openq_cnt (dev_with r) = 1"
    by (simp_all add: dev_with_def)
  let ?s = "(drv_queued r)\<lparr>st_devs := [(dev_with r)\<lparr>dv_openq_list := [], dv_openq_cnt := 0\<rparr>]\<rparr>"
  have loop: "open_find_loop 0 listen [] (dv_openq_list (dev_with r)) (drv_queued r) = Some (Some r, ?s)"
    by (simp add: q assms(1) mod_dev_def drv_queued_fields(1))
  have "\<exists>b. hab_is_forbidden 2 (Some 0) i ?s = Some b" for i
    by (simp add: hab_is_forbidden_def drv_queued_fields(2) get_dev_def)
  then obtain b where f: "hab_is_forbidden 2 (Some 0) (od_sub_id (rq_xdata listen)) ?s = Some b" by blast
  have "get_dev 0 (drv_queued r) = Some (dev_with r)" by (simp add: get_dev_def drv_queued_fields(1))
  moreover have "\<not> cx_closing ctx_ex" by (simp add: ctx_ex_def)
  moreover have "(case rq_pchan listen of None \<Rightarrow> Some False
      | Some p \<Rightarrow> do { pc \<leftarrow> st_pchans (drv_queued r) p; Some (pc_closed pc) }) = Some False"
    using assms(2) pc by auto
  ultimately show ?thesis
    using loop f by (simp add: hab_open_request_find_def drv_queued_fields(2) del: bind_eq_Some get_dev_Some)
qed

text \<open>
  C31. A front end can crash the driver of a listening back end: one INIT whose major version differs is
  queued like any other, and \<^verbatim>\<open>backend_listen\<close>, which means to answer it, sends the answer on a request
  whose channel is NULL, for every such version, timeout and schedule.
\<close>
theorem init_of_other_version_crashes_listener:
  assumes "major_version ver \<noteq> major_version HAB_API_VER"
  shows "\<exists>s1. hab_msg_recv 1 init_header (drv_rx (enc_open_data (init_of_version ver)) []) = Some (0, s1) \<and>
    backend_listen 2 601 timeout w s1 = None"
proof -
  define r where "r = \<lparr>rq_type = payload_code HAB_PAYLOAD_TYPE_INIT, rq_pchan = Some 1,
    rq_xdata = init_of_version ver\<rparr>"
  define l where "l = hab_open_request_init (payload_code HAB_PAYLOAD_TYPE_INIT) None 0 0 0 request_zero"
  define s where "s = (drv_queued r)\<lparr>st_devs := [(dev_with r)\<lparr>dv_openq_list := [], dv_openq_cnt := 0\<rparr>]\<rparr>"
  have init: "is_open_type (payload_code HAB_PAYLOAD_TYPE_INIT)" by (simp add: is_open_type_def)
  have dev: "find_device 601 (drv_queued r) = Some 0" "HAB_MMID_GET_MINOR 601 = 0"
    by (simp_all add: find_device_def drv_queued_fields dev_with_def dev_ex_def HAB_MMID_GET_MAJOR_def
        HAB_MMID_GET_MINOR_def)
  have "open_match l r" by (simp add: open_match_def hab_open_request_init_def init_of_version_def l_def r_def)
  then have find: "hab_open_request_find 2 0 l (drv_queued r) = Some (Some (Some r), s)"
    unfolding s_def by (rule find_queued) (simp add: l_def)
  have "hab_is_forbidden 2 (Some 0) (od_sub_id (rq_xdata l)) s = Some False" "\<not> cx_closing ctx_ex"
    "st_ctxs s 2 = Some ctx_ex"
    by (simp_all add: hab_is_forbidden_def s_def drv_queued_fields get_dev_def ctx_ex_def)
  then have "hab_open_listen 2 0 l timeout w (drv_queued r) = Some (Done (0, Some r) w s)"
    by (simp add: hab_open_listen_def wait_event_def find listen_ret_timeout_def listen_ret_forever_def wait_request_def)
  moreover have "backend_mismatch 0 l r w s = None"
    by (simp add: backend_mismatch_def hab_open_request_send_def)
  moreover have "od_ver_fe (rq_xdata r) = ver" by (simp add: r_def init_of_version_def)
  ultimately have "backend_round 2 0 0 timeout request_zero w (drv_queued r) = None"
    using assms unfolding backend_round_def Let_def l_def [symmetric] by simp
  then have "backend_listen 2 601 timeout w (drv_queued r) = None"
    unfolding backend_listen_def dev by simp
  then show ?thesis using open_request_arrives [OF init, of "init_of_version ver"] by (simp add: r_def)
qed

theorem init_of_other_version_crashes_listener_witness:
  "\<exists>s1. hab_msg_recv 1 init_header (drv_rx (enc_open_data (init_of_version 0)) []) = Some (0, s1) \<and>
     backend_listen 2 601 0 [] s1 = None"
proof -
  have "major_version 0 \<noteq> major_version HAB_API_VER" by code_simp
  from init_of_other_version_crashes_listener [OF this] show ?thesis .
qed

section \<open>A cancel taken for an answer\<close>

text \<open>
  A cancel for the open \<open>open_id\<close> of minor number \<open>sub_id\<close> waits at device \<open>d\<close>, before any other request of this
  open and after requests that are not expired.
\<close>

definition cancel_waits :: "nat \<Rightarrow> nat \<Rightarrow> u32 \<Rightarrow> u32 \<Rightarrow> hab_open_send_data \<Rightarrow> hab_driver \<Rightarrow> bool" where
  "cancel_waits d p sub_id open_id data s \<longleftrightarrow> d < length (st_devs s) \<and> od_sub_id data = sub_id \<and> od_open_id data = open_id \<and>
     (\<exists>as n bs. dv_openq_list (st_devs s ! d) = as @ n # bs \<and>
        on_request n = \<lparr>rq_type = payload_code HAB_PAYLOAD_TYPE_INIT_CANCEL, rq_pchan = Some p, rq_xdata = data\<rparr> \<and>
        (\<forall>m \<in> set as. st_now s + st_now_ns s div 1000000000 \<le> on_age m \<and>
           (rq_pchan (on_request m) \<noteq> Some p \<or> od_sub_id (rq_xdata (on_request m)) \<noteq> sub_id \<or>
            open_id \<noteq> 0 \<and> od_open_id (rq_xdata (on_request m)) \<noteq> open_id)))"

lemma open_find_skips:
  assumes "\<forall>m \<in> set as. st_now s + st_now_ns s div 1000000000 \<le> on_age m \<and> \<not> open_match listen (on_request m)"
    and "open_match listen (on_request n)"
  shows "open_find_loop d listen kept (as @ n # bs) s = do {
    s1 \<leftarrow> mod_dev d (\<lambda>dv. dv\<lparr>dv_openq_list := kept @ as @ bs, dv_openq_cnt := dv_openq_cnt dv - 1\<rparr>) s;
    Some (Some (on_request n), s1) }"
  using assms by (induction as arbitrary: kept) (auto simp: not_less)

text \<open>What the handshake needs of its state: a vhost channel that is open, a live context that may open it, memory.\<close>

definition handshake_ready :: "nat \<Rightarrow> nat \<Rightarrow> nat \<Rightarrow> nat \<Rightarrow> u32 \<Rightarrow> hab_driver \<Rightarrow> bool" where
  "handshake_ready c d p v sub_id s \<longleftrightarrow> st_vchans s v \<noteq> None \<and>
     (\<exists>pc vh. st_pchans s p = Some pc \<and> pc_hyp_data pc = HypVhost vh \<and> \<not> pc_closed pc \<and> \<not> pc_otherend_closed pc \<and>
        2 < pc_refcount pc) \<and>
     (\<exists>cx. st_ctxs s c = Some cx \<and> \<not> cx_closing cx) \<and> hab_is_forbidden c (Some d) sub_id s = Some False \<and> st_mem s = []"

lemma open_sends:
  assumes "st_pchans s p = Some pc" "pc_hyp_data pc = HypVhost vh" "\<not> pc_otherend_closed pc" "st_mem s = []"
    and "rq_pchan r = Some p" "is_open_type (rq_type r)"
  shows "hab_open_request_send r s = Some (0, s\<lparr>st_pchans := (st_pchans s)(p \<mapsto> pc\<lparr>pc_hyp_data := HypVhost
    (vh\<lparr>vh_send_list := vh_send_list vh @ [(open_header (rq_type r), enc_open_data (rq_xdata r))]\<rparr>)\<rparr>)\<rparr>)"
  using assms open_header_fields [OF assms(6)]
  by (simp add: hab_open_request_send_def physical_channel_send_def vhost_send_def kalloc_def payload_bytes_def
      open_codec.enc_length set_hyp_def mod_eqs(1) Let_def)

lemma cancel_listen:
  assumes wait: "cancel_waits d p (od_sub_id (rq_xdata l)) (od_open_id (rq_xdata l)) data s"
    and l: "rq_pchan l = Some p" and ready: "handshake_ready c d p v (od_sub_id (rq_xdata l)) s"
  shows "\<exists>D. hab_open_listen c d l 0 w s = Some (Done (0, Some \<lparr>rq_type = payload_code HAB_PAYLOAD_TYPE_INIT_CANCEL,
    rq_pchan = Some p, rq_xdata = data\<rparr>) w (s\<lparr>st_devs := D\<rparr>))"
proof -
  from wait obtain as n bs where d: "d < length (st_devs s)" "od_sub_id data = od_sub_id (rq_xdata l)"
    "od_open_id data = od_open_id (rq_xdata l)"
    and q: "dv_openq_list (st_devs s ! d) = as @ n # bs"
      "on_request n = \<lparr>rq_type = payload_code HAB_PAYLOAD_TYPE_INIT_CANCEL, rq_pchan = Some p, rq_xdata = data\<rparr>"
    and as: "\<forall>m \<in> set as. st_now s + st_now_ns s div 1000000000 \<le> on_age m \<and> \<not> open_match l (on_request m)"
    using l by (auto simp: cancel_waits_def open_match_def)
  have "open_match l (on_request n)" using q(2) d(2,3) l by (simp add: open_match_def)
  note loop = open_find_skips [OF as this, of d "[]" bs]
  define D where "D = (st_devs s)[d := (st_devs s ! d)\<lparr>dv_openq_list := as @ bs, dv_openq_cnt := dv_openq_cnt (st_devs s ! d) - 1\<rparr>]"
  from ready obtain pc cx where p: "st_pchans s p = Some pc" "\<not> pc_closed pc" "st_ctxs s c = Some cx" "\<not> cx_closing cx"
    and f: "hab_is_forbidden c (Some d) (od_sub_id (rq_xdata l)) s = Some False"
    unfolding handshake_ready_def by blast
  have f': "hab_is_forbidden c (Some d) (od_sub_id (rq_xdata l)) (s\<lparr>st_devs := D\<rparr>) = Some False"
    using f d(1) by (simp add: hab_is_forbidden_def get_dev_def D_def)
  have "hab_open_request_find c d l s = Some (Some (Some (on_request n)), s\<lparr>st_devs := D\<rparr>)"
    using p l d(1) q(1) loop f' by (simp add: hab_open_request_find_def get_dev_def mod_dev_def D_def)
  then have "hab_open_listen c d l 0 w s = Some (Done (0, Some (on_request n)) w (s\<lparr>st_devs := D\<rparr>))"
    using p(3,4) f' by (simp add: hab_open_listen_def wait_event_def listen_ret_forever_def wait_request_def)
  then show ?thesis by (auto simp: q(2))
qed

lemma paired_succeeds:
  assumes v: "st_vchans s v = Some vc" and p: "st_pchans s p = Some pc" "pc_hyp_data pc = HypVhost vh" "\<not> pc_otherend_closed pc"
    "2 < pc_refcount pc" and c: "st_ctxs s c = Some cx" and mem: "st_mem s = []" and a: "rq_pchan a = Some p"
  shows "\<exists>s'. frontend_paired c p v sub_id open_id l request a w s = Some (Done (Inr v) w s') \<and>
    st_vchans s' v = Some (vc\<lparr>vc_otherend_id := od_vchan_id (rq_xdata a)\<rparr>)"
proof -
  let ?r = "set_ver_fe HAB_API_VER (hab_open_request_init (payload_code HAB_PAYLOAD_TYPE_INIT_DONE) (Some p) 0 sub_id open_id request)"
  have r: "rq_pchan ?r = Some p" "is_open_type (rq_type ?r)" "rq_type ?r = payload_code HAB_PAYLOAD_TYPE_INIT_DONE"
    by (simp_all add: set_ver_fe_def hab_open_request_init_def is_open_type_def)
  obtain C k where e: "hab_open_pending_exit c l s = Some (k, s\<lparr>st_ctxs := C\<rparr>)"
    using c by (simp add: hab_open_pending_exit_def mod_ctx_def)
  let ?vc = "vc\<lparr>vc_otherend_id := od_vchan_id (rq_xdata a)\<rparr>"
  let ?pc = "pc\<lparr>pc_mem_proto := (if od_ver_proto (rq_xdata a) = 0 then 0 else 1), pc_refcount := pc_refcount pc - 1\<rparr>"
  define s4 where "s4 = s\<lparr>st_ctxs := C, st_pchans := (st_pchans s)(p \<mapsto> ?pc), st_vchans := (st_vchans s)(v \<mapsto> ?vc)\<rparr>"
  define s2 where "s2 = s\<lparr>st_ctxs := C, st_pchans := (st_pchans s)(p \<mapsto>
    pc\<lparr>pc_mem_proto := (if od_ver_proto (rq_xdata a) = 0 then 0 else 1)\<rparr>)\<rparr>"
  define s3 where "s3 = s2\<lparr>st_vchans := (st_vchans s)(v \<mapsto> ?vc)\<rparr>"
  have run4: "set_mem_proto p (od_ver_proto (rq_xdata a)) (s\<lparr>st_ctxs := C\<rparr>) = Some s2"
    "mod_vchan v (\<lambda>vc. vc\<lparr>vc_otherend_id := od_vchan_id (rq_xdata a)\<rparr>) s2 = Some s3"
    "hab_open_request_free a s3 = Some s4"
    using p v a by (simp_all add: set_mem_proto_def mod_pchan_def mod_vchan_def hab_open_request_free_def hab_pchan_put_def
        s2_def s3_def s4_def)
  have s4: "st_pchans s4 p = Some ?pc" "pc_hyp_data ?pc = HypVhost vh" "\<not> pc_otherend_closed ?pc" "st_mem s4 = []"
    "st_vchans s4 v = Some ?vc" using p mem by (simp_all add: s4_def)
  from open_sends [OF s4(1-4) r(1,2)] obtain pc5 s5 where s5: "hab_open_request_send ?r s4 = Some (0, s5)"
    "st_pchans s5 p = Some pc5" "1 < pc_refcount pc5" "st_vchans s5 v = Some ?vc" using s4(5) p(4) by auto
  have "hab_pchan_put p s5 = Some (s5\<lparr>st_pchans := (st_pchans s5)(p \<mapsto> pc5\<lparr>pc_refcount := pc_refcount pc5 - 1\<rparr>)\<rparr>)"
    using s5(2,3) by (simp add: hab_pchan_put_def mod_pchan_def)
  then have "frontend_paired c p v sub_id open_id l request a w s =
      Some (Done (Inr v) w (s5\<lparr>st_pchans := (st_pchans s5)(p \<mapsto> pc5\<lparr>pc_refcount := pc_refcount pc5 - 1\<rparr>)\<rparr>))"
    unfolding frontend_paired_def e run4 bind.bind_lunit prod.case s5(1) by simp
  then show ?thesis using s5(4) by (intro exI conjI) (assumption, simp)
qed

text \<open>
  C32. The front end takes a cancel for an answer.  Let \<^verbatim>\<open>frontend_open\<close> have found its channel and made its
  virtual channel, and let a cancel of the other side that names this open wait at the device, with the
  major versions it carries equal.  Then, for every such cancel and every schedule, the wait for INIT-ACK returns the cancel
  at once, and the open succeeds: the virtual channel it returns is connected to the id the cancel carried,
  although the other side has withdrawn.  (A vhost channel, memory for the two messages, and no earlier
  request of the same open in the queue.)
\<close>
theorem frontend_accepts_cancel:
  assumes dev: "find_device mm_id s = Some d" and p: "hab_pchan_find_domid d dom_id s = Some (Some p, s1)"
    and v: "hab_vchan_alloc c p (st_open_id s1 + 1) (s1\<lparr>st_open_id := st_open_id s1 + 1\<rparr>) = Some (Some v, s2)"
    and ready: "handshake_ready c d p v (HAB_MMID_GET_MINOR mm_id) s2"
    and wait: "cancel_waits d p (HAB_MMID_GET_MINOR mm_id) (st_open_id s1 + 1) data s2"
    and ver: "major_version (od_ver_fe data) = major_version (od_ver_be data)"
  shows "\<exists>s' vc. frontend_open stack c mm_id dom_id w s = Some (Done (Inr v) w s') \<and>
    st_vchans s' v = Some vc \<and> vc_otherend_id vc = od_vchan_id data"
proof -
  let ?sub = "HAB_MMID_GET_MINOR mm_id" and ?open = "st_open_id s1 + 1"
  from ready obtain vc pc vh cx where s2: "st_vchans s2 v = Some vc" "st_pchans s2 p = Some pc" "pc_hyp_data pc = HypVhost vh"
    "\<not> pc_otherend_closed pc" "2 < pc_refcount pc" "st_ctxs s2 c = Some cx" "st_mem s2 = []"
    unfolding handshake_ready_def by blast
  define r where "r = set_ver_fe HAB_API_VER (hab_open_request_init (payload_code HAB_PAYLOAD_TYPE_INIT) (Some p) (vc_id vc) ?sub ?open stack)"
  define l where "l = hab_open_request_init (payload_code HAB_PAYLOAD_TYPE_INIT_ACK) (Some p) 0 ?sub ?open r"
  have r: "rq_pchan r = Some p" "is_open_type (rq_type r)"
    by (simp_all add: r_def set_ver_fe_def hab_open_request_init_def is_open_type_def)
  have l: "rq_pchan l = Some p" "od_sub_id (rq_xdata l) = ?sub" "od_open_id (rq_xdata l) = ?open"
    by (simp_all add: l_def hab_open_request_init_def)
  obtain pc3 vh3 s3 where s3: "hab_open_request_send r s2 = Some (0, s3)" "s3 = s2\<lparr>st_pchans := (st_pchans s2)(p \<mapsto> pc3)\<rparr>"
    "pc3 = pc\<lparr>pc_hyp_data := HypVhost vh3\<rparr>" using open_sends [OF s2(2-4,7) r] by blast
  define cx4 where "cx4 = cx\<lparr>cx_pending_open := cx_pending_open cx @ [r], cx_pending_cnt := cx_pending_cnt cx + 1\<rparr>"
  define s4 where "s4 = s3\<lparr>st_ctxs := (st_ctxs s3)(c \<mapsto> cx4)\<rparr>"
  have pend: "hab_open_pending_enter c r s3 = Some s4"
    using s2(6) s3(2) by (simp add: hab_open_pending_enter_def mod_ctx_def s4_def cx4_def)
  have "handshake_ready c d p v ?sub s4"
    using ready s2 s3(2,3) by (auto simp: handshake_ready_def s4_def cx4_def hab_is_forbidden_def get_dev_def split: if_splits)
  moreover have "cancel_waits d p ?sub ?open data s4" using wait s3(2) by (simp add: cancel_waits_def s4_def)
  ultimately obtain D where listen: "hab_open_listen c d l 0 w s4 = Some (Done (0, Some \<lparr>rq_type = payload_code
      HAB_PAYLOAD_TYPE_INIT_CANCEL, rq_pchan = Some p, rq_xdata = data\<rparr>) w (s4\<lparr>st_devs := D\<rparr>))"
    using cancel_listen [of d p l data s4 c v w] l by auto
  let ?a = "\<lparr>rq_type = payload_code HAB_PAYLOAD_TYPE_INIT_CANCEL, rq_pchan = Some p, rq_xdata = data\<rparr>"
  have s5: "st_vchans (s4\<lparr>st_devs := D\<rparr>) v = Some vc" "st_pchans (s4\<lparr>st_devs := D\<rparr>) p = Some pc3" "pc_hyp_data pc3 = HypVhost vh3"
    "\<not> pc_otherend_closed pc3" "2 < pc_refcount pc3" "st_ctxs (s4\<lparr>st_devs := D\<rparr>) c = Some cx4" "st_mem (s4\<lparr>st_devs := D\<rparr>) = []"
    using s2 s3(2,3) by (simp_all add: s4_def)
  obtain s' where paired: "frontend_paired c p v ?sub ?open r l ?a w (s4\<lparr>st_devs := D\<rparr>) = Some (Done (Inr v) w s')"
    "st_vchans s' v = Some (vc\<lparr>vc_otherend_id := od_vchan_id data\<rparr>)"
    using paired_succeeds [OF s5, of ?a ?sub ?open r l w] by auto
  have "frontend_handshake c d p v ?sub ?open stack w s2 = Some (Done (Inr v) w s')"
    unfolding frontend_handshake_def s2(1) bind.bind_lunit Let_def r_def [symmetric] s3(1) prod.case pend l_def [symmetric] listen
    using paired(1) ver by (simp add: frontend_finish_def run_bind_Done)
  with dev p v paired(2) show ?thesis by (simp add: frontend_open_def Let_def)
qed

text \<open>A cancel that arrives at the idle device of the example, and the open that follows.\<close>

definition cancel_of_open :: hab_open_send_data where
  "cancel_of_open = \<lparr>od_vchan_id = 0x4242, od_sub_id = 0, od_open_id = 2, od_ver_fe = HAB_API_VER, od_ver_be = HAB_API_VER,
     od_ver_proto = 0\<rparr>"

theorem frontend_accepts_cancel_witness:
  "\<exists>s1 s' vc. hab_msg_recv 1 (open_header (payload_code HAB_PAYLOAD_TYPE_INIT_CANCEL))
       (drv_rx (enc_open_data cancel_of_open) []) = Some (0, s1) \<and>
     frontend_open request_zero 2 601 2 [] s1 = Some (Done (Inr 10) [] s') \<and>
     st_vchans s' 10 = Some vc \<and> vc_otherend_id vc = 0x4242"
proof -
  define s where "s = drv_queued \<lparr>rq_type = payload_code HAB_PAYLOAD_TYPE_INIT_CANCEL, rq_pchan = Some 1,
    rq_xdata = cancel_of_open\<lparr>od_ver_proto := 0\<rparr>\<rparr>"
  have arrives: "hab_msg_recv 1 (open_header (payload_code HAB_PAYLOAD_TYPE_INIT_CANCEL))
       (drv_rx (enc_open_data cancel_of_open) []) = Some (0, s)"
    unfolding s_def by (rule open_cancel_arrives)
  let ?data = "cancel_of_open\<lparr>od_ver_proto := 0\<rparr>"
  have dev: "find_device 601 s = Some 0" "HAB_MMID_GET_MINOR 601 = 0" "st_open_id s = 1"
    by (simp_all add: s_def find_device_def drv_queued_fields dev_with_def dev_ex_def HAB_MMID_GET_MAJOR_def HAB_MMID_GET_MINOR_def)
       (simp add: drv_queued_def drv_rx_def drv_ex_def)
  obtain s1 where p: "hab_pchan_find_domid 0 2 s = Some (Some 1, s1)" "st_open_id s1 = 1"
    and s1: "s1 = s\<lparr>st_pchans := [1 \<mapsto> pchan_ex\<lparr>pc_hyp_data := HypVhost \<lparr>vh_send_list = [], vh_out_iter = []\<rparr>, pc_refcount := 4\<rparr>]\<rparr>"
    using dev(3) by (simp add: s_def hab_pchan_find_domid_def get_dev_def drv_queued_def drv_rx_def dev_with_def dev_ex_def
        pchan_ex_def hab_pchan_get_def mod_pchan_def)
  have idr: "idr_alloc [(1, 3)] 10 1 4096 = Some (2, [(2, 10), (1, 3)])"
    by (simp add: idr_alloc_def idr_free_def upt_rec)
  obtain s2 where v: "hab_vchan_alloc 2 1 2 (s1\<lparr>st_open_id := 2\<rparr>) = Some (Some 10, s2)"
    and s2: "handshake_ready 2 0 1 10 0 s2" "cancel_waits 0 1 0 2 ?data s2"
  proof -
    let ?s = "s1\<lparr>st_open_id := 2\<rparr>"
    have "\<exists>s2. hab_vchan_alloc 2 1 2 ?s = Some (Some 10, s2) \<and> handshake_ready 2 0 1 10 0 s2 \<and> st_devs s2 = st_devs s"
      using idr by (simp add: hab_vchan_alloc_def kalloc_def s1 s_def drv_queued_def drv_rx_def drv_ex_def pchan_ex_def get_dev_def
          dev_with_def dev_ex_def mod_pchan_def hab_ctx_get_def mod_ctx_def ctx_ex_def Let_def handshake_ready_def hab_is_forbidden_def)
    then obtain s2 where a: "hab_vchan_alloc 2 1 2 ?s = Some (Some 10, s2)" "handshake_ready 2 0 1 10 0 s2" "st_devs s2 = st_devs s"
      by blast
    have "cancel_waits 0 1 0 2 ?data s2"
      unfolding cancel_waits_def a(3)
      by (simp add: s_def drv_queued_fields dev_with_def cancel_of_open_def) (rule exI [of _ "[]"], simp)
    with a(1,2) show thesis by (rule that)
  qed
  have "major_version (od_ver_fe ?data) = major_version (od_ver_be ?data)" by (simp add: cancel_of_open_def)
  from frontend_accepts_cancel [OF dev(1) p(1) _ _ _ this, of 2 10 s2 request_zero "[]"] p(2) v s2 dev(2) arrives
  show ?thesis by (simp add: cancel_of_open_def)
qed

section \<open>A reference that is not given back\<close>

text \<open>
  A profiling message with too small a buffer leaks the channel: \<^verbatim>\<open>hab_vchan_send\<close> returns -EINVAL
  after it took its reference and before it gives it back, so that the count of the channel stays one
  too high and closing the channel never frees it.
\<close>
theorem small_profile_send_leaks:
  assumes wf: "drv_wf {} hp hv hc s" and c: "st_ctxs s c = Some cx" and fl: "has_flag flags 2" "n < 32"
    and run: "hab_vchan_send c vcid n data flags w s = Some (Done r w' s')"
  shows "(r = - ENODEV \<and> s' = s) \<or>
    (r = - EINVAL \<and> (\<exists>v vc. v \<in> set (cx_vchannels cx) \<and> st_vchans s v = Some vc \<and> vc_id vc = vcid \<and>
       s' = s\<lparr>st_vchans := (st_vchans s)(v \<mapsto> vc\<lparr>vc_refcount := vc_refcount vc + 1\<rparr>)\<rparr>))"
  using wf c
proof (cases rule: fromvcid_cases [where vcid = vcid and ign = False])
  case none
  with run fl show ?thesis by (simp add: hab_vchan_send_def)
next
  case (found v vc)
  have "send_type flags n = None" using fl by (simp add: send_type_def)
  with run found fl(2) have "r = - EINVAL" "s' = with_ref v vc s" by (simp_all add: hab_vchan_send_def)
  with found show ?thesis by blast
qed

theorem small_profile_send_leaks_witness:
  "\<exists>s'. hab_vchan_send 2 0x25902001 8 (Some [1, 2, 3, 4, 5, 6, 7, 8]) 2 [] drv_ex = Some (Done (- EINVAL) [] s') \<and>
     map_option vc_refcount (st_vchans s' 3) = Some 2"
proof -
  have "done_with (hab_vchan_send 2 0x25902001 8 (Some [1, 2, 3, 4, 5, 6, 7, 8]) 2 [] drv_ex) (\<lambda>r w s. r = - EINVAL \<and> w = [])"
    by (simp add: done_with_def hab_vchan_send_def hab_get_vchan_fromvcid_def vchan_get_unless_zero_def
        drv_ex_def ctx_ex_def vchan_ex_fields mod_eqs(2) send_type_def has_flag_def)
  then obtain s' where run: "hab_vchan_send 2 0x25902001 8 (Some [1, 2, 3, 4, 5, 6, 7, 8]) 2 [] drv_ex = Some (Done (- EINVAL) [] s')"
    by (auto elim: done_withE)
  have "has_flag 2 2" by (simp add: has_flag_def)
  from small_profile_send_leaks [OF drv_ex_wf drv_ex_ctx this _ run] have "map_option vc_refcount (st_vchans s' 3) = Some 2"
    by (auto simp: ctx_ex_def drv_ex_def vchan_ex_def)
  with run show ?thesis by blast
qed

section \<open>A time stamp over page pointers\<close>

lemma kallocs_fine: "st_mem s = [] \<Longrightarrow> kallocs n s = (True, s)"
  by (induction n) (simp_all add: kalloc_def)

lemma read_pages_vhost:
  assumes "st_pchans s p = Some pc" "pc_hyp_data pc = HypVhost vh"
  shows "\<exists>t ps s'. read_pages p ns s = Some (t, ps, s') \<and> length ps = length ns \<and> st_pchans s' p \<noteq> None"
  using assms
proof (induction ns arbitrary: s pc vh)
  case (Cons n ns)
  let ?pc = "pc\<lparr>pc_hyp_data := HypVhost (vh\<lparr>vh_out_iter := drop n (vh_out_iter vh)\<rparr>)\<rparr>"
  have "st_pchans (s\<lparr>st_pchans := (st_pchans s)(p \<mapsto> ?pc)\<rparr>) p = Some ?pc" by simp
  from Cons.IH [OF this] Cons.prems show ?case
    by (auto simp: physical_channel_read_def vhost_read_def set_hyp_def mod_eqs(1))
qed simp

lemma page_sizes_three: "n \<le> 3 * 4096 \<Longrightarrow> length (page_sizes n) \<le> 3"
proof -
  assume n: "n \<le> 3 * 4096"
  then have "n div 4096 \<le> 3" by simp
  moreover have "n div 4096 \<le> 2" if "n mod 4096 \<noteq> 0"
  proof -
    have "n < 3 * 4096" using n that by (cases "n = 3 * 4096") auto
    then show ?thesis by simp
  qed
  ultimately show ?thesis by (auto simp: page_sizes_def)
qed

text \<open>
  A profiling message larger than a page makes the receiver write outside its memory.  When the
  one-piece buffer cannot be allocated the message is stored as a table of page pointers, and the
  code writes its time stamps at bytes 16 and 24 of that table: for up to three pages of payload that
  is outside the allocation (and for more it replaces page pointers).
\<close>
theorem profile_message_overruns_page_table:
  assumes adr: "addressed s p h v vc" and ty: "HAB_HEADER_GET_TYPE h = payload_code HAB_PAYLOAD_TYPE_PROFILE"
    and pc: "st_pchans s p = Some pc" "pc_hyp_data pc = HypVhost vh" and mem: "st_mem s = [True]"
    and n: "unat (HAB_HEADER_GET_SIZE h) = n" "4096 < n" "n \<le> 3 * 4096"
  shows "hab_msg_recv p h s = None"
proof -
  let ?s1 = "with_ref v vc s" and ?s2 = "(with_ref v vc s)\<lparr>st_mem := []\<rparr>"
  have len: "length (page_sizes n) \<le> 3" by (rule page_sizes_three [OF n(3)])
  from read_pages_vhost [of ?s2 p pc vh "page_sizes n"] pc obtain t ps s3 where
    r: "read_pages p (page_sizes n) ?s2 = Some (t, ps, s3)" "length ps = length (page_sizes n)" "st_pchans s3 p \<noteq> None"
    by auto
  have k: "kallocs (1 + length (page_sizes n)) ?s2 = (True, ?s2)" by (rule kallocs_fine) simp
  have "kalloc ?s1 = (False, ?s2)" using mem by (simp add: kalloc_def)
  with n r k have alloc: "\<exists>m s4. hab_msg_alloc p n ?s1 = Some (Some m, s4) \<and> ms_body m = Scatter ps"
    by (auto simp: hab_msg_alloc_def hab_scatter_msg_alloc_def)
  have "recv_profile p v n ?s1 = None"
    using alloc n len r(2) by (auto simp: recv_profile_def stamp_message_def)
  then have "recv_vchan_msg p v (HAB_HEADER_GET_TYPE h) n ?s1 = None"
    unfolding recv_vchan_msg_def ty payload_of_code_inverse by simp
  moreover have "\<not> is_open_type (HAB_HEADER_GET_TYPE h)" by (simp add: ty is_open_type_def)
  moreover have "\<not> vc_otherend_closed vc" using adr by (simp add: addressed_def)
  ultimately show ?thesis
    using addressed_get [OF adr] n(1) by (simp add: hab_msg_recv_def Let_def)
qed

theorem profile_message_overruns_page_table_witness:
  "hab_msg_recv 1 (send_header vchan_ex HAB_PAYLOAD_TYPE_PROFILE 5000) ((drv_rx [] [])\<lparr>st_mem := [True]\<rparr>) = None"
proof (rule profile_message_overruns_page_table [where n = 5000])
  have "HAB_VCID_GET_ID (HAB_VCID_GET_ID 0x25900001) = 1" by code_simp
  then show "addressed ((drv_rx [] [])\<lparr>st_mem := [True]\<rparr>) 1 (send_header vchan_ex HAB_PAYLOAD_TYPE_PROFILE 5000) 3
      (vchan_ex\<lparr>vc_rx_list := []\<rparr>)"
    by (simp add: addressed_def drv_rx_def send_header_def pchan_ex_def vchan_ex_def idr_find_def)
  show "st_pchans ((drv_rx [] [])\<lparr>st_mem := [True]\<rparr>) 1 =
      Some (pchan_ex\<lparr>pc_hyp_data := HypVhost \<lparr>vh_send_list = [], vh_out_iter = []\<rparr>\<rparr>)"
    by (simp add: drv_rx_def)
qed (simp_all)

section \<open>A device without a channel\<close>

text \<open>
  Opening a device that has no physical channel crashes: \<^verbatim>\<open>hab_pchan_find_domid\<close> ends its loop on
  the list head, and with the domain \<^verbatim>\<open>HABCFG_VMID_DONT_CARE\<close> it takes a reference to the "channel"
  around that head.
\<close>
theorem open_without_channel_crashes:
  assumes "\<not> st_loopback s" "find_device mmid s = Some d" "dv_pchannels (st_devs s ! d) = []"
    and "hab_is_forbidden c (Some d) (HAB_MMID_GET_MINOR mmid) s = Some False"
  shows "hab_vchan_open stack c mmid timeout w s = None"
  using assms find_device_less [OF assms(2)]
  by (simp add: hab_vchan_open_def vchan_connect_def hab_pchan_find_domid_def get_dev_def run_bind_def)

theorem open_without_channel_crashes_witness:
  "hab_vchan_open request_zero 2 601 0 [] (drv_ex\<lparr>st_devs := [dev_ex\<lparr>dv_pchannels := []\<rparr>]\<rparr>) = None"
proof (rule open_without_channel_crashes)
  show "find_device 601 (drv_ex\<lparr>st_devs := [dev_ex\<lparr>dv_pchannels := []\<rparr>]\<rparr>) = Some 0"
    by (simp add: find_device_def dev_ex_def HAB_MMID_GET_MAJOR_def)
qed (simp_all add: drv_ex_def hab_is_forbidden_def get_dev_def ctx_ex_def)

section \<open>An address of the other side\<close>

text \<open>The example driver as a kernel client, with a dma-buf that somebody else holds.\<close>

definition drv_kva :: "nat \<Rightarrow> hab_driver" where
  "drv_kva d = drv_ex\<lparr>st_hyp_mem := mem_example\<lparr>mm_dmabufs := [d \<mapsto> \<lparr>db_priv = SgTable [(100, 1)], db_refs = 1\<rparr>]\<rparr>,
     st_exps := (st_exps drv_ex)(4 \<mapsto> (export_ex 9 HAB_EXP_EXPORTING)\<lparr>ex_kva := of_nat d\<rparr>)\<rparr>"

text \<open>
  The other side chooses an address that a kernel client's context releases.  A descriptor comes
  with the \<^verbatim>\<open>kva\<close> of the message it arrived in; when a kernel context that never imported it is freed,
  the code calls \<^verbatim>\<open>dma_buf_put\<close> on that address: whatever buffer lives there loses a reference it had
  not got from this driver, here its last one.
\<close>
theorem context_puts_peer_address:
  "ex_kva (export_of_bytes (enc_export_desc w @ t)) = ew_kva w \<and>
   (\<exists>s1 s2. hab_vchan_close 2 0x25902001 (drv_kva 55) = Some (0, s1) \<and> hab_ctx_put 2 s1 = Some s2 \<and>
      mm_dmabufs (st_hyp_mem (drv_kva 55)) 55 \<noteq> None \<and> mm_dmabufs (st_hyp_mem s2) 55 = None)"
proof -
  have "(case hab_vchan_close 2 0x25902001 (drv_kva 55) of None \<Rightarrow> False | Some (r, s1) \<Rightarrow> r = 0 \<and>
      (case hab_ctx_put 2 s1 of None \<Rightarrow> False | Some s2 \<Rightarrow> mm_dmabufs (st_hyp_mem s2) 55 = None))"
    by code_simp
  moreover have "mm_dmabufs (st_hyp_mem (drv_kva 55)) 55 \<noteq> None" by (simp add: drv_kva_def)
  ultimately show ?thesis
    by (auto simp: export_of_bytes_def export_desc_codec.dec_enc Let_def split: option.splits)
qed

end
