(* ===== verification/Hab_Rbtree.thy ===== *)
theory Hab_Rbtree
  imports Hab_State "HOL-Library.Tree" "HOL-Library.Product_Lexorder"
begin

text \<open>
  The red-black tree of imported descriptors (\<^verbatim>\<open>hab_rb_exp_find\<close> and \<^verbatim>\<open>hab_rb_exp_insert\<close> of
  \<^verbatim>\<open>hab_linux.c\<close>) and its refinement of the ordered list the other theories use.  The rebalancing
  functions of the kernel, \<^verbatim>\<open>rb_insert_color\<close> and \<^verbatim>\<open>rb_erase\<close>, are parameters: what is relied on is
  that they keep the order of the nodes, and that the second drops just the node it is given.
\<close>

type_synonym imp_tree = "(imp_key \<times> nat) tree"

section \<open>The operations\<close>

text \<open>Keys compare by the export identifier and then by the address of the channel.\<close>

fun hab_rb_exp_find :: "imp_key \<Rightarrow> imp_tree \<Rightarrow> nat option" where
  "hab_rb_exp_find key Leaf = None"
| "hab_rb_exp_find key (Node l (k, e) r) =
     (if fst key < fst k then hab_rb_exp_find key l
      else if fst k < fst key then hab_rb_exp_find key r
      else if snd key < snd k then hab_rb_exp_find key l
      else if snd k < snd key then hab_rb_exp_find key r
      else Some e)"

text \<open>Down to the link the new node goes to; \<open>Inl\<close> is the node with the same key on the way.\<close>

fun rb_link :: "imp_key \<Rightarrow> nat \<Rightarrow> imp_tree \<Rightarrow> nat + imp_tree" where
  "rb_link key e Leaf = Inr (Node Leaf (key, e) Leaf)"
| "rb_link key e (Node l (k, x) r) =
     (if fst key < fst k then map_sum id (\<lambda>l'. Node l' (k, x) r) (rb_link key e l)
      else if fst k < fst key then map_sum id (Node l (k, x)) (rb_link key e r)
      else if snd key < snd k then map_sum id (\<lambda>l'. Node l' (k, x) r) (rb_link key e l)
      else if snd k < snd key then map_sum id (Node l (k, x)) (rb_link key e r)
      else Inl x)"

definition hab_rb_exp_insert ::
  "(imp_tree \<Rightarrow> imp_tree) \<Rightarrow> imp_key \<Rightarrow> nat \<Rightarrow> imp_tree \<Rightarrow> nat option \<times> imp_tree" where
  "hab_rb_exp_insert rb_insert_color key e t =
     (case rb_link key e t of Inl x \<Rightarrow> (Some x, t) | Inr t' \<Rightarrow> (None, rb_insert_color t'))"

section \<open>The order of the keys\<close>

text \<open>The order on pairs of the library is the one the comparisons of the code make.\<close>

lemma imp_less_iff: "imp_less k l \<longleftrightarrow> k < l"
  by (cases k; cases l) (auto simp: imp_less_def less_prod_def')

definition keys_sorted :: "imp_whse \<Rightarrow> bool" where
  "keys_sorted m \<longleftrightarrow> sorted_wrt (<) (map fst m)"

lemma keys_sorted_append [simp]:
  "keys_sorted (xs @ (k, e) # ys) \<longleftrightarrow> keys_sorted xs \<and> keys_sorted ys \<and>
     (\<forall>x \<in> set xs. fst x < k) \<and> (\<forall>y \<in> set ys. k < fst y)"
  unfolding keys_sorted_def map_append list.map sorted_wrt_append
  by (simp add: ball_Un) (blast intro: less_trans)

lemma keys_sorted_Nil [simp]: "keys_sorted []"
  by (simp add: keys_sorted_def)

lemma keys_sorted_Cons [simp]:
  "keys_sorted ((k, e) # ys) \<longleftrightarrow> keys_sorted ys \<and> (\<forall>y \<in> set ys. k < fst y)"
  using keys_sorted_append [of "[]" k e ys] by simp

lemma keys_sorted_insert:
  "keys_sorted m \<Longrightarrow> map_of m k = None \<Longrightarrow> keys_sorted (whse_insert k e m)"
  by (induction k e m rule: whse_insert.induct)
    (auto simp: imp_less_iff set_whse_insert not_less split: if_splits dest: less_trans le_neq_trans)

lemma keys_sorted_remove: "keys_sorted m \<Longrightarrow> keys_sorted (whse_remove k m)"
  by (induction m) (auto simp: whse_remove_def)

lemma map_of_none_less: "(\<forall>y \<in> set m. k < fst y) \<Longrightarrow> map_of m (k :: imp_key) = None"
  by (induction m) auto

lemma map_of_none_greater: "(\<forall>y \<in> set m. fst y < k) \<Longrightarrow> map_of m (k :: imp_key) = None"
  by (induction m) auto

text \<open>Inserting on one side of a node.\<close>

lemma whse_insert_left:
  "keys_sorted (xs @ (k, x) # ys) \<Longrightarrow> key < k \<Longrightarrow>
     whse_insert key e (xs @ (k, x) # ys) = whse_insert key e xs @ (k, x) # ys"
  by (induction xs) (auto simp: imp_less_iff)

lemma whse_insert_right:
  "keys_sorted (xs @ (k, x) # ys) \<Longrightarrow> k < key \<Longrightarrow>
     whse_insert key e (xs @ (k, x) # ys) = xs @ (k, x) # whse_insert key e ys"
  by (induction xs) (auto simp: imp_less_iff dest: less_trans)

section \<open>Find and insert are those of the ordered list\<close>

text \<open>The four comparisons are one comparison of pairs.\<close>

lemma find_Node:
  "hab_rb_exp_find key (Node l (k, e) r) =
     (if key < k then hab_rb_exp_find key l else if k < key then hab_rb_exp_find key r else Some e)"
  by (cases key; cases k) (auto simp: less_prod_def')

lemma rb_link_Node:
  "rb_link key e (Node l (k, x) r) =
     (if key < k then map_sum id (\<lambda>l'. Node l' (k, x) r) (rb_link key e l)
      else if k < key then map_sum id (Node l (k, x)) (rb_link key e r) else Inl x)"
  by (cases key; cases k) (auto simp: less_prod_def')

declare hab_rb_exp_find.simps(2) [simp del] rb_link.simps(2) [simp del]

lemmas rb_simps = find_Node rb_link_Node

lemma map_of_inorder_Node:
  assumes "keys_sorted (inorder l @ (k, e) # inorder r)"
  shows "map_of (inorder l @ (k, e) # inorder r) key =
     (if key < k then map_of (inorder l) key else if k < key then map_of (inorder r) key else Some e)"
proof -
  from assms have l: "\<forall>x \<in> set (inorder l). fst x < k" and r: "\<forall>x \<in> set (inorder r). k < fst x"
    by (simp_all del: set_inorder)
  have "map_of (inorder r) key = None" if "key < k \<or> key = k"
    using r that by (intro map_of_none_less) (auto intro: less_trans simp del: set_inorder)
  moreover have "map_of (inorder l) key = None" if "k < key \<or> key = k"
    using l that by (intro map_of_none_greater) (auto intro: less_trans simp del: set_inorder)
  ultimately show ?thesis
    by (cases key k rule: linorder_cases) (auto simp: map_add_def split: option.splits)
qed

lemma find_inorder:
  "keys_sorted (inorder t) \<Longrightarrow> hab_rb_exp_find key t = map_of (inorder t) key"
proof (induction t)
  case (Node l x r)
  then show ?case
    by (cases x) (simp add: find_Node map_of_inorder_Node del: map_of_append)
qed simp

lemma rb_link_inorder:
  "keys_sorted (inorder t) \<Longrightarrow>
     (case rb_link key e t of Inl x \<Rightarrow> map_of (inorder t) key = Some x
      | Inr t' \<Rightarrow> map_of (inorder t) key = None \<and> inorder t' = whse_insert key e (inorder t))"
proof (induction t)
  case (Node l x r)
  obtain k y where x: "x = (k, y)" by (cases x)
  from Node.prems have srt: "keys_sorted (inorder l @ (k, y) # inorder r)" by (simp add: x)
  then have "keys_sorted (inorder l)" "keys_sorted (inorder r)" by simp_all
  with Node.IH srt show ?case
    by (cases key k rule: linorder_cases)
      (auto simp: x rb_link_Node map_of_inorder_Node whse_insert_left whse_insert_right
         simp del: map_of_append split: sum.splits)
qed simp

section \<open>Every history of the tree\<close>

text \<open>
  What the driver does to the tree: insert a descriptor, or remove the one a find returned.
\<close>

datatype tree_op = Insert imp_key nat | Remove imp_key

fun tree_run ::
  "(imp_tree \<Rightarrow> imp_tree) \<Rightarrow> (imp_key \<Rightarrow> imp_tree \<Rightarrow> imp_tree) \<Rightarrow> tree_op list \<Rightarrow> imp_tree \<Rightarrow> imp_tree" where
  "tree_run color erase [] t = t"
| "tree_run color erase (Insert k e # ops) t =
     tree_run color erase ops (snd (hab_rb_exp_insert color k e t))"
| "tree_run color erase (Remove k # ops) t =
     tree_run color erase ops (case hab_rb_exp_find k t of None \<Rightarrow> t | Some e \<Rightarrow> erase k t)"

fun list_run :: "tree_op list \<Rightarrow> imp_whse \<Rightarrow> imp_whse" where
  "list_run [] m = m"
| "list_run (Insert k e # ops) m =
     list_run ops (if map_of m k = None then whse_insert k e m else m)"
| "list_run (Remove k # ops) m = list_run ops (whse_remove k m)"

lemma whse_remove_absent: "map_of m k = None \<Longrightarrow> whse_remove k m = m"
  by (induction m) (auto simp: whse_remove_def split: if_splits)

text \<open>
  C18. The red-black tree of imports behaves as the ordered list this development uses in its place.
  After any history of insertions and removals, starting from the empty tree, the tree holds the list
  in order, so that a find gives what the list has under the key, an insertion under a key that is
  taken changes nothing and returns the descriptor that is there, and any other is added.  The
  rebalancing of the kernel is only trusted with the order of the nodes.
\<close>
theorem import_tree_refines_list:
  assumes color: "\<And>t. inorder (color t) = inorder t"
    and erase: "\<And>k t. inorder (erase k t) = whse_remove k (inorder t)"
  shows "inorder (tree_run color erase ops Leaf) = list_run ops [] \<and>
    hab_rb_exp_find key (tree_run color erase ops Leaf) = map_of (list_run ops []) key \<and>
    fst (hab_rb_exp_insert color key e (tree_run color erase ops Leaf)) = map_of (list_run ops []) key"
proof -
  have run: "keys_sorted (inorder t) \<Longrightarrow>
      inorder (tree_run color erase ops t) = list_run ops (inorder t) \<and> keys_sorted (list_run ops (inorder t))" for t
  proof (induction ops arbitrary: t)
    case (Cons a ops)
    show ?case
    proof (cases a)
      case (Insert k x)
      show ?thesis
      proof (cases "rb_link k x t")
        case (Inl y)
        then show ?thesis
          using rb_link_inorder [OF Cons.prems, of k x] Cons.IH [OF Cons.prems]
          by (simp add: Insert hab_rb_exp_insert_def)
      next
        case (Inr u)
        then show ?thesis
          using rb_link_inorder [OF Cons.prems, of k x] keys_sorted_insert [OF Cons.prems, of k x]
            Cons.IH [of "color u"]
          by (simp add: Insert hab_rb_exp_insert_def color)
      qed
    next
      case (Remove k)
      then show ?thesis
        using keys_sorted_remove [OF Cons.prems, of k] Cons.IH [OF Cons.prems] Cons.IH [of "erase k t"]
        by (simp add: find_inorder [OF Cons.prems] erase whse_remove_absent split: option.split)
    qed
  qed simp
  from run [of Leaf] have t: "inorder (tree_run color erase ops Leaf) = list_run ops []"
    "keys_sorted (inorder (tree_run color erase ops Leaf))" by simp_all
  with find_inorder [OF t(2), of key] rb_link_inorder [OF t(2), of key e] show ?thesis
    by (auto simp: hab_rb_exp_insert_def split: sum.splits)
qed

text \<open>An instance: no rebalancing at all, and a deletion that rebuilds the tree.\<close>

fun spine :: "imp_whse \<Rightarrow> imp_tree" where
  "spine [] = Leaf"
| "spine (x # m) = Node Leaf x (spine m)"

lemma inorder_spine: "inorder (spine m) = m"
  by (induction m rule: spine.induct) auto

theorem import_tree_refines_list_witness:
  "inorder (tree_run id (\<lambda>k t. spine (whse_remove k (inorder t)))
      [Insert (9, 1) 4, Insert (7, 2) 5, Insert (9, 2) 6, Insert (9, 1) 8, Remove (7, 2)] Leaf) =
     [((9, 1), 4), ((9, 2), 6)]"
  using import_tree_refines_list [of id "\<lambda>k t. spine (whse_remove k (inorder t))"
      "[Insert (9, 1) 4, Insert (7, 2) 5, Insert (9, 2) 6, Insert (9, 1) 8, Remove (7, 2)]" "(0, 0)" 0]
  by (simp add: inorder_spine whse_remove_def imp_less_def)

end
