(* ===== verification/Hab_Import_Threads.thy ===== *)
theory Hab_Import_Threads
  imports Hab_Example
begin

text \<open>
  Threads that import and unimport on one context at the same time (\<^verbatim>\<open>hab_mimex.c\<close>), in both memory
  protocols; nothing but the state of a descriptor keeps them apart.  A step is one critical section of
  the code: the claim of a descriptor under \<^verbatim>\<open>imp_lock\<close>, the work on the claimed one without the lock, the
  rollback of a failed import in the new protocol, the removal under the lock.  Descriptors arrive in between.
\<close>

section \<open>Threads and their steps\<close>

text \<open>
  Where a thread is: outside, working on the descriptor it claimed, or about to roll back an import that
  failed in the new protocol.
\<close>

datatype import_pc = Idle | Mapping nat | Rolling nat | Unmapping nat | Dropping nat

type_synonym import_threads = "hab_driver \<times> (nat \<Rightarrow> import_pc)"

definition new_proto :: "nat \<Rightarrow> hab_driver \<Rightarrow> bool" where
  "new_proto v s \<longleftrightarrow> (\<exists>vc pc. st_vchans s v = Some vc \<and> st_pchans s (vc_pchan vc) = Some pc \<and> pc_mem_proto pc = 1)"

text \<open>
  The descriptor a thread has claimed and the state it has put it in.  A thread that is about to roll back
  has given the claim up: it has set the state to \<^verbatim>\<open>EXP_DESC_INIT\<close>.
\<close>

fun claimed :: "import_pc \<Rightarrow> (nat \<times> exp_desc_state) option" where
  "claimed Idle = None"
| "claimed (Mapping e) = Some (e, EXP_DESC_IMPORTING)"
| "claimed (Rolling e) = None"
| "claimed (Unmapping e) = Some (e, EXP_DESC_UNIMPORTING)"
| "claimed (Dropping e) = Some (e, EXP_DESC_UNIMPORTING)"

definition after_claim :: "(nat \<Rightarrow> import_pc) \<Rightarrow> int + nat \<Rightarrow> import_pc" where
  "after_claim q cl = (case cl of Inl err \<Rightarrow> Idle | Inr e \<Rightarrow> q e)"

inductive import_step :: "kernel_view \<Rightarrow> nat \<Rightarrow> import_threads \<Rightarrow> import_threads \<Rightarrow> bool" for kv c where
  arrive: "x = export_localize p pc vc (export_of_bytes b) \<Longrightarrow> export_desc_valid x (length b) \<Longrightarrow>
    hab_export_enqueue v x s = Some (r, s') \<Longrightarrow> import_step kv c (s, T) (s', T)"
| claim: "T t = Idle \<Longrightarrow> import_claim c key s = Some (cl, s') \<Longrightarrow>
    import_step kv c (s, T) (s', T(t := after_claim Mapping cl))"
| map: "T t = Mapping e \<Longrightarrow> import_map kv param kern e s = Some ((r, param'), s') \<Longrightarrow>
    r = 0 \<or> \<not> new_proto v s' \<Longrightarrow> import_step kv c (s, T) (s', T(t := Idle))"
| map_failed: "T t = Mapping e \<Longrightarrow> import_map kv param kern e s = Some ((r, param'), s') \<Longrightarrow>
    r \<noteq> 0 \<Longrightarrow> new_proto v s' \<Longrightarrow> import_step kv c (s, T) (s', T(t := Rolling e))"
| rollback: "T t = Rolling e \<Longrightarrow> r \<noteq> 0 \<Longrightarrow> new_proto v s \<Longrightarrow> st_vchans s v = Some vc \<Longrightarrow>
    import_rollback c v (vc_pchan vc) e r s = Some s' \<Longrightarrow> import_step kv c (s, T) (s', T(t := Idle))"
| unclaim: "T t = Idle \<Longrightarrow> unimport_claim c key s = Some (cl, s') \<Longrightarrow>
    import_step kv c (s, T) (s', T(t := after_claim Unmapping cl))"
| unmap: "T t = Unmapping e \<Longrightarrow> unimport_unmap e kern s = Some (r, s') \<Longrightarrow>
    import_step kv c (s, T) (s', T(t := if r = 0 then Dropping e else Idle))"
| drop: "T t = Dropping e \<Longrightarrow> unimport_drop c v e s = Some s' \<Longrightarrow> import_step kv c (s, T) (s', T(t := Idle))"

text \<open>The runs in which no import fails on a channel of the new protocol.\<close>

definition import_quiet :: "kernel_view \<Rightarrow> nat \<Rightarrow> import_threads \<Rightarrow> import_threads \<Rightarrow> bool" where
  "import_quiet kv c X Y \<longleftrightarrow> import_step kv c X Y \<and> (\<forall>t e. snd Y t \<noteq> Rolling e)"

section \<open>What the critical sections change\<close>

text \<open>The descriptor \<open>e\<close> gets state \<open>st\<close>; the warehouses and every other descriptor stay.\<close>

definition same_desc :: "export_desc_super \<Rightarrow> export_desc_super \<Rightarrow> bool" where
  "same_desc x y \<longleftrightarrow> exp_key y = exp_key x \<and> ex_payload_count y = ex_payload_count x \<and> ex_payload y = ex_payload x"

definition sets_state :: "nat \<Rightarrow> exp_desc_state \<Rightarrow> exp_desc_state \<Rightarrow> hab_driver \<Rightarrow> hab_driver \<Rightarrow> bool" where
  "sets_state e st st' s s' \<longleftrightarrow> (\<exists>x y. st_exps s e = Some x \<and> ex_import_state x = st \<and>
     st_exps s' = (st_exps s)(e \<mapsto> y) \<and> ex_import_state y = st' \<and> same_desc x y \<and>
     st_ctxs s' = st_ctxs s \<and> st_next s' = st_next s \<and> st_pchans s' = st_pchans s \<and> st_vchans s' = st_vchans s)"

definition whse_holds :: "nat \<Rightarrow> nat \<Rightarrow> hab_driver \<Rightarrow> bool" where
  "whse_holds c e s \<longleftrightarrow> (\<exists>cx. st_ctxs s c = Some cx \<and> e \<in> snd ` set (cx_imp_whse cx))"

lemma sets_stateI:
  "st_exps s e = Some x \<Longrightarrow> ex_import_state x = st \<Longrightarrow> st_exps s' = (st_exps s)(e \<mapsto> y) \<Longrightarrow>
     ex_import_state y = st' \<Longrightarrow> same_desc x y \<Longrightarrow> st_ctxs s' = st_ctxs s \<Longrightarrow> st_next s' = st_next s \<Longrightarrow>
     st_pchans s' = st_pchans s \<Longrightarrow> st_vchans s' = st_vchans s \<Longrightarrow> sets_state e st st' s s'"
  unfolding sets_state_def by blast

lemma claim_cases:
  assumes run: "do {
     cx \<leftarrow> st_ctxs s c;
     (case map_of (cx_imp_whse cx) key of
        None \<Rightarrow> Some (Inl err1, s)
      | Some e \<Rightarrow> do {
          x \<leftarrow> st_exps s e;
          if ex_import_state x \<noteq> st then Some (Inl err2, s)
          else do { s1 \<leftarrow> exp_set_state e st' s; Some (Inr e, s1) }
        }) } = Some (cl, s')"
  shows "(\<exists>err. cl = Inl err \<and> s' = s) \<or> (\<exists>e. cl = Inr e \<and> whse_holds c e s \<and> sets_state e st st' s s')"
proof -
  from run obtain cx where c: "st_ctxs s c = Some cx" by (cases "st_ctxs s c") auto
  show ?thesis
  proof (cases "map_of (cx_imp_whse cx) key")
    case None
    with run c show ?thesis by auto
  next
    case (Some e)
    with run c obtain x where x: "st_exps s e = Some x" by (cases "st_exps s e") auto
    have "whse_holds c e s" using c map_of_SomeD [OF Some] by (force simp: whse_holds_def)
    moreover have "sets_state e st st' s (s\<lparr>st_exps := (st_exps s)(e \<mapsto> x\<lparr>ex_import_state := st'\<rparr>)\<rparr>)"
      if "ex_import_state x = st"
      by (rule sets_stateI [OF x that, where y = "x\<lparr>ex_import_state := st'\<rparr>"]) (simp_all add: same_desc_def exp_key_def)
    ultimately show ?thesis using run c Some x
      by (cases "ex_import_state x = st") (auto simp: exp_set_state_def mod_exp_def)
  qed
qed

lemmas import_claim_cases = claim_cases [OF trans [OF sym [OF import_claim_def]]]
lemmas unimport_claim_cases = claim_cases [OF trans [OF sym [OF unimport_claim_def]]]

lemma import_map_cases:
  assumes run: "import_map kv param kern e s = Some ((r, param'), s')"
  shows "\<exists>st. r \<noteq> 0 \<and> sets_state e st EXP_DESC_INIT s s' \<or> r = 0 \<and> sets_state e st EXP_DESC_IMPORTED s s'"
proof -
  from run obtain x where e: "st_exps s e = Some x" by (cases "st_exps s e") (auto simp: import_map_def)
  show ?thesis
  proof (cases "ex_payload_count x * 4096 \<noteq> hi_sizebytes param")
    case True
    with run e have "sets_state e (ex_import_state x) EXP_DESC_INIT s s'"
      by (intro sets_stateI [OF e, where y = "x\<lparr>ex_import_state := EXP_DESC_INIT\<rparr>"])
        (auto simp: import_map_def exp_set_state_def mod_exp_def exp_key_def same_desc_def)
    moreover have "r \<noteq> 0" using True run e by (auto simp: import_map_def bind_eq_Some_conv)
    ultimately show ?thesis by blast
  next
    case False
    with run e obtain r2 kva m where m:
      "habmem_imp_hyp_map (kv_pfn_valid kv) (ex_payload_count x) (ex_payload x)
          (hi_flags param) (ex_export_id x) (ex_vcid_remote x) (ex_pchan x) kern (st_hyp_mem s) = Some ((r2, kva), m)"
      by (auto simp: import_map_def bind_eq_Some_conv)
    note run = run [unfolded import_map_def] e m False
    show ?thesis
    proof (cases "r2 = 0")
      case True
      let ?x = "\<lambda>a. x\<lparr>ex_import_index := hi_index param, ex_kva := a, ex_import_state := EXP_DESC_IMPORTED\<rparr>"
      from True run obtain a where "st_exps s' = (st_exps s)(e \<mapsto> ?x a)" "st_ctxs s' = st_ctxs s" "st_next s' = st_next s"
        "st_pchans s' = st_pchans s" "st_vchans s' = st_vchans s"
        by (auto simp: mod_exp_def Let_def)
      moreover have "r = 0" using True run by (auto simp: bind_eq_Some_conv Let_def)
      ultimately show ?thesis using sets_stateI [OF e refl, where y = "?x a"] by (auto simp: exp_key_def same_desc_def)
    next
      case False
      let ?x = "x\<lparr>ex_import_state := EXP_DESC_INIT\<rparr>"
      from \<open>r2 \<noteq> 0\<close> run have "st_exps s' = (st_exps s)(e \<mapsto> ?x)" "st_ctxs s' = st_ctxs s" "st_next s' = st_next s"
        "st_pchans s' = st_pchans s" "st_vchans s' = st_vchans s"
        by (auto simp: exp_set_state_def mod_exp_def)
      moreover have "r \<noteq> 0" using False run \<open>r2 \<noteq> 0\<close> by (auto simp: bind_eq_Some_conv)
      ultimately show ?thesis using sets_stateI [OF e refl, where y = ?x] by (auto simp: exp_key_def same_desc_def)
    qed
  qed
qed

lemma unimport_unmap_cases:
  assumes "unimport_unmap e kern s = Some (r, s')"
  shows "r = 0 \<and> st_exps s' = st_exps s \<and> st_ctxs s' = st_ctxs s \<and> st_next s' = st_next s \<and>
    st_pchans s' = st_pchans s \<and> st_vchans s' = st_vchans s"
  using assms by (auto simp: unimport_unmap_def habmm_imp_hyp_unmap_def bind_eq_Some_conv split: if_splits)

lemma unimport_drop_cases:
  assumes "unimport_drop c v e s = Some s'"
  shows "\<exists>s1. st_exps s1 = st_exps s \<and> st_ctxs s1 = st_ctxs s \<and> st_next s1 = st_next s \<and> imp_whse_drop c e s1 = Some s'"
proof -
  from assms obtain s1 where s1: "imp_whse_drop c e s1 = Some s'" "s1 = s \<or> (\<exists>i. hab_send_unimport_msg v i s = Some s1)"
    by (auto simp: unimport_drop_def bind_eq_Some_conv split: if_splits)
  then have "s1 = s \<or> (\<exists>p. hyp_frame p s s1)"
    by (auto simp: hab_send_unimport_msg_def bind_eq_Some_conv dest!: send_frame)
  with s1(1) show ?thesis by (auto simp: hyp_frame_def intro!: exI [of _ s1])
qed

lemma imp_whse_drop_cases:
  assumes "imp_whse_drop c e s = Some s'"
  shows "\<exists>x k cx cx'. st_exps s e = Some x \<and> exp_key x = Some k \<and> st_ctxs s c = Some cx \<and>
    st_ctxs s' = (st_ctxs s)(c \<mapsto> cx') \<and> cx_imp_whse cx' = whse_remove k (cx_imp_whse cx) \<and>
    st_exps s' = (st_exps s)(e := None) \<and> st_next s' = st_next s"
proof -
  from assms obtain x p cx where x: "st_exps s e = Some x" "ex_pchan x = Some p" "st_ctxs s c = Some cx"
    by (auto simp: imp_whse_drop_def mod_ctx_def bind_eq_Some_conv split: option.splits)
  let ?k = "(unat (ex_export_id x), p)"
  from assms x show ?thesis
    by (intro exI [of _ x] exI [of _ ?k] exI [of _ cx]
        exI [of _ "cx\<lparr>cx_imp_whse := whse_remove ?k (cx_imp_whse cx), cx_import_total := cx_import_total cx - 1\<rparr>"])
      (auto simp: imp_whse_drop_def mod_ctx_def exp_key_def)
qed

lemma export_enqueue_cases:
  assumes "hab_export_enqueue v x s = Some (r, s')"
  shows "s' = s \<or> (\<exists>d k cx cx'. exp_key x = Some k \<and> st_ctxs s d = Some cx \<and> map_of (cx_imp_whse cx) k = None \<and> st_ctxs s' = (st_ctxs s)(d \<mapsto> cx') \<and>
    cx_imp_whse cx' = whse_insert k (st_next s) (cx_imp_whse cx) \<and>
    st_exps s' = (st_exps s)(st_next s \<mapsto> x) \<and> st_next s' = st_next s + 1)"
proof -
  from assms obtain vc cx k where v: "st_vchans s v = Some vc" "st_ctxs s (vc_ctx vc) = Some cx" "exp_key x = Some k"
    by (auto simp: hab_export_enqueue_def bind_eq_Some_conv)
  show ?thesis
  proof (cases "map_of (cx_imp_whse cx) k")
    case None
    let ?cx = "cx\<lparr>cx_imp_whse := whse_insert k (st_next s) (cx_imp_whse cx), cx_import_total := cx_import_total cx + 1\<rparr>"
    from None assms v have "st_ctxs s' = (st_ctxs s)(vc_ctx vc \<mapsto> ?cx)"
      "st_exps s' = (st_exps s)(st_next s \<mapsto> x)" "st_next s' = st_next s + 1"
      by (auto simp: hab_export_enqueue_def mod_ctx_def Let_def)
    with v None show ?thesis by (intro disjI2 exI [of _ "vc_ctx vc"] exI [of _ k] exI [of _ cx] exI [of _ ?cx]) simp
  qed (use assms v in \<open>auto simp: hab_export_enqueue_def\<close>)
qed

section \<open>The invariant\<close>

text \<open>
  Every descriptor in the warehouse is allocated, stands under its own key and has a checked table;
  every claimed descriptor is in the warehouse, in the state its thread has put it in; no two threads
  claim the same one.
\<close>

definition entry_ok :: "hab_driver \<Rightarrow> imp_key \<Rightarrow> nat \<Rightarrow> bool" where
  "entry_ok s k e \<longleftrightarrow> e < st_next s \<and> (\<exists>x. st_exps s e = Some x \<and> exp_key x = Some k \<and>
     table_ok (ex_payload_count x) (ex_payload x))"

definition whse_live :: "nat \<Rightarrow> hab_driver \<Rightarrow> bool" where
  "whse_live c s \<longleftrightarrow> (\<forall>cx. st_ctxs s c = Some cx \<longrightarrow> distinct (map fst (cx_imp_whse cx)) \<and>
     (\<forall>k e. (k, e) \<in> set (cx_imp_whse cx) \<longrightarrow> entry_ok s k e))"

definition claims_ok :: "nat \<Rightarrow> hab_driver \<Rightarrow> (nat \<Rightarrow> import_pc) \<Rightarrow> bool" where
  "claims_ok c s T \<longleftrightarrow> (\<forall>t e st. claimed (T t) = Some (e, st) \<longrightarrow>
     whse_holds c e s \<and> (\<exists>x. st_exps s e = Some x \<and> ex_import_state x = st) \<and>
     (\<forall>u st'. claimed (T u) = Some (e, st') \<longrightarrow> u = t))"

definition threads_ok :: "nat \<Rightarrow> import_threads \<Rightarrow> bool" where
  "threads_ok c X \<longleftrightarrow> whse_live c (fst X) \<and> claims_ok c (fst X) (snd X)"

lemma claims_okD:
  "claims_ok c s T \<Longrightarrow> claimed (T t) = Some (e, st) \<Longrightarrow>
     whse_holds c e s \<and> (\<exists>x. st_exps s e = Some x \<and> ex_import_state x = st)"
  unfolding claims_ok_def by blast

lemma claims_ok_only:
  "claims_ok c s T \<Longrightarrow> claimed (T t) = Some (e, st) \<Longrightarrow> claimed (T u) = Some (e, st') \<Longrightarrow> u = t"
  unfolding claims_ok_def by blast

lemma whse_liveD:
  "whse_live c s \<Longrightarrow> st_ctxs s c = Some cx \<Longrightarrow> distinct (map fst (cx_imp_whse cx))"
  "whse_live c s \<Longrightarrow> st_ctxs s c = Some cx \<Longrightarrow> (k, e) \<in> set (cx_imp_whse cx) \<Longrightarrow> entry_ok s k e"
  unfolding whse_live_def by blast+

lemma whse_holdsE:
  assumes "whse_holds c e s"
  obtains cx k where "st_ctxs s c = Some cx" "(k, e) \<in> set (cx_imp_whse cx)"
  using assms by (auto simp: whse_holds_def)

lemma claimed_state: "claimed q = Some (e, st) \<Longrightarrow> st = EXP_DESC_IMPORTING \<or> st = EXP_DESC_UNIMPORTING"
  by (cases q) auto

text \<open>One thread moves, and what it does changes at most the state of the descriptor it works on.\<close>

lemma entry_ok_sets: "entry_ok s k i \<Longrightarrow> sets_state e st st' s s' \<Longrightarrow> entry_ok s' k i"
  by (auto simp: entry_ok_def sets_state_def same_desc_def)

lemma whse_live_sets: "whse_live c s \<Longrightarrow> sets_state e st st' s s' \<Longrightarrow> whse_live c s'"
  using entry_ok_sets [of s _ _ e st st' s'] by (auto simp: whse_live_def sets_state_def)

lemma claims_ok_sets:
  assumes ok: "claims_ok c s T" and sets: "sets_state e st st' s s'" and holds: "whse_holds c e s"
    and alone: "\<And>u st''. u \<noteq> t \<Longrightarrow> claimed (T u) \<noteq> Some (e, st'')"
    and q: "claimed q = None \<or> claimed q = Some (e, st')"
  shows "claims_ok c s' (T(t := q))"
  unfolding claims_ok_def
proof (intro allI impI)
  fix u e' st2
  assume u: "claimed ((T(t := q)) u) = Some (e', st2)"
  have keep: "whse_holds c i s' = whse_holds c i s" for i using sets by (auto simp: whse_holds_def sets_state_def)
  show "whse_holds c e' s' \<and> (\<exists>x. st_exps s' e' = Some x \<and> ex_import_state x = st2) \<and>
      (\<forall>w st3. claimed ((T(t := q)) w) = Some (e', st3) \<longrightarrow> w = u)"
  proof (cases "u = t")
    case True
    with u q have "e' = e" "st2 = st'" by auto
    with True sets holds keep alone show ?thesis by (auto simp: sets_state_def)
  next
    case False
    with u have old: "claimed (T u) = Some (e', st2)" by simp
    with alone [OF False] have "e' \<noteq> e" by auto
    with claims_okD [OF ok old] claims_ok_only [OF ok old] sets keep q show ?thesis
      by (auto simp: sets_state_def)
  qed
qed

text \<open>A descriptor in a state no claim leaves it in is claimed by nobody.\<close>

lemma unclaimed:
  assumes "claims_ok c s T" "sets_state e st st' s s'" "st = EXP_DESC_INIT \<or> st = EXP_DESC_IMPORTED"
  shows "claimed (T u) \<noteq> Some (e, st'')"
  using assms claimed_state [of "T u" e st''] claims_okD [OF assms(1), of u e st'']
  by (auto simp: sets_state_def)

lemma threads_ok_sets:
  assumes "threads_ok c (s, T)" "sets_state e st st' s s'" "whse_holds c e s"
    and "\<And>u st''. u \<noteq> t \<Longrightarrow> claimed (T u) \<noteq> Some (e, st'')" "claimed q = None \<or> claimed q = Some (e, st')"
  shows "threads_ok c (s', T(t := q))"
  using assms whse_live_sets claims_ok_sets unfolding threads_ok_def by auto

lemma threads_ok_same:
  assumes ok: "threads_ok c (s, T)" and same: "st_exps s' = st_exps s" "st_ctxs s' = st_ctxs s" "st_next s' = st_next s"
    and q: "claimed q = claimed (T t)"
  shows "threads_ok c (s', T(t := q))"
proof -
  have "claimed ((T(t := q)) u) = claimed (T u)" for u using q by simp
  then have "claims_ok c s' (T(t := q)) = claims_ok c s T" unfolding claims_ok_def whse_holds_def same by simp
  with ok show ?thesis by (simp add: threads_ok_def whse_live_def entry_ok_def same)
qed

lemma threads_ok_claim:
  assumes ok: "threads_ok c (s, T)" and t: "T t = Idle"
    and cl: "(\<exists>err. cl = Inl err \<and> s' = s) \<or> (\<exists>e. cl = Inr e \<and> whse_holds c e s \<and> sets_state e st st' s s')"
    and st: "st = EXP_DESC_INIT \<or> st = EXP_DESC_IMPORTED" and q: "\<And>e. claimed (q e) = Some (e, st')"
  shows "threads_ok c (s', T(t := after_claim q cl))"
  using cl
proof (elim disjE exE conjE)
  fix e
  assume e: "cl = Inr e" "whse_holds c e s" "sets_state e st st' s s'"
  then have "\<And>u st''. claimed (T u) \<noteq> Some (e, st'')"
    using ok unclaimed [OF _ e(3) st, of c T] by (simp add: threads_ok_def)
  then show ?thesis using threads_ok_sets [OF ok e(3,2), of t "q e"] q e(1) by (simp add: after_claim_def)
qed (use ok t in \<open>auto simp: after_claim_def fun_upd_idem\<close>)

lemma threads_ok_drop:
  assumes ok: "threads_ok c (s, T)" and t: "T t = Dropping e" and run: "imp_whse_drop c e s = Some s'"
  shows "threads_ok c (s', T(t := Idle))"
proof -
  from imp_whse_drop_cases [OF run] obtain x k cx cx' where d: "st_exps s e = Some x" "exp_key x = Some k"
    "st_ctxs s c = Some cx" "st_ctxs s' = (st_ctxs s)(c \<mapsto> cx')" "cx_imp_whse cx' = whse_remove k (cx_imp_whse cx)"
    "st_exps s' = (st_exps s)(e := None)" "st_next s' = st_next s" by blast
  from ok have live: "whse_live c s" and cl: "claims_ok c s T" by (simp_all add: threads_ok_def)
  have te: "claimed (T t) = Some (e, EXP_DESC_UNIMPORTING)" by (simp add: t)
  note dist = whse_liveD(1) [OF live d(3)] and ent = whse_liveD(2) [OF live d(3)]
  have other: "i \<noteq> e" if "(l, i) \<in> set (cx_imp_whse cx)" "l \<noteq> k" for l i
    using ent [OF that(1)] that(2) d(1,2) by (auto simp: entry_ok_def)
  have ke: "(k, e) \<in> set (cx_imp_whse cx)"
    using claims_okD [OF cl te] d(1-3) ent by (fastforce simp: whse_holds_def entry_ok_def)
  have keep: "whse_holds c i s'" if "whse_holds c i s" "i \<noteq> e" for i
  proof -
    from that(1) d(3) obtain l where l: "(l, i) \<in> set (cx_imp_whse cx)" by (auto simp: whse_holds_def)
    with ke dist that(2) have "l \<noteq> k" by (auto dest: eq_key_imp_eq_value)
    with l d show ?thesis by (force simp: whse_holds_def set_whse_remove)
  qed
  have "entry_ok s' l i" if "(l, i) \<in> set (cx_imp_whse cx)" "l \<noteq> k" for l i
    using ent [OF that(1)] other [OF that] d(6,7) by (auto simp: entry_ok_def)
  then have "whse_live c s'"
    using d(4,5) dist by (auto simp: whse_live_def set_whse_remove whse_remove_def distinct_map_filter)
  moreover have "claims_ok c s' (T(t := Idle))"
    unfolding claims_ok_def
  proof (intro allI impI)
    fix u i st
    assume "claimed ((T(t := Idle)) u) = Some (i, st)"
    then have u: "claimed (T u) = Some (i, st)" "u \<noteq> t" by (auto split: if_splits)
    then have "i \<noteq> e" using claims_ok_only [OF cl te] by auto
    with keep claims_okD [OF cl u(1)] claims_ok_only [OF cl u(1)] d(6)
    show "whse_holds c i s' \<and> (\<exists>x. st_exps s' i = Some x \<and> ex_import_state x = st) \<and>
        (\<forall>w st'. claimed ((T(t := Idle)) w) = Some (i, st') \<longrightarrow> w = u)" by (auto split: if_splits)
  qed
  ultimately show ?thesis by (simp add: threads_ok_def)
qed

lemma threads_ok_arrive:
  assumes ok: "threads_ok c (s, T)" and run: "hab_export_enqueue v x s = Some (r, s')"
    and tab: "table_ok (ex_payload_count x) (ex_payload x)"
  shows "threads_ok c (s', T)"
  using export_enqueue_cases [OF run]
proof (elim disjE exE conjE)
  fix d k cx cx'
  assume d: "exp_key x = Some k" "st_ctxs s d = Some cx" "map_of (cx_imp_whse cx) k = None"
    "st_ctxs s' = (st_ctxs s)(d \<mapsto> cx')" "cx_imp_whse cx' = whse_insert k (st_next s) (cx_imp_whse cx)"
    "st_exps s' = (st_exps s)(st_next s \<mapsto> x)" "st_next s' = st_next s + 1"
  from ok have live: "whse_live c s" and cl: "claims_ok c s T" by (simp_all add: threads_ok_def)
  have old: "entry_ok s' l i" if "entry_ok s l i" for l i using that d by (auto simp: entry_ok_def)
  have new: "entry_ok s' k (st_next s)" using d tab by (simp add: entry_ok_def)
  have keep: "whse_holds c i s' \<and> i \<noteq> st_next s" if "whse_holds c i s" for i
    using that whse_liveD(2) [OF live] d
    by (fastforce simp: whse_holds_def set_whse_insert entry_ok_def)
  have "whse_live c s'"
    using live old new d by (auto simp: whse_live_def set_whse_insert distinct_map_whse_insert map_of_eq_None_iff split: if_splits)
  moreover have "claims_ok c s' T"
    using cl keep d(6) unfolding claims_ok_def by (metis fun_upd_other)
  ultimately show ?thesis by (simp add: threads_ok_def)
qed (use ok in simp)

lemma import_step_ok:
  assumes "import_step kv c X Y" "threads_ok c X" and calm: "\<And>t e. snd X t \<noteq> Rolling e" and quiet: "\<And>t e. snd Y t \<noteq> Rolling e"
  shows "threads_ok c Y"
  using assms
proof cases
  case (arrive x p pc vc b v s r s' T)
  with assms(2) threads_ok_arrive valid_table show ?thesis by blast
next
  case (claim T t key s cl s')
  with assms(2) threads_ok_claim [where q = Mapping and T = T and t = t and c = c and s = s and s' = s' and cl = cl,
      OF _ claim(3) import_claim_cases [OF claim(4)]]
  show ?thesis by simp
next
  case (map T t e param kern s r param' s' v)
  have e: "claimed (T t) = Some (e, EXP_DESC_IMPORTING)" by (simp add: map)
  have ok: "claims_ok c s T" using assms(2) map by (simp add: threads_ok_def)
  have only: "claimed (T u) \<noteq> Some (e, st)" if "u \<noteq> t" for u st
    using claims_ok_only [OF ok e, of u] that by blast
  from import_map_cases [OF map(4)] obtain st st' where "sets_state e st st' s s'" by auto
  then show ?thesis
    using threads_ok_sets [of c s T e st st' s' t Idle] claims_okD [OF ok e] only assms(2) map by auto
next
  case (map_failed T t e param kern s r param' s' v)
  with quiet [of t e] show ?thesis by simp
next
  case (rollback T t e r v s vc s')
  with calm show ?thesis by simp
next
  case (unclaim T t key s cl s')
  with assms(2) threads_ok_claim [where q = Unmapping and T = T and t = t and c = c and s = s and s' = s' and cl = cl,
      OF _ unclaim(3) unimport_claim_cases [OF unclaim(4)]]
  show ?thesis by simp
next
  case (unmap T t e kern s r s')
  with assms(2) unimport_unmap_cases [OF unmap(4)] threads_ok_same [of c s T s' "Dropping e" t] show ?thesis
    by simp
next
  case (drop T t e v s s')
  from unimport_drop_cases [OF drop(4)] obtain s1 where s1: "st_exps s1 = st_exps s" "st_ctxs s1 = st_ctxs s"
    "st_next s1 = st_next s" "imp_whse_drop c e s1 = Some s'" by blast
  have "threads_ok c (s1, T(t := T t))" using threads_ok_same [OF _ s1(1-3) refl, of c T t] assms(2) drop by simp
  then have "threads_ok c (s1, T)" by (simp only: fun_upd_triv)
  with threads_ok_drop [of c s1 T t e s'] s1(4) drop show ?thesis by simp
qed

lemma import_steps_ok:
  assumes "(import_quiet kv c)\<^sup>*\<^sup>* X Y" "threads_ok c X" "\<And>t e. snd X t \<noteq> Rolling e"
  shows "threads_ok c Y \<and> (\<forall>t e. snd Y t \<noteq> Rolling e)"
  using assms by (induction rule: rtranclp_induct) (auto simp: import_quiet_def intro: import_step_ok)

lemma drv_wf_whse_live:
  assumes wf: "drv_wf D hp hv hc s" and ok: "imports_ok s"
  shows "whse_live c s"
  unfolding whse_live_def
proof (intro allI impI conjI)
  fix cx
  assume c: "st_ctxs s c = Some cx"
  from drv_wf_exps [OF wf] obtain own where own: "exps_ok own (xv (st_exps s)) (iv (st_pchans s))
    (wv (st_ctxs s)) (st_reclaim_list s) (st_next s)" by blast
  from exps_ok_whse [OF own look_w [OF c]] show "distinct (map fst (cx_imp_whse cx))" by (simp add: whse_ok_def)
  fix k e
  assume e: "(k, e) \<in> set (cx_imp_whse cx)"
  obtain x where x: "own e = Some (OImp c)" "st_exps s e = Some x" by (rule imp_whse_facts [OF own c e])
  with exps_ok_owned [OF own x(1)] imports_okD [OF ok c e x(2)]
  show "entry_ok s k e" by (simp add: entry_ok_def owned_ok_def)
qed

lemma idle_threads_ok:
  "drv_wf D hp hv hc s \<Longrightarrow> imports_ok s \<Longrightarrow> (\<And>t. T t = Idle) \<Longrightarrow> threads_ok c (s, T)"
  using drv_wf_whse_live by (simp add: threads_ok_def claims_ok_def)

section \<open>Exclusive claims\<close>

text \<open>
  C16. Imports and unimports on one context do not get in each other's way as long as no import fails on a
  channel of the new memory protocol: in every interleaving of any number of threads, of either protocol,
  with descriptors arriving in between, at most one thread works on a descriptor, and the descriptor it
  works on is allocated and in the state the thread has put it in, so that none is mapped twice, unmapped
  while it is mapped, or used after another thread has freed it.
\<close>
theorem import_claims_exclusive:
  assumes "drv_wf {} hp hv hc s0" "imports_ok s0" "\<And>t. T0 t = Idle"
    and "(import_quiet kv c)\<^sup>*\<^sup>* (s0, T0) (s, T)"
  shows "(\<forall>t u e st st'. claimed (T t) = Some (e, st) \<longrightarrow> claimed (T u) = Some (e, st') \<longrightarrow> t = u) \<and>
    (\<forall>t e st. claimed (T t) = Some (e, st) \<longrightarrow> (\<exists>x. st_exps s e = Some x \<and> ex_import_state x = st))"
  using import_steps_ok [OF assms(4) idle_threads_ok [OF assms(1-3)]] assms(3) by (auto simp: threads_ok_def claims_ok_def)

text \<open>Two threads try the descriptor of the example: the first gets it, the second is refused.\<close>

definition drv_claimed :: hab_driver where
  "drv_claimed = drv_ex\<lparr>st_exps := (st_exps drv_ex)(4 \<mapsto>
     (export_ex 9 HAB_EXP_EXPORTING)\<lparr>ex_import_state := EXP_DESC_IMPORTING\<rparr>)\<rparr>"

lemma claim_ex:
  "import_claim 2 (9, 1) drv_ex = Some (Inr 4, drv_claimed)"
  "import_claim 2 (9, 1) drv_claimed = Some (Inl (- EINVAL), drv_claimed)"
  by (simp_all add: import_claim_def drv_claimed_def drv_ex_def ctx_ex_def export_ex_def exp_set_state_def mod_exp_def)

theorem import_claims_exclusive_witness:
  "\<exists>T. (import_quiet kernel_ex 2)\<^sup>*\<^sup>* (drv_ex, \<lambda>_. Idle) (drv_claimed, T) \<and> T 0 = Mapping 4 \<and> T 1 = Idle \<and>
     (\<forall>u st. claimed (T u) = Some (4, st) \<longrightarrow> 0 = u)"
proof -
  let ?T = "(\<lambda>_ :: nat. Idle)(0 := Mapping 4)"
  have a: "import_quiet kernel_ex 2 (drv_ex, \<lambda>_. Idle) (drv_claimed, ?T)"
    using import_step.claim [where T = "\<lambda>_. Idle" and t = 0, OF refl claim_ex(1)] by (simp add: after_claim_def import_quiet_def)
  have b: "import_quiet kernel_ex 2 (drv_claimed, ?T) (drv_claimed, ?T(1 := Idle))"
    using import_step.claim [where T = ?T and t = 1, OF _ claim_ex(2)] by (simp add: after_claim_def import_quiet_def)
  have run: "(import_quiet kernel_ex 2)\<^sup>*\<^sup>* (drv_ex, \<lambda>_. Idle) (drv_claimed, ?T(1 := Idle))"
    by (rule rtranclp.rtrancl_into_rtrancl [OF r_into_rtranclp [of "import_quiet kernel_ex 2", OF a] b])
  note only = conjunct1 [OF import_claims_exclusive [OF drv_ex_wf drv_ex_imports refl run], rule_format]
  have "claimed ((?T(1 := Idle)) u) = Some (4, st) \<longrightarrow> 0 = u" for u st
    using only [where t = 0 and u = u and e = 4 and st = EXP_DESC_IMPORTING and st' = st] by simp
  with run show ?thesis by (intro exI [of _ "?T(1 := Idle)"]) simp
qed

end
