(* ===== verification/Hab_Tables.thy ===== *)
theory Hab_Tables
  imports Hab_Import_Threads Hab_Guarantees
begin

text \<open>
  What the importer relies on is what the receiver checked: the region tables of the import warehouse
  are valid, and stay so whatever messages arrive.
\<close>

definition tabs ::
  "(nat \<Rightarrow> uhab_context option) \<Rightarrow> (nat \<Rightarrow> export_desc_super option) \<Rightarrow> nat \<Rightarrow> bool" where
  "tabs C X n \<longleftrightarrow> (\<forall>c cx k e. C c = Some cx \<longrightarrow> (k, e) \<in> set (cx_imp_whse cx) \<longrightarrow>
     e < n \<and> (\<forall>x. X e = Some x \<longrightarrow> exp_key x = Some k \<and> table_ok (ex_payload_count x) (ex_payload x)))"

abbreviation tables_ok :: "hab_driver \<Rightarrow> bool" where
  "tables_ok s \<equiv> tabs (st_ctxs s) (st_exps s) (st_next s)"

text \<open>A descriptor that is in no import warehouse.\<close>

definition unlisted :: "nat \<Rightarrow> (nat \<Rightarrow> uhab_context option) \<Rightarrow> bool" where
  "unlisted e C \<longleftrightarrow> (\<forall>c cx. C c = Some cx \<longrightarrow> e \<notin> snd ` set (cx_imp_whse cx))"

section \<open>Updates\<close>

lemma tabs_gone [simp]:
  "tabs C X n \<Longrightarrow> tabs C (X(e := None)) n" "tabs C X n \<Longrightarrow> tabs (C(c := None)) X n"
  unfolding tabs_def by (auto split: if_splits)

lemma tabs_exp [simp]: "tabs C X n \<Longrightarrow> X e = Some x \<Longrightarrow> same_desc x y \<Longrightarrow> tabs C (X(e \<mapsto> y)) n"
  by (fastforce simp: tabs_def same_desc_def split: if_splits)

lemma tabs_ctx [simp]:
  "tabs C X n \<Longrightarrow> C c = Some cx \<Longrightarrow> set (cx_imp_whse cx') \<subseteq> set (cx_imp_whse cx) \<Longrightarrow> tabs (C(c \<mapsto> cx')) X n"
  by (fastforce simp: tabs_def split: if_splits)

lemma tabs_unlisted [simp]: "tabs C X n \<Longrightarrow> unlisted e C \<Longrightarrow> tabs C (X(e \<mapsto> y)) n"
  by (force simp: tabs_def unlisted_def split: if_splits)

lemma tabs_new:
  assumes "tabs C X n" "C c = Some cx" "exp_key x = Some k" "table_ok (ex_payload_count x) (ex_payload x)"
    and "cx_imp_whse cx' = whse_insert k n (cx_imp_whse cx)"
  shows "tabs (C(c \<mapsto> cx')) (X(n \<mapsto> x)) (Suc n)"
  using assms by (fastforce simp: tabs_def set_whse_insert split: if_splits)

lemma whse_remove_subset [simp]: "set (whse_remove k m) \<subseteq> set m"
  by (auto simp: set_whse_remove)

lemma same_desc_simps [simp]:
  "same_desc x x" "same_desc x (x\<lparr>ex_refcount := n\<rparr>)" "same_desc x (x\<lparr>ex_dmabuf := d\<rparr>)"
  "same_desc x (x\<lparr>ex_ctx := c\<rparr>)" "same_desc x (x\<lparr>ex_remote_imported := b\<rparr>)"
  "same_desc x (x\<lparr>ex_refcount := n, ex_dmabuf := d\<rparr>)"
  by (simp_all add: same_desc_def exp_key_def)

section \<open>Objects\<close>

text \<open>The collection of what keeps the tables: each operation's result state has them if its start has.\<close>

named_theorems tables "the region tables stay valid"

lemmas run_defs = bind_eq_Some_conv Let_def

lemma mod_tables [tables]:
  "kalloc s = (ok, s') \<Longrightarrow> tables_ok s \<Longrightarrow> tables_ok s'"
  "mod_pchan p f s = Some s' \<Longrightarrow> tables_ok s \<Longrightarrow> tables_ok s'"
  "mod_vchan v g s = Some s' \<Longrightarrow> tables_ok s \<Longrightarrow> tables_ok s'"
  "mod_dev d h s = Some s' \<Longrightarrow> tables_ok s \<Longrightarrow> tables_ok s'"
  using kalloc_frame [of s ok s'] by (auto simp: mod_pchan_def mod_vchan_def mod_dev_def split: option.splits if_splits)

text \<open>The state after an allocation is known, whether it succeeds or not.\<close>

lemma case_kalloc:
  "(case kalloc s of (ok, s1) \<Rightarrow> f ok s1) = f (st_mem s = [] \<or> \<not> hd (st_mem s)) (s\<lparr>st_mem := tl (st_mem s)\<rparr>)"
  by (cases s) (auto simp: kalloc_def split: list.splits)

lemma hyp_tables: "hyp_frame p s s' \<Longrightarrow> tables_ok s' = tables_ok s"
  by (auto simp: hyp_frame_def)

lemma transport_tables [tables]:
  "physical_channel_send p h b s = Some (r, s') \<Longrightarrow> tables_ok s \<Longrightarrow> tables_ok s'"
  "physical_channel_read p n s = Some (r, bs, s') \<Longrightarrow> tables_ok s \<Longrightarrow> tables_ok s'"
  using send_frame read_frame hyp_tables by blast+

lemma pchan_tables [tables]:
  "hab_pchan_put p s = Some s' \<Longrightarrow> tables_ok s \<Longrightarrow> tables_ok s'"
  "hab_pchan_get p s = Some s' \<Longrightarrow> tables_ok s \<Longrightarrow> tables_ok s'"
  by (auto simp: hab_pchan_put_def hab_pchan_get_def hab_pchan_free_def run_defs dest: tables split: if_splits)

lemma unimport_msg_tables [tables]: "hab_send_unimport_msg v i s = Some s' \<Longrightarrow> tables_ok s \<Longrightarrow> tables_ok s'"
  by (auto simp: hab_send_unimport_msg_def run_defs dest: tables)

lemma export_put_tables [tables]: "habmem_export_put e s = Some s' \<Longrightarrow> tables_ok s \<Longrightarrow> tables_ok s'"
  unfolding habmem_export_put_def habmem_export_destroy_def habmem_exp_release_def run_defs
  by (auto split: if_splits option.splits)

lemma remove_export_tables [tables]: "habmem_remove_export e s = Some s' \<Longrightarrow> tables_ok s \<Longrightarrow> tables_ok s'"
  unfolding habmem_remove_export_def run_defs
  by (auto dest!: export_put_tables split: option.splits)

lemma ctx_free_exports_tables: "ctx_free_exports c es s = Some s' \<Longrightarrow> tables_ok s \<Longrightarrow> tables_ok s'"
proof (induction es arbitrary: s)
  case (Cons e es)
  then show ?case
    by (auto simp: run_defs expid_remove_def split: if_splits dest!: remove_export_tables)
qed simp

lemma ctx_free_imports_tables: "ctx_free_imports c m s = Some s' \<Longrightarrow> tables_ok s \<Longrightarrow> tables_ok s'"
proof (induction m arbitrary: s)
  case (Cons a m)
  then show ?case
    by (cases a) (auto simp: run_defs habmm_imp_hyp_unmap_def split: if_splits dest!: transport_tables(1))
qed simp

lemma ctx_put_tables [tables]: "hab_ctx_put c s = Some s' \<Longrightarrow> tables_ok s \<Longrightarrow> tables_ok s'"
  unfolding hab_ctx_put_def hab_ctx_free_def run_defs
  by (auto split: if_splits dest!: ctx_free_exports_tables ctx_free_imports_tables)

lemma msgs_free_tables: "hab_msgs_free ms s = Some s' \<Longrightarrow> s' = s"
  by (induction ms) (auto simp: run_defs hab_msg_free_def split: msg_body.splits if_splits)

lemma vchan_put_tables [tables]: "hab_vchan_put v s = Some s' \<Longrightarrow> tables_ok s \<Longrightarrow> tables_ok s'"
  unfolding hab_vchan_put_def hab_vchan_free_def run_defs
  by (auto split: if_splits dest!: msgs_free_tables ctx_put_tables pchan_tables(1))

lemma vchan_get_tables [tables]: "hab_vchan_get p h s = Some (r, s') \<Longrightarrow> tables_ok s \<Longrightarrow> tables_ok s'"
  by (auto simp: hab_vchan_get_def vchan_get_unless_zero_def run_defs split: option.splits if_splits)

section \<open>Messages\<close>

lemma kallocs_tables: "kallocs n s = (ok, s') \<Longrightarrow> tables_ok s \<Longrightarrow> tables_ok s'"
  by (induction n arbitrary: s) (auto split: prod.splits if_splits dest: tables)

lemma read_pages_tables: "read_pages p ns s = Some (t, ps, s') \<Longrightarrow> tables_ok s \<Longrightarrow> tables_ok s'"
  by (induction ns arbitrary: s t ps) (auto simp: run_defs dest!: transport_tables(2))

lemma msg_alloc_tables [tables]: "hab_msg_alloc p n s = Some (m, s') \<Longrightarrow> tables_ok s \<Longrightarrow> tables_ok s'"
  by (auto simp: hab_msg_alloc_def hab_scatter_msg_alloc_def run_defs split: prod.splits if_splits
      dest!: kallocs_tables read_pages_tables mod_tables(1) transport_tables(2))

lemma drop_tables [tables]: "drop_ret p n r s = Some (r', s') \<Longrightarrow> tables_ok s \<Longrightarrow> tables_ok s'"
  by (auto simp: drop_ret_def hab_msg_drop_def run_defs split: prod.splits if_splits
      dest!: mod_tables(1) transport_tables(2))

lemma imp_rxq_add_tables [tables]: "imp_rxq_add c a s = Some s' \<Longrightarrow> tables_ok s \<Longrightarrow> tables_ok s'"
  by (auto simp: imp_rxq_add_def run_defs)

lemma invalid_ack_tables [tables]: "hab_create_invalid_ack v i s = Some s' \<Longrightarrow> tables_ok s \<Longrightarrow> tables_ok s'"
  by (auto simp: hab_create_invalid_ack_def case_kalloc run_defs split: if_splits dest!: mod_tables(1) imp_rxq_add_tables)

lemma reject_tables [tables]: "export_desc_reject v pc i s = Some s' \<Longrightarrow> tables_ok s \<Longrightarrow> tables_ok s'"
  by (auto simp: export_desc_reject_def run_defs split: if_splits dest!: invalid_ack_tables unimport_msg_tables)

lemma export_ack_tables [tables]:
  "hab_send_export_ack v p x s = Some (r, s') \<Longrightarrow> tables_ok s \<Longrightarrow> tables_ok s'"
  "hab_receive_create_export_ack p c n s = Some (r, s') \<Longrightarrow> tables_ok s \<Longrightarrow> tables_ok s'"
  "hab_receive_import_ack_fail p v s = Some (r, s') \<Longrightarrow> tables_ok s \<Longrightarrow> tables_ok s'"
  "hab_send_import_ack_fail v i s = Some (r, s') \<Longrightarrow> tables_ok s \<Longrightarrow> tables_ok s'"
  by (auto simp: hab_send_export_ack_def hab_receive_create_export_ack_def hab_receive_import_ack_fail_def
      hab_send_import_ack_fail_def case_kalloc run_defs split: if_splits
      dest!: mod_tables(1) transport_tables imp_rxq_add_tables)

lemma enqueue_tables:
  "hab_export_enqueue v x s = Some (r, s') \<Longrightarrow> table_ok (ex_payload_count x) (ex_payload x) \<Longrightarrow>
     tables_ok s \<Longrightarrow> tables_ok s'"
  by (drule export_enqueue_cases) (auto intro: tabs_new)

lemma enqueue_valid_tables:
  assumes "hab_export_enqueue v (export_localize p pc vc (export_of_bytes (into_zeroed n b))) s = Some (r, s')"
    and "export_desc_valid (export_localize p pc vc (export_of_bytes (into_zeroed n b))) n" "tables_ok s"
  shows "tables_ok s'"
  using enqueue_tables [OF assms(1) valid_table [OF refl] assms(3)] assms(2) by simp

lemma receive_desc_tables [tables]:
  assumes run: "hab_receive_export_desc p v n s = Some (r, s')" and ok: "tables_ok s"
  shows "tables_ok s'"
proof (cases "HAB_HEADER_SIZE_MAX < n \<or> n < export_desc_size + compressed_pfns_size \<or> \<not> (st_mem s = [] \<or> \<not> hd (st_mem s))")
  case True
  with run ok show ?thesis
    unfolding hab_receive_export_desc_def case_kalloc by (auto split: if_splits)
next
  case False
  with run obtain r1 b s2 where rd: "physical_channel_read p n (s\<lparr>st_mem := tl (st_mem s)\<rparr>) = Some (r1, b, s2)"
    unfolding hab_receive_export_desc_def case_kalloc by (auto simp: run_defs)
  have ok2: "tables_ok s2" using transport_tables(2) [OF rd] ok by simp
  note run1 = run [unfolded hab_receive_export_desc_def case_kalloc] False rd
  show ?thesis
  proof (cases "r1 = int n")
    case False
    with run1 ok2 show ?thesis by simp
  next
    case True
    with run1 obtain pc vc where pc: "st_pchans s2 p = Some pc" "st_vchans s2 v = Some vc" by (auto simp: run_defs)
    define x where "x = export_localize p pc vc (export_of_bytes (into_zeroed n b))"
    note run2 = run1 True pc
    show ?thesis
    proof (cases "export_desc_valid x n")
      case False
      with run2 ok2 reject_tables show ?thesis by (auto simp: x_def [symmetric] run_defs)
    next
      case valid: True
      note enq = enqueue_valid_tables [where p = p and pc = pc and vc = vc and n = n and b = b, folded x_def, OF _ valid]
      show ?thesis
      proof (cases "pc_mem_proto pc = 1")
        case True
        with run2 valid ok2 show ?thesis
          by (auto simp: x_def [symmetric] run_defs split: if_splits dest!: reject_tables enq imp_rxq_add_tables)
      next
        case False
        with run2 valid ok2 show ?thesis
          by (auto simp: x_def [symmetric] run_defs dest!: enq export_ack_tables(1))
      qed
    qed
  qed
qed

lemma unimport_recv_tables [tables]: "hab_recv_unimport_msg p s = Some s' \<Longrightarrow> tables_ok s \<Longrightarrow> tables_ok s'"
  by (auto simp: hab_recv_unimport_msg_def run_defs split: option.splits if_splits dest!: transport_tables(2))

lemma recv_queue_tables [tables]:
  "recv_message p v n s = Some s' \<Longrightarrow> tables_ok s \<Longrightarrow> tables_ok s'"
  "recv_profile p v n s = Some s' \<Longrightarrow> tables_ok s \<Longrightarrow> tables_ok s'"
  "recv_sche p v n s = Some s' \<Longrightarrow> tables_ok s \<Longrightarrow> tables_ok s'"
  by (auto simp: recv_message_def recv_profile_def recv_sche_def hab_msg_queue_def run_defs
      split: option.splits if_splits dest!: msg_alloc_tables)

text \<open>
  An import request is about an export of the channel, which no import warehouse has: the sender blanks
  three pointers of the descriptor while it is sent.
\<close>

lemma idr_unlisted:
  assumes wf: "drv_wf D hp hv hc s" and p: "st_pchans s p = Some pc" "idr_find (pc_expid_idr pc) j = Some e"
  shows "unlisted e (st_ctxs s)"
  unfolding unlisted_def
proof (intro allI impI)
  fix c cx
  assume c: "st_ctxs s c = Some cx"
  from drv_wf_exps [OF wf] obtain own where own: "exps_ok own (xv (st_exps s)) (iv (st_pchans s))
    (wv (st_ctxs s)) (st_reclaim_list s) (st_next s)" by blast
  from exps_ok_idr [OF own look_i [OF p(1)]] idr_find_Some_in [OF p(2)] obtain q where
    "own e = Some q" "\<forall>c. q \<noteq> OImp c" by (fastforce simp: idr_ok_def)
  then show "e \<notin> snd ` set (cx_imp_whse cx)"
    using exps_ok_whse [OF own look_w [OF c]] by (auto simp: whse_ok_def)
qed

lemma import_ack_tables:
  assumes run: "hab_send_import_ack v e s = Some (r, s')" and ok: "tables_ok s" "unlisted e (st_ctxs s)"
  shows "tables_ok s'"
proof -
  from run obtain vc x where x: "st_vchans s v = Some vc" "st_exps s e = Some x"
    by (auto simp: hab_send_import_ack_def run_defs)
  define s1 where "s1 = s\<lparr>st_exps := (st_exps s)(e \<mapsto> x\<lparr>ex_pchan := None, ex_vchan := None, ex_ctx := None\<rparr>)\<rparr>"
  from run x obtain h b s2 where s2: "physical_channel_send (vc_pchan vc) h b s1 = Some (r, s2)"
    "mod_exp e (\<lambda>x. x\<lparr>ex_pchan := Some (vc_pchan vc), ex_vchan := Some v, ex_ctx := Some (vc_ctx vc)\<rparr>) s2 = Some s'"
    by (auto simp: hab_send_import_ack_def run_defs s1_def)
  have "tables_ok s1" "unlisted e (st_ctxs s1)" using ok by (simp_all add: s1_def)
  with send_frame [OF s2(1)] have "tables_ok s2" "unlisted e (st_ctxs s2)" by (auto simp: hyp_frame_def)
  with s2(2) show ?thesis by auto
qed

lemma recv_import_tables:
  assumes run: "recv_import p v s = Some s'" and ok: "tables_ok s" and wf: "drv_wf D hp hv hc s"
  shows "tables_ok s'"
proof -
  from run obtain r b s1 where rd: "physical_channel_read p import_data_size s = Some (r, b, s1)"
    by (auto simp: recv_import_def run_defs)
  have ok1: "tables_ok s1" using transport_tables(2) [OF rd ok] .
  have un: "unlisted e (st_ctxs s1)" if "st_pchans s1 p = Some pc" "idr_find (pc_expid_idr pc) j = Some e" for pc j e
  proof -
    from hyp_idr [OF read_frame [OF rd] that(1)] that(2) idr_unlisted [OF wf] read_frame [OF rd]
    show ?thesis by (fastforce simp: hyp_frame_def)
  qed
  show ?thesis
  proof (cases "r = int import_data_size")
    case False
    with run rd ok1 show ?thesis by (simp add: recv_import_def)
  next
    case True
    with run rd obtain pc where pc: "st_pchans s1 p = Some pc" by (auto simp: recv_import_def run_defs)
    let ?q = "dec_import_data (into_zeroed import_data_size b)"
    note run1 = run [unfolded recv_import_def] rd True pc
    show ?thesis
    proof (cases "idr_find (pc_expid_idr pc) (unat (id_exp_id ?q))")
      case None
      with run1 ok1 show ?thesis by (auto simp: run_defs dest!: export_ack_tables(4))
    next
      case (Some e)
      with run1 obtain x where x: "st_exps s1 e = Some x" by (auto simp: run_defs)
      show ?thesis
      proof (cases "id_page_cnt ?q = ex_payload_count x \<and> ex_exp_state x = HAB_EXP_SUCCESS")
        case True
        with run1 Some x ok1 un [OF pc Some] show ?thesis by (auto simp: run_defs dest!: import_ack_tables)
      next
        case False
        with run1 Some x ok1 show ?thesis by (auto simp: run_defs dest!: export_ack_tables(4))
      qed
    qed
  qed
qed

section \<open>The dispatch\<close>

lemma open_tables [tables]:
  "hab_open_request_add p n ty s = Some (r, s') \<Longrightarrow> tables_ok s \<Longrightarrow> tables_ok s'"
  "hab_open_receive_cancel p n s = Some (r, s') \<Longrightarrow> tables_ok s \<Longrightarrow> tables_ok s'"
  unfolding hab_open_request_add_def hab_open_receive_cancel_def case_kalloc openq_add_def run_defs
  by (auto split: if_splits option.splits dest!: transport_tables(2) pchan_tables(2) simp del: get_dev_Some)

lemma recv_vchan_msg_tables:
  assumes run: "recv_vchan_msg p v ty n s = Some (r, s')" and ok: "tables_ok s" and wf: "drv_wf D hp hv hc s"
  shows "tables_ok s'"
  using run ok recv_import_tables [OF _ ok wf]
  by (auto simp: recv_vchan_msg_def run_defs hab_vchan_stop_def split: option.splits hab_payload_type.splits
      dest!: recv_queue_tables receive_desc_tables export_ack_tables unimport_recv_tables)

lemma msg_recv_tables:
  assumes run: "hab_msg_recv p h s = Some (r, s')" and ok: "tables_ok s" and wf: "drv_wf {} hp hv hc s"
    and readable: "readable p s"
  shows "tables_ok s'"
proof (cases "is_open_type (HAB_HEADER_GET_TYPE h)")
  case True
  with run ok show ?thesis
    by (auto simp: hab_msg_recv_def Let_def split: if_splits dest!: open_tables drop_tables)
next
  case False
  obtain vo s1 where get: "hab_vchan_get p h s = Some (vo, s1)"
    using run False by (auto simp: hab_msg_recv_def run_defs)
  have ok1: "tables_ok s1" using vchan_get_tables [OF get ok] .
  note run1 = run [unfolded hab_msg_recv_def Let_def] False get
  show ?thesis
  proof (cases vo)
    case None
    with run1 ok1 show ?thesis
      by (auto simp: run_defs split: if_splits dest!: drop_tables unimport_recv_tables)
  next
    case (Some v)
    with run1 obtain vc where vc: "st_vchans s1 v = Some vc" by (auto simp: run_defs)
    have wf1: "drv_wf {} hp (hv(v := Suc (hv v))) hc s1"
      using vchan_get_msg_wf [OF wf, of p _ h] get Some readable_pchan [OF readable] by (fastforce simp: safe_ex)
    show ?thesis
    proof (cases "vc_otherend_closed vc")
      case True
      with run1 Some vc ok1 show ?thesis by (auto simp: run_defs dest!: vchan_put_tables drop_tables)
    next
      case False
      with run1 Some vc obtain s2 r2 where
        "recv_vchan_msg p v (HAB_HEADER_GET_TYPE h) (unat (HAB_HEADER_GET_SIZE h)) s1 = Some (r2, s2)"
        "hab_vchan_put v s2 = Some s'" by (auto simp: run_defs)
      with vchan_put_tables recv_vchan_msg_tables [OF _ ok1 wf1] show ?thesis by blast
    qed
  qed
qed

lemma import_inv_tables: "import_inv hp hv hc s \<Longrightarrow> tables_ok s"
  using drv_wf_whse_live [of "{}" hp hv hc s]
  by (fastforce simp: import_inv_def tabs_def whse_live_def entry_ok_def)

lemma tables_imports_ok: "tables_ok s \<Longrightarrow> imports_ok s"
  unfolding tabs_def imports_ok_def by blast

text \<open>
  C17. What arrives does not spoil what is imported later.  Whatever message the other side sends, a
  descriptor with any region table included, except a profiling or scheduling message larger than a page
  (which can overwrite memory, \<open>profile_message_overruns_page_table\<close>), every table in the import warehouse of
  every context is still one that can be expanded within the pages it announces, so that an import that
  follows, with any parameters, on any context a caller holds, stays within its memory.  Assumed is that the
  finished exports of the channel are complete and belong to the context of its virtual channels, and the
  invariant, which other threads keep while the import waits.
\<close>
theorem message_then_import_safe:
  assumes inv: "import_inv hp hv hc s" and peer: "readable p s" "exports_ok p s" "stamped_small h"
    and c: "0 < hc c" and w: "\<And>v. env_ok (import_inv hp (hv(v := Suc (hv v))) hc) w"
  shows "\<exists>r s'. hab_msg_recv p h s = Some (r, s') \<and> import_inv hp hv hc s' \<and>
    run_ok (\<lambda>s'. \<exists>v. import_inv hp (hv(v := Suc (hv v))) hc s') (\<lambda>_ w' s'. drv_wf {} hp hv hc s')
      (hab_mem_import kv c param kern w s')"
proof -
  have wf: "drv_wf {} hp hv hc s" using inv by (simp add: import_inv_def)
  from msg_recv_wf [OF wf peer] obtain r s' where run: "hab_msg_recv p h s = Some (r, s')" "drv_wf {} hp hv hc s'"
    unfolding safe_ex by auto
  then have "import_inv hp hv hc s'"
    using tables_imports_ok msg_recv_tables [OF run(1) import_inv_tables [OF inv] wf peer(1)] by (simp add: import_inv_def)
  with run hab_mem_import_wf [OF this c w] show ?thesis by blast
qed

theorem message_then_import_safe_witness:
  "\<exists>r s'. hab_msg_recv 1 (send_header vchan_ex HAB_PAYLOAD_TYPE_EXPORT 113) drv_ex = Some (r, s') \<and>
     import_inv none_held none_held files_ex s'"
proof -
  have inv: "import_inv none_held none_held files_ex drv_ex" using drv_ex_wf drv_ex_imports by (simp add: import_inv_def)
  have "HAB_HEADER_GET_TYPE (send_header vchan_ex HAB_PAYLOAD_TYPE_EXPORT 113) \<notin> {payload_code HAB_PAYLOAD_TYPE_PROFILE,
       payload_code HAB_PAYLOAD_TYPE_SCHE_MSG, payload_code HAB_PAYLOAD_TYPE_SCHE_MSG_ACK}" by code_simp
  then have small: "stamped_small (send_header vchan_ex HAB_PAYLOAD_TYPE_EXPORT 113)" by (simp only: stamped_small_def) blast
  show ?thesis
    using message_then_import_safe [OF inv drv_ex_readable drv_ex_exports small _ env_ok_idle, of 2 kernel_ex]
    by (fastforce simp: files_ex_def)
qed

end
