(* ===== verification/Hab_Linux.thy ===== *)
theory Hab_Linux
  imports Hab_Delivery
begin

text \<open>
  The character device (\<^verbatim>\<open>hab_linux.c\<close>): open and release of a file, the ioctl calls, the copy of a
  received message to the caller, and the worker that reclaims exports whose context is gone.

  A caller's memory is a map from addresses to bytes; an address without a byte is one the caller may
  not touch.  The parameter block of an ioctl is the stack buffer the code copies it to, and the
  structures of \<^verbatim>\<open>hab_ioctl.h\<close> are read from it and written to it at their offsets.
\<close>

section \<open>The caller's memory\<close>

type_synonym umem = "u64 \<Rightarrow> u8 option"

text \<open>The number of bytes not copied, as the kernel's function returns it, and the memory after it.\<close>

fun copy_to_user :: "u64 \<Rightarrow> bytes \<Rightarrow> umem \<Rightarrow> nat \<times> umem" where
  "copy_to_user a [] um = (0, um)"
| "copy_to_user a (b # bs) um =
     (if um a = None then (Suc (length bs), um) else copy_to_user (a + 1) bs (um(a \<mapsto> b)))"

fun copy_from_user :: "u64 \<Rightarrow> nat \<Rightarrow> umem \<Rightarrow> bytes option" where
  "copy_from_user a 0 um = Some []"
| "copy_from_user a (Suc n) um = do { b \<leftarrow> um a; bs \<leftarrow> copy_from_user (a + 1) n um; Some (b # bs) }"

lemma copy_to_user_append:
  "copy_to_user a (xs @ ys) um = (case copy_to_user a xs um of (l, um1) \<Rightarrow>
     if l = 0 then copy_to_user (a + of_nat (length xs)) ys um1 else (l + length ys, um1))"
proof (induction xs arbitrary: a um)
  case (Cons b xs)
  show ?case by (simp add: Cons.IH add.assoc del: fun_upd_apply split: prod.split)
qed simp

lemma copy_from_user_length: "copy_from_user a n um = Some bs \<Longrightarrow> length bs = n"
  by (induction n arbitrary: a bs) auto

text \<open>What was copied out can be read back, if the block does not wrap around onto itself.\<close>

lemma copy_to_user_other:
  "copy_to_user a bs um = (l, um') \<Longrightarrow> (\<And>i. i < length bs \<Longrightarrow> x \<noteq> a + of_nat i) \<Longrightarrow> um' x = um x"
proof (induction bs arbitrary: a um)
  case (Cons b bs)
  have x: "x \<noteq> a" using Cons.prems(2) [of 0] by simp
  show ?case
  proof (cases "um a = None")
    case False
    with Cons.prems(1) have "copy_to_user (a + 1) bs (um(a \<mapsto> b)) = (l, um')" by simp
    moreover have "x \<noteq> a + 1 + of_nat i" if "i < length bs" for i
      using Cons.prems(2) [of "Suc i"] that by (simp add: ac_simps)
    ultimately have "um' x = (um(a \<mapsto> b)) x" by (rule Cons.IH)
    with x show ?thesis by simp
  qed (use Cons.prems(1) in simp)
qed simp

lemma copy_back:
  "copy_to_user a bs um = (0, um') \<Longrightarrow> length bs \<le> 2 ^ 64 \<Longrightarrow> copy_from_user a (length bs) um' = Some bs"
proof (induction bs arbitrary: a um)
  case (Cons b bs)
  then have rest: "copy_to_user (a + 1) bs (um(a \<mapsto> b)) = (0, um')"
    by (auto split: if_splits simp del: fun_upd_apply)
  have "a \<noteq> a + 1 + of_nat i" if i: "i < length bs" for i
  proof
    assume "a = a + 1 + of_nat i"
    then have "a + of_nat (Suc i) = a + 0" by (simp add: ac_simps)
    then have "of_nat (Suc i) = (0 :: u64)" by (rule add_left_imp_eq)
    then have "2 ^ 64 dvd Suc i" by (simp add: word_of_nat_eq_0_iff del: of_nat_Suc)
    then show False using i Cons.prems(2) by (auto dest!: dvd_imp_le)
  qed
  from copy_to_user_other [OF rest this] have "um' a = Some b" by simp
  with Cons.IH [OF rest] Cons.prems(2) show ?case by simp
qed simp

section \<open>Parameter blocks\<close>

text \<open>The structures of \<^verbatim>\<open>hab_ioctl.h\<close> that the ioctl calls share with the caller.\<close>

record hab_send =
  hs_data :: u64
  hs_vcid :: u32
  hs_sizebytes :: u32
  hs_flags :: u32

record hab_recv =
  hr_data :: u64
  hr_vcid :: u32
  hr_sizebytes :: u32
  hr_timeout :: u32
  hr_flags :: u32

record hab_open =
  ho_vcid :: u32
  ho_mmid :: u32
  ho_timeout :: u32
  ho_flags :: u32

record hab_info =
  hf_vcid :: u32
  hf_ids :: u64
  hf_names :: u64
  hf_namesize :: u32
  hf_flags :: u32

definition dec_send :: "bytes \<Rightarrow> hab_send" where
  "dec_send b = \<lparr>hs_data = field64 0 b, hs_vcid = field32 8 b, hs_sizebytes = field32 12 b,
     hs_flags = field32 16 b\<rparr>"

definition dec_recv :: "bytes \<Rightarrow> hab_recv" where
  "dec_recv b = \<lparr>hr_data = field64 0 b, hr_vcid = field32 8 b, hr_sizebytes = field32 12 b,
     hr_timeout = field32 16 b, hr_flags = field32 20 b\<rparr>"

definition dec_open :: "bytes \<Rightarrow> hab_open" where
  "dec_open b = \<lparr>ho_vcid = field32 0 b, ho_mmid = field32 4 b, ho_timeout = field32 8 b,
     ho_flags = field32 12 b\<rparr>"

definition dec_info :: "bytes \<Rightarrow> hab_info" where
  "dec_info b = \<lparr>hf_vcid = field32 0 b, hf_ids = field64 8 b, hf_names = field64 16 b,
     hf_namesize = field32 24 b, hf_flags = field32 28 b\<rparr>"

definition dec_export :: "bytes \<Rightarrow> hab_export" where
  "dec_export b = \<lparr>he_buffer = field64 0 b, he_vcid = field32 8 b, he_sizebytes = field32 12 b,
     he_exportid = field32 16 b, he_flags = field32 20 b\<rparr>"

definition dec_import :: "bytes \<Rightarrow> hab_import" where
  "dec_import b = \<lparr>hi_index = field64 0 b, hi_kva = field64 8 b, hi_vcid = field32 16 b,
     hi_sizebytes = field32 20 b, hi_exportid = field32 24 b, hi_flags = field32 28 b\<rparr>"

definition dec_unexport :: "bytes \<Rightarrow> hab_unexport" where
  "dec_unexport b = \<lparr>hu_vcid = field32 0 b, hu_exportid = field32 4 b\<rparr>"

definition dec_unimport :: "bytes \<Rightarrow> hab_unimport" where
  "dec_unimport b = \<lparr>hn_vcid = field32 0 b, hn_exportid = field32 4 b, hn_kva = field64 8 b\<rparr>"

text \<open>Writing one field of the block in place.\<close>

definition put_field :: "nat \<Rightarrow> bytes \<Rightarrow> bytes \<Rightarrow> bytes" where
  "put_field off x b = take off b @ x @ drop (off + length x) b"

definition put_import :: "hab_import \<Rightarrow> bytes \<Rightarrow> bytes" where
  "put_import p b = put_field 0 (le64 (hi_index p)) (put_field 8 (le64 (hi_kva p)) b)"

section \<open>Receive: the message to the caller\<close>

text \<open>A block of \<open>n\<close> bytes at the start of a page of a scattered message.\<close>

definition page_block :: "nat \<Rightarrow> nat \<Rightarrow> msg_page list \<Rightarrow> bytes option" where
  "page_block i n ps = (if i < length ps then (case ps ! i of
       Pg b \<Rightarrow> if n \<le> length b then Some (take n b) else None
     | Wild w \<Rightarrow> None) else None)"

text \<open>The loop over the full pages: does it run to its end, and where did it stop.\<close>

fun copy_pages ::
  "msg_page list \<Rightarrow> u64 \<Rightarrow> nat \<Rightarrow> nat \<Rightarrow> umem \<Rightarrow> (bool \<times> umem) option" where
  "copy_pages ps dest i 0 um = Some (True, um)"
| "copy_pages ps dest i (Suc k) um = do {
     b \<leftarrow> page_block i PAGE_SIZE ps;
     (case copy_to_user (dest + of_nat (i * PAGE_SIZE)) b um of (l, um1) \<Rightarrow>
       if l \<noteq> 0 then Some (False, um1) else copy_pages ps dest (Suc i) k um1)
   }"

definition hab_copy_data ::
  "hab_message \<Rightarrow> hab_recv \<Rightarrow> umem \<Rightarrow> (int \<times> hab_recv \<times> umem) option" where
  "hab_copy_data m p um = (let n = ms_sizebytes m; fail = (\<lambda>um. (- EFAULT, p\<lparr>hr_sizebytes := 0\<rparr>, um)) in
     case ms_body m of
       Scatter ps \<Rightarrow> do {
         (ok, um1) \<leftarrow> copy_pages ps (hr_data p) 0 (n div PAGE_SIZE) um;
         if ok \<and> n mod PAGE_SIZE \<noteq> 0 then do {
           b \<leftarrow> page_block (n div PAGE_SIZE) (n mod PAGE_SIZE) ps;
           (case copy_to_user (hr_data p + of_nat (n div PAGE_SIZE * PAGE_SIZE)) b um1 of (l, um2) \<Rightarrow>
             Some (if l \<noteq> 0 then fail um2 else (0, p, um2)))
         } else Some (if ok then (0, p, um1) else fail um1)
       }
     | Flat b \<Rightarrow>
         if n \<le> length b then (case copy_to_user (hr_data p) (take n b) um of (l, um1) \<Rightarrow>
           Some (if l \<noteq> 0 then fail um1 else (0, p, um1)))
         else None)"

text \<open>The bytes of a message.\<close>

definition msg_data :: "hab_message \<Rightarrow> bytes" where
  "msg_data m = take (ms_sizebytes m) (case ms_body m of
     Flat b \<Rightarrow> b | Scatter ps \<Rightarrow> concat (map page_bytes ps))"

lemma pages_full_nth:
  "pages_full ps \<Longrightarrow> i < length ps \<Longrightarrow> \<exists>b. ps ! i = Pg b \<and> (Suc i < length ps \<longrightarrow> length b = 4096)"
proof (induction ps arbitrary: i rule: pages_full.induct)
  case (3 p q ps)
  then show ?case by (cases i) auto
qed auto

lemma pages_concat_drop:
  "pages_full ps \<Longrightarrow> i < length ps \<Longrightarrow> drop (i * 4096) (concat (map page_bytes ps)) = concat (map page_bytes (drop i ps))"
proof (induction ps arbitrary: i rule: pages_full.induct)
  case (3 p q ps)
  then show ?case by (cases i) (auto simp: drop_append)
qed auto

text \<open>
  A page of a message that is long enough is the block of the message at its offset.
\<close>

lemma page_block_ok:
  assumes ps: "pages_full ps" and n: "0 < n" "n \<le> 4096" "i * 4096 + n \<le> length (concat (map page_bytes ps))"
  shows "page_block i n ps = Some (take n (drop (i * 4096) (concat (map page_bytes ps))))"
proof -
  have "length (concat (map page_bytes ps)) \<le> 4096 * length ps" using pages_full_facts [OF ps] by simp
  with n have i: "i < length ps" by linarith
  from pages_full_nth [OF ps this] obtain b where b: "ps ! i = Pg b" "Suc i < length ps \<longrightarrow> length b = 4096" by blast
  have d: "drop (i * 4096) (concat (map page_bytes ps)) = b @ concat (map page_bytes (drop (Suc i) ps))"
    using pages_concat_drop [OF ps i] b(1) i by (simp add: Cons_nth_drop_Suc [symmetric])
  have "n \<le> length b"
  proof (cases "Suc i < length ps")
    case False
    then have "drop (Suc i) ps = []" by simp
    then have "length (drop (i * 4096) (concat (map page_bytes ps))) = length b" unfolding d by simp
    with n show ?thesis by simp
  qed (use b n in simp)
  with b i d show ?thesis by (simp add: page_block_def)
qed

lemma copy_pages_ok:
  assumes ps: "pages_full ps" and k: "(i + k) * 4096 \<le> length (concat (map page_bytes ps))"
  shows "copy_pages ps a i k um = Some (case copy_to_user (a + of_nat (i * 4096))
      (take (k * 4096) (drop (i * 4096) (concat (map page_bytes ps)))) um of (l, um1) \<Rightarrow> (l = 0, um1))"
  using k
proof (induction k arbitrary: i um)
  case (Suc k)
  let ?c = "concat (map page_bytes ps)"
  have b: "page_block i 4096 ps = Some (take 4096 (drop (i * 4096) ?c))"
    by (rule page_block_ok [OF ps]) (use Suc.prems in simp_all)
  have sp: "take (Suc k * 4096) (drop (i * 4096) ?c) =
      take 4096 (drop (i * 4096) ?c) @ take (k * 4096) (drop (Suc i * 4096) ?c)"
    by (simp add: take_add ac_simps)
  have len: "length (take 4096 (drop (i * 4096) ?c)) = 4096" using Suc.prems by simp
  have off: "a + of_nat (i * 4096) + of_nat 4096 = a + of_nat (Suc i * 4096)" by (simp add: algebra_simps)
  from Suc.IH [of "Suc i"] Suc.prems
  have IH: "copy_pages ps a (Suc i) k um = Some (case copy_to_user (a + of_nat (Suc i * 4096))
      (take (k * 4096) (drop (Suc i * 4096) ?c)) um of (l, um1) \<Rightarrow> (l = 0, um1))" for um by simp
  show ?case
    unfolding copy_pages.simps b sp copy_to_user_append len off IH
    by (simp split: prod.split)
qed simp

lemma copy_data_one:
  assumes ok: "msg_ok m"
  shows "hab_copy_data m p um = Some (case copy_to_user (hr_data p) (msg_data m) um of (l, um1) \<Rightarrow>
    if l = 0 then (0, p, um1) else (- EFAULT, p\<lparr>hr_sizebytes := 0\<rparr>, um1))"
proof (cases "ms_body m")
  case (Flat b)
  with ok show ?thesis by (simp add: hab_copy_data_def msg_data_def msg_ok_def split: prod.split)
next
  case (Scatter ps)
  define n where "n = ms_sizebytes m"
  let ?c = "concat (map page_bytes ps)"
  have ps: "pages_full ps" "n \<le> length ?c" using ok Scatter by (auto simp: msg_ok_def n_def)
  have pages: "copy_pages ps (hr_data p) 0 (n div 4096) um = Some (case copy_to_user (hr_data p)
      (take (n div 4096 * 4096) ?c) um of (l, um1) \<Rightarrow> (l = 0, um1))"
    using copy_pages_ok [OF ps(1), of 0 "n div 4096" "hr_data p" um] ps(2) by simp
  have len: "length (take (n div 4096 * 4096) ?c) = n div 4096 * 4096"
    using le_trans [OF div_times_less_eq_dividend ps(2)] by simp
  have data: "msg_data m = take (n div 4096 * 4096) ?c @ take (n mod 4096) (drop (n div 4096 * 4096) ?c)"
    by (simp add: msg_data_def Scatter flip: n_def take_add)
  have last: "page_block (n div 4096) (n mod 4096) ps = Some (take (n mod 4096) (drop (n div 4096 * 4096) ?c))"
    if "n mod 4096 \<noteq> 0"
    by (rule page_block_ok [OF ps(1)]) (use that ps(2) in \<open>simp_all add: less_imp_le\<close>)
  have run: "hab_copy_data m p um = (do {
         (ok, um1) \<leftarrow> copy_pages ps (hr_data p) 0 (n div PAGE_SIZE) um;
         if ok \<and> n mod PAGE_SIZE \<noteq> 0 then do {
           b \<leftarrow> page_block (n div PAGE_SIZE) (n mod PAGE_SIZE) ps;
           (case copy_to_user (hr_data p + of_nat (n div PAGE_SIZE * PAGE_SIZE)) b um1 of (l, um2) \<Rightarrow>
             Some (if l \<noteq> 0 then (- EFAULT, p\<lparr>hr_sizebytes := 0\<rparr>, um2) else (0, p, um2)))
         } else Some (if ok then (0, p, um1) else (- EFAULT, p\<lparr>hr_sizebytes := 0\<rparr>, um1))
       })"
    unfolding hab_copy_data_def Let_def Scatter n_def by simp
  show ?thesis
  proof (cases "n mod 4096 = 0")
    case True
    then show ?thesis unfolding run pages data by (simp split: prod.split)
  next
    case False
    then show ?thesis
      unfolding run pages data copy_to_user_append len last [OF False] by (simp split: prod.split)
  qed
qed

text \<open>
  \<^verbatim>\<open>hab_copy_data\<close> of any queued message, in one block or in pages, is one copy of its bytes to the
  caller: all of them, or up to the first byte the caller may not touch, and then it reports
  \<^verbatim>\<open>-EFAULT\<close> and a size of 0.
\<close>
theorem copy_data_is_one_copy:
  assumes "msg_ok m"
  shows "hab_copy_data m p um = Some (case copy_to_user (hr_data p) (msg_data m) um of (l, um1) \<Rightarrow>
    if l = 0 then (0, p, um1) else (- EFAULT, p\<lparr>hr_sizebytes := 0\<rparr>, um1))"
  by (rule copy_data_one [OF assms])

theorem copy_data_is_one_copy_witness:
  "hab_copy_data \<lparr>ms_sizebytes = 4097, ms_sequence_rx = 0, ms_body = Scatter [Pg (replicate 4096 7), Pg [8, 9]]\<rparr>
     \<lparr>hr_data = 64, hr_vcid = 1, hr_sizebytes = 4097, hr_timeout = 0, hr_flags = 0\<rparr> (\<lambda>_. None) =
   Some (- EFAULT, \<lparr>hr_data = 64, hr_vcid = 1, hr_sizebytes = 0, hr_timeout = 0, hr_flags = 0\<rparr>, \<lambda>_. None)"
proof -
  let ?m = "\<lparr>ms_sizebytes = 4097, ms_sequence_rx = 0, ms_body = Scatter [Pg (replicate 4096 7), Pg [8, 9]]\<rparr>"
  let ?p = "\<lparr>hr_data = 64, hr_vcid = 1, hr_sizebytes = 4097, hr_timeout = 0, hr_flags = 0\<rparr>"
  have "msg_ok ?m" by (simp add: msg_ok_def)
  moreover have "msg_data ?m = 7 # replicate 4095 7 @ [8]"
    using replicate_Suc [of 4095 "7 :: u8"] by (simp add: msg_data_def)
  ultimately show ?thesis using copy_data_is_one_copy [of ?m ?p "\<lambda>_. None"] by simp
qed

section \<open>Open and release of a file\<close>

text \<open>The context that becomes the file's private data, or none.\<close>

definition hab_open_file :: "hab_driver \<Rightarrow> int \<times> nat option \<times> hab_driver" where
  "hab_open_file s = (case hab_ctx_alloc False s of
      (None, s1) \<Rightarrow> (- ENOMEM, None, s1)
    | (Some c, s1) \<Rightarrow> (0, Some c, s1))"

text \<open>The last close of a file: every channel is closed as by \<^verbatim>\<open>hab_vchan_close\<close>.\<close>

definition release_vchan :: "nat \<Rightarrow> nat \<Rightarrow> hab_driver \<Rightarrow> hab_driver option" where
  "release_vchan c v s = do {
     s1 \<leftarrow> mod_vchan v (\<lambda>vc. vc\<lparr>vc_closed := True\<rparr>) s;
     s2 \<leftarrow> mod_ctx c (\<lambda>cx. cx\<lparr>cx_vchannels := remove1 v (cx_vchannels cx), cx_vcnt := cx_vcnt cx - 1\<rparr>) s1;
     s3 \<leftarrow> hab_vchan_stop_notify v s2;
     hab_vchan_put v s3
   }"

fun release_vchans :: "nat \<Rightarrow> nat list \<Rightarrow> hab_driver \<Rightarrow> hab_driver option" where
  "release_vchans c [] s = Some s"
| "release_vchans c (v # vs) s = do { s1 \<leftarrow> release_vchan c v s; release_vchans c vs s1 }"

fun release_pending :: "hab_open_request list \<Rightarrow> hab_driver \<Rightarrow> hab_driver option" where
  "release_pending [] s = Some s"
| "release_pending (r # rs) s = do { (ret, s1) \<leftarrow> hab_open_cancel_notify r s; release_pending rs s1 }"

definition hab_release :: "nat option \<Rightarrow> hab_driver \<Rightarrow> (int \<times> hab_driver) option" where
  "hab_release private_data s = (case private_data of
      None \<Rightarrow> Some (0, s)
    | Some c \<Rightarrow> do {
        cx \<leftarrow> st_ctxs s c;
        s1 \<leftarrow> release_vchans c (cx_vchannels cx) s;
        cx1 \<leftarrow> st_ctxs s1 c;
        s2 \<leftarrow> release_pending (cx_pending_open cx1) s1;
        s3 \<leftarrow> hab_ctx_put c s2;
        Some (0, s3)
      })"

section \<open>The worker that reclaims exports\<close>

fun reclaim_free :: "nat list \<Rightarrow> hab_driver \<Rightarrow> hab_driver option" where
  "reclaim_free [] s = Some s"
| "reclaim_free (e # es) s = do {
     x \<leftarrow> st_exps s e;
     p \<leftarrow> ex_pchan x;
     s1 \<leftarrow> expid_remove p (ex_export_id x) s;
     s2 \<leftarrow> habmem_export_put e s1;
     reclaim_free es s2
   }"

definition reclaim_ready :: "hab_driver \<Rightarrow> nat \<Rightarrow> bool" where
  "reclaim_ready s e = (case st_exps s e of Some x \<Rightarrow> \<not> ex_remote_imported x | None \<Rightarrow> False)"

definition reclaim_cleanup :: "hab_driver \<Rightarrow> hab_driver option" where
  "reclaim_cleanup s =
     (if list_all (\<lambda>e. st_exps s e \<noteq> None) (st_reclaim_list s)
      then reclaim_free (filter (reclaim_ready s) (st_reclaim_list s))
             (s\<lparr>st_reclaim_list := filter (\<lambda>e. \<not> reclaim_ready s e) (st_reclaim_list s)\<rparr>)
      else None)"

section \<open>The ioctl calls\<close>

text \<open>Command words: direction, size of the parameter block, type and number.\<close>

definition ioc :: "u32 \<Rightarrow> u32 \<Rightarrow> u32 \<Rightarrow> u32" where
  "ioc dir nr sz = push_bit 30 dir OR push_bit 16 sz OR push_bit 8 0x0A OR nr"

abbreviation (input) IOC_WRITE :: u32 where "IOC_WRITE \<equiv> 1"
abbreviation (input) IOC_READ_WRITE :: u32 where "IOC_READ_WRITE \<equiv> 3"

definition IOCTL_HAB_SEND :: u32 where "IOCTL_HAB_SEND = ioc IOC_WRITE 2 24"
definition IOCTL_HAB_RECV :: u32 where "IOCTL_HAB_RECV = ioc IOC_READ_WRITE 3 24"
definition IOCTL_HAB_VC_OPEN :: u32 where "IOCTL_HAB_VC_OPEN = ioc IOC_READ_WRITE 4 16"
definition IOCTL_HAB_VC_CLOSE :: u32 where "IOCTL_HAB_VC_CLOSE = ioc IOC_WRITE 5 8"
definition IOCTL_HAB_VC_EXPORT :: u32 where "IOCTL_HAB_VC_EXPORT = ioc IOC_READ_WRITE 6 24"
definition IOCTL_HAB_VC_IMPORT :: u32 where "IOCTL_HAB_VC_IMPORT = ioc IOC_READ_WRITE 7 32"
definition IOCTL_HAB_VC_UNEXPORT :: u32 where "IOCTL_HAB_VC_UNEXPORT = ioc IOC_WRITE 8 12"
definition IOCTL_HAB_VC_UNIMPORT :: u32 where "IOCTL_HAB_VC_UNIMPORT = ioc IOC_WRITE 9 24"
definition IOCTL_HAB_VC_QUERY :: u32 where "IOCTL_HAB_VC_QUERY = ioc IOC_READ_WRITE 10 32"

definition IOC_SIZE :: "u32 \<Rightarrow> nat" where
  "IOC_SIZE cmd = unat (drop_bit 16 cmd AND 0x3FFF)"

abbreviation (input) IOC_IN :: u32 where "IOC_IN \<equiv> 0x40000000"
abbreviation (input) IOC_OUT :: u32 where "IOC_OUT \<equiv> 0x80000000"

text \<open>Each case of the switch: the result, the parameter block and the caller's memory after it.\<close>

type_synonym ioctl_res = "(int \<times> bytes \<times> umem) run option"

definition ioctl_open ::
  "hab_open_request \<Rightarrow> nat \<Rightarrow> bytes \<Rightarrow> umem \<Rightarrow> wait_ev list \<Rightarrow> hab_driver \<Rightarrow> ioctl_res" where
  "ioctl_open stack c data um w s = (let p = dec_open data in
     run_bind (hab_vchan_open stack c (ho_mmid p) (sint (ho_timeout p)) w s)
       (\<lambda>r w s. Some (Done (case r of Inl e \<Rightarrow> (e, data, um)
          | Inr vcid \<Rightarrow> (0, put_field 0 (le32 vcid) data, um)) w s)))"

definition ioctl_send ::
  "nat \<Rightarrow> bytes \<Rightarrow> umem \<Rightarrow> wait_ev list \<Rightarrow> hab_driver \<Rightarrow> ioctl_res" where
  "ioctl_send c data um w s = (let p = dec_send data; n = unat (hs_sizebytes p) in
     if HAB_HEADER_SIZE_MAX < n then Some (Done (- EINVAL, data, um) w s)
     else (case (if n = 0 then (True, s) else kalloc s) of (ok, s1) \<Rightarrow>
       if \<not> ok then Some (Done (- ENOMEM, data, um) w s1)
       else (case copy_from_user (hs_data p) n um of
          None \<Rightarrow> Some (Done (- EFAULT, data, um) w s1)
        | Some b \<Rightarrow> run_bind (hab_vchan_send c (hs_vcid p) n (Some b) (hs_flags p) w s1)
            (\<lambda>r w s. Some (Done (r, data, um) w s)))))"

text \<open>The size that the receive returns goes into the parameter block; the message is freed.\<close>

definition ioctl_recv ::
  "nat \<Rightarrow> bytes \<Rightarrow> umem \<Rightarrow> wait_ev list \<Rightarrow> hab_driver \<Rightarrow> ioctl_res" where
  "ioctl_recv c data um w s = (let p = dec_recv data in
     if hr_data p = 0 then Some (Done (- EINVAL, data, um) w s)
     else run_bind (hab_vchan_recv c (hr_vcid p) (sint (hr_sizebytes p)) (hr_flags p) w s)
       (\<lambda>(ret, rsize, m) w s1. let p1 = p\<lparr>hr_sizebytes := of_int rsize\<rparr> in (case m of
            None \<Rightarrow> Some (Done (ret, put_field 12 (le32 (hr_sizebytes p1)) data, um) w s1)
          | Some m \<Rightarrow> do {
              (ret1, p2, um1) \<leftarrow> (if ret = 0 then hab_copy_data m p1 um else Some (ret, p1, um));
              s2 \<leftarrow> hab_msg_free m s1;
              Some (Done (ret1, put_field 12 (le32 (hr_sizebytes p2)) data, um1) w s2)
            })))"

definition ioctl_export ::
  "kernel_view \<Rightarrow> nat \<Rightarrow> bytes \<Rightarrow> umem \<Rightarrow> wait_ev list \<Rightarrow> hab_driver \<Rightarrow> ioctl_res" where
  "ioctl_export k c data um w s = run_bind (hab_mem_export k c (dec_export data) False w s)
     (\<lambda>(r, p) w s. Some (Done (r, put_field 16 (le32 (he_exportid p)) data, um) w s))"

definition ioctl_import ::
  "kernel_view \<Rightarrow> nat \<Rightarrow> bytes \<Rightarrow> umem \<Rightarrow> wait_ev list \<Rightarrow> hab_driver \<Rightarrow> ioctl_res" where
  "ioctl_import k c data um w s = run_bind (hab_mem_import k c (dec_import data) False w s)
     (\<lambda>(r, p) w s. Some (Done (r, put_import p data, um) w s))"

text \<open>
  The query: the names are two empty strings in a zeroed buffer, so what goes to the caller is zeros;
  if that fails, the size in the block becomes 0.
\<close>

definition ioctl_query ::
  "nat \<Rightarrow> bytes \<Rightarrow> umem \<Rightarrow> hab_driver \<Rightarrow> ((int \<times> bytes \<times> umem) \<times> hab_driver) option" where
  "ioctl_query c data um s = (let p = dec_info data; n = unat (hf_namesize p) in
     if hf_names p = 0 \<or> n = 0 \<or> 30 < n then Some ((- EINVAL, data, um), s)
     else do {
       (r, ids, s1) \<leftarrow> hab_vchan_query c (hf_vcid p) s;
       if r \<noteq> 0 then Some ((r, data, um), s1)
       else (let data1 = put_field 8 (le64 ids) data in
         (case copy_to_user (hf_names p) (replicate n 0) um of (l, um1) \<Rightarrow>
            if l \<noteq> 0 then Some ((- EFAULT, put_field 24 (le32 0) data1, um1), s1)
            else Some ((0, data1, um1), s1)))
     })"

definition ioctl_done ::
  "wait_ev list \<Rightarrow> ((int \<times> bytes \<times> umem) \<times> hab_driver) option \<Rightarrow> ioctl_res" where
  "ioctl_done w m = do { (r, s) \<leftarrow> m; Some (Done r w s) }"

definition ioctl_dispatch ::
  "kernel_view \<Rightarrow> hab_open_request \<Rightarrow> nat \<Rightarrow> u32 \<Rightarrow> bytes \<Rightarrow> umem \<Rightarrow> wait_ev list \<Rightarrow> hab_driver \<Rightarrow>
     ioctl_res" where
  "ioctl_dispatch k stack c cmd data um w s =
     (if cmd = IOCTL_HAB_VC_OPEN then ioctl_open stack c data um w s
      else if cmd = IOCTL_HAB_VC_CLOSE then
        ioctl_done w (do { (r, s1) \<leftarrow> hab_vchan_close c (field32 0 data) s; Some ((r, data, um), s1) })
      else if cmd = IOCTL_HAB_SEND then ioctl_send c data um w s
      else if cmd = IOCTL_HAB_RECV then ioctl_recv c data um w s
      else if cmd = IOCTL_HAB_VC_EXPORT then ioctl_export k c data um w s
      else if cmd = IOCTL_HAB_VC_IMPORT then ioctl_import k c data um w s
      else if cmd = IOCTL_HAB_VC_UNEXPORT then
        ioctl_done w (do { (r, s1) \<leftarrow> hab_mem_unexport c (dec_unexport data) s; Some ((r, data, um), s1) })
      else if cmd = IOCTL_HAB_VC_UNIMPORT then
        ioctl_done w (do { ((r, p), s1) \<leftarrow> hab_mem_unimport c (dec_unimport data) False s;
          Some ((r, put_field 8 (le64 (hn_kva p)) data, um), s1) })
      else if cmd = IOCTL_HAB_VC_QUERY then ioctl_done w (ioctl_query c data um s)
      else Some (Done (- ENOIOCTLCMD, data, um) w s))"

text \<open>The parameter block: copied in before the switch, and out after it whatever the call returned.\<close>

definition ioctl_copy_in :: "u32 \<Rightarrow> u64 \<Rightarrow> umem \<Rightarrow> int + bytes" where
  "ioctl_copy_in cmd arg um = (let n = IOC_SIZE cmd; zero = replicate 256 0 in
     if n \<noteq> 0 \<and> has_flag cmd 0xC0000000 then
       (if 256 < n then Inl (- EINVAL)
        else if has_flag cmd IOC_IN then (case copy_from_user arg n um of
            None \<Rightarrow> Inl (- EFAULT) | Some b \<Rightarrow> Inr (into_zeroed 256 b))
        else Inr zero)
     else Inr zero)"

definition ioctl_copy_out :: "u32 \<Rightarrow> u64 \<Rightarrow> int \<Rightarrow> bytes \<Rightarrow> umem \<Rightarrow> int \<times> umem" where
  "ioctl_copy_out cmd arg ret data um = (let n = IOC_SIZE cmd in
     if ret \<noteq> - ENOIOCTLCMD \<and> n \<noteq> 0 \<and> has_flag cmd IOC_OUT then
       (case copy_to_user arg (take n data) um of (l, um1) \<Rightarrow> (if l \<noteq> 0 then - EFAULT else ret, um1))
     else (ret, um))"

definition hab_ioctl ::
  "kernel_view \<Rightarrow> hab_open_request \<Rightarrow> nat \<Rightarrow> u32 \<Rightarrow> u64 \<Rightarrow> umem \<Rightarrow> wait_ev list \<Rightarrow> hab_driver \<Rightarrow>
     (int \<times> umem) run option" where
  "hab_ioctl k stack c cmd arg um w s = (case ioctl_copy_in cmd arg um of
      Inl e \<Rightarrow> Some (Done (e, um) w s)
    | Inr data \<Rightarrow> run_bind (ioctl_dispatch k stack c cmd data um w s)
        (\<lambda>(ret, data1, um1) w s1. Some (Done (ioctl_copy_out cmd arg ret data1 um1) w s1)))"

end
