(* ===== verification/Hab_Linux_Safe.thy ===== *)
theory Hab_Linux_Safe
  imports Hab_Linux Hab_Tables
begin

text \<open>
  The character device under the invariant: release of a file, the reclaim worker, and the ioctl calls
  on any command word, parameter block and caller's memory.
\<close>

section \<open>What putting a virtual channel leaves of the contexts\<close>

text \<open>A context that is still there has the channels and the pending opens it had.\<close>

definition ctx_lists :: "uhab_context \<Rightarrow> nat list \<times> hab_open_request list" where
  "ctx_lists cx = (cx_vchannels cx, cx_pending_open cx)"

definition keeps_lists ::
  "(nat \<Rightarrow> uhab_context option) \<Rightarrow> (nat \<Rightarrow> uhab_context option) \<Rightarrow> bool" where
  "keeps_lists C C' \<longleftrightarrow> (\<forall>c cx'. C' c = Some cx' \<longrightarrow> (\<exists>cx. C c = Some cx \<and> ctx_lists cx' = ctx_lists cx))"

abbreviation (input) keeps :: "hab_driver \<Rightarrow> hab_driver \<Rightarrow> bool" where
  "keeps s s' \<equiv> keeps_lists (st_ctxs s) (st_ctxs s')"

lemma keeps_refl [simp]: "keeps_lists C C"
  by (simp add: keeps_lists_def)

lemma keeps_gone [simp]: "keeps_lists C0 C \<Longrightarrow> keeps_lists C0 (C(c := None))"
  by (simp add: keeps_lists_def)

lemma keeps_ctx [simp]:
  "keeps_lists C0 C \<Longrightarrow> C c = Some cx \<Longrightarrow> ctx_lists cx' = ctx_lists cx \<Longrightarrow> keeps_lists C0 (C(c \<mapsto> cx'))"
  unfolding keeps_lists_def by auto

lemma keepsD: "keeps_lists C C' \<Longrightarrow> C' c = Some cx' \<Longrightarrow> C c = Some cx \<Longrightarrow> ctx_lists cx' = ctx_lists cx"
  unfolding keeps_lists_def by fastforce

lemma ctx_lists_simps [simp]:
  "ctx_lists (cx\<lparr>cx_refcount := n\<rparr>) = ctx_lists cx" "ctx_lists (cx\<lparr>cx_exp_whse := es\<rparr>) = ctx_lists cx"
  "ctx_lists (cx\<lparr>cx_export_total := i\<rparr>) = ctx_lists cx" "ctx_lists (cx\<lparr>cx_forbidden_chans := f\<rparr>) = ctx_lists cx"
  "ctx_lists (cx\<lparr>cx_refcount := n, cx_forbidden_chans := f\<rparr>) = ctx_lists cx"
  "ctx_lists (cx\<lparr>cx_imp_whse := m, cx_import_total := i\<rparr>) = ctx_lists cx"
  by (simp_all add: ctx_lists_def)

lemma hyp_ctxs_eq: "hyp_frame p s s' \<Longrightarrow> st_ctxs s' = st_ctxs s"
  by (auto simp: hyp_frame_def)

lemma send_ctxs: "physical_channel_send p h b s = Some (r, s') \<Longrightarrow> st_ctxs s' = st_ctxs s"
  using send_frame hyp_ctxs_eq by blast

lemma export_put_ctxs: "habmem_export_put e s = Some s' \<Longrightarrow> st_ctxs s' = st_ctxs s"
  unfolding habmem_export_put_def habmem_export_destroy_def habmem_exp_release_def run_defs
  by (auto split: if_splits option.splits)

lemma remove_export_keeps:
  "habmem_remove_export e s = Some s' \<Longrightarrow> keeps_lists C (st_ctxs s) \<Longrightarrow> keeps_lists C (st_ctxs s')"
  unfolding habmem_remove_export_def run_defs
  by (auto dest!: export_put_ctxs split: option.splits)

lemma free_exports_keeps:
  "ctx_free_exports c es s = Some s' \<Longrightarrow> keeps_lists C (st_ctxs s) \<Longrightarrow> keeps_lists C (st_ctxs s')"
proof (induction es arbitrary: s)
  case (Cons e es)
  then show ?case
    by (auto simp: run_defs expid_remove_def split: if_splits dest!: remove_export_keeps)
qed simp

lemma free_imports_keeps:
  "ctx_free_imports c m s = Some s' \<Longrightarrow> keeps_lists C (st_ctxs s) \<Longrightarrow> keeps_lists C (st_ctxs s')"
proof (induction m arbitrary: s)
  case (Cons a m)
  then show ?case
    by (cases a) (auto simp: run_defs habmm_imp_hyp_unmap_def split: if_splits dest!: send_ctxs)
qed simp

lemma ctx_put_keeps:
  "hab_ctx_put c s = Some s' \<Longrightarrow> keeps_lists C (st_ctxs s) \<Longrightarrow> keeps_lists C (st_ctxs s')"
  unfolding hab_ctx_put_def hab_ctx_free_def run_defs
  by (auto split: if_splits dest!: free_exports_keeps [where C = C] free_imports_keeps [where C = C])

lemma vchan_put_keeps: "hab_vchan_put v s = Some s' \<Longrightarrow> keeps s s'"
  unfolding hab_vchan_put_def hab_vchan_free_def run_defs
  by (auto simp: hab_pchan_put_def hab_pchan_free_def run_defs split: if_splits
      dest!: msgs_free_tables ctx_put_keeps [where C = "st_ctxs s"])

lemma stop_notify_ctxs: "hab_vchan_stop_notify v s = Some s' \<Longrightarrow> st_ctxs s' = st_ctxs s"
  by (auto simp: hab_vchan_stop_notify_def hab_send_close_msg_def hab_vchan_stop_def run_defs
      split: if_splits dest!: send_frame hyp_ctxs_eq)

section \<open>Release of a file\<close>

lemma release_vchan_wf:
  assumes wf: "drv_wf {} hp hv hc s" and c: "st_ctxs s c = Some cx" "0 < hc c" and v: "v \<in> set (cx_vchannels cx)"
  shows "safe (release_vchan c v s) (\<lambda>s'. drv_wf {} hp hv hc s' \<and>
    (\<exists>cx'. st_ctxs s' c = Some cx' \<and> ctx_lists cx' = (remove1 v (cx_vchannels cx), cx_pending_open cx)))"
proof -
  from ctx_vchan [OF wf c(1) v] obtain vc where vc: "st_vchans s v = Some vc" by blast
  let ?cx = "cx\<lparr>cx_vchannels := remove1 v (cx_vchannels cx), cx_vcnt := cx_vcnt cx - 1\<rparr>"
  define s1 where "s1 = s\<lparr>st_vchans := (st_vchans s)(v \<mapsto> vc\<lparr>vc_closed := True\<rparr>)\<rparr>"
  define s2 where "s2 = s1\<lparr>st_ctxs := (st_ctxs s1)(c \<mapsto> ?cx)\<rparr>"
  have wf1: "drv_wf {} hp hv hc s1"
    unfolding s1_def by (rule drv_wf_vchan_fields [OF wf vc]) (use wf vc in \<open>auto simp: drv_wf_def rx_ok_def\<close>)
  have wf2: "drv_wf {} hp (hv(v := Suc (hv v))) hc s2"
    unfolding s2_def by (rule ctx_unlink_wf [OF wf1 _ v]) (use c in \<open>simp_all add: s1_def\<close>)
  have v2: "st_vchans s2 v = Some (vc\<lparr>vc_closed := True\<rparr>)" by (simp add: s2_def s1_def)
  from vchan_stop_notify_wf [OF wf2 v2] obtain s3 where s3: "hab_vchan_stop_notify v s2 = Some s3"
    "drv_wf {} hp (hv(v := Suc (hv v))) hc s3" unfolding safe_ex by blast
  from put_back [OF s3(2)] obtain s4 where s4: "hab_vchan_put v s3 = Some s4" "drv_wf {} hp hv hc s4"
    unfolding safe_ex by blast
  have "st_ctxs s3 c = Some ?cx" by (simp add: stop_notify_ctxs [OF s3(1)] s2_def)
  moreover from held_ctx [where hc = hc, OF s4(2) c(2)] obtain cx4 where cx4: "st_ctxs s4 c = Some cx4" by blast
  ultimately have "ctx_lists cx4 = (remove1 v (cx_vchannels cx), cx_pending_open cx)"
    using keepsD [OF vchan_put_keeps [OF s4(1)]] by (simp add: ctx_lists_def)
  with c vc s3(1) s4 cx4 show ?thesis
    by (simp add: release_vchan_def s1_def s2_def safe_mod)
qed

lemma release_vchans_wf:
  assumes "drv_wf {} hp hv hc s" "st_ctxs s c = Some cx" "0 < hc c"
  shows "safe (release_vchans c (cx_vchannels cx) s) (\<lambda>s'. drv_wf {} hp hv hc s' \<and>
    (\<exists>cx'. st_ctxs s' c = Some cx' \<and> ctx_lists cx' = ([], cx_pending_open cx)))"
  using assms(1,2)
proof (induction "cx_vchannels cx" arbitrary: cx s)
  case Nil
  then show ?case by (simp add: ctx_lists_def flip: Nil.hyps)
next
  case (Cons v vs)
  from release_vchan_wf [where hc = hc, OF Cons.prems assms(3), of v] obtain s1 cx1 where s1:
    "release_vchan c v s = Some s1" "drv_wf {} hp hv hc s1" "st_ctxs s1 c = Some cx1"
    "ctx_lists cx1 = (remove1 v (cx_vchannels cx), cx_pending_open cx)"
    unfolding safe_ex by (auto simp flip: Cons.hyps(2))
  have cx1: "vs = cx_vchannels cx1" "cx_pending_open cx1 = cx_pending_open cx"
    using s1(4) by (simp_all add: ctx_lists_def flip: Cons.hyps(2))
  from Cons.hyps(1) [OF cx1(1) s1(2,3)] s1(1) show ?case
    by (simp add: cx1 flip: Cons.hyps(2))
qed

lemma cancel_notify_wf:
  assumes wf: "drv_wf {} hp hv hc s" and p: "rq_pchan r = Some p" "0 < hp p"
  shows "safe (hab_open_cancel_notify r s) (\<lambda>(_, s'). drv_wf {} hp hv hc s' \<and> st_ctxs s' = st_ctxs s)"
proof -
  from held_pchan [where hp = hp, OF wf p(2)] obtain pc where pc: "st_pchans s p = Some pc" by blast
  have "safe (physical_channel_send p (open_header (payload_code HAB_PAYLOAD_TYPE_INIT_CANCEL))
      (Some (enc_open_data (rq_xdata r))) s) (\<lambda>(r, s'). drv_wf {} hp hv hc s' \<and> hyp_frame p s s' \<and>
      (\<forall>q. readable q s \<longrightarrow> readable q s'))"
    by (rule send_wf [OF wf pc]) (simp_all add: open_header_def open_codec.enc_length)
  then show ?thesis using p by (auto simp: hab_open_cancel_notify_def hyp_ctxs_eq elim!: safe_mono)
qed

lemma release_pending_wf:
  assumes "drv_wf {} hp hv hc s" "\<forall>r \<in> set rs. \<exists>p. rq_pchan r = Some p \<and> 0 < hp p"
  shows "safe (release_pending rs s) (\<lambda>s'. drv_wf {} hp hv hc s' \<and> st_ctxs s' = st_ctxs s)"
  using assms
proof (induction rs arbitrary: s)
  case (Cons r rs)
  then obtain p where p: "rq_pchan r = Some p" "0 < hp p" by auto
  from cancel_notify_wf [where hp = hp, OF Cons.prems(1) p] obtain ret s1 where s1: "hab_open_cancel_notify r s = Some (ret, s1)"
    "drv_wf {} hp hv hc s1" "st_ctxs s1 = st_ctxs s" unfolding safe_ex by auto
  from Cons.IH [OF s1(2)] Cons.prems(2) s1 show ?case by simp
qed simp

lemma hab_release_wf:
  assumes wf: "drv_wf {} hp hv hc s" and c: "st_ctxs s c = Some cx" "hc c = Suc k"
    and pend: "\<forall>r \<in> set (cx_pending_open cx). \<exists>p. rq_pchan r = Some p \<and> 0 < hp p"
  shows "safe (hab_release (Some c) s) (\<lambda>(r, s'). r = 0 \<and> drv_wf {} hp hv (hc(c := k)) s' \<and>
    (\<forall>cx'. st_ctxs s' c = Some cx' \<longrightarrow> cx_vchannels cx' = []))"
proof -
  have pos: "0 < hc c" using c by simp
  from release_vchans_wf [where hc = hc, OF wf c(1) pos] obtain s1 cx1 where s1:
    "release_vchans c (cx_vchannels cx) s = Some s1" "drv_wf {} hp hv hc s1" "st_ctxs s1 c = Some cx1"
    "ctx_lists cx1 = ([], cx_pending_open cx)" unfolding safe_ex by blast
  have cx1: "cx_pending_open cx1 = cx_pending_open cx" "cx_vchannels cx1 = []" using s1(4) by (simp_all add: ctx_lists_def)
  from release_pending_wf [OF s1(2) pend] obtain s2 where s2: "release_pending (cx_pending_open cx) s1 = Some s2"
    "drv_wf {} hp hv hc s2" "st_ctxs s2 = st_ctxs s1" unfolding safe_ex by blast
  from ctx_put_wf [OF s2(2) c(2)] obtain s3 where s3: "hab_ctx_put c s2 = Some s3" "drv_wf {} hp hv (hc(c := k)) s3"
    unfolding safe_ex by blast
  have "cx_vchannels cx' = []" if "st_ctxs s3 c = Some cx'" for cx'
    using keepsD [OF ctx_put_keeps [OF s3(1) keeps_refl] that, of cx1] s2(3) s1(3,4) by (simp add: ctx_lists_def)
  with c s1 s2 s3 cx1 show ?thesis by (simp add: hab_release_def)
qed

section \<open>The reclaim worker\<close>

lemma export_put_effect:
  assumes "st_exps s e = Some x"
  obtains y h where "habmem_export_put e s = Some (s\<lparr>st_exps := (st_exps s)(e := y), st_hyp_mem := h\<rparr>)"
proof (cases "ex_refcount x \<le> 1")
  case True
  with assms that [where y = None and h = "case ex_dmabuf x of None \<Rightarrow> st_hyp_mem s
      | Some d \<Rightarrow> dma_buf_put d (st_hyp_mem s)"] show ?thesis
    by (simp add: habmem_export_put_def habmem_export_destroy_def habmem_exp_release_def mod_exp_def
        split: option.split)
next
  case False
  with assms that [where y = "Some (x\<lparr>ex_refcount := ex_refcount x - 1\<rparr>)" and h = "st_hyp_mem s"] show ?thesis
    by (simp add: habmem_export_put_def mod_exp_def)
qed

lemma reclaim_free_wf:
  assumes "drv_wf D hp hv hc s"
    and "exps_ok own (xv (st_exps s)) (iv (st_pchans s)) (wv (st_ctxs s)) (st_reclaim_list s) (st_next s)"
    and "distinct es" "\<forall>e \<in> set es. own e = Some OReclaim \<and> e \<notin> set (st_reclaim_list s)"
  shows "safe (reclaim_free es s) (drv_wf D hp hv hc)"
  using assms
proof (induction es arbitrary: s own)
  case (Cons e es)
  note own = Cons.prems(2)
  have e: "own e = Some OReclaim" "e \<notin> set (st_reclaim_list s)" using Cons.prems(4) by simp_all
  from exps_ok_owned [OF own e(1)] obtain x p pc where x: "st_exps s e = Some x" "ex_pchan x = Some p"
    "st_pchans s p = Some pc" by (auto simp: owned_ok_def xv_def iv_def)
  define pc1 where "pc1 = pc\<lparr>pc_expid_idr := idr_remove (pc_expid_idr pc) (unat (ex_export_id x))\<rparr>"
  define s1 where "s1 = s\<lparr>st_pchans := (st_pchans s)(p \<mapsto> pc1)\<rparr>"
  have rm: "expid_remove p (ex_export_id x) s = Some s1" using x by (simp add: expid_remove_def s1_def pc1_def)
  have x1: "st_exps s1 e = Some x" using x by (simp add: s1_def)
  obtain y h where put: "habmem_export_put e s1 = Some (s1\<lparr>st_exps := (st_exps s1)(e := y), st_hyp_mem := h\<rparr>)"
    by (rule export_put_effect [OF x1])
  define s2 where "s2 = s1\<lparr>st_exps := (st_exps s1)(e := y), st_hyp_mem := h\<rparr>"
  have whse: "\<exists>es0 m0. wv (st_ctxs s) c = Some (es0, m0) \<and> distinct es1 \<and> set es1 \<subseteq> set es0 - {e} \<and>
      distinct (map fst m) \<and> distinct (map snd m) \<and> snd ` set m \<subseteq> snd ` set m0 - {e}"
    if "wv (st_ctxs s) c = Some (es1, m)" for c es1 m
    using exps_ok_whse [OF own that] that e(1) by (fastforce simp: whse_ok_def)
  have xv: "xv (st_exps s2) = (xv (st_exps s))(e := map_option (\<lambda>x. (ex_export_id x, ex_ctx x, ex_pchan x)) y)"
    by (auto simp: s2_def s1_def xv_def)
  have iv: "iv (st_pchans s2) = (iv (st_pchans s))(p := map_option (\<lambda>m. idr_remove m (unat (ex_export_id x))) (iv (st_pchans s) p))"
    using x by (auto simp: s2_def s1_def pc1_def iv_def)
  have rest: "st_ctxs s2 = st_ctxs s" "st_reclaim_list s2 = st_reclaim_list s" "st_next s2 = st_next s"
    by (simp_all add: s2_def s1_def)
  have "exps_ok (own(e := None)) (xv (st_exps s2)) (iv (st_pchans s2)) (wv (st_ctxs s2)) (st_reclaim_list s2) (st_next s2)"
    unfolding xv rest
  proof (rule move_exp_gone [OF own e(1), of "ex_export_id x" "ex_ctx x" p])
    show "xv (st_exps s) e = Some (ex_export_id x, ex_ctx x, Some p)" using x by (simp add: xv_def)
    show "distinct (st_reclaim_list s)" "set (st_reclaim_list s) \<subseteq> set (st_reclaim_list s) - {e}"
      using exps_ok_reclaim [OF own] e(2) by auto
  qed (use whse iv in simp_all)
  moreover from this have "exps_wf s2" unfolding exps_wf_def views by blast
  then have "drv_wf D hp hv hc s2"
    by (rule exp_frame_wf [OF Cons.prems(1), rotated])
      (use x in \<open>auto simp: exp_frame_def s2_def s1_def pc1_def view_look upd_same\<close>)
  moreover have "\<forall>e' \<in> set es. (own(e := None)) e' = Some OReclaim \<and> e' \<notin> set (st_reclaim_list s2)"
    using Cons.prems(3,4) by (auto simp: s2_def s1_def)
  ultimately have "safe (reclaim_free es s2) (drv_wf D hp hv hc)" using Cons.IH Cons.prems(3) by simp
  then show ?case using x rm put by (simp add: s2_def)
qed simp

lemma reclaim_cleanup_wf:
  assumes wf: "drv_wf D hp hv hc s"
  shows "safe (reclaim_cleanup s) (drv_wf D hp hv hc)"
proof -
  from drv_wf_exps [OF wf] obtain own where own: "exps_ok own (xv (st_exps s)) (iv (st_pchans s))
    (wv (st_ctxs s)) (st_reclaim_list s) (st_next s)" by blast
  note R = exps_ok_reclaim [OF own]
  have all: "list_all (\<lambda>e. st_exps s e \<noteq> None) (st_reclaim_list s)"
    using R exps_ok_owned [OF own] by (fastforce simp: list_all_iff owned_ok_def xv_def)
  define s1 where "s1 = s\<lparr>st_reclaim_list := filter (\<lambda>e. \<not> reclaim_ready s e) (st_reclaim_list s)\<rparr>"
  have own1: "exps_ok own (xv (st_exps s1)) (iv (st_pchans s1)) (wv (st_ctxs s1)) (st_reclaim_list s1) (st_next s1)"
    using own unfolding exps_ok_def by (auto simp: s1_def)
  then have "exps_wf s1" unfolding exps_wf_def views by blast
  then have "drv_wf D hp hv hc s1"
    by (intro exp_frame_wf [OF wf]) (simp_all add: exp_frame_def s1_def)
  from reclaim_free_wf [OF this own1, of "filter (reclaim_ready s) (st_reclaim_list s)"] R
  have "safe (reclaim_free (filter (reclaim_ready s) (st_reclaim_list s)) s1) (drv_wf D hp hv hc)"
    by (auto simp: s1_def)
  with all show ?thesis by (simp add: reclaim_cleanup_def s1_def)
qed

section \<open>The ioctl calls\<close>

lemma hab_vchan_query_wf:
  assumes wf: "drv_wf {} hp hv hc s" and c: "st_ctxs s c = Some cx"
  shows "safe (hab_vchan_query c vcid s) (\<lambda>(_, _, s'). drv_wf {} hp hv hc s')"
proof -
  from get_fromvcid_wf [OF wf c, of vcid True] obtain vo s1 where
    g: "hab_get_vchan_fromvcid vcid c True s = Some (vo, s1)" "case vo of
      None \<Rightarrow> s1 = s
    | Some v \<Rightarrow> drv_wf {} hp (hv(v := Suc (hv v))) hc s1"
    unfolding safe_ex by (auto split: option.splits)
  show ?thesis
  proof (cases vo)
    case None
    with g wf show ?thesis by (simp add: hab_vchan_query_def)
  next
    case (Some v)
    with g have wf1: "drv_wf {} hp (hv(v := Suc (hv v))) hc s1" by simp
    from vchan_kept [OF wf1] obtain vc pc where v: "st_vchans s1 v = Some vc"
      "st_pchans s1 (vc_pchan vc) = Some pc" by blast
    from put_back [OF wf1] v g(1) Some show ?thesis
      unfolding safe_ex by (auto simp: hab_vchan_query_def)
  qed
qed

text \<open>Every case of the switch but open and export, and the copies of the parameter block around it.\<close>

abbreviation (input) at_rest_or_one :: "(nat \<Rightarrow> nat) \<Rightarrow> (nat \<Rightarrow> nat) \<Rightarrow> (nat \<Rightarrow> nat) \<Rightarrow> hab_driver \<Rightarrow> bool" where
  "at_rest_or_one hp hv hc s \<equiv> drv_wf {} hp hv hc s \<or> (\<exists>v. drv_wf {} hp (hv(v := Suc (hv v))) hc s)"

lemma run_ok_map:
  assumes "run_ok I (\<lambda>_ _ s. J s) m" "\<And>s. I s \<Longrightarrow> I' s"
  shows "run_ok I' (\<lambda>_ _ s. J s) (run_bind m (\<lambda>r w s. Some (Done (f r) w s)))"
  by (rule run_ok_bind [OF assms(1)]) (use assms(2) in simp_all)

lemma ioctl_done_ok:
  "safe m (\<lambda>(_, s). J s) \<Longrightarrow> run_ok I (\<lambda>_ _ s. J s) (ioctl_done w m)"
  unfolding safe_ex by (auto simp: ioctl_done_def)

lemma ioctl_send_wf:
  assumes wf: "drv_wf {} hp hv hc s" and c: "st_ctxs s c = Some cx"
    and env: "\<And>v. env_ok (drv_wf {} hp (hv(v := Suc (hv v))) hc) w"
  shows "run_ok (at_rest_or_one hp hv hc) (\<lambda>_ _ s'. drv_wf {} hp hv hc s') (ioctl_send c data um w s)"
proof -
  define n where "n = unat (hs_sizebytes (dec_send data))"
  obtain ok s1 where k: "(if n = 0 then (True, s) else kalloc s) = (ok, s1)" by fastforce
  then have s1: "drv_wf {} hp hv hc s1" "st_ctxs s1 c = Some cx"
    using wf c kalloc_frame [of s ok s1] by (auto split: if_splits)
  consider "HAB_HEADER_SIZE_MAX < n \<or> \<not> ok \<or> copy_from_user (hs_data (dec_send data)) n um = None"
    | b where "\<not> HAB_HEADER_SIZE_MAX < n" ok "copy_from_user (hs_data (dec_send data)) n um = Some b" by fastforce
  then show ?thesis
  proof cases
    case 1
    then show ?thesis using k s1 wf by (auto simp: ioctl_send_def Let_def n_def split: option.split)
  next
    case (2 b)
    have "payload_holds (Some b) n" using copy_from_user_length [OF 2(3)] by (simp add: payload_holds_def)
    note send = hab_vchan_send_wf [OF s1 this env, of "hs_vcid (dec_send data)" "hs_flags (dec_send data)"]
    show ?thesis
      using run_ok_map [OF send, of "at_rest_or_one hp hv hc"] 2 k by (simp add: ioctl_send_def Let_def n_def)
  qed
qed

lemma ioctl_recv_wf:
  assumes wf: "drv_wf {} hp hv hc s" and c: "st_ctxs s c = Some cx"
    and env: "\<And>v. env_ok (drv_wf {} hp (hv(v := Suc (hv v))) hc) w"
  shows "run_ok (at_rest_or_one hp hv hc) (\<lambda>_ _ s'. drv_wf {} hp hv hc s') (ioctl_recv c data um w s)"
proof (cases "hr_data (dec_recv data) = 0")
  case False
  let ?p = "dec_recv data"
  have "run_ok (at_rest_or_one hp hv hc) (\<lambda>_ _ s'. drv_wf {} hp hv hc s')
    (run_bind (hab_vchan_recv c (hr_vcid ?p) (sint (hr_sizebytes ?p)) (hr_flags ?p) w s)
       (\<lambda>(ret, rsize, m) w s1. let p1 = ?p\<lparr>hr_sizebytes := of_int rsize\<rparr> in (case m of
            None \<Rightarrow> Some (Done (ret, put_field 12 (le32 (hr_sizebytes p1)) data, um) w s1)
          | Some m \<Rightarrow> do {
              (ret1, p2, um1) \<leftarrow> (if ret = 0 then hab_copy_data m p1 um else Some (ret, p1, um));
              s2 \<leftarrow> hab_msg_free m s1;
              Some (Done (ret1, put_field 12 (le32 (hr_sizebytes p2)) data, um1) w s2)
            })))"
  proof (rule run_ok_bind [OF hab_vchan_recv_wf [OF wf c env]], blast, clarify)
    fix ret rsize m w' s1
    assume s1: "drv_wf {} hp hv hc s1" and g: "got_msg (sint (hr_sizebytes ?p)) (ret, rsize, m)"
    show "run_ok (at_rest_or_one hp hv hc) (\<lambda>_ _ s'. drv_wf {} hp hv hc s')
      (let p1 = ?p\<lparr>hr_sizebytes := of_int rsize\<rparr> in (case m of
            None \<Rightarrow> Some (Done (ret, put_field 12 (le32 (hr_sizebytes p1)) data, um) w' s1)
          | Some m \<Rightarrow> do {
              (ret1, p2, um1) \<leftarrow> (if ret = 0 then hab_copy_data m p1 um else Some (ret, p1, um));
              s2 \<leftarrow> hab_msg_free m s1;
              Some (Done (ret1, put_field 12 (le32 (hr_sizebytes p2)) data, um1) w' s2)
            }))"
    proof (cases m)
      case (Some x)
      with g have x: "msg_ok x" "ret = 0" by (simp_all add: got_msg_def)
      from copy_data_one [OF x(1)] msgs_free_ok [of "[x]" s1] x(1) s1 Some x(2) show ?thesis
        by (auto simp: Let_def split: prod.split)
    qed (use s1 in simp)
  qed
  with False show ?thesis by (simp add: ioctl_recv_def Let_def)
qed (use wf in \<open>simp add: ioctl_recv_def Let_def\<close>)

lemma ioctl_query_wf:
  assumes wf: "drv_wf {} hp hv hc s" and c: "st_ctxs s c = Some cx"
  shows "safe (ioctl_query c data um s) (\<lambda>(_, s'). drv_wf {} hp hv hc s')"
proof -
  from hab_vchan_query_wf [OF wf c, of "hf_vcid (dec_info data)"] obtain r ids s1 where
    "hab_vchan_query c (hf_vcid (dec_info data)) s = Some (r, ids, s1)" "drv_wf {} hp hv hc s1"
    unfolding safe_ex by auto
  with wf show ?thesis by (simp add: ioctl_query_def Let_def split: prod.split)
qed

lemma ioctl_dispatch_wf:
  assumes inv: "import_inv hp hv hc s" and c: "0 < hc c" and ex: "\<And>p. exports_ok p s"
    and env: "\<And>v. env_ok (drv_wf {} hp (hv(v := Suc (hv v))) hc) w"
    and env_imp: "\<And>v. env_ok (import_inv hp (hv(v := Suc (hv v))) hc) w"
    and cmd: "cmd \<noteq> IOCTL_HAB_VC_OPEN" "cmd \<noteq> IOCTL_HAB_VC_EXPORT"
  shows "run_ok (at_rest_or_one hp hv hc) (\<lambda>_ _ s'. drv_wf {} hp hv hc s')
    (ioctl_dispatch k stack c cmd data um w s)"
proof -
  let ?Q = "\<lambda>_ _ s'. drv_wf {} hp hv hc s'"
  from inv have wf: "drv_wf {} hp hv hc s" "imports_ok s" by (simp_all add: import_inv_def)
  from held_ctx [where hc = hc, OF wf(1) c] obtain cx where cx: "st_ctxs s c = Some cx" by blast
  have imp: "run_ok (at_rest_or_one hp hv hc) ?Q (ioctl_import k c data um w s)"
    unfolding ioctl_import_def
    by (rule run_ok_bind [OF hab_mem_import_wf [where hv = hv and hc = hc, OF inv c env_imp]])
      (auto simp: import_inv_def)
  have close: "run_ok (at_rest_or_one hp hv hc) ?Q
      (ioctl_done w (do { (r, s1) \<leftarrow> hab_vchan_close c (field32 0 data) s; Some ((r, data, um), s1) }))"
    using hab_vchan_close_wf [OF wf(1) cx, of "field32 0 data"] by (auto simp: case_prod_unfold intro!: ioctl_done_ok)
  have unexp: "run_ok (at_rest_or_one hp hv hc) ?Q
      (ioctl_done w (do { (r, s1) \<leftarrow> hab_mem_unexport c (dec_unexport data) s; Some ((r, data, um), s1) }))"
    using hab_mem_unexport_wf [OF wf(1) cx ex, of "dec_unexport data"] by (auto simp: case_prod_unfold intro!: ioctl_done_ok)
  have unimp: "run_ok (at_rest_or_one hp hv hc) ?Q
      (ioctl_done w (do { ((r, p), s1) \<leftarrow> hab_mem_unimport c (dec_unimport data) False s;
          Some ((r, put_field 8 (le64 (hn_kva p)) data, um), s1) }))"
    using hab_mem_unimport_wf [OF wf(1) cx wf(2), of "dec_unimport data" False]
    by (auto simp: case_prod_unfold intro!: ioctl_done_ok)
  have query: "run_ok (at_rest_or_one hp hv hc) ?Q (ioctl_done w (ioctl_query c data um s))"
    by (rule ioctl_done_ok [OF ioctl_query_wf [OF wf(1) cx]])
  show ?thesis
    unfolding ioctl_dispatch_def
    using cmd ioctl_send_wf [OF wf(1) cx env] ioctl_recv_wf [OF wf(1) cx env] imp close unexp unimp query wf(1)
    by simp
qed

lemma hab_ioctl_wf:
  assumes "import_inv hp hv hc s" "0 < hc c" "\<And>p. exports_ok p s"
    and "\<And>v. env_ok (drv_wf {} hp (hv(v := Suc (hv v))) hc) w"
    and "\<And>v. env_ok (import_inv hp (hv(v := Suc (hv v))) hc) w"
    and "cmd \<noteq> IOCTL_HAB_VC_OPEN" "cmd \<noteq> IOCTL_HAB_VC_EXPORT"
  shows "run_ok (at_rest_or_one hp hv hc) (\<lambda>_ _ s'. drv_wf {} hp hv hc s') (hab_ioctl k stack c cmd arg um w s)"
proof (cases "ioctl_copy_in cmd arg um")
  case (Inl e)
  with assms(1) show ?thesis by (simp add: hab_ioctl_def import_inv_def)
next
  case (Inr data)
  have "run_ok (at_rest_or_one hp hv hc) (\<lambda>_ _ s'. drv_wf {} hp hv hc s')
    (run_bind (ioctl_dispatch k stack c cmd data um w s)
       (\<lambda>(ret, data1, um1) w s1. Some (Done (ioctl_copy_out cmd arg ret data1 um1) w s1)))"
    by (rule run_ok_bind [OF ioctl_dispatch_wf [where hc = hc, OF assms]]) (auto split: prod.split)
  with Inr show ?thesis by (simp add: hab_ioctl_def)
qed

section \<open>Guarantees\<close>

text \<open>
  C21. In a state where the reference invariant holds, every import's region table expands within its pages and
  the finished exports of every channel are complete and belong to the context of its virtual channels,
  whatever a process asks of the device file, any command word but open and export, any parameter
  block and any memory of its own, readable or not, \<^verbatim>\<open>hab_ioctl\<close> does not fault, and the reference
  invariant holds afterwards (what is assumed of tables and exports is not restated), under any schedule of
  other threads that keep the two invariants; while it sleeps it holds at most one virtual channel.  (Open
  and export have their own statements.)
\<close>
theorem hab_ioctl_safe:
  assumes "import_inv hp hv hc s" "0 < hc c" "\<And>p. exports_ok p s"
    and "\<And>v. env_ok (drv_wf {} hp (hv(v := Suc (hv v))) hc) w"
    and "\<And>v. env_ok (import_inv hp (hv(v := Suc (hv v))) hc) w"
    and "cmd \<noteq> IOCTL_HAB_VC_OPEN" "cmd \<noteq> IOCTL_HAB_VC_EXPORT"
  shows "run_ok (\<lambda>s'. drv_wf {} hp hv hc s' \<or> (\<exists>v. drv_wf {} hp (hv(v := Suc (hv v))) hc s'))
    (\<lambda>r w' s'. drv_wf {} hp hv hc s') (hab_ioctl k stack c cmd arg um w s)"
  by (rule hab_ioctl_wf [where hc = hc, OF assms])

theorem hab_ioctl_safe_witness:
  "run_ok (\<lambda>s'. drv_wf {} none_held none_held files_ex s' \<or>
       (\<exists>v. drv_wf {} none_held (none_held(v := Suc 0)) files_ex s'))
     (\<lambda>r w' s'. drv_wf {} none_held none_held files_ex s')
     (hab_ioctl kernel_ex request_zero 2 0xC0180A03 64 (\<lambda>a. if a < 4096 then Some 1 else None) [Env Some, Tmo] drv_ex)"
proof -
  have "import_inv none_held none_held files_ex drv_ex" using drv_ex_wf drv_ex_imports by (simp add: import_inv_def)
  moreover have "exports_ok p drv_ex" for p
    using drv_ex_exports by (cases "p = 1") (auto simp: exports_ok_def drv_ex_def)
  moreover have "0xC0180A03 \<noteq> IOCTL_HAB_VC_OPEN" "0xC0180A03 \<noteq> IOCTL_HAB_VC_EXPORT" by code_simp+
  ultimately show ?thesis
    using hab_ioctl_safe [where hc = files_ex and c = 2, OF _ _ _ env_ok_idle env_ok_idle] by (simp add: files_ex_def)
qed

text \<open>
  C22. The last close of a file never faults: every channel of its context is closed and told so, every
  pending open is cancelled, and the file's reference to the context goes, so that the context is
  released with the last call still on it; what is left of it has no channels.  The references of the
  pending opens are those the waiting threads hold.
\<close>
theorem hab_release_safe:
  assumes "drv_wf {} hp hv hc s" "st_ctxs s c = Some cx" "hc c = Suc k"
    and "\<forall>r \<in> set (cx_pending_open cx). \<exists>p. rq_pchan r = Some p \<and> 0 < hp p"
  shows "\<exists>s'. hab_release (Some c) s = Some (0, s') \<and> drv_wf {} hp hv (hc(c := k)) s' \<and>
    (\<forall>cx'. st_ctxs s' c = Some cx' \<longrightarrow> cx_vchannels cx' = [])"
  using hab_release_wf [OF assms] unfolding safe_ex by auto

theorem hab_release_safe_witness:
  "\<exists>s'. hab_release (Some 2) drv_ex = Some (0, s') \<and> drv_wf {} none_held none_held (files_ex(2 := 0)) s' \<and>
     (\<forall>cx'. st_ctxs s' 2 = Some cx' \<longrightarrow> cx_vchannels cx' = [])"
  by (rule hab_release_safe [OF drv_ex_wf drv_ex_ctx]) (simp_all add: files_ex_def ctx_ex_def)

text \<open>
  The reclaim worker never faults: every export on the reclaim list that the remote has given back
  leaves the list, the idr of its channel and the heap, and the others stay.
\<close>
theorem reclaim_cleanup_safe:
  assumes "drv_wf {} hp hv hc s"
  shows "\<exists>s'. reclaim_cleanup s = Some s' \<and> drv_wf {} hp hv hc s'"
  using reclaim_cleanup_wf [OF assms] unfolding safe_ex by auto

theorem reclaim_cleanup_safe_witness:
  "\<exists>s'. reclaim_cleanup drv_ex = Some s' \<and> drv_wf {} none_held none_held files_ex s'"
  by (rule reclaim_cleanup_safe [OF drv_ex_wf])

end
