(* ===== verification/Hab_User_Path.thy ===== *)
theory Hab_User_Path
  imports Hab_Linux_Safe
begin

text \<open>
  The whole way of a message between two processes: from the memory of the one, through its ioctl, the
  channel and the dispatch of the other side, to the memory of the process that receives.
\<close>

section \<open>The parameter blocks\<close>

lemma field_into_zeroed:
  "off + 4 \<le> length b \<Longrightarrow> length b \<le> n \<Longrightarrow> field32 off (into_zeroed n b) = field32 off b"
  "off + 8 \<le> length b \<Longrightarrow> length b \<le> n \<Longrightarrow> field64 off (into_zeroed n b) = field64 off b"
  by (simp_all add: field32_def field64_def into_zeroed_def)

lemma dec_into_zeroed:
  "length b = 24 \<Longrightarrow> dec_send (into_zeroed 256 b) = dec_send b"
  "length b = 24 \<Longrightarrow> dec_recv (into_zeroed 256 b) = dec_recv b"
  by (simp_all add: dec_send_def dec_recv_def field_into_zeroed)

lemma send_cmd: "IOC_SIZE IOCTL_HAB_SEND = 24" "has_flag IOCTL_HAB_SEND 0xC0000000"
  "has_flag IOCTL_HAB_SEND 0x40000000" "\<not> has_flag IOCTL_HAB_SEND 0x80000000"
  "IOCTL_HAB_SEND \<noteq> IOCTL_HAB_VC_OPEN" "IOCTL_HAB_SEND \<noteq> IOCTL_HAB_VC_CLOSE"
  by code_simp+

lemma recv_cmd: "IOC_SIZE IOCTL_HAB_RECV = 24" "has_flag IOCTL_HAB_RECV 0xC0000000"
  "has_flag IOCTL_HAB_RECV 0x40000000" "has_flag IOCTL_HAB_RECV 0x80000000"
  "IOCTL_HAB_RECV \<noteq> IOCTL_HAB_VC_OPEN" "IOCTL_HAB_RECV \<noteq> IOCTL_HAB_VC_CLOSE" "IOCTL_HAB_RECV \<noteq> IOCTL_HAB_SEND"
  by code_simp+

text \<open>A send that reports success did send the bytes of the caller's buffer.\<close>

lemma send_ioctl_done:
  assumes "hab_ioctl k st c IOCTL_HAB_SEND arg um w s = Some (Done (0, um') w' s')"
    and blk: "copy_from_user arg 24 um = Some blk"
  obtains s1 b m where "s1 = s\<lparr>st_mem := m\<rparr>" "copy_from_user (hs_data (dec_send blk)) (unat (hs_sizebytes (dec_send blk))) um = Some b"
    "unat (hs_sizebytes (dec_send blk)) \<le> 0x7D000"
    "hab_vchan_send c (hs_vcid (dec_send blk)) (unat (hs_sizebytes (dec_send blk))) (Some b) (hs_flags (dec_send blk)) w s1 =
       Some (Done 0 w' s')"
proof -
  let ?p = "dec_send blk"
  define n where "n = unat (hs_sizebytes ?p)"
  have len: "length blk = 24" by (rule copy_from_user_length [OF blk])
  have in24: "ioctl_copy_in IOCTL_HAB_SEND arg um = Inr (into_zeroed 256 blk)"
    using blk by (simp add: ioctl_copy_in_def send_cmd)
  have out: "ioctl_copy_out IOCTL_HAB_SEND arg ret d u = (ret, u)" for ret d u
    by (simp add: ioctl_copy_out_def send_cmd)
  have disp: "ioctl_dispatch k st c IOCTL_HAB_SEND d um w s = ioctl_send c d um w s" for d
    by (simp add: ioctl_dispatch_def send_cmd)
  obtain ok s1 where ka: "(if n = 0 then (True, s) else kalloc s) = (ok, s1)" by fastforce
  have s1: "\<exists>m. s1 = s\<lparr>st_mem := m\<rparr>"
    using ka kalloc_frame [of s ok s1] by (cases "n = 0") (auto intro: exI [of _ "st_mem s"])
  from assms(1) obtain r d u where run: "ioctl_send c (into_zeroed 256 blk) um w s = Some (Done (0, d, u) w' s')"
    unfolding hab_ioctl_def in24 sum.case disp out
    by (cases "ioctl_send c (into_zeroed 256 blk) um w s" rule: option.exhaust)
      (auto simp: run_bind_def split: run.splits)
  then have n: "\<not> HAB_HEADER_SIZE_MAX < n" "ok"
    using ka by (auto simp: ioctl_send_def Let_def dec_into_zeroed [OF len] n_def split: if_splits)
  from run n ka obtain b where b: "copy_from_user (hs_data ?p) n um = Some b"
    by (cases "copy_from_user (hs_data ?p) n um") (auto simp: ioctl_send_def Let_def dec_into_zeroed [OF len] n_def)
  have "run_bind (hab_vchan_send c (hs_vcid ?p) n (Some b) (hs_flags ?p) w s1)
      (\<lambda>r w s. Some (Done (r, into_zeroed 256 blk, um) w s)) = Some (Done (0, d, u) w' s')"
    using run n ka b by (simp add: ioctl_send_def Let_def dec_into_zeroed [OF len] n_def)
  then have "hab_vchan_send c (hs_vcid ?p) n (Some b) (hs_flags ?p) w s1 = Some (Done 0 w' s')"
    by (cases "hab_vchan_send c (hs_vcid ?p) n (Some b) (hs_flags ?p) w s1")
      (auto simp: run_bind_def split: run.splits)
  with s1 b n that show ?thesis unfolding n_def by auto
qed

section \<open>Memory of the receiving process\<close>

lemma copy_to_user_total:
  "(\<And>i. i < length bs \<Longrightarrow> um (a + of_nat i) \<noteq> None) \<Longrightarrow> \<exists>um'. copy_to_user a bs um = (0, um')"
proof (induction bs arbitrary: a um)
  case (Cons b bs)
  have "um a \<noteq> None" using Cons.prems [of 0] by simp
  moreover have "(um(a \<mapsto> b)) (a + 1 + of_nat i) \<noteq> None" if "i < length bs" for i
    using Cons.prems [of "Suc i"] that by (simp add: ac_simps)
  then have "\<exists>um'. copy_to_user (a + 1) bs (um(a \<mapsto> b)) = (0, um')" by (intro Cons.IH)
  ultimately show ?case by (auto simp del: fun_upd_apply)
qed simp

lemma copy_from_user_cong:
  "(\<And>i. i < n \<Longrightarrow> um (a + of_nat i) = um' (a + of_nat i)) \<Longrightarrow> copy_from_user a n um = copy_from_user a n um'"
proof (induction n arbitrary: a)
  case (Suc n)
  have "um a = um' a" using Suc.prems [of 0] by simp
  moreover have "um (a + 1 + of_nat i) = um' (a + 1 + of_nat i)" if "i < n" for i
    using Suc.prems [of "Suc i"] that by (simp add: ac_simps)
  ultimately show ?case using Suc.IH [of "a + 1"] by simp
qed simp

lemma copy_from_user_dom:
  "copy_from_user a n um = Some bs \<Longrightarrow> i < n \<Longrightarrow> um (a + of_nat i) \<noteq> None"
proof (induction n arbitrary: a bs i)
  case (Suc n)
  then show ?case
  proof (cases i)
    case (Suc j)
    from Suc.prems obtain bs' where "copy_from_user (a + 1) n um = Some bs'" by auto
    from Suc.IH [OF this, of j] Suc.prems(2) \<open>i = Suc j\<close> show ?thesis by (simp add: ac_simps)
  qed auto
qed simp

lemma copy_to_user_dom: "copy_to_user a bs um = (l, um') \<Longrightarrow> um x \<noteq> None \<Longrightarrow> um' x \<noteq> None"
proof (induction bs arbitrary: a um)
  case (Cons b bs)
  show ?case
  proof (cases "um a = None")
    case False
    with Cons.prems have "copy_to_user (a + 1) bs (um(a \<mapsto> b)) = (l, um')" "(um(a \<mapsto> b)) x \<noteq> None"
      by simp_all
    then show ?thesis by (rule Cons.IH)
  qed (use Cons.prems in simp)
qed simp

text \<open>
  The receive ioctl: a message in one block that \<^verbatim>\<open>hab_vchan_recv\<close> returned ends up in the buffer of
  the caller, whose parameter block lies elsewhere.
\<close>

lemma recv_ioctl_done:
  assumes recv: "hab_vchan_recv c (hr_vcid p) (sint (hr_sizebytes p)) (hr_flags p) w s =
      Some (Done (0, rsize, Some m) w' s')"
    and blk: "copy_from_user arg 24 um = Some blk" and p: "p = dec_recv blk" "hr_data p \<noteq> 0"
    and m: "ms_body m = Flat b" "ms_sizebytes m \<le> length b" "ms_sizebytes m \<le> 2 ^ 64"
    and room: "\<And>i. i < ms_sizebytes m \<Longrightarrow> um (hr_data p + of_nat i) \<noteq> None"
    and apart: "\<And>i j. i < ms_sizebytes m \<Longrightarrow> j < 24 \<Longrightarrow> hr_data p + of_nat i \<noteq> arg + of_nat j"
  obtains um' where "hab_ioctl k st c IOCTL_HAB_RECV arg um w s = Some (Done (0, um') w' s')"
    "copy_from_user (hr_data p) (ms_sizebytes m) um' = Some (take (ms_sizebytes m) b)"
proof -
  let ?n = "ms_sizebytes m"
  have len: "length blk = 24" by (rule copy_from_user_length [OF blk])
  have in24: "ioctl_copy_in IOCTL_HAB_RECV arg um = Inr (into_zeroed 256 blk)"
    using blk by (simp add: ioctl_copy_in_def recv_cmd)
  have dec: "dec_recv (into_zeroed 256 blk) = p" using dec_into_zeroed(2) [OF len] p by simp
  have disp: "ioctl_dispatch k st c IOCTL_HAB_RECV d um w s = ioctl_recv c d um w s" for d
    by (simp add: ioctl_dispatch_def recv_cmd)
  have lt: "length (take ?n b) = ?n" using m by simp
  have "um (hr_data p + of_nat i) \<noteq> None" if "i < length (take ?n b)" for i using room that lt by simp
  from copy_to_user_total [of "take ?n b" um, OF this] obtain um1 where
    um1: "copy_to_user (hr_data p) (take ?n b) um = (0, um1)" by blast
  have rd: "copy_from_user (hr_data p) ?n um1 = Some (take ?n b)"
    using copy_back [OF um1] m by simp
  define d where "d = put_field 12 (le32 (of_int rsize)) (into_zeroed 256 blk)"
  have ld: "length (take 24 d) = 24" by (simp add: d_def put_field_def)
  have "um1 (arg + of_nat i) \<noteq> None" if "i < length (take 24 d)" for i
    using copy_to_user_dom [OF um1 copy_from_user_dom [OF blk]] that ld by simp
  from copy_to_user_total [of "take 24 d" um1, OF this] obtain um2 where
    um2: "copy_to_user arg (take 24 d) um1 = (0, um2)" by blast
  have "um2 (hr_data p + of_nat i) = um1 (hr_data p + of_nat i)" if "i < ?n" for i
    by (rule copy_to_user_other [OF um2]) (use apart that ld in simp)
  from copy_from_user_cong [of ?n um2 "hr_data p" um1, OF this] rd have fin: "copy_from_user (hr_data p) ?n um2 = Some (take ?n b)" by simp
  have "msg_ok m" "msg_data m = take ?n b" using m by (simp_all add: msg_ok_def msg_data_def)
  from copy_data_one [OF this(1), of "p\<lparr>hr_sizebytes := of_int rsize\<rparr>" um] this(2) um1
  have copy: "hab_copy_data m (p\<lparr>hr_sizebytes := of_int rsize\<rparr>) um = Some (0, p\<lparr>hr_sizebytes := of_int rsize\<rparr>, um1)"
    by simp
  have "ioctl_recv c (into_zeroed 256 blk) um w s = Some (Done (0, d, um1) w' s')"
    using recv copy m(1) p(2) by (simp add: ioctl_recv_def Let_def dec hab_msg_free_def d_def)
  moreover have "ioctl_copy_out IOCTL_HAB_RECV arg 0 d um1 = (0, um2)"
    using um2 by (simp add: ioctl_copy_out_def recv_cmd)
  ultimately have "hab_ioctl k st c IOCTL_HAB_RECV arg um w s = Some (Done (0, um2) w' s')"
    by (simp add: hab_ioctl_def in24 disp)
  with fin that show ?thesis by blast
qed

section \<open>From process to process\<close>

text \<open>
  C2. From process to process: when a send ioctl reports success and the channel hands what it queued
  to the peer's \<^verbatim>\<open>hab_msg_recv\<close>, a non-blocking receive ioctl there, with room for the message in the
  buffer and the parameter block outside of it, reports success, and the receiving process reads at
  its buffer address exactly the bytes the sending process had at its own.
\<close>
theorem user_message_end_to_end:
  assumes wf: "drv_wf {} hp hv hc s" and c: "st_ctxs s c = Some cx"
    and sblk: "copy_from_user sarg 24 um = Some sb" and sp: "sp = dec_send sb" "n = unat (hs_sizebytes sp)"
    and send: "hab_ioctl kv st c IOCTL_HAB_SEND sarg um [] s = Some (Done (0, um') w' s')"
    and ty: "send_type (hs_flags sp) n = Some ty" "plain_type ty"
    and link: "\<And>v vc. st_vchans s v = Some vc \<Longrightarrow> vc_id vc = hs_vcid sp \<Longrightarrow> vc_pchan vc = p"
      "last (pchan_outq s' p) = (h, vh_out_iter vh)"
    and peer: "st_pchans t q = Some pc" "pc_hyp_data pc = HypVhost vh" "st_mem t = []"
      "addressed t q h u uc" "vc_pchan uc = q" "vc_rx_list uc = []"
    and peer_ctx: "st_ctxs t k = Some ctx" "find_vcid (vc_id uc) (cx_vchannels ctx) t = Some (Some u)"
    and rblk: "copy_from_user rarg 24 rm = Some rb" and rp: "rp = dec_recv rb" "hr_vcid rp = vc_id uc"
      "hr_data rp \<noteq> 0" "has_flag (hr_flags rp) 1" "n \<le> to_size_t (sint (hr_sizebytes rp))"
    and room: "\<And>i. i < n \<Longrightarrow> rm (hr_data rp + of_nat i) \<noteq> None"
    and apart: "\<And>i j. i < n \<Longrightarrow> j < 24 \<Longrightarrow> hr_data rp + of_nat i \<noteq> rarg + of_nat j"
  shows "\<exists>t1 t2 rm'. hab_msg_recv q h t = Some (0, t1) \<and>
    hab_ioctl kv' st' k IOCTL_HAB_RECV rarg rm [] t1 = Some (Done (0, rm') [] t2) \<and>
    copy_from_user (hr_data rp) n rm' = copy_from_user (hs_data sp) n um"
proof -
  from send_ioctl_done [OF send sblk] obtain s1 b mm where s1: "s1 = s\<lparr>st_mem := mm\<rparr>"
    "copy_from_user (hs_data sp) n um = Some b" "n \<le> 0x7D000"
    "hab_vchan_send c (hs_vcid sp) n (Some b) (hs_flags sp) [] s1 = Some (Done 0 w' s')"
    unfolding sp by blast
  have b: "length b = n" by (rule copy_from_user_length [OF s1(2)])
  have "drv_wf {} hp hv hc s1" using wf by (simp add: s1(1))
  moreover have "st_ctxs s1 c = Some cx" using c by (simp add: s1(1))
  moreover have "vc_pchan vc = p" if "st_vchans s1 v = Some vc" "vc_id vc = hs_vcid sp" for v vc
    using link(1) [of v vc] that by (simp add: s1(1))
  moreover have nb: "n \<le> length b" using b by simp
  ultimately obtain t1 t2 m where t: "hab_msg_recv q h t = Some (0, t1)"
    "hab_vchan_recv k (vc_id uc) (sint (hr_sizebytes rp)) (hr_flags rp) [] t1 = Some (Done (0, to_int32 n, Some m) [] t2)"
    "ms_sizebytes m = n" "ms_body m = Flat (take n b)"
    using message_delivered [OF _ _ nb s1(3) ty s1(4) _ link(2) peer peer_ctx rp(5,4)] by blast
  have take: "take n b = b" using b by simp
  obtain rm' where "hab_ioctl kv' st' k IOCTL_HAB_RECV rarg rm [] t1 = Some (Done (0, rm') [] t2)"
    "copy_from_user (hr_data rp) (ms_sizebytes m) rm' = Some (take (ms_sizebytes m) b)"
    by (rule recv_ioctl_done [OF t(2) [folded rp(2)] rblk rp(1,3) t(4) [unfolded take]])
      (use t(3) b s1(3) room apart in auto)
  with t(1,3) s1(2) take show ?thesis by auto
qed

text \<open>A process with its parameter block at address 0 and two bytes at address 64.\<close>

definition um_ex :: "bytes \<Rightarrow> bytes \<Rightarrow> umem" where
  "um_ex blk bs = (\<lambda>a. let i = unat a in if i < 24 then Some (blk ! i)
     else if 64 \<le> i \<and> i - 64 < length bs then Some (bs ! (i - 64)) else None)"

definition send_blk :: bytes where
  "send_blk = le64 64 @ le32 0x25902001 @ le32 2 @ le32 0 @ le32 0"

definition recv_blk :: bytes where
  "recv_blk = le64 64 @ le32 0x25902001 @ le32 16 @ le32 0 @ le32 1"

lemma blk_ex:
  "dec_send send_blk = \<lparr>hs_data = 64, hs_vcid = 0x25902001, hs_sizebytes = 2, hs_flags = 0\<rparr>"
  "dec_recv recv_blk = \<lparr>hr_data = 64, hr_vcid = 0x25902001, hr_sizebytes = 16, hr_timeout = 0, hr_flags = 1\<rparr>"
  using field_here(1) [of _ "[]"] by (simp_all add: dec_send_def dec_recv_def send_blk_def recv_blk_def)

lemma um_ex_copy:
  "copy_from_user 0 24 (um_ex send_blk [1, 2]) = Some send_blk"
  "copy_from_user 0 24 (um_ex recv_blk [0, 0]) = Some recv_blk"
  "copy_from_user 64 2 (um_ex send_blk [1, 2]) = Some [1, 2]"
  by code_simp+

text \<open>The message is in the send list of the example's channel.\<close>

definition queued_ex :: "hab_driver \<Rightarrow> bool" where
  "queued_ex s \<longleftrightarrow> (case st_pchans s 1 of None \<Rightarrow> False | Some pc \<Rightarrow>
     pc_hyp_data pc = HypVhost \<lparr>vh_send_list = [(send_header vchan_ex HAB_PAYLOAD_TYPE_MSG 2, [1, 2])], vh_out_iter = []\<rparr>)"

lemma queued_ex_last:
  "queued_ex s \<Longrightarrow> last (pchan_outq s 1) = (send_header vchan_ex HAB_PAYLOAD_TYPE_MSG 2, [1, 2])"
  by (auto simp: queued_ex_def pchan_outq_def split: option.splits)

lemma send_user_ex:
  obtains s' where "hab_ioctl kernel_ex request_zero 2 IOCTL_HAB_SEND 0 (um_ex send_blk [1, 2]) [] drv_ex =
      Some (Done (0, um_ex send_blk [1, 2]) [] s')"
    "queued_ex s'"
proof -
  have "done_with (hab_vchan_send 2 0x25902001 2 (Some [1, 2]) 0 [] drv_ex) (\<lambda>r w s. r = 0 \<and> w = [] \<and> queued_ex s)"
    by (simp add: done_with_def hab_vchan_send_def hab_get_vchan_fromvcid_def vchan_get_unless_zero_def
      drv_ex_def ctx_ex_def vchan_ex_fields pchan_ex_def mod_eqs(2) send_type_def has_flag_def send_loop.simps
      physical_channel_send_def vhost_send_def kalloc_def payload_bytes_def set_hyp_def mod_eqs(1)
      put_listed queued_ex_def Let_def)
  then obtain s' where run: "hab_vchan_send 2 0x25902001 2 (Some [1, 2]) 0 [] drv_ex = Some (Done 0 [] s')"
    "queued_ex s'"
    by (auto elim: done_withE)
  have k: "kalloc drv_ex = (True, drv_ex)" by (simp add: kalloc_def drv_ex_def)
  have len: "length send_blk = 24" by (simp add: send_blk_def)
  have "ioctl_copy_in IOCTL_HAB_SEND 0 (um_ex send_blk [1, 2]) = Inr (into_zeroed 256 send_blk)"
    using um_ex_copy(1) by (simp add: ioctl_copy_in_def send_cmd)
  moreover have "ioctl_send 2 (into_zeroed 256 send_blk) (um_ex send_blk [1, 2]) [] drv_ex =
      Some (Done (0, into_zeroed 256 send_blk, um_ex send_blk [1, 2]) [] s')"
    using run(1) um_ex_copy(3) by (simp add: ioctl_send_def Let_def dec_into_zeroed len blk_ex k)
  moreover have "ioctl_copy_out IOCTL_HAB_SEND 0 0 d u = (0, u)" for d u
    by (simp add: ioctl_copy_out_def send_cmd)
  ultimately have "hab_ioctl kernel_ex request_zero 2 IOCTL_HAB_SEND 0 (um_ex send_blk [1, 2]) [] drv_ex =
      Some (Done (0, um_ex send_blk [1, 2]) [] s')"
    by (simp add: hab_ioctl_def ioctl_dispatch_def send_cmd)
  with run(2) that show ?thesis by blast
qed

theorem user_message_end_to_end_witness:
  "\<exists>s' t1 t2 rm'. hab_ioctl kernel_ex request_zero 2 IOCTL_HAB_SEND 0 (um_ex send_blk [1, 2]) [] drv_ex =
       Some (Done (0, um_ex send_blk [1, 2]) [] s') \<and>
     hab_msg_recv 1 (send_header vchan_ex HAB_PAYLOAD_TYPE_MSG 2) (drv_rx [1, 2] []) = Some (0, t1) \<and>
     hab_ioctl kernel_ex request_zero 2 IOCTL_HAB_RECV 0 (um_ex recv_blk [0, 0]) [] t1 = Some (Done (0, rm') [] t2) \<and>
     copy_from_user 64 2 rm' = Some [1, 2]"
proof -
  obtain s' where run: "hab_ioctl kernel_ex request_zero 2 IOCTL_HAB_SEND 0 (um_ex send_blk [1, 2]) [] drv_ex =
      Some (Done (0, um_ex send_blk [1, 2]) [] s')"
    and last: "last (pchan_outq s' 1) = (send_header vchan_ex HAB_PAYLOAD_TYPE_MSG 2, [1, 2])"
    using queued_ex_last by (blast intro: send_user_ex)
  have ty: "send_type 0 2 = Some HAB_PAYLOAD_TYPE_MSG" by code_simp
  have f: "find_vcid 0x25902001 [3] (drv_rx [1, 2] []) = Some (Some 3)"
    by (simp add: drv_rx_def vchan_ex_def)
  have "\<exists>t1 t2 rm'. hab_msg_recv 1 (send_header vchan_ex HAB_PAYLOAD_TYPE_MSG 2) (drv_rx [1, 2] []) = Some (0, t1) \<and>
     hab_ioctl kernel_ex request_zero 2 IOCTL_HAB_RECV 0 (um_ex recv_blk [0, 0]) [] t1 = Some (Done (0, rm') [] t2) \<and>
     copy_from_user (hr_data (dec_recv recv_blk)) 2 rm' =
       copy_from_user (hs_data (dec_send send_blk)) 2 (um_ex send_blk [1, 2])"
  proof (rule user_message_end_to_end [OF drv_ex_wf drv_ex_ctx um_ex_copy(1) refl _ run])
    show "last (pchan_outq s' 1) = (send_header vchan_ex HAB_PAYLOAD_TYPE_MSG 2,
        vh_out_iter \<lparr>vh_send_list = [], vh_out_iter = [1, 2]\<rparr>)" using last by simp
    show "addressed (drv_rx [1, 2] []) 1 (send_header vchan_ex HAB_PAYLOAD_TYPE_MSG 2) 3 (vchan_ex\<lparr>vc_rx_list := []\<rparr>)"
      by (rule addressed_ex)
    show "find_vcid (vc_id (vchan_ex\<lparr>vc_rx_list := []\<rparr>)) (cx_vchannels ctx_ex) (drv_rx [1, 2] []) = Some (Some 3)"
      using f by (simp add: vchan_ex_def ctx_ex_def)
    show "copy_from_user 0 24 (um_ex recv_blk [0, 0]) = Some recv_blk" by (rule um_ex_copy(2))
    show "um_ex recv_blk [0, 0] (hr_data (dec_recv recv_blk) + of_nat i) \<noteq> None" if "i < 2" for i
      using that by (auto simp: less_2_cases_iff blk_ex um_ex_def)
    show "hr_data (dec_recv recv_blk) + of_nat i \<noteq> 0 + of_nat j" if "i < 2" "j < 24" for i j
    proof -
      have "unat (64 + of_nat i :: u64) = 64 + i" "unat (of_nat j :: u64) = j"
        using that by (auto simp: less_2_cases_iff unat_of_nat take_bit_nat_eq_self)
      then show ?thesis using that by (auto simp: blk_ex word_unat_eq_iff)
    qed
    show "send_type (hs_flags (dec_send send_blk)) 2 = Some HAB_PAYLOAD_TYPE_MSG" using ty by (simp add: blk_ex)
  qed (auto simp: plain_type_def drv_rx_def drv_ex_def vchan_ex_def pchan_ex_def to_size_t_def has_flag_def blk_ex
      split: if_splits)
  with run um_ex_copy(3) show ?thesis by (auto simp: blk_ex)
qed

end
