(* ===== verification/Hab_Khab.thy ===== *)
theory Hab_Khab
  imports Hab_Linux_Safe Hab_Delivery
begin

text \<open>
  The calls of kernel clients (\<^verbatim>\<open>os/linux/khab.c\<close>): thin wrappers over the driver core with the
  driver's own context, except for the receive, which copies the message to the client's buffer, and
  the query, which splits the two vmids.  A client's buffer is a list of bytes; a copy beyond its end
  is a fault.  \<open>kctx\<close> is \<^verbatim>\<open>hab_driver.kctx\<close>.
\<close>

section \<open>Wrappers\<close>

definition habmm_socket_open ::
  "hab_open_request \<Rightarrow> nat \<Rightarrow> u32 \<Rightarrow> u32 \<Rightarrow> wait_ev list \<Rightarrow> hab_driver \<Rightarrow> (int + u32) run option" where
  "habmm_socket_open stack kctx mm_ip_id timeout w s = hab_vchan_open stack kctx mm_ip_id (sint timeout) w s"

definition habmm_socket_close :: "nat \<Rightarrow> u32 \<Rightarrow> hab_driver \<Rightarrow> (int \<times> hab_driver) option" where
  "habmm_socket_close kctx handle s = hab_vchan_close kctx handle s"

definition habmm_socket_send ::
  "nat \<Rightarrow> u32 \<Rightarrow> bytes option \<Rightarrow> u32 \<Rightarrow> u32 \<Rightarrow> wait_ev list \<Rightarrow> hab_driver \<Rightarrow> int run option" where
  "habmm_socket_send kctx handle src_buff size_bytes flags w s =
     hab_vchan_send kctx handle (unat size_bytes) src_buff flags w s"

text \<open>The export identifier is stored whatever the export returned.\<close>

definition habmm_export ::
  "kernel_view \<Rightarrow> nat \<Rightarrow> u32 \<Rightarrow> u64 \<Rightarrow> u32 \<Rightarrow> bool \<Rightarrow> u32 \<Rightarrow> wait_ev list \<Rightarrow> hab_driver \<Rightarrow>
     (int \<times> u32 option) run option" where
  "habmm_export k kctx handle buff_to_share size_bytes has_id flags w s =
     (if \<not> has_id then Some (Done (- EINVAL, None) w s)
      else run_bind (hab_mem_export k kctx \<lparr>he_buffer = buff_to_share, he_vcid = handle,
             he_sizebytes = size_bytes, he_exportid = 0, he_flags = flags\<rparr> True w s)
        (\<lambda>(ret, p) w s. Some (Done (ret, Some (he_exportid p)) w s)))"

definition habmm_unexport :: "nat \<Rightarrow> u32 \<Rightarrow> u32 \<Rightarrow> hab_driver \<Rightarrow> (int \<times> hab_driver) option" where
  "habmm_unexport kctx handle export_id s =
     hab_mem_unexport kctx \<lparr>hu_vcid = handle, hu_exportid = export_id\<rparr> s"

text \<open>The address of the buffer is stored on success only.\<close>

definition habmm_import ::
  "kernel_view \<Rightarrow> nat \<Rightarrow> u32 \<Rightarrow> bool \<Rightarrow> u32 \<Rightarrow> u32 \<Rightarrow> u32 \<Rightarrow> wait_ev list \<Rightarrow> hab_driver \<Rightarrow>
     (int \<times> u64 option) run option" where
  "habmm_import k kctx handle has_buff size_bytes export_id flags w s =
     (if \<not> has_buff then Some (Done (- EINVAL, None) w s)
      else run_bind (hab_mem_import k kctx \<lparr>hi_index = 0, hi_kva = 0, hi_vcid = handle,
             hi_sizebytes = size_bytes, hi_exportid = export_id, hi_flags = flags\<rparr> True w s)
        (\<lambda>(ret, p) w s. Some (Done (ret, if ret = 0 then Some (hi_kva p) else None) w s)))"

definition habmm_unimport ::
  "nat \<Rightarrow> u32 \<Rightarrow> u32 \<Rightarrow> u64 \<Rightarrow> hab_driver \<Rightarrow> (int \<times> hab_driver) option" where
  "habmm_unimport kctx handle export_id buff_shared s = do {
     ((ret, p), s1) \<leftarrow> hab_mem_unimport kctx \<lparr>hn_vcid = handle, hn_exportid = export_id, hn_kva = buff_shared\<rparr> True s;
     Some (ret, s1)
   }"

section \<open>Receive\<close>

definition kmemcpy :: "nat \<Rightarrow> bytes \<Rightarrow> bytes \<Rightarrow> bytes option" where
  "kmemcpy off b dst =
     (if off + length b \<le> length dst then Some (take off dst @ b @ drop (off + length b) dst) else None)"

fun kcopy_pages :: "msg_page list \<Rightarrow> nat \<Rightarrow> nat \<Rightarrow> bytes \<Rightarrow> bytes option" where
  "kcopy_pages ps i 0 dst = Some dst"
| "kcopy_pages ps i (Suc k) dst = do {
     b \<leftarrow> page_block i PAGE_SIZE ps;
     dst1 \<leftarrow> kmemcpy (i * PAGE_SIZE) b dst;
     kcopy_pages ps (Suc i) k dst1
   }"

definition msg_to_buffer :: "hab_message \<Rightarrow> bytes \<Rightarrow> bytes option" where
  "msg_to_buffer m dst = (let n = ms_sizebytes m in (case ms_body m of
       Scatter ps \<Rightarrow> do {
         dst1 \<leftarrow> kcopy_pages ps 0 (n div PAGE_SIZE) dst;
         if n mod PAGE_SIZE \<noteq> 0 then do {
           b \<leftarrow> page_block (n div PAGE_SIZE) (n mod PAGE_SIZE) ps;
           kmemcpy (n div PAGE_SIZE * PAGE_SIZE) b dst1
         } else Some dst1
       }
     | Flat b \<Rightarrow> if n \<le> length b then kmemcpy 0 (take n b) dst else None))"

text \<open>The result, the client's buffer and its size variable afterwards.\<close>

definition habmm_socket_recv ::
  "nat \<Rightarrow> u32 \<Rightarrow> bytes option \<Rightarrow> u32 option \<Rightarrow> u32 \<Rightarrow> wait_ev list \<Rightarrow> hab_driver \<Rightarrow>
     (int \<times> bytes option \<times> u32 option) run option" where
  "habmm_socket_recv kctx handle dst_buff size_bytes flags w s = (case (dst_buff, size_bytes) of
      (Some dst, Some n) \<Rightarrow> run_bind (hab_vchan_recv kctx handle (sint n) flags w s)
        (\<lambda>(ret, rsize, m) w s1. (case m of
             None \<Rightarrow> Some (Done (ret, Some dst, Some (of_int rsize)) w s1)
           | Some m \<Rightarrow> do {
               dst1 \<leftarrow> (if ret = 0 then msg_to_buffer m dst else Some dst);
               s2 \<leftarrow> hab_msg_free m s1;
               Some (Done (ret, Some dst1, Some (of_int rsize)) w s2)
             }))
    | _ \<Rightarrow> Some (Done (- EINVAL, dst_buff, size_bytes) w s))"

section \<open>Query\<close>

record hab_socket_info =
  si_vmid_remote :: u32
  si_vmid_local :: u32
  si_vmname_remote :: bytes
  si_vmname_local :: bytes

text \<open>
  \<^verbatim>\<open>vmid_remote\<close> is the result of a comparison, as the code has it.  The two names are empty strings,
  of which \<^verbatim>\<open>strscpy\<close> copies the terminator.
\<close>

definition habmm_socket_query ::
  "nat \<Rightarrow> u32 \<Rightarrow> hab_socket_info option \<Rightarrow> hab_driver \<Rightarrow> ((int \<times> hab_socket_info option) \<times> hab_driver) option" where
  "habmm_socket_query kctx handle info s = (case info of
      None \<Rightarrow> Some ((- EINVAL, None), s)
    | Some i \<Rightarrow> do {
        (ret, ids, s1) \<leftarrow> hab_vchan_query kctx handle s;
        Some ((ret, Some (if ret \<noteq> 0 then i else i\<lparr>
            si_vmid_local := ucast (ids AND 0xFFFFFFFF),
            si_vmid_remote := (if 32 < ids AND 0xFFFFFFFF00000000 then 1 else 0),
            si_vmname_local := (si_vmname_local i)[0 := 0],
            si_vmname_remote := (si_vmname_remote i)[0 := 0]\<rparr>)), s1)
      })"

section \<open>The copy stays in the buffer\<close>

lemma kmemcpy_next:
  assumes "length xs \<le> length dst" "length xs + length b \<le> length dst"
  shows "kmemcpy (length xs) b (xs @ drop (length xs) dst) =
    Some ((xs @ b) @ drop (length (xs @ b)) dst)"
  using assms by (simp add: kmemcpy_def add.commute)

lemma kcopy_pages_ok:
  assumes ps: "pages_full ps" and k: "(i + k) * 4096 \<le> length (concat (map page_bytes ps))"
    and dst: "(i + k) * 4096 \<le> length dst"
  shows "kcopy_pages ps i k (take (i * 4096) (concat (map page_bytes ps)) @ drop (i * 4096) dst) =
    Some (take ((i + k) * 4096) (concat (map page_bytes ps)) @ drop ((i + k) * 4096) dst)"
  using k dst
proof (induction k arbitrary: i)
  case (Suc k)
  let ?c = "concat (map page_bytes ps)"
  have b: "page_block i 4096 ps = Some (take 4096 (drop (i * 4096) ?c))"
    by (rule page_block_ok [OF ps]) (use Suc.prems in simp_all)
  have len: "length (take (i * 4096) ?c) = i * 4096" "length (take 4096 (drop (i * 4096) ?c)) = 4096"
    "length (take (Suc i * 4096) ?c) = Suc i * 4096"
    using Suc.prems by simp_all
  have sp: "take (i * 4096) ?c @ take 4096 (drop (i * 4096) ?c) = take (Suc i * 4096) ?c"
    by (simp add: take_add [symmetric] add.commute)
  have "kmemcpy (i * 4096) (take 4096 (drop (i * 4096) ?c)) (take (i * 4096) ?c @ drop (i * 4096) dst) =
      Some (take (Suc i * 4096) ?c @ drop (Suc i * 4096) dst)"
    using kmemcpy_next [of "take (i * 4096) ?c" dst "take 4096 (drop (i * 4096) ?c)"] Suc.prems(2)
    unfolding len(1,2) sp len(3) by (simp add: add.commute)
  with b Suc.IH [of "Suc i"] Suc.prems show ?case by simp
qed simp

lemma msg_to_buffer_ok:
  assumes ok: "msg_ok m" and dst: "ms_sizebytes m \<le> length dst"
  shows "msg_to_buffer m dst = Some (msg_data m @ drop (ms_sizebytes m) dst)"
proof (cases "ms_body m")
  case (Flat b)
  with ok dst show ?thesis by (simp add: msg_to_buffer_def Let_def kmemcpy_def msg_data_def msg_ok_def)
next
  case (Scatter ps)
  define n where "n = ms_sizebytes m"
  let ?c = "concat (map page_bytes ps)"
  let ?q = "n div 4096 * 4096"
  have ps: "pages_full ps" "n \<le> length ?c" "n \<le> length dst" using ok Scatter dst by (auto simp: msg_ok_def n_def)
  have q: "?q \<le> length ?c" "?q \<le> length dst" "?q + n mod 4096 = n"
    using le_trans [OF div_times_less_eq_dividend ps(2)] le_trans [OF div_times_less_eq_dividend ps(3)] by simp_all
  have pages: "kcopy_pages ps 0 (n div 4096) dst = Some (take ?q ?c @ drop ?q dst)"
    using kcopy_pages_ok [OF ps(1), of 0 "n div 4096" dst] q by simp
  have len: "length (take ?q ?c) = ?q" using q by simp
  have data: "msg_data m = take n ?c" by (simp add: msg_data_def Scatter n_def)
  show ?thesis
  proof (cases "n mod 4096 = 0")
    case True
    then show ?thesis using pages q(3) by (simp add: msg_to_buffer_def Let_def Scatter data flip: n_def)
  next
    case False
    have b: "page_block (n div 4096) (n mod 4096) ps = Some (take (n mod 4096) (drop ?q ?c))"
      by (rule page_block_ok [OF ps(1)]) (use False ps(2) in \<open>simp_all add: less_imp_le\<close>)
    have "n mod 4096 \<le> length ?c - ?q" using ps(2) q(3) by linarith
    then have lb: "length (take (n mod 4096) (drop ?q ?c)) = n mod 4096" by simp
    have sp: "take ?q ?c @ take (n mod 4096) (drop ?q ?c) = take n ?c"
      using take_add [of ?q "n mod 4096" ?c] q(3) by simp
    have ln: "length (take n ?c) = n" using ps(2) by simp
    have "kmemcpy ?q (take (n mod 4096) (drop ?q ?c)) (take ?q ?c @ drop ?q dst) = Some (take n ?c @ drop n dst)"
      using kmemcpy_next [of "take ?q ?c" dst "take (n mod 4096) (drop ?q ?c)"] q ps(3) unfolding len lb sp ln
      by simp
    then show ?thesis using pages False b by (simp add: msg_to_buffer_def Let_def Scatter data flip: n_def)
  qed
qed

lemma msg_free_ok: "msg_ok m \<Longrightarrow> hab_msg_free m s = Some s"
  using msgs_free_ok [of "[m]" s] by simp

section \<open>Guarantees\<close>

lemma run_ok_self: "run_ok I Q m \<Longrightarrow> run_ok I (\<lambda>a w s. Q a w s \<and> m = Some (Done a w s)) m"
  by (cases m) (auto simp: run_ok_def split: run.splits)

lemma size_as_int:
  assumes "unat (n :: u32) < 2 ^ 31"
  shows "to_size_t (sint n) = unat n"
proof -
  have u: "uint n = int (unat n)" by (rule uint_nat)
  have b: "int (unat n) < int (2 ^ 31)" using assms by (simp only: of_nat_less_iff)
  then have "uint n < 2 ^ 31" unfolding u by (simp only: of_nat_power of_nat_numeral)
  moreover have "- (2 ^ 31) \<le> uint n" by (rule order_trans [OF _ uint_ge_0]) simp
  ultimately have "sint n = uint n" by (simp add: sint_uint signed_take_bit_int_eq_self_iff)
  then have "sint n = int (unat n)" by (simp only: u)
  then have "to_size_t (sint n) = nat (int (unat n) mod int (2 ^ 64))"
    by (simp only: to_size_t_def of_nat_power of_nat_numeral)
  also have "\<dots> = unat n" unfolding zmod_int [symmetric] nat_int using assms by simp
  finally show ?thesis .
qed

text \<open>The oldest message in the queue of a channel of the context with the given id.\<close>

definition oldest_of :: "uhab_context \<Rightarrow> u32 \<Rightarrow> hab_driver \<Rightarrow> hab_message \<Rightarrow> bool" where
  "oldest_of cx vcid s m \<longleftrightarrow> (\<exists>v vc qs. v \<in> set (cx_vchannels cx) \<and> st_vchans s v = Some vc \<and> vc_id vc = vcid \<and>
     vc_rx_list vc = m # qs)"

lemma recv_takes_oldest:
  assumes "drv_wf {} hp hv hc s" "st_ctxs s c = Some cx" "has_flag flags 1"
    and "hab_vchan_recv c vcid rsize flags w s = Some (Done (0, k, Some m) w' s')"
  shows "oldest_of cx vcid s m"
  using recv_oldest [OF assms] unfolding oldest_of_def
  by (elim disjE exE conjE) (simp, fastforce split: list.split_asm if_split_asm)

text \<open>
  C23. A kernel client's receive writes only inside the buffer whose size it passes: it does not fault and
  keeps the invariant, and when it returns 0 the buffer begins with the bytes of the message that
  \<^verbatim>\<open>hab_vchan_recv\<close> took off the channel in this call, the rest of the buffer is as it was, and the size
  variable is the size of the message; otherwise the buffer is untouched.  For a non-blocking call that
  message is the oldest in the queue of the channel at the time of the call.  (The size passed is below
  2^31 and not larger than the buffer; other threads respect the reference the call holds.)
\<close>
theorem habmm_socket_recv_in_bounds:
  assumes wf: "drv_wf {} hp hv hc s" and c: "st_ctxs s kctx = Some cx"
    and env: "\<And>v. env_ok (drv_wf {} hp (hv(v := Suc (hv v))) hc) w"
    and n: "unat n < 2 ^ 31" "unat n \<le> length dst"
  shows "run_ok (\<lambda>s'. \<exists>v. drv_wf {} hp (hv(v := Suc (hv v))) hc s')
    (\<lambda>(ret, dst', n') w' s'. drv_wf {} hp hv hc s' \<and> (if ret = 0
       then \<exists>m k s1. hab_vchan_recv kctx handle (sint n) flags w s = Some (Done (0, k, Some m) w' s1) \<and>
         (has_flag flags 1 \<longrightarrow> oldest_of cx handle s m) \<and>
         length (msg_data m) = ms_sizebytes m \<and> ms_sizebytes m \<le> unat n \<and>
         dst' = Some (msg_data m @ drop (ms_sizebytes m) dst) \<and> n' = Some (of_nat (ms_sizebytes m) :: u32)
       else dst' = Some dst))
    (habmm_socket_recv kctx handle (Some dst) (Some n) flags w s)"
proof -
  let ?recv = "hab_vchan_recv kctx handle (sint n) flags w s"
  have step: "\<exists>r. (case m of
         None \<Rightarrow> Some (Done (ret, Some dst, Some (of_int k :: u32)) w' s1)
       | Some m \<Rightarrow> do {
           dst1 \<leftarrow> (if ret = 0 then msg_to_buffer m dst else Some dst);
           s2 \<leftarrow> hab_msg_free m s1;
           Some (Done (ret, Some dst1, Some (of_int k :: u32)) w' s2)
         }) = Some (Done r w' s1) \<and> (case r of (ret, dst', n') \<Rightarrow> if ret = 0
       then \<exists>x. m = Some x \<and> length (msg_data x) = ms_sizebytes x \<and> ms_sizebytes x \<le> unat n \<and>
         dst' = Some (msg_data x @ drop (ms_sizebytes x) dst) \<and> n' = Some (of_nat (ms_sizebytes x) :: u32)
       else dst' = Some dst)" if g: "got_msg (sint n) (ret, k, m)" for ret k m w' s1
  proof (cases m)
    case (Some x)
    with g have x: "msg_ok x" "ms_sizebytes x \<le> unat n" "ret = 0" "k = to_int32 (ms_sizebytes x)"
      by (simp_all add: got_msg_def size_as_int [OF n(1)])
    have len: "length (msg_data x) = ms_sizebytes x"
      using x(1) by (auto simp: msg_data_def msg_ok_def split: msg_body.splits)
    have "msg_to_buffer x dst = Some (msg_data x @ drop (length (msg_data x)) dst)"
      using msg_to_buffer_ok [OF x(1)] x(2) n(2) by (simp add: len)
    moreover have "of_int (to_int32 (ms_sizebytes x)) = (of_nat (ms_sizebytes x) :: u32)"
      by (simp add: to_int32_def)
    ultimately show ?thesis using msg_free_ok [OF x(1), of s1] x(2) by (simp add: Some x(3,4) len)
  qed (use g in \<open>auto simp: got_msg_def\<close>)
  show ?thesis
    unfolding habmm_socket_recv_def prod.case option.case
  proof (rule run_ok_bind [OF run_ok_self [OF hab_vchan_recv_wf [OF wf c env]]], assumption, clarify)
    fix ret k m w' s1
    assume g: "drv_wf {} hp hv hc s1" "got_msg (sint n) (ret, k, m)" "?recv = Some (Done (ret, k, m) w' s1)"
    have old: "has_flag flags 1 \<longrightarrow> oldest_of cx handle s x" if "ret = 0" "m = Some x" for x
      using recv_takes_oldest [OF wf c] g(3) that by blast
    show "run_ok (\<lambda>s'. \<exists>v. drv_wf {} hp (hv(v := Suc (hv v))) hc s')
      (\<lambda>(ret, dst', n') w' s'. drv_wf {} hp hv hc s' \<and> (if ret = 0
       then \<exists>m k s1. ?recv = Some (Done (0, k, Some m) w' s1) \<and> (has_flag flags 1 \<longrightarrow> oldest_of cx handle s m) \<and>
         length (msg_data m) = ms_sizebytes m \<and> ms_sizebytes m \<le> unat n \<and>
         dst' = Some (msg_data m @ drop (ms_sizebytes m) dst) \<and> n' = Some (of_nat (ms_sizebytes m) :: u32)
       else dst' = Some dst))
      (case m of
         None \<Rightarrow> Some (Done (ret, Some dst, Some (of_int k :: u32)) w' s1)
       | Some m \<Rightarrow> do {
           dst1 \<leftarrow> (if ret = 0 then msg_to_buffer m dst else Some dst);
           s2 \<leftarrow> hab_msg_free m s1;
           Some (Done (ret, Some dst1, Some (of_int k :: u32)) w' s2)
         })"
    proof (cases "ret = 0")
      case True
      then obtain x where m: "m = Some x" using g(2) by (auto simp: got_msg_def)
      from step [OF g(2), of w' s1] old [OF True m] g(1,3) show ?thesis
        unfolding m True by fastforce
    next
      case False
      with g(2) have "m = None" by (auto simp: got_msg_def)
      with False g(1) show ?thesis by simp
    qed
  qed
qed

text \<open>A non-blocking receive of the three bytes that wait in the example.\<close>

lemma socket_recv_ex:
  "done_with (habmm_socket_recv 2 0x25902001 (Some (replicate 5 0)) (Some 5) 1 [] drv_ex) (\<lambda>(ret, dst, n) w s. ret = 0 \<and> n = Some 3 \<and> w = [])"
  by code_simp

lemma oldest_ex:
  "oldest_of ctx_ex 0x25902001 drv_ex m \<Longrightarrow> m = \<lparr>ms_sizebytes = 3, ms_sequence_rx = 1, ms_body = Flat [10, 20, 30]\<rparr>"
  by (auto simp: oldest_of_def drv_ex_def ctx_ex_def vchan_ex_def)

theorem habmm_socket_recv_in_bounds_witness:
  "\<exists>s'. habmm_socket_recv 2 0x25902001 (Some (replicate 5 0)) (Some 5) 1 [] drv_ex =
     Some (Done (0, Some [10, 20, 30, 0, 0], Some 3) [] s') \<and> drv_wf {} none_held none_held files_ex s'"
proof -
  have w: "env_ok I []" for I by (simp add: env_ok_def)
  have n: "unat (5 :: u32) < 2 ^ 31" "unat (5 :: u32) \<le> length (replicate 5 0 :: bytes)" by simp_all
  note recv = habmm_socket_recv_in_bounds [OF drv_ex_wf drv_ex_ctx w n, of "0x25902001" 1]
  from socket_recv_ex obtain dst w' s' where
    run: "habmm_socket_recv 2 0x25902001 (Some (replicate 5 0)) (Some 5) 1 [] drv_ex = Some (Done (0, dst, Some 3) w' s')" "w' = []"
    by (auto elim!: done_withE)
  have "has_flag 1 1" by code_simp
  with recv [unfolded run(1)] obtain m where m: "drv_wf {} none_held none_held files_ex s'" "oldest_of ctx_ex 0x25902001 drv_ex m"
    "dst = Some (msg_data m @ drop (ms_sizebytes m) (replicate 5 0))" by auto
  then have "dst = Some [10, 20, 30, 0, 0]" using oldest_ex [OF m(2)] by (simp add: msg_data_def numeral_eq_Suc)
  with run m(1) show ?thesis by auto
qed

text \<open>
  \<^verbatim>\<open>habmm_socket_query\<close> does not report the remote's vmid: what it stores is 1 if that vmid is not 0,
  and 0 if it is, because a comparison stands where the shift was meant.
\<close>
theorem query_remote_vmid_is_flag:
  assumes "habmm_socket_query kctx handle (Some i) s = Some ((0, Some j), s')"
    and "hab_vchan_query kctx handle s = Some (0, ids, s')"
  shows "si_vmid_remote j = (if drop_bit 32 ids = 0 then 0 else 1) \<and> si_vmid_local j = ucast ids"
proof -
  have "(32 < ids AND 0xFFFFFFFF00000000) = (drop_bit 32 ids \<noteq> 0)"
  proof -
    have mask: "(0xFFFFFFFF00000000 :: u64) = push_bit 32 (mask 32)" by code_simp
    have "ids AND 0xFFFFFFFF00000000 = push_bit 32 (drop_bit 32 ids)"
      unfolding mask by (rule bit_word_eqI) (auto simp: bit_simps)
    moreover have "unat ids < 2 ^ LENGTH(64)" by (rule unsigned_less)
    then have "unat (drop_bit 32 ids) < 2 ^ 32" unfolding unat_drop_bit_eq by (simp add: drop_bit_eq_div less_mult_imp_div_less)
    then have "unat (push_bit 32 (drop_bit 32 ids)) = 2 ^ 32 * unat (drop_bit 32 ids)"
      unfolding unsigned_push_bit_eq by (simp add: push_bit_eq_mult take_bit_nat_eq_self)
    ultimately show ?thesis
      by (auto simp: word_less_nat_alt unat_eq_0 [symmetric] simp del: unat_eq_0)
  qed
  moreover have low: "(0xFFFFFFFF :: u64) = mask 32" by code_simp
  have "ucast (ids AND 0xFFFFFFFF) = (ucast ids :: u32)"
    unfolding low by (rule bit_word_eqI) (auto simp: bit_simps)
  ultimately show ?thesis using assms by (auto simp: habmm_socket_query_def)
qed

definition info_ex :: hab_socket_info where
  "info_ex = \<lparr>si_vmid_remote = 0, si_vmid_local = 0, si_vmname_remote = replicate 12 0,
     si_vmname_local = replicate 12 0\<rparr>"

theorem query_remote_vmid_is_flag_witness:
  "\<exists>j s'. habmm_socket_query 2 0x25902001 (Some info_ex) drv_ex = Some ((0, Some j), s') \<and>
     pc_vmid_remote pchan_ex = 2 \<and> si_vmid_remote j = 1"
proof -
  have "\<exists>s'. hab_vchan_query 2 0x25902001 drv_ex = Some (0, 0x200000000, s')"
    by (simp add: hab_vchan_query_def hab_get_vchan_fromvcid_def vchan_get_unless_zero_def
      drv_ex_def ctx_ex_def vchan_ex_fields pchan_ex_def mod_eqs(2) put_listed Let_def push_bit_eq_mult)
  then obtain s' where q: "hab_vchan_query 2 0x25902001 drv_ex = Some (0, 0x200000000, s')" by blast
  then obtain j where run: "habmm_socket_query 2 0x25902001 (Some info_ex) drv_ex = Some ((0, Some j), s')"
    by (simp add: habmm_socket_query_def)
  have "drop_bit 32 (0x200000000 :: u64) \<noteq> 0" by code_simp
  with query_remote_vmid_is_flag [OF run q] run show ?thesis by (simp add: pchan_ex_def)
qed

end
