(* ===== verification/Hab_Serving.thy ===== *)
theory Hab_Serving
  imports Hab_Tables
begin

text \<open>
  What a worker that takes messages from a vhost channel relies on, and that it stays true from message
  to message: the channel is there, still a vhost channel and referenced, and the exports registered on
  it are complete.
\<close>

section \<open>The channel and its exports\<close>

definition export_ready ::
  "nat \<Rightarrow> (nat \<Rightarrow> virtual_channel option) \<Rightarrow> nat \<Rightarrow> export_desc_super \<Rightarrow> bool" where
  "export_ready p V j x \<longleftrightarrow> j = unat (ex_export_id x) \<and> (ex_exp_state x = HAB_EXP_SUCCESS \<longrightarrow>
     1 + unat (ex_payload_size x) \<le> length (ex_payload x) \<and> unat (ex_payload_size x) + export_desc_size < 2 ^ 32 \<and>
     ex_pchan x = Some p \<and> (\<forall>v vc. V v = Some vc \<longrightarrow> vc_pchan vc = p \<longrightarrow> ex_ctx x = Some (vc_ctx vc)))"

definition exports_ready ::
  "nat \<Rightarrow> idr \<Rightarrow> (nat \<Rightarrow> virtual_channel option) \<Rightarrow> (nat \<Rightarrow> export_desc_super option) \<Rightarrow> nat \<Rightarrow> bool" where
  "exports_ready p m V X n \<longleftrightarrow> (\<forall>j e. idr_find m j = Some e \<longrightarrow>
     e < n \<and> (\<forall>x. X e = Some x \<longrightarrow> export_ready p V j x))"

definition is_vhost :: "hyp_data \<Rightarrow> bool" where
  "is_vhost hy \<longleftrightarrow> (\<exists>vh. hy = HypVhost vh)"

definition serving ::
  "nat \<Rightarrow> nat \<Rightarrow> (nat \<Rightarrow> physical_channel option) \<Rightarrow> (nat \<Rightarrow> virtual_channel option) \<Rightarrow>
     (nat \<Rightarrow> export_desc_super option) \<Rightarrow> nat \<Rightarrow> bool" where
  "serving p k P V X n \<longleftrightarrow> (\<exists>pc. P p = Some pc \<and> k \<le> pc_refcount pc \<and> is_vhost (pc_hyp_data pc) \<and>
     exports_ready p (pc_expid_idr pc) V X n)"

abbreviation serves :: "nat \<Rightarrow> nat \<Rightarrow> hab_driver \<Rightarrow> bool" where
  "serves p k s \<equiv> serving p k (st_pchans s) (st_vchans s) (st_exps s) (st_next s)"

lemma serves_exports: "serves p k s \<Longrightarrow> exports_ok p s"
  by (fastforce simp: serving_def exports_ready_def export_ready_def exports_ok_def)

lemma serves_readable: "serves p k s \<Longrightarrow> readable p s"
  by (auto simp: serving_def readable_def is_vhost_def)

section \<open>Updates\<close>

lemma serving_pchan:
  assumes "serving p k P V X n" "P q = Some pc" "pc_refcount pc \<le> pc_refcount pc'"
    and "is_vhost (pc_hyp_data pc) \<Longrightarrow> is_vhost (pc_hyp_data pc')" "pc_expid_idr pc' = pc_expid_idr pc"
  shows "serving p k (P(q \<mapsto> pc')) V X n"
  using assms by (fastforce simp: serving_def split: if_splits)

lemma exports_ready_idr: "exports_ready p m V X n \<Longrightarrow> exports_ready p (idr_remove m i) V X n"
  by (auto simp: exports_ready_def idr_find_remove split: if_splits)

lemma serving_vchan:
  assumes "serving p k P V X n" "V v = Some vc" "vc_pchan vc' = vc_pchan vc" "vc_ctx vc' = vc_ctx vc"
  shows "serving p k P (V(v \<mapsto> vc')) X n"
proof -
  from assms(1) obtain pc where pc: "P p = Some pc" "k \<le> pc_refcount pc" "is_vhost (pc_hyp_data pc)"
    "exports_ready p (pc_expid_idr pc) V X n" unfolding serving_def by blast
  have "export_ready p (V(v \<mapsto> vc')) j x" if "export_ready p V j x" for j x
    using that assms(2-4) unfolding export_ready_def by (auto split: if_splits)
  with pc(4) have "exports_ready p (pc_expid_idr pc) (V(v \<mapsto> vc')) X n" unfolding exports_ready_def by blast
  with pc(1-3) show ?thesis unfolding serving_def by blast
qed

lemma serving_vchan_gone: "serving p k P V X n \<Longrightarrow> serving p k P (V(v := None)) X n"
  unfolding serving_def exports_ready_def export_ready_def by (fastforce split: if_splits)

lemma serving_exp_gone: "serving p k P V X n \<Longrightarrow> serving p k P V (X(e := None)) n"
  unfolding serving_def exports_ready_def by (fastforce split: if_splits)

definition same_export :: "export_desc_super \<Rightarrow> export_desc_super \<Rightarrow> bool" where
  "same_export x y \<longleftrightarrow> ex_export_id y = ex_export_id x \<and> ex_exp_state y = ex_exp_state x \<and>
     ex_payload_size y = ex_payload_size x \<and> ex_payload y = ex_payload x"

lemma serving_exp:
  assumes "serving p k P V X n" "X e = Some x" "same_export x y"
    and "\<And>pc j. P p = Some pc \<Longrightarrow> idr_find (pc_expid_idr pc) j = Some e \<Longrightarrow> ex_exp_state x = HAB_EXP_SUCCESS \<Longrightarrow>
      export_ready p V j x \<Longrightarrow> ex_pchan y = ex_pchan x \<and> (ex_ctx y = ex_ctx x \<or> (\<forall>v vc. V v = Some vc \<longrightarrow> vc_pchan vc = p \<longrightarrow> ex_ctx y = Some (vc_ctx vc)))"
  shows "serving p k P V (X(e \<mapsto> y)) n"
proof -
  from assms(1) obtain pc where pc: "P p = Some pc" "k \<le> pc_refcount pc" "is_vhost (pc_hyp_data pc)"
    "exports_ready p (pc_expid_idr pc) V X n" unfolding serving_def by blast
  have "export_ready p V j y" if i: "idr_find (pc_expid_idr pc) j = Some e" for j
  proof -
    have r: "export_ready p V j x" using pc(4) i assms(2) unfolding exports_ready_def by blast
    show ?thesis
    proof (cases "ex_exp_state x = HAB_EXP_SUCCESS")
      case True
      from assms(4) [OF pc(1) i True r] r assms(3) True show ?thesis
        unfolding export_ready_def same_export_def by auto
    next
      case False
      with r assms(3) show ?thesis unfolding export_ready_def same_export_def by auto
    qed
  qed
  with pc(4) have "exports_ready p (pc_expid_idr pc) V (X(e \<mapsto> y)) n"
    unfolding exports_ready_def by simp
  with pc(1-3) show ?thesis unfolding serving_def by blast
qed

lemma serving_exp_same:
  "serving p k P V X n \<Longrightarrow> X e = Some x \<Longrightarrow> same_export x y \<Longrightarrow> ex_pchan y = ex_pchan x \<Longrightarrow> ex_ctx y = ex_ctx x \<Longrightarrow>
     serving p k P V (X(e \<mapsto> y)) n"
  by (rule serving_exp) auto

lemma serving_new: "serving p k P V X n \<Longrightarrow> serving p k P V (X(n \<mapsto> y)) (Suc n)"
  unfolding serving_def exports_ready_def by (fastforce split: if_splits)

text \<open>An export whose identifier was taken out of the table of its channel is not registered any more.\<close>

lemma serving_unregistered:
  assumes "serving p k P V X n" "X e = Some x" "ex_pchan x = Some q" "P q = Some pc"
    and "pc' = pc\<lparr>pc_expid_idr := idr_remove (pc_expid_idr pc) (unat (ex_export_id x))\<rparr>"
    and "z = None \<or> (\<exists>y. z = Some y \<and> same_export x y)"
  shows "serving p k (P(q \<mapsto> pc')) V (X(e := z)) n"
proof -
  from assms(1) obtain pd where pd: "P p = Some pd" "k \<le> pc_refcount pd" "is_vhost (pc_hyp_data pd)"
    "exports_ready p (pc_expid_idr pd) V X n" unfolding serving_def by blast
  define pd' where "pd' = (if q = p then pc' else pd)"
  have sub: "idr_find (pc_expid_idr pd') j = Some e' \<Longrightarrow> idr_find (pc_expid_idr pd) j = Some e' \<and>
      (q = p \<longrightarrow> j \<noteq> unat (ex_export_id x))" for j e'
    using assms(4,5) pd(1) by (auto simp: pd'_def idr_find_remove split: if_splits)
  have "exports_ready p (pc_expid_idr pd') V (X(e := z)) n"
    unfolding exports_ready_def
  proof (intro allI impI conjI)
    fix j e' assume j: "idr_find (pc_expid_idr pd') j = Some e'"
    with sub pd(4) show "e' < n" unfolding exports_ready_def by blast
    fix y assume y: "(X(e := z)) e' = Some y"
    have old: "export_ready p V j w" if "X e' = Some w" for w
      using sub [OF j] pd(4) that unfolding exports_ready_def by blast
    show "export_ready p V j y"
    proof (cases "e' = e")
      case False
      with old y show ?thesis by simp
    next
      case True
      with old assms(2) have r: "export_ready p V j x" by simp
      with sub [OF j] have "q \<noteq> p" by (auto simp: export_ready_def)
      with r assms(3,6) y True show ?thesis by (auto simp: export_ready_def same_export_def)
    qed
  qed
  moreover have "(P(q \<mapsto> pc')) p = Some pd'" "k \<le> pc_refcount pd'" "is_vhost (pc_hyp_data pd')"
    using assms(4,5) pd(1-3) by (auto simp: pd'_def)
  ultimately show ?thesis unfolding serving_def by blast
qed

section \<open>Objects\<close>

named_theorems keeps_serving "the channel keeps serving"

lemma same_export_simps [simp]:
  "same_export x x" "same_export x (x\<lparr>ex_refcount := n\<rparr>)" "same_export x (x\<lparr>ex_dmabuf := d\<rparr>)"
  "same_export x (x\<lparr>ex_ctx := c\<rparr>)" "same_export x (x\<lparr>ex_remote_imported := b\<rparr>)"
  by (simp_all add: same_export_def)

lemma kalloc_serves [keeps_serving]: "kalloc s = (ok, s') \<Longrightarrow> serves p k s \<Longrightarrow> serves p k s'"
  using kalloc_frame [of s ok s'] by simp

lemma is_vhost_enqueue [simp]: "is_vhost (enqueue_hyp h b hy) = is_vhost hy" "is_vhost (HypVhost vh)"
  by (cases hy) (simp_all add: is_vhost_def enqueue_hyp_def)

lemma transport_serves [keeps_serving]:
  "physical_channel_send q h b s = Some (r, s') \<Longrightarrow> serves p k s \<Longrightarrow> serves p k s'"
  "physical_channel_read q n s = Some (r, bs, s') \<Longrightarrow> serves p k s \<Longrightarrow> serves p k s'"
proof -
  assume a: "physical_channel_send q h b s = Some (r, s')" "serves p k s"
  from a(1) show "serves p k s'"
  proof (cases rule: send_cases)
    case (ok pc m b0 b')
    then show ?thesis using serving_pchan [OF a(2) ok(1), of "pc\<lparr>pc_hyp_data := enqueue_hyp h b' (pc_hyp_data pc)\<rparr>"] by simp
  qed (use a(2) in simp)
next
  assume a: "physical_channel_read q n s = Some (r, bs, s')" "serves p k s"
  from a(1) show "serves p k s'"
  proof (cases rule: read_cases)
    case (vhost pc vh)
    then show ?thesis
      using serving_pchan [OF a(2) vhost(1), of "pc\<lparr>pc_hyp_data := HypVhost (vh\<lparr>vh_out_iter := drop n (vh_out_iter vh)\<rparr>)\<rparr>"] by simp
  qed (use a(2) in simp_all)
qed

lemma mod_pchan_serves:
  assumes "mod_pchan q f s = Some s'" "serves p k s"
    and "\<And>pc. pc_refcount pc \<le> pc_refcount (f pc) \<and> pc_hyp_data (f pc) = pc_hyp_data pc \<and> pc_expid_idr (f pc) = pc_expid_idr pc"
  shows "serves p k s'"
proof -
  from assms(1) obtain pc where q: "st_pchans s q = Some pc" "s' = s\<lparr>st_pchans := (st_pchans s)(q \<mapsto> f pc)\<rparr>" by auto
  from serving_pchan [OF assms(2) q(1), of "f pc"] assms(3) [of pc] show ?thesis by (simp add: q(2))
qed

lemma mod_vchan_serves:
  assumes "mod_vchan v f s = Some s'" "serves p k s"
    and "\<And>vc. vc_pchan (f vc) = vc_pchan vc \<and> vc_ctx (f vc) = vc_ctx vc"
  shows "serves p k s'"
proof -
  from assms(1) obtain vc where v: "st_vchans s v = Some vc" "s' = s\<lparr>st_vchans := (st_vchans s)(v \<mapsto> f vc)\<rparr>" by auto
  from serving_vchan [OF assms(2) v(1), of "f vc"] assms(3) [of vc] show ?thesis by (simp add: v(2))
qed

lemma pchan_get_serves [keeps_serving]: "hab_pchan_get q s = Some s' \<Longrightarrow> serves p k s \<Longrightarrow> serves p k s'"
  unfolding hab_pchan_get_def by (erule mod_pchan_serves) simp_all

lemma serving_less: "serving p k P V X n \<Longrightarrow> j \<le> k \<Longrightarrow> serving p j P V X n"
  unfolding serving_def using le_trans by blast

lemma pchan_put_serves:
  assumes run: "hab_pchan_put q s = Some s'" and ok: "serves p (Suc (Suc k)) s"
  shows "serves p (Suc k) s'"
proof -
  from run obtain pc where q: "st_pchans s q = Some pc" by (auto simp: hab_pchan_put_def run_defs)
  from ok obtain pd where pd: "st_pchans s p = Some pd" "Suc (Suc k) \<le> pc_refcount pd" "is_vhost (pc_hyp_data pd)"
    "exports_ready p (pc_expid_idr pd) (st_vchans s) (st_exps s) (st_next s)" unfolding serving_def by blast
  show ?thesis
  proof (cases "q = p")
    case True
    with run q pd show ?thesis by (auto simp: hab_pchan_put_def run_defs serving_def)
  next
    case False
    with run q pd show ?thesis
      by (auto simp: hab_pchan_put_def hab_pchan_free_def run_defs serving_def split: if_splits)
  qed
qed

lemma unimport_msg_serves [keeps_serving]: "hab_send_unimport_msg v i s = Some s' \<Longrightarrow> serves p k s \<Longrightarrow> serves p k s'"
  by (auto simp: hab_send_unimport_msg_def run_defs dest: keeps_serving)

lemma export_put_fields:
  assumes "habmem_export_put e s = Some s'" "st_exps s e = Some x"
  shows "st_pchans s' = st_pchans s \<and> st_vchans s' = st_vchans s \<and> st_next s' = st_next s \<and>
    (\<exists>z. st_exps s' = (st_exps s)(e := z) \<and> (z = None \<or> (\<exists>y. z = Some y \<and> same_export x y)))"
  using assms unfolding habmem_export_put_def habmem_export_destroy_def habmem_exp_release_def run_defs
  by (auto simp: same_export_def split: option.splits if_splits)

lemma remove_export_fields:
  assumes "habmem_remove_export e s = Some s'" "st_exps s e = Some x"
  shows "st_pchans s' = st_pchans s \<and> st_vchans s' = st_vchans s \<and> st_next s' = st_next s \<and>
    (\<exists>z. st_exps s' = (st_exps s)(e := z) \<and> (z = None \<or> (\<exists>y. z = Some y \<and> same_export x y)))"
proof (cases "ex_ctx x")
  case None
  with assms have "s' = s" by (auto simp: habmem_remove_export_def)
  with assms(2) show ?thesis by (intro conjI exI [of _ "Some x"]) (simp_all add: fun_upd_idem)
next
  case (Some c)
  with assms obtain s2 where s2: "habmem_export_put e s2 = Some s'" "st_exps s2 = (st_exps s)(e \<mapsto> x\<lparr>ex_ctx := None\<rparr>)"
    "st_pchans s2 = st_pchans s" "st_vchans s2 = st_vchans s" "st_next s2 = st_next s"
    by (auto simp: habmem_remove_export_def run_defs)
  from export_put_fields [OF s2(1), of "x\<lparr>ex_ctx := None\<rparr>"] s2(2-) show ?thesis
    by (fastforce simp: same_export_def)
qed

text \<open>Exports of a context that goes: taken out of the table first, or left as they are.\<close>

lemma ctx_free_exports_serves: "ctx_free_exports c es s = Some s' \<Longrightarrow> serves p k s \<Longrightarrow> serves p k s'"
proof (induction es arbitrary: s)
  case (Cons e es)
  from Cons.prems(1) obtain cx x q pc s2 where e: "st_ctxs s c = Some cx" "st_exps s e = Some x" "ex_pchan x = Some q"
    "st_pchans s q = Some pc" and rest: "ctx_free_exports c es s2 = Some s'"
    and step: "s2 = s\<lparr>st_ctxs := (st_ctxs s)(c \<mapsto> cx\<lparr>cx_exp_whse := remove1 e (cx_exp_whse cx)\<rparr>),
        st_reclaim_list := st_reclaim_list s @ [e]\<rparr> \<or>
      (\<exists>s3. expid_remove q (ex_export_id x) (s\<lparr>st_ctxs := (st_ctxs s)(c \<mapsto> cx\<lparr>cx_exp_whse := remove1 e (cx_exp_whse cx)\<rparr>)\<rparr>) = Some s3 \<and>
        habmem_remove_export e s3 = Some s2)"
    by (auto simp: run_defs split: if_splits)
  let ?pc = "pc\<lparr>pc_expid_idr := idr_remove (pc_expid_idr pc) (unat (ex_export_id x))\<rparr>"
  have un: "serving p k ((st_pchans s)(q \<mapsto> ?pc)) (st_vchans s) ((st_exps s)(e := z)) (st_next s)"
    if "z = None \<or> (\<exists>y. z = Some y \<and> same_export x y)" for z
    by (rule serving_unregistered [OF Cons.prems(2) e(2-4) refl that])
  from step show ?case
  proof (elim disjE exE conjE)
    assume "s2 = s\<lparr>st_ctxs := (st_ctxs s)(c \<mapsto> cx\<lparr>cx_exp_whse := remove1 e (cx_exp_whse cx)\<rparr>),
        st_reclaim_list := st_reclaim_list s @ [e]\<rparr>"
    with Cons.IH [OF rest] Cons.prems(2) show ?case by simp
  next
    fix s3
    assume s3: "expid_remove q (ex_export_id x) (s\<lparr>st_ctxs := (st_ctxs s)(c \<mapsto> cx\<lparr>cx_exp_whse := remove1 e (cx_exp_whse cx)\<rparr>)\<rparr>) = Some s3"
      "habmem_remove_export e s3 = Some s2"
    have "st_pchans s3 = (st_pchans s)(q \<mapsto> ?pc)" "st_vchans s3 = st_vchans s" "st_exps s3 = st_exps s"
      "st_next s3 = st_next s" using s3(1) e by (auto simp: expid_remove_def)
    with remove_export_fields [OF s3(2), of x] e(2) un have "serves p k s2" by fastforce
    with Cons.IH [OF rest] show ?case by simp
  qed
qed simp

lemma ctx_free_imports_serves: "ctx_free_imports c m s = Some s' \<Longrightarrow> serves p k s \<Longrightarrow> serves p k s'"
proof (induction m arbitrary: s)
  case (Cons a m)
  obtain key e where a: "a = (key, e)" by fastforce
  from Cons.prems have "\<exists>s3. ctx_free_imports c m (s3\<lparr>st_exps := (st_exps s3)(e := None)\<rparr>) = Some s' \<and> serves p k s3"
  proof -
    from Cons.prems(1) obtain x cx q pc where e: "st_exps s e = Some x" "st_ctxs s c = Some cx" "ex_pchan x = Some q"
      "st_pchans s q = Some pc" by (auto simp: a run_defs habmm_imp_hyp_unmap_def split: if_splits)
    define s1 where "s1 = s\<lparr>st_ctxs := (st_ctxs s)(c \<mapsto> cx\<lparr>cx_imp_whse := whse_remove key (cx_imp_whse cx),
        cx_import_total := cx_import_total cx - 1\<rparr>),
      st_hyp_mem := (if cx_kernel cx then dma_buf_put (unat (ex_kva x)) (st_hyp_mem s) else st_hyp_mem s)\<rparr>"
    have ok1: "serves p k s1" using Cons.prems(2) by (simp add: s1_def)
    have run: "ctx_free_imports c (a # m) s = (if pc_mem_proto pc = 1 then do {
          (r', s') \<leftarrow> physical_channel_send q
             (mk_header 4 HAB_PAYLOAD_TYPE_UNIMPORT HAB_VCID_UNIMPORT HAB_SESSIONID_UNIMPORT) (Some (enc_u32 (ex_export_id x))) s1;
          ctx_free_imports c m (s'\<lparr>st_exps := (st_exps s')(e := None)\<rparr>)
        } else ctx_free_imports c m (s1\<lparr>st_exps := (st_exps s1)(e := None)\<rparr>))"
      using e by (cases "cx_kernel cx") (simp_all add: a s1_def habmm_imp_hyp_unmap_def mod_ctx_def split_def bind_assoc)
    have "\<exists>s3. ctx_free_imports c m (s3\<lparr>st_exps := (st_exps s3)(e := None)\<rparr>) = Some s' \<and>
      (s3 = s1 \<or> (\<exists>h b r. physical_channel_send q h b s1 = Some (r, s3)))"
      using Cons.prems(1) [unfolded run] by (auto simp: bind_eq_Some_conv split: if_splits)
    with ok1 transport_serves(1) show ?thesis by blast
  qed
  then obtain s3 where s3: "ctx_free_imports c m (s3\<lparr>st_exps := (st_exps s3)(e := None)\<rparr>) = Some s'" "serves p k s3" by blast
  show ?case by (rule Cons.IH [OF s3(1)]) (use serving_exp_gone [OF s3(2), of e] in \<open>simp del: fun_upd_apply\<close>)
qed simp

lemma ctx_put_serves [keeps_serving]: "hab_ctx_put c s = Some s' \<Longrightarrow> serves p k s \<Longrightarrow> serves p k s'"
  unfolding hab_ctx_put_def hab_ctx_free_def run_defs
  by (auto split: if_splits dest!: ctx_free_exports_serves ctx_free_imports_serves)

text \<open>
  The last reference to a virtual channel: its channel is referenced by it besides the base reference, so
  that the put does not free the channel.
\<close>

lemma serving_referenced:
  assumes wf: "drv_wf {} hp hv hc s" and v: "st_vchans s v = Some vc" "vc_pchan vc = p" and ok: "serves p k s"
  shows "serves p 2 s"
proof -
  from ok obtain pc where p: "st_pchans s p = Some pc" "is_vhost (pc_hyp_data pc)"
    "exports_ready p (pc_expid_idr pc) (st_vchans s) (st_exps s) (st_next s)" unfolding serving_def by blast
  from refs_ok_vchan [OF drv_wf_refs [OF wf] look_v [OF v(1)]] p(1) v(2) have "v \<in> set (pc_vchannels pc)"
    by (auto simp: vchan_ok_def pv_def)
  then have "1 \<le> length (pc_vchannels pc)" by (cases "pc_vchannels pc") auto
  with refs_ok_pchan [OF drv_wf_refs [OF wf] look_p [OF p(1)]] have "2 \<le> pc_refcount pc"
    by (auto simp: pchan_ok_def)
  with p show ?thesis unfolding serving_def by blast
qed

lemma pchan_put_other:
  assumes run: "hab_pchan_put q s = Some s'" and ok: "serves p k s" and q: "q \<noteq> p"
  shows "serves p k s'"
  using run ok q unfolding hab_pchan_put_def hab_pchan_free_def run_defs
  by (auto simp: serving_def split: if_splits)

lemma vchan_put_serves:
  assumes run: "hab_vchan_put v s = Some s'" and wf: "drv_wf {} hp hv hc s" and ok: "serves p (Suc 0) s"
  shows "serves p (Suc 0) s'"
proof -
  from run obtain vc where v: "st_vchans s v = Some vc" by (auto simp: hab_vchan_put_def run_defs)
  obtain s1 where s1: "mod_vchan v (\<lambda>vc. vc\<lparr>vc_refcount := vc_refcount vc - 1\<rparr>) s = Some s1"
    using v by (simp add: mod_vchan_def)
  then have v1: "st_vchans s1 v = Some (vc\<lparr>vc_refcount := vc_refcount vc - 1\<rparr>)" using v by auto
  show ?thesis
  proof (cases "vc_refcount vc \<le> 1")
    case False
    with run v s1 have "s' = s1" by (simp add: hab_vchan_put_def del: mod_vchan_Some)
    with mod_vchan_serves [OF s1 ok] show ?thesis by simp
  next
    case True
    with run v s1 have free: "hab_vchan_free v s1 = Some s'" by (simp add: hab_vchan_put_def del: mod_vchan_Some)
    define k where "k = (if vc_pchan vc = p then 2 else Suc 0)"
    have "serves p k s" using serving_referenced [OF wf v _ ok] ok by (simp add: k_def)
    then have ok1: "serves p k s1" using mod_vchan_serves [OF s1] by simp
    from free v1 obtain t1 t2 t3 t4 t5 t6 f g h where t: "hab_msgs_free (vc_rx_list vc) s1 = Some t1"
      "mod_vchan v f t1 = Some t2" "mod_pchan (vc_pchan vc) g t2 = Some t3" "hab_ctx_put (vc_ctx vc) t3 = Some t4"
      "mod_pchan (vc_pchan vc) h t4 = Some t5" "hab_pchan_put (vc_pchan vc) t5 = Some t6"
      "s' = t6\<lparr>st_vchans := (st_vchans t6)(v := None)\<rparr>"
      and fgh: "f = (\<lambda>vc. vc\<lparr>vc_rx_list := []\<rparr>)" "g = (\<lambda>pc. if v \<in> set (pc_vchannels pc)
          then pc\<lparr>pc_vchannels := remove1 v (pc_vchannels pc), pc_vcnt := pc_vcnt pc - 1\<rparr> else pc)"
        "h = (\<lambda>pc. pc\<lparr>pc_vchan_idr := idr_remove (pc_vchan_idr pc) (unat (HAB_VCID_GET_ID (vc_id vc)))\<rparr>)"
      unfolding hab_vchan_free_def run_defs by (auto simp del: mod_vchan_Some mod_pchan_Some)
    have "serves p k t2" using mod_vchan_serves [OF t(2)] msgs_free_tables [OF t(1)] ok1 by (simp add: fgh)
    then have "serves p k t3" using mod_pchan_serves [OF t(3)] by (simp add: fgh)
    then have "serves p k t5" using mod_pchan_serves [OF t(5)] ctx_put_serves [OF t(4)] by (simp add: fgh)
    then have "serves p (Suc 0) t6"
      using pchan_put_serves [OF t(6), of p 0] pchan_put_other [OF t(6)]
      by (cases "vc_pchan vc = p") (simp_all add: k_def numeral_2_eq_2)
    with t(7) show ?thesis by (simp add: serving_vchan_gone)
  qed
qed

lemma vchan_get_serves [keeps_serving]:
  assumes run: "hab_vchan_get q h s = Some (r, s')" and ok: "serves p k s"
  shows "serves p k s'"
proof -
  have "s' = s \<or> (\<exists>v. mod_vchan v (\<lambda>vc. vc\<lparr>vc_refcount := vc_refcount vc + 1\<rparr>) s = Some s')"
    using run unfolding hab_vchan_get_def vchan_get_unless_zero_def run_defs
    by (auto simp del: mod_vchan_Some split: option.splits if_splits)
  with ok show ?thesis using mod_vchan_serves [of _ "\<lambda>vc. vc\<lparr>vc_refcount := vc_refcount vc + 1\<rparr>"] by fastforce
qed

section \<open>Messages\<close>

lemma kallocs_serves: "kallocs n s = (ok, s') \<Longrightarrow> serves p k s \<Longrightarrow> serves p k s'"
  by (induction n arbitrary: s) (auto split: prod.splits if_splits dest: kalloc_serves)

lemma read_pages_serves: "read_pages q ns s = Some (t, ps, s') \<Longrightarrow> serves p k s \<Longrightarrow> serves p k s'"
  by (induction ns arbitrary: s t ps) (auto simp: run_defs dest!: transport_serves(2))

lemma msg_alloc_serves: "hab_msg_alloc q n s = Some (m, s') \<Longrightarrow> serves p k s \<Longrightarrow> serves p k s'"
  by (auto simp: hab_msg_alloc_def hab_scatter_msg_alloc_def run_defs split: prod.splits if_splits
      dest!: kallocs_serves read_pages_serves kalloc_serves transport_serves(2))

lemma drop_serves: "drop_ret q n r s = Some (r', s') \<Longrightarrow> serves p k s \<Longrightarrow> serves p k s'"
  by (auto simp: drop_ret_def hab_msg_drop_def run_defs split: prod.splits if_splits
      dest!: kalloc_serves transport_serves(2))

lemma imp_rxq_add_serves: "imp_rxq_add c a s = Some s' \<Longrightarrow> serves p k s \<Longrightarrow> serves p k s'"
  by (auto simp: imp_rxq_add_def run_defs)

lemma reject_serves: "export_desc_reject v pc i s = Some s' \<Longrightarrow> serves p k s \<Longrightarrow> serves p k s'"
  by (auto simp: export_desc_reject_def hab_create_invalid_ack_def case_kalloc run_defs split: if_splits
      dest!: imp_rxq_add_serves unimport_msg_serves)

lemma export_ack_serves:
  "hab_send_export_ack v q x s = Some (r, s') \<Longrightarrow> serves p k s \<Longrightarrow> serves p k s'"
  "hab_receive_create_export_ack q c n s = Some (r, s') \<Longrightarrow> serves p k s \<Longrightarrow> serves p k s'"
  "hab_receive_import_ack_fail q v s = Some (r, s') \<Longrightarrow> serves p k s \<Longrightarrow> serves p k s'"
  "hab_send_import_ack_fail v i s = Some (r, s') \<Longrightarrow> serves p k s \<Longrightarrow> serves p k s'"
  by (auto simp: hab_send_export_ack_def hab_receive_create_export_ack_def hab_receive_import_ack_fail_def
      hab_send_import_ack_fail_def case_kalloc run_defs split: if_splits
      dest!: transport_serves imp_rxq_add_serves)

lemma enqueue_serves: "hab_export_enqueue v x s = Some (r, s') \<Longrightarrow> serves p k s \<Longrightarrow> serves p k s'"
  by (auto simp: hab_export_enqueue_def run_defs split: if_splits intro: serving_new)

lemma receive_desc_serves:
  assumes run: "hab_receive_export_desc q v n s = Some (r, s')" and ok: "serves p k s"
  shows "serves p k s'"
proof (cases "HAB_HEADER_SIZE_MAX < n \<or> n < export_desc_size + compressed_pfns_size \<or> \<not> (st_mem s = [] \<or> \<not> hd (st_mem s))")
  case True
  with run ok show ?thesis
    unfolding hab_receive_export_desc_def case_kalloc by (auto split: if_splits)
next
  case False
  with run obtain r1 b s2 where rd: "physical_channel_read q n (s\<lparr>st_mem := tl (st_mem s)\<rparr>) = Some (r1, b, s2)"
    unfolding hab_receive_export_desc_def case_kalloc by (auto simp: run_defs)
  have ok2: "serves p k s2" using transport_serves(2) [OF rd] ok by simp
  note run1 = run [unfolded hab_receive_export_desc_def case_kalloc] False rd
  show ?thesis
  proof (cases "r1 = int n")
    case False
    with run1 ok2 show ?thesis by simp
  next
    case True
    with run1 obtain pc vc where pc: "st_pchans s2 q = Some pc" "st_vchans s2 v = Some vc" by (auto simp: run_defs)
    define x where "x = export_localize q pc vc (export_of_bytes (into_zeroed n b))"
    note run2 = run1 True pc
    show ?thesis
    proof (cases "export_desc_valid x n \<and> pc_mem_proto pc \<noteq> 1")
      case True
      with run2 ok2 show ?thesis
        by (auto simp: x_def [symmetric] run_defs dest!: enqueue_serves export_ack_serves(1))
    next
      case False
      with run2 ok2 show ?thesis
        by (auto simp: x_def [symmetric] run_defs split: if_splits dest!: reject_serves enqueue_serves imp_rxq_add_serves)
    qed
  qed
qed

lemma recv_queue_serves:
  "recv_message q v n s = Some s' \<Longrightarrow> serves p k s \<Longrightarrow> serves p k s'"
  "recv_profile q v n s = Some s' \<Longrightarrow> serves p k s \<Longrightarrow> serves p k s'"
  "recv_sche q v n s = Some s' \<Longrightarrow> serves p k s \<Longrightarrow> serves p k s'"
  unfolding recv_message_def recv_profile_def recv_sche_def hab_msg_queue_def run_defs
  by (auto simp del: mod_vchan_Some split: option.splits if_splits dest!: msg_alloc_serves elim!: mod_vchan_serves)

section \<open>Imports of the other side\<close>

lemma send_kind:
  assumes "physical_channel_send q h b s = Some (r, s')"
  obtains pc hy m where "st_pchans s q = Some pc" "is_vhost (pc_hyp_data pc) \<Longrightarrow> is_vhost hy"
    "s' = s\<lparr>st_mem := m, st_pchans := (st_pchans s)(q \<mapsto> pc\<lparr>pc_hyp_data := hy\<rparr>)\<rparr>"
  using assms
proof (cases rule: send_cases)
  case (fail pc m)
  then have "s' = s\<lparr>st_mem := m, st_pchans := (st_pchans s)(q \<mapsto> pc\<lparr>pc_hyp_data := pc_hyp_data pc\<rparr>)\<rparr>"
    by (simp add: fun_upd_idem)
  with fail(1) that show ?thesis by blast
next
  case (ok pc m b0 b')
  then show ?thesis using that [of pc "enqueue_hyp h b' (pc_hyp_data pc)" m] by simp
qed

lemma import_ack_serves:
  assumes run: "hab_send_import_ack v e s = Some (r, s')" and ok: "serves p k s"
    and v: "st_vchans s v = Some vc" "vc_pchan vc = p" and x: "st_exps s e = Some x"
    and ready: "export_ready p (st_vchans s) j x" "ex_exp_state x = HAB_EXP_SUCCESS"
  shows "serves p k s'"
proof -
  define x1 where "x1 = x\<lparr>ex_pchan := None, ex_vchan := None, ex_ctx := None\<rparr>"
  define s1 where "s1 = s\<lparr>st_exps := (st_exps s)(e \<mapsto> x1)\<rparr>"
  from run x v obtain h b s2 where s2: "physical_channel_send p h b s1 = Some (r, s2)"
    "mod_exp e (\<lambda>x. x\<lparr>ex_pchan := Some p, ex_vchan := Some v, ex_ctx := Some (vc_ctx vc)\<rparr>) s2 = Some s'"
    by (auto simp: hab_send_import_ack_def run_defs s1_def x1_def)
  define y where "y = x\<lparr>ex_pchan := Some p, ex_vchan := Some v, ex_ctx := Some (vc_ctx vc)\<rparr>"
  from s2(1) obtain pc hy m where p: "st_pchans s1 p = Some pc" "is_vhost (pc_hyp_data pc) \<Longrightarrow> is_vhost hy"
    "s2 = s1\<lparr>st_mem := m, st_pchans := (st_pchans s1)(p \<mapsto> pc\<lparr>pc_hyp_data := hy\<rparr>)\<rparr>" by (rule send_kind) blast
  have s': "st_pchans s' = (st_pchans s)(p \<mapsto> pc\<lparr>pc_hyp_data := hy\<rparr>)" "st_exps s' = (st_exps s)(e \<mapsto> y)"
    "st_vchans s' = st_vchans s" "st_next s' = st_next s"
    using s2(2) by (auto simp: p(3) s1_def x1_def y_def)
  have "serving p k (st_pchans s) (st_vchans s) ((st_exps s)(e \<mapsto> y)) (st_next s)"
    by (rule serving_exp [OF ok x]) (use ready v in \<open>auto simp: y_def same_export_def export_ready_def\<close>)
  from serving_pchan [OF this, of p pc "pc\<lparr>pc_hyp_data := hy\<rparr>"] p(1,2) show ?thesis by (simp add: s' s1_def)
qed

lemma recv_import_serves:
  assumes run: "recv_import p v s = Some s'" and ok: "serves p k s" and v: "st_vchans s v = Some vc" "vc_pchan vc = p"
  shows "serves p k s'"
proof -
  from run obtain r b s1 where rd: "physical_channel_read p import_data_size s = Some (r, b, s1)"
    by (auto simp: recv_import_def run_defs)
  have ok1: "serves p k s1" using transport_serves(2) [OF rd ok] .
  have v1: "st_vchans s1 v = Some vc" using hyp_vchans [OF read_frame [OF rd]] v(1) by simp
  show ?thesis
  proof (cases "r = int import_data_size")
    case False
    with run rd ok1 show ?thesis by (simp add: recv_import_def)
  next
    case True
    with run rd obtain pc where pc: "st_pchans s1 p = Some pc" by (auto simp: recv_import_def run_defs)
    let ?q = "dec_import_data (into_zeroed import_data_size b)"
    note run1 = run [unfolded recv_import_def] rd True pc
    show ?thesis
    proof (cases "idr_find (pc_expid_idr pc) (unat (id_exp_id ?q))")
      case None
      with run1 ok1 show ?thesis by (auto simp: run_defs dest!: export_ack_serves(4))
    next
      case (Some e)
      with run1 obtain x where x: "st_exps s1 e = Some x" by (auto simp: run_defs)
      show ?thesis
      proof (cases "id_page_cnt ?q = ex_payload_count x \<and> ex_exp_state x = HAB_EXP_SUCCESS")
        case True
        let ?x = "x\<lparr>ex_remote_imported := True\<rparr>"
        define s2 where "s2 = s1\<lparr>st_exps := (st_exps s1)(e \<mapsto> ?x)\<rparr>"
        have ok2: "serves p k s2" using serving_exp_same [OF ok1 x, of ?x] by (simp add: s2_def)
        have "export_ready p (st_vchans s2) (unat (id_exp_id ?q)) ?x"
          using ok1 pc Some x by (auto simp: serving_def exports_ready_def export_ready_def s2_def)
        note ack = import_ack_serves [OF _ ok2 _ v(2) _ this]
        from run1 Some x True obtain r2 where "hab_send_import_ack v e s2 = Some (r2, s')"
          by (auto simp: run_defs s2_def)
        from ack [OF this] v1 x True show ?thesis by (simp add: s2_def)
      next
        case False
        with run1 Some x ok1 show ?thesis by (auto simp: run_defs dest!: export_ack_serves(4))
      qed
    qed
  qed
qed

lemma remote_imported_serves:
  "serving p k P V X n \<Longrightarrow> X e = Some x \<Longrightarrow> serving p k P V (X(e \<mapsto> x\<lparr>ex_remote_imported := b\<rparr>)) n"
  by (erule serving_exp_same) simp_all

lemma unimport_recv_serves: "hab_recv_unimport_msg q s = Some s' \<Longrightarrow> serves p k s \<Longrightarrow> serves p k s'"
  by (auto simp: hab_recv_unimport_msg_def run_defs split: option.splits if_splits dest!: transport_serves(2))
    (rule remote_imported_serves, assumption+)

section \<open>The dispatch\<close>

lemma openq_add_serves: "openq_add d n q s = Some s' \<Longrightarrow> serves p k s \<Longrightarrow> serves p k s'"
  by (auto simp: openq_add_def run_defs dest!: pchan_get_serves)

lemma open_serves:
  "hab_open_request_add q n ty s = Some (r, s') \<Longrightarrow> serves p k s \<Longrightarrow> serves p k s'"
  "hab_open_receive_cancel q n s = Some (r, s') \<Longrightarrow> serves p k s \<Longrightarrow> serves p k s'"
  unfolding hab_open_request_add_def hab_open_receive_cancel_def case_kalloc run_defs
  by (auto split: if_splits option.splits dest!: transport_serves(2) openq_add_serves simp del: get_dev_Some)

lemma recv_vchan_msg_serves:
  assumes run: "recv_vchan_msg p v ty n s = Some (r, s')" and ok: "serves p k s"
    and v: "st_vchans s v = Some vc" "vc_pchan vc = p"
  shows "serves p k s'"
proof (cases "payload_of_code ty")
  case (Some t)
  with run ok v show ?thesis
    by (cases t) (auto simp: recv_vchan_msg_def run_defs hab_vchan_stop_def simp del: mod_vchan_Some
        dest!: recv_queue_serves receive_desc_serves export_ack_serves unimport_recv_serves recv_import_serves
        elim!: mod_vchan_serves)
qed (use run ok in \<open>simp add: recv_vchan_msg_def\<close>)

lemma msg_recv_serves:
  assumes run: "hab_msg_recv p h s = Some (r, s')" and ok: "serves p (Suc 0) s"
    and wf: "drv_wf {} hp hv hc s" and small: "stamped_small h"
  shows "serves p (Suc 0) s'"
proof (cases "is_open_type (HAB_HEADER_GET_TYPE h)")
  case True
  with run ok show ?thesis
    by (auto simp: hab_msg_recv_def Let_def split: if_splits dest!: open_serves drop_serves)
next
  case False
  obtain vo s1 where get: "hab_vchan_get p h s = Some (vo, s1)"
    using run False by (auto simp: hab_msg_recv_def run_defs)
  have ok1: "serves p (Suc 0) s1" using vchan_get_serves [OF get ok] .
  note run1 = run [unfolded hab_msg_recv_def Let_def] False get
  show ?thesis
  proof (cases vo)
    case None
    with run1 ok1 show ?thesis
      by (auto simp: run_defs split: if_splits dest!: drop_serves unimport_recv_serves)
  next
    case (Some v)
    from vchan_get_msg_wf [OF wf, of p _ h] get Some readable_pchan [OF serves_readable [OF ok]] obtain vc where
      v: "drv_wf {} hp (hv(v := Suc (hv v))) hc s1" "st_vchans s v = Some vc" "vc_pchan vc = p" "\<not> vc_otherend_closed vc"
      "s1 = s\<lparr>st_vchans := (st_vchans s)(v \<mapsto> vc\<lparr>vc_refcount := vc_refcount vc + 1\<rparr>)\<rparr>"
      by (fastforce simp: safe_ex)
    define vc1 where "vc1 = vc\<lparr>vc_refcount := vc_refcount vc + 1\<rparr>"
    have v1: "st_vchans s1 v = Some vc1" "vc_pchan vc1 = p" by (simp_all add: v vc1_def)
    from run1 Some v1 v(4) obtain s2 where
      s2: "recv_vchan_msg p v (HAB_HEADER_GET_TYPE h) (unat (HAB_HEADER_GET_SIZE h)) s1 = Some (r, s2)"
      "hab_vchan_put v s2 = Some s'" by (auto simp: run_defs vc1_def)
    have "vmsg hp (hv(v := Suc (hv v))) hc p v vc1 s1"
      using v serves_readable [OF ok1] v1 by (simp add: vmsg_def vc1_def)
    from recv_vchan_msg_wf [OF this serves_exports [OF ok1], of "HAB_HEADER_GET_TYPE h" "unat (HAB_HEADER_GET_SIZE h)"]
      small s2(1) have wf2: "drv_wf {} hp (hv(v := Suc (hv v))) hc s2" unfolding stamped_small_def by auto
    from recv_vchan_msg_serves [OF s2(1) ok1 v1] have "serves p (Suc 0) s2" .
    from vchan_put_serves [OF s2(2) wf2 this] show ?thesis .
  qed
qed

end
