(* ===== verification/Hab_Vhost.thy ===== *)
theory Hab_Vhost
  imports Hab_Msg
begin

text \<open>
  The virtqueues of the vhost back end, \<^verbatim>\<open>hypervisor/virtio/hab_vhost.c\<close>: the worker that moves queued
  messages to the guest (\<^verbatim>\<open>rx_worker\<close>) and the worker that takes the guest's messages (\<^verbatim>\<open>tx_worker\<close>).

  The vhost library is not part of the repository.  What it and the guest do is an argument: the list
  of answers of the coming calls of \<^verbatim>\<open>vhost_get_vq_desc\<close> (no further answer means that no buffer is
  available and that notification could be enabled), and the predicate \<open>exceeds\<close> for
  \<^verbatim>\<open>vhost_exceeds_weight\<close> on the number of bytes moved.
\<close>

section \<open>Virtqueues\<close>

text \<open>
  A descriptor chain: its readable and its writable part with the lengths the guest announces; what of
  the readable part can be read, and how much of the writable part can be written, before the access
  faults; and the answer of \<^verbatim>\<open>vhost_add_used\<close> when it is given back.
\<close>

record vq_desc =
  dq_head :: nat
  dq_out_num :: nat
  dq_out_len :: nat
  dq_out :: bytes
  dq_in_num :: nat
  dq_in_len :: nat
  dq_room :: nat
  dq_add_used :: int

text \<open>
  An answer: a negative head; an empty queue, with the answer of \<^verbatim>\<open>vhost_enable_notify\<close> (true when
  buffers arrived meanwhile); or a chain.
\<close>

datatype vq_answer = VqErr | VqEmpty bool | VqDesc vq_desc

type_synonym vq_used = "(nat \<times> bytes) list"

fun get_rx_buf_locked :: "vq_answer list \<Rightarrow> int \<times> vq_desc option \<times> vq_answer list" where
  "get_rx_buf_locked [] = (- EAGAIN, None, [])"
| "get_rx_buf_locked (VqErr # q) = (- EIO, None, q)"
| "get_rx_buf_locked (VqEmpty retry # q) = (if retry then get_rx_buf_locked q else (- EAGAIN, None, q))"
| "get_rx_buf_locked (VqDesc d # q) =
     (if dq_in_num d = 0 then (- EBUSY, None, q)
      else if dq_in_len d = 0 then (- EIO, None, q)
      else (0, Some d, q))"

lemma get_rx_buf_shorter:
  "get_rx_buf_locked q = (r, Some d, q') \<Longrightarrow> length q' < length q \<and> r = 0 \<and> VqDesc d \<in> set q \<and> 0 < dq_in_len d"
  by (induction q rule: get_rx_buf_locked.induct) (auto split: if_splits)

lemma get_rx_buf_None: "get_rx_buf_locked q = (r, None, q') \<Longrightarrow> r \<noteq> 0"
  by (induction q rule: get_rx_buf_locked.induct) (auto split: if_splits)

lemma get_rx_buf_rest: "get_rx_buf_locked q = (r, d, q') \<Longrightarrow> set q' \<subseteq> set q"
  by (induction q rule: get_rx_buf_locked.induct) (auto split: if_splits)

section \<open>To the guest\<close>

text \<open>How much of the node goes into this buffer, or a fault of the guest's memory.\<close>

definition fill_rx_buf :: "nat \<Rightarrow> vq_desc \<Rightarrow> int \<times> nat" where
  "fill_rx_buf remain_size d =
     (let copy_size = (if dq_in_len d < remain_size then dq_in_len d else remain_size)
      in if min copy_size (dq_room d) \<noteq> copy_size then (- EFAULT, 0) else (0, copy_size))"

type_synonym send_node = "hab_header \<times> bytes"

text \<open>A profiling message gets the time of its sending; a payload too short for it is overrun.\<close>

definition rx_stamp :: "send_node \<Rightarrow> hab_driver \<Rightarrow> bytes option" where
  "rx_stamp node s =
     (if HAB_HEADER_GET_TYPE (fst node) = payload_code HAB_PAYLOAD_TYPE_PROFILE then do {
        b1 \<leftarrow> patch64 0 (of_int (st_now s)) (snd node);
        patch64 8 (of_int (st_now_ns s div 1000)) b1
      } else Some (snd node))"

definition rx_number :: "u32 \<Rightarrow> hab_header \<Rightarrow> hab_header" where
  "rx_number n h = h\<lparr>hh_sequence := n, hh_signature := HAB_HEAD_SIGNATURE\<rparr>"

definition node_bytes :: "send_node \<Rightarrow> bytes" where
  "node_bytes node = enc_header (fst node) @ snd node"

definition node_size :: "send_node \<Rightarrow> nat" where
  "node_size node = header_size + unat (HAB_HEADER_GET_SIZE (fst node))"

text \<open>
  One turn of the loop for the buffer \<open>d\<close>, with \<open>off\<close> bytes of the node sent before: the result, the
  node with its new header, and the bytes written if the buffer was given back.
\<close>

definition rx_fill_one ::
  "nat \<Rightarrow> send_node \<Rightarrow> nat \<Rightarrow> vq_desc \<Rightarrow> hab_driver \<Rightarrow> (int \<times> send_node \<times> bytes \<times> hab_driver) option"
where
  "rx_fill_one p node off d s = do {
     b \<leftarrow> rx_stamp node s;
     s1 \<leftarrow> mod_pchan p (\<lambda>pc. pc\<lparr>pc_sequence_tx := pc_sequence_tx pc + 1\<rparr>) s;
     pc \<leftarrow> st_pchans s1 p;
     let node1 = (rx_number (pc_sequence_tx pc) (fst node), b);
     (case fill_rx_buf (node_size node - off) d of (ret, n) \<Rightarrow>
        if ret \<noteq> 0 then Some (ret, node1, [], s1)
        else if dq_add_used d \<noteq> 0 then Some (dq_add_used d, node1, [], s1)
        else Some (0, node1, take n (drop off (node_bytes node1)), s1))
   }"

function rx_send_one_node_locked ::
  "(nat \<Rightarrow> bool) \<Rightarrow> nat \<Rightarrow> send_node \<Rightarrow> nat \<Rightarrow> nat \<Rightarrow> vq_answer list \<Rightarrow> hab_driver \<Rightarrow>
     (int \<times> send_node \<times> vq_used \<times> vq_answer list \<times> hab_driver) option" where
  "rx_send_one_node_locked exceeds p node off total_len q s =
     (if node_size node \<le> off then Some (0, node, [], q, s)
      else (case get_rx_buf_locked q of
          (ret, None, q1) \<Rightarrow> Some (ret, node, [], q1, s)
        | (ret, Some d, q1) \<Rightarrow>
            let total = total_len + dq_in_len d + (if dq_out_num d = 0 then 0 else dq_out_len d) in do {
              (ret, node1, bs, s1) \<leftarrow> rx_fill_one p node off d s;
              if ret \<noteq> 0 then Some (ret, node1, [], q1, s1)
              else if exceeds total then Some (- EINVAL, node1, [(dq_head d, bs)], q1, s1)
              else do {
                (r, node2, us, q2, s2) \<leftarrow> rx_send_one_node_locked exceeds p node1 (off + length bs) total q1 s1;
                Some (r, node2, (dq_head d, bs) # us, q2, s2)
              }
            }))"
  by pat_completeness auto
termination
  by (relation "measure (\<lambda>(exceeds, p, node, off, total_len, q, s). length q)")
    (auto dest!: get_rx_buf_shorter [OF sym])

declare rx_send_one_node_locked.simps [simp del]

text \<open>
  The worker takes the nodes one after the other.  A node stays at the head of the list until it is
  sent as a whole: after an error the next run starts it again from its header.
\<close>

definition set_send_list :: "nat \<Rightarrow> send_node list \<Rightarrow> hab_driver \<Rightarrow> hab_driver option" where
  "set_send_list p ns s = do {
     pc \<leftarrow> st_pchans s p;
     (case pc_hyp_data pc of
        HypVhost vh \<Rightarrow> set_hyp p (HypVhost (vh\<lparr>vh_send_list := ns\<rparr>)) s
      | _ \<Rightarrow> None)
   }"

definition rx_turn ::
  "(nat \<Rightarrow> bool) \<Rightarrow> nat \<Rightarrow> send_node \<Rightarrow> send_node list \<Rightarrow> vq_answer list \<Rightarrow> hab_driver \<Rightarrow>
     (int \<times> vq_used \<times> vq_answer list \<times> hab_driver) option" where
  "rx_turn exceeds p node ns q s = do {
     (ret, node1, us, q1, s1) \<leftarrow> rx_send_one_node_locked exceeds p node 0 0 q s;
     s2 \<leftarrow> set_send_list p (if ret \<noteq> 0 then node1 # ns else ns) s1;
     Some (ret, us, q1, s2)
   }"

text \<open>
  The list lock is only held while the list is read and changed.  The worker takes from the front, and a
  sender that appends in between neither sees nor changes what a turn works on.
\<close>

fun rx_drain ::
  "(nat \<Rightarrow> bool) \<Rightarrow> nat \<Rightarrow> send_node list \<Rightarrow> vq_answer list \<Rightarrow> hab_driver \<Rightarrow>
     (int \<times> vq_used \<times> vq_answer list \<times> hab_driver) option" where
  "rx_drain exceeds p [] q s = Some (0, [], q, s)"
| "rx_drain exceeds p (node # ns) q s = do {
     (ret, us, q1, s1) \<leftarrow> rx_turn exceeds p node ns q s;
     if ret \<noteq> 0 then Some (ret, us, q1, s1)
     else do {
       (r, us2, q2, s2) \<leftarrow> rx_drain exceeds p ns q1 s1;
       Some (r, us @ us2, q2, s2)
     }
   }"

text \<open>\<open>priv\<close> is the \<^verbatim>\<open>private_data\<close> of the queue: the channel once the device runs.  The result
  has the buffers used and whether the guest is signalled.\<close>

definition rx_worker ::
  "(nat \<Rightarrow> bool) \<Rightarrow> nat option \<Rightarrow> vq_answer list \<Rightarrow> hab_driver \<Rightarrow>
     (vq_used \<times> bool \<times> vq_answer list \<times> hab_driver) option" where
  "rx_worker exceeds priv q s = (case priv of
      None \<Rightarrow> Some ([], False, q, s)
    | Some p \<Rightarrow> do {
        pc \<leftarrow> st_pchans s p;
        (case pc_hyp_data pc of
           HypVhost vh \<Rightarrow> do {
             (r, us, q1, s1) \<leftarrow> rx_drain exceeds p (vh_send_list vh) q s;
             Some (us, us \<noteq> [], q1, s1)
           }
         | _ \<Rightarrow> None)
      })"

section \<open>From the guest\<close>

text \<open>The header of a descriptor; of one that is too short, the rest is what the buffer held before.\<close>

definition tx_header_bytes :: "bytes \<Rightarrow> bytes \<Rightarrow> bytes" where
  "tx_header_bytes old out = take header_size out @ drop (length (take header_size out)) old"

definition set_out_iter :: "nat \<Rightarrow> bytes \<Rightarrow> hab_driver \<Rightarrow> hab_driver option" where
  "set_out_iter p bs s = do {
     pc \<leftarrow> st_pchans s p;
     (case pc_hyp_data pc of
        HypVhost vh \<Rightarrow> set_hyp p (HypVhost (vh\<lparr>vh_out_iter := bs\<rparr>)) s
      | _ \<Rightarrow> None)
   }"

definition tx_one :: "nat \<Rightarrow> bytes \<Rightarrow> vq_desc \<Rightarrow> hab_driver \<Rightarrow> hab_driver option" where
  "tx_one p hdr d s = do {
     s1 \<leftarrow> set_out_iter p (drop header_size (dq_out d)) s;
     (ret, s2) \<leftarrow> hab_msg_recv p (dec_header hdr) s1;
     mod_pchan p (\<lambda>pc. pc\<lparr>pc_sequence_rx := hh_sequence (dec_header hdr)\<rparr>) s2
   }"

definition tx_reads :: "vq_desc \<Rightarrow> bool" where
  "tx_reads d \<longleftrightarrow> 0 < dq_out_num d \<and> 0 < dq_out_len d"

definition tx_len :: "vq_desc \<Rightarrow> nat" where
  "tx_len d = (if tx_reads d then dq_out_len d else 0) + (if dq_in_num d = 0 then 0 else dq_in_len d)"

text \<open>The loop; \<open>hdr\<close> is the header buffer, not initialised at first.  The heads given back are logged.\<close>

fun tx_loop ::
  "(nat \<Rightarrow> bool) \<Rightarrow> nat \<Rightarrow> bytes \<Rightarrow> nat \<Rightarrow> vq_answer list \<Rightarrow> hab_driver \<Rightarrow>
     (nat list \<times> vq_answer list \<times> hab_driver) option" where
  "tx_loop exceeds p hdr total_len [] s = Some ([], [], s)"
| "tx_loop exceeds p hdr total_len (VqErr # q) s = Some ([], q, s)"
| "tx_loop exceeds p hdr total_len (VqEmpty retry # q) s =
     (if retry then tx_loop exceeds p hdr total_len q s else Some ([], q, s))"
| "tx_loop exceeds p hdr total_len (VqDesc d # q) s =
     (let hdr1 = (if tx_reads d then tx_header_bytes hdr (dq_out d) else hdr);
          total = total_len + tx_len d
      in do {
        s1 \<leftarrow> (if tx_reads d then tx_one p hdr1 d s else Some s);
        if exceeds total then Some ([dq_head d], q, s1)
        else do {
          (hs, q1, s2) \<leftarrow> tx_loop exceeds p hdr1 total q s1;
          Some (dq_head d # hs, q1, s2)
        }
      })"

definition tx_worker ::
  "(nat \<Rightarrow> bool) \<Rightarrow> nat option \<Rightarrow> bytes \<Rightarrow> vq_answer list \<Rightarrow> hab_driver \<Rightarrow>
     (nat list \<times> vq_answer list \<times> hab_driver) option" where
  "tx_worker exceeds priv uninit q s = (case priv of
      None \<Rightarrow> Some ([], q, s)
    | Some p \<Rightarrow> tx_loop exceeds p uninit 0 q s)"

end
