(* ===== verification/Hab_Vhost_Rx.thy ===== *)
theory Hab_Vhost_Rx
  imports Hab_Vhost Hab_Example
begin

text \<open>
  What the guest gets from \<^verbatim>\<open>rx_worker\<close>: the messages that senders queued, each in one buffer, in order
  and exactly once, numbered one after the other; and what happens when the buffers are too small.
\<close>

section \<open>One message in one buffer\<close>

definition rx_total :: "vq_desc \<Rightarrow> nat" where
  "rx_total d = dq_in_len d + (if dq_out_num d = 0 then 0 else dq_out_len d)"

text \<open>
  The buffers of the front end: those with room at all have room for the largest message, and stay
  below the weight limit.
\<close>

definition whole_buf :: "(nat \<Rightarrow> bool) \<Rightarrow> vq_answer \<Rightarrow> bool" where
  "whole_buf exceeds a = (case a of
      VqDesc d \<Rightarrow> dq_in_num d \<noteq> 0 \<longrightarrow> dq_in_len d \<noteq> 0 \<longrightarrow>
        IN_BUF_SIZE \<le> dq_in_len d \<and> IN_BUF_SIZE \<le> dq_room d \<and> dq_add_used d = 0 \<and> \<not> exceeds (rx_total d)
    | _ \<Rightarrow> True)"

text \<open>A message as \<^verbatim>\<open>physical_channel_send\<close> queues it.\<close>

definition node_ok :: "send_node \<Rightarrow> bool" where
  "node_ok node \<longleftrightarrow> length (snd node) = unat (HAB_HEADER_GET_SIZE (fst node)) \<and> node_size node \<le> IN_BUF_SIZE \<and>
     HAB_HEADER_GET_TYPE (fst node) \<noteq> payload_code HAB_PAYLOAD_TYPE_PROFILE"

lemma rx_number_size [simp]:
  "HAB_HEADER_GET_SIZE (rx_number n h) = HAB_HEADER_GET_SIZE h"
  "HAB_HEADER_GET_TYPE (rx_number n h) = HAB_HEADER_GET_TYPE h"
  by (simp_all add: rx_number_def HAB_HEADER_GET_SIZE_def HAB_HEADER_GET_TYPE_def)

lemma node_size_number [simp]: "node_size (rx_number n h, b) = node_size (h, b')"
  by (simp add: node_size_def)

lemma length_node_bytes: "node_ok node \<Longrightarrow> length (node_bytes node) = node_size node"
  by (simp add: node_bytes_def node_size_def node_ok_def enc_header_def)

lemma node_ok_number [simp]: "node_ok (rx_number n h, b) = node_ok (h, b)"
  by (simp add: node_ok_def node_size_def)

text \<open>Numbering a message moves the counter of the channel.\<close>

definition count_tx :: "nat \<Rightarrow> physical_channel \<Rightarrow> hab_driver \<Rightarrow> hab_driver" where
  "count_tx p pc s = s\<lparr>st_pchans := (st_pchans s)(p \<mapsto> pc\<lparr>pc_sequence_tx := pc_sequence_tx pc + 1\<rparr>)\<rparr>"

lemma rx_fill_whole:
  assumes p: "st_pchans s p = Some pc" and n: "node_ok (h, b)"
    and d: "node_size (h, b) \<le> dq_in_len d" "node_size (h, b) \<le> dq_room d" "dq_add_used d = 0"
  shows "rx_fill_one p (h, b) 0 d s = Some (0, (rx_number (pc_sequence_tx pc + 1) h, b),
      node_bytes (rx_number (pc_sequence_tx pc + 1) h, b), count_tx p pc s)"
proof -
  have "fill_rx_buf (node_size (h, b)) d = (0, node_size (h, b))" using d by (auto simp: fill_rx_buf_def)
  moreover have "take (node_size (h, b)) (node_bytes (rx_number (pc_sequence_tx pc + 1) h, b)) =
      node_bytes (rx_number (pc_sequence_tx pc + 1) h, b)"
    using length_node_bytes [of "(rx_number (pc_sequence_tx pc + 1) h, b)"] n
    by (simp add: node_size_number [of _ h b b])
  ultimately show ?thesis
    using p n d(3) by (simp add: rx_fill_one_def rx_stamp_def node_ok_def count_tx_def mod_pchan_def Let_def)
qed

lemma rx_send_whole:
  assumes p: "st_pchans s p = Some pc" and n: "node_ok (h, b)"
    and q: "get_rx_buf_locked q = (r, Some d, q1)" and w: "whole_buf exceeds (VqDesc d)"
  shows "rx_send_one_node_locked exceeds p (h, b) 0 0 q s =
    Some (0, (rx_number (pc_sequence_tx pc + 1) h, b),
      [(dq_head d, node_bytes (rx_number (pc_sequence_tx pc + 1) h, b))], q1, count_tx p pc s)"
proof -
  have len: "0 < dq_in_len d" using get_rx_buf_shorter [OF q] by simp
  have num: "dq_in_num d \<noteq> 0" using q
    by (induction q rule: get_rx_buf_locked.induct) (auto split: if_splits)
  from w len num n have d: "node_size (h, b) \<le> dq_in_len d" "node_size (h, b) \<le> dq_room d" "dq_add_used d = 0"
    "\<not> exceeds (rx_total d)" by (auto simp: whole_buf_def node_ok_def)
  have pos: "0 < node_size (h, b)" by (simp add: node_size_def)
  have nb: "length (node_bytes (rx_number (pc_sequence_tx pc + 1) h, b)) = node_size (h, b)"
    using length_node_bytes [of "(rx_number (pc_sequence_tx pc + 1) h, b)"] n
    by (simp add: node_size_number [of _ h b b])
  show ?thesis
    using pos d(4) nb q
    by (subst rx_send_one_node_locked.simps)
      (simp add: rx_fill_whole [OF p n d(1-3)] rx_send_one_node_locked.simps [of _ _ "(rx_number _ h, b)"]
        node_size_number [of _ h b b] rx_total_def)
qed

lemma rx_send_none:
  assumes "get_rx_buf_locked q = (r, None, q1)"
  shows "rx_send_one_node_locked exceeds p (h, b) 0 0 q s = Some (r, (h, b), [], q1, s)" "r \<noteq> 0"
  using assms get_rx_buf_None [OF assms] by (simp_all add: rx_send_one_node_locked.simps node_size_def)

section \<open>One turn of the worker\<close>

text \<open>The state with the counter moved and the message gone from the list.\<close>

definition sent_one :: "nat \<Rightarrow> physical_channel \<Rightarrow> vhost_chan \<Rightarrow> send_node list \<Rightarrow> hab_driver \<Rightarrow> hab_driver" where
  "sent_one p pc vh ns s = s\<lparr>st_pchans := (st_pchans s)(p \<mapsto> pc\<lparr>pc_sequence_tx := pc_sequence_tx pc + 1,
     pc_hyp_data := HypVhost (vh\<lparr>vh_send_list := ns\<rparr>)\<rparr>)\<rparr>"

lemma set_send_list_eq:
  assumes "st_pchans s p = Some pc" "pc_hyp_data pc = HypVhost vh"
  shows "set_send_list p ns s =
    Some (s\<lparr>st_pchans := (st_pchans s)(p \<mapsto> pc\<lparr>pc_hyp_data := HypVhost (vh\<lparr>vh_send_list := ns\<rparr>)\<rparr>)\<rparr>)"
  using assms by (simp add: set_send_list_def set_hyp_def mod_pchan_def)

lemma set_send_list_same:
  assumes "st_pchans s p = Some pc" "pc_hyp_data pc = HypVhost vh" "vh_send_list vh = ns"
  shows "set_send_list p ns s = Some s"
proof -
  have "vh\<lparr>vh_send_list := ns\<rparr> = vh" "pc\<lparr>pc_hyp_data := HypVhost vh\<rparr> = pc" using assms by simp_all
  then show ?thesis using assms by (simp add: set_send_list_eq fun_upd_idem)
qed

lemma rx_turn_sent:
  assumes p: "st_pchans s p = Some pc" "pc_hyp_data pc = HypVhost vh" and n: "node_ok (h, b)"
    and q: "get_rx_buf_locked q = (r, Some d, q1)" and w: "whole_buf exceeds (VqDesc d)"
  shows "rx_turn exceeds p (h, b) ns q s =
    Some (0, [(dq_head d, node_bytes (rx_number (pc_sequence_tx pc + 1) h, b))], q1, sent_one p pc vh ns s)"
  unfolding rx_turn_def rx_send_whole [OF p(1) n q w]
  using set_send_list_eq [of "count_tx p pc s" p _ vh ns] p(2) by (simp add: count_tx_def sent_one_def)

lemma rx_turn_none:
  assumes p: "st_pchans s p = Some pc" "pc_hyp_data pc = HypVhost vh" and q: "get_rx_buf_locked q = (r, None, q1)"
    and l: "vh_send_list vh = (h, b) # ns"
  shows "rx_turn exceeds p (h, b) ns q s = Some (r, [], q1, s)" "r \<noteq> 0"
  using rx_send_none [OF q] set_send_list_same [OF p l] by (simp_all add: rx_turn_def)

lemma whole_bufs_rest:
  assumes "\<forall>a \<in> set q. whole_buf exceeds a" "get_rx_buf_locked q = (r, d, q1)"
  shows "\<forall>a \<in> set q1. whole_buf exceeds a" "d = Some x \<Longrightarrow> whole_buf exceeds (VqDesc x)"
  using assms get_rx_buf_rest [OF assms(2)] get_rx_buf_shorter [of q r x q1] by auto

section \<open>The stream\<close>

text \<open>What the guest finds in its buffers for messages sent from number \<open>k\<close> on.\<close>

fun frames :: "u32 \<Rightarrow> send_node list \<Rightarrow> bytes list" where
  "frames k [] = []"
| "frames k ((h, b) # ns) = node_bytes (rx_number (k + 1) h, b) # frames (k + 1) ns"

lemma frames_append: "frames k (ms @ ns) = frames k ms @ frames (k + of_nat (length ms)) ns"
  by (induction k ms rule: frames.induct) (simp_all add: algebra_simps)

lemma length_frames [simp]: "length (frames k ns) = length ns"
  by (induction k ns rule: frames.induct) simp_all

text \<open>The bytes of a frame are the message, with its number and the signature.\<close>

lemma frame_decodes:
  "frames k ((h, b) # ns) = f # fs \<Longrightarrow> dec_header f = rx_number (k + 1) h \<and> drop header_size f = b"
  using header_codec.dec_enc [of "rx_number (k + 1) h" b]
  by (auto simp: node_bytes_def enc_header_def)

text \<open>
  Senders and the worker take turns: a sender appends a message or is refused, the worker sends the
  first one or finds no buffer.  Next to the driver the run keeps the accepted messages and the buffers
  the guest got.
\<close>

inductive rx_step ::
  "(nat \<Rightarrow> bool) \<Rightarrow> nat \<Rightarrow> hab_driver \<times> send_node list \<times> vq_used \<Rightarrow> hab_driver \<times> send_node list \<times> vq_used \<Rightarrow> bool"
  for exceeds p where
  accept: "physical_channel_send p h (Some b) s = Some (0, s') \<Longrightarrow> length b = unat (HAB_HEADER_GET_SIZE h) \<Longrightarrow>
     HAB_HEADER_GET_TYPE h \<noteq> payload_code HAB_PAYLOAD_TYPE_PROFILE \<Longrightarrow>
     rx_step exceeds p (s, acc, us) (s', acc @ [(h, b)], us)"
| refuse: "physical_channel_send p h payload s = Some (r, s') \<Longrightarrow> r \<noteq> 0 \<Longrightarrow>
     rx_step exceeds p (s, acc, us) (s', acc, us)"
| turn: "st_pchans s p = Some pc \<Longrightarrow> pc_hyp_data pc = HypVhost vh \<Longrightarrow> vh_send_list vh = node # ns \<Longrightarrow>
     \<forall>a \<in> set q. whole_buf exceeds a \<Longrightarrow> rx_turn exceeds p node ns q s = Some (r, us', q1, s') \<Longrightarrow>
     rx_step exceeds p (s, acc, us) (s', acc, us @ us')"

definition rx_stream :: "nat \<Rightarrow> u32 \<Rightarrow> hab_driver \<times> send_node list \<times> vq_used \<Rightarrow> bool" where
  "rx_stream p k = (\<lambda>(s, acc, us). \<exists>pc vh sent. st_pchans s p = Some pc \<and> pc_hyp_data pc = HypVhost vh \<and>
     acc = sent @ vh_send_list vh \<and> list_all node_ok (vh_send_list vh) \<and>
     map snd us = frames k sent \<and> pc_sequence_tx pc = k + of_nat (length sent))"

lemma vhost_send_queues:
  assumes run: "physical_channel_send p h (Some b) s = Some (0, s')"
    and p: "st_pchans s p = Some pc" "pc_hyp_data pc = HypVhost vh"
    and b: "length b = unat (HAB_HEADER_GET_SIZE h)"
  shows "st_pchans s' p = Some (pc\<lparr>pc_hyp_data := HypVhost (vh\<lparr>vh_send_list := vh_send_list vh @ [(h, b)]\<rparr>)\<rparr>)"
    "node_size (h, b) \<le> IN_BUF_SIZE"
proof -
  obtain ok s1 where k: "kalloc s = (ok, s1)" by fastforce
  then have s1: "st_pchans s1 = st_pchans s" using kalloc_frame [OF k] by simp
  have pb: "payload_bytes (unat (HAB_HEADER_GET_SIZE h)) (Some b) = Some b" using b by (auto simp: payload_bytes_def)
  from run p k show "st_pchans s' p = Some (pc\<lparr>pc_hyp_data := HypVhost (vh\<lparr>vh_send_list := vh_send_list vh @ [(h, b)]\<rparr>)\<rparr>)"
    by (auto simp: physical_channel_send_def vhost_send_def Let_def pb set_hyp_def s1 split: if_splits)
  from run p show "node_size (h, b) \<le> IN_BUF_SIZE"
    by (auto simp: physical_channel_send_def vhost_send_def Let_def node_size_def split: if_splits)
qed

lemma vhost_send_refuses:
  assumes run: "physical_channel_send p h payload s = Some (r, s')" "r \<noteq> 0" and p: "st_pchans s p = Some pc"
  shows "st_pchans s' p = Some pc"
  using run(1) by (cases rule: send_cases) (use run(2) p in auto)

lemma rx_turn_outcome:
  assumes p: "st_pchans s p = Some pc" "pc_hyp_data pc = HypVhost vh" "vh_send_list vh = (h, b) # ns"
    and n: "node_ok (h, b)" and w: "\<forall>a \<in> set q. whole_buf exceeds a"
  obtains (none) r q1 where "r \<noteq> 0" "rx_turn exceeds p (h, b) ns q s = Some (r, [], q1, s)"
  | (sent) d q1 where "rx_turn exceeds p (h, b) ns q s =
      Some (0, [(d, node_bytes (rx_number (pc_sequence_tx pc + 1) h, b))], q1, sent_one p pc vh ns s)"
proof -
  obtain r d q1 where q: "get_rx_buf_locked q = (r, d, q1)" by (cases "get_rx_buf_locked q") auto
  show thesis
  proof (cases d)
    case None
    with rx_turn_none [OF p(1,2) _ p(3)] q none show thesis by blast
  next
    case (Some x)
    with rx_turn_sent [OF p(1,2) n _ whole_bufs_rest(2) [OF w q Some]] q sent show thesis by blast
  qed
qed

lemma rx_step_stream: "rx_step exceeds p c c' \<Longrightarrow> rx_stream p k c \<Longrightarrow> rx_stream p k c'"
proof (induction rule: rx_step.induct)
  case (accept h b s s' acc us)
  then show ?case
    using vhost_send_queues [OF accept(1) _ _ accept(2)] by (fastforce simp: rx_stream_def node_ok_def)
next
  case (refuse h payload s r s' acc us)
  then show ?case using vhost_send_refuses [OF refuse(1,2)] by (fastforce simp: rx_stream_def)
next
  case (turn s pc vh node ns q r us' q1 s' acc us)
  obtain h b where node: "node = (h, b)" by fastforce
  from turn.prems turn.hyps(1-3) obtain sent where str: "acc = sent @ (h, b) # ns" "node_ok (h, b)"
    "list_all node_ok ns" "map snd us = frames k sent" "pc_sequence_tx pc = k + of_nat (length sent)"
    by (auto simp: rx_stream_def node)
  have l: "vh_send_list vh = (h, b) # ns" using turn.hyps(3) by (simp add: node)
  from turn.hyps(1,2) l str(2) turn.hyps(4) show ?case
  proof (cases rule: rx_turn_outcome)
    case none
    with turn.hyps(5) turn.prems show ?thesis by (simp add: node)
  next
    case (sent d q1)
    with turn.hyps(5) have s': "us' = [(d, node_bytes (rx_number (pc_sequence_tx pc + 1) h, b))]"
      "s' = sent_one p pc vh ns s" by (simp_all add: node)
    show ?thesis unfolding rx_stream_def prod.case s'
      by (rule exI [of _ "pc\<lparr>pc_sequence_tx := pc_sequence_tx pc + 1, pc_hyp_data := HypVhost (vh\<lparr>vh_send_list := ns\<rparr>)\<rparr>"],
          rule exI [of _ "vh\<lparr>vh_send_list := ns\<rparr>"], rule exI [of _ "sent @ [(h, b)]"])
        (simp add: sent_one_def str frames_append)
  qed
qed

lemma rx_steps_stream: "(rx_step exceeds p)\<^sup>*\<^sup>* c c' \<Longrightarrow> rx_stream p k c \<Longrightarrow> rx_stream p k c'"
  by (induction rule: rtranclp_induct) (auto intro: rx_step_stream)

section \<open>The worker\<close>

definition room_buf :: "(nat \<Rightarrow> bool) \<Rightarrow> vq_desc \<Rightarrow> bool" where
  "room_buf exceeds d \<longleftrightarrow> dq_in_num d \<noteq> 0 \<and> dq_in_len d \<noteq> 0 \<and> whole_buf exceeds (VqDesc d)"

definition all_sent :: "nat \<Rightarrow> physical_channel \<Rightarrow> vhost_chan \<Rightarrow> nat \<Rightarrow> hab_driver \<Rightarrow> hab_driver" where
  "all_sent p pc vh n s = s\<lparr>st_pchans := (st_pchans s)(p \<mapsto> pc\<lparr>pc_sequence_tx := pc_sequence_tx pc + of_nat n,
     pc_hyp_data := HypVhost (vh\<lparr>vh_send_list := []\<rparr>)\<rparr>)\<rparr>"

lemma rx_drain_all:
  assumes "st_pchans s p = Some pc" "pc_hyp_data pc = HypVhost vh" "vh_send_list vh = ns"
    and "list_all node_ok ns" "length ds = length ns" "list_all (room_buf exceeds) ds"
  shows "rx_drain exceeds p ns (map VqDesc ds @ q) s =
    Some (0, zip (map dq_head ds) (frames (pc_sequence_tx pc) ns), q, all_sent p pc vh (length ns) s)"
  using assms
proof (induction ns arbitrary: ds s pc vh)
  case Nil
  have "vh\<lparr>vh_send_list := []\<rparr> = vh" "pc\<lparr>pc_hyp_data := HypVhost vh\<rparr> = pc" using Nil.prems by simp_all
  with Nil show ?case by (simp add: all_sent_def fun_upd_idem)
next
  case (Cons node ns)
  obtain h b where node: "node = (h, b)" by fastforce
  from Cons.prems(5) obtain d ds' where ds: "ds = d # ds'" "length ds' = length ns" by (cases ds) auto
  have q: "get_rx_buf_locked (VqDesc d # map VqDesc ds' @ q) = (0, Some d, map VqDesc ds' @ q)"
    using Cons.prems(6) by (simp add: ds room_buf_def)
  have w: "whole_buf exceeds (VqDesc d)" using Cons.prems(6) by (simp add: ds room_buf_def)
  define pc1 where "pc1 = pc\<lparr>pc_sequence_tx := pc_sequence_tx pc + 1, pc_hyp_data := HypVhost (vh\<lparr>vh_send_list := ns\<rparr>)\<rparr>"
  have "rx_drain exceeds p ns (map VqDesc ds' @ q) (sent_one p pc vh ns s) = Some (0, zip (map dq_head ds')
      (frames (pc_sequence_tx pc1) ns), q, all_sent p pc1 (vh\<lparr>vh_send_list := ns\<rparr>) (length ns) (sent_one p pc vh ns s))"
    by (rule Cons.IH) (use Cons.prems ds in \<open>simp_all add: sent_one_def pc1_def\<close>)
  moreover have "all_sent p pc1 (vh\<lparr>vh_send_list := ns\<rparr>) (length ns) (sent_one p pc vh ns s) =
      all_sent p pc vh (Suc (length ns)) s"
    by (simp add: all_sent_def pc1_def sent_one_def algebra_simps)
  ultimately show ?case
    using rx_turn_sent [OF Cons.prems(1,2) _ q w, of h b ns] Cons.prems(4)
    by (simp add: node ds pc1_def)
qed

lemma rx_worker_all:
  assumes p: "st_pchans s p = Some pc" "pc_hyp_data pc = HypVhost vh" and n: "list_all node_ok (vh_send_list vh)"
    and ds: "length ds = length (vh_send_list vh)" "list_all (room_buf exceeds) ds"
  shows "\<exists>s'. rx_worker exceeds (Some p) (map VqDesc ds @ q) s =
      Some (zip (map dq_head ds) (frames (pc_sequence_tx pc) (vh_send_list vh)), vh_send_list vh \<noteq> [], q, s') \<and>
    pchan_outq s' p = []"
proof -
  have "zip (map dq_head ds) (frames (pc_sequence_tx pc) (vh_send_list vh)) \<noteq> [] \<longleftrightarrow> vh_send_list vh \<noteq> []"
    using ds(1) length_frames by (metis length_0_conv length_map length_zip min.idem)
  then show ?thesis
    using rx_drain_all [OF p refl n ds, of q] p
    by (auto simp: rx_worker_def all_sent_def pchan_outq_def)
qed

text \<open>
  A run of \<^verbatim>\<open>rx_worker\<close> with a buffer for each queued message ends with an empty send list: every
  message is in a buffer of its own, in the order of the list, with the next numbers of the channel and
  the signature in its header, and the guest is signalled.
\<close>
theorem rx_worker_delivers:
  assumes p: "st_pchans s p = Some pc" "pc_hyp_data pc = HypVhost vh" and n: "list_all node_ok (vh_send_list vh)"
    and ds: "length ds = length (vh_send_list vh)" "list_all (room_buf exceeds) ds"
  shows "\<exists>s'. rx_worker exceeds (Some p) (map VqDesc ds @ q) s =
      Some (zip (map dq_head ds) (frames (pc_sequence_tx pc) (vh_send_list vh)), vh_send_list vh \<noteq> [], q, s') \<and>
    pchan_outq s' p = []"
  by (rule rx_worker_all [OF assms])

text \<open>Two messages in the list of the example's channel, and buffers of the size of the front end.\<close>

definition hdr_ex :: "nat \<Rightarrow> hab_header" where
  "hdr_ex n = mk_header n HAB_PAYLOAD_TYPE_MSG 0x25900001 77"

definition vh_ex :: vhost_chan where
  "vh_ex = \<lparr>vh_send_list = [(hdr_ex 3, [1, 2, 3]), (hdr_ex 1, [9])], vh_out_iter = []\<rparr>"

definition drv_vh_ex :: hab_driver where
  "drv_vh_ex = drv_ex\<lparr>st_pchans := [1 \<mapsto> pchan_ex\<lparr>pc_hyp_data := HypVhost vh_ex\<rparr>]\<rparr>"

definition buf_ex :: "nat \<Rightarrow> nat \<Rightarrow> vq_desc" where
  "buf_ex head n = \<lparr>dq_head = head, dq_out_num = 0, dq_out_len = 0, dq_out = [], dq_in_num = 1,
     dq_in_len = n, dq_room = n, dq_add_used = 0\<rparr>"

abbreviation (input) weight_ex :: "nat \<Rightarrow> bool" where "weight_ex n \<equiv> 0x80000 \<le> n"

lemma node_ok_ex: "node_ok (hdr_ex 3, [1, 2, 3])" "node_ok (hdr_ex 1, [9])"
  by (simp_all add: node_ok_def node_size_def hdr_ex_def)

lemma room_buf_ex: "room_buf weight_ex (buf_ex i 5120)"
  by (simp add: room_buf_def whole_buf_def buf_ex_def rx_total_def)

theorem rx_worker_delivers_witness:
  "\<exists>s'. rx_worker weight_ex (Some 1) [VqDesc (buf_ex 4 5120), VqDesc (buf_ex 7 5120)] drv_vh_ex =
     Some ([(4, enc_header (rx_number 1 (hdr_ex 3)) @ [1, 2, 3]), (7, enc_header (rx_number 2 (hdr_ex 1)) @ [9])],
       True, [], s') \<and> pchan_outq s' 1 = []"
  using rx_worker_delivers [of drv_vh_ex 1 "pchan_ex\<lparr>pc_hyp_data := HypVhost vh_ex\<rparr>" vh_ex
      "[buf_ex 4 5120, buf_ex 7 5120]" weight_ex "[]"] node_ok_ex room_buf_ex
  by (simp add: drv_vh_ex_def vh_ex_def node_bytes_def pchan_ex_def) (simp add: buf_ex_def)

text \<open>
  C6. With buffers of the size the two sides agreed on (\<open>IN_BUF_SIZE\<close>, 5120 bytes, which every message that is
  accepted fits), what the guest receives is what was sent.  Senders, of messages other than profiling ones, and
  the worker may take turns in any order, and the guest may offer or withhold buffers as it likes, as long as
  each buffer it offers is of that size, is given back without an error and does not use up the worker's
  weight: then at every moment the accepted messages are those the guest has got, in order, each once and
  numbered consecutively, followed by those still in the list.  (With smaller buffers a message can be sent
  twice, \<open>rx_underrun_sends_again\<close>.)
\<close>
theorem rx_stream_in_order:
  assumes "st_pchans s p = Some pc" "pc_hyp_data pc = HypVhost vh" "vh_send_list vh = []"
    and "(rx_step exceeds p)\<^sup>*\<^sup>* (s, [], []) (s', acc, us)"
  shows "\<exists>sent. acc = sent @ pchan_outq s' p \<and> map snd us = frames (pc_sequence_tx pc) sent"
proof -
  have "rx_stream p (pc_sequence_tx pc) (s, [], [])" using assms(1-3) by (simp add: rx_stream_def)
  from rx_steps_stream [OF assms(4) this] show ?thesis by (auto simp: rx_stream_def pchan_outq_def)
qed

text \<open>A run of two steps: a message is queued, and the worker sends it.\<close>

definition vh_one :: vhost_chan where
  "vh_one = \<lparr>vh_send_list = [(hdr_ex 1, [9])], vh_out_iter = []\<rparr>"

definition drv_one :: hab_driver where
  "drv_one = drv_ex\<lparr>st_pchans := [1 \<mapsto> pchan_ex\<lparr>pc_hyp_data := HypVhost vh_one\<rparr>]\<rparr>"

lemma accept_ex: "rx_step weight_ex 1 (drv_ex, [], []) (drv_one, [] @ [(hdr_ex 1, [9])], [])"
proof (rule rx_step.accept)
  show "physical_channel_send 1 (hdr_ex 1) (Some [9]) drv_ex = Some (0, drv_one)"
    by (simp add: physical_channel_send_def vhost_send_def set_hyp_def mod_pchan_def drv_one_def drv_ex_def vh_one_def
        pchan_ex_def kalloc_def payload_bytes_def hdr_ex_def)
qed (simp_all add: hdr_ex_def)

lemma turn_ex:
  "rx_step weight_ex 1 (drv_one, acc, []) (sent_one 1 (pchan_ex\<lparr>pc_hyp_data := HypVhost vh_one\<rparr>) vh_one [] drv_one,
     acc, [] @ [(4, enc_header (rx_number 1 (hdr_ex 1)) @ [9])])"
proof (rule rx_step.turn)
  show "st_pchans drv_one 1 = Some (pchan_ex\<lparr>pc_hyp_data := HypVhost vh_one\<rparr>)" by (simp add: drv_one_def)
  then show "rx_turn weight_ex 1 (hdr_ex 1, [9]) [] [VqDesc (buf_ex 4 5120)] drv_one =
      Some (0, [(4, enc_header (rx_number 1 (hdr_ex 1)) @ [9])], [],
        sent_one 1 (pchan_ex\<lparr>pc_hyp_data := HypVhost vh_one\<rparr>) vh_one [] drv_one)"
    using rx_turn_sent [of drv_one 1 _ vh_one "hdr_ex 1" "[9]" "[VqDesc (buf_ex 4 5120)]" 0 "buf_ex 4 5120" "[]" weight_ex "[]"]
      node_ok_ex(2) room_buf_ex [of 4]
    by (simp add: room_buf_def) (simp add: buf_ex_def node_bytes_def pchan_ex_def)
  show "vh_send_list vh_one = (hdr_ex 1, [9]) # []" by (simp add: vh_one_def)
  show "\<forall>a \<in> set [VqDesc (buf_ex 4 5120)]. whole_buf weight_ex a" using room_buf_ex [of 4] by (simp add: room_buf_def)
qed simp

theorem rx_stream_in_order_witness:
  "\<exists>s' sent. [(hdr_ex 1, [9])] = sent @ pchan_outq s' 1 \<and>
     map snd [(4 :: nat, enc_header (rx_number 1 (hdr_ex 1)) @ [9])] = frames 0 sent"
  using rx_stream_in_order [of drv_ex 1 pchan_ex "\<lparr>vh_send_list = [], vh_out_iter = []\<rparr>",
      OF _ _ _ rtranclp.rtrancl_into_rtrancl [OF r_into_rtranclp [of "rx_step weight_ex 1", OF accept_ex] turn_ex]]
  by (auto simp: drv_ex_def pchan_ex_def)

section \<open>A message larger than the buffer\<close>

lemma rx_fill_part:
  assumes p: "st_pchans s p = Some pc" and n: "node_ok (h, b)"
    and d: "dq_in_len d < node_size (h, b)" "dq_in_len d \<le> dq_room d" "dq_add_used d = 0"
  shows "rx_fill_one p (h, b) 0 d s = Some (0, (rx_number (pc_sequence_tx pc + 1) h, b),
      take (dq_in_len d) (node_bytes (rx_number (pc_sequence_tx pc + 1) h, b)), count_tx p pc s)"
proof -
  have "fill_rx_buf (node_size (h, b)) d = (0, dq_in_len d)" using d by (auto simp: fill_rx_buf_def)
  then show ?thesis
    using p n d(3) by (simp add: rx_fill_one_def rx_stamp_def node_ok_def count_tx_def mod_pchan_def Let_def)
qed

definition short_buf :: "(nat \<Rightarrow> bool) \<Rightarrow> nat \<Rightarrow> vq_desc \<Rightarrow> bool" where
  "short_buf exceeds n d \<longleftrightarrow> dq_in_num d \<noteq> 0 \<and> 0 < dq_in_len d \<and> dq_in_len d < n \<and> dq_in_len d \<le> dq_room d \<and>
     dq_add_used d = 0 \<and> \<not> exceeds (rx_total d)"

lemma rx_send_part:
  assumes p: "st_pchans s p = Some pc" and n: "node_ok (h, b)" and d: "short_buf exceeds (node_size (h, b)) d"
  shows "rx_send_one_node_locked exceeds p (h, b) 0 0 [VqDesc d] s =
    Some (- EAGAIN, (rx_number (pc_sequence_tx pc + 1) h, b),
      [(dq_head d, take (dq_in_len d) (node_bytes (rx_number (pc_sequence_tx pc + 1) h, b)))], [], count_tx p pc s)"
proof -
  have d': "dq_in_len d < node_size (h, b)" "dq_in_len d \<le> dq_room d" "dq_add_used d = 0"
    "\<not> exceeds (rx_total d)" "dq_in_num d \<noteq> 0" "0 < dq_in_len d" using d by (auto simp: short_buf_def)
  have nb: "length (node_bytes (rx_number (pc_sequence_tx pc + 1) h, b)) = node_size (h, b)"
    using length_node_bytes [of "(rx_number (pc_sequence_tx pc + 1) h, b)"] n
    by (simp add: node_size_number [of _ h b b])
  show ?thesis
    using d' nb
    by (subst rx_send_one_node_locked.simps)
      (simp add: rx_fill_part [OF p n d'(1-3)] rx_send_one_node_locked.simps [of _ _ "(rx_number _ h, b)"]
        node_size_number [of _ h b b] rx_total_def min_def)
qed

text \<open>
  C36. A message larger than the guest's buffers is not continued but started again.  When the buffers
  run out in the middle of a message, the part the guest got is already used; the next run sends the
  whole message from its header on, so that the guest gets that part twice, under two numbers.
\<close>
theorem rx_underrun_sends_again:
  assumes p: "st_pchans s p = Some pc" "pc_hyp_data pc = HypVhost vh" "vh_send_list vh = [(h, b)]"
    and n: "node_ok (h, b)" and d: "short_buf exceeds (node_size (h, b)) d" "room_buf exceeds d'"
  shows "\<exists>s1 s2. rx_worker exceeds (Some p) [VqDesc d] s =
      Some ([(dq_head d, take (dq_in_len d) (node_bytes (rx_number (pc_sequence_tx pc + 1) h, b)))], True, [], s1) \<and>
    rx_worker exceeds (Some p) [VqDesc d'] s1 =
      Some ([(dq_head d', node_bytes (rx_number (pc_sequence_tx pc + 2) h, b))], True, [], s2)"
proof -
  let ?h = "rx_number (pc_sequence_tx pc + 1) h"
  define s1 where "s1 = s\<lparr>st_pchans := (st_pchans s)(p \<mapsto> pc\<lparr>pc_sequence_tx := pc_sequence_tx pc + 1,
     pc_hyp_data := HypVhost (vh\<lparr>vh_send_list := [(?h, b)]\<rparr>)\<rparr>)\<rparr>"
  have r1: "rx_worker exceeds (Some p) [VqDesc d] s = Some ([(dq_head d, take (dq_in_len d) (node_bytes (?h, b)))], True, [], s1)"
    using rx_send_part [OF p(1) n d(1)] p
      set_send_list_eq [of "count_tx p pc s" p "pc\<lparr>pc_sequence_tx := pc_sequence_tx pc + 1\<rparr>" vh "[(?h, b)]"]
    by (simp add: rx_worker_def rx_turn_def s1_def count_tx_def)
  have two: "pc_sequence_tx pc + 2 = pc_sequence_tx pc + 1 + 1" by simp
  have again: "rx_number m (rx_number m' h) = rx_number m h" for m m' by (simp add: rx_number_def)
  have "\<exists>s2. rx_worker exceeds (Some p) (map VqDesc [d'] @ []) s1 =
      Some (zip (map dq_head [d']) (frames (pc_sequence_tx pc + 1) [(?h, b)]), [(?h, b)] \<noteq> [], [], s2) \<and> pchan_outq s2 p = []"
    using rx_worker_all [of s1 p _ "vh\<lparr>vh_send_list := [(?h, b)]\<rparr>" "[d']" exceeds "[]"] n d(2)
    by (simp add: s1_def)
  then obtain s2 where "rx_worker exceeds (Some p) [VqDesc d'] s1 =
      Some ([(dq_head d', node_bytes (rx_number (pc_sequence_tx pc + 2) h, b))], True, [], s2)"
    unfolding two by (auto simp: again)
  with r1 show ?thesis by blast
qed

theorem rx_underrun_sends_again_witness:
  "\<exists>s1 s2. rx_worker weight_ex (Some 1) [VqDesc (buf_ex 4 22)]
      (drv_ex\<lparr>st_pchans := [1 \<mapsto> pchan_ex\<lparr>pc_hyp_data := HypVhost \<lparr>vh_send_list = [(hdr_ex 3, [1, 2, 3])], vh_out_iter = []\<rparr>\<rparr>]\<rparr>) =
      Some ([(4, enc_header (rx_number 1 (hdr_ex 3)) @ [1, 2])], True, [], s1) \<and>
    rx_worker weight_ex (Some 1) [VqDesc (buf_ex 7 5120)] s1 =
      Some ([(7, enc_header (rx_number 2 (hdr_ex 3)) @ [1, 2, 3])], True, [], s2)"
proof -
  let ?vh = "\<lparr>vh_send_list = [(hdr_ex 3, [1, 2, 3])], vh_out_iter = []\<rparr>"
  have "short_buf weight_ex (node_size (hdr_ex 3, [1, 2, 3])) (buf_ex 4 22)"
    by (simp add: short_buf_def buf_ex_def node_size_def hdr_ex_def rx_total_def)
  moreover have "take 22 (node_bytes (rx_number 1 (hdr_ex 3), [1, 2, 3])) = enc_header (rx_number 1 (hdr_ex 3)) @ [1, 2]"
    by (simp add: node_bytes_def enc_header_def)
  ultimately show ?thesis
    using rx_underrun_sends_again [of "drv_ex\<lparr>st_pchans := [1 \<mapsto> pchan_ex\<lparr>pc_hyp_data := HypVhost ?vh\<rparr>]\<rparr>" 1
        "pchan_ex\<lparr>pc_hyp_data := HypVhost ?vh\<rparr>" ?vh "hdr_ex 3" "[1, 2, 3]" weight_ex "buf_ex 4 22" "buf_ex 7 5120"]
      node_ok_ex(1) room_buf_ex
    by (simp add: buf_ex_def node_bytes_def pchan_ex_def)
qed

end
