(* ===== verification/Hab_Vhost_Tx.thy ===== *)
theory Hab_Vhost_Tx
  imports Hab_Serving Hab_Vhost_Rx
begin

text \<open>
  The worker that takes the guest's messages: whatever the guest puts into its descriptors, and however
  many, the driver neither faults nor loses its invariant, and every descriptor is given back once.
\<close>

section \<open>The headers a run decodes\<close>

fun tx_headers :: "bytes \<Rightarrow> vq_answer list \<Rightarrow> hab_header list" where
  "tx_headers hdr [] = []"
| "tx_headers hdr (VqDesc d # q) =
     (if tx_reads d then dec_header (tx_header_bytes hdr (dq_out d)) # tx_headers (tx_header_bytes hdr (dq_out d)) q
      else tx_headers hdr q)"
| "tx_headers hdr (_ # q) = tx_headers hdr q"

fun desc_heads :: "vq_answer list \<Rightarrow> nat list" where
  "desc_heads [] = []"
| "desc_heads (VqDesc d # q) = dq_head d # desc_heads q"
| "desc_heads (_ # q) = desc_heads q"

section \<open>One descriptor\<close>

lemma servesI:
  assumes wf: "drv_wf {} hp hv hc s" and p: "st_pchans s p = Some pc" "pc_hyp_data pc = HypVhost vh"
    and ok: "exports_ok p s"
  shows "serves p (Suc 0) s"
proof -
  from drv_wf_exps [OF wf] obtain own where own: "exps_ok own (xv (st_exps s)) (iv (st_pchans s))
    (wv (st_ctxs s)) (st_reclaim_list s) (st_next s)" by blast
  have "exports_ready p (pc_expid_idr pc) (st_vchans s) (st_exps s) (st_next s)"
    unfolding exports_ready_def
  proof (intro allI impI)
    fix j e assume j: "idr_find (pc_expid_idr pc) j = Some e"
    from idr_okD [OF exps_ok_idr [OF own look_i [OF p(1)]] idr_find_Some_in [OF j]] obtain q i co po where
      q: "own e = Some q" "xv (st_exps s) e = Some (i, co, po)" "j = unat i" by blast
    from exps_ok_owned [OF own q(1)] have "e < st_next s" by (simp add: owned_ok_def)
    moreover have "export_ready p (st_vchans s) j x" if "st_exps s e = Some x" for x
    proof -
      have "j = unat (ex_export_id x)" using q(2,3) that by (simp add: xv_def)
      then show ?thesis using ok p(1) j that unfolding exports_ok_def export_ready_def by blast
    qed
    ultimately show "e < st_next s \<and> (\<forall>x. st_exps s e = Some x \<longrightarrow> export_ready p (st_vchans s) j x)" by blast
  qed
  moreover have "Suc 0 \<le> pc_refcount pc"
    using refs_ok_pchan [OF drv_wf_refs [OF wf] look_p [OF p(1)]] by (auto simp: pchan_ok_def)
  ultimately show ?thesis using p by (auto simp: serving_def is_vhost_def)
qed

definition tx_inv :: "nat \<Rightarrow> (nat \<Rightarrow> nat) \<Rightarrow> (nat \<Rightarrow> nat) \<Rightarrow> (nat \<Rightarrow> nat) \<Rightarrow> hab_driver \<Rightarrow> bool" where
  "tx_inv p hp hv hc s \<longleftrightarrow> import_inv hp hv hc s \<and> serves p (Suc 0) s"

lemma set_out_iter_inv:
  assumes "tx_inv p hp hv hc s"
  obtains s1 where "set_out_iter p bs s = Some s1" "tx_inv p hp hv hc s1"
proof -
  from assms obtain pc vh where p: "st_pchans s p = Some pc" "pc_hyp_data pc = HypVhost vh"
    by (auto simp: tx_inv_def serving_def is_vhost_def)
  define pc1 where "pc1 = pc\<lparr>pc_hyp_data := HypVhost (vh\<lparr>vh_out_iter := bs\<rparr>)\<rparr>"
  define s1 where "s1 = s\<lparr>st_pchans := (st_pchans s)(p \<mapsto> pc1)\<rparr>"
  have run: "set_out_iter p bs s = Some s1"
    using p by (simp add: set_out_iter_def set_hyp_def mod_pchan_def s1_def pc1_def)
  have frame: "hyp_frame p s s1" unfolding hyp_frame_def
    by (rule exI [of _ pc], rule exI [of _ "pc_hyp_data pc1"], rule exI [of _ "st_mem s"])
      (simp add: p s1_def pc1_def)
  have "serves p (Suc 0) s1"
    using serving_pchan [of p "Suc 0" _ _ _ _ p pc pc1] assms p by (simp add: tx_inv_def s1_def pc1_def)
  moreover have "import_inv hp hv hc s1"
    using assms drv_wf_hyp_frame [OF _ frame] tables_imports_ok import_inv_tables hyp_tables [OF frame]
    unfolding tx_inv_def import_inv_def by blast
  ultimately show ?thesis using that [OF run] by (simp add: tx_inv_def)
qed

lemma tx_one_inv:
  assumes inv: "tx_inv p hp hv hc s" and small: "stamped_small (dec_header hdr)"
  obtains s' where "tx_one p hdr d s = Some s'" "tx_inv p hp hv hc s'"
proof -
  from set_out_iter_inv [OF inv] obtain s1 where s1: "set_out_iter p (drop header_size (dq_out d)) s = Some s1"
    "tx_inv p hp hv hc s1" by blast
  then have wf1: "drv_wf {} hp hv hc s1" and ok1: "serves p (Suc 0) s1" and t1: "tables_ok s1"
    using import_inv_tables by (auto simp: tx_inv_def import_inv_def)
  from msg_recv_wf [OF wf1 serves_readable [OF ok1] serves_exports [OF ok1] small] obtain r s2 where
    s2: "hab_msg_recv p (dec_header hdr) s1 = Some (r, s2)" "drv_wf {} hp hv hc s2" unfolding safe_ex by auto
  have ok2: "serves p (Suc 0) s2" by (rule msg_recv_serves [OF s2(1) ok1 wf1 small])
  have t2: "tables_ok s2" by (rule msg_recv_tables [OF s2(1) t1 wf1 serves_readable [OF ok1]])
  from ok2 obtain pc where pc: "st_pchans s2 p = Some pc" by (auto simp: serving_def)
  define pc1 where "pc1 = pc\<lparr>pc_sequence_rx := hh_sequence (dec_header hdr)\<rparr>"
  define s3 where "s3 = s2\<lparr>st_pchans := (st_pchans s2)(p \<mapsto> pc1)\<rparr>"
  have "drv_wf {} hp hv hc s3"
    using drv_wf_pchan_fields [OF s2(2) pc, of pc1] by (simp add: s3_def pc1_def)
  moreover have "serves p (Suc 0) s3" using serving_pchan [OF ok2 pc, of pc1] by (simp add: s3_def pc1_def)
  moreover have "imports_ok s3" using tables_imports_ok [of s3] t2 by (simp add: s3_def)
  moreover have "tx_one p hdr d s = Some s3"
    using s1(1) s2(1) pc by (simp add: tx_one_def mod_pchan_def s3_def pc1_def)
  ultimately show ?thesis using that by (simp add: tx_inv_def import_inv_def)
qed

lemma tx_loop_inv:
  assumes "tx_inv p hp hv hc s" "\<forall>h \<in> set (tx_headers hdr q). stamped_small h"
  shows "\<exists>taken q' s'. tx_loop exceeds p hdr n q s = Some (desc_heads taken, q', s') \<and> q = taken @ q' \<and>
    tx_inv p hp hv hc s'"
  using assms
proof (induction exceeds p hdr n q s rule: tx_loop.induct)
  case (1 exceeds p hdr n s)
  then show ?case by (intro exI [of _ "[]"]) simp
next
  case (2 exceeds p hdr n q s)
  then show ?case by (intro exI [of _ "[VqErr]"] exI [of _ q] exI [of _ s]) simp
next
  case (3 exceeds p hdr n retry q s)
  show ?case
  proof (cases retry)
    case True
    with 3 obtain taken q' s' where "tx_loop exceeds p hdr n q s = Some (desc_heads taken, q', s')" "q = taken @ q'"
      "tx_inv p hp hv hc s'" by auto
    with True show ?thesis by (intro exI [of _ "VqEmpty retry # taken"] exI [of _ q'] exI [of _ s']) simp
  qed (use 3 in \<open>intro exI [of _ "[VqEmpty retry]"] exI [of _ q] exI [of _ s], simp\<close>)
next
  case (4 exceeds p hdr n d q s)
  define hdr1 where "hdr1 = (if tx_reads d then tx_header_bytes hdr (dq_out d) else hdr)"
  have rest: "\<forall>h \<in> set (tx_headers hdr1 q). stamped_small h" and here: "tx_reads d \<Longrightarrow> stamped_small (dec_header hdr1)"
    using 4(3) by (auto simp: hdr1_def)
  have "\<exists>s1. (if tx_reads d then tx_one p hdr1 d s else Some s) = Some s1 \<and> tx_inv p hp hv hc s1"
  proof (cases "tx_reads d")
    case True
    with tx_one_inv [OF 4(2) here] show ?thesis by auto
  qed (use 4(2) in simp)
  then obtain s1 where s1: "(if tx_reads d then tx_one p hdr1 d s else Some s) = Some s1" "tx_inv p hp hv hc s1" by blast
  show ?case
  proof (cases "exceeds (n + tx_len d)")
    case True
    with s1 show ?thesis
      by (intro exI [of _ "[VqDesc d]"] exI [of _ q] exI [of _ s1]) (simp add: Let_def hdr1_def [symmetric])
  next
    case False
    from 4(1) [OF hdr1_def refl s1(1) False s1(2)] rest obtain taken q' s' where
      "tx_loop exceeds p hdr1 (n + tx_len d) q s1 = Some (desc_heads taken, q', s')" "q = taken @ q'" "tx_inv p hp hv hc s'"
      by auto
    with False s1 show ?thesis
      by (intro exI [of _ "VqDesc d # taken"] exI [of _ q'] exI [of _ s']) (simp add: Let_def hdr1_def [symmetric])
  qed
qed

text \<open>
  C9. A run of \<^verbatim>\<open>tx_worker\<close> over descriptors that hold no profiling or scheduling message larger than a page
  (such a message can make the driver write outside its memory, \<open>profile_message_overruns_page_table\<close>).
  However the guest fills them otherwise, with headers of any type and size, cut short, or none at all, and
  whichever allocations fail, the worker returns, gives back every descriptor it took, once and in order, and
  keeps the invariant: the reference counts, the region tables of the imports, and that the finished exports
  of the channel are complete and belong to the context of its virtual channels, which is assumed at the
  start; \<open>uninit\<close> is what the header buffer holds before the first message.
\<close>
theorem tx_worker_safe:
  assumes inv: "import_inv hp hv hc s" and p: "st_pchans s p = Some pc" "pc_hyp_data pc = HypVhost vh"
    and ok: "exports_ok p s" and small: "\<forall>h \<in> set (tx_headers uninit q). stamped_small h"
  shows "\<exists>taken q' s'. tx_worker exceeds (Some p) uninit q s = Some (desc_heads taken, q', s') \<and> q = taken @ q' \<and>
    import_inv hp hv hc s' \<and> exports_ok p s'"
proof -
  have "tx_inv p hp hv hc s" using inv servesI [of hp hv hc s p pc vh, OF _ p ok] by (simp add: tx_inv_def import_inv_def)
  from tx_loop_inv [OF this small, of exceeds 0] obtain taken q' s' where
    "tx_loop exceeds p uninit 0 q s = Some (desc_heads taken, q', s')" "q = taken @ q'" "tx_inv p hp hv hc s'" by blast
  then show ?thesis using serves_exports [of p "Suc 0" s']
    by (intro exI [of _ taken] exI [of _ q'] exI [of _ s']) (simp add: tx_worker_def tx_inv_def)
qed

text \<open>Two descriptors: a message of an unknown channel, and four bytes where a header should be.\<close>

definition junk_ex :: "vq_answer list" where
  "junk_ex = [VqDesc \<lparr>dq_head = 3, dq_out_num = 1, dq_out_len = 23, dq_out = enc_header (hdr_ex 3) @ [1, 2, 3],
       dq_in_num = 0, dq_in_len = 0, dq_room = 0, dq_add_used = 0\<rparr>,
     VqDesc \<lparr>dq_head = 5, dq_out_num = 1, dq_out_len = 4, dq_out = [255, 255, 255, 255],
       dq_in_num = 0, dq_in_len = 0, dq_room = 0, dq_add_used = 0\<rparr>]"

theorem tx_worker_safe_witness:
  "\<exists>taken q' s'. tx_worker weight_ex (Some 1) (replicate 20 0) junk_ex drv_ex = Some (desc_heads taken, q', s') \<and>
     junk_ex = taken @ q' \<and> import_inv none_held none_held files_ex s' \<and> exports_ok 1 s'"
proof (rule tx_worker_safe)
  show "import_inv none_held none_held files_ex drv_ex" using drv_ex_wf drv_ex_imports by (simp add: import_inv_def)
  show "\<forall>h \<in> set (tx_headers (replicate 20 0) junk_ex). stamped_small h"
    by (simp add: junk_ex_def tx_reads_def tx_header_bytes_def stamped_small_def) code_simp
  show "st_pchans drv_ex 1 = Some pchan_ex" by (simp add: drv_ex_def)
  show "pc_hyp_data pchan_ex = HypVhost \<lparr>vh_send_list = [], vh_out_iter = []\<rparr>" by (simp add: pchan_ex_def)
qed (rule drv_ex_exports)

end
