(* ===== verification/Hab_Vhost_Dev.thy ===== *)
theory Hab_Vhost_Dev
  imports Hab_Vhost Hab_Wait
begin

text \<open>
  The devices of the vhost back end (\<^verbatim>\<open>hab_vhost.c\<close>): one character device per group of media and virtual
  machine, which lists the hab devices it serves, and the channels, which wait on a global list and
  belong to a device file while it is open.

  What the kernel answers (device registration, the checks of the vhost library) is an argument.
\<close>

section \<open>State\<close>

abbreviation (input) HABCFG_MMID_NUM :: nat where "HABCFG_MMID_NUM \<equiv> 26"
abbreviation (input) HABCFG_MMID_AREA_MAX :: nat where "HABCFG_MMID_AREA_MAX \<equiv> 16"
abbreviation (input) HABCFG_VMID_MAX :: nat where "HABCFG_VMID_MAX \<equiv> 16"
abbreviation (input) EOPNOTSUPP :: int where "EOPNOTSUPP \<equiv> 95"
abbreviation (input) HAB_MMID_ALL_AREA :: u32 where "HAB_MMID_ALL_AREA \<equiv> 0"

text \<open>
  The send list and the iterator of a channel are in \<open>pc_hyp_data\<close>; \<open>vp_tx\<close> and \<open>vp_rx\<close> say whether the
  queue has its \<^verbatim>\<open>private_data\<close>.
\<close>

record vhost_hab_pchannel =
  vp_pchan :: "nat option"
  vp_habdev :: nat
  vp_tx :: bool
  vp_rx :: bool
  vp_tx_empty :: bool
  vp_rx_empty :: bool

record vhost_hab_cdev =
  cd_domain_id :: nat
  cd_vmid :: int
  cd_habdevs :: "nat option list"

record vhost_hab_dev =
  vd_cdev :: nat
  vd_started :: int
  vd_vmid :: int
  vd_pchans :: "nat list"
  vd_vqs :: "(nat \<times> bool) list"
  vd_features :: u64

text \<open>\<open>g_vh\<close> with the objects behind it and the driver below.  \<open>vg_kern\<close> says which of the coming device
  registrations fail.\<close>

record vhost_hab =
  vg_cdevs :: "nat option list"
  vg_list :: "nat list"
  vg_cdev :: "nat \<Rightarrow> vhost_hab_cdev option"
  vg_chan :: "nat \<Rightarrow> vhost_hab_pchannel option"
  vg_dev :: "nat \<Rightarrow> vhost_hab_dev option"
  vg_next :: nat
  vg_kern :: "bool list"
  vg_drv :: hab_driver

definition vh_alloc :: "vhost_hab \<Rightarrow> bool \<times> vhost_hab" where
  "vh_alloc g = (case kalloc (vg_drv g) of (ok, s) \<Rightarrow> (ok, g\<lparr>vg_drv := s\<rparr>))"

definition vh_register :: "vhost_hab \<Rightarrow> bool \<times> vhost_hab" where
  "vh_register g = (case vg_kern g of [] \<Rightarrow> (True, g) | f # fs \<Rightarrow> (\<not> f, g\<lparr>vg_kern := fs\<rparr>))"

definition vh_drv :: "(hab_driver \<Rightarrow> hab_driver option) \<Rightarrow> vhost_hab \<Rightarrow> vhost_hab option" where
  "vh_drv f g = do { s \<leftarrow> f (vg_drv g); Some (g\<lparr>vg_drv := s\<rparr>) }"

definition mod_chan ::
  "nat \<Rightarrow> (vhost_hab_pchannel \<Rightarrow> vhost_hab_pchannel) \<Rightarrow> vhost_hab \<Rightarrow> vhost_hab option" where
  "mod_chan x f g = (case vg_chan g x of
      None \<Rightarrow> None
    | Some vp \<Rightarrow> Some (g\<lparr>vg_chan := (vg_chan g)(x \<mapsto> f vp)\<rparr>))"

section \<open>Character devices\<close>

definition cdev_slot :: "nat \<Rightarrow> int \<Rightarrow> nat option" where
  "cdev_slot domain_id vmid =
     (let i = int (HABCFG_MMID_AREA_MAX + 1) * vmid + int domain_id
      in if 0 \<le> i \<and> i < int ((HABCFG_MMID_AREA_MAX + 1) * HABCFG_VMID_MAX) then Some (nat i) else None)"

text \<open>An index outside of the table is a fault.\<close>

definition get_cdev :: "nat \<Rightarrow> int \<Rightarrow> vhost_hab \<Rightarrow> (nat option \<times> vhost_hab) option" where
  "get_cdev domain_id vmid g = do {
     i \<leftarrow> cdev_slot domain_id vmid;
     (case vg_cdevs g ! i of
        Some c \<Rightarrow> Some (Some c, g)
      | None \<Rightarrow>
          (case vh_alloc g of (ok, g1) \<Rightarrow>
            if \<not> ok then Some (None, g1)
            else (case vh_register g1 of (added, g2) \<Rightarrow>
              if \<not> added then Some (None, g2)
              else (case vh_register g2 of (created, g3) \<Rightarrow>
                if \<not> created then Some (None, g3)
                else let c = vg_next g3 in
                  Some (Some c, g3\<lparr>vg_next := c + 1, vg_cdevs := (vg_cdevs g3)[i := Some c],
                    vg_cdev := (vg_cdev g3)(c \<mapsto> \<lparr>cd_domain_id = domain_id, cd_vmid = vmid,
                      cd_habdevs = replicate HABCFG_MMID_NUM None\<rparr>)\<rparr>)))))
   }"

definition del_hab_device_from_cdev :: "u32 \<Rightarrow> nat \<Rightarrow> int \<Rightarrow> vhost_hab \<Rightarrow> vhost_hab option" where
  "del_hab_device_from_cdev mmid habdev vmid g = do {
     i \<leftarrow> cdev_slot (unat (mmid div 100)) vmid;
     (case vg_cdevs g ! i of
        None \<Rightarrow> Some g
      | Some c \<Rightarrow> do {
          cd \<leftarrow> vg_cdev g c;
          let ds = map (\<lambda>d. if d = Some habdev then None else d) (cd_habdevs cd);
          let g1 = g\<lparr>vg_cdev := (vg_cdev g)(c \<mapsto> cd\<lparr>cd_habdevs := ds\<rparr>)\<rparr>;
          Some (if list_all (\<lambda>d. d = None) ds
                then g1\<lparr>vg_cdev := (vg_cdev g1)(c := None), vg_cdevs := (vg_cdevs g1)[i := None]\<rparr>
                else g1)
        })
   }"

text \<open>The first free slot, or the number of slots.\<close>

fun free_slot :: "nat option list \<Rightarrow> nat" where
  "free_slot [] = 0"
| "free_slot (d # ds) = (if d = None then 0 else Suc (free_slot ds))"

definition add_hab_device_to_cdev :: "u32 \<Rightarrow> nat \<Rightarrow> int \<Rightarrow> vhost_hab \<Rightarrow> (int \<times> vhost_hab) option" where
  "add_hab_device_to_cdev mmid habdev vmid g = do {
     (r, g1) \<leftarrow> get_cdev (unat (mmid div 100)) vmid g;
     (case r of
        None \<Rightarrow> Some (- ENODEV, g1)
      | Some c \<Rightarrow> do {
          cd \<leftarrow> vg_cdev g1 c;
          let i = free_slot (cd_habdevs cd);
          let g2 = g1\<lparr>vg_cdev := (vg_cdev g1)(c \<mapsto> cd\<lparr>cd_habdevs := (cd_habdevs cd)[i := Some habdev]\<rparr>)\<rparr>;
          Some (if length (st_devs (vg_drv g2)) \<le> i then - EINVAL else 0, g2)
        })
   }"

definition vhost_hab_cdev_add_hab_device :: "nat \<Rightarrow> int \<Rightarrow> vhost_hab \<Rightarrow> (int \<times> vhost_hab) option" where
  "vhost_hab_cdev_add_hab_device habdev vmid g = do {
     dev \<leftarrow> get_dev habdev (vg_drv g);
     (ret, g1) \<leftarrow> add_hab_device_to_cdev HAB_MMID_ALL_AREA habdev vmid g;
     if ret \<noteq> 0 then Some (ret, g1)
     else do {
       (ret, g2) \<leftarrow> add_hab_device_to_cdev (dv_id dev) habdev vmid g1;
       if ret \<noteq> 0 then do {
         g3 \<leftarrow> del_hab_device_from_cdev HAB_MMID_ALL_AREA habdev vmid g2;
         Some (ret, g3)
       } else Some (0, g2)
     }
   }"

definition vhost_hab_cdev_del_hab_device :: "nat \<Rightarrow> int \<Rightarrow> vhost_hab \<Rightarrow> vhost_hab option" where
  "vhost_hab_cdev_del_hab_device habdev vmid g = do {
     dev \<leftarrow> get_dev habdev (vg_drv g);
     g1 \<leftarrow> del_hab_device_from_cdev (dv_id dev) habdev vmid g;
     del_hab_device_from_cdev HAB_MMID_ALL_AREA habdev vmid g1
   }"

section \<open>Channels\<close>

text \<open>
  A new channel, put on the global list.  When its vhost part cannot be allocated, the channel is put
  here and again at the end.
\<close>

definition vhost_commdev_alloc :: "int \<Rightarrow> nat \<Rightarrow> vhost_hab \<Rightarrow> (int \<times> nat option \<times> vhost_hab) option" where
  "vhost_commdev_alloc vmid_remote habdev g = do {
     (r, s) \<leftarrow> hab_pchan_alloc habdev vmid_remote (vg_drv g);
     let g1 = g\<lparr>vg_drv := s\<rparr>;
     (case r of
        None \<Rightarrow> Some (- ENOMEM, None, g1)
      | Some p \<Rightarrow> do {
          g2 \<leftarrow> vh_drv (mod_pchan p (\<lambda>pc. pc\<lparr>pc_closed := False, pc_otherend_closed := True, pc_is_be := True\<rparr>)) g1;
          (case vh_alloc g2 of (ok, g3) \<Rightarrow>
            if \<not> ok then do {
              g4 \<leftarrow> vh_drv (hab_pchan_put p) g3;
              g5 \<leftarrow> vh_drv (hab_pchan_put p) g4;
              Some (- ENOMEM, None, g5)
            } else do {
              (ret, g4) \<leftarrow> vhost_hab_cdev_add_hab_device habdev vmid_remote g3;
              if ret \<noteq> 0 then do { g5 \<leftarrow> vh_drv (hab_pchan_put p) g4; Some (ret, None, g5) }
              else let x = vg_next g4 in do {
                g5 \<leftarrow> vh_drv (mod_pchan p (\<lambda>pc. pc\<lparr>pc_hyp_data := HypVhost \<lparr>vh_send_list = [], vh_out_iter = []\<rparr>\<rparr>)) g4;
                Some (0, Some p, g5\<lparr>vg_next := x + 1, vg_list := vg_list g5 @ [x],
                  vg_chan := (vg_chan g5)(x \<mapsto> \<lparr>vp_pchan = Some p, vp_habdev = habdev, vp_tx = False,
                    vp_rx = False, vp_tx_empty = False, vp_rx_empty = False\<rparr>)\<rparr>)
              }
            })
        })
   }"

definition vhost_commdev_dealloc :: "nat \<Rightarrow> vhost_hab \<Rightarrow> (int \<times> vhost_hab) option" where
  "vhost_commdev_dealloc p g = do {
     pc \<leftarrow> st_pchans (vg_drv g) p;
     g1 \<leftarrow> vhost_hab_cdev_del_hab_device (pc_habdev pc) (pc_dom_id pc) g;
     g2 \<leftarrow> vh_drv (hab_pchan_put p) g1;
     Some (0, g2)
   }"

section \<open>Opening a device\<close>

text \<open>The first channel of the global list for a hab device and a virtual machine.\<close>

fun find_vh_pchan :: "vhost_hab \<Rightarrow> nat \<Rightarrow> int \<Rightarrow> nat list \<Rightarrow> nat option option" where
  "find_vh_pchan g habdev vmid [] = Some None"
| "find_vh_pchan g habdev vmid (x # xs) = do {
     vp \<leftarrow> vg_chan g x;
     m \<leftarrow> (if vp_habdev vp = habdev then do {
             p \<leftarrow> vp_pchan vp;
             pc \<leftarrow> st_pchans (vg_drv g) p;
             Some (pc_dom_id pc = vmid)
           } else Some False);
     if m then Some (Some x) else find_vh_pchan g habdev vmid xs
   }"

text \<open>The loop of \<^verbatim>\<open>vhost_hab_open\<close>: the global list and the channels taken, and whether all were found.\<close>

fun take_vh_pchans ::
  "vhost_hab \<Rightarrow> int \<Rightarrow> nat option list \<Rightarrow> nat list \<Rightarrow> nat list \<Rightarrow> (bool \<times> nat list \<times> nat list) option" where
  "take_vh_pchans g vmid [] l own = Some (True, l, own)"
| "take_vh_pchans g vmid (None # ds) l own = Some (True, l, own)"
| "take_vh_pchans g vmid (Some d # ds) l own = do {
     r \<leftarrow> find_vh_pchan g d vmid l;
     (case r of
        None \<Rightarrow> Some (False, l, own)
      | Some x \<Rightarrow> take_vh_pchans g vmid ds (remove1 x l) (own @ [x]))
   }"

text \<open>\<open>False\<close> names the transmit queue of a channel, \<open>True\<close> its receive queue.\<close>

definition vhost_hab_open :: "nat \<Rightarrow> vhost_hab \<Rightarrow> (int \<times> nat option \<times> vhost_hab) option" where
  "vhost_hab_open c g = do {
     cd \<leftarrow> vg_cdev g c;
     (case vh_alloc g of (ok, g1) \<Rightarrow>
       if \<not> ok then Some (- ENOMEM, None, g1)
       else do {
         (found, l, own) \<leftarrow> take_vh_pchans g1 (cd_vmid cd) (cd_habdevs cd) (vg_list g1) [];
         if \<not> found then Some (- ENODEV, None, g1\<lparr>vg_list := l @ own\<rparr>)
         else (case vh_alloc g1 of (ok2, g2) \<Rightarrow>
           if \<not> ok2 then Some (- ENOMEM, None, g2\<lparr>vg_list := l @ own\<rparr>)
           else let f = vg_next g2 in
             Some (0, Some f, g2\<lparr>vg_next := f + 1, vg_list := l,
               vg_dev := (vg_dev g2)(f \<mapsto> \<lparr>vd_cdev = c, vd_started = 0, vd_vmid = cd_vmid cd, vd_pchans = own,
                 vd_vqs = concat (map (\<lambda>x. [(x, False), (x, True)]) own),
                 vd_features = 0\<rparr>)\<rparr>))
       })
   }"

section \<open>Stopping and releasing\<close>

fun stop_vqs :: "nat list \<Rightarrow> vhost_hab \<Rightarrow> vhost_hab option" where
  "stop_vqs [] g = Some g"
| "stop_vqs (x # xs) g = do {
     g1 \<leftarrow> mod_chan x (\<lambda>vp. vp\<lparr>vp_tx := False, vp_rx := False\<rparr>) g;
     stop_vqs xs g1
   }"

definition mod_vdev :: "nat \<Rightarrow> (vhost_hab_dev \<Rightarrow> vhost_hab_dev) \<Rightarrow> vhost_hab \<Rightarrow> vhost_hab option" where
  "mod_vdev f h g = (case vg_dev g f of
      None \<Rightarrow> None
    | Some d \<Rightarrow> Some (g\<lparr>vg_dev := (vg_dev g)(f \<mapsto> h d)\<rparr>))"

definition vhost_hab_stop :: "nat \<Rightarrow> vhost_hab \<Rightarrow> vhost_hab option" where
  "vhost_hab_stop f g = do {
     d \<leftarrow> vg_dev g f;
     g1 \<leftarrow> stop_vqs (vd_pchans d) g;
     mod_vdev f (\<lambda>d. d\<lparr>vd_started := 0\<rparr>) g1
   }"

text \<open>Each channel goes back to the global list, after its reference was put.\<close>

fun release_vh_pchans :: "nat list \<Rightarrow> vhost_hab \<Rightarrow> vhost_hab option" where
  "release_vh_pchans [] g = Some g"
| "release_vh_pchans (x # xs) g = do {
     vp \<leftarrow> vg_chan g x;
     g1 \<leftarrow> (case vp_pchan vp of
         None \<Rightarrow> Some g
       | Some p \<Rightarrow> do {
           g1 \<leftarrow> vh_drv (mod_pchan p (\<lambda>pc. pc\<lparr>pc_sequence_rx := 0, pc_sequence_tx := 0\<rparr>)) g;
           vh_drv (hab_pchan_put p) g1
         });
     release_vh_pchans xs (g1\<lparr>vg_list := vg_list g1 @ [x]\<rparr>)
   }"

definition vhost_hab_release :: "nat \<Rightarrow> vhost_hab \<Rightarrow> (int \<times> vhost_hab) option" where
  "vhost_hab_release f g = do {
     g1 \<leftarrow> vhost_hab_stop f g;
     d \<leftarrow> vg_dev g1 f;
     g2 \<leftarrow> release_vh_pchans (vd_pchans d) g1;
     Some (0, g2\<lparr>vg_dev := (vg_dev g2)(f := None)\<rparr>)
   }"

section \<open>Starting\<close>

text \<open>
  What the vhost library answers: whether the caller owns the device, whether a queue is accessible, has
  its kick and call descriptors, and the result of its initialisation.
\<close>

record vhost_env =
  ve_owner :: int
  ve_access_ok :: "nat \<times> bool \<Rightarrow> bool"
  ve_kick :: "nat \<times> bool \<Rightarrow> bool"
  ve_call :: "nat \<times> bool \<Rightarrow> bool"
  ve_init :: "nat \<times> bool \<Rightarrow> int"
  ve_features :: u64
  ve_log_ok :: bool

definition vhost_hab_ready_check :: "vhost_env \<Rightarrow> nat \<Rightarrow> vhost_hab \<Rightarrow> int option" where
  "vhost_hab_ready_check e f g = do {
     d \<leftarrow> vg_dev g f;
     Some (if ve_owner e \<noteq> 0 then ve_owner e
           else if list_all (\<lambda>q. ve_access_ok e q \<and> ve_kick e q \<and> ve_call e q) (vd_vqs d) then 0
           else - EFAULT)
   }"

definition vq_private :: "nat \<times> bool \<Rightarrow> vhost_hab_pchannel \<Rightarrow> bool" where
  "vq_private q vp = (if snd q then vp_rx vp else vp_tx vp)"

definition set_private :: "nat \<times> bool \<Rightarrow> bool \<Rightarrow> vhost_hab \<Rightarrow> vhost_hab option" where
  "set_private q b g = mod_chan (fst q) (\<lambda>vp. if snd q then vp\<lparr>vp_rx := b\<rparr> else vp\<lparr>vp_tx := b\<rparr>) g"

text \<open>The loop over the queues: the last result and how many did not start.\<close>

fun start_vqs ::
  "vhost_env \<Rightarrow> (nat \<times> bool) list \<Rightarrow> int \<Rightarrow> nat \<Rightarrow> vhost_hab \<Rightarrow> (int \<times> nat \<times> vhost_hab) option" where
  "start_vqs e [] r n g = Some (r, n, g)"
| "start_vqs e (q # qs) r n g = do {
     vp \<leftarrow> vg_chan g (fst q);
     if vq_private q vp then start_vqs e qs r n g
     else if ve_init e q \<noteq> 0 then start_vqs e qs (ve_init e q) (n + 1) g
     else do { g1 \<leftarrow> set_private q True g; start_vqs e qs 0 n g1 }
   }"

definition vhost_hab_run :: "vhost_env \<Rightarrow> nat \<Rightarrow> int \<Rightarrow> vhost_hab \<Rightarrow> (int \<times> vhost_hab) option" where
  "vhost_hab_run e f start g =
     (if start < 0 \<or> 1 < start then Some (- EINVAL, g)
      else do {
        d \<leftarrow> vg_dev g f;
        if vd_started d = start then Some (0, g)
        else if ve_owner e \<noteq> 0 then Some (ve_owner e, g)
        else if \<not> list_all (ve_access_ok e) (vd_vqs d) then Some (- EFAULT, g)
        else do {
          (r, n, g1) \<leftarrow> start_vqs e (concat (map (\<lambda>x. [(x, False), (x, True)]) (vd_pchans d))) 0 0 g;
          if n = 0 then do { g2 \<leftarrow> mod_vdev f (\<lambda>d. d\<lparr>vd_started := 1\<rparr>) g1; Some (0, g2) }
          else Some (r, g1)
        }
      })"

section \<open>Control\<close>

text \<open>The polling wait for the clients to close their channels.\<close>

definition hab_vchans_empty_wait_pchan :: "nat \<Rightarrow> wait_ev list \<Rightarrow> hab_driver \<Rightarrow> unit wait_res run option" where
  "hab_vchans_empty_wait_pchan p w s = wait_loop
     (\<lambda>s. do { e \<leftarrow> hab_vchans_per_pchan_empty p s; Some (if e then Some () else None, s) }) False False w s"

definition chan_pchan :: "vhost_hab \<Rightarrow> nat \<Rightarrow> nat option" where
  "chan_pchan g x = do { vp \<leftarrow> vg_chan g x; vp_pchan vp }"

fun stop_pchans :: "nat list \<Rightarrow> vhost_hab \<Rightarrow> vhost_hab option" where
  "stop_pchans [] g = Some g"
| "stop_pchans (x # xs) g = do {
     p \<leftarrow> chan_pchan g x;
     g1 \<leftarrow> vh_drv (hab_vchans_stop p) g;
     g2 \<leftarrow> vh_drv (mod_pchan p (\<lambda>pc. pc\<lparr>pc_otherend_closed := True\<rparr>)) g1;
     stop_pchans xs g2
   }"

fun wait_pchans :: "nat list \<Rightarrow> vhost_hab \<Rightarrow> wait_ev list \<Rightarrow> hab_driver \<Rightarrow> unit run option" where
  "wait_pchans [] g w s = Some (Done () w s)"
| "wait_pchans (x # xs) g w s = do {
     p \<leftarrow> chan_pchan g x;
     run_bind (hab_vchans_empty_wait_pchan p w s) (\<lambda>_ w s. wait_pchans xs g w s)
   }"

text \<open>The result with the rest of the schedule, or nothing while it still waits.\<close>

definition vhost_hab_reset_owner ::
  "vhost_env \<Rightarrow> nat \<Rightarrow> wait_ev list \<Rightarrow> vhost_hab \<Rightarrow> ((int \<times> wait_ev list) option \<times> vhost_hab) option" where
  "vhost_hab_reset_owner e f w g = do {
     d \<leftarrow> vg_dev g f;
     g1 \<leftarrow> stop_pchans (vd_pchans d) g;
     r \<leftarrow> wait_pchans (vd_pchans d) g1 w (vg_drv g1);
     (case r of
        Blocked s \<Rightarrow> Some (None, g1\<lparr>vg_drv := s\<rparr>)
      | Done _ w1 s \<Rightarrow>
          let g2 = g1\<lparr>vg_drv := s\<rparr> in
          if ve_owner e \<noteq> 0 then Some (Some (ve_owner e, w1), g2)
          else (case vh_alloc g2 of (ok, g3) \<Rightarrow>
            if \<not> ok then Some (Some (- ENOMEM, w1), g3)
            else do { g4 \<leftarrow> vhost_hab_stop f g3; Some (Some (0, w1), g4) }))
   }"

fun start_pchans :: "nat list \<Rightarrow> vhost_hab \<Rightarrow> vhost_hab option" where
  "start_pchans [] g = Some g"
| "start_pchans (x # xs) g = do {
     p \<leftarrow> chan_pchan g x;
     g1 \<leftarrow> vh_drv (mod_pchan p (\<lambda>pc. pc\<lparr>pc_otherend_closed := False\<rparr>)) g;
     start_pchans xs g1
   }"

text \<open>
  The end of an ioctl that went to the vhost library, whose result is \<open>r\<close>: when all queues are set up
  the channels are opened and the device is started.
\<close>

definition vhost_hab_ioctl_default :: "vhost_env \<Rightarrow> nat \<Rightarrow> int \<Rightarrow> vhost_hab \<Rightarrow> (int \<times> vhost_hab) option" where
  "vhost_hab_ioctl_default e f r g = do {
     ready \<leftarrow> vhost_hab_ready_check e f g;
     if ready = 0 then do {
       d \<leftarrow> vg_dev g f;
       g1 \<leftarrow> start_pchans (vd_pchans d) g;
       (r2, g2) \<leftarrow> vhost_hab_run e f 1 g1;
       Some (r, g2)
     } else Some (r, g)
   }"

text \<open>The features the queues acknowledge; the log (bit 26) needs memory that can be accessed.\<close>

definition vhost_hab_set_features :: "vhost_env \<Rightarrow> nat \<Rightarrow> u64 \<Rightarrow> vhost_hab \<Rightarrow> (int \<times> vhost_hab) option" where
  "vhost_hab_set_features e f features g =
     (if features AND 0x4000000 \<noteq> 0 \<and> \<not> ve_log_ok e then Some (- EFAULT, g)
      else do { g1 \<leftarrow> mod_vdev f (\<lambda>d. d\<lparr>vd_features := features\<rparr>) g; Some (0, g1) })"

text \<open>
  The ioctls: setting the features (\<open>None\<close> when they cannot be read), getting them (with whether the caller's
  memory can be written), and those of the library, with their result.
\<close>

datatype vhost_cmd =
  VhResetOwner | VhSetFeatures "u64 option" | VhSetConfig | VhGetFeatures bool | VhLibrary int

definition vhost_hab_ioctl ::
  "vhost_env \<Rightarrow> nat \<Rightarrow> vhost_cmd \<Rightarrow> wait_ev list \<Rightarrow> vhost_hab \<Rightarrow> ((int \<times> wait_ev list) option \<times> vhost_hab) option"
where
  "vhost_hab_ioctl e f cmd w g = (case cmd of
      VhResetOwner \<Rightarrow> vhost_hab_reset_owner e f w g
    | VhSetFeatures None \<Rightarrow> Some (Some (- EFAULT, w), g)
    | VhSetFeatures (Some features) \<Rightarrow>
        if features AND NOT (ve_features e) \<noteq> 0 then Some (Some (- EOPNOTSUPP, w), g)
        else do { (r, g1) \<leftarrow> vhost_hab_set_features e f features g; Some (Some (r, w), g1) }
    | VhSetConfig \<Rightarrow> Some (Some (0, w), g)
    | VhGetFeatures ok \<Rightarrow> Some (Some (if ok then 0 else - EFAULT, w), g)
    | VhLibrary r \<Rightarrow> do { (r1, g1) \<leftarrow> vhost_hab_ioctl_default e f r g; Some (Some (r1, w), g1) })"

section \<open>Unloading\<close>

text \<open>The channels on the global list go first; their hab channels are told so.\<close>

fun free_vh_pchans :: "nat list \<Rightarrow> vhost_hab \<Rightarrow> vhost_hab option" where
  "free_vh_pchans [] g = Some g"
| "free_vh_pchans (x # xs) g = do {
     vp \<leftarrow> vg_chan g x;
     g1 \<leftarrow> (case vp_pchan vp of
         None \<Rightarrow> Some g
       | Some p \<Rightarrow> vh_drv (mod_pchan p (\<lambda>pc. pc\<lparr>pc_hyp_data := HypNone\<rparr>)) g);
     free_vh_pchans xs (g1\<lparr>vg_list := remove1 x (vg_list g1), vg_chan := (vg_chan g1)(x := None)\<rparr>)
   }"

fun dealloc_pchans :: "nat list \<Rightarrow> vhost_hab \<Rightarrow> vhost_hab option" where
  "dealloc_pchans [] g = Some g"
| "dealloc_pchans (p # ps) g = do { (r, g1) \<leftarrow> vhost_commdev_dealloc p g; dealloc_pchans ps g1 }"

definition vhost_unregister_common :: "vhost_hab \<Rightarrow> vhost_hab option" where
  "vhost_unregister_common g = dealloc_pchans (concat (map dv_pchannels (st_devs (vg_drv g)))) g"

definition vhost_unregister :: "vhost_hab \<Rightarrow> vhost_hab option" where
  "vhost_unregister g = do { g1 \<leftarrow> free_vh_pchans (vg_list g) g; vhost_unregister_common g1 }"

end
