(* ===== verification/Hab_Vhost_Own.thy ===== *)
theory Hab_Vhost_Own
  imports Hab_Vhost_Dev Hab_Example
begin

text \<open>
  Who has a vhost channel: it waits on the global list or belongs to one open device file, and opening,
  releasing and creating channels keep it so; and what is left of a channel after a release.
\<close>

section \<open>Each channel in one place\<close>

definition vh_own :: "nat list \<Rightarrow> (nat \<Rightarrow> vhost_hab_dev option) \<Rightarrow> (nat \<Rightarrow> vhost_hab_pchannel option) \<Rightarrow> nat \<Rightarrow> bool" where
  "vh_own l D C n \<longleftrightarrow> distinct l \<and> (\<forall>x \<in> set l. x < n \<and> C x \<noteq> None) \<and>
     (\<forall>f d. D f = Some d \<longrightarrow> f < n \<and> distinct (vd_pchans d) \<and> set (vd_pchans d) \<inter> set l = {} \<and>
        (\<forall>x \<in> set (vd_pchans d). x < n \<and> C x \<noteq> None)) \<and>
     (\<forall>f f' d d'. D f = Some d \<longrightarrow> D f' = Some d' \<longrightarrow> f \<noteq> f' \<longrightarrow> set (vd_pchans d) \<inter> set (vd_pchans d') = {}) \<and>
     (\<forall>x. C x \<noteq> None \<longrightarrow> x \<in> set l \<or> (\<exists>f d. D f = Some d \<and> x \<in> set (vd_pchans d)))"

abbreviation vh_owned :: "vhost_hab \<Rightarrow> bool" where
  "vh_owned g \<equiv> vh_own (vg_list g) (vg_dev g) (vg_chan g) (vg_next g)"

lemma vh_alloc_frame:
  "vh_alloc g = (ok, g') \<Longrightarrow> vg_list g' = vg_list g \<and> vg_dev g' = vg_dev g \<and> vg_chan g' = vg_chan g \<and>
     vg_next g' = vg_next g \<and> vg_cdev g' = vg_cdev g \<and> vg_cdevs g' = vg_cdevs g \<and>
     st_pchans (vg_drv g') = st_pchans (vg_drv g)"
  using kalloc_frame [of "vg_drv g"] by (auto simp: vh_alloc_def split: prod.splits)

lemma vh_ownD:
  assumes "vh_own l D C n"
  shows "distinct l" "x \<in> set l \<Longrightarrow> x < n \<and> C x \<noteq> None"
    "D f = Some d \<Longrightarrow> f < n \<and> distinct (vd_pchans d) \<and> set (vd_pchans d) \<inter> set l = {}"
    "D f = Some d \<Longrightarrow> x \<in> set (vd_pchans d) \<Longrightarrow> x < n \<and> C x \<noteq> None"
    "D f = Some d \<Longrightarrow> D f' = Some d' \<Longrightarrow> f \<noteq> f' \<Longrightarrow> set (vd_pchans d) \<inter> set (vd_pchans d') = {}"
    "C x \<noteq> None \<Longrightarrow> x \<in> set l \<or> (\<exists>f d. D f = Some d \<and> x \<in> set (vd_pchans d))"
  using assms unfolding vh_own_def by (blast, blast, blast, blast, blast, blast)

lemma vh_ownI:
  assumes "distinct l" "\<And>x. x \<in> set l \<Longrightarrow> x < n \<and> C x \<noteq> None"
    "\<And>f d. D f = Some d \<Longrightarrow> f < n \<and> distinct (vd_pchans d) \<and> set (vd_pchans d) \<inter> set l = {}"
    "\<And>f d x. D f = Some d \<Longrightarrow> x \<in> set (vd_pchans d) \<Longrightarrow> x < n \<and> C x \<noteq> None"
    "\<And>f f' d d'. D f = Some d \<Longrightarrow> D f' = Some d' \<Longrightarrow> f \<noteq> f' \<Longrightarrow> set (vd_pchans d) \<inter> set (vd_pchans d') = {}"
    "\<And>x. C x \<noteq> None \<Longrightarrow> x \<in> set l \<or> (\<exists>f d. D f = Some d \<and> x \<in> set (vd_pchans d))"
  shows "vh_own l D C n"
  unfolding vh_own_def using assms by (simp del: Int_iff)

lemma vh_own_list:
  assumes "vh_own l D C n" "distinct l'" "set l' = set l" shows "vh_own l' D C n"
  using assms by (simp add: vh_own_def)

lemma vh_own_chan:
  assumes "vh_own l D C n" "C x \<noteq> None" shows "vh_own l D (C(x \<mapsto> vp)) n"
proof (rule vh_ownI)
  fix y assume "(C(x \<mapsto> vp)) y \<noteq> None"
  then have "C y \<noteq> None" using assms(2) by (cases "y = x") auto
  then show "y \<in> set l \<or> (\<exists>f d. D f = Some d \<and> y \<in> set (vd_pchans d))" by (rule vh_ownD(6) [OF assms(1)])
qed (use vh_ownD(1-5) [OF assms(1)] in simp_all)

lemma vh_own_more:
  assumes "vh_own l D C n" "n \<le> m" shows "vh_own l D C m"
proof -
  note old = vh_ownD [OF assms(1)]
  have "k < n \<Longrightarrow> k < m" for k using assms(2) by simp
  then show ?thesis by (intro vh_ownI) (use old in blast)+
qed

lemma vh_own_new:
  assumes "vh_own l D C n" shows "vh_own (l @ [n]) D (C(n \<mapsto> vp)) (Suc n)"
proof -
  note own = vh_ownD [OF assms]
  show ?thesis
  proof (rule vh_ownI)
    fix x assume "(C(n \<mapsto> vp)) x \<noteq> None"
    then show "x \<in> set (l @ [n]) \<or> (\<exists>f d. D f = Some d \<and> x \<in> set (vd_pchans d))"
      using own(6) [of x] by (cases "x = n") auto
  qed (use own(1-5) in \<open>fastforce simp: less_Suc_eq\<close>)+
qed

text \<open>A device is opened with channels of the list, or loses them to it.\<close>

lemma vh_own_open:
  assumes wf: "vh_own l D C n" and own: "distinct (l' @ own)" "set (l' @ own) = set l" "vd_pchans d = own"
  shows "vh_own l' (D(n \<mapsto> d)) C (Suc n)"
proof -
  note old = vh_ownD [OF wf]
  have sub: "set l' \<subseteq> set l" "set own \<subseteq> set l" using own(2) by auto
  have apart: "set (vd_pchans e) \<inter> set own = {}" if "D f = Some e" for f e using old(3) [OF that] sub by blast
  show ?thesis
  proof (rule vh_ownI)
    fix f e assume "(D(n \<mapsto> d)) f = Some e"
    then show "f < Suc n \<and> distinct (vd_pchans e) \<and> set (vd_pchans e) \<inter> set l' = {}"
      using old(3) [of f e] own sub by (auto simp: less_Suc_eq split: if_splits)
  next
    fix f e x assume "(D(n \<mapsto> d)) f = Some e" "x \<in> set (vd_pchans e)"
    then show "x < Suc n \<and> C x \<noteq> None"
      using old(4) [of f e x] old(2) [of x] own(3) sub by (auto simp: less_Suc_eq split: if_splits)
  next
    fix f f' e e' assume "(D(n \<mapsto> d)) f = Some e" "(D(n \<mapsto> d)) f' = Some e'" "f \<noteq> f'"
    then show "set (vd_pchans e) \<inter> set (vd_pchans e') = {}"
      using old(5) [of f e f' e'] apart [of f e] apart [of f' e'] own(3) by (auto split: if_splits)
  next
    fix x assume x: "C x \<noteq> None"
    show "x \<in> set l' \<or> (\<exists>f e. (D(n \<mapsto> d)) f = Some e \<and> x \<in> set (vd_pchans e))"
    proof (cases "x \<in> set l")
      case True
      then have "x \<in> set l' \<or> x \<in> set (vd_pchans d)" using own(2,3) by auto
      then show ?thesis by (metis fun_upd_same)
    next
      case False
      with old(6) [OF x] obtain f e where e: "D f = Some e" "x \<in> set (vd_pchans e)" by blast
      with old(3) [OF e(1)] have "(D(n \<mapsto> d)) f = Some e" by simp
      with e(2) show ?thesis by blast
    qed
  qed (use own old(1,2) sub in \<open>auto simp: less_Suc_eq\<close>)
qed

lemma vh_own_close:
  assumes wf: "vh_own l D C n" and d: "D f = Some d"
  shows "vh_own (l @ vd_pchans d) (D(f := None)) C n"
proof -
  note old = vh_ownD [OF wf]
  show ?thesis
  proof (rule vh_ownI)
    fix h e assume h: "(D(f := None)) h = Some e"
    then have e: "D h = Some e" "h \<noteq> f" by (auto split: if_splits)
    from old(3) [OF e(1)] old(5) [OF e(1) d e(2)] show "h < n \<and> distinct (vd_pchans e) \<and> set (vd_pchans e) \<inter> set (l @ vd_pchans d) = {}"
      by auto
    fix x assume "x \<in> set (vd_pchans e)"
    then show "x < n \<and> C x \<noteq> None" by (rule old(4) [OF e(1)])
  next
    fix h h' e e' assume "(D(f := None)) h = Some e" "(D(f := None)) h' = Some e'" "h \<noteq> h'"
    then show "set (vd_pchans e) \<inter> set (vd_pchans e') = {}" using old(5) [of h e h' e'] by (auto split: if_splits)
  next
    fix x assume "C x \<noteq> None"
    from old(6) [OF this] d show "x \<in> set (l @ vd_pchans d) \<or> (\<exists>h e. (D(f := None)) h = Some e \<and> x \<in> set (vd_pchans e))"
      by (metis Un_iff fun_upd_other option.inject set_append)
  qed (use old(1) old(2) old(3) [OF d] old(4) [OF d] in auto)
qed

lemma vh_own_dev:
  assumes wf: "vh_own l D C n" and d: "D f = Some d" "vd_pchans d' = vd_pchans d"
  shows "vh_own l (D(f \<mapsto> d')) C n"
proof -
  note old = vh_ownD [OF wf]
  have same: "\<exists>e0. D h = Some e0 \<and> vd_pchans e0 = vd_pchans e" if "(D(f \<mapsto> d')) h = Some e" for h e
    using that d by (auto split: if_splits)
  show ?thesis
  proof (rule vh_ownI)
    fix h e assume "(D(f \<mapsto> d')) h = Some e"
    from same [OF this] obtain e0 where e0: "D h = Some e0" "vd_pchans e0 = vd_pchans e" by blast
    from old(3) [OF e0(1)] e0(2) show "h < n \<and> distinct (vd_pchans e) \<and> set (vd_pchans e) \<inter> set l = {}" by simp
    fix x assume "x \<in> set (vd_pchans e)"
    with old(4) [OF e0(1)] e0(2) show "x < n \<and> C x \<noteq> None" by simp
  next
    fix h h' e e' assume "(D(f \<mapsto> d')) h = Some e" "(D(f \<mapsto> d')) h' = Some e'" and ne: "h \<noteq> h'"
    from same [OF this(1)] same [OF this(2)] obtain e0 e1 where "D h = Some e0" "vd_pchans e0 = vd_pchans e"
      "D h' = Some e1" "vd_pchans e1 = vd_pchans e'" by blast
    with old(5) [of h e0 h' e1] ne show "set (vd_pchans e) \<inter> set (vd_pchans e') = {}" by simp
  next
    fix x assume "C x \<noteq> None"
    from old(6) [OF this] d show "x \<in> set l \<or> (\<exists>h e. (D(f \<mapsto> d')) h = Some e \<and> x \<in> set (vd_pchans e))"
      by (metis fun_upd_other fun_upd_same option.inject)
  qed (use old(1,2) in auto)
qed

section \<open>Opening\<close>

lemma find_vh_pchan_in: "find_vh_pchan g d vmid l = Some (Some x) \<Longrightarrow> x \<in> set l"
  by (induction l) (auto simp: bind_eq_Some_conv split: if_splits)

lemma find_vh_pchan_for:
  "find_vh_pchan g d vmid l = Some (Some x) \<Longrightarrow> \<exists>vp p pc. vg_chan g x = Some vp \<and> vp_habdev vp = d \<and>
     vp_pchan vp = Some p \<and> st_pchans (vg_drv g) p = Some pc \<and> pc_dom_id pc = vmid"
  by (induction l) (auto simp: bind_eq_Some_conv split: if_splits)

text \<open>The devices up to the first empty slot.\<close>

definition listed_devs :: "nat option list \<Rightarrow> nat list" where
  "listed_devs ds = map the (takeWhile (\<lambda>d. d \<noteq> None) ds)"

lemma take_vh_pchans_split:
  assumes "take_vh_pchans g vmid ds l own = Some (ok, l', own')" "distinct (l @ own)"
  shows "distinct (l' @ own') \<and> set (l' @ own') = set (l @ own)"
  using assms
proof (induction g vmid ds l own rule: take_vh_pchans.induct)
  case (3 g vmid d ds l own)
  from 3(2) obtain r where r: "find_vh_pchan g d vmid l = Some r" by (auto simp: bind_eq_Some_conv)
  show ?case
  proof (cases r)
    case None
    with 3 r show ?thesis by simp
  next
    case (Some x)
    then have x: "x \<in> set l" using find_vh_pchan_in r by blast
    from 3(3) x have "distinct (remove1 x l @ own @ [x])" "set (remove1 x l @ own @ [x]) = set (l @ own)"
      by auto
    with 3(1) [OF r Some] 3(2) r Some show ?thesis by simp
  qed
qed simp_all

definition serves_dev :: "vhost_hab \<Rightarrow> int \<Rightarrow> nat \<Rightarrow> nat \<Rightarrow> bool" where
  "serves_dev g vmid d x \<longleftrightarrow> (\<exists>vp p pc. vg_chan g x = Some vp \<and> vp_habdev vp = d \<and> vp_pchan vp = Some p \<and>
     st_pchans (vg_drv g) p = Some pc \<and> pc_dom_id pc = vmid)"

lemma take_vh_pchans_serve:
  assumes "take_vh_pchans g vmid ds l own = Some (True, l', own')" "list_all2 (serves_dev g vmid) es own"
  shows "list_all2 (serves_dev g vmid) (es @ listed_devs ds) own'"
  using assms
proof (induction g vmid ds l own arbitrary: es rule: take_vh_pchans.induct)
  case (3 g vmid d ds l own)
  from 3(2) obtain x where x: "find_vh_pchan g d vmid l = Some (Some x)"
    "take_vh_pchans g vmid ds (remove1 x l) (own @ [x]) = Some (True, l', own')"
    by (auto simp: bind_eq_Some_conv split: option.splits)
  have "serves_dev g vmid d x" using find_vh_pchan_for [OF x(1)] by (simp add: serves_dev_def)
  with 3(3) have "list_all2 (serves_dev g vmid) (es @ [d]) (own @ [x])" by (simp add: list_all2_appendI)
  from 3(1) [OF x(1) refl x(2) this] show ?case by (simp add: listed_devs_def)
qed (simp_all add: listed_devs_def)

lemma vhost_open_takes:
  assumes wf: "vh_owned g" and cd: "vg_cdev g c = Some cd" and run: "vhost_hab_open c g = Some (r, fo, g')"
  shows "vh_owned g' \<and> (case fo of
      None \<Rightarrow> r \<noteq> 0 \<and> set (vg_list g') = set (vg_list g) \<and> vg_dev g' = vg_dev g
    | Some f \<Rightarrow> r = 0 \<and> (\<exists>d. vg_dev g' f = Some d \<and>
        list_all2 (serves_dev g (cd_vmid cd)) (listed_devs (cd_habdevs cd)) (vd_pchans d) \<and>
        set (vg_list g) = set (vg_list g') \<union> set (vd_pchans d)))"
proof -
  obtain ok g1 where a: "vh_alloc g = (ok, g1)" by fastforce
  note f1 = vh_alloc_frame [OF a]
  show ?thesis
  proof (cases ok)
    case False
    with run cd a f1 wf show ?thesis by (auto simp: vhost_hab_open_def)
  next
    case True
    with run cd a f1 obtain found l own where t: "take_vh_pchans g1 (cd_vmid cd) (cd_habdevs cd) (vg_list g) [] = Some (found, l, own)"
      by (auto simp: vhost_hab_open_def bind_eq_Some_conv)
    have dl: "distinct (vg_list g @ [])" using wf by (simp add: vh_own_def)
    note sp = take_vh_pchans_split [OF t dl]
    obtain ok2 g2 where b: "vh_alloc g1 = (ok2, g2)" by fastforce
    note f2 = vh_alloc_frame [OF b]
    have restored: "vh_own (l @ own) (vg_dev g) (vg_chan g) (vg_next g)" by (rule vh_own_list [OF wf]) (use sp in simp_all)
    show ?thesis
    proof (cases "found \<and> ok2")
      case False
      with run cd a True t b f1 f2 restored sp show ?thesis
        by (cases found) (auto simp: vhost_hab_open_def)
    next
      case ok: True
      define d where "d = \<lparr>vd_cdev = c, vd_started = 0, vd_vmid = cd_vmid cd, vd_pchans = own,
        vd_vqs = concat (map (\<lambda>x. [(x, False), (x, True)]) own), vd_features = 0\<rparr>"
      from run cd a True t b f1 f2 ok have g': "r = 0" "fo = Some (vg_next g)"
        "g' = g2\<lparr>vg_next := Suc (vg_next g), vg_list := l, vg_dev := (vg_dev g)(vg_next g \<mapsto> d)\<rparr>"
        by (auto simp: vhost_hab_open_def Let_def d_def)
      have "vh_own l ((vg_dev g)(vg_next g \<mapsto> d)) (vg_chan g) (Suc (vg_next g))"
        by (rule vh_own_open [OF wf]) (use sp in \<open>simp_all add: d_def\<close>)
      moreover have "list_all2 (serves_dev g (cd_vmid cd)) (listed_devs (cd_habdevs cd)) own"
        using take_vh_pchans_serve [of g1 "cd_vmid cd" "cd_habdevs cd" "vg_list g" "[]" l own "[]"] t ok f1
        by (simp add: serves_dev_def [abs_def])
      ultimately show ?thesis using sp f1 f2 by (auto simp: g' d_def)
    qed
  qed
qed

text \<open>
  Opening a vhost device.  When \<^verbatim>\<open>vhost_hab_open\<close> succeeds the file owns one channel for each hab
  device of the character device, in that order, each of that device and of the virtual machine of the
  file, and these channels are gone from the global list; when it fails, for want of a channel or of
  memory, the global list has the same channels as before and no file.  In both cases every channel
  stays in exactly one place, so that no two open files share one.
\<close>
theorem vhost_open_takes_channels:
  assumes wf: "vh_owned g" and cd: "vg_cdev g c = Some cd" and run: "vhost_hab_open c g = Some (r, fo, g')"
  shows "vh_owned g' \<and> (case fo of
      None \<Rightarrow> r \<noteq> 0 \<and> set (vg_list g') = set (vg_list g) \<and> vg_dev g' = vg_dev g
    | Some f \<Rightarrow> r = 0 \<and> (\<exists>d. vg_dev g' f = Some d \<and>
        list_all2 (serves_dev g (cd_vmid cd)) (listed_devs (cd_habdevs cd)) (vd_pchans d) \<and>
        set (vg_list g) = set (vg_list g') \<union> set (vd_pchans d)))"
  by (rule vhost_open_takes [OF assms])

text \<open>The channel of the example behind a character device for its hab device.\<close>

definition vp_ex :: vhost_hab_pchannel where
  "vp_ex = \<lparr>vp_pchan = Some 1, vp_habdev = 0, vp_tx = False, vp_rx = False, vp_tx_empty = False, vp_rx_empty = False\<rparr>"

definition cdev_ex :: vhost_hab_cdev where
  "cdev_ex = \<lparr>cd_domain_id = 6, cd_vmid = 2, cd_habdevs = Some 0 # replicate 25 None\<rparr>"

definition vhost_ex :: "nat list \<Rightarrow> (nat \<Rightarrow> vhost_hab_dev option) \<Rightarrow> hab_driver \<Rightarrow> vhost_hab" where
  "vhost_ex l D s = \<lparr>vg_cdevs = (replicate 272 None)[40 := Some 0], vg_list = l, vg_cdev = [0 \<mapsto> cdev_ex],
     vg_chan = [1 \<mapsto> vp_ex], vg_dev = D, vg_next = 2, vg_kern = [], vg_drv = s\<rparr>"

definition file_ex :: vhost_hab_dev where
  "file_ex = \<lparr>vd_cdev = 0, vd_started = 0, vd_vmid = 2, vd_pchans = [1], vd_vqs = [(1, False), (1, True)], vd_features = 0\<rparr>"

lemma vhost_open_ex:
  "vhost_hab_open 0 (vhost_ex [1] Map.empty drv_ex) =
     Some (0, Some 2, (vhost_ex [] [2 \<mapsto> file_ex] drv_ex)\<lparr>vg_next := 3\<rparr>)"
  by (simp add: vhost_hab_open_def vhost_ex_def cdev_ex_def vh_alloc_def kalloc_def drv_ex_def vp_ex_def pchan_ex_def
      file_ex_def numeral_eq_Suc)

theorem vhost_open_takes_channels_witness:
  "vhost_hab_open 0 (vhost_ex [1] Map.empty drv_ex) =
     Some (0, Some 2, (vhost_ex [] [2 \<mapsto> file_ex] drv_ex)\<lparr>vg_next := 3\<rparr>) \<and>
   list_all2 (serves_dev (vhost_ex [1] Map.empty drv_ex) 2) [0] [1] \<and>
   vh_owned ((vhost_ex [] [2 \<mapsto> file_ex] drv_ex)\<lparr>vg_next := 3\<rparr>)"
proof -
  have "vh_owned (vhost_ex [1] Map.empty drv_ex)" by (auto simp: vh_own_def vhost_ex_def split: if_splits)
  from vhost_open_takes_channels [OF this _ vhost_open_ex, of cdev_ex] vhost_open_ex show ?thesis
    by (simp add: vhost_ex_def cdev_ex_def file_ex_def listed_devs_def)
qed

section \<open>Releasing and opening again\<close>

text \<open>
  C37. A device that was opened and closed cannot be opened again.  Opening takes no reference to the
  channels, but releasing puts one for each: a channel that only has its base reference is freed, while
  its entry goes back to the global list with a pointer to it.  The next open that comes to this entry
  reads the freed channel.
\<close>
theorem vhost_open_after_release_faults:
  assumes dev: "vg_dev g f = Some d" "vd_pchans d = [x]" and list: "vg_list g = []"
    and cd: "vg_cdev g c = Some cd" "cd_habdevs cd = Some h # ds" and x: "vg_chan g x = Some vp" "vp_habdev vp = h" "vp_pchan vp = Some p"
    and p: "st_pchans (vg_drv g) p = Some pc" "pc_refcount pc = 1" "pc_vchannels pc = []"
      "pc_habdev pc < length (st_devs (vg_drv g))" and mem: "st_mem (vg_drv g) = []"
  shows "\<exists>g'. vhost_hab_release f g = Some (0, g') \<and> vg_list g' = [x] \<and> vhost_hab_open c g' = None"
proof -
  define s where "s = (vg_drv g)\<lparr>st_devs := (st_devs (vg_drv g))[pc_habdev pc := (st_devs (vg_drv g) ! pc_habdev pc)
      \<lparr>dv_pchannels := remove1 p (dv_pchannels (st_devs (vg_drv g) ! pc_habdev pc)),
       dv_pchan_cnt := dv_pchan_cnt (st_devs (vg_drv g) ! pc_habdev pc) - 1\<rparr>],
    st_pchans := (st_pchans (vg_drv g))(p := None)\<rparr>"
  define g' where "g' = g\<lparr>vg_chan := (vg_chan g)(x \<mapsto> vp\<lparr>vp_tx := False, vp_rx := False\<rparr>),
    vg_drv := s, vg_list := [x], vg_dev := (vg_dev g)(f := None)\<rparr>"
  define s1 where "s1 = (vg_drv g)\<lparr>st_pchans := (st_pchans (vg_drv g))(p \<mapsto> pc\<lparr>pc_sequence_rx := 0, pc_sequence_tx := 0\<rparr>)\<rparr>"
  have put: "hab_pchan_put p s1 = Some s"
    using p by (simp add: hab_pchan_put_def hab_pchan_free_def mod_pchan_def mod_dev_def s_def s1_def)
  have "vhost_hab_release f g = Some (0, g')"
    using dev list x p(1) put
    by (simp add: vhost_hab_release_def vhost_hab_stop_def mod_chan_def mod_vdev_def vh_drv_def mod_pchan_def g'_def s1_def)
  moreover have "vhost_hab_open c g' = None"
    using cd x mem by (simp add: vhost_hab_open_def vh_alloc_def kalloc_def g'_def s_def)
  moreover have "vg_list g' = [x]" by (simp add: g'_def)
  ultimately show ?thesis by blast
qed

theorem vhost_open_after_release_faults_witness:
  "\<exists>g'. vhost_hab_release 2 (vhost_ex [] [2 \<mapsto> file_ex] (drv_ex\<lparr>st_pchans := [1 \<mapsto> pchan_ex\<lparr>pc_refcount := 1, pc_vchannels := []\<rparr>]\<rparr>)) =
     Some (0, g') \<and> vg_list g' = [1] \<and> vhost_hab_open 0 g' = None"
  using vhost_open_after_release_faults [of "vhost_ex [] [2 \<mapsto> file_ex] (drv_ex\<lparr>st_pchans := [1 \<mapsto> pchan_ex\<lparr>pc_refcount := 1, pc_vchannels := []\<rparr>]\<rparr>)"
      2 file_ex 1 0 cdev_ex 0 "replicate 25 None" vp_ex 1 "pchan_ex\<lparr>pc_refcount := 1, pc_vchannels := []\<rparr>"]
  by (simp add: vhost_ex_def file_ex_def cdev_ex_def vp_ex_def drv_ex_def pchan_ex_def)

section \<open>Creating a channel\<close>

text \<open>
  The error path of \<^verbatim>\<open>habhyp_commdev_alloc\<close>: without memory for the vhost part of a channel, the channel is
  put twice, the second time after the first put has freed it.
\<close>

lemma vhost_commdev_alloc_puts_twice:
  assumes "st_mem (vg_drv g) = False # True # ms" "d < length (st_devs (vg_drv g))"
  shows "vhost_commdev_alloc vmid d g = None"
  using assms
  by (simp add: vhost_commdev_alloc_def hab_pchan_alloc_def kalloc_def mod_dev_def vh_drv_def mod_pchan_def vh_alloc_def
      hab_pchan_put_def hab_pchan_free_def Let_def)

text \<open>A channel that is created waits on the global list, in one place.\<close>

lemma cdev_del_frame:
  "del_hab_device_from_cdev m i v h = Some h' \<Longrightarrow> vg_list h' = vg_list h \<and> vg_dev h' = vg_dev h \<and> vg_chan h' = vg_chan h \<and> vg_next h \<le> vg_next h'"
  by (auto simp: del_hab_device_from_cdev_def bind_eq_Some_conv Let_def split: option.splits if_splits)

lemma cdev_add_frame:
  "vhost_hab_cdev_add_hab_device d vmid g = Some (r, g') \<Longrightarrow> vg_list g' = vg_list g \<and> vg_dev g' = vg_dev g \<and>
     vg_chan g' = vg_chan g \<and> vg_next g \<le> vg_next g'"
proof -
  have get: "vg_list h' = vg_list h \<and> vg_dev h' = vg_dev h \<and> vg_chan h' = vg_chan h \<and> vg_next h \<le> vg_next h'"
    if run: "get_cdev i v h = Some (c, h')" for i v h c h'
  proof -
    from run obtain j where j: "cdev_slot i v = Some j" by (auto simp: get_cdev_def)
    show ?thesis
    proof (cases "vg_cdevs h ! j")
      case None
      obtain ok h1 where a: "vh_alloc h = (ok, h1)" by fastforce
      from run j None a vh_alloc_frame [OF a] show ?thesis
        by (auto simp: get_cdev_def vh_register_def Let_def split: if_splits list.splits prod.splits)
    qed (use run j in \<open>simp add: get_cdev_def\<close>)
  qed
  have add: "vg_list h' = vg_list h \<and> vg_dev h' = vg_dev h \<and> vg_chan h' = vg_chan h \<and> vg_next h \<le> vg_next h'"
    if "add_hab_device_to_cdev m i v h = Some (c, h')" for m i v h c h'
    using that by (auto simp: add_hab_device_to_cdev_def bind_eq_Some_conv Let_def dest!: get split: option.splits)
  assume "vhost_hab_cdev_add_hab_device d vmid g = Some (r, g')"
  then show ?thesis
    by (fastforce simp: vhost_hab_cdev_add_hab_device_def bind_eq_Some_conv dest!: add cdev_del_frame split: if_splits)
qed

lemma vh_drv_frame:
  "vh_drv f g = Some g' \<Longrightarrow> vg_list g' = vg_list g \<and> vg_dev g' = vg_dev g \<and> vg_chan g' = vg_chan g \<and> vg_next g' = vg_next g"
  by (auto simp: vh_drv_def bind_eq_Some_conv)

lemma commdev_alloc_owned:
  assumes run: "vhost_commdev_alloc vmid d g = Some (r, po, g')" and wf: "vh_owned g"
  shows "vh_owned g'"
proof -
  from run obtain pr s where a: "hab_pchan_alloc d vmid (vg_drv g) = Some (pr, s)"
    by (auto simp: vhost_commdev_alloc_def bind_eq_Some_conv)
  show ?thesis
  proof (cases pr)
    case None
    with run a wf show ?thesis by (auto simp: vhost_commdev_alloc_def)
  next
    case (Some p)
    with run a obtain g2 where g2: "vh_drv (mod_pchan p (\<lambda>pc. pc\<lparr>pc_closed := False, pc_otherend_closed := True, pc_is_be := True\<rparr>))
        (g\<lparr>vg_drv := s\<rparr>) = Some g2"
      by (auto simp: vhost_commdev_alloc_def bind_eq_Some_conv Let_def)
    obtain ok g3 where k: "vh_alloc g2 = (ok, g3)" by fastforce
    have wf3: "vh_owned g3" using wf vh_drv_frame [OF g2] vh_alloc_frame [OF k] by simp
    note run1 = run [unfolded vhost_commdev_alloc_def Let_def] a Some g2 k
    show ?thesis
    proof (cases ok)
      case False
      with run1 wf3 show ?thesis by (auto simp: bind_eq_Some_conv dest!: vh_drv_frame)
    next
      case True
      with run1 obtain ret g4 where c: "vhost_hab_cdev_add_hab_device d vmid g3 = Some (ret, g4)"
        by (auto simp: bind_eq_Some_conv)
      have wf4: "vh_owned g4" using cdev_add_frame [OF c] vh_own_more [OF wf3] by simp
      show ?thesis
      proof (cases "ret = 0")
        case False
        with run1 True c wf4 show ?thesis by (auto simp: bind_eq_Some_conv dest!: vh_drv_frame)
      next
        case ok: True
        with run1 True c obtain g5 where "vh_drv (mod_pchan p (\<lambda>pc. pc\<lparr>pc_hyp_data :=
            HypVhost \<lparr>vh_send_list = [], vh_out_iter = []\<rparr>\<rparr>)) g4 = Some g5"
          "g' = g5\<lparr>vg_next := vg_next g4 + 1, vg_list := vg_list g5 @ [vg_next g4], vg_chan := (vg_chan g5)(vg_next g4 \<mapsto>
            \<lparr>vp_pchan = Some p, vp_habdev = d, vp_tx = False, vp_rx = False, vp_tx_empty = False, vp_rx_empty = False\<rparr>)\<rparr>"
          by (auto simp: bind_eq_Some_conv)
        with vh_own_new [OF wf4] vh_drv_frame [OF this(1)] show ?thesis by simp
      qed
    qed
  qed
qed

lemma commdev_dealloc_owned:
  assumes run: "vhost_commdev_dealloc p g = Some (r, g')" and wf: "vh_owned g"
  shows "vh_owned g'"
proof -
  from run obtain dev m d v g1 g2 where g: "del_hab_device_from_cdev dev d v g = Some g1" "del_hab_device_from_cdev m d v g1 = Some g2"
    "vh_drv (hab_pchan_put p) g2 = Some g'"
    by (auto simp: vhost_commdev_dealloc_def vhost_hab_cdev_del_hab_device_def bind_eq_Some_conv)
  from cdev_del_frame [OF g(1)] cdev_del_frame [OF g(2)] vh_drv_frame [OF g(3)] vh_own_more [OF wf, of "vg_next g'"]
  show ?thesis by simp
qed

section \<open>Every operation\<close>

lemma mod_chan_owned: "mod_chan x h g = Some g' \<Longrightarrow> vh_owned g \<Longrightarrow> vh_owned g' \<and> vg_dev g' = vg_dev g"
  by (auto simp: mod_chan_def vh_own_chan split: option.splits)

lemma stop_vqs_owned: "stop_vqs xs g = Some g' \<Longrightarrow> vh_owned g \<Longrightarrow> vh_owned g' \<and> vg_dev g' = vg_dev g"
  by (induction xs arbitrary: g) (fastforce simp: bind_eq_Some_conv dest!: mod_chan_owned)+

lemma mod_vdev_owned:
  assumes "mod_vdev f h g = Some g'" "\<And>d. vd_pchans (h d) = vd_pchans d" "vh_owned g"
  shows "vh_owned g'"
proof -
  from assms(1) obtain d where d: "vg_dev g f = Some d" "g' = g\<lparr>vg_dev := (vg_dev g)(f \<mapsto> h d)\<rparr>"
    by (auto simp: mod_vdev_def split: option.splits)
  from vh_own_dev [OF assms(3) d(1) assms(2)] show ?thesis by (simp add: d(2))
qed

lemma stop_owned: "vhost_hab_stop f g = Some g' \<Longrightarrow> vh_owned g \<Longrightarrow> vh_owned g'"
  unfolding vhost_hab_stop_def bind_eq_Some_conv using mod_vdev_owned stop_vqs_owned
  by (metis (no_types, lifting) vhost_hab_dev.select_convs(4) vhost_hab_dev.surjective vhost_hab_dev.update_convs(2))

lemma release_vh_pchans_fields:
  "release_vh_pchans xs g = Some g' \<Longrightarrow> vg_list g' = vg_list g @ xs \<and> vg_dev g' = vg_dev g \<and> vg_chan g' = vg_chan g \<and>
     vg_next g' = vg_next g"
proof (induction xs arbitrary: g)
  case (Cons x xs)
  from Cons.prems obtain g1 where g1: "vg_list g1 = vg_list g \<and> vg_dev g1 = vg_dev g \<and> vg_chan g1 = vg_chan g \<and> vg_next g1 = vg_next g"
    "release_vh_pchans xs (g1\<lparr>vg_list := vg_list g1 @ [x]\<rparr>) = Some g'"
    by (auto simp: bind_eq_Some_conv split: option.splits dest!: vh_drv_frame)
  from Cons.IH [OF g1(2)] g1(1) show ?case by simp
qed simp

lemma release_owned:
  assumes run: "vhost_hab_release f g = Some (r, g')" and wf: "vh_owned g"
  shows "vh_owned g'"
proof -
  from run obtain g1 d g2 where g: "vhost_hab_stop f g = Some g1" "vg_dev g1 f = Some d"
    "release_vh_pchans (vd_pchans d) g1 = Some g2" "g' = g2\<lparr>vg_dev := (vg_dev g2)(f := None)\<rparr>"
    by (auto simp: vhost_hab_release_def bind_eq_Some_conv)
  from vh_own_close [OF stop_owned [OF g(1) wf] g(2)] release_vh_pchans_fields [OF g(3)] show ?thesis by (simp add: g(4))
qed

lemma start_vqs_owned: "start_vqs e qs r n g = Some (r', n', g') \<Longrightarrow> vh_owned g \<Longrightarrow> vh_owned g' \<and> vg_dev g' = vg_dev g"
proof (induction qs arbitrary: r n g)
  case (Cons q qs)
  then show ?case
    by (auto simp: bind_eq_Some_conv set_private_def split: if_splits dest!: mod_chan_owned)
qed simp

lemma run_owned:
  assumes run: "vhost_hab_run e f st g = Some (r, g')" and wf: "vh_owned g"
  shows "vh_owned g'"
proof -
  from run have "g' = g \<or> (\<exists>qs r1 n g1. start_vqs e qs 0 0 g = Some (r1, n, g1) \<and>
      (g' = g1 \<or> mod_vdev f (\<lambda>d. d\<lparr>vd_started := 1\<rparr>) g1 = Some g'))"
    unfolding vhost_hab_run_def by (auto simp: bind_eq_Some_conv split: if_splits)
  then show ?thesis
  proof (elim disjE exE conjE)
    fix qs r1 n g1
    assume s: "start_vqs e qs 0 0 g = Some (r1, n, g1)" and m: "mod_vdev f (\<lambda>d. d\<lparr>vd_started := 1\<rparr>) g1 = Some g'"
    have "vh_owned g1" using start_vqs_owned [OF s wf] by blast
    from mod_vdev_owned [OF m _ this] show ?thesis by simp
  next
    fix qs r1 n g1
    assume "start_vqs e qs 0 0 g = Some (r1, n, g1)" "g' = g1"
    with start_vqs_owned [OF this(1) wf] show ?thesis by blast
  qed (use wf in simp)
qed

lemma open_owned: "vhost_hab_open c g = Some (r, fo, g') \<Longrightarrow> vh_owned g \<Longrightarrow> vh_owned g'"
proof -
  assume run: "vhost_hab_open c g = Some (r, fo, g')" and wf: "vh_owned g"
  from run obtain cd where "vg_cdev g c = Some cd" by (auto simp: vhost_hab_open_def bind_eq_Some_conv)
  from vhost_open_takes [OF wf this run] show ?thesis by blast
qed

text \<open>What the system does with channels and device files, in any order; waiting for clients is not a step.\<close>

inductive vh_step :: "vhost_hab \<Rightarrow> vhost_hab \<Rightarrow> bool" where
  create: "vhost_commdev_alloc vmid d g = Some (r, po, g') \<Longrightarrow> vh_step g g'"
| remove: "vhost_commdev_dealloc p g = Some (r, g') \<Longrightarrow> vh_step g g'"
| open_file: "vhost_hab_open c g = Some (r, fo, g') \<Longrightarrow> vh_step g g'"
| start: "vhost_hab_run e f st g = Some (r, g') \<Longrightarrow> vh_step g g'"
| stop: "vhost_hab_stop f g = Some g' \<Longrightarrow> vh_step g g'"
| release: "vhost_hab_release f g = Some (r, g') \<Longrightarrow> vh_step g g'"
| driver: "vh_drv h g = Some g' \<Longrightarrow> vh_step g g'"

lemma vh_step_owned: "vh_step g g' \<Longrightarrow> vh_owned g \<Longrightarrow> vh_owned g'"
  by (induction rule: vh_step.induct)
    (use commdev_alloc_owned commdev_dealloc_owned open_owned run_owned stop_owned release_owned vh_drv_frame in \<open>fastforce+\<close>)

text \<open>\<open>g_vh\<close> after \<^verbatim>\<open>hab_hypervisor_register\<close>.\<close>

definition vh_register_state :: "hab_driver \<Rightarrow> bool list \<Rightarrow> vhost_hab" where
  "vh_register_state s k = \<lparr>vg_cdevs = replicate ((HABCFG_MMID_AREA_MAX + 1) * HABCFG_VMID_MAX) None, vg_list = [],
     vg_cdev = Map.empty, vg_chan = Map.empty, vg_dev = Map.empty, vg_next = 0, vg_kern = k, vg_drv = s\<rparr>"

text \<open>
  C24. Every vhost channel is in exactly one place.  From the state the module starts in, and in every order
  of creating and removing channels, opening, starting, stopping and releasing device files, with the
  driver doing anything in between and any allocation or registration failing: each channel that was
  created is on the global list or with an open file, so none is lost, it is there once, it is not in
  both, and no two open files share one.
\<close>
theorem vhost_channels_in_one_place:
  assumes "vh_step\<^sup>*\<^sup>* (vh_register_state s k) g"
  shows "distinct (vg_list g) \<and>
    (\<forall>f d. vg_dev g f = Some d \<longrightarrow> distinct (vd_pchans d) \<and> set (vd_pchans d) \<inter> set (vg_list g) = {}) \<and>
    (\<forall>f f' d d'. vg_dev g f = Some d \<longrightarrow> vg_dev g f' = Some d' \<longrightarrow> f \<noteq> f' \<longrightarrow>
       set (vd_pchans d) \<inter> set (vd_pchans d') = {}) \<and>
    (\<forall>x. vg_chan g x \<noteq> None \<longrightarrow> x \<in> set (vg_list g) \<or> (\<exists>f d. vg_dev g f = Some d \<and> x \<in> set (vd_pchans d)))"
proof -
  have "vh_owned (vh_register_state s k)" by (simp add: vh_own_def vh_register_state_def)
  with assms have "vh_owned g" by (induction rule: rtranclp_induct) (auto dest: vh_step_owned)
  from vh_ownD [OF this] show ?thesis by blast
qed

lemma free_slot_replicate: "free_slot (replicate n None) = 0"
  by (cases n) simp_all

theorem vhost_channels_in_one_place_witness:
  "\<exists>g. vh_step\<^sup>*\<^sup>* (vh_register_state drv_ex []) g \<and> vg_list g = [2] \<and> distinct (vg_list g)"
proof -
  have "done_create (vhost_commdev_alloc 2 0 (vh_register_state drv_ex []))" if "done_create = (\<lambda>m. \<exists>g. m = Some (0, Some 10, g) \<and> vg_list g = [2])" for done_create
    unfolding that
    by (simp add: vhost_commdev_alloc_def vh_register_state_def drv_ex_def hab_pchan_alloc_def kalloc_def mod_dev_def
        vh_drv_def mod_pchan_def vh_alloc_def vhost_hab_cdev_add_hab_device_def add_hab_device_to_cdev_def get_cdev_def
        cdev_slot_def vh_register_def get_dev_def dev_ex_def free_slot_replicate Let_def)
  then obtain g where g: "vhost_commdev_alloc 2 0 (vh_register_state drv_ex []) = Some (0, Some 10, g)" "vg_list g = [2]" by blast
  have "vh_step\<^sup>*\<^sup>* (vh_register_state drv_ex []) g" by (rule r_into_rtranclp) (rule vh_step.create [OF g(1)])
  with vhost_channels_in_one_place [OF this] g(2) show ?thesis by blast
qed

end
