(* ===== verification/Hab_Virtio.thy ===== *)
theory Hab_Virtio
  imports Hab_Vhost
begin

text \<open>
  The guest's side of the virtqueues, \<^verbatim>\<open>hypervisor/virtio/hab_virtio.c\<close>: the pools of message buffers of a
  channel, sending and receiving.

  The virtio core is not part of the repository: which buffers it returns and when, and the results of
  adding one, are arguments.  Sizes are those of a 64-bit machine; fresh pool memory, which the code does
  not initialise, is zero.
\<close>

section \<open>Pools\<close>

datatype pool_type = PT_OUT_SMALL | PT_OUT_MEDIUM | PT_OUT_LARGE | PT_IN

abbreviation (input) GUARD_BAND_SZ :: nat where "GUARD_BAND_SZ \<equiv> 20"
abbreviation (input) vh_buf_header_size :: nat where "vh_buf_header_size \<equiv> 64"

fun pool_buf_size :: "pool_type \<Rightarrow> nat" where
  "pool_buf_size PT_OUT_SMALL = 512"
| "pool_buf_size PT_OUT_MEDIUM = 5120"
| "pool_buf_size PT_OUT_LARGE = 51200"
| "pool_buf_size PT_IN = 5120"

fun pool_buf_num :: "pool_type \<Rightarrow> nat" where
  "pool_buf_num PT_OUT_SMALL = 200"
| "pool_buf_num PT_OUT_MEDIUM = 100"
| "pool_buf_num PT_OUT_LARGE = 10"
| "pool_buf_num PT_IN = 100"

definition pool_slot :: "pool_type \<Rightarrow> nat" where
  "pool_slot t = GUARD_BAND_SZ + vh_buf_header_size + pool_buf_size t"

definition pool_size :: "pool_type \<Rightarrow> nat" where
  "pool_size t = pool_slot t * pool_buf_num t"

text \<open>A buffer header; \<open>vb_buf\<close> is the offset of the buffer in its pool.\<close>

record vh_buf =
  vb_buf :: nat
  vb_size :: nat
  vb_type :: pool_type
  vb_index :: nat
  vb_payload_size :: nat

text \<open>
  A channel's part of a virtio device.  \<open>vq_list\<close>, \<open>vq_cnt\<close> and \<open>vq_pool\<close> are the lists, counters and
  memories of the four pools; \<open>vq_tx\<close> and \<open>vq_rx\<close> the buffers the device has.
\<close>

record vq_pchan =
  vq_list :: "pool_type \<Rightarrow> vh_buf list"
  vq_cnt :: "pool_type \<Rightarrow> int"
  vq_pool :: "pool_type \<Rightarrow> bytes"
  vq_tx :: "vh_buf list"
  vq_rx :: "vh_buf list"
  vq_read_data :: "bytes option"
  vq_read_size :: nat
  vq_read_offset :: nat
  vq_ready :: bool

fun init_pool_list :: "pool_type \<Rightarrow> nat \<Rightarrow> nat \<Rightarrow> nat \<Rightarrow> vh_buf list" where
  "init_pool_list t p i 0 = []"
| "init_pool_list t p i (Suc n) =
     (let b = p + GUARD_BAND_SZ + vh_buf_header_size in
      \<lparr>vb_buf = b, vb_size = pool_buf_size t, vb_type = t, vb_index = i, vb_payload_size = 0\<rparr> #
      init_pool_list t (b + pool_buf_size t) (Suc i) n)"

text \<open>
  Queueing the buffers for the device; an answer of \<open>False\<close> is a failed \<^verbatim>\<open>virtqueue_add_inbuf\<close>, after which
  the buffer is in no list any more.
\<close>

fun add_inbufs :: "bool list \<Rightarrow> vh_buf list \<Rightarrow> vq_pchan \<Rightarrow> vq_pchan" where
  "add_inbufs oks [] v = v"
| "add_inbufs oks (b # bs) v =
     add_inbufs (tl oks) bs
       (v\<lparr>vq_list := (vq_list v)(PT_IN := remove1 b (vq_list v PT_IN)),
          vq_rx := (if oks = [] \<or> hd oks then vq_rx v @ [b] else vq_rx v),
          vq_cnt := (vq_cnt v)(PT_IN := vq_cnt v PT_IN - 1)\<rparr>)"

definition alloc_pools :: "vq_pchan \<Rightarrow> vq_pchan" where
  "alloc_pools v = v\<lparr>vq_list := (\<lambda>t. init_pool_list t 0 0 (pool_buf_num t)),
     vq_cnt := (\<lambda>t. int (pool_buf_num t)), vq_pool := (\<lambda>t. replicate (pool_size t) 0)\<rparr>"

text \<open>\<open>mem\<close>: do the four allocations succeed.  The result is an error or the channel.\<close>

definition virthab_queue_inbufs :: "bool \<Rightarrow> bool \<Rightarrow> bool list \<Rightarrow> vq_pchan \<Rightarrow> int \<times> vq_pchan" where
  "virthab_queue_inbufs alloc mem oks v =
     (if alloc \<and> \<not> mem then (- ENOMEM, v\<lparr>vq_cnt := (\<lambda>t. 0)\<rparr>)
      else let v1 = (if alloc then alloc_pools v else v) in (0, add_inbufs oks (vq_list v1 PT_IN) v1))"

section \<open>Sending\<close>

text \<open>Buffers the device is done with go back to the pool they are from.\<close>

fun return_bufs :: "vh_buf list \<Rightarrow> vq_pchan \<Rightarrow> vq_pchan" where
  "return_bufs [] v = v"
| "return_bufs (b # bs) v =
     (let b1 = b\<lparr>vb_payload_size := 0\<rparr>; t = vb_type b; v1 = v\<lparr>vq_tx := remove1 b (vq_tx v)\<rparr> in
      return_bufs bs
        (if t = PT_IN then v1
         else v1\<lparr>vq_list := (vq_list v)(t := vq_list v t @ [b1]), vq_cnt := (vq_cnt v)(t := vq_cnt v t + 1)\<rparr>))"

definition virthab_recv_txq :: "vh_buf list \<Rightarrow> vq_pchan \<Rightarrow> vq_pchan" where
  "virthab_recv_txq bs v = (if vq_ready v then return_bufs bs v else v)"

text \<open>
  The first buffer of a pool; while there is none, the thread waits for buffers to come back.  The
  schedule lists the buffers each callback returns; when it ends the thread still waits.
\<close>

fun get_vh_buf_header ::
  "pool_type \<Rightarrow> vh_buf list list \<Rightarrow> vq_pchan \<Rightarrow> (vh_buf \<times> vh_buf list list \<times> vq_pchan) option" where
  "get_vh_buf_header t w v = (case vq_list v t of
      b # bs \<Rightarrow> Some (b, w, v\<lparr>vq_list := (vq_list v)(t := bs), vq_cnt := (vq_cnt v)(t := vq_cnt v t - 1)\<rparr>)
    | [] \<Rightarrow> (case w of [] \<Rightarrow> None | ev # w1 \<Rightarrow> get_vh_buf_header t w1 (virthab_recv_txq ev v)))"

declare get_vh_buf_header.simps [simp del]

text \<open>The pool for a size; the medium one is compared with its number of buffers.\<close>

definition out_pool :: "nat \<Rightarrow> pool_type" where
  "out_pool sizebytes =
     (if sizebytes \<le> pool_buf_size PT_OUT_SMALL then PT_OUT_SMALL
      else if sizebytes \<le> pool_buf_num PT_OUT_MEDIUM then PT_OUT_MEDIUM
      else PT_OUT_LARGE)"

definition pool_write :: "nat \<Rightarrow> bytes \<Rightarrow> bytes \<Rightarrow> bytes option" where
  "pool_write off bs m =
     (if off + length bs \<le> length m then Some (take off m @ bs @ drop (off + length bs) m) else None)"

record virtio_pchan_link =
  vl_mmid :: u32
  vl_vpc :: "vq_pchan option"
  vl_sequence_tx :: u32

datatype virtio_run = VReturn int "vh_buf list list" virtio_pchan_link | VWait

definition virtio_stamp :: "hab_header \<Rightarrow> int \<times> int \<Rightarrow> bytes \<Rightarrow> bytes option" where
  "virtio_stamp header now b =
     (if HAB_HEADER_GET_TYPE header = payload_code HAB_PAYLOAD_TYPE_PROFILE then do {
        b1 \<leftarrow> patch64 0 (of_int (fst now)) b;
        patch64 8 (of_int (snd now div 1000)) b1
      } else Some b)"

text \<open>
  \<open>added\<close> is the answer of \<^verbatim>\<open>virtqueue_add_outbuf\<close>, 0 on success.  Whatever it is, and also when the
  channel is not ready, the result is 0.
\<close>

definition virtio_send ::
  "hab_header \<Rightarrow> bytes option \<Rightarrow> int \<times> int \<Rightarrow> int \<Rightarrow> vh_buf list list \<Rightarrow> virtio_pchan_link \<Rightarrow> virtio_run option"
where
  "virtio_send header payload now added w link = (let sizebytes = unat (HAB_HEADER_GET_SIZE header) in
     case vl_vpc link of
       None \<Rightarrow> Some (VReturn (- ENODEV) w link)
     | Some v \<Rightarrow>
         if pool_buf_size PT_OUT_LARGE < sizebytes then Some (VReturn (- EINVAL) w link)
         else if \<not> vq_ready v then Some (VReturn 0 w link)
         else (case get_vh_buf_header (out_pool sizebytes) w v of
             None \<Rightarrow> Some VWait
           | Some (b, w1, v1) \<Rightarrow> do {
               p \<leftarrow> payload_bytes sizebytes payload;
               p1 \<leftarrow> virtio_stamp header now p;
               let n = vl_sequence_tx link + 1;
               m \<leftarrow> pool_write (vb_buf b) (node_bytes (rx_number n header, p1)) (vq_pool v1 (vb_type b));
               let b1 = b\<lparr>vb_payload_size := sizebytes\<rparr>;
               let v2 = v1\<lparr>vq_pool := (vq_pool v1)(vb_type b := m),
                           vq_tx := (if added = 0 then vq_tx v1 @ [b1] else vq_tx v1)\<rparr>;
               Some (VReturn 0 w1 (link\<lparr>vl_vpc := Some v2, vl_sequence_tx := n\<rparr>))
             }))"

text \<open>What the device reads for a buffer it was given.\<close>

definition tx_frame :: "vq_pchan \<Rightarrow> vh_buf \<Rightarrow> bytes" where
  "tx_frame v b = take (header_size + vb_payload_size b) (drop (vb_buf b) (vq_pool v (vb_type b)))"

section \<open>Receiving\<close>

text \<open>
  \<^verbatim>\<open>physical_channel_read\<close>: the size is cut to what the buffer has left, computed as a \<^verbatim>\<open>size_t\<close>; a buffer
  shorter than what was read already makes it wrap around, and the copy runs out of the buffer.
\<close>

definition virtio_read :: "nat \<Rightarrow> vq_pchan \<Rightarrow> (int \<times> bytes \<times> vq_pchan) option" where
  "virtio_read read_size v = (case vq_read_data v of
      None \<Rightarrow> Some (0, [], v)
    | Some d \<Rightarrow>
        let n = (if vq_read_size v < read_size + header_size + vq_read_offset v
                 then to_size_t (int (vq_read_size v) - int (vq_read_offset v) - int header_size) else read_size);
            off = header_size + vq_read_offset v in
        if off + n \<le> length d
        then Some (int n, take n (drop off d), v\<lparr>vq_read_offset := vq_read_offset v + n\<rparr>)
        else None)"

text \<open>
  What is left to read of the buffer.  The driver core reads a message through the iterator of its
  channel; \<open>Hab_Virtio_Facts\<close> shows that reading by the cursor is reading by this iterator.
\<close>

definition virtio_iter :: "vq_pchan \<Rightarrow> bytes" where
  "virtio_iter v = (case vq_read_data v of
      None \<Rightarrow> [] | Some d \<Rightarrow> drop (header_size + vq_read_offset v) (take (vq_read_size v) d))"

text \<open>A filled buffer: its header, the length the device reports, its contents, and whether giving it back
  succeeds.\<close>

record rx_event =
  rv_buf :: vh_buf
  rv_len :: nat
  rv_data :: bytes
  rv_add :: bool

definition inbuf_ok :: "vh_buf \<Rightarrow> bool" where
  "inbuf_ok b \<longleftrightarrow> \<not> pool_buf_num PT_IN < vb_index b \<and> vb_type b = PT_IN \<and> vb_size b = pool_buf_size PT_IN"

definition rx_take_buf :: "rx_event \<Rightarrow> vq_pchan \<Rightarrow> vq_pchan" where
  "rx_take_buf e v = v\<lparr>vq_rx := remove1 (rv_buf e) (vq_rx v), vq_cnt := (vq_cnt v)(PT_IN := vq_cnt v PT_IN - 1)\<rparr>"

definition rx_open_buf :: "rx_event \<Rightarrow> vq_pchan \<Rightarrow> vq_pchan" where
  "rx_open_buf e v = v\<lparr>vq_read_data := Some (rv_data e), vq_read_size := rv_len e, vq_read_offset := 0\<rparr>"

definition rx_return_buf :: "rx_event \<Rightarrow> vq_pchan \<Rightarrow> vq_pchan" where
  "rx_return_buf e v = (if vq_ready v
     then v\<lparr>vq_rx := (if rv_add e then vq_rx v @ [(rv_buf e)\<lparr>vb_payload_size := 0\<rparr>] else vq_rx v),
            vq_cnt := (vq_cnt v)(PT_IN := vq_cnt v PT_IN + 1)\<rparr>
     else v)"

text \<open>
  The receive callback.  A buffer that is not one of the channel's ends the loop.  A length that does not
  cover the header is the fault that reading such a buffer is.
\<close>

fun virthab_recv_rxq ::
  "nat option \<Rightarrow> rx_event list \<Rightarrow> vq_pchan \<Rightarrow> hab_driver \<Rightarrow> (vq_pchan \<times> hab_driver) option" where
  "virthab_recv_rxq po [] v s = Some (v, s)"
| "virthab_recv_rxq po (e # es) v s =
     (let v1 = rx_take_buf e v in
      if \<not> inbuf_ok (rv_buf e) then Some (v1, s)
      else let v2 = rx_open_buf e v1; h = dec_header (rv_data e) in do {
        s3 \<leftarrow> (case po of
            None \<Rightarrow> Some s
          | Some p \<Rightarrow>
              if rv_len e < header_size \<or> length (rv_data e) < rv_len e then None
              else do {
                s1 \<leftarrow> set_out_iter p (virtio_iter v2) s;
                (r, s2) \<leftarrow> hab_msg_recv p h s1;
                mod_pchan p (\<lambda>pc. pc\<lparr>pc_sequence_rx := hh_sequence h\<rparr>) s2
              });
        virthab_recv_rxq po es (rx_return_buf e v2) s3
      })"

section \<open>Channels of the guest\<close>

text \<open>
  \<^verbatim>\<open>habvirtio_pchan_create\<close>: without memory for the link, the channel is freed while the device still lists
  it.  The link is the channel's transport data.
\<close>

definition habvirtio_pchan_create :: "nat \<Rightarrow> hab_driver \<Rightarrow> (int \<times> nat option \<times> hab_driver) option" where
  "habvirtio_pchan_create dev s = do {
     (r, s1) \<leftarrow> hab_pchan_alloc dev 0xFF s;
     (case r of
        None \<Rightarrow> Some (- ENOMEM, None, s1)
      | Some p \<Rightarrow> do {
          s2 \<leftarrow> mod_pchan p (\<lambda>pc. pc\<lparr>pc_closed := False\<rparr>) s1;
          (case kalloc s2 of (ok, s3) \<Rightarrow>
            if ok then do {
              s4 \<leftarrow> mod_pchan p (\<lambda>pc. pc\<lparr>pc_hyp_data := HypVhost \<lparr>vh_send_list = [], vh_out_iter = []\<rparr>\<rparr>) s3;
              Some (0, Some p, s4)
            } else Some (- ENOMEM, None, s3\<lparr>st_pchans := (st_pchans s3)(p := None)\<rparr>))
        })
   }"

end
