(* ===== verification/Hab_Virtio_Facts.thy ===== *)
theory Hab_Virtio_Facts
  imports Hab_Virtio Hab_Vhost_Rx "HOL-Library.Multiset"
begin

text \<open>
  The guest's end of the virtqueues: reading a buffer by its cursor is reading its iterator, and the
  buffers of the pools carry the messages that were sent, whatever order they come back in.
\<close>

section \<open>Reading\<close>

text \<open>A buffer whose reported length covers the header and lies in the buffer.\<close>

definition read_ok :: "vq_pchan \<Rightarrow> bool" where
  "read_ok v \<longleftrightarrow> (case vq_read_data v of None \<Rightarrow> True
    | Some d \<Rightarrow> header_size + vq_read_offset v \<le> vq_read_size v \<and> vq_read_size v \<le> length d \<and> length d < 2 ^ 63)"

text \<open>
  C27. The cursor of \<^verbatim>\<open>physical_channel_read\<close> implements the iterator of the channel: a read returns, and
  counts, what the iterator has next, at most the size asked for, and leaves the rest; the cursor stays
  within the length the device reported.
\<close>
theorem virtio_read_refines:
  assumes ok: "read_ok v"
  shows "\<exists>v'. virtio_read n v = Some (int (length (take n (virtio_iter v))), take n (virtio_iter v), v') \<and>
    virtio_iter v' = drop n (virtio_iter v) \<and> read_ok v'"
proof (cases "vq_read_data v")
  case (Some d)
  let ?off = "header_size + vq_read_offset v"
  from ok Some have b: "?off \<le> vq_read_size v" "vq_read_size v \<le> length d" "length d < 2 ^ 63"
    by (simp_all add: read_ok_def)
  define k where "k = min n (vq_read_size v - ?off)"
  have iter: "virtio_iter v = drop ?off (take (vq_read_size v) d)" using Some by (simp add: virtio_iter_def)
  have k: "(if vq_read_size v < n + header_size + vq_read_offset v
      then to_size_t (int (vq_read_size v) - int (vq_read_offset v) - int header_size) else n) = k"
    using b by (auto simp: k_def to_size_t_nonneg)
  have len: "length (take n (virtio_iter v)) = k" using b by (simp add: iter k_def)
  have "?off + k \<le> vq_read_size v" using b by (simp add: k_def)
  then have tk: "take n (virtio_iter v) = take k (drop ?off d)"
    using b by (auto simp: iter k_def drop_take min_def)
  have dr: "drop n (virtio_iter v) = drop (?off + k) (take (vq_read_size v) d)"
    using b by (auto simp: iter k_def min_def add.commute)
  have "virtio_read n v = Some (int k, take n (virtio_iter v), v\<lparr>vq_read_offset := vq_read_offset v + k\<rparr>)"
    using Some \<open>?off + k \<le> vq_read_size v\<close> b k unfolding tk by (simp add: virtio_read_def Let_def)
  moreover have "virtio_iter (v\<lparr>vq_read_offset := vq_read_offset v + k\<rparr>) = drop n (virtio_iter v)"
    unfolding dr using Some by (simp add: virtio_iter_def ac_simps)
  moreover have "read_ok (v\<lparr>vq_read_offset := vq_read_offset v + k\<rparr>)"
    using Some b \<open>?off + k \<le> vq_read_size v\<close> by (simp add: read_ok_def)
  ultimately show ?thesis unfolding len by blast
qed (simp add: virtio_read_def virtio_iter_def read_ok_def)

text \<open>
  The length a device reports is trusted: for a buffer whose length does not cover the header, the
  size that is left wraps around, and the read of a payload runs out of the buffer.
\<close>
theorem virtio_short_length_faults:
  assumes "vq_read_data v = Some d" "length d < 2 ^ 63" "vq_read_size v < header_size" "vq_read_offset v = 0"
  shows "virtio_read n v = None"
proof -
  have "(int (vq_read_size v) - 20) mod 2 ^ 64 = (int (vq_read_size v) - 20 + 2 ^ 64) mod (2 ^ 64 :: int)"
    by (rule mod_add_self2 [symmetric])
  also have "\<dots> = int (vq_read_size v) - 20 + 2 ^ 64" using assms(3) by (intro mod_pos_pos_trivial) simp_all
  finally have "to_size_t (int (vq_read_size v) - int header_size) = vq_read_size v + 2 ^ 64 - header_size"
    by (simp add: to_size_t_def nat_eq_iff)
  then show ?thesis using assms by (simp add: virtio_read_def Let_def)
qed

section \<open>Pools\<close>

definition slot_ok :: "vh_buf \<Rightarrow> bool" where
  "slot_ok b \<longleftrightarrow> vb_type b \<noteq> PT_IN \<and> vb_size b = pool_buf_size (vb_type b) \<and>
     vb_index b < pool_buf_num (vb_type b) \<and> vb_payload_size b \<le> pool_buf_size (vb_type b) \<and>
     vb_buf b = vb_index b * pool_slot (vb_type b) + (GUARD_BAND_SZ + vh_buf_header_size)"

definition vb_key :: "vh_buf \<Rightarrow> pool_type \<times> nat" where
  "vb_key b = (vb_type b, vb_index b)"

text \<open>The send buffers of a channel: free ones and those the device has.\<close>

definition out_keys :: "vq_pchan \<Rightarrow> (pool_type \<times> nat) list" where
  "out_keys v = map vb_key (vq_list v PT_OUT_SMALL @ vq_list v PT_OUT_MEDIUM @ vq_list v PT_OUT_LARGE @ vq_tx v)"

definition pools_ok :: "vq_pchan \<Rightarrow> bool" where
  "pools_ok v \<longleftrightarrow> (\<forall>t. t \<noteq> PT_IN \<longrightarrow> (\<forall>b \<in> set (vq_list v t). slot_ok b \<and> vb_type b = t)) \<and>
     (\<forall>b \<in> set (vq_tx v). slot_ok b) \<and> distinct (out_keys v) \<and> (\<forall>t. length (vq_pool v t) = pool_size t)"

lemma pool_typeE:
  obtains "t = PT_OUT_SMALL" | "t = PT_OUT_MEDIUM" | "t = PT_OUT_LARGE" | "t = PT_IN"
  by (cases t)

lemma init_pool_list_eq:
  "init_pool_list t p i n = map (\<lambda>j. \<lparr>vb_buf = p + j * pool_slot t + (GUARD_BAND_SZ + vh_buf_header_size),
      vb_size = pool_buf_size t, vb_type = t, vb_index = i + j, vb_payload_size = 0\<rparr>) [0..<n]"
proof (induction n arbitrary: p i)
  case (Suc n)
  show ?case
    by (simp add: Suc.IH upt_conv_Cons map_Suc_upt [symmetric] pool_slot_def Let_def del: upt_Suc)
qed simp

lemma alloc_pools_ok:
  assumes "vq_tx v = []" shows "pools_ok (alloc_pools v)"
proof -
  have "distinct (out_keys (alloc_pools v))"
    using assms by (simp add: out_keys_def alloc_pools_def init_pool_list_eq comp_def vb_key_def distinct_map
        inj_on_def) auto
  then show ?thesis
    using assms by (auto simp: pools_ok_def alloc_pools_def init_pool_list_eq slot_ok_def)
qed

text \<open>Buffers do not overlap, not even with the header in front of a full payload.\<close>

definition frame_end :: "vh_buf \<Rightarrow> nat" where
  "frame_end b = vb_buf b + header_size + pool_buf_size (vb_type b)"

lemma slots_apart:
  assumes "slot_ok b" "slot_ok c" "vb_type b = vb_type c" "vb_index b < vb_index c"
  shows "frame_end b \<le> vb_buf c"
  using assms by (cases "vb_type c" rule: pool_typeE) (simp_all add: slot_ok_def frame_end_def pool_slot_def)

lemma slots_cases:
  assumes "slot_ok b" "slot_ok c" "vb_type b = vb_type c" "vb_key b \<noteq> vb_key c"
  shows "frame_end b \<le> vb_buf c \<or> frame_end c \<le> vb_buf b"
proof -
  have "vb_index b < vb_index c \<or> vb_index c < vb_index b" using assms(3,4) by (auto simp: vb_key_def)
  then show ?thesis using assms slots_apart [of b c] slots_apart [of c b] by auto
qed

lemma pool_write_read:
  assumes "pool_write off bs m = Some m'"
  shows "take (length bs) (drop off m') = bs" "length m' = length m"
    "k + l \<le> off \<or> off + length bs \<le> k \<Longrightarrow> take l (drop k m') = take l (drop k m)"
proof -
  from assms have m: "off + length bs \<le> length m" "m' = take off m @ bs @ drop (off + length bs) m"
    by (auto simp: pool_write_def split: if_splits)
  show "take (length bs) (drop off m') = bs" "length m' = length m" using m by simp_all
  assume "k + l \<le> off \<or> off + length bs \<le> k"
  then show "take l (drop k m') = take l (drop k m)"
  proof
    assume "k + l \<le> off"
    then show ?thesis using m by (intro nth_equalityI) (auto simp: nth_append)
  next
    assume "off + length bs \<le> k"
    then show ?thesis using m by (intro nth_equalityI) (auto simp: nth_append)
  qed
qed

lemma out_pool_room: "n \<le> pool_buf_size PT_OUT_LARGE \<Longrightarrow> n \<le> pool_buf_size (out_pool n)" "out_pool n \<noteq> PT_IN"
  by (auto simp: out_pool_def)

text \<open>A message of 493 to 512 bytes, or one of more than 51180, does not fit behind its header; in the
  last buffer of the pool it runs out of the pool.\<close>

definition fits :: "vh_buf \<Rightarrow> nat \<Rightarrow> bool" where
  "fits b n \<longleftrightarrow> header_size + n \<le> pool_buf_size (vb_type b) \<or> Suc (vb_index b) < pool_buf_num (vb_type b)"

lemma fits_pool:
  assumes "slot_ok b" "n \<le> pool_buf_size (vb_type b)"
  shows "vb_buf b + (header_size + n) \<le> pool_size (vb_type b) \<longleftrightarrow> fits b n"
  using assms by (cases "vb_type b" rule: pool_typeE) (auto simp: slot_ok_def fits_def pool_size_def pool_slot_def)

section \<open>Sending\<close>

text \<open>Taking the first free buffer and giving it to the device.\<close>

definition take_buf :: "pool_type \<Rightarrow> vh_buf list \<Rightarrow> vq_pchan \<Rightarrow> vq_pchan" where
  "take_buf t bs v = v\<lparr>vq_list := (vq_list v)(t := bs), vq_cnt := (vq_cnt v)(t := vq_cnt v t - 1)\<rparr>"

lemma out_keys_take:
  assumes "vq_list v t = b # bs" "t \<noteq> PT_IN"
  shows "mset (vb_key b # out_keys (take_buf t bs v)) = mset (out_keys v)"
  using assms by (cases t rule: pool_typeE) (simp_all add: out_keys_def take_buf_def)

lemma out_keys_tx:
  "mset (out_keys (v\<lparr>vq_pool := P, vq_tx := vq_tx v @ [b]\<rparr>)) = mset (vb_key b # out_keys v)"
  "out_keys (v\<lparr>vq_pool := P, vq_tx := vq_tx v\<rparr>) = out_keys v"
  by (simp_all add: out_keys_def)

lemma get_first_buf: "vq_list v t = b # bs \<Longrightarrow> get_vh_buf_header t w v = Some (b, w, take_buf t bs v)"
  by (simp add: get_vh_buf_header.simps take_buf_def)

text \<open>What a send with a free buffer leaves: the message in the buffer, the buffer with the device.\<close>

definition sent_buf :: "vh_buf \<Rightarrow> nat \<Rightarrow> vh_buf" where
  "sent_buf b n = b\<lparr>vb_payload_size := n\<rparr>"

definition sent_vq :: "int \<Rightarrow> nat \<Rightarrow> pool_type \<Rightarrow> vh_buf \<Rightarrow> vh_buf list \<Rightarrow> bytes \<Rightarrow> vq_pchan \<Rightarrow> vq_pchan" where
  "sent_vq added n t b bs m v = (let v1 = take_buf t bs v in
     v1\<lparr>vq_pool := (vq_pool v1)(vb_type b := m),
        vq_tx := (if added = 0 then vq_tx v1 @ [sent_buf b n] else vq_tx v1)\<rparr>)"

lemma virtio_send_eq:
  assumes v: "vl_vpc link = Some v" "vq_ready v" and n: "unat (HAB_HEADER_GET_SIZE h) = n" "n \<le> 51200" "n \<le> length pl"
    and ty: "HAB_HEADER_GET_TYPE h \<noteq> payload_code HAB_PAYLOAD_TYPE_PROFILE"
    and l: "vq_list v (out_pool n) = b # bs"
  shows "virtio_send h (Some pl) now added w link = do {
      m \<leftarrow> pool_write (vb_buf b) (node_bytes (rx_number (vl_sequence_tx link + 1) h, take n pl)) (vq_pool v (vb_type b));
      Some (VReturn 0 w (link\<lparr>vl_vpc := Some (sent_vq added n (out_pool n) b bs m v),
        vl_sequence_tx := vl_sequence_tx link + 1\<rparr>)) }"
proof -
  have "payload_bytes n (Some pl) = Some (take n pl)" using n by (simp add: payload_bytes_def)
  then show ?thesis
    using v n(1,2) ty unfolding virtio_send_def
    by (simp add: get_first_buf [OF l] virtio_stamp_def take_buf_def sent_vq_def sent_buf_def Let_def)
qed

lemma node_frame_length:
  "unat (HAB_HEADER_GET_SIZE h) = n \<Longrightarrow> n \<le> length pl \<Longrightarrow>
     length (node_bytes (rx_number k h, take n pl)) = header_size + n"
  by (simp add: node_bytes_def enc_header_def)

lemma sent_vq_facts:
  assumes ok: "pools_ok v" and t: "vq_list v t = b # bs" "t \<noteq> PT_IN" and n: "n \<le> pool_buf_size t"
    and m: "pool_write (vb_buf b) fr (vq_pool v t) = Some m" and fr: "length fr = header_size + n"
  shows "pools_ok (sent_vq added n t b bs m v)"
    and "added = 0 \<Longrightarrow> mset (out_keys (sent_vq added n t b bs m v)) = mset (out_keys v)"
    and "length (out_keys (sent_vq added n t b bs m v)) + (if added = 0 then 0 else 1) = length (out_keys v)"
    and "tx_frame (sent_vq added n t b bs m v) (sent_buf b n) = fr"
    and "c \<in> set (vq_tx v) \<Longrightarrow> tx_frame (sent_vq added n t b bs m v) c = tx_frame v c"
proof -
  have b: "slot_ok b" "vb_type b = t" using ok t(2) t(1) [THEN arg_cong, of set] by (auto simp: pools_ok_def)
  note w = pool_write_read [OF m]
  let ?v = "sent_vq added n t b bs m v"
  have sent: "slot_ok (sent_buf b n)" "vb_key (sent_buf b n) = vb_key b"
    using b n by (simp_all add: slot_ok_def sent_buf_def vb_key_def)
  have tk: "mset (vb_key b # out_keys (take_buf t bs v)) = mset (out_keys v)" by (rule out_keys_take [OF t])
  have keys: "mset (out_keys ?v) = (if added = 0 then mset (out_keys v) else mset (out_keys (take_buf t bs v)))"
    using tk sent(2) out_keys_tx [of "take_buf t bs v"] by (simp add: sent_vq_def Let_def)
  then show "added = 0 \<Longrightarrow> mset (out_keys ?v) = mset (out_keys v)" by simp
  show "length (out_keys ?v) + (if added = 0 then 0 else 1) = length (out_keys v)"
    using keys [THEN arg_cong, of size] tk [THEN arg_cong, of size] by (simp split: if_splits)
  have dk: "distinct (vb_key b # out_keys (take_buf t bs v))"
    using ok mset_eq_imp_distinct_iff [OF tk] by (simp add: pools_ok_def)
  then have dist: "distinct (out_keys ?v)"
    using mset_eq_imp_distinct_iff [of "out_keys ?v" "out_keys v"] mset_eq_imp_distinct_iff [of "out_keys ?v" "out_keys (take_buf t bs v)"] keys ok
    by (cases "added = 0") (simp_all add: pools_ok_def)
  show "pools_ok ?v"
    using ok dist sent(1) t b w(2)
    by (auto simp: pools_ok_def sent_vq_def take_buf_def Let_def split: if_splits)
  show "tx_frame ?v (sent_buf b n) = fr"
    using w(1) fr b(2) by (simp add: tx_frame_def sent_vq_def sent_buf_def Let_def)
  assume c: "c \<in> set (vq_tx v)"
  then have cok: "slot_ok c" using ok by (simp add: pools_ok_def)
  have "vb_key c \<in> set (out_keys (take_buf t bs v))" using c by (simp add: out_keys_def take_buf_def)
  then have ne: "vb_key b \<noteq> vb_key c" using dk by auto
  show "tx_frame ?v c = tx_frame v c"
  proof (cases "vb_type c = t")
    case True
    have "frame_end b \<le> vb_buf c \<or> frame_end c \<le> vb_buf b" using slots_cases [OF b(1) cok _ ne] b True by simp
    then have "vb_buf c + (header_size + vb_payload_size c) \<le> vb_buf b \<or> vb_buf b + length fr \<le> vb_buf c"
      using cok True n b(2) fr by (auto simp: frame_end_def slot_ok_def)
    from w(3) [OF this] show ?thesis using True b(2) by (simp add: tx_frame_def sent_vq_def Let_def)
  qed (use b(2) in \<open>simp add: tx_frame_def sent_vq_def take_buf_def Let_def\<close>)
qed

text \<open>
  A send through the virtqueue that finds a free buffer: the device gets, in the buffer the message
  was put in, the header with the channel's next number and the signature followed by exactly the bytes
  of the payload; the buffers it already had are unchanged, and no buffer is lost or used twice.
\<close>
theorem virtio_send_frame:
  assumes ok: "pools_ok v" and v: "vl_vpc link = Some v" "vq_ready v"
    and n: "unat (HAB_HEADER_GET_SIZE h) = n" "n \<le> 51200" "n \<le> length pl"
    and ty: "HAB_HEADER_GET_TYPE h \<noteq> payload_code HAB_PAYLOAD_TYPE_PROFILE"
    and l: "vq_list v (out_pool n) = b # bs" "fits b n"
  shows "\<exists>v' b'. virtio_send h (Some pl) now 0 w link =
      Some (VReturn 0 w (link\<lparr>vl_vpc := Some v', vl_sequence_tx := vl_sequence_tx link + 1\<rparr>)) \<and>
    vq_tx v' = vq_tx v @ [b'] \<and>
    tx_frame v' b' = enc_header (rx_number (vl_sequence_tx link + 1) h) @ take n pl \<and>
    (\<forall>c \<in> set (vq_tx v). tx_frame v' c = tx_frame v c) \<and> mset (out_keys v') = mset (out_keys v) \<and> pools_ok v'"
proof -
  let ?fr = "node_bytes (rx_number (vl_sequence_tx link + 1) h, take n pl)"
  have b: "slot_ok b" "vb_type b = out_pool n" 
    using ok out_pool_room(2) [of n] l(1) [THEN arg_cong, of set] by (auto simp: pools_ok_def)
  have size: "n \<le> pool_buf_size (out_pool n)" using out_pool_room(1) n(2) by simp
  have len: "length ?fr = header_size + n" by (rule node_frame_length [OF n(1,3)])
  have "vb_buf b + length ?fr \<le> length (vq_pool v (out_pool n))"
    using fits_pool [OF b(1)] b(2) size l(2) ok len by (simp add: pools_ok_def)
  then obtain m where m: "pool_write (vb_buf b) ?fr (vq_pool v (out_pool n)) = Some m" by (simp add: pool_write_def)
  note facts = sent_vq_facts [OF ok l(1) out_pool_room(2) size m len, where added = 0]
  have "vq_tx (sent_vq 0 n (out_pool n) b bs m v) = vq_tx v @ [sent_buf b n]"
    by (simp add: sent_vq_def take_buf_def Let_def)
  with facts show ?thesis
    using virtio_send_eq [OF v n ty l(1)] m b(2) by (auto simp: node_bytes_def)
qed

text \<open>
  C38. A message that does not fit behind its header in the last buffer of a pool is written past the end of
  the pool; the check of \<^verbatim>\<open>physical_channel_send\<close> compares the payload alone with the size of a buffer.
\<close>
theorem virtio_send_overruns_pool:
  assumes ok: "pools_ok v" and v: "vl_vpc link = Some v" "vq_ready v"
    and n: "unat (HAB_HEADER_GET_SIZE h) = n" "n \<le> 51200" "n \<le> length pl"
    and ty: "HAB_HEADER_GET_TYPE h \<noteq> payload_code HAB_PAYLOAD_TYPE_PROFILE"
    and l: "vq_list v (out_pool n) = b # bs" "\<not> fits b n"
  shows "virtio_send h (Some pl) now added w link = None"
proof -
  let ?fr = "node_bytes (rx_number (vl_sequence_tx link + 1) h, take n pl)"
  have b: "slot_ok b" "vb_type b = out_pool n"
    using ok out_pool_room(2) [of n] l(1) [THEN arg_cong, of set] by (auto simp: pools_ok_def)
  have "\<not> vb_buf b + length ?fr \<le> length (vq_pool v (out_pool n))"
    using fits_pool [OF b(1)] b(2) out_pool_room(1) n(2) l(2) ok node_frame_length [OF n(1,3)]
    by (simp add: pools_ok_def)
  then show ?thesis using virtio_send_eq [OF v n ty l(1)] b(2) by (simp add: pool_write_def)
qed

section \<open>Buffers in flight\<close>

text \<open>
  Any sequence of sends and of buffers coming back: the channel, the buffers the device has with what was
  sent in each, and how many buffers failed to be added.
\<close>

type_synonym vq_run = "virtio_pchan_link \<times> (vh_buf \<times> bytes) list \<times> nat"

inductive vq_step :: "vq_run \<Rightarrow> vq_run \<Rightarrow> bool" where
  sends: "vq_step (link, fl, lost) (link', (if added = 0 then
        fl @ [(sent_buf b n, enc_header (rx_number (vl_sequence_tx link + 1) h) @ take n pl)] else fl),
      (if added = 0 then lost else Suc lost))"
    if "vl_vpc link = Some v" "vq_ready v" "vq_list v (out_pool n) = b # bs"
      "unat (HAB_HEADER_GET_SIZE h) = n" "n \<le> 51200" "n \<le> length pl"
      "HAB_HEADER_GET_TYPE h \<noteq> payload_code HAB_PAYLOAD_TYPE_PROFILE"
      "virtio_send h (Some pl) now added [] link = Some (VReturn r [] link')"
| returns: "vq_step (link, fl, lost)
      (link\<lparr>vl_vpc := Some (virthab_recv_txq [b] v)\<rparr>, remove1 (b, f) fl, lost)"
    if "vl_vpc link = Some v" "vq_ready v" "(b, f) \<in> set fl"

definition vq_inv :: "nat \<Rightarrow> vq_run \<Rightarrow> bool" where
  "vq_inv k = (\<lambda>(link, fl, lost). \<exists>v. vl_vpc link = Some v \<and> pools_ok v \<and> map fst fl = vq_tx v \<and>
     (\<forall>(b, f) \<in> set fl. tx_frame v b = f) \<and> length (out_keys v) + lost = k)"

lemma map_fst_remove1:
  "distinct (map fst fl) \<Longrightarrow> (b, f) \<in> set fl \<Longrightarrow> map fst (remove1 (b, f) fl) = remove1 b (map fst fl)"
  by (induction fl) force+

lemma return_one:
  assumes ok: "pools_ok v" and b: "b \<in> set (vq_tx v)" and r: "vq_ready v"
  shows "pools_ok (virthab_recv_txq [b] v)" "vq_tx (virthab_recv_txq [b] v) = remove1 b (vq_tx v)"
    "vq_pool (virthab_recv_txq [b] v) = vq_pool v" "length (out_keys (virthab_recv_txq [b] v)) = length (out_keys v)"
proof -
  have s: "slot_ok b" using ok b by (simp add: pools_ok_def)
  then have t: "vb_type b \<noteq> PT_IN" by (simp add: slot_ok_def)
  let ?b = "b\<lparr>vb_payload_size := 0\<rparr>" and ?t = "vb_type b"
  define v' where "v' = v\<lparr>vq_tx := remove1 b (vq_tx v), vq_list := (vq_list v)(?t := vq_list v ?t @ [?b]),
      vq_cnt := (vq_cnt v)(?t := vq_cnt v ?t + 1)\<rparr>"
  have eq: "virthab_recv_txq [b] v = v'" using r t by (simp add: virthab_recv_txq_def v'_def Let_def)
  have sb: "slot_ok ?b" "vb_key ?b = vb_key b" using s by (simp_all add: slot_ok_def vb_key_def)
  have "mset (vq_tx v) = add_mset b (mset (remove1 b (vq_tx v)))" using b by simp
  from this [THEN arg_cong, of "image_mset vb_key"]
  have "mset (map vb_key (vq_tx v)) = mset (vb_key b # map vb_key (remove1 b (vq_tx v)))" by simp
  then have keys: "mset (out_keys v') = mset (out_keys v)"
    using t sb(2) by (cases ?t rule: pool_typeE) (simp_all add: out_keys_def v'_def)
  show "length (out_keys (virthab_recv_txq [b] v)) = length (out_keys v)"
    unfolding eq using keys by (metis size_mset)
  show "vq_tx (virthab_recv_txq [b] v) = remove1 b (vq_tx v)" "vq_pool (virthab_recv_txq [b] v) = vq_pool v"
    by (simp_all add: eq v'_def)
  have "distinct (out_keys v')" using mset_eq_imp_distinct_iff [OF keys] ok by (simp add: pools_ok_def)
  then show "pools_ok (virthab_recv_txq [b] v)"
    using ok sb(1) unfolding eq by (auto simp: pools_ok_def v'_def dest: in_set_remove1 [THEN iffD1, rotated] notin_set_remove1)
qed

lemma vq_step_inv: "vq_step x y \<Longrightarrow> vq_inv k x \<Longrightarrow> vq_inv k y"
proof (induction rule: vq_step.induct)
  case (sends link v n b bs h pl now added r link' fl lost)
  then have inv: "pools_ok v" "map fst fl = vq_tx v" "\<And>c f. (c, f) \<in> set fl \<Longrightarrow> tx_frame v c = f"
    "length (out_keys v) + lost = k" by (auto simp: vq_inv_def)
  let ?fr = "node_bytes (rx_number (vl_sequence_tx link + 1) h, take n pl)"
  have bt: "vb_type b = out_pool n"
    using inv(1) out_pool_room(2) [of n] sends(3) [THEN arg_cong, of set] by (auto simp: pools_ok_def)
  from virtio_send_eq [OF sends(1,2,4-7,3), of now added "[]"] sends(8) bt obtain m where
    m: "pool_write (vb_buf b) ?fr (vq_pool v (out_pool n)) = Some m" and
    link': "vl_vpc link' = Some (sent_vq added n (out_pool n) b bs m v)"
    by (cases "pool_write (vb_buf b) ?fr (vq_pool v (out_pool n))") auto
  have size: "n \<le> pool_buf_size (out_pool n)" using out_pool_room(1) sends(5) by simp
  note facts = sent_vq_facts [OF inv(1) sends(3) out_pool_room(2) size m node_frame_length [OF sends(4,6)],
      where added = added]
  have tx: "vq_tx (sent_vq added n (out_pool n) b bs m v) = (if added = 0 then vq_tx v @ [sent_buf b n] else vq_tx v)"
    by (simp add: sent_vq_def take_buf_def Let_def)
  have old: "tx_frame (sent_vq added n (out_pool n) b bs m v) c = f" if "(c, f) \<in> set fl" for c f
    using facts(5) [of c] inv(2,3) that by (metis in_set_zipE zip_map_fst_snd)
  show ?case using link' facts(1,3,4) tx old inv(2,4) by (auto simp: vq_inv_def node_bytes_def)
next
  case (returns link v b f fl lost)
  then have inv: "pools_ok v" "map fst fl = vq_tx v" "\<And>c f. (c, f) \<in> set fl \<Longrightarrow> tx_frame v c = f"
    "length (out_keys v) + lost = k" by (auto simp: vq_inv_def)
  have b: "b \<in> set (vq_tx v)" using returns(3) inv(2) by (metis in_set_zipE zip_map_fst_snd)
  have "distinct (vq_tx v)" using inv(1) distinct_map [of vb_key "vq_tx v"] by (simp add: pools_ok_def out_keys_def)
  then have "map fst (remove1 (b, f) fl) = remove1 b (vq_tx v)"
    using map_fst_remove1 [of fl b f] inv(2) returns(3) by simp
  moreover have "tx_frame (virthab_recv_txq [b] v) c = g" if "(c, g) \<in> set (remove1 (b, f) fl)" for c g
    using inv(3) [OF notin_set_remove1 [THEN contrapos_pp, of c]] that return_one(3) [OF inv(1) b returns(2)]
      inv(3) set_remove1_subset [of "(b, f)" fl] by (auto simp: tx_frame_def)
  ultimately show ?case using return_one [OF inv(1) b returns(2)] inv(4) by (auto simp: vq_inv_def)
qed

lemma vq_steps_inv: "vq_step\<^sup>*\<^sup>* x y \<Longrightarrow> vq_inv k x \<Longrightarrow> vq_inv k y"
  by (induction rule: rtranclp_induct) (auto intro: vq_step_inv)

text \<open>
  C7. Whatever is sent and in whatever order the device gives buffers back, it reads in each buffer it holds
  exactly the message that was sent in it, no buffer is in two places, and the only buffers that are ever
  lost are those the virtqueue refused: for them \<^verbatim>\<open>physical_channel_send\<close> still reports success.
\<close>
theorem virtio_frames_intact:
  assumes "pools_ok v" "vq_tx v = []" "vl_vpc link = Some v"
    and "vq_step\<^sup>*\<^sup>* (link, [], 0) (link', fl, lost)"
  shows "\<exists>v'. vl_vpc link' = Some v' \<and> pools_ok v' \<and> map fst fl = vq_tx v' \<and>
    (\<forall>(b, f) \<in> set fl. tx_frame v' b = f) \<and> length (out_keys v') + lost = length (out_keys v)"
proof -
  have "vq_inv (length (out_keys v)) (link, [], 0)" using assms(1-3) by (simp add: vq_inv_def)
  from vq_steps_inv [OF assms(4) this] show ?thesis by (simp add: vq_inv_def)
qed

section \<open>Examples\<close>

definition vq_ex :: vq_pchan where
  "vq_ex = alloc_pools \<lparr>vq_list = (\<lambda>t. []), vq_cnt = (\<lambda>t. 0), vq_pool = (\<lambda>t. []), vq_tx = [], vq_rx = [],
     vq_read_data = None, vq_read_size = 0, vq_read_offset = 0, vq_ready = True\<rparr>"

definition link_ex :: virtio_pchan_link where
  "link_ex = \<lparr>vl_mmid = 601, vl_vpc = Some vq_ex, vl_sequence_tx = 0\<rparr>"

definition out_buf_ex :: "pool_type \<Rightarrow> nat \<Rightarrow> vh_buf" where
  "out_buf_ex t j = \<lparr>vb_buf = j * pool_slot t + 84, vb_size = pool_buf_size t, vb_type = t, vb_index = j,
     vb_payload_size = 0\<rparr>"

lemma vq_ex_facts:
  "pools_ok vq_ex" "vq_tx vq_ex = []" "vq_ready vq_ex" "vl_vpc link_ex = Some vq_ex"
  "vq_list vq_ex t = map (out_buf_ex t) [0..<pool_buf_num t]"
  by (simp_all add: vq_ex_def alloc_pools_ok link_ex_def)
    (simp_all add: alloc_pools_def init_pool_list_eq out_buf_ex_def [abs_def] add.commute)

lemma hdr_ex_plain: "n \<le> 51200 \<Longrightarrow> unat (HAB_HEADER_GET_SIZE (hdr_ex n)) = n"
  "HAB_HEADER_GET_TYPE (hdr_ex n) \<noteq> payload_code HAB_PAYLOAD_TYPE_PROFILE"
  by (simp_all add: hdr_ex_def unat_of_nat take_bit_eq_mod)

lemma small_pool_ex: "vq_list vq_ex (out_pool 2) = out_buf_ex PT_OUT_SMALL 0 # map (out_buf_ex PT_OUT_SMALL) [1..<200]"
  "fits (out_buf_ex PT_OUT_SMALL 0) 2"
  using upt_conv_Cons [of 0 200] by (simp_all add: vq_ex_facts out_pool_def fits_def out_buf_ex_def)

theorem virtio_read_refines_witness:
  "\<exists>v'. virtio_read 2 (vq_ex\<lparr>vq_read_data := Some (replicate 20 0 @ [7, 8, 9]), vq_read_size := 23\<rparr>) = Some (2, [7, 8], v') \<and>
     virtio_iter v' = [9]"
proof -
  let ?v = "vq_ex\<lparr>vq_read_data := Some (replicate 20 0 @ [7, 8, 9]), vq_read_size := 23\<rparr>"
  have o: "vq_read_offset vq_ex = 0" by (simp add: vq_ex_def alloc_pools_def)
  then have "virtio_iter ?v = [7, 8, 9]" by (simp add: virtio_iter_def numeral_eq_Suc)
  moreover have "read_ok ?v" using o by (simp add: read_ok_def)
  ultimately show ?thesis using virtio_read_refines [of ?v 2] by simp blast
qed

theorem virtio_short_length_faults_witness:
  "virtio_read 4 (vq_ex\<lparr>vq_read_data := Some (replicate 5120 0), vq_read_size := 0\<rparr>) = None"
  by (rule virtio_short_length_faults [of _ "replicate 5120 0"]) (simp_all add: vq_ex_def alloc_pools_def)

theorem virtio_send_frame_witness:
  "\<exists>v' b'. virtio_send (hdr_ex 2) (Some [5, 6]) (0, 0) 0 [] link_ex =
      Some (VReturn 0 [] (link_ex\<lparr>vl_vpc := Some v', vl_sequence_tx := 1\<rparr>)) \<and>
    vq_tx v' = [b'] \<and> tx_frame v' b' = enc_header (rx_number 1 (hdr_ex 2)) @ [5, 6]"
  using virtio_send_frame [OF vq_ex_facts(1,4,3) hdr_ex_plain(1) _ _ hdr_ex_plain(2) small_pool_ex(1) small_pool_ex(2), of "[5, 6]" "(0, 0)" "[]"]
  by (simp add: vq_ex_facts(2)) (auto simp: link_ex_def)

theorem virtio_send_overruns_pool_witness:
  "virtio_send (hdr_ex 500) (Some (replicate 500 1)) (0, 0) 0 []
     (link_ex\<lparr>vl_vpc := Some (vq_ex\<lparr>vq_list := (vq_list vq_ex)(PT_OUT_SMALL := [out_buf_ex PT_OUT_SMALL 199])\<rparr>)\<rparr>) = None"
proof -
  let ?v = "vq_ex\<lparr>vq_list := (vq_list vq_ex)(PT_OUT_SMALL := [out_buf_ex PT_OUT_SMALL 199])\<rparr>"
  have l: "vq_list ?v (out_pool 500) = out_buf_ex PT_OUT_SMALL 199 # []" by (simp add: out_pool_def)
  have "distinct (out_keys ?v)" "\<forall>t. length (vq_pool ?v t) = pool_size t"
    using vq_ex_facts(1) vq_ex_facts(2) by (auto simp: pools_ok_def out_keys_def vq_ex_facts(5) vb_key_def out_buf_ex_def)
  moreover have "slot_ok (out_buf_ex PT_OUT_SMALL 199)" by (simp add: slot_ok_def out_buf_ex_def)
  ultimately have ok: "pools_ok ?v"
    using vq_ex_facts(1,2) by (auto simp: pools_ok_def out_buf_ex_def)
  show ?thesis
    by (rule virtio_send_overruns_pool [OF ok _ _ hdr_ex_plain(1) _ _ hdr_ex_plain(2) l])
      (simp_all add: vq_ex_facts(3) fits_def out_buf_ex_def)
qed

text \<open>A message is sent, and its buffer comes back.\<close>

theorem virtio_frames_intact_witness:
  "\<exists>link' v'. vq_step\<^sup>*\<^sup>* (link_ex, [], 0) (link', [], 0) \<and> vl_vpc link' = Some v' \<and> vq_tx v' = [] \<and>
     length (out_keys v') = length (out_keys vq_ex)"
proof -
  let ?b0 = "out_buf_ex PT_OUT_SMALL 0" and ?bs = "map (out_buf_ex PT_OUT_SMALL) [1..<200]"
    and ?f = "enc_header (rx_number (vl_sequence_tx link_ex + 1) (hdr_ex 2)) @ take 2 [5, 6]"
  obtain m where snd: "virtio_send (hdr_ex 2) (Some [5, 6]) (0, 0) 0 [] link_ex = Some (VReturn 0 []
      (link_ex\<lparr>vl_vpc := Some (sent_vq 0 2 (out_pool 2) ?b0 ?bs m vq_ex), vl_sequence_tx := vl_sequence_tx link_ex + 1\<rparr>))"
    using virtio_send_eq [OF vq_ex_facts(4,3) hdr_ex_plain(1) _ _ hdr_ex_plain(2) small_pool_ex(1), of "[5, 6]" "(0, 0)" 0 "[]"]
      virtio_send_frame [OF vq_ex_facts(1,4,3) hdr_ex_plain(1) _ _ hdr_ex_plain(2) small_pool_ex, of "[5, 6]" "(0, 0)" "[]"]
    by (cases "pool_write (vb_buf ?b0) (node_bytes (rx_number (vl_sequence_tx link_ex + 1) (hdr_ex 2), take 2 [5, 6]))
        (vq_pool vq_ex (vb_type ?b0))") auto
  let ?v1 = "sent_vq 0 2 (out_pool 2) ?b0 ?bs m vq_ex"
  let ?l1 = "link_ex\<lparr>vl_vpc := Some ?v1, vl_sequence_tx := vl_sequence_tx link_ex + 1\<rparr>"
  have 1: "vq_step (link_ex, [], 0) (?l1, [(sent_buf ?b0 2, ?f)], 0)"
    using vq_step.sends [OF vq_ex_facts(4,3) small_pool_ex(1) hdr_ex_plain(1) _ _ hdr_ex_plain(2) snd, of "[]" 0] by simp
  have r: "vq_ready ?v1" using vq_ex_facts(3) by (simp add: sent_vq_def take_buf_def Let_def)
  have 2: "vq_step (?l1, [(sent_buf ?b0 2, ?f)], 0)
      (?l1\<lparr>vl_vpc := Some (virthab_recv_txq [sent_buf ?b0 2] ?v1)\<rparr>, [], 0)" (is "vq_step _ (?l2, [], 0)")
    using vq_step.returns [of ?l1 ?v1 "sent_buf ?b0 2" ?f "[(sent_buf ?b0 2, ?f)]" 0] r by simp
  have run: "vq_step\<^sup>*\<^sup>* (link_ex, [], 0) (?l2, [], 0)"
    by (rule converse_rtranclp_into_rtranclp [of vq_step, OF 1 r_into_rtranclp [of vq_step, OF 2]])
  show ?thesis using virtio_frames_intact [OF vq_ex_facts(1,2,4) run] run by fastforce
qed

end
