(* ===== verification/Hab_Rings.thy ===== *)
theory Hab_Rings
  imports Hab_Virtio_Facts Hab_User_Path
begin

text \<open>
  The two ends of the virtqueues put together: a message from a process of the host to a process of the
  guest, through \<^verbatim>\<open>rx_worker\<close> and the guest's receive callback, and one from the guest to the host,
  through the guest's send and \<^verbatim>\<open>tx_worker\<close>.
\<close>

section \<open>One message handed to the driver core\<close>

definition deliver :: "nat \<Rightarrow> hab_header \<Rightarrow> bytes \<Rightarrow> hab_driver \<Rightarrow> hab_driver option" where
  "deliver p h b s = do {
     s1 \<leftarrow> set_out_iter p b s;
     (r, s2) \<leftarrow> hab_msg_recv p h s1;
     mod_pchan p (\<lambda>pc. pc\<lparr>pc_sequence_rx := hh_sequence h\<rparr>) s2
   }"

lemma tx_one_deliver: "tx_one p hdr d s = deliver p (dec_header hdr) (drop header_size (dq_out d)) s"
  by (simp add: tx_one_def deliver_def)

lemma recv_rxq_deliver:
  assumes "inbuf_ok (rv_buf e)" "header_size \<le> rv_len e" "rv_len e \<le> length (rv_data e)"
  shows "virthab_recv_rxq (Some p) [e] v s = do {
    s1 \<leftarrow> deliver p (dec_header (rv_data e)) (drop header_size (take (rv_len e) (rv_data e))) s;
    Some (rx_return_buf e (rx_open_buf e (rx_take_buf e v)), s1) }"
proof -
  have "virtio_iter (rx_open_buf e (rx_take_buf e v)) = drop header_size (take (rv_len e) (rv_data e))"
    by (simp add: virtio_iter_def rx_open_buf_def)
  moreover have "virthab_recv_rxq (Some p) [] = (\<lambda>v s. Some (v, s))" by (simp add: fun_eq_iff)
  ultimately show ?thesis using assms by (simp add: deliver_def Let_def)
qed

lemma addressed_number [simp]: "addressed t q (rx_number k h) u uc = addressed t q h u uc"
  by (simp add: addressed_def rx_number_def HAB_HEADER_GET_ID_def HAB_HEADER_GET_SESSION_ID_def)

lemma delivered_then_received:
  assumes adr: "addressed t q h u uc" "vc_pchan uc = q" "vc_rx_list uc = []"
    and ty: "HAB_HEADER_GET_TYPE h = payload_code ty" "plain_type ty"
    and pc: "st_pchans t q = Some pc" "pc_hyp_data pc = HypVhost vh" "st_mem t = []"
    and n: "unat (HAB_HEADER_GET_SIZE h) = length b" "length b \<le> 0x7D000"
    and ctx: "st_ctxs t k = Some ctx" "find_vcid (vc_id uc) (cx_vchannels ctx) t = Some (Some u)"
    and room: "length b \<le> to_size_t rsize" "has_flag rflags 1"
  shows "\<exists>t1 t2 m. deliver q h b t = Some t1 \<and>
    hab_vchan_recv k (vc_id uc) rsize rflags [] t1 = Some (Done (0, to_int32 (length b), Some m) [] t2) \<and>
    ms_sizebytes m = length b \<and> ms_body m = Flat b"
proof -
  let ?pc = "pc\<lparr>pc_hyp_data := HypVhost (vh\<lparr>vh_out_iter := b\<rparr>)\<rparr>"
  let ?t = "t\<lparr>st_pchans := (st_pchans t)(q \<mapsto> ?pc)\<rparr>"
  let ?m = "\<lparr>ms_sizebytes = length b, ms_sequence_rx = pc_sequence_rx pc, ms_body = Flat b\<rparr>"
  let ?uc = "uc\<lparr>vc_rx_list := [?m]\<rparr>"
  have iter: "set_out_iter q b t = Some ?t" using pc by (simp add: set_out_iter_def set_hyp_def mod_pchan_def)
  have "addressed ?t q h u uc" using adr(1) pc(1) by (auto simp: addressed_def)
  from recv_delivers [OF this ty, of ?pc "vh\<lparr>vh_out_iter := b\<rparr>" "length b"] pc n adr(3) obtain t0 pc0 where
    t0: "hab_msg_recv q h ?t = Some (0, t0)" "st_vchans t0 = (st_vchans t)(u \<mapsto> ?uc)" "st_ctxs t0 = st_ctxs t"
      "st_pchans t0 q = Some pc0" by simp
  let ?t1 = "t0\<lparr>st_pchans := (st_pchans t0)(q \<mapsto> pc0\<lparr>pc_sequence_rx := hh_sequence h\<rparr>)\<rparr>"
  have run: "deliver q h b t = Some ?t1" using iter t0 by (simp add: deliver_def mod_pchan_def)
  have u: "st_vchans t u = Some uc" "\<not> vc_closed uc" "0 < vc_refcount uc" using adr(1) by (auto simp: addressed_def)
  have "find_vcid (vc_id uc) (cx_vchannels ctx) ?t1 = Some (Some u)"
    using find_vcid_upd [OF u(1), where s' = ?t1 and vc' = ?uc] ctx(2) t0(2) by simp
  from recv_head [OF _ this, where vc = ?uc and q = ?m and qs = "[]" and rsize = rsize and flags = rflags and w = "[]"]
    t0 u ctx(1) adr(2) room
  have "\<exists>t2. hab_vchan_recv k (vc_id uc) rsize rflags [] ?t1 =
      Some (Done (0, to_int32 (ms_sizebytes ?m), Some ?m) [] t2)" by auto
  with run show ?thesis by auto
qed

section \<open>From the host to the guest\<close>

lemma frames_Nil [simp]: "frames k ns = [] \<longleftrightarrow> ns = []"
  by (metis length_frames length_0_conv)

lemma frames_last:
  "ns \<noteq> [] \<Longrightarrow> \<exists>k'. last (frames k ns) = node_bytes (rx_number k' (fst (last ns)), snd (last ns))"
proof (induction k ns rule: frames.induct)
  case (2 k h b ns)
  then show ?case by (cases "ns = []") auto
qed simp

text \<open>The frame at the front of a buffer of the guest is read as the message.\<close>

lemma frame_of_buffer:
  assumes "length b = unat (HAB_HEADER_GET_SIZE h)"
  shows "dec_header (node_bytes (rx_number k h, b) @ pad) = rx_number k h"
    "drop header_size (take (length (node_bytes (rx_number k h, b))) (node_bytes (rx_number k h, b) @ pad)) = b"
    "header_size \<le> length (node_bytes (rx_number k h, b))"
  using header_codec.dec_enc [of "rx_number k h" "b @ pad"] by (simp_all add: node_bytes_def enc_header_def)

lemma send_ioctl_queued:
  assumes wf: "drv_wf {} hp hv hc s" and c: "st_ctxs s c = Some cx"
    and sblk: "copy_from_user sarg 24 um = Some sb" and sp: "sp = dec_send sb" "n = unat (hs_sizebytes sp)"
    and send: "hab_ioctl kv st c IOCTL_HAB_SEND sarg um [] s = Some (Done (0, um') w' s')"
    and ty: "send_type (hs_flags sp) n = Some ty" "plain_type ty"
    and link: "\<And>v vc. st_vchans s v = Some vc \<Longrightarrow> vc_id vc = hs_vcid sp \<Longrightarrow> vc_pchan vc = p"
  obtains ns h b where "pchan_outq s' p = ns @ [(h, b)]" "copy_from_user (hs_data sp) n um = Some b" "length b = n"
    "HAB_HEADER_GET_TYPE h = payload_code ty" "unat (HAB_HEADER_GET_SIZE h) = n" "n \<le> 0x7D000"
proof -
  from send_ioctl_done [OF send sblk] obtain s1 b mm where s1: "s1 = s\<lparr>st_mem := mm\<rparr>"
    "copy_from_user (hs_data sp) n um = Some b" "n \<le> 0x7D000"
    "hab_vchan_send c (hs_vcid sp) n (Some b) (hs_flags sp) [] s1 = Some (Done 0 w' s')"
    unfolding sp by blast
  have b: "length b = n" by (rule copy_from_user_length [OF s1(2)])
  have wf1: "drv_wf {} hp hv hc s1" "st_ctxs s1 c = Some cx" using wf c by (simp_all add: s1(1))
  have prof: "\<not> has_flag (hs_flags sp) 2" using ty by (auto simp: send_type_def plain_type_def split: if_splits)
  have nb: "n \<le> length b" using b by simp
  from send_queues [OF wf1 nb prof s1(4)] ty(1) obtain v vc where
    v: "st_vchans s1 v = Some vc" "vc_id vc = hs_vcid sp"
    and out: "pchan_outq s' = (pchan_outq s1)(vc_pchan vc := pchan_outq s1 (vc_pchan vc) @ [(send_header vc ty n, take n b)])"
    by auto
  have "vc_pchan vc = p" using link [of v vc] v by (simp add: s1(1))
  then have "pchan_outq s' p = pchan_outq s1 p @ [(send_header vc ty n, b)]" using out b by simp
  from that [OF this s1(2) b _ _ s1(3)] s1(3) show ?thesis by simp
qed

text \<open>
  C1. From a process of the host to a process of the guest: a send ioctl that reports success, a run of
  \<^verbatim>\<open>rx_worker\<close> with a buffer for every queued message, the guest's receive callback on the last of these
  buffers, and a non-blocking receive ioctl of the guest's process end with success, and that process
  reads at its buffer address exactly the bytes the host's process had at its own.
\<close>
theorem host_to_guest_process:
  assumes wf: "drv_wf {} hp hv hc s" and c: "st_ctxs s c = Some cx"
    and sblk: "copy_from_user sarg 24 um = Some sb" and sp: "sp = dec_send sb" "n = unat (hs_sizebytes sp)"
    and send: "hab_ioctl kv st c IOCTL_HAB_SEND sarg um [] s = Some (Done (0, um') w' s')"
    and ty: "send_type (hs_flags sp) n = Some ty" "plain_type ty"
    and link: "\<And>v vc. st_vchans s v = Some vc \<Longrightarrow> vc_id vc = hs_vcid sp \<Longrightarrow> vc_pchan vc = p"
    and host: "st_pchans s' p = Some pp" "pc_hyp_data pp = HypVhost vhp" "list_all node_ok (vh_send_list vhp)"
    and ds: "length ds = length (vh_send_list vhp)" "list_all (room_buf exceeds) ds"
    and guest: "st_pchans t q = Some pc" "pc_hyp_data pc = HypVhost vh" "st_mem t = []" "inbuf_ok ib"
      "addressed t q (fst (last (vh_send_list vhp))) u uc" "vc_pchan uc = q" "vc_rx_list uc = []"
    and guest_ctx: "st_ctxs t k = Some ctx" "find_vcid (vc_id uc) (cx_vchannels ctx) t = Some (Some u)"
    and rblk: "copy_from_user rarg 24 rm = Some rb" and rp: "rp = dec_recv rb" "hr_vcid rp = vc_id uc"
      "hr_data rp \<noteq> 0" "has_flag (hr_flags rp) 1" "n \<le> to_size_t (sint (hr_sizebytes rp))"
    and room: "\<And>i. i < n \<Longrightarrow> rm (hr_data rp + of_nat i) \<noteq> None"
    and apart: "\<And>i j. i < n \<Longrightarrow> j < 24 \<Longrightarrow> hr_data rp + of_nat i \<noteq> rarg + of_nat j"
  shows "\<exists>us s'' v' t1 t2 rm'. rx_worker exceeds (Some p) (map VqDesc ds @ qa) s' = Some (us, True, qa, s'') \<and>
    virthab_recv_rxq (Some q) [\<lparr>rv_buf = ib, rv_len = length (snd (last us)), rv_data = snd (last us) @ pad, rv_add = ad\<rparr>]
      v t = Some (v', t1) \<and>
    hab_ioctl kv' st' k IOCTL_HAB_RECV rarg rm [] t1 = Some (Done (0, rm') [] t2) \<and>
    copy_from_user (hr_data rp) n rm' = copy_from_user (hs_data sp) n um"
proof -
  from send_ioctl_queued [OF wf c sblk sp send ty link] obtain ns h b where
    out: "pchan_outq s' p = ns @ [(h, b)]" and b: "copy_from_user (hs_data sp) n um = Some b" "length b = n"
    and h: "HAB_HEADER_GET_TYPE h = payload_code ty" "unat (HAB_HEADER_GET_SIZE h) = n" "n \<le> 0x7D000" .
  have list: "vh_send_list vhp = ns @ [(h, b)]" using out host by (simp add: pchan_outq_def)
  define fr where "fr = frames (pc_sequence_tx pp) (vh_send_list vhp)"
  obtain s'' where run: "rx_worker exceeds (Some p) (map VqDesc ds @ qa) s' = Some (zip (map dq_head ds) fr, True, qa, s'')"
    using rx_worker_all [OF host ds, of qa] list unfolding fr_def by auto
  have "length fr = length ds" "fr \<noteq> []" using ds(1) list by (auto simp: fr_def)
  then have "snd (last (zip (map dq_head ds) fr)) = last fr" by (subst last_zip) auto
  moreover obtain k' where "last fr = node_bytes (rx_number k' h, b)"
    using frames_last [of "vh_send_list vhp" "pc_sequence_tx pp"] list by (auto simp: fr_def)
  ultimately have last: "snd (last (zip (map dq_head ds) fr)) = node_bytes (rx_number k' h, b)" by simp
  have bh: "length b = unat (HAB_HEADER_GET_SIZE h)" using b(2) h(2) by simp
  define e where "e = \<lparr>rv_buf = ib, rv_len = length (snd (last (zip (map dq_head ds) fr))),
    rv_data = snd (last (zip (map dq_head ds) fr)) @ pad, rv_add = ad\<rparr>"
  have e: "inbuf_ok (rv_buf e)" "header_size \<le> rv_len e" "rv_len e \<le> length (rv_data e)"
    "dec_header (rv_data e) = rx_number k' h" "drop header_size (take (rv_len e) (rv_data e)) = b"
    using guest(4) frame_of_buffer(1,2) [OF bh, of k' pad] frame_of_buffer(3) [OF bh, of k'] last by (simp_all add: e_def)
  have adr: "addressed t q (rx_number k' h) u uc" using guest(5) list by simp
  obtain t1 t2 m where t1: "deliver q (rx_number k' h) b t = Some t1"
    "hab_vchan_recv k (hr_vcid rp) (sint (hr_sizebytes rp)) (hr_flags rp) [] t1 = Some (Done (0, to_int32 n, Some m) [] t2)"
    "ms_sizebytes m = n" "ms_body m = Flat b"
    using delivered_then_received [OF adr guest(6,7) _ ty(2) guest(1-3) _ _ guest_ctx _ rp(4), of b "sint (hr_sizebytes rp)"]
      h rp(2,5) b(2) by auto
  have rx: "virthab_recv_rxq (Some q) [e] v t = Some (rx_return_buf e (rx_open_buf e (rx_take_buf e v)), t1)"
    using recv_rxq_deliver [OF e(1-3), of q v t] t1(1) e(4,5) by simp
  obtain rm' where rd: "hab_ioctl kv' st' k IOCTL_HAB_RECV rarg rm [] t1 = Some (Done (0, rm') [] t2)"
    "copy_from_user (hr_data rp) (ms_sizebytes m) rm' = Some (take (ms_sizebytes m) b)"
    by (rule recv_ioctl_done [OF t1(2) rblk rp(1,3) t1(4)])
      (use t1(3) b h(3) room apart in auto)
  have "copy_from_user (hr_data rp) n rm' = copy_from_user (hs_data sp) n um" using rd(2) t1(3) b by simp
  with run rx rd(1) show ?thesis unfolding e_def by (intro exI conjI)
qed

section \<open>From the guest to the host\<close>

text \<open>The descriptor of a buffer the guest gave to the device.\<close>

definition out_desc :: "nat \<Rightarrow> bytes \<Rightarrow> vq_desc" where
  "out_desc i f = \<lparr>dq_head = i, dq_out_num = 1, dq_out_len = length f, dq_out = f, dq_in_num = 0, dq_in_len = 0,
     dq_room = 0, dq_add_used = 0\<rparr>"

lemma tx_worker_one:
  assumes f: "f = node_bytes (rx_number k h, b)" and b: "length b = unat (HAB_HEADER_GET_SIZE h)"
    and t: "deliver p (rx_number k h) b t = Some t1"
  shows "tx_worker exceeds (Some p) un [VqDesc (out_desc i f)] t = Some ([i], [], t1)"
proof -
  have "dec_header f = rx_number k h" "drop header_size f = b" "header_size \<le> length f"
    using frame_of_buffer(1,2) [OF b, of k "[]"] frame_of_buffer(3) [OF b, of k] f by simp_all
  moreover have "dec_header (tx_header_bytes un f) = dec_header f"
    using \<open>header_size \<le> length f\<close> header_codec.dec_enc [of "rx_number k h" b]
      header_codec.dec_enc [of "rx_number k h" "drop header_size un"] f
    by (simp add: tx_header_bytes_def node_bytes_def enc_header_def)
  ultimately have "tx_one p (tx_header_bytes un f) (out_desc i f) t = Some t1"
    using t by (simp add: tx_one_deliver out_desc_def)
  moreover have "tx_reads (out_desc i f)" using \<open>header_size \<le> length f\<close> by (auto simp: tx_reads_def out_desc_def)
  ultimately show ?thesis by (simp add: tx_worker_def Let_def) (simp add: out_desc_def)
qed

text \<open>
  C3. From the guest to the host: a message sent through the guest's virtqueue is, when \<^verbatim>\<open>tx_worker\<close> takes the
  buffer, what a non-blocking receive of the host's virtual channel returns: the bytes of the payload, no
  more and no less.
\<close>
theorem guest_to_host_message:
  assumes ok: "pools_ok v" and v: "vl_vpc link = Some v" "vq_ready v"
    and n: "unat (HAB_HEADER_GET_SIZE h) = n" "n \<le> 51200" "n \<le> length pl"
    and ty: "HAB_HEADER_GET_TYPE h = payload_code ty" "plain_type ty"
    and l: "vq_list v (out_pool n) = b # bs" "fits b n"
    and host: "st_pchans t p = Some pc" "pc_hyp_data pc = HypVhost vh" "st_mem t = []"
      "addressed t p h u uc" "vc_pchan uc = p" "vc_rx_list uc = []"
    and host_ctx: "st_ctxs t k = Some ctx" "find_vcid (vc_id uc) (cx_vchannels ctx) t = Some (Some u)"
    and room: "n \<le> to_size_t rsize" "has_flag rflags 1"
  shows "\<exists>link' v' b' t1 t2 m. virtio_send h (Some pl) now 0 w link = Some (VReturn 0 w link') \<and>
    vl_vpc link' = Some v' \<and> vq_tx v' = vq_tx v @ [b'] \<and>
    tx_worker exceeds (Some p) un [VqDesc (out_desc i (tx_frame v' b'))] t = Some ([i], [], t1) \<and>
    hab_vchan_recv k (vc_id uc) rsize rflags [] t1 = Some (Done (0, to_int32 n, Some m) [] t2) \<and>
    ms_sizebytes m = n \<and> ms_body m = Flat (take n pl)"
proof -
  have np: "HAB_HEADER_GET_TYPE h \<noteq> payload_code HAB_PAYLOAD_TYPE_PROFILE" using ty by (auto simp: plain_type_def)
  let ?k = "vl_sequence_tx link + 1" and ?p = "take n pl"
  obtain v' b' where send: "virtio_send h (Some pl) now 0 w link =
      Some (VReturn 0 w (link\<lparr>vl_vpc := Some v', vl_sequence_tx := ?k\<rparr>))" "vq_tx v' = vq_tx v @ [b']"
    and fr: "tx_frame v' b' = node_bytes (rx_number ?k h, ?p)"
    using virtio_send_frame [OF ok v n np l, of now w] by (auto simp: node_bytes_def)
  have lp: "length ?p = n" using n(3) by simp
  have adr: "addressed t p (rx_number ?k h) u uc" using host(4) by simp
  obtain t1 t2 m where t1: "deliver p (rx_number ?k h) ?p t = Some t1"
    "hab_vchan_recv k (vc_id uc) rsize rflags [] t1 = Some (Done (0, to_int32 n, Some m) [] t2)"
    "ms_sizebytes m = n" "ms_body m = Flat ?p"
    using delivered_then_received [OF adr host(5,6) _ ty(2) host(1-3) _ _ host_ctx _ room(2), where b = ?p and rsize = rsize]
      ty(1) n room(1) lp by auto
  have "length ?p = unat (HAB_HEADER_GET_SIZE h)" using lp n(1) by simp
  from tx_worker_one [OF fr this t1(1), of exceeds un i] send t1(2-4) show ?thesis by (intro exI conjI) (assumption | simp)+
qed

text \<open>The example driver as the host, and as the guest.\<close>

theorem guest_to_host_message_witness:
  "\<exists>link' v' b' t1 t2 m. virtio_send (send_header vchan_ex HAB_PAYLOAD_TYPE_MSG 2) (Some [5, 6]) (0, 0) 0 [] link_ex =
      Some (VReturn 0 [] link') \<and> vl_vpc link' = Some v' \<and> vq_tx v' = [b'] \<and>
    tx_worker weight_ex (Some 1) [] [VqDesc (out_desc 4 (tx_frame v' b'))] (drv_rx [] []) = Some ([4], [], t1) \<and>
    hab_vchan_recv 2 0x25902001 64 1 [] t1 = Some (Done (0, to_int32 2, Some m) [] t2) \<and> ms_body m = Flat [5, 6]"
proof -
  have f: "find_vcid (vc_id (vchan_ex\<lparr>vc_rx_list := []\<rparr>)) (cx_vchannels ctx_ex) (drv_rx [] []) = Some (Some 3)"
    by (simp add: drv_rx_def vchan_ex_def ctx_ex_def)
  have "\<exists>link' v' b' t1 t2 m. virtio_send (send_header vchan_ex HAB_PAYLOAD_TYPE_MSG 2) (Some [5, 6]) (0, 0) 0 [] link_ex =
      Some (VReturn 0 [] link') \<and> vl_vpc link' = Some v' \<and> vq_tx v' = vq_tx vq_ex @ [b'] \<and>
    tx_worker weight_ex (Some 1) [] [VqDesc (out_desc 4 (tx_frame v' b'))] (drv_rx [] []) = Some ([4], [], t1) \<and>
    hab_vchan_recv 2 (vc_id (vchan_ex\<lparr>vc_rx_list := []\<rparr>)) 64 1 [] t1 = Some (Done (0, to_int32 2, Some m) [] t2) \<and>
    ms_sizebytes m = 2 \<and> ms_body m = Flat (take 2 [5, 6])"
    by (rule guest_to_host_message [OF vq_ex_facts(1,4,3) _ _ _ send_header_fields(1) _ small_pool_ex _ _ _ addressed_ex _ _ _ f,
          where vh = "\<lparr>vh_send_list = [], vh_out_iter = []\<rparr>" and
          pc = "pchan_ex\<lparr>pc_hyp_data := HypVhost \<lparr>vh_send_list = [], vh_out_iter = []\<rparr>\<rparr>"])
      (simp_all add: plain_type_def drv_rx_def drv_ex_def vchan_ex_def pchan_ex_def to_size_t_def has_flag_def)
  then show ?thesis using vq_ex_facts(2) by (auto simp: vchan_ex_def numeral_2_eq_2)
qed

definition in_buf_ex :: vh_buf where
  "in_buf_ex = \<lparr>vb_buf = 84, vb_size = 5120, vb_type = PT_IN, vb_index = 0, vb_payload_size = 0\<rparr>"

theorem host_to_guest_process_witness:
  "\<exists>s' us s'' v' t1 t2 rm'. hab_ioctl kernel_ex request_zero 2 IOCTL_HAB_SEND 0 (um_ex send_blk [1, 2]) [] drv_ex =
       Some (Done (0, um_ex send_blk [1, 2]) [] s') \<and>
     rx_worker weight_ex (Some 1) [VqDesc (buf_ex 4 5120)] s' = Some (us, True, [], s'') \<and>
     virthab_recv_rxq (Some 1) [\<lparr>rv_buf = in_buf_ex, rv_len = length (snd (last us)), rv_data = snd (last us) @ replicate 5098 0,
       rv_add = True\<rparr>] vq_ex (drv_rx [] []) = Some (v', t1) \<and>
     hab_ioctl kernel_ex request_zero 2 IOCTL_HAB_RECV 0 (um_ex recv_blk [0, 0]) [] t1 = Some (Done (0, rm') [] t2) \<and>
     copy_from_user 64 2 rm' = Some [1, 2]"
proof -
  obtain s' where run: "hab_ioctl kernel_ex request_zero 2 IOCTL_HAB_SEND 0 (um_ex send_blk [1, 2]) [] drv_ex =
      Some (Done (0, um_ex send_blk [1, 2]) [] s')" and que: "queued_ex s'" by (rule send_user_ex)
  let ?h = "send_header vchan_ex HAB_PAYLOAD_TYPE_MSG 2"
  from que obtain pp where pp: "st_pchans s' 1 = Some pp"
    "pc_hyp_data pp = HypVhost \<lparr>vh_send_list = [(?h, [1, 2])], vh_out_iter = []\<rparr>"
    by (auto simp: queued_ex_def split: option.splits)
  have nok: "node_ok (?h, [1, 2])" by (simp add: node_ok_def node_size_def)
  have f: "find_vcid (vc_id (vchan_ex\<lparr>vc_rx_list := []\<rparr>)) (cx_vchannels ctx_ex) (drv_rx [] []) = Some (Some 3)"
    by (simp add: drv_rx_def vchan_ex_def ctx_ex_def)
  have ib: "inbuf_ok in_buf_ex" by (simp add: inbuf_ok_def in_buf_ex_def)
  have ty: "send_type (hs_flags (dec_send send_blk)) 2 = Some HAB_PAYLOAD_TYPE_MSG" by (simp add: blk_ex) code_simp
  have adr: "addressed (drv_rx [] []) 1 (fst (last (vh_send_list \<lparr>vh_send_list = [(?h, [1 :: u8, 2])], vh_out_iter = []\<rparr>))) 3
      (vchan_ex\<lparr>vc_rx_list := []\<rparr>)" using addressed_ex by simp
  have "\<exists>us s'' v' t1 t2 rm'. rx_worker weight_ex (Some 1) (map VqDesc [buf_ex 4 5120] @ []) s' = Some (us, True, [], s'') \<and>
     virthab_recv_rxq (Some 1) [\<lparr>rv_buf = in_buf_ex, rv_len = length (snd (last us)), rv_data = snd (last us) @ replicate 5098 0,
       rv_add = True\<rparr>] vq_ex (drv_rx [] []) = Some (v', t1) \<and>
     hab_ioctl kernel_ex request_zero 2 IOCTL_HAB_RECV 0 (um_ex recv_blk [0, 0]) [] t1 = Some (Done (0, rm') [] t2) \<and>
     copy_from_user (hr_data (dec_recv recv_blk)) 2 rm' =
       copy_from_user (hs_data (dec_send send_blk)) 2 (um_ex send_blk [1, 2])"
  proof (rule host_to_guest_process [OF drv_ex_wf drv_ex_ctx um_ex_copy(1) refl _ run ty _ _ pp _ _ _ _ _ _ ib adr _ _ _ f um_ex_copy(2)])
    show "um_ex recv_blk [0, 0] (hr_data (dec_recv recv_blk) + of_nat i) \<noteq> None" if "i < 2" for i
      using that by (auto simp: less_2_cases_iff blk_ex um_ex_def)
    show "hr_data (dec_recv recv_blk) + of_nat i \<noteq> 0 + of_nat j" if "i < 2" "j < 24" for i j
    proof -
      have "unat (64 + of_nat i :: u64) = 64 + i" "unat (of_nat j :: u64) = j"
        using that by (auto simp: less_2_cases_iff unat_of_nat take_bit_nat_eq_self)
      then show ?thesis using that by (auto simp: blk_ex word_unat_eq_iff)
    qed
  qed (use nok room_buf_ex [of 4] in \<open>auto simp: plain_type_def drv_rx_def drv_ex_def vchan_ex_def pchan_ex_def to_size_t_def
      has_flag_def blk_ex split: if_splits\<close>)
  with run um_ex_copy(3) show ?thesis by (auto simp: blk_ex)
qed

end
