(* ===== verification/Hab_Virtio_Dev.thy ===== *)
theory Hab_Virtio_Dev
  imports Hab_Virtio Hab_Parser
begin

text \<open>
  The virtio devices of the guest, \<^verbatim>\<open>hypervisor/virtio/hab_virtio.c\<close>: probing, which device serves which
  channels, suspending, resuming and removing.

  The devices the driver knows are in a list of addresses with a heap of the objects behind them, so
  that following an entry whose object is freed is a fault.  What the virtio core answers is an argument.
\<close>

section \<open>State\<close>

datatype virtio_id =
  ID_HAB | ID_BUFFERQ | ID_MISC | ID_AUDIO | ID_CAMERA | ID_DISPLAY | ID_GRAPHICS | ID_VIDEO | ID_OTHER nat

text \<open>An element of \<^verbatim>\<open>vqpchans\<close>.\<close>

record vq_slot =
  sl_mmid :: u32
  sl_pchan :: "nat option"
  sl_vpc :: vq_pchan

record virtio_hab =
  vi_id :: virtio_id
  vi_vdev :: nat
  vi_mmid_start :: u32
  vi_mmid_range :: nat
  vi_cbs :: bool
  vi_ready :: bool
  vi_slots :: "vq_slot list"

text \<open>The table of virtio devices by the first mmid they serve.\<close>

type_synonym vdev_tbl = "(u32 \<times> nat option) list"

text \<open>\<open>vs_link\<close> is the back pointer of a channel's link: the device and the slot.\<close>

record virt_state =
  vs_list :: "nat list"
  vs_heap :: "nat \<Rightarrow> virtio_hab option"
  vs_next :: nat
  vs_tbl :: vdev_tbl
  vs_link :: "nat \<Rightarrow> (nat \<times> nat) option"

definition vdev_tbl_init :: vdev_tbl where
  "vdev_tbl_init = map (\<lambda>m. (m, None)) [0, 1001, 601, 101, 201, 301, 401, 501]"

definition virt_init :: virt_state where
  "virt_init = \<lparr>vs_list = [], vs_heap = (\<lambda>_. None), vs_next = 0, vs_tbl = vdev_tbl_init, vs_link = (\<lambda>_. None)\<rparr>"

fun virthab_store_vdev :: "u32 \<Rightarrow> nat \<Rightarrow> vdev_tbl \<Rightarrow> vdev_tbl" where
  "virthab_store_vdev mmid vdev [] = []"
| "virthab_store_vdev mmid vdev ((m, d) # t) =
     (if m = mmid then (m, Some vdev) # t else (m, d) # virthab_store_vdev mmid vdev t)"

fun virthab_get_vdev :: "u32 \<Rightarrow> vdev_tbl \<Rightarrow> nat option" where
  "virthab_get_vdev mmid [] = None"
| "virthab_get_vdev mmid ((m, d) # t) = (if m = mmid then d else virthab_get_vdev mmid t)"

section \<open>Finding\<close>

text \<open>The device of a virtio device; the loop without a match ends with a pointer to no entry at all.\<close>

fun get_vh_from :: "nat list \<Rightarrow> (nat \<Rightarrow> virtio_hab option) \<Rightarrow> nat \<Rightarrow> nat option" where
  "get_vh_from [] h vdev = None"
| "get_vh_from (a # as) h vdev = do {
     vh \<leftarrow> h a;
     if vi_vdev vh = vdev then Some a else get_vh_from as h vdev
   }"

definition get_vh :: "nat \<Rightarrow> virt_state \<Rightarrow> nat option" where
  "get_vh vdev g = get_vh_from (vs_list g) (vs_heap g) vdev"

text \<open>The slot of a virtqueue, an index into \<^verbatim>\<open>vqpchans\<close>; the bound lets one index too much pass.\<close>

definition get_virtio_pchan :: "nat \<Rightarrow> int \<Rightarrow> int \<Rightarrow> nat option" where
  "get_virtio_pchan ndevices vq_index vqs_offset =
     (let index = vq_index - vqs_offset in
      if int ndevices * 2 < index \<or> index < 0 then None else Some (nat (index div 2)))"

section \<open>Allocating\<close>

text \<open>The result, whether the array of callbacks is there (its check looks at another pointer).\<close>

definition virthab_alloc_mmid_device :: "nat \<Rightarrow> hab_driver \<Rightarrow> int \<times> bool \<times> hab_driver" where
  "virthab_alloc_mmid_device rng s =
     (case kalloc s of (vqs, s1) \<Rightarrow>
        if \<not> vqs then (- ENOMEM, False, s1)
        else (case kalloc s1 of (cbs, s2) \<Rightarrow> (case kalloc s2 of (names, s3) \<Rightarrow>
          if \<not> names then (- ENOMEM, cbs, s3)
          else (case kalloc s3 of (vpcs, s4) \<Rightarrow>
            if \<not> vpcs then (- ENOMEM, cbs, s4)
            else (case kallocs (2 * rng) s4 of (ok, s5) \<Rightarrow> (if ok then 0 else - ENOMEM, cbs, s5))))))"

definition vpc_zero :: vq_pchan where
  "vpc_zero = \<lparr>vq_list = (\<lambda>t. []), vq_cnt = (\<lambda>t. 0), vq_pool = (\<lambda>t. []), vq_tx = [], vq_rx = [],
     vq_read_data = None, vq_read_size = 0, vq_read_offset = 0, vq_ready = False\<rparr>"

definition slot_zero :: vq_slot where
  "slot_zero = \<lparr>sl_mmid = 0, sl_pchan = None, sl_vpc = vpc_zero\<rparr>"

definition virthab_alloc ::
  "virtio_id \<Rightarrow> nat \<Rightarrow> u32 \<Rightarrow> nat \<Rightarrow> hab_driver \<Rightarrow> virt_state \<Rightarrow> int \<times> nat option \<times> hab_driver \<times> virt_state"
where
  "virthab_alloc i vdev st rng s g =
     (case kalloc s of (ok, s1) \<Rightarrow>
        if \<not> ok then (- ENOMEM, None, s1, g)
        else (case virthab_alloc_mmid_device rng s1 of (ret, cbs, s2) \<Rightarrow>
          if ret \<noteq> 0 then (ret, None, s2, g)
          else let a = vs_next g;
                   vh = \<lparr>vi_id = i, vi_vdev = vdev, vi_mmid_start = st, vi_mmid_range = rng, vi_cbs = cbs,
                         vi_ready = False, vi_slots = replicate (length (st_devs s2)) slot_zero\<rparr>
               in (0, Some a, s2, g\<lparr>vs_list := vs_list g @ [a], vs_heap := (vs_heap g)(a \<mapsto> vh), vs_next := Suc a\<rparr>)))"

section \<open>Virtqueues\<close>

definition init_slot :: "hab_device \<Rightarrow> vq_slot \<Rightarrow> vq_slot" where
  "init_slot dev sl = sl\<lparr>sl_mmid := dv_id dev,
     sl_pchan := (case dv_pchannels dev of [] \<Rightarrow> sl_pchan sl | p # ps \<Rightarrow> Some p)\<rparr>"

definition virthab_init_vqs_pre :: "virtio_hab \<Rightarrow> hab_driver \<Rightarrow> (int \<times> vq_slot list) option" where
  "virthab_init_vqs_pre vh s = (case find_hab_device (vi_mmid_start vh) of
      None \<Rightarrow> Some (- ENODEV, vi_slots vh)
    | Some idx \<Rightarrow>
        if length (st_devs s) < idx + vi_mmid_range vh then Some (- EINVAL, vi_slots vh)
        else if 0 < vi_mmid_range vh \<and> \<not> vi_cbs vh then None
        else Some (0, map (\<lambda>j. if j < vi_mmid_range vh then init_slot (st_devs s ! (idx + j)) (vi_slots vh ! j)
                               else vi_slots vh ! j) [0..<length (vi_slots vh)]))"

text \<open>A slot without a channel, or a channel without a link, is dereferenced all the same.\<close>

fun virthab_init_vqs_post ::
  "nat \<Rightarrow> nat \<Rightarrow> nat \<Rightarrow> hab_driver \<Rightarrow> vq_slot list \<Rightarrow> (nat \<Rightarrow> (nat \<times> nat) option) \<Rightarrow>
     (vq_slot list \<times> (nat \<Rightarrow> (nat \<times> nat) option)) option" where
  "virthab_init_vqs_post a j 0 s sls lk = Some (sls, lk)"
| "virthab_init_vqs_post a j (Suc n) s [] lk = None"
| "virthab_init_vqs_post a j (Suc n) s (sl # sls) lk = do {
     p \<leftarrow> sl_pchan sl;
     pc \<leftarrow> st_pchans s p;
     if pc_hyp_data pc = HypNone then None
     else do {
       (sls1, lk1) \<leftarrow> virthab_init_vqs_post a (Suc j) n s sls (lk(p \<mapsto> (a, j)));
       Some (sl\<lparr>sl_vpc := (sl_vpc sl)\<lparr>vq_ready := True\<rparr>\<rparr> # sls1, lk1)
     }
   }"

text \<open>\<open>fv\<close> is the answer of \<^verbatim>\<open>virtio_find_vqs\<close>.\<close>

definition set_slots :: "nat \<Rightarrow> vq_slot list \<Rightarrow> virt_state \<Rightarrow> virt_state option" where
  "set_slots a sls g = do {
     vh \<leftarrow> vs_heap g a;
     Some (g\<lparr>vs_heap := (vs_heap g)(a \<mapsto> vh\<lparr>vi_slots := sls\<rparr>)\<rparr>)
   }"

definition set_ready :: "nat \<Rightarrow> bool \<Rightarrow> virt_state \<Rightarrow> virt_state option" where
  "set_ready a b g = do {
     vh \<leftarrow> vs_heap g a;
     Some (g\<lparr>vs_heap := (vs_heap g)(a \<mapsto> vh\<lparr>vi_ready := b\<rparr>)\<rparr>)
   }"

definition virthab_init_vqs :: "int \<Rightarrow> nat \<Rightarrow> hab_driver \<Rightarrow> virt_state \<Rightarrow> (int \<times> virt_state) option" where
  "virthab_init_vqs fv a s g = do {
     vh \<leftarrow> vs_heap g a;
     (ret, sls) \<leftarrow> virthab_init_vqs_pre vh s;
     g1 \<leftarrow> set_slots a sls g;
     if ret \<noteq> 0 then Some (ret, g1)
     else if fv \<noteq> 0 then Some (fv, g1)
     else do {
       (sls1, lk) \<leftarrow> virthab_init_vqs_post a 0 (vi_mmid_range vh) s sls (vs_link g1);
       g2 \<leftarrow> set_slots a sls1 (g1\<lparr>vs_link := lk\<rparr>);
       Some (0, g2)
     }
   }"

text \<open>All channels of a device; the first one without memory ends the loop.\<close>

fun queue_all :: "bool \<Rightarrow> bool list \<Rightarrow> bool list list \<Rightarrow> nat \<Rightarrow> vq_slot list \<Rightarrow> int \<times> vq_slot list" where
  "queue_all alloc mems oks 0 sls = (0, sls)"
| "queue_all alloc mems oks (Suc n) [] = (0, [])"
| "queue_all alloc mems oks (Suc n) (sl # sls) =
     (case virthab_queue_inbufs alloc (mems = [] \<or> hd mems) (if oks = [] then [] else hd oks) (sl_vpc sl) of
        (ret, v) \<Rightarrow>
          if ret \<noteq> 0 then (ret, sl\<lparr>sl_vpc := v\<rparr> # sls)
          else (case queue_all alloc (tl mems) (tl oks) n sls of (r, rest) \<Rightarrow> (r, sl\<lparr>sl_vpc := v\<rparr> # rest)))"

section \<open>Probing\<close>

text \<open>The ids of the hab devices, in the order of \<^verbatim>\<open>hab_devices\<close>.\<close>

definition dev_ids :: "u32 list" where
  "dev_ids = map snd hab_device_table"

definition virthab_range :: "virtio_id \<Rightarrow> u32 \<times> nat" where
  "virthab_range i = (case i of
      ID_HAB \<Rightarrow> (dev_ids ! 0, length dev_ids)
    | ID_BUFFERQ \<Rightarrow> (1001, 1002 - 1000 - 1)
    | ID_MISC \<Rightarrow> (601, 602 - 600 - 1)
    | ID_AUDIO \<Rightarrow> (101, 105 - 100 - 1)
    | ID_CAMERA \<Rightarrow> (201, 203 - 200 - 1)
    | ID_DISPLAY \<Rightarrow> (301, 306 - 300 - 1)
    | ID_GRAPHICS \<Rightarrow> (401, 402 - 400 - 1)
    | ID_VIDEO \<Rightarrow> (501, 504 - 500 - 1)
    | ID_OTHER _ \<Rightarrow> (0, 0))"

text \<open>The loop keeps the last match; an index past the table is a fault.\<close>

fun taken_range_from :: "u32 \<Rightarrow> nat \<Rightarrow> nat list \<Rightarrow> u32 \<times> u32 \<Rightarrow> (u32 \<times> u32) option" where
  "taken_range_from st cnt [] r = Some r"
| "taken_range_from st cnt (i # is) r =
     (if st = dev_ids ! i then
        (if i + cnt < 1 \<or> length dev_ids \<le> i + cnt - 1 then None
         else taken_range_from st cnt is (st, dev_ids ! (i + cnt - 1)))
      else taken_range_from st cnt is r)"

definition taken_range_calc :: "u32 \<Rightarrow> nat \<Rightarrow> (u32 \<times> u32) option" where
  "taken_range_calc st cnt = taken_range_from st cnt [0..<length dev_ids] (0, 0)"

fun avail_from :: "nat list \<Rightarrow> (nat \<Rightarrow> virtio_hab option) \<Rightarrow> virtio_id \<Rightarrow> u32 \<Rightarrow> bool option" where
  "avail_from [] h i st = Some True"
| "avail_from (a # as) h i st = do {
     vh \<leftarrow> h a;
     if vi_id vh = i then Some False
     else do {
       (lo, hi) \<leftarrow> taken_range_calc (vi_mmid_start vh) (vi_mmid_range vh);
       if lo \<le> st \<and> st \<le> hi then Some False else avail_from as h i st
     }
   }"

definition virthab_pchan_avail_check :: "virtio_id \<Rightarrow> u32 \<Rightarrow> virt_state \<Rightarrow> bool option" where
  "virthab_pchan_avail_check i st g = avail_from (vs_list g) (vs_heap g) i st"

definition probe_key :: "virtio_id \<Rightarrow> u32 option" where
  "probe_key i = (case i of
      ID_HAB \<Rightarrow> Some 0 | ID_OTHER _ \<Rightarrow> None | _ \<Rightarrow> Some (fst (virthab_range i)))"

text \<open>What the virtio core and the allocator of the pools answer.\<close>

record probe_env =
  pe_feature :: bool
  pe_find_vqs :: int
  pe_mems :: "bool list"
  pe_oks :: "bool list list"

text \<open>After a failed \<^verbatim>\<open>virthab_init_vqs\<close> the object is freed; it stays in the list.\<close>

definition probe_start ::
  "probe_env \<Rightarrow> nat \<Rightarrow> hab_driver \<Rightarrow> virt_state \<Rightarrow> (int \<times> hab_driver \<times> virt_state) option" where
  "probe_start e a s g = do {
     (err, g1) \<leftarrow> virthab_init_vqs (pe_find_vqs e) a s g;
     if err \<noteq> 0 then Some (err, s, g1\<lparr>vs_heap := (vs_heap g1)(a := None)\<rparr>)
     else do {
       vh \<leftarrow> vs_heap g1 a;
       (case queue_all True (pe_mems e) (pe_oks e) (vi_mmid_range vh) (vi_slots vh) of (ret, sls) \<Rightarrow> do {
         g2 \<leftarrow> set_slots a sls g1;
         if ret \<noteq> 0 then Some (ret, s, g2)
         else do { g3 \<leftarrow> set_ready a True g2; Some (0, s, g3) }
       })
     }
   }"

definition probe_tbl :: "virtio_id \<Rightarrow> nat \<Rightarrow> virt_state \<Rightarrow> virt_state" where
  "probe_tbl i vdev g =
     g\<lparr>vs_tbl := (case probe_key i of None \<Rightarrow> vs_tbl g | Some k \<Rightarrow> virthab_store_vdev k vdev (vs_tbl g))\<rparr>"

definition virthab_probe ::
  "probe_env \<Rightarrow> virtio_id \<Rightarrow> nat \<Rightarrow> hab_driver \<Rightarrow> virt_state \<Rightarrow> (int \<times> hab_driver \<times> virt_state) option" where
  "virthab_probe e i vdev s g =
     (if \<not> pe_feature e then Some (- ENODEV, s, g)
      else let (st, cnt) = virthab_range i; g1 = probe_tbl i vdev g in do {
        ok \<leftarrow> virthab_pchan_avail_check i st g1;
        if \<not> ok then Some (- EINVAL, s, g1)
        else (case virthab_alloc i vdev st cnt s g1 of
            (ret, None, s1, g2) \<Rightarrow> Some (ret, s1, g2)
          | (ret, Some a, s1, g2) \<Rightarrow> probe_start e a s1 g2)
      })"

section \<open>Suspending and removing\<close>

definition virthab_freeze :: "nat \<Rightarrow> virt_state \<Rightarrow> (int \<times> virt_state) option" where
  "virthab_freeze vdev g = do {
     a \<leftarrow> get_vh vdev g;
     g1 \<leftarrow> set_ready a False g;
     Some (0, g1)
   }"

definition virthab_restore ::
  "int \<Rightarrow> bool list list \<Rightarrow> nat \<Rightarrow> hab_driver \<Rightarrow> virt_state \<Rightarrow> (int \<times> virt_state) option" where
  "virthab_restore fv oks vdev s g = do {
     a \<leftarrow> get_vh vdev g;
     (err, g1) \<leftarrow> virthab_init_vqs fv a s g;
     if err \<noteq> 0 then Some (err, g1)
     else do {
       g2 \<leftarrow> set_ready a True g1;
       vh \<leftarrow> vs_heap g2 a;
       g3 \<leftarrow> set_slots a (snd (queue_all False [] oks (vi_mmid_range vh) (vi_slots vh))) g2;
       Some (0, g3)
     }
   }"

fun unlink_slots :: "nat \<Rightarrow> vq_slot list \<Rightarrow> (nat \<Rightarrow> (nat \<times> nat) option) \<Rightarrow> (nat \<Rightarrow> (nat \<times> nat) option) option" where
  "unlink_slots 0 sls lk = Some lk"
| "unlink_slots (Suc n) [] lk = None"
| "unlink_slots (Suc n) (sl # sls) lk = do {
     p \<leftarrow> sl_pchan sl;
     unlink_slots n sls (lk(p := None))
   }"

definition virthab_remove :: "nat \<Rightarrow> virt_state \<Rightarrow> virt_state option" where
  "virthab_remove vdev g = do {
     a \<leftarrow> get_vh vdev g;
     vh \<leftarrow> vs_heap g a;
     lk \<leftarrow> unlink_slots (vi_mmid_range vh) (vi_slots vh) (vs_link g);
     Some (g\<lparr>vs_link := lk, vs_list := remove1 a (vs_list g), vs_heap := (vs_heap g)(a := None)\<rparr>)
   }"

section \<open>The transport of a channel\<close>

text \<open>
  \<^verbatim>\<open>habhyp_commdev_alloc\<close>: the channel is created and, as the only one of its device, looked up again.
\<close>

definition habhyp_commdev_alloc_virtio :: "nat \<Rightarrow> hab_driver \<Rightarrow> (int \<times> nat option \<times> hab_driver) option" where
  "habhyp_commdev_alloc_virtio dev s = do {
     (ret, _, s1) \<leftarrow> habvirtio_pchan_create dev s;
     if ret \<noteq> 0 then Some (ret, None, s1)
     else do {
       (po, s2) \<leftarrow> hab_pchan_find_domid dev (- 2) s1;
       Some (0, po, s2)
     }
   }"

end
