(* ===== verification/Hab_Virtio_Own.thy ===== *)
theory Hab_Virtio_Own
  imports Hab_Virtio_Dev Hab_Virtio_Facts
begin

text \<open>
  Which virtio device serves which channels over probes, suspends, resumes and removals, and what goes
  wrong after a failed probe and after a resume.
\<close>

section \<open>Areas\<close>

text \<open>The mmids of a virtio device: its range in the table of devices.\<close>

definition area :: "virtio_id \<Rightarrow> u32 list" where
  "area i = (case virthab_range i of (st, n) \<Rightarrow> take n (dropWhile (\<lambda>m. m \<noteq> st) dev_ids))"

definition area_id :: "virtio_id \<Rightarrow> bool" where
  "area_id i \<longleftrightarrow> (case i of ID_HAB \<Rightarrow> False | ID_OTHER _ \<Rightarrow> False | _ \<Rightarrow> True)"

lemma areas:
  "area ID_BUFFERQ = [1001]" "area ID_MISC = [601]" "area ID_AUDIO = [101, 102, 103, 104]" "area ID_CAMERA = [201, 202]"
  "area ID_DISPLAY = [301, 302, 303, 304, 305]" "area ID_GRAPHICS = [401]" "area ID_VIDEO = [501, 502, 503]"
  "area ID_HAB = dev_ids"
  by code_simp+

lemma areas_apart: "area_id i \<Longrightarrow> area_id j \<Longrightarrow> i \<noteq> j \<Longrightarrow> set (area i) \<inter> set (area j) = {}"
  by (cases i; cases j) (simp_all add: area_id_def areas)

section \<open>The devices in the list\<close>

definition virt_inv :: "virt_state \<Rightarrow> bool" where
  "virt_inv g \<longleftrightarrow> distinct (vs_list g) \<and> (\<forall>a \<in> set (vs_list g). a < vs_next g) \<and>
     (\<forall>a vh. vs_heap g a = Some vh \<longrightarrow> a \<in> set (vs_list g)) \<and>
     (\<forall>a vh. vs_heap g a = Some vh \<longrightarrow> (vi_mmid_start vh, vi_mmid_range vh) = virthab_range (vi_id vh)) \<and>
     (\<forall>a b vh wh. a \<noteq> b \<longrightarrow> vs_heap g a = Some vh \<longrightarrow> vs_heap g b = Some wh \<longrightarrow> vi_id vh \<noteq> vi_id wh)"

text \<open>Changing what a device holds, but not which it is, or freeing it.\<close>

definition same_ids :: "virt_state \<Rightarrow> virt_state \<Rightarrow> bool" where
  "same_ids g g' \<longleftrightarrow> vs_next g' = vs_next g \<and> distinct (vs_list g') \<and> set (vs_list g') \<subseteq> set (vs_list g) \<and>
     (\<forall>a \<in> set (vs_list g). vs_heap g' a \<noteq> None \<longrightarrow> a \<in> set (vs_list g')) \<and>
     (\<forall>a vh'. vs_heap g' a = Some vh' \<longrightarrow> (\<exists>vh. vs_heap g a = Some vh \<and> vi_id vh' = vi_id vh \<and>
        vi_mmid_start vh' = vi_mmid_start vh \<and> vi_mmid_range vh' = vi_mmid_range vh))"

lemma virt_invD:
  assumes "virt_inv g"
  shows "distinct (vs_list g)" "a \<in> set (vs_list g) \<Longrightarrow> a < vs_next g" "vs_heap g a = Some vh \<Longrightarrow> a \<in> set (vs_list g)"
    "vs_heap g a = Some vh \<Longrightarrow> (vi_mmid_start vh, vi_mmid_range vh) = virthab_range (vi_id vh)"
    "a \<noteq> b \<Longrightarrow> vs_heap g a = Some vh \<Longrightarrow> vs_heap g b = Some wh \<Longrightarrow> vi_id vh \<noteq> vi_id wh"
  using assms unfolding virt_inv_def by blast+

lemma same_idsD:
  "same_ids g g' \<Longrightarrow> vs_heap g' a = Some vh' \<Longrightarrow> \<exists>vh. vs_heap g a = Some vh \<and> vi_id vh' = vi_id vh \<and>
     vi_mmid_start vh' = vi_mmid_start vh \<and> vi_mmid_range vh' = vi_mmid_range vh"
  by (simp add: same_ids_def)

lemma same_ids_inv: "same_ids g g' \<Longrightarrow> virt_inv g \<Longrightarrow> virt_inv g'"
proof -
  assume i: "virt_inv g" and sm: "same_ids g g'"
  note old = same_idsD [OF sm]
  have "a \<in> set (vs_list g')" if "vs_heap g' a = Some vh" for a vh
  proof -
    from old [OF that] obtain vh0 where "vs_heap g a = Some vh0" by blast
    then have "a \<in> set (vs_list g)" using i unfolding virt_inv_def by blast
    moreover have "vs_heap g' a \<noteq> None" using that by simp
    ultimately show ?thesis using sm unfolding same_ids_def by blast
  qed
  moreover have "(vi_mmid_start vh, vi_mmid_range vh) = virthab_range (vi_id vh)" if "vs_heap g' a = Some vh" for a vh
    using old [OF that] i by (auto simp: virt_inv_def)
  moreover have "vi_id vh \<noteq> vi_id wh" if "a \<noteq> b" "vs_heap g' a = Some vh" "vs_heap g' b = Some wh" for a b vh wh
  proof -
    note both = that
    obtain vh0 wh0 where "vs_heap g a = Some vh0" "vi_id vh = vi_id vh0" "vs_heap g b = Some wh0" "vi_id wh = vi_id wh0"
      using old [OF both(2)] old [OF both(3)] by blast
    with i both(1) show ?thesis by (auto simp: virt_inv_def)
  qed
  moreover have "distinct (vs_list g')" "\<forall>a \<in> set (vs_list g'). a < vs_next g'"
    using i sm by (auto simp: virt_inv_def same_ids_def)
  ultimately show ?thesis unfolding virt_inv_def by blast
qed

lemma same_ids_refl: "virt_inv g \<Longrightarrow> same_ids g g"
  by (simp add: same_ids_def virt_inv_def)

lemma same_ids_trans: "same_ids g h \<Longrightarrow> same_ids h k \<Longrightarrow> same_ids g k"
proof -
  assume 1: "same_ids g h" and 2: "same_ids h k"
  have "\<exists>vh. vs_heap g a = Some vh \<and> vi_id vk = vi_id vh \<and> vi_mmid_start vk = vi_mmid_start vh \<and>
      vi_mmid_range vk = vi_mmid_range vh" if "vs_heap k a = Some vk" for a vk
    using same_idsD [OF 2 that] same_idsD [OF 1, of a] by auto
  moreover have "a \<in> set (vs_list k)" if "a \<in> set (vs_list g)" "vs_heap k a \<noteq> None" for a
  proof -
    note both = that
    obtain vk vh where "vs_heap k a = Some vk" "vs_heap h a = Some vh" using same_idsD [OF 2, of a] both(2) by auto
    with 1 2 both(1) show ?thesis unfolding same_ids_def by blast
  qed
  ultimately show ?thesis using 1 2 unfolding same_ids_def by (intro conjI allI impI ballI) auto
qed

lemma same_ids_tbl: "same_ids g (g'\<lparr>vs_tbl := t, vs_link := l\<rparr>) = same_ids g g'" "same_ids g (g'\<lparr>vs_link := l\<rparr>) = same_ids g g'"
  by (simp_all add: same_ids_def)

lemma set_slots_same: "set_slots a sls g = Some g' \<Longrightarrow> distinct (vs_list g) \<Longrightarrow> same_ids g g'"
  by (auto simp: set_slots_def same_ids_def split: if_splits)

lemma set_ready_same: "set_ready a b g = Some g' \<Longrightarrow> distinct (vs_list g) \<Longrightarrow> same_ids g g'"
  by (auto simp: set_ready_def same_ids_def split: if_splits)

lemma same_ids_distinct: "same_ids g g' \<Longrightarrow> distinct (vs_list g')"
  by (simp add: same_ids_def)

lemma same_ids_free: "distinct (vs_list g) \<Longrightarrow> same_ids g (g\<lparr>vs_heap := (vs_heap g)(a := None)\<rparr>)"
  by (auto simp: same_ids_def)

lemma init_vqs_same:
  assumes "virthab_init_vqs fv a s g = Some (r, g')" "distinct (vs_list g)" shows "same_ids g g'"
proof -
  from assms(1) obtain vh ret sls g1 where 1: "vs_heap g a = Some vh" "virthab_init_vqs_pre vh s = Some (ret, sls)"
    "set_slots a sls g = Some g1" by (auto simp: virthab_init_vqs_def)
  have g1: "same_ids g g1" by (rule set_slots_same [OF 1(3) assms(2)])
  show ?thesis
  proof (cases "ret \<noteq> 0 \<or> fv \<noteq> 0")
    case True
    then have "g' = g1" using assms(1) 1 by (auto simp: virthab_init_vqs_def split: if_splits)
    with g1 show ?thesis by simp
  next
    case False
    then obtain sls1 lk where "set_slots a sls1 (g1\<lparr>vs_link := lk\<rparr>) = Some g'"
      using assms(1) 1 by (auto simp: virthab_init_vqs_def)
    then have "same_ids (g1\<lparr>vs_link := lk\<rparr>) g'" by (rule set_slots_same) (use same_ids_distinct [OF g1] in simp)
    then have "same_ids g1 g'" by (simp add: same_ids_def)
    with g1 show ?thesis by (rule same_ids_trans)
  qed
qed

lemma probe_start_same:
  assumes "probe_start e a s g = Some (r, s', g')" "distinct (vs_list g)" shows "same_ids g g'"
proof -
  from assms(1) obtain err g1 where 1: "virthab_init_vqs (pe_find_vqs e) a s g = Some (err, g1)"
    by (auto simp: probe_start_def)
  have g1: "same_ids g g1" by (rule init_vqs_same [OF 1 assms(2)])
  note d1 = same_ids_distinct [OF g1]
  show ?thesis
  proof (cases "err = 0")
    case False
    then have "g' = g1\<lparr>vs_heap := (vs_heap g1)(a := None)\<rparr>" using assms(1) 1 by (simp add: probe_start_def)
    with same_ids_trans [OF g1 same_ids_free [OF d1]] show ?thesis by simp
  next
    case True
    obtain vh where vh: "vs_heap g1 a = Some vh" using assms(1) 1 True by (auto simp: probe_start_def)
    obtain ret sls where q: "queue_all True (pe_mems e) (pe_oks e) (vi_mmid_range vh) (vi_slots vh) = (ret, sls)"
      by fastforce
    obtain g2 where 2: "set_slots a sls g1 = Some g2"
      "(if ret \<noteq> 0 then Some (ret, s, g2) else do { g3 \<leftarrow> set_ready a True g2; Some (0, s, g3) }) = Some (r, s', g')"
      using assms(1) 1 vh q True by (auto simp: probe_start_def)
    have g2: "same_ids g g2" by (rule same_ids_trans [OF g1 set_slots_same [OF 2(1) d1]])
    show ?thesis
    proof (cases "ret = 0")
      case True
      with 2 have "set_ready a True g2 = Some g'" by auto
      then show ?thesis using same_ids_trans [OF g2 set_ready_same] same_ids_distinct [OF g2] by blast
    qed (use 2 g2 in simp)
  qed
qed

lemma avail_new:
  "avail_from as h i st = Some True \<Longrightarrow> a \<in> set as \<Longrightarrow> h a = Some vh \<Longrightarrow> vi_id vh \<noteq> i"
  by (induction as) (auto split: if_splits)

text \<open>A new device.\<close>

definition new_vhab :: "virtio_id \<Rightarrow> nat \<Rightarrow> bool \<Rightarrow> nat \<Rightarrow> virtio_hab" where
  "new_vhab i vdev cbs n = \<lparr>vi_id = i, vi_vdev = vdev, vi_mmid_start = fst (virthab_range i),
     vi_mmid_range = snd (virthab_range i), vi_cbs = cbs, vi_ready = False, vi_slots = replicate n slot_zero\<rparr>"

definition add_vhab :: "virtio_hab \<Rightarrow> virt_state \<Rightarrow> virt_state" where
  "add_vhab vh g = g\<lparr>vs_list := vs_list g @ [vs_next g], vs_heap := (vs_heap g)(vs_next g \<mapsto> vh), vs_next := Suc (vs_next g)\<rparr>"

lemma virthab_alloc_cases:
  assumes "virthab_alloc i vdev st cnt s g = (r, ao, s1, g1)"
  obtains (fail) "r \<noteq> 0" "ao = None" "g1 = g"
  | (ok) cbs where "r = 0" "ao = Some (vs_next g)"
      "g1 = add_vhab \<lparr>vi_id = i, vi_vdev = vdev, vi_mmid_start = st, vi_mmid_range = cnt, vi_cbs = cbs, vi_ready = False,
         vi_slots = replicate (length (st_devs s1)) slot_zero\<rparr> g"
proof -
  obtain k t1 where k: "kalloc s = (k, t1)" by fastforce
  obtain ret cbs t2 where m: "virthab_alloc_mmid_device cnt t1 = (ret, cbs, t2)" by (rule prod_cases3)
  show thesis
  proof (cases "k \<and> ret = 0")
    case True
    with assms k m show thesis by (intro ok [of cbs]) (auto simp: virthab_alloc_def add_vhab_def Let_def)
  next
    case False
    with assms k m show thesis by (cases k) (auto simp: virthab_alloc_def intro: fail)
  qed
qed

lemma add_vhab_inv:
  assumes inv: "virt_inv g" and new: "\<And>a wh. vs_heap g a = Some wh \<Longrightarrow> vi_id wh \<noteq> i"
  shows "virt_inv (add_vhab (new_vhab i vdev cbs n) g)"
proof -
  let ?g = "add_vhab (new_vhab i vdev cbs n) g" and ?a = "vs_next g"
  note i = virt_invD [OF inv]
  have list: "vs_list ?g = vs_list g @ [?a]" "vs_next ?g = Suc ?a" by (simp_all add: add_vhab_def)
  have heap: "vs_heap ?g b = (if b = ?a then Some (new_vhab i vdev cbs n) else vs_heap g b)" for b
    by (simp add: add_vhab_def)
  have old: "b \<noteq> ?a" if "vs_heap g b = Some wh" for b wh using i(2) [OF i(3) [OF that]] by simp
  have id: "vi_id (new_vhab i vdev cbs n) = i" and
    rng: "(vi_mmid_start (new_vhab i vdev cbs n), vi_mmid_range (new_vhab i vdev cbs n)) = virthab_range i"
    by (simp_all add: new_vhab_def)
  have "distinct (vs_list ?g)" using i(1) i(2) [of ?a] by (auto simp: list)
  moreover have "b < vs_next ?g" if "b \<in> set (vs_list ?g)" for b using that i(2) [of b] by (auto simp: list)
  moreover have "b \<in> set (vs_list ?g)" if "vs_heap ?g b = Some vh" for b vh
    using that i(3) [of b] by (auto simp: list heap split: if_splits)
  moreover have "(vi_mmid_start vh, vi_mmid_range vh) = virthab_range (vi_id vh)" if "vs_heap ?g b = Some vh" for b vh
    using that i(4) [of b vh] id rng by (cases "b = ?a") (auto simp: heap)
  moreover have "vi_id vh \<noteq> vi_id wh" if "b \<noteq> c" "vs_heap ?g b = Some vh" "vs_heap ?g c = Some wh" for b c vh wh
    using that(1) that(2,3) [unfolded heap] i(5) [of b c vh wh] new [of b vh] new [of c wh] id by (auto split: if_splits)
  ultimately show ?thesis unfolding virt_inv_def by blast
qed

lemma probe_inv:
  assumes p: "virthab_probe e i vdev s g = Some (r, s', g')" and inv: "virt_inv g"
  shows "virt_inv g'"
proof (cases "pe_feature e")
  case True
  let ?g = "probe_tbl i vdev g"
  have i1: "virt_inv ?g" using inv by (simp add: probe_tbl_def virt_inv_def)
  obtain st cnt where rg: "virthab_range i = (st, cnt)" by fastforce
  from p True rg obtain ok where ok: "virthab_pchan_avail_check i st ?g = Some ok"
    by (auto simp: virthab_probe_def Let_def)
  show ?thesis
  proof (cases ok)
    case False
    then have "g' = ?g" using p True rg ok by (simp add: virthab_probe_def Let_def)
    with i1 show ?thesis by simp
  next
    case okT: True
    have new: "vi_id wh \<noteq> i" if "vs_heap ?g a = Some wh" for a wh
      using avail_new [of "vs_list ?g" "vs_heap ?g" i st a wh] ok okT that i1
      by (auto simp: virthab_pchan_avail_check_def virt_inv_def)
    obtain r2 ao s2 g2 where al: "virthab_alloc i vdev st cnt s ?g = (r2, ao, s2, g2)"
      by (cases "virthab_alloc i vdev st cnt s ?g") auto
    from al show ?thesis
    proof (cases rule: virthab_alloc_cases)
      case fail
      then have "g' = ?g" using p True rg ok okT al by (simp add: virthab_probe_def Let_def)
      with i1 show ?thesis by simp
    next
      case new_dev: (ok cbs)
      have start: "probe_start e (vs_next ?g) s2 g2 = Some (r, s', g')"
        using p True rg ok okT al new_dev by (simp add: virthab_probe_def Let_def)
      have "g2 = add_vhab (new_vhab i vdev cbs (length (st_devs s2))) ?g" using new_dev rg by (simp add: new_vhab_def)
      then have "virt_inv g2" using add_vhab_inv [OF i1 new] by simp
      then show ?thesis using same_ids_inv [OF probe_start_same [OF start]] by (simp add: virt_inv_def)
    qed
  qed
qed (use p inv in \<open>simp add: virthab_probe_def\<close>)

lemma freeze_inv: "virthab_freeze vdev g = Some (r, g') \<Longrightarrow> virt_inv g \<Longrightarrow> virt_inv g'"
  by (auto simp: virthab_freeze_def dest: virt_invD(1) intro: same_ids_inv set_ready_same)

lemma restore_inv:
  assumes "virthab_restore fv oks vdev s g = Some (r, g')" and inv: "virt_inv g" shows "virt_inv g'"
proof -
  note d = virt_invD(1)
  from assms(1) obtain a err g1 where 1: "get_vh vdev g = Some a" "virthab_init_vqs fv a s g = Some (err, g1)"
    by (auto simp: virthab_restore_def)
  have g1: "virt_inv g1" by (rule same_ids_inv [OF init_vqs_same [OF 1(2) d [OF inv]] inv])
  show ?thesis
  proof (cases "err = 0")
    case True
    with assms(1) 1 obtain g2 sls where 2: "set_ready a True g1 = Some g2" "set_slots a sls g2 = Some g'"
      by (auto simp: virthab_restore_def)
    have g2: "virt_inv g2" by (rule same_ids_inv [OF set_ready_same [OF 2(1) d [OF g1]] g1])
    show ?thesis by (rule same_ids_inv [OF set_slots_same [OF 2(2) d [OF g2]] g2])
  qed (use assms(1) 1 g1 in \<open>simp add: virthab_restore_def\<close>)
qed

lemma remove_inv:
  assumes "virthab_remove vdev g = Some g'" and inv: "virt_inv g" shows "virt_inv g'"
proof -
  note i = virt_invD [OF inv]
  from assms(1) obtain a lk where g': "g' = g\<lparr>vs_link := lk, vs_list := remove1 a (vs_list g), vs_heap := (vs_heap g)(a := None)\<rparr>"
    by (auto simp: virthab_remove_def)
  have "same_ids g g'" using i(1) by (auto simp: g' same_ids_def in_set_remove1)
  then show ?thesis using inv by (rule same_ids_inv)
qed

text \<open>The calls of the virtio core: any device, any answers, any order.\<close>

inductive virt_step :: "virt_state \<Rightarrow> virt_state \<Rightarrow> bool" where
  probes: "virthab_probe e i vdev s g = Some (r, s', g') \<Longrightarrow> virt_step g g'"
| freezes: "virthab_freeze vdev g = Some (r, g') \<Longrightarrow> virt_step g g'"
| restores: "virthab_restore fv oks vdev s g = Some (r, g') \<Longrightarrow> virt_step g g'"
| removes: "virthab_remove vdev g = Some g' \<Longrightarrow> virt_step g g'"

lemma virt_step_inv: "virt_step g g' \<Longrightarrow> virt_inv g \<Longrightarrow> virt_inv g'"
  by (induction rule: virt_step.induct) (blast intro: probe_inv freeze_inv restore_inv remove_inv)+

lemma virt_steps_inv: "virt_step\<^sup>*\<^sup>* g g' \<Longrightarrow> virt_inv g \<Longrightarrow> virt_inv g'"
  by (induction rule: rtranclp_induct) (auto intro: virt_step_inv)

lemma virt_init_inv: "virt_inv virt_init"
  by (simp add: virt_inv_def virt_init_def)

text \<open>
  C25. Whatever the virtio core does, two devices the driver holds never have the same id, and devices of the
  areas (all but the one for every channel) never serve a common channel.
\<close>
theorem virthab_devices_disjoint:
  assumes "virt_step\<^sup>*\<^sup>* virt_init g" and "vs_heap g a = Some vh" "vs_heap g b = Some wh" "a \<noteq> b"
  shows "vi_id vh \<noteq> vi_id wh \<and> vi_mmid_start vh = fst (virthab_range (vi_id vh)) \<and>
    vi_mmid_range vh = snd (virthab_range (vi_id vh)) \<and>
    (area_id (vi_id vh) \<longrightarrow> area_id (vi_id wh) \<longrightarrow> set (area (vi_id vh)) \<inter> set (area (vi_id wh)) = {})"
proof -
  note i = virt_invD [OF virt_steps_inv [OF assms(1) virt_init_inv]]
  have ne: "vi_id vh \<noteq> vi_id wh" by (rule i(5) [OF assms(4,2,3)])
  moreover have "vi_mmid_start vh = fst (virthab_range (vi_id vh))" "vi_mmid_range vh = snd (virthab_range (vi_id vh))"
    using i(4) [OF assms(2)] by (metis fst_conv, metis snd_conv)
  ultimately show ?thesis using areas_apart by blast
qed

section \<open>A failed probe\<close>

definition known_id :: "virtio_id \<Rightarrow> bool" where
  "known_id i \<longleftrightarrow> (case i of ID_OTHER _ \<Rightarrow> False | _ \<Rightarrow> True)"

lemma find_known:
  "find_hab_device (fst (virthab_range ID_HAB)) = Some 0" "find_hab_device (fst (virthab_range ID_BUFFERQ)) = Some 20"
  "find_hab_device (fst (virthab_range ID_MISC)) = Some 15" "find_hab_device (fst (virthab_range ID_AUDIO)) = Some 0"
  "find_hab_device (fst (virthab_range ID_CAMERA)) = Some 4" "find_hab_device (fst (virthab_range ID_DISPLAY)) = Some 6"
  "find_hab_device (fst (virthab_range ID_GRAPHICS)) = Some 11" "find_hab_device (fst (virthab_range ID_VIDEO)) = Some 12"
  by code_simp+

lemma length_dev_ids: "length dev_ids = 30"
  by code_simp

lemma known_range:
  assumes "known_id i"
  obtains idx where "find_hab_device (fst (virthab_range i)) = Some idx" "idx + snd (virthab_range i) \<le> length dev_ids"
proof -
  have "\<exists>idx. find_hab_device (fst (virthab_range i)) = Some idx \<and> idx + snd (virthab_range i) \<le> length dev_ids"
    using assms by (cases i) (simp_all only: find_known, simp_all add: known_id_def virthab_range_def length_dev_ids)
  with that show thesis by blast
qed

lemma alloc_ok:
  assumes "st_mem s = []"
  shows "virthab_alloc i vdev st cnt s g = (0, Some (vs_next g), s, add_vhab \<lparr>vi_id = i, vi_vdev = vdev,
    vi_mmid_start = st, vi_mmid_range = cnt, vi_cbs = True, vi_ready = False,
    vi_slots = replicate (length (st_devs s)) slot_zero\<rparr> g)"
proof -
  have k: "kalloc s = (True, s)" using assms by (simp add: kalloc_def)
  have "kallocs n s = (True, s)" for n by (induction n) (simp_all add: k)
  then show ?thesis by (simp add: virthab_alloc_def virthab_alloc_mmid_device_def k add_vhab_def Let_def)
qed

text \<open>
  C39. A probe of a known device whose virtqueues cannot be set up returns the error and frees the device, but
  leaves it in the list: the next probe of any device follows the freed entry.
\<close>
theorem failed_probe_then_fault:
  assumes g: "vs_list g = []" and i: "known_id i" and s: "st_mem s = []" "length (st_devs s) = length dev_ids"
    and e: "pe_feature e" "pe_find_vqs e \<noteq> 0" "pe_feature e'"
  shows "\<exists>g'. virthab_probe e i vdev s g = Some (pe_find_vqs e, s, g') \<and> virthab_probe e' j vdev' s' g' = None"
proof -
  let ?g = "probe_tbl i vdev g"
  obtain st cnt where rg: "virthab_range i = (st, cnt)" by fastforce
  obtain st' cnt' where rg': "virthab_range j = (st', cnt')" by fastforce
  from known_range [OF i] rg obtain idx where idx: "find_hab_device st = Some idx" "idx + cnt \<le> length dev_ids" by auto
  have list: "vs_list ?g = []" using g by (simp add: probe_tbl_def)
  define vh where "vh = \<lparr>vi_id = i, vi_vdev = vdev, vi_mmid_start = st, vi_mmid_range = cnt, vi_cbs = True, vi_ready = False,
    vi_slots = replicate (length (st_devs s)) slot_zero\<rparr>"
  obtain sls where "virthab_init_vqs_pre vh s = Some (0, sls)"
    using idx s(2) by (simp add: virthab_init_vqs_pre_def vh_def)
  then have init: "virthab_init_vqs (pe_find_vqs e) (vs_next ?g) s (add_vhab vh ?g) = Some (pe_find_vqs e,
      (add_vhab vh ?g)\<lparr>vs_heap := (vs_heap (add_vhab vh ?g))(vs_next ?g \<mapsto> vh\<lparr>vi_slots := sls\<rparr>)\<rparr>)"
    using e(2) by (simp add: virthab_init_vqs_def set_slots_def add_vhab_def)
  define g' where "g' = (add_vhab vh ?g)\<lparr>vs_heap := (vs_heap ?g)(vs_next ?g := None)\<rparr>"
  have avail: "virthab_pchan_avail_check i st ?g = Some True" using list by (simp add: virthab_pchan_avail_check_def)
  have "probe_start e (vs_next ?g) s (add_vhab vh ?g) = Some (pe_find_vqs e, s, g')"
    using init e(2) by (simp add: probe_start_def g'_def add_vhab_def)
  then have "virthab_probe e i vdev s g = Some (pe_find_vqs e, s, g')"
    using e(1) avail alloc_ok [OF s(1), of i vdev st cnt ?g] by (simp add: virthab_probe_def rg Let_def vh_def)
  moreover have "virthab_probe e' j vdev' s' g' = None"
    using e(3) list by (simp add: virthab_probe_def rg' Let_def virthab_pchan_avail_check_def probe_tbl_def g'_def add_vhab_def)
  ultimately show ?thesis by blast
qed

text \<open>
  The device for every channel does not exclude the others: probed after the one for buffer queues it is
  accepted, although its area contains that one's.
\<close>

lemma hab_device_shares_channels:
  assumes "vi_id vh = ID_BUFFERQ" "(vi_mmid_start vh, vi_mmid_range vh) = virthab_range ID_BUFFERQ"
  shows "avail_from [a] [a \<mapsto> vh] ID_HAB (fst (virthab_range ID_HAB)) = Some True"
    "set (area ID_BUFFERQ) \<subseteq> set (area ID_HAB)"
proof -
  have "taken_range_calc 1001 1 = Some (1001, 1001)" by code_simp
  moreover have "fst (virthab_range ID_HAB) = 101" by code_simp
  moreover have "vi_mmid_start vh = 1001" "vi_mmid_range vh = 1" using assms by (simp_all add: virthab_range_def)
  ultimately show "avail_from [a] [a \<mapsto> vh] ID_HAB (fst (virthab_range ID_HAB)) = Some True" using assms by simp
  show "set (area ID_BUFFERQ) \<subseteq> set (area ID_HAB)" by code_simp
qed

section \<open>Suspend and resume\<close>

lemma add_inbufs_empty: "distinct bs \<Longrightarrow> set bs \<subseteq> set (vq_list v PT_IN) \<Longrightarrow> length bs = length (vq_list v PT_IN) \<Longrightarrow>
    vq_list (add_inbufs oks bs v) PT_IN = []"
proof (induction oks bs v rule: add_inbufs.induct)
  case (2 oks b bs v)
  let ?v = "v\<lparr>vq_list := (vq_list v)(PT_IN := remove1 b (vq_list v PT_IN)),
      vq_rx := (if oks = [] \<or> hd oks then vq_rx v @ [b] else vq_rx v), vq_cnt := (vq_cnt v)(PT_IN := vq_cnt v PT_IN - 1)\<rparr>"
  have "x \<in> set (remove1 b (vq_list v PT_IN))" if "x \<in> set bs" for x
  proof -
    have "x \<noteq> b" "x \<in> set (vq_list v PT_IN)" using "2.prems" that by auto
    then show ?thesis by simp
  qed
  then have "set bs \<subseteq> set (remove1 b (vq_list v PT_IN))" by blast
  moreover have "length bs = length (remove1 b (vq_list v PT_IN))" using "2.prems" by (simp add: length_remove1)
  ultimately have "vq_list (add_inbufs (tl oks) bs ?v) PT_IN = []" using 2 by simp
  then show ?case by simp
qed simp

lemma add_inbufs_rx: "vq_list v PT_IN = [] \<Longrightarrow> virthab_queue_inbufs False m oks v = (0, v)"
  by (simp add: virthab_queue_inbufs_def)

text \<open>
  After the buffers were queued for the first time the list of the pool is empty, and stays so: what
  resuming queues from it is nothing, so a channel that lost its virtqueue to a suspend has no buffer to
  receive into any more.
\<close>
theorem restore_queues_nothing:
  assumes "virthab_queue_inbufs True True oks v = (r, v1)"
  shows "r = 0 \<and> vq_list v1 PT_IN = [] \<and> virthab_queue_inbufs False m oks' v1 = (0, v1)"
proof -
  let ?v = "alloc_pools v"
  have "distinct (vq_list ?v PT_IN)"
    by (simp add: alloc_pools_def init_pool_list_eq distinct_map inj_on_def)
  then have "vq_list (add_inbufs oks (vq_list ?v PT_IN) ?v) PT_IN = []" by (intro add_inbufs_empty) simp_all
  then show ?thesis using assms add_inbufs_rx by (auto simp: virthab_queue_inbufs_def Let_def)
qed

section \<open>Examples\<close>

text \<open>The example's driver with all the devices of the table, each with the same channel.\<close>

definition drv_virt :: hab_driver where
  "drv_virt = drv_ex\<lparr>st_devs := map (\<lambda>m. \<lparr>dv_id = m, dv_pchannels = [1], dv_pchan_cnt = 1, dv_openq_list = [],
     dv_openq_cnt = 0, dv_head_dom = 0\<rparr>) dev_ids\<rparr>"

text \<open>No memory for the pools: the probe fails after the device is in the list.\<close>

definition env_ex :: "int \<Rightarrow> probe_env" where
  "env_ex fv = \<lparr>pe_feature = True, pe_find_vqs = fv, pe_mems = [False], pe_oks = []\<rparr>"

definition two_probes :: bool where
  "two_probes = (case virthab_probe (env_ex 0) ID_BUFFERQ 1 drv_virt virt_init of None \<Rightarrow> False | Some (r, s, g) \<Rightarrow>
     (case virthab_probe (env_ex 0) ID_MISC 2 s g of None \<Rightarrow> False | Some (r2, s2, g2) \<Rightarrow>
       map_option vi_id (vs_heap g2 0) = Some ID_BUFFERQ \<and> map_option vi_id (vs_heap g2 1) = Some ID_MISC))"

lemma two_probes: "two_probes"
  by code_simp

theorem virthab_devices_disjoint_witness:
  "\<exists>g vh wh. virt_step\<^sup>*\<^sup>* virt_init g \<and> vs_heap g 0 = Some vh \<and> vs_heap g 1 = Some wh \<and>
     vi_id vh = ID_BUFFERQ \<and> vi_id wh = ID_MISC \<and> set (area (vi_id vh)) \<inter> set (area (vi_id wh)) = {}"
proof -
  from two_probes obtain r s g r2 s2 g2 vh wh where
    p: "virthab_probe (env_ex 0) ID_BUFFERQ 1 drv_virt virt_init = Some (r, s, g)"
      "virthab_probe (env_ex 0) ID_MISC 2 s g = Some (r2, s2, g2)"
    and h: "vs_heap g2 0 = Some vh" "vs_heap g2 1 = Some wh" "vi_id vh = ID_BUFFERQ" "vi_id wh = ID_MISC"
    by (auto simp: two_probes_def split: option.splits prod.splits)
  have run: "virt_step\<^sup>*\<^sup>* virt_init g2"
    by (rule converse_rtranclp_into_rtranclp [of virt_step, OF probes [OF p(1)] r_into_rtranclp [of virt_step, OF probes [OF p(2)]]])
  from virthab_devices_disjoint [OF run h(1,2)] h show ?thesis using run by (auto simp: area_id_def)
qed

theorem failed_probe_then_fault_witness:
  "\<exists>g'. virthab_probe (env_ex (- 12)) ID_MISC 1 drv_virt virt_init = Some (- 12, drv_virt, g') \<and>
     virthab_probe (env_ex 0) ID_AUDIO 2 drv_virt g' = None"
  using failed_probe_then_fault [of virt_init ID_MISC drv_virt "env_ex (- 12)" "env_ex 0" 1 ID_AUDIO 2 drv_virt]
  by (simp add: virt_init_def known_id_def drv_virt_def drv_ex_def env_ex_def)

theorem restore_queues_nothing_witness:
  "\<exists>v1. virthab_queue_inbufs True True [] vpc_zero = (0, v1) \<and> virthab_queue_inbufs False True [] v1 = (0, v1)"
  using restore_queues_nothing [of "[]" vpc_zero] by (cases "virthab_queue_inbufs True True [] vpc_zero") auto

end
