(* ===== verification/Hab_Loopback.thy ===== *)
theory Hab_Loopback
  imports Hab_Delivery
begin

text \<open>
  The loopback device of \<^verbatim>\<open>hab_comm.c\<close>, which hands what one virtual channel sends to another one of the
  same driver: the thread that takes messages off the list, and the creation and removal of the channel.
  The thread holds \<^verbatim>\<open>io_lock\<close> from its first message to its last; a sender needs the same lock.
\<close>

section \<open>The thread\<close>

definition loop_dev :: "nat \<Rightarrow> hab_driver \<Rightarrow> loopback_dev option" where
  "loop_dev p s = do {
     pc \<leftarrow> st_pchans s p;
     (case pc_hyp_data pc of HypLoop lb \<Rightarrow> Some lb | _ \<Rightarrow> None)
   }"

definition mod_loop :: "nat \<Rightarrow> (loopback_dev \<Rightarrow> loopback_dev) \<Rightarrow> hab_driver \<Rightarrow> hab_driver option" where
  "mod_loop p f s = do { lb \<leftarrow> loop_dev p s; set_hyp p (HypLoop (f lb)) s }"

definition lb_thread_queue_empty :: "nat \<Rightarrow> hab_driver \<Rightarrow> bool option" where
  "lb_thread_queue_empty p s = do { lb \<leftarrow> loop_dev p s; Some (lb_msg_list lb = []) }"

text \<open>The oldest message becomes the current one and leaves the list.\<close>

definition lb_take :: "hab_header \<times> bytes \<Rightarrow> (hab_header \<times> bytes) list \<Rightarrow> loopback_dev \<Rightarrow> loopback_dev" where
  "lb_take m ms lb = lb\<lparr>lb_msg_list := ms, lb_msg_cnt := lb_msg_cnt lb - 1, lb_current := Some m\<rparr>"

lemma loop_devD: "loop_dev p s = Some lb \<Longrightarrow> \<exists>pc. st_pchans s p = Some pc \<and> pc_hyp_data pc = HypLoop lb"
proof (cases "st_pchans s p")
  case (Some pc)
  then show "loop_dev p s = Some lb \<Longrightarrow> ?thesis" by (cases "pc_hyp_data pc") (simp_all add: loop_dev_def)
qed (simp add: loop_dev_def)

lemma outq_loop: "loop_dev p s = Some lb \<Longrightarrow> pchan_outq s p = lb_msg_list lb"
  by (auto simp: pchan_outq_def dest!: loop_devD)

lemma outq_set_hyp: "set_hyp p (HypLoop lb) s = Some s' \<Longrightarrow> pchan_outq s' p = lb_msg_list lb"
  by (auto simp: set_hyp_def pchan_outq_def)

text \<open>
  The list is drained under the lock.  While it is held, only the thread itself can have put a message on
  the list; a handler that did so took the lock a second time, which never returns.
\<close>

datatype lb_drained = LbEmpty | LbDeadlock

function lb_drain :: "nat \<Rightarrow> hab_driver \<Rightarrow> (lb_drained \<times> hab_driver) option" where
  "lb_drain p s = do {
     lb \<leftarrow> loop_dev p s;
     (case lb_msg_list lb of
        [] \<Rightarrow> Some (LbEmpty, s)
      | m # ms \<Rightarrow> do {
          s1 \<leftarrow> set_hyp p (HypLoop (lb_take m ms lb)) s;
          (r, s2) \<leftarrow> hab_msg_recv p (fst m) s1;
          lb2 \<leftarrow> loop_dev p s2;
          if lb_msg_list lb2 \<noteq> ms then Some (LbDeadlock, s2)
          else do {
            s3 \<leftarrow> set_hyp p (HypLoop (lb2\<lparr>lb_current := None\<rparr>)) s2;
            lb_drain p s3
          }
        })
   }"
  by pat_completeness auto
termination
  by (relation "measure (\<lambda>(p, s). length (pchan_outq s p))")
    (auto simp: outq_loop outq_set_hyp)

declare lb_drain.simps [simp del]

text \<open>
  What happens while the thread sleeps: other threads change the state, a signal wakes it, or the thread
  that removes the device stops it.  A schedule that ends leaves the thread asleep.
\<close>

datatype lb_event = LbEnv "hab_driver \<Rightarrow> hab_driver option" | LbSignal | LbStop

datatype lb_state = LbSleeping | LbStuck | LbExited

fun lb_kthread :: "nat \<Rightarrow> lb_event list \<Rightarrow> hab_driver \<Rightarrow> (lb_state \<times> hab_driver) option" where
  "lb_kthread p [] s = do {
     (r, s1) \<leftarrow> lb_drain p s;
     Some (if r = LbDeadlock then LbStuck else LbSleeping, s1)
   }"
| "lb_kthread p (ev # evs) s = do {
     (r, s1) \<leftarrow> lb_drain p s;
     if r = LbDeadlock then Some (LbStuck, s1)
     else (case ev of
        LbEnv f \<Rightarrow> do { s2 \<leftarrow> f s1; lb_kthread p evs s2 }
      | LbSignal \<Rightarrow> lb_kthread p evs s1
      | LbStop \<Rightarrow> Some (LbExited, s1))
   }"

section \<open>Creating and removing the channel\<close>

text \<open>
  \<open>started\<close> is the answer of \<^verbatim>\<open>kthread_run\<close>, \<open>early\<close> whether the new thread runs before \<^verbatim>\<open>hyp_data\<close> is
  assigned, which it then reads as NULL.  The error path frees the channel, which the device still lists.
\<close>

definition loopback_pchan_create :: "int \<Rightarrow> bool \<Rightarrow> nat \<Rightarrow> hab_driver \<Rightarrow> (int \<times> hab_driver) option" where
  "loopback_pchan_create started early d s = do {
     (po, s1) \<leftarrow> hab_pchan_alloc d LOOPBACK_DOM s;
     (case po of
        None \<Rightarrow> Some (- ENOMEM, s1)
      | Some p \<Rightarrow> do {
          s2 \<leftarrow> mod_pchan p (\<lambda>pc. pc\<lparr>pc_closed := False\<rparr>) s1;
          (case kalloc s2 of (ok, s3) \<Rightarrow>
            if \<not> ok then Some (- ENOMEM, s3\<lparr>st_pchans := (st_pchans s3)(p := None)\<rparr>)
            else if started < 0 then Some (started, s3\<lparr>st_pchans := (st_pchans s3)(p := None)\<rparr>)
            else if early then None
            else do {
              s4 \<leftarrow> set_hyp p (HypLoop \<lparr>lb_msg_list = [], lb_msg_cnt = 0, lb_current = None\<rparr>) s3;
              Some (0, s4)
            })
        })
   }"

text \<open>The first channel of the device is looked up and its name read after the reference is put.\<close>

definition loopback_commdev_alloc ::
  "int \<Rightarrow> bool \<Rightarrow> nat \<Rightarrow> hab_driver \<Rightarrow> (int \<times> nat option \<times> hab_driver) option" where
  "loopback_commdev_alloc started early d s = do {
     (ret, s1) \<leftarrow> loopback_pchan_create started early d s;
     if ret \<noteq> 0 then Some (ret, None, s1)
     else do {
       (po, s2) \<leftarrow> hab_pchan_find_domid d HABCFG_VMID_DONT_CARE s1;
       p \<leftarrow> po;
       s3 \<leftarrow> hab_pchan_put p s2;
       pc \<leftarrow> st_pchans s3 p;
       Some (0, Some p, s3)
     }
   }"

text \<open>Messages still on the list are freed, the sleeping thread is stopped, and the channel is put.\<close>

definition loopback_commdev_dealloc :: "nat \<Rightarrow> hab_driver \<Rightarrow> (int \<times> hab_driver) option" where
  "loopback_commdev_dealloc p s = do {
     s1 \<leftarrow> mod_loop p (\<lambda>lb. lb\<lparr>lb_msg_list := [], lb_msg_cnt := lb_msg_cnt lb - int (length (lb_msg_list lb))\<rparr>) s;
     (r, s2) \<leftarrow> lb_kthread p [LbStop] s1;
     s3 \<leftarrow> hab_pchan_put p s2;
     Some (0, s3)
   }"

section \<open>What the thread delivers\<close>

lemma loop_alloc_flat:
  assumes "st_pchans s p = Some pc" "pc_hyp_data pc = HypLoop lb" "lb_current lb = Some (h, b)" "st_mem s = []"
    "length b \<le> 0x7D000"
  shows "hab_msg_alloc p (length b) s =
    Some (Some \<lparr>ms_sizebytes = length b, ms_sequence_rx = pc_sequence_rx pc, ms_body = Flat b\<rparr>, s)"
  using assms by (simp add: hab_msg_alloc_def kalloc_def physical_channel_read_def loopback_read_def
      to_size_t_nonneg into_zeroed_def)

lemma loop_recv_delivers:
  assumes adr: "addressed s p h v vc" and ty: "HAB_HEADER_GET_TYPE h = payload_code ty" "plain_type ty"
    and pc: "st_pchans s p = Some pc" "pc_hyp_data pc = HypLoop lb" "lb_current lb = Some (h', b)" and mem: "st_mem s = []"
    and n: "unat (HAB_HEADER_GET_SIZE h) = length b" "length b \<le> 0x7D000"
  shows "hab_msg_recv p h s = Some (0, s\<lparr>st_vchans := (st_vchans s)(v \<mapsto> vc\<lparr>vc_rx_list := vc_rx_list vc @
        [\<lparr>ms_sizebytes = length b, ms_sequence_rx = pc_sequence_rx pc, ms_body = Flat b\<rparr>]\<rparr>)\<rparr>)"
proof -
  let ?m = "\<lparr>ms_sizebytes = length b, ms_sequence_rx = pc_sequence_rx pc, ms_body = Flat b\<rparr>"
  let ?s1 = "with_ref v vc s"
  have v: "st_vchans s v = Some vc" "\<not> vc_otherend_closed vc" "0 < vc_refcount vc"
    using adr by (auto simp: addressed_def)
  have alloc: "hab_msg_alloc p (length b) ?s1 = Some (Some ?m, ?s1)"
    using loop_alloc_flat [of ?s1 p pc lb h' b] pc mem n by simp
  have "recv_message p v (length b) ?s1 = Some (?s1\<lparr>
      st_vchans := (st_vchans s)(v \<mapsto> vc\<lparr>vc_refcount := vc_refcount vc + 1, vc_rx_list := vc_rx_list vc @ [?m]\<rparr>)\<rparr>)"
    unfolding recv_message_def alloc by (simp add: hab_msg_queue_def mod_eqs(2))
  then show ?thesis
    using addressed_get [OF adr] recv_plain [OF ty(2)] ty(1) n(1) v
    by (simp add: hab_msg_recv_def mod_eqs(2) put_listed Let_def)
qed

text \<open>Where a message goes, and the state with the messages of a list queued where they go.\<close>

definition lb_target :: "physical_channel \<Rightarrow> hab_header \<Rightarrow> nat option" where
  "lb_target pc h = idr_find (pc_vchan_idr pc) (unat (HAB_VCID_GET_ID (HAB_HEADER_GET_ID h)))"

definition lb_message :: "physical_channel \<Rightarrow> hab_header \<times> bytes \<Rightarrow> hab_message" where
  "lb_message pc m = \<lparr>ms_sizebytes = length (snd m), ms_sequence_rx = pc_sequence_rx pc, ms_body = Flat (snd m)\<rparr>"

definition rx_append :: "physical_channel \<Rightarrow> (hab_header \<times> bytes) list \<Rightarrow> nat \<Rightarrow> virtual_channel \<Rightarrow> virtual_channel" where
  "rx_append pc ms v vc = vc\<lparr>vc_rx_list := vc_rx_list vc @
     map (lb_message pc) (filter (\<lambda>m. lb_target pc (fst m) = Some v) ms)\<rparr>"

definition plain_for :: "hab_driver \<Rightarrow> nat \<Rightarrow> hab_header \<times> bytes \<Rightarrow> bool" where
  "plain_for s p m \<longleftrightarrow> (\<exists>v vc. addressed s p (fst m) v vc) \<and>
     (\<exists>ty. HAB_HEADER_GET_TYPE (fst m) = payload_code ty \<and> plain_type ty) \<and>
     unat (HAB_HEADER_GET_SIZE (fst m)) = length (snd m) \<and> length (snd m) \<le> 0x7D000"

text \<open>
  C26. The loopback thread empties a list of ordinary messages, each of at most 0x7D000 bytes and addressed to an
  open virtual channel, while allocations succeed: every message on it is at the end in that channel's queue,
  with the bytes and in the order they were sent, and nothing else of the channels, contexts and exports is
  touched.  (An import request on the list hangs the thread instead, \<open>import_request_hangs_loopback\<close>.)
\<close>
theorem loopback_delivers_in_order:
  assumes pc: "st_pchans s p = Some pc" "pc_hyp_data pc = HypLoop lb" and mem: "st_mem s = []"
    and ms: "\<And>m. m \<in> set (lb_msg_list lb) \<Longrightarrow> plain_for s p m"
  shows "\<exists>lb'. lb_msg_list lb' = [] \<and> lb_msg_cnt lb' = lb_msg_cnt lb - int (length (lb_msg_list lb)) \<and>
    lb_drain p s = Some (LbEmpty, s\<lparr>
      st_pchans := (st_pchans s)(p \<mapsto> pc\<lparr>pc_hyp_data := HypLoop lb'\<rparr>),
      st_vchans := (\<lambda>v. map_option (rx_append pc (lb_msg_list lb) v) (st_vchans s v))\<rparr>)"
  using assms
proof (induction "lb_msg_list lb" arbitrary: s lb pc)
  case Nil
  have l: "lb_msg_list lb = []" using Nil(1) by simp
  have "(\<lambda>v. map_option (rx_append pc [] v) (st_vchans s v)) = st_vchans s"
    by (auto simp: rx_append_def fun_eq_iff map_option_case split: option.split)
  moreover have "(st_pchans s)(p \<mapsto> pc\<lparr>pc_hyp_data := HypLoop lb\<rparr>) = st_pchans s" using Nil(2,3) by auto
  ultimately have same: "s\<lparr>st_pchans := (st_pchans s)(p \<mapsto> pc\<lparr>pc_hyp_data := HypLoop lb\<rparr>),
      st_vchans := (\<lambda>v. map_option (rx_append pc (lb_msg_list lb) v) (st_vchans s v))\<rparr> = s"
    unfolding l by simp
  have run: "lb_drain p s = Some (LbEmpty, s)"
    using l Nil(2,3) by (simp add: lb_drain.simps [of p s] loop_dev_def)
  show ?case by (intro exI [of _ lb] conjI l) (simp add: l, simp only: same run)
next
  case (Cons m ms)
  obtain h b where m: "m = (h, b)" by fastforce
  let ?lb1 = "lb_take m ms lb"
  let ?pc1 = "pc\<lparr>pc_hyp_data := HypLoop ?lb1\<rparr>"
  let ?s1 = "s\<lparr>st_pchans := (st_pchans s)(p \<mapsto> ?pc1)\<rparr>"
  have list: "lb_msg_list lb = (h, b) # ms" using Cons(2) m by simp
  have "plain_for s p (h, b)" using Cons(6) list by simp
  then obtain v vc ty where a: "addressed s p h v vc" "HAB_HEADER_GET_TYPE h = payload_code ty" "plain_type ty"
    "unat (HAB_HEADER_GET_SIZE h) = length b" "length b \<le> 0x7D000" unfolding plain_for_def by auto
  have a1: "addressed ?s1 p h v vc" using a(1) Cons(3) by (auto simp: addressed_def)
  have v: "st_vchans s v = Some vc" "lb_target pc h = Some v" using a(1) Cons(3) by (auto simp: addressed_def lb_target_def)
  let ?vc = "vc\<lparr>vc_rx_list := vc_rx_list vc @ [lb_message pc m]\<rparr>"
  have run: "hab_msg_recv p h ?s1 = Some (0, ?s1\<lparr>st_vchans := (st_vchans s)(v \<mapsto> ?vc)\<rparr>)"
    using loop_recv_delivers [OF a1 a(2,3), of ?pc1 ?lb1 h b] a(4,5) Cons(5) m
    by (simp add: lb_take_def lb_message_def)
  let ?lb3 = "?lb1\<lparr>lb_current := None\<rparr>"
  let ?pc3 = "pc\<lparr>pc_hyp_data := HypLoop ?lb3\<rparr>"
  let ?s3 = "s\<lparr>st_vchans := (st_vchans s)(v \<mapsto> ?vc), st_pchans := (st_pchans s)(p \<mapsto> ?pc3)\<rparr>"
  have step: "lb_drain p s = lb_drain p ?s3"
    using list m run Cons(3,4) by (simp add: lb_drain.simps [of p s] loop_dev_def set_hyp_def mod_pchan_def lb_take_def)
  have rest: "plain_for ?s3 p x" if "x \<in> set (lb_msg_list ?lb3)" for x
  proof -
    have "plain_for s p x" using that Cons(6) list by (simp add: lb_take_def)
    then obtain w wc where "addressed s p (fst x) w wc" unfolding plain_for_def by auto
    then have "addressed ?s3 p (fst x) w (if w = v then ?vc else wc)"
      using Cons(3) v by (auto simp: addressed_def)
    with \<open>plain_for s p x\<close> show ?thesis unfolding plain_for_def by blast
  qed
  have "\<exists>lb'. lb_msg_list lb' = [] \<and> lb_msg_cnt lb' = lb_msg_cnt ?lb3 - int (length (lb_msg_list ?lb3)) \<and>
    lb_drain p ?s3 = Some (LbEmpty, ?s3\<lparr>
      st_pchans := (st_pchans ?s3)(p \<mapsto> ?pc3\<lparr>pc_hyp_data := HypLoop lb'\<rparr>),
      st_vchans := (\<lambda>w. map_option (rx_append ?pc3 (lb_msg_list ?lb3) w) (st_vchans ?s3 w))\<rparr>)"
    by (rule Cons(1)) (use rest Cons(5) in \<open>simp_all add: lb_take_def\<close>)
  then obtain lb' where lb': "lb_msg_list lb' = []" "lb_msg_cnt lb' = lb_msg_cnt lb - int (length (lb_msg_list lb))"
    "lb_drain p ?s3 = Some (LbEmpty, ?s3\<lparr>
      st_pchans := (st_pchans ?s3)(p \<mapsto> ?pc3\<lparr>pc_hyp_data := HypLoop lb'\<rparr>),
      st_vchans := (\<lambda>w. map_option (rx_append ?pc3 ms w) (st_vchans ?s3 w))\<rparr>)"
    using list by (auto simp: lb_take_def)
  have "(\<lambda>w. map_option (rx_append ?pc3 ms w) (st_vchans ?s3 w)) =
      (\<lambda>w. map_option (rx_append pc (lb_msg_list lb) w) (st_vchans s w))"
    using v list m by (auto simp: rx_append_def lb_target_def lb_message_def fun_eq_iff map_option_case split: option.split)
  with lb' step show ?case by (intro exI [of _ lb']) simp
qed

section \<open>Answers sent under the lock\<close>

text \<open>With memory at hand, a send on a loopback channel puts one message on the list.\<close>

lemma loop_send_grows:
  assumes run: "physical_channel_send p h pl s = Some (r, s')" and lb: "loop_dev p s = Some lb" and mem: "st_mem s = []"
  shows "\<exists>lb' m. loop_dev p s' = Some lb' \<and> lb_msg_list lb' = lb_msg_list lb @ [m]" "st_vchans s' = st_vchans s"
proof -
  from loop_devD [OF lb] obtain pc where pc: "st_pchans s p = Some pc" "pc_hyp_data pc = HypLoop lb" by blast
  have "loopback_send p lb h pl s = Some (r, s')" using run pc by (simp add: physical_channel_send_def)
  then show "\<exists>lb' m. loop_dev p s' = Some lb' \<and> lb_msg_list lb' = lb_msg_list lb @ [m]" "st_vchans s' = st_vchans s"
    using mem by (auto simp: loopback_send_def kalloc_def set_hyp_def loop_dev_def bind_eq_Some_conv)
qed

text \<open>Every import request is answered, with the descriptor or with a refusal.\<close>

lemma recv_import_answers:
  assumes run: "recv_import p v s = Some s'" and lb: "loop_dev p s = Some lb" "lb_current lb = Some m" and mem: "st_mem s = []"
    and v: "st_vchans s v = Some vc" "vc_pchan vc = p"
  shows "\<exists>lb' m'. loop_dev p s' = Some lb' \<and> lb_msg_list lb' = lb_msg_list lb @ [m']" "st_vchans s' = st_vchans s"
proof -
  from loop_devD [OF lb(1)] obtain pc where pc: "st_pchans s p = Some pc" "pc_hyp_data pc = HypLoop lb" by blast
  obtain b where "physical_channel_read p import_data_size s = Some (int import_data_size, b, s)"
    using pc lb(2) by (cases m) (simp add: physical_channel_read_def loopback_read_def)
  note rd = this
  define req where "req = dec_import_data (into_zeroed import_data_size b)"
  have run1: "(do {
      x \<leftarrow> (case idr_find (pc_expid_idr pc) (unat (id_exp_id req)) of
              None \<Rightarrow> Some None
            | Some e \<Rightarrow> do { x \<leftarrow> st_exps s e; Some (Some (e, x)) });
      (case x of
         Some (e, x) \<Rightarrow>
           if id_page_cnt req = ex_payload_count x \<and> ex_exp_state x = HAB_EXP_SUCCESS then do {
             s2 \<leftarrow> mod_exp e (\<lambda>x. x\<lparr>ex_remote_imported := True\<rparr>) s;
             (r2, s3) \<leftarrow> hab_send_import_ack v e s2;
             Some s3
           } else do { (r2, s2) \<leftarrow> hab_send_import_ack_fail v (id_exp_id req) s; Some s2 }
       | None \<Rightarrow> do { (r2, s2) \<leftarrow> hab_send_import_ack_fail v (id_exp_id req) s; Some s2 })
    }) = Some s'"
    using run pc rd unfolding req_def by (simp add: recv_import_def Let_def)
  have "\<exists>e. (\<exists>r2. hab_send_import_ack_fail v (id_exp_id req) s = Some (r2, s')) \<or>
      (\<exists>f r2. do { s2 \<leftarrow> mod_exp e f s; hab_send_import_ack v e s2 } = Some (r2, s'))"
  proof (cases "idr_find (pc_expid_idr pc) (unat (id_exp_id req))")
    case None
    with run1 show ?thesis by (auto simp: bind_eq_Some_conv)
  next
    case (Some e)
    with run1 obtain x where x: "st_exps s e = Some x" by (auto simp: bind_eq_Some_conv)
    show ?thesis
    proof (cases "id_page_cnt req = ex_payload_count x \<and> ex_exp_state x = HAB_EXP_SUCCESS")
      case True
      with run1 Some x have "\<exists>r2. do { s2 \<leftarrow> mod_exp e (\<lambda>x. x\<lparr>ex_remote_imported := True\<rparr>) s;
          hab_send_import_ack v e s2 } = Some (r2, s')" by (auto simp: bind_eq_Some_conv mod_exp_def)
      then show ?thesis by blast
    next
      case False
      with run1 Some x show ?thesis by (auto simp: bind_eq_Some_conv)
    qed
  qed
  then obtain req e where "(\<exists>r2. hab_send_import_ack_fail v req s = Some (r2, s')) \<or>
      (\<exists>f r2. do { s2 \<leftarrow> mod_exp e f s; hab_send_import_ack v e s2 } = Some (r2, s'))" by blast
  then have "(\<exists>lb' m'. loop_dev p s' = Some lb' \<and> lb_msg_list lb' = lb_msg_list lb @ [m']) \<and> st_vchans s' = st_vchans s"
  proof (elim disjE exE)
    fix r2 assume "hab_send_import_ack_fail v req s = Some (r2, s')"
    then obtain h pl where "physical_channel_send p h pl s = Some (r2, s')"
      using v by (auto simp: hab_send_import_ack_fail_def)
    from loop_send_grows [OF this lb(1) mem] show ?thesis by blast
  next
    fix f r2 assume "do { s2 \<leftarrow> mod_exp e f s; hab_send_import_ack v e s2 } = Some (r2, s')"
    then obtain E h pl s3 E' where "physical_channel_send p h pl (s\<lparr>st_exps := E\<rparr>) = Some (r2, s3)" "s' = s3\<lparr>st_exps := E'\<rparr>"
      using v by (auto simp: hab_send_import_ack_def Let_def bind_eq_Some_conv)
    with loop_send_grows [OF this(1), of lb] lb(1) mem show ?thesis by (simp add: loop_dev_def)
  qed
  then show "\<exists>lb' m'. loop_dev p s' = Some lb' \<and> lb_msg_list lb' = lb_msg_list lb @ [m']" "st_vchans s' = st_vchans s"
    by blast+
qed

lemma recv_import_case:
  assumes "ty = HAB_PAYLOAD_TYPE_IMPORT"
  shows "recv_vchan_msg p v (payload_code ty) n s = do { s1 \<leftarrow> recv_import p v s; Some (0, s1) }"
    "\<not> is_open_type (payload_code ty)"
  using assms by (simp_all add: recv_vchan_msg_def payload_of_code_inverse is_open_type_def del: payload_code.simps) simp

text \<open>
  An import request over the loopback device hangs its thread: the answer, which \<^verbatim>\<open>hab_msg_recv\<close> sends
  before it returns, needs \<^verbatim>\<open>io_lock\<close>, which the thread already holds.
\<close>
theorem import_request_hangs_loopback:
  assumes wf: "drv_wf {} hp hv hc s" and exps: "exports_ok p s" and mem: "st_mem s = []"
    and pc: "st_pchans s p = Some pc" "pc_hyp_data pc = HypLoop lb" "lb_msg_list lb = (h, b) # ms"
    and adr: "addressed s p h v vc" "vc_pchan vc = p" and ty: "HAB_HEADER_GET_TYPE h = payload_code HAB_PAYLOAD_TYPE_IMPORT"
  shows "\<exists>s'. lb_drain p s = Some (LbDeadlock, s')"
proof -
  let ?lb1 = "lb_take (h, b) ms lb"
  let ?s1 = "s\<lparr>st_pchans := (st_pchans s)(p \<mapsto> pc\<lparr>pc_hyp_data := HypLoop ?lb1\<rparr>)\<rparr>"
  have wf1: "drv_wf {} hp hv hc ?s1" by (rule drv_wf_pchan_fields [OF wf pc(1)]) simp_all
  have r1: "readable p ?s1" by (simp add: readable_def lb_take_def)
  have e1: "exports_ok p ?s1" using exps pc by (simp add: exports_ok_def)
  have sm: "stamped_small h" by (simp add: stamped_small_def ty)
  from msg_recv_wf [OF wf1 r1 e1 sm] obtain r s2 where run: "hab_msg_recv p h ?s1 = Some (r, s2)"
    unfolding safe_ex by auto
  have a1: "addressed ?s1 p h v vc" using adr(1) pc by (auto simp: addressed_def)
  have v: "st_vchans s v = Some vc" "\<not> vc_otherend_closed vc" "0 < vc_refcount vc" using adr(1) by (auto simp: addressed_def)
  let ?s1' = "with_ref v vc ?s1"
  obtain s3 where s3: "recv_import p v ?s1' = Some s3" "hab_vchan_put v s3 = Some s2"
    using run addressed_get [OF a1] v recv_import_case [OF refl]
    by (auto simp: hab_msg_recv_def ty bind_eq_Some_conv Let_def simp del: payload_code.simps)
  have lb1: "loop_dev p ?s1' = Some ?lb1" by (simp add: loop_dev_def)
  have cur: "lb_current ?lb1 = Some (h, b)" and l1: "lb_msg_list ?lb1 = ms" by (simp_all add: lb_take_def)
  from recv_import_answers [OF s3(1) lb1 cur, of "vc\<lparr>vc_refcount := vc_refcount vc + 1\<rparr>"] mem adr(2)
  obtain lb2 m' where lb2: "loop_dev p s3 = Some lb2" "lb_msg_list lb2 = ms @ [m']" and vs: "st_vchans s3 = st_vchans ?s1'"
    unfolding l1 by auto
  have "s2 = s3\<lparr>st_vchans := (st_vchans s3)(v \<mapsto> vc)\<rparr>"
    using s3(2) v put_listed [of s3 v "vc\<lparr>vc_refcount := vc_refcount vc + 1\<rparr>"] vs by simp
  then have "loop_dev p s2 = Some lb2" using lb2(1) by (simp add: loop_dev_def)
  moreover have "loop_dev p s = Some lb" "set_hyp p (HypLoop ?lb1) s = Some ?s1"
    using pc by (simp_all add: loop_dev_def set_hyp_def mod_pchan_def)
  ultimately have "lb_drain p s = Some (LbDeadlock, s2)"
    using run pc(3) lb2(2) by (simp add: lb_drain.simps [of p s])
  then show ?thesis by blast
qed

section \<open>The life of the channel\<close>

lemma empty_drain:
  "loop_dev p s = Some lb \<Longrightarrow> lb_msg_list lb = [] \<Longrightarrow> lb_drain p s = Some (LbEmpty, s)"
  by (simp add: lb_drain.simps [of p s])

text \<open>
  A loopback channel created on a device without channels and removed again leaves the device's list and
  the channels of the driver as they were.
\<close>
theorem loopback_create_remove:
  assumes d: "d < length (st_devs s)" "dv_pchannels (st_devs s ! d) = []" and mem: "st_mem s = []"
    and fresh: "st_pchans s (st_next s) = None" and started: "0 \<le> started"
  shows "\<exists>p s1 s2. loopback_commdev_alloc started False d s = Some (0, Some p, s1) \<and>
    dv_pchannels (st_devs s1 ! d) = [p] \<and> loop_dev p s1 \<noteq> None \<and>
    loopback_commdev_dealloc p s1 = Some (0, s2) \<and> st_pchans s2 = st_pchans s \<and> st_devs s2 = st_devs s"
proof -
  let ?p = "st_next s"
  let ?lb = "\<lparr>lb_msg_list = [], lb_msg_cnt = 0, lb_current = None\<rparr>"
  define pc where "pc = \<lparr>pc_is_be = False, pc_refcount = 1, pc_habdev = d, pc_vchan_idr = [],
    pc_expid_idr = [], pc_expid_next = 0, pc_hyp_data = HypLoop ?lb, pc_dom_id = LOOPBACK_DOM, pc_vmid_local = 0,
    pc_vmid_remote = 0, pc_closed = False, pc_otherend_closed = False, pc_sequence_tx = 0,
    pc_sequence_rx = 0, pc_vchannels = [], pc_vcnt = 0, pc_mem_proto = 0\<rparr>"
  define s1 where "s1 = s\<lparr>st_next := ?p + 1, st_pchans := (st_pchans s)(?p \<mapsto> pc),
    st_devs := (st_devs s)[d := (st_devs s ! d)\<lparr>dv_pchannels := [?p], dv_pchan_cnt := dv_pchan_cnt (st_devs s ! d) + 1\<rparr>]\<rparr>"
  have create: "loopback_commdev_alloc started False d s = Some (0, Some ?p, s1)"
    using d mem started
    by (simp add: loopback_commdev_alloc_def loopback_pchan_create_def hab_pchan_alloc_def kalloc_def mod_dev_def
        mod_pchan_def set_hyp_def hab_pchan_find_domid_def get_dev_def hab_pchan_get_def hab_pchan_put_def Let_def
        s1_def pc_def)
  have dev: "loop_dev ?p s1 = Some ?lb" by (simp add: loop_dev_def s1_def pc_def)
  have same: "set_hyp ?p (HypLoop ?lb) s1 = Some s1"
    by (simp add: set_hyp_def mod_pchan_def s1_def pc_def)
  have "lb_drain ?p s1 = Some (LbEmpty, s1)" using empty_drain [OF dev] by simp
  then have "loopback_commdev_dealloc ?p s1 = do { s3 \<leftarrow> hab_pchan_put ?p s1; Some (0, s3) }"
    using dev same by (simp add: loopback_commdev_dealloc_def mod_loop_def)
  moreover have "(st_pchans s)(?p := None) = st_pchans s" using fresh by auto
  moreover have "(st_devs s)[d := (st_devs s ! d)\<lparr>dv_pchannels := [], dv_pchan_cnt := dv_pchan_cnt (st_devs s ! d)\<rparr>] = st_devs s"
    using d(2) list_update_id [of "st_devs s" d] by (cases "st_devs s ! d") simp
  ultimately have "\<exists>s2. loopback_commdev_dealloc ?p s1 = Some (0, s2) \<and> st_pchans s2 = st_pchans s \<and> st_devs s2 = st_devs s"
    using d(1) by (simp add: hab_pchan_put_def hab_pchan_free_def mod_pchan_def mod_dev_def s1_def pc_def)
  then show ?thesis using create dev d(1) by (auto simp: s1_def)
qed

text \<open>
  The error path frees the channel and leaves it on the device's list, where the next search finds it.
\<close>

lemma loopback_create_fails_then_fault:
  assumes d: "d < length (st_devs s)" and mem: "st_mem s = [False, True]"
  shows "\<exists>s1. loopback_commdev_alloc started early d s = Some (- ENOMEM, None, s1) \<and>
    hab_pchan_find_domid d dom_id s1 = None"
  using d mem
  by (simp add: loopback_commdev_alloc_def loopback_pchan_create_def hab_pchan_alloc_def kalloc_def mod_dev_def
      mod_pchan_def hab_pchan_find_domid_def get_dev_def Let_def)

section \<open>Concrete runs\<close>

text \<open>The example driver with its channel on the loopback device.\<close>

definition drv_loop :: "(hab_header \<times> bytes) list \<Rightarrow> hab_driver" where
  "drv_loop ms = drv_ex\<lparr>st_pchans := [1 \<mapsto> pchan_ex\<lparr>pc_hyp_data :=
       HypLoop \<lparr>lb_msg_list = ms, lb_msg_cnt = int (length ms), lb_current = None\<rparr>\<rparr>],
     st_vchans := [3 \<mapsto> vchan_ex\<lparr>vc_rx_list := []\<rparr>]\<rparr>"

abbreviation (input) pchan_loop :: "hyp_data \<Rightarrow> physical_channel" where
  "pchan_loop hy \<equiv> pchan_ex\<lparr>pc_hyp_data := hy\<rparr>"

lemma addressed_loop:
  "addressed (drv_loop ms) 1 (send_header vchan_ex ty n) 3 (vchan_ex\<lparr>vc_rx_list := []\<rparr>)"
  "lb_target (pchan_loop hy) (send_header vchan_ex ty n) = Some 3"
proof -
  have "HAB_VCID_GET_ID (HAB_VCID_GET_ID 0x25900001) = 1" by code_simp
  then show "addressed (drv_loop ms) 1 (send_header vchan_ex ty n) 3 (vchan_ex\<lparr>vc_rx_list := []\<rparr>)"
    "lb_target (pchan_loop hy) (send_header vchan_ex ty n) = Some 3"
    by (simp_all add: addressed_def lb_target_def drv_loop_def send_header_def pchan_ex_def vchan_ex_def idr_find_def)
qed

lemma plain_loop:
  "length b \<le> 0x7D000 \<Longrightarrow> plain_for (drv_loop ms) 1 (send_header vchan_ex HAB_PAYLOAD_TYPE_MSG (length b), b)"
proof -
  assume n: "length b \<le> 0x7D000"
  have "plain_type HAB_PAYLOAD_TYPE_MSG" by (simp add: plain_type_def)
  then have "\<exists>ty. payload_code HAB_PAYLOAD_TYPE_MSG = payload_code ty \<and> plain_type ty" by blast
  with n addressed_loop(1) [of ms HAB_PAYLOAD_TYPE_MSG "length b"] show ?thesis
    unfolding plain_for_def by (auto simp del: payload_code.simps)
qed

theorem loopback_delivers_in_order_witness:
  "\<exists>s'. lb_drain 1 (drv_loop [(send_header vchan_ex HAB_PAYLOAD_TYPE_MSG 2, [1, 2]),
      (send_header vchan_ex HAB_PAYLOAD_TYPE_MSG 1, [3])]) = Some (LbEmpty, s') \<and>
    pchan_outq s' 1 = [] \<and> map_option (map ms_body \<circ> vc_rx_list) (st_vchans s' 3) = Some [Flat [1, 2], Flat [3]]"
proof -
  let ?ms = "[(send_header vchan_ex HAB_PAYLOAD_TYPE_MSG 2, [1, 2]), (send_header vchan_ex HAB_PAYLOAD_TYPE_MSG 1, [3])] ::
    (hab_header \<times> bytes) list"
  let ?lb = "\<lparr>lb_msg_list = ?ms, lb_msg_cnt = 2, lb_current = None\<rparr>"
  have ok: "plain_for (drv_loop ?ms) 1 m" if "m \<in> set (lb_msg_list ?lb)" for m
    using that plain_loop [of "[1, 2]" ?ms] plain_loop [of "[3]" ?ms] by (auto simp: numeral_2_eq_2)
  have "st_pchans (drv_loop ?ms) 1 = Some (pchan_loop (HypLoop ?lb))" "st_mem (drv_loop ?ms) = []"
    by (simp_all add: drv_loop_def drv_ex_def)
  from loopback_delivers_in_order [OF this(1) _ this(2), of ?lb] ok
  show ?thesis using addressed_loop(2)
    by (auto simp: drv_loop_def pchan_outq_def rx_append_def lb_message_def)
qed

text \<open>A request for an export that does not exist, which is refused as well.\<close>

theorem import_request_hangs_loopback_witness:
  "\<exists>s'. lb_drain 1 (drv_loop [(send_header vchan_ex HAB_PAYLOAD_TYPE_IMPORT 12, replicate 12 0)]) = Some (LbDeadlock, s')"
proof -
  let ?ms = "[(send_header vchan_ex HAB_PAYLOAD_TYPE_IMPORT 12, replicate 12 0)] :: (hab_header \<times> bytes) list"
  let ?lb = "\<lparr>lb_msg_list = ?ms, lb_msg_cnt = 1, lb_current = None\<rparr>"
  have wf: "drv_wf {} none_held none_held files_ex (drv_loop ?ms)"
  proof -
    let ?s = "drv_ex\<lparr>st_pchans := (st_pchans drv_ex)(1 \<mapsto> pchan_loop (HypLoop ?lb))\<rparr>"
    have "drv_wf {} none_held none_held files_ex ?s"
      by (rule drv_wf_pchan_fields [OF drv_ex_wf]) (simp_all add: drv_ex_def)
    from drv_wf_vchan_fields [OF this, of 3 vchan_ex "vchan_ex\<lparr>vc_rx_list := []\<rparr>"]
    show ?thesis by (simp add: drv_loop_def drv_ex_def)
  qed
  have ex: "exports_ok 1 (drv_loop ?ms)"
    using drv_ex_exports by (auto simp: exports_ok_def drv_loop_def drv_ex_def split: if_splits)
  have pc: "st_pchans (drv_loop ?ms) 1 = Some (pchan_loop (HypLoop ?lb))" "st_mem (drv_loop ?ms) = []"
    by (simp_all add: drv_loop_def drv_ex_def)
  have "vc_pchan (vchan_ex\<lparr>vc_rx_list := []\<rparr>) = 1" by (simp add: vchan_ex_def)
  from import_request_hangs_loopback [OF wf ex pc(2,1) _ _ addressed_loop(1) this send_header_fields(1), of ?lb]
  show ?thesis by simp
qed

theorem loopback_create_remove_witness:
  "\<exists>p s1 s2. loopback_commdev_alloc 0 False 0 (drv_ex\<lparr>st_pchans := Map.empty, st_devs := [dev_ex\<lparr>dv_pchannels := []\<rparr>]\<rparr>) =
       Some (0, Some p, s1) \<and>
    dv_pchannels (st_devs s1 ! 0) = [p] \<and> loop_dev p s1 \<noteq> None \<and> loopback_commdev_dealloc p s1 = Some (0, s2) \<and>
    st_pchans s2 = Map.empty \<and> st_devs s2 = [dev_ex\<lparr>dv_pchannels := []\<rparr>]"
  using loopback_create_remove [of 0 "drv_ex\<lparr>st_pchans := Map.empty, st_devs := [dev_ex\<lparr>dv_pchannels := []\<rparr>]\<rparr>" 0]
  by (simp add: drv_ex_def)

end
