(* ===== verification/Hab_Stat.thy ===== *)
theory Hab_Stat
  imports Hab_Parser Hab_Vhost_Dev Hab_Virtio
begin

text \<open>
  The reports of \<^verbatim>\<open>hab_stat.c\<close> and the dump of a channel: text printed piece by piece into a buffer of fixed
  size, as sysfs hands it over.

  A buffer is the text up to its terminator.  What the state of the driver does not carry (names, the
  status word of a channel, the process that owns a context) is a record of functions.  Where the code walks
  the search tree of an import warehouse, in postorder, the order is an argument.
\<close>

section \<open>Printing\<close>

abbreviation (input) E2BIG :: int where "E2BIG \<equiv> 7"
abbreviation (input) MAX_LINE_SIZE :: nat where "MAX_LINE_SIZE \<equiv> 128"
abbreviation (input) newline :: string where "newline \<equiv> [CHR 0x0A]"

fun nat_hex :: "nat \<Rightarrow> nat \<Rightarrow> string" where
  "nat_hex ten n = (let d = n mod 16; c = [char_of (if d < 10 then 48 + d else ten + (d - 10))] in
     if n < 16 then c else nat_hex ten (n div 16) @ c)"

declare nat_hex.simps [simp del]

text \<open>\<^verbatim>\<open>%08X\<close> and \<^verbatim>\<open>%x\<close>.\<close>

definition hex8 :: "u32 \<Rightarrow> string" where
  "hex8 w = (let h = nat_hex 65 (unat w) in replicate (8 - length h) CHR ''0'' @ h)"

definition hex_of :: "u32 \<Rightarrow> string" where
  "hex_of w = nat_hex 97 (unat w)"

text \<open>\<^verbatim>\<open>strscpy(buf, "", size)\<close>, and \<^verbatim>\<open>strlcat\<close>, which refuses a text that is not terminated in the buffer.\<close>

definition strscpy_empty :: "nat \<Rightarrow> string \<Rightarrow> int \<times> string" where
  "strscpy_empty sz buf = (if sz = 0 then (- E2BIG, buf) else (0, []))"

definition strlcat :: "string \<Rightarrow> string \<Rightarrow> nat \<Rightarrow> (int \<times> string) option" where
  "strlcat dest src count =
     (if count \<le> length dest then None
      else Some (int (length dest + length src), dest @ take (count - 1 - length dest) src))"

definition hab_stat_buffer_print :: "nat \<Rightarrow> string \<Rightarrow> int \<times> string \<Rightarrow> (int \<times> string) option" where
  "hab_stat_buffer_print sz t rb =
     (if t = [] then Some (0, snd rb) else strlcat (snd rb) (take (MAX_LINE_SIZE - 1) t) sz)"

section \<open>Channels\<close>

record stat_info =
  si_name :: "nat \<Rightarrow> string"
  si_status :: "nat \<Rightarrow> u32"
  si_owner :: "nat \<Rightarrow> int"

definition flag_dec :: "bool \<Rightarrow> string" where
  "flag_dec b = (if b then ''1'' else ''0'')"

definition pchan_line :: "stat_info \<Rightarrow> nat \<Rightarrow> physical_channel \<Rightarrow> string" where
  "pchan_line i p pc = ''nm '' @ si_name i p @ '' r '' @ flag_dec (pc_is_be pc) @ '' lc '' @ int_dec (pc_vmid_local pc) @
     '' rm '' @ int_dec (pc_vmid_remote pc) @ '' sq_t '' @ int_dec (sint (pc_sequence_tx pc)) @
     '' sq_r '' @ int_dec (sint (pc_sequence_rx pc)) @ '' st 0x'' @ hex_of (si_status i p) @
     '' vn '' @ int_dec (pc_vcnt pc) @ '':'' @ newline"

definition vchan_line :: "virtual_channel \<Rightarrow> string" where
  "vchan_line vc = hex8 (vc_id vc) @ ''('' @ int_dec (int (vc_refcount vc)) @ '':'' @ flag_dec (vc_otherend_closed vc) @
     '':'' @ nat_dec (unat (vc_tx_cnt vc)) @ '':'' @ nat_dec (unat (vc_rx_cnt vc)) @ '':'' @
     flag_dec (vc_rx_inflight vc) @ '') ''"

fun show_vchans :: "hab_driver \<Rightarrow> nat \<Rightarrow> nat list \<Rightarrow> int \<times> string \<Rightarrow> (int \<times> string) option" where
  "show_vchans s sz [] rb = Some rb"
| "show_vchans s sz (v # vs) rb = do {
     vc \<leftarrow> st_vchans s v;
     rb1 \<leftarrow> hab_stat_buffer_print sz (vchan_line vc) rb;
     show_vchans s sz vs rb1
   }"

fun show_pchans :: "stat_info \<Rightarrow> hab_driver \<Rightarrow> nat \<Rightarrow> nat list \<Rightarrow> int \<times> string \<Rightarrow> (int \<times> string) option" where
  "show_pchans i s sz [] rb = Some rb"
| "show_pchans i s sz (p # ps) rb = do {
     pc \<leftarrow> st_pchans s p;
     if pc_vcnt pc = 0 then show_pchans i s sz ps rb
     else do {
       rb1 \<leftarrow> hab_stat_buffer_print sz (pchan_line i p pc) rb;
       rb2 \<leftarrow> show_vchans s sz (pc_vchannels pc) rb1;
       rb3 \<leftarrow> hab_stat_buffer_print sz newline rb2;
       show_pchans i s sz ps rb3
     }
   }"

fun show_devs :: "stat_info \<Rightarrow> hab_driver \<Rightarrow> nat \<Rightarrow> hab_device list \<Rightarrow> int \<times> string \<Rightarrow> (int \<times> string) option" where
  "show_devs i s sz [] rb = Some rb"
| "show_devs i s sz (d # ds) rb = do {
     rb1 \<leftarrow> show_pchans i s sz (dv_pchannels d) rb;
     show_devs i s sz ds rb1
   }"

definition hab_stat_show_vchan :: "stat_info \<Rightarrow> hab_driver \<Rightarrow> string \<Rightarrow> nat \<Rightarrow> (int \<times> string) option" where
  "hab_stat_show_vchan i s buf sz = show_devs i s sz (st_devs s) (strscpy_empty sz buf)"

section \<open>Contexts\<close>

definition ctx_line :: "stat_info \<Rightarrow> nat \<Rightarrow> uhab_context \<Rightarrow> string" where
  "ctx_line i c cx = ''ctx '' @ int_dec (si_owner i c) @ '' K '' @ flag_dec (cx_kernel cx) @ '' close '' @
     flag_dec (cx_closing cx) @ '' vc '' @ int_dec (cx_vcnt cx) @ '' exp '' @ int_dec (sint (cx_export_total cx)) @
     '' imp '' @ int_dec (sint (cx_import_total cx)) @ '' open '' @ int_dec (cx_pending_cnt cx) @
     '' ref '' @ int_dec (int (cx_refcount cx)) @ newline"

fun show_ctxs :: "stat_info \<Rightarrow> hab_driver \<Rightarrow> nat \<Rightarrow> nat list \<Rightarrow> int \<times> string \<Rightarrow> (int \<times> string) option" where
  "show_ctxs i s sz [] rb = Some rb"
| "show_ctxs i s sz (c # cs) rb = do {
     cx \<leftarrow> st_ctxs s c;
     rb1 \<leftarrow> hab_stat_buffer_print sz (ctx_line i c cx) rb;
     show_ctxs i s sz cs rb1
   }"

definition hab_stat_show_ctx :: "stat_info \<Rightarrow> hab_driver \<Rightarrow> string \<Rightarrow> nat \<Rightarrow> (int \<times> string) option" where
  "hab_stat_show_ctx i s buf sz = do {
     rb \<leftarrow> hab_stat_buffer_print sz (''Total contexts '' @ int_dec (st_ctx_cnt s) @ newline) (strscpy_empty sz buf);
     show_ctxs i s sz (st_uctx_list s) rb
   }"

section \<open>Exports and imports\<close>

text \<open>The bytes a region table covers, summed up in an \<^verbatim>\<open>int\<close>.\<close>

definition get_pft_tbl_total_size :: "bytes \<Rightarrow> u32 option" where
  "get_pft_tbl_total_size payload = (let n = nat (sint (field32 8 payload)) in
     if length payload < compressed_pfns_hdr + n * region_size then None
     else Some (sum_list (map (\<lambda>r. rg_size r * 4096) (cp_region (dec_pfns n payload)))))"

text \<open>The descriptors of a list with the size of each; of the imports only those that are mapped.\<close>

fun exp_sizes :: "hab_driver \<Rightarrow> nat list \<Rightarrow> (export_desc_super \<times> u32) list option" where
  "exp_sizes s [] = Some []"
| "exp_sizes s (e # es) = do {
     x \<leftarrow> st_exps s e;
     n \<leftarrow> get_pft_tbl_total_size (ex_payload x);
     r \<leftarrow> exp_sizes s es;
     Some ((x, n) # r)
   }"

fun imp_sizes :: "hab_driver \<Rightarrow> nat list \<Rightarrow> (export_desc_super \<times> u32) list option" where
  "imp_sizes s [] = Some []"
| "imp_sizes s (e # es) = do {
     x \<leftarrow> st_exps s e;
     (found, m) \<leftarrow> habmm_imp_hyp_map_check (ex_export_id x) (ex_pchan x) (st_hyp_mem s);
     if found then do {
       n \<leftarrow> get_pft_tbl_total_size (ex_payload x);
       r \<leftarrow> imp_sizes s es;
       Some ((x, n) # r)
     } else imp_sizes s es
   }"

definition expimp_line :: "export_desc_super \<times> u32 \<Rightarrow> string" where
  "expimp_line xn = ''['' @ int_dec (sint (ex_export_id (fst xn))) @ '':'' @ hex_of (ex_vcid_local (fst xn)) @ '':'' @
     int_dec (sint (snd xn)) @ ''] ''"

fun print_expimps :: "nat \<Rightarrow> (export_desc_super \<times> u32) list \<Rightarrow> int \<times> string \<Rightarrow> (int \<times> string) option" where
  "print_expimps sz [] rb = Some rb"
| "print_expimps sz (xn # xs) rb = do { rb1 \<leftarrow> hab_stat_buffer_print sz (expimp_line xn) rb; print_expimps sz xs rb1 }"

definition total_size :: "(export_desc_super \<times> u32) list \<Rightarrow> u32" where
  "total_size xs = sum_list (map snd xs)"

definition totals_line :: "stat_info \<Rightarrow> nat \<Rightarrow> (export_desc_super \<times> u32) list \<Rightarrow> (export_desc_super \<times> u32) list \<Rightarrow> string" where
  "totals_line i c es ms = ''ctx '' @ int_dec (si_owner i c) @ '' exp '' @ int_dec (int (length es)) @ '' size '' @
     int_dec (sint (total_size es)) @ '' imp '' @ int_dec (int (length ms)) @ '' size '' @
     int_dec (sint (total_size ms)) @ newline"

definition print_ctx_total_expimp ::
  "stat_info \<Rightarrow> (imp_whse \<Rightarrow> nat list) \<Rightarrow> nat \<Rightarrow> hab_driver \<Rightarrow> nat \<Rightarrow> int \<times> string \<Rightarrow> (int \<times> string) option" where
  "print_ctx_total_expimp i order c s sz rb = do {
     cx \<leftarrow> st_ctxs s c;
     es \<leftarrow> exp_sizes s (cx_exp_whse cx);
     ms \<leftarrow> imp_sizes s (order (cx_imp_whse cx));
     if es \<noteq> [] \<or> total_size es \<noteq> 0 \<or> ms \<noteq> [] \<or> total_size ms \<noteq> 0 then do {
       rb1 \<leftarrow> hab_stat_buffer_print sz (totals_line i c es ms) rb;
       rb2 \<leftarrow> hab_stat_buffer_print sz ''export[expid:vcid:size]: '' rb1;
       rb3 \<leftarrow> print_expimps sz es rb2;
       rb4 \<leftarrow> hab_stat_buffer_print sz newline rb3;
       rb5 \<leftarrow> hab_stat_buffer_print sz ''import[expid:vcid:size]: '' rb4;
       rb6 \<leftarrow> print_expimps sz ms rb5;
       hab_stat_buffer_print sz newline rb6
     } else Some (0, snd rb)
   }"

text \<open>
  The channels of a context, one per change of the medium along its list, into an array of
  \<^verbatim>\<open>HABCFG_MMID_NUM\<close> entries.
\<close>

fun collect_pchans :: "hab_driver \<Rightarrow> nat list \<Rightarrow> u32 \<Rightarrow> nat list \<Rightarrow> nat list option" where
  "collect_pchans s [] mmid ps = Some ps"
| "collect_pchans s (v # vs) mmid ps = do {
     vc \<leftarrow> st_vchans s v;
     pc \<leftarrow> st_pchans s (vc_pchan vc);
     d \<leftarrow> get_dev (pc_habdev pc) s;
     if dv_id d = mmid then collect_pchans s vs mmid ps
     else if HABCFG_MMID_NUM \<le> length ps + 1 then Some (ps @ [vc_pchan vc])
     else collect_pchans s vs (dv_id d) (ps @ [vc_pchan vc])
   }"

fun find_owner :: "stat_info \<Rightarrow> hab_driver \<Rightarrow> int \<Rightarrow> nat list \<Rightarrow> nat option option" where
  "find_owner i s pid [] = Some None"
| "find_owner i s pid (c # cs) = do {
     cx \<leftarrow> st_ctxs s c;
     if pid = si_owner i c then Some (Some c) else find_owner i s pid cs
   }"

text \<open>\<open>log\<close> is the hypervisor layer's \<^verbatim>\<open>hab_stat_log\<close>.\<close>

definition hab_stat_show_expimp ::
  "stat_info \<Rightarrow> (imp_whse \<Rightarrow> nat list) \<Rightarrow> (nat list \<Rightarrow> nat \<Rightarrow> int \<times> string \<Rightarrow> (int \<times> string) option) \<Rightarrow>
     hab_driver \<Rightarrow> int \<Rightarrow> string \<Rightarrow> nat \<Rightarrow> (int \<times> string) option" where
  "hab_stat_show_expimp i order log s pid buf sz = do {
     co \<leftarrow> find_owner i s pid (st_uctx_list s);
     (case co of
        None \<Rightarrow> Some (strscpy_empty sz buf)
      | Some c \<Rightarrow> do {
          rb \<leftarrow> print_ctx_total_expimp i order c s sz (strscpy_empty sz buf);
          cx \<leftarrow> st_ctxs s c;
          ps \<leftarrow> collect_pchans s (cx_vchannels cx) 0 [];
          if ps = [] then Some rb else log ps sz rb
        })
   }"

section \<open>Exports waiting to be reclaimed\<close>

definition reclaim_line :: "stat_info \<Rightarrow> nat \<Rightarrow> export_desc_super \<times> u32 \<Rightarrow> string" where
  "reclaim_line i p xn = ''['' @ int_dec (sint (ex_export_id (fst xn))) @ '':'' @ hex_of (ex_vcid_local (fst xn)) @ '':'' @
     int_dec (sint (snd xn)) @ '':'' @ si_name i p @ ''] ''"

fun show_reclaims ::
  "stat_info \<Rightarrow> hab_driver \<Rightarrow> nat \<Rightarrow> nat list \<Rightarrow> u64 \<times> u64 \<Rightarrow> int \<times> string \<Rightarrow> ((u64 \<times> u64) \<times> int \<times> string) option"
where
  "show_reclaims i s sz [] t rb = Some (t, rb)"
| "show_reclaims i s sz (e # es) t rb = do {
     x \<leftarrow> st_exps s e;
     n \<leftarrow> get_pft_tbl_total_size (ex_payload x);
     p \<leftarrow> ex_pchan x;
     pc \<leftarrow> st_pchans s p;
     rb1 \<leftarrow> hab_stat_buffer_print sz (reclaim_line i p (x, n)) rb;
     rb2 \<leftarrow> hab_stat_buffer_print sz newline rb1;
     show_reclaims i s sz es (fst t + 1, snd t + scast n) rb2
   }"

text \<open>The totals are \<^verbatim>\<open>size_t\<close>, printed with \<^verbatim>\<open>%u\<close>.\<close>

definition hab_stat_show_reclaim :: "stat_info \<Rightarrow> hab_driver \<Rightarrow> string \<Rightarrow> nat \<Rightarrow> (int \<times> string) option" where
  "hab_stat_show_reclaim i s buf sz = do {
     rb \<leftarrow> hab_stat_buffer_print sz (''export[expid:vcid:size:pchan]:'' @ newline) (strscpy_empty sz buf);
     ((num, total), rb1) \<leftarrow> show_reclaims i s sz (st_reclaim_list s) (0, 0) rb;
     hab_stat_buffer_print sz (''total: '' @ nat_dec (unat (ucast num :: u32)) @ '', size '' @
       nat_dec (unat (ucast total :: u32)) @ newline) rb1
   }"

section \<open>The layer below\<close>

text \<open>
  The vhost back end: a work item asks each channel's queues whether they are empty, in the address space
  of the device file they were initialised for (\<open>vqdev\<close>), and the answers are printed up to the first line
  that prints anything.  A channel without its vhost part is \<open>None\<close>.
\<close>

fun stat_worker ::
  "(nat \<Rightarrow> nat option) \<Rightarrow> (nat \<times> bool \<Rightarrow> bool) \<Rightarrow> nat option list \<Rightarrow> vhost_hab \<Rightarrow> vhost_hab option" where
  "stat_worker vqdev idle [] g = Some g"
| "stat_worker vqdev idle (None # xs) g = stat_worker vqdev idle xs g"
| "stat_worker vqdev idle (Some x # xs) g = do {
     vp \<leftarrow> vg_chan g x;
     f \<leftarrow> vqdev x;
     d \<leftarrow> vg_dev g f;
     g1 \<leftarrow> mod_chan x (\<lambda>vp. vp\<lparr>vp_tx_empty := idle (x, False), vp_rx_empty := idle (x, True)\<rparr>) g;
     p \<leftarrow> vp_pchan vp;
     pc \<leftarrow> st_pchans (vg_drv g1) p;
     stat_worker vqdev idle xs g1
   }"

fun vhost_stat_lines :: "vhost_hab \<Rightarrow> nat option list \<Rightarrow> nat \<Rightarrow> int \<times> string \<Rightarrow> (int \<times> string) option" where
  "vhost_stat_lines g [] sz rb = Some rb"
| "vhost_stat_lines g (None # xs) sz rb = vhost_stat_lines g xs sz rb"
| "vhost_stat_lines g (Some x # xs) sz rb = do {
     vp \<leftarrow> vg_chan g x;
     d \<leftarrow> get_dev (vp_habdev vp) (vg_drv g);
     rb1 \<leftarrow> hab_stat_buffer_print sz (''mmid '' @ int_dec (sint (dv_id d)) @ '': vq empty tx '' @
       flag_dec (vp_tx_empty vp) @ '' rx '' @ flag_dec (vp_rx_empty vp) @ newline) rb;
     if fst rb1 \<noteq> 0 then Some rb1 else vhost_stat_lines g xs sz rb1
   }"

definition hab_stat_log_vhost ::
  "(nat \<Rightarrow> nat option) \<Rightarrow> (nat \<times> bool \<Rightarrow> bool) \<Rightarrow> nat option list \<Rightarrow> nat \<Rightarrow> string \<Rightarrow> vhost_hab \<Rightarrow>
     ((int \<times> string) \<times> vhost_hab) option" where
  "hab_stat_log_vhost vqdev idle xs sz buf g = do {
     g1 \<leftarrow> stat_worker vqdev idle xs g;
     rb \<leftarrow> vhost_stat_lines g1 xs sz (0, buf);
     Some (rb, g1)
   }"

text \<open>
  The virtio front end takes the first used buffer off each queue, with the length the device reports, and
  prints up to the first line that prints anything; the buffers go nowhere.
\<close>

record virtio_used =
  us_tx :: "(vh_buf \<times> nat) list"
  us_rx :: "rx_event list"

definition stat_take :: "vq_pchan \<times> virtio_used \<Rightarrow> vq_pchan \<times> virtio_used" where
  "stat_take vu = (case vu of (v, u) \<Rightarrow>
     (v\<lparr>vq_tx := (case us_tx u of [] \<Rightarrow> vq_tx v | (b, n) # bs \<Rightarrow> remove1 b (vq_tx v)),
        vq_rx := (case us_rx u of [] \<Rightarrow> vq_rx v | e # es \<Rightarrow> remove1 (rv_buf e) (vq_rx v))\<rparr>,
      u\<lparr>us_tx := tl (us_tx u), us_rx := tl (us_rx u)\<rparr>))"

definition virtio_stat_line :: "vq_pchan \<times> virtio_used \<Rightarrow> string" where
  "virtio_stat_line vu = (case vu of (v, u) \<Rightarrow>
     ''tx cnt '' @ int_dec (vq_cnt v PT_OUT_SMALL) @ '' '' @ int_dec (vq_cnt v PT_OUT_MEDIUM) @ '' '' @
     int_dec (vq_cnt v PT_OUT_LARGE) @ '' rx '' @ int_dec (vq_cnt v PT_IN) @
     '' txpend '' @ flag_dec (us_tx u \<noteq> []) @ '' rxpend '' @ flag_dec (us_rx u \<noteq> []) @
     '' txlen '' @ nat_dec (case us_tx u of [] \<Rightarrow> 0 | (b, n) # bs \<Rightarrow> n) @
     '' rxlen '' @ nat_dec (case us_rx u of [] \<Rightarrow> 0 | e # es \<Rightarrow> rv_len e) @ newline)"

fun hab_stat_log_virtio ::
  "(vq_pchan \<times> virtio_used) option list \<Rightarrow> nat \<Rightarrow> int \<times> string \<Rightarrow>
     ((int \<times> string) \<times> (vq_pchan \<times> virtio_used) option list) option" where
  "hab_stat_log_virtio [] sz rb = Some (rb, [])"
| "hab_stat_log_virtio (None # vs) sz rb = do {
     (rb1, vs1) \<leftarrow> hab_stat_log_virtio vs sz rb;
     Some (rb1, None # vs1)
   }"
| "hab_stat_log_virtio (Some vu # vs) sz rb = do {
     rb1 \<leftarrow> hab_stat_buffer_print sz (virtio_stat_line vu) rb;
     if fst rb1 \<noteq> 0 then Some (rb1, Some (stat_take vu) # vs)
     else do {
       (rb2, vs1) \<leftarrow> hab_stat_log_virtio vs sz rb1;
       Some (rb2, Some (stat_take vu) # vs1)
     }
   }"

section \<open>The dump\<close>

abbreviation (input) HAB_PIPEDUMP_SIZE :: nat where "HAB_PIPEDUMP_SIZE \<equiv> 768 * 1024 * 4"

text \<open>
  The buffer of the dump.  \<^verbatim>\<open>vmalloc\<close> answers NULL when it fails, which the test for an error pointer does
  not see.
\<close>

record hab_dump =
  du_filp :: "string option"
  du_idx :: nat

definition dump_hab_buf :: "string \<Rightarrow> hab_dump \<Rightarrow> (nat \<times> hab_dump) option" where
  "dump_hab_buf b u =
     (if b = [] \<or> HAB_PIPEDUMP_SIZE - du_idx u < length b then Some (0, u)
      else do {
        m \<leftarrow> du_filp u;
        Some (length b, u\<lparr>du_filp := Some (take (du_idx u) m @ b @ drop (du_idx u + length b) m),
          du_idx := du_idx u + length b\<rparr>)
      })"

definition dump_path :: "string \<Rightarrow> string" where
  "dump_path time = ''/sdcard/habpipe-'' @ time @ ''.dat''"

text \<open>\<open>fresh\<close> is the memory \<^verbatim>\<open>vmalloc\<close> returns.\<close>

definition dump_hab_open :: "string \<Rightarrow> string option \<Rightarrow> hab_dump option" where
  "dump_hab_open time fresh = do {
     (n, u) \<leftarrow> dump_hab_buf (dump_path time) \<lparr>du_filp = fresh, du_idx = 0\<rparr>;
     Some u
   }"

definition dump_hab_close :: "hab_dump \<Rightarrow> hab_dump" where
  "dump_hab_close u = u\<lparr>du_filp := None, du_idx := 0\<rparr>"

text \<open>
  For every device of the medium the first channel in use (\<open>read_dump\<close>, the layer below, which prints
  nothing in both) and a separator; the buffer is handed over with its length.
\<close>

fun first_in_use :: "hab_driver \<Rightarrow> nat list \<Rightarrow> nat option option" where
  "first_in_use s [] = Some None"
| "first_in_use s (p # ps) = do {
     pc \<leftarrow> st_pchans s p;
     if 0 < pc_vcnt pc then Some (Some p) else first_in_use s ps
   }"

fun dump_devs ::
  "(nat \<Rightarrow> hab_dump \<Rightarrow> hab_dump option) \<Rightarrow> hab_driver \<Rightarrow> u32 \<Rightarrow> hab_device list \<Rightarrow> hab_dump \<Rightarrow> hab_dump option" where
  "dump_devs read_dump s mmid [] u = Some u"
| "dump_devs read_dump s mmid (d # ds) u =
     (if dv_id d \<noteq> mmid then dump_devs read_dump s mmid ds u
      else do {
        po \<leftarrow> first_in_use s (dv_pchannels d);
        u1 \<leftarrow> (case po of None \<Rightarrow> Some u | Some p \<Rightarrow> read_dump p u);
        (n, u2) \<leftarrow> dump_hab_buf (replicate 8 CHR ''#'') u1;
        dump_devs read_dump s mmid ds u2
      })"

definition dump_hab ::
  "(nat \<Rightarrow> hab_dump \<Rightarrow> hab_dump option) \<Rightarrow> string \<Rightarrow> string option \<Rightarrow> hab_driver \<Rightarrow> u32 \<Rightarrow>
     ((string option \<times> nat) \<times> hab_dump) option" where
  "dump_hab read_dump time fresh s mmid = do {
     u \<leftarrow> dump_hab_open time fresh;
     u1 \<leftarrow> dump_devs read_dump s mmid (st_devs s) u;
     Some ((du_filp u1, du_idx u1), dump_hab_close u1)
   }"

end
