(* ===== verification/Hab_Export_Safe.thy ===== *)
theory Hab_Export_Safe
  imports Hab_Delivery
begin

text \<open>
  Exporting a process's memory in the new memory protocol: the call never sleeps, never faults, and leaves a
  descriptor whose table names the process's pages in the warehouse of its context.  In this protocol
  nothing is sent; the peer asks for the descriptor when it imports.
\<close>

section \<open>The buffer of a process\<close>

lemma uva_buffer:
  assumes "habmem_get_dma_buf_from_uva ups n m = (Some d, m')"
  obtains b g pl where "ups \<noteq> []" "mm_dmabufs m' d = Some b" "db_priv b = OwnPages g" "mm_pglists m' g = Some pl"
    "pl_pages pl = take n ups"
proof -
  obtain ok1 m1 where m1: "mm_alloc m = (ok1, m1)" by fastforce
  obtain ok2 m2 where m2: "mm_alloc m1 = (ok2, m2)" by fastforce
  let ?m3 = "m2\<lparr>mm_next := mm_next m2 + 1, mm_pglists := (mm_pglists m2)(mm_next m2 \<mapsto> export_page_list (take n ups) n 0 None)\<rparr>"
  obtain ok3 m4 where m4: "mm_alloc ?m3 = (ok3, m4)" by fastforce
  then have "mm_pglists m4 = mm_pglists ?m3" by (auto simp: mm_alloc_def split: list.splits)
  with assms m1 m2 m4 that show ?thesis
    by (auto simp: habmem_get_dma_buf_from_uva_def wrap_pages_def dma_buf_export_def Let_def export_page_list_def
        split: if_splits)
qed

lemma compress_uva:
  assumes "habmem_get_dma_buf_from_uva ups n m = (Some d, m')" "0 < n" "n \<le> length ups"
  shows "\<exists>t. compress_own (take n ups) n = Some t \<and>
    habmem_compress_pfns d off n m' = Some (Inr (compressed_pfns_size + region_size * length (cp_region t), t), m')"
proof -
  from uva_buffer [OF assms(1)] obtain b g pl where b: "mm_dmabufs m' d = Some b" "db_priv b = OwnPages g"
    "mm_pglists m' g = Some pl" "pl_pages pl = take n ups" .
  have "\<exists>t. compress_own (take n ups) n = Some t"
    using assms(2,3) by (cases ups) (auto simp: compress_own_def max_def take_Cons' split: list.splits)
  with b show ?thesis by (auto simp: habmem_compress_pfns_def)
qed

section \<open>A new descriptor\<close>

text \<open>The identifiers of the channels are not used up.\<close>

definition ids_left :: "hab_driver \<Rightarrow> bool" where
  "ids_left s \<longleftrightarrow> (\<forall>p pc e. st_pchans s p = Some pc \<longrightarrow>
     idr_alloc_cyclic (pc_expid_idr pc) (pc_expid_next pc) e 1 (2 ^ 31) \<noteq> None)"

lemma cyclic_Some:
  "idr_alloc_cyclic m cur e lo hi = Some (i, m') \<Longrightarrow> m' = (i, e) # m \<and> map_of m i = None \<and> lo \<le> i \<and> i < hi"
  by (auto simp: idr_alloc_cyclic_def split: option.splits dest!: idr_alloc_Some)

text \<open>The state with the descriptor \<open>x\<close> under the identifier \<open>i\<close> of channel \<open>p\<close>, on no list yet.\<close>

definition export_added :: "nat \<Rightarrow> physical_channel \<Rightarrow> nat \<Rightarrow> export_desc_super \<Rightarrow> hab_driver \<Rightarrow> hab_driver" where
  "export_added p pc i x s = s\<lparr>st_next := st_next s + 1,
     st_pchans := (st_pchans s)(p \<mapsto> pc\<lparr>pc_expid_idr := (i, st_next s) # pc_expid_idr pc, pc_expid_next := i + 1\<rparr>),
     st_exps := (st_exps s)(st_next s \<mapsto> x)\<rparr>"

lemma add_export_user:
  assumes v: "st_vchans s v = Some vc" and pc: "st_pchans s (vc_pchan vc) = Some pc" "pc_mem_proto pc = 1"
    and mem: "st_mem s = []" and ids: "ids_left s"
    and buf: "habmem_get_dma_buf_from_uva ups n m = (Some d, st_hyp_mem s)" and n: "0 < n" "n \<le> length ups"
  obtains i x t where "i < 2 ^ 31" "compress_own (take n ups) n = Some t"
    "habmem_add_export_compress v off n d flags s =
      Some ((0, compressed_pfns_size + region_size * length (cp_region t), of_nat i), export_added (vc_pchan vc) pc i x s)"
    "ex_export_id x = of_nat i" "ex_ctx x = Some (vc_ctx vc)" "ex_pchan x = Some (vc_pchan vc)"
    "ex_payload_count x = of_nat n" "take (length (enc_pfns t)) (ex_payload x) = enc_pfns t" "ex_dmabuf x = Some d"
proof -
  let ?p = "vc_pchan vc"
  obtain i where i: "idr_alloc_cyclic (pc_expid_idr pc) (pc_expid_next pc) (st_next s) 1 (2 ^ 31) =
      Some (i, (i, st_next s) # pc_expid_idr pc)" "i < 2 ^ 31"
    using ids pc(1) cyclic_Some unfolding ids_left_def by fastforce
  from compress_uva [OF buf n, of off] obtain t where t: "compress_own (take n ups) n = Some t"
    "habmem_compress_pfns d off n (st_hyp_mem s) =
      Some (Inr (compressed_pfns_size + region_size * length (cp_region t), t), st_hyp_mem s)" by blast
  let ?pc = "pc\<lparr>pc_expid_idr := (i, st_next s) # pc_expid_idr pc, pc_expid_next := i + 1\<rparr>"
  define x0 where "x0 = export_new (of_nat i) flags (compressed_pfns_size + n * region_size) v vc ?pc"
  define x where "x = x0\<lparr>ex_payload_count := of_nat n, ex_dmabuf := Some d, ex_refcount := 1,
    ex_payload := enc_pfns t @ drop (length (enc_pfns t)) (ex_payload x0)\<rparr>"
  have "habmem_add_export_compress v off n d flags s =
      Some ((0, compressed_pfns_size + region_size * length (cp_region t), ex_export_id x0), export_added ?p pc i x s)"
    using v pc mem i t
    by (simp add: habmem_add_export_compress_def habmem_add_export_def expid_alloc_def kalloc_def mod_pchan_def mod_exp_def
        Let_def export_added_def x_def x0_def)
  then show ?thesis
    using that [OF i(2) t(1), of x] pc(2) by (simp add: x_def x0_def export_new_def Let_def)
qed

section \<open>The invariant\<close>

text \<open>A descriptor under an identifier of its channel and on no list, and one on its context's list.\<close>

definition export_listed :: "nat \<Rightarrow> uhab_context \<Rightarrow> nat \<Rightarrow> export_desc_super \<Rightarrow> hab_driver \<Rightarrow> hab_driver" where
  "export_listed c cx e x s = s\<lparr>
     st_ctxs := (st_ctxs s)(c \<mapsto> cx\<lparr>cx_export_total := cx_export_total cx + 1, cx_exp_whse := cx_exp_whse cx @ [e]\<rparr>),
     st_exps := (st_exps s)(e \<mapsto> x\<lparr>ex_exp_state := HAB_EXP_SUCCESS\<rparr>)\<rparr>"

lemma refs_ok_Suc: "refs_ok D hp hv hc P V C Q n \<Longrightarrow> refs_ok D hp hv hc P V C Q (Suc n)"
  by (fastforce simp: refs_ok_def pchan_ok_def vchan_ok_def ctx_ok_def)

lemma export_added_wf:
  assumes wf: "drv_wf D hp hv hc s" and pc: "st_pchans s p = Some pc" and c: "st_ctxs s c = Some cx"
    and x: "ex_export_id x = of_nat i" "i < 2 ^ 31" "ex_ctx x = Some c" "ex_pchan x = Some p"
  shows "drv_wf D hp hv hc (export_added p pc i x s)"
    "drv_wf D hp hv hc (export_listed c cx (st_next s) x (export_added p pc i x s))"
proof -
  let ?n = "st_next s" and ?s1 = "export_added p pc i x s"
  let ?s2 = "export_listed c cx ?n x ?s1"
  from drv_wf_exps [OF wf] obtain own where own: "exps_ok own (xv (st_exps s)) (iv (st_pchans s))
    (wv (st_ctxs s)) (st_reclaim_list s) ?n" by blast
  have i: "unat (of_nat i :: u32) = i" using x(2) by (simp add: unat_of_nat take_bit_nat_eq_self)
  from move_exp_new [OF own look_i [OF pc], of "Some p" "of_nat i" "Some c"] have
    "exps_ok (own(?n \<mapsto> OFloat)) ((xv (st_exps s))(?n \<mapsto> (of_nat i, Some c, Some p)))
      ((iv (st_pchans s))(p \<mapsto> (i, ?n) # pc_expid_idr pc)) (wv (st_ctxs s)) (st_reclaim_list s) (Suc ?n)"
    unfolding i by simp
  then have own1: "exps_ok (own(?n \<mapsto> OFloat)) (xv (st_exps ?s1)) (iv (st_pchans ?s1)) (wv (st_ctxs ?s1))
      (st_reclaim_list ?s1) (st_next ?s1)"
    using x by (simp add: export_added_def)
  have "exps_ok ((own(?n \<mapsto> OFloat))(?n \<mapsto> OWhse c)) (xv (st_exps ?s1)) (iv (st_pchans ?s1)) (wv (st_ctxs ?s2))
      (st_reclaim_list ?s1) (st_next ?s1)"
  proof (rule move_exp_owner [OF own1])
    show "(own(?n \<mapsto> OFloat)) ?n = Some OFloat" by simp
    show "xv (st_exps ?s1) ?n = Some (of_nat i, Some c, Some p)" using x by (simp add: export_added_def)
    show "iv (st_pchans ?s1) p \<noteq> None" by (simp add: export_added_def)
    fix c' es m assume w: "wv (st_ctxs ?s2) c' = Some (es, m)"
    have old: "wv (st_ctxs s) c = Some (cx_exp_whse cx, cx_imp_whse cx)" using c by (rule look_w)
    have "?n \<notin> set (cx_exp_whse cx)" "distinct (cx_exp_whse cx)"
      using exps_ok_whse [OF own old] exps_fresh [OF own] by (auto simp: whse_ok_def)
    moreover have "distinct es" if "wv (st_ctxs s) c' = Some (es, m)"
      using exps_ok_whse [OF own that] by (simp add: whse_ok_def)
    ultimately show "\<exists>es0. wv (st_ctxs ?s1) c' = Some (es0, m) \<and> distinct es \<and> set es - {?n} \<subseteq> set es0 \<and>
        (?n \<in> set es \<longrightarrow> OWhse c = OWhse c')"
      using w old exps_ok_whse [OF own, of c'] exps_fresh [OF own]
      by (cases "c' = c") (auto simp: export_added_def export_listed_def whse_ok_def)
  next
    show "distinct (st_reclaim_list ?s1)" "set (st_reclaim_list ?s1) - {?n} \<subseteq> set (st_reclaim_list ?s1)"
      "?n \<in> set (st_reclaim_list ?s1) \<longrightarrow> OWhse c = OReclaim"
      using exps_ok_reclaim [OF own] exps_fresh [OF own] by (auto simp: export_added_def)
  qed auto
  then have own2: "exps_ok ((own(?n \<mapsto> OFloat))(?n \<mapsto> OWhse c)) (xv (st_exps ?s2)) (iv (st_pchans ?s2)) (wv (st_ctxs ?s2))
      (st_reclaim_list ?s2) (st_next ?s2)"
    using x by (simp add: export_added_def export_listed_def)
  have refs: "refs_ok D hp hv hc (pv (st_pchans s)) (vv (st_vchans s)) (cv (st_ctxs s)) (qv (st_devs s)) (Suc ?n)"
    by (rule refs_ok_Suc [OF drv_wf_refs [OF wf]])
  show "drv_wf D hp hv hc ?s1"
    by (rule drv_wfI [OF _ own1]) (use refs wf pc in \<open>auto simp: export_added_def upd_same view_look drv_wf_def rx_ok_def held_ok_def\<close>)
  show "drv_wf D hp hv hc ?s2"
    by (rule drv_wfI [OF _ own2])
      (use refs wf pc c in \<open>auto simp: export_added_def export_listed_def upd_same view_look drv_wf_def rx_ok_def held_ok_def\<close>)
qed

section \<open>The call\<close>

text \<open>What a successful call leaves behind.\<close>

definition exported :: "nat \<Rightarrow> u32 \<Rightarrow> u64 list \<Rightarrow> nat \<Rightarrow> hab_driver \<Rightarrow> hab_driver \<Rightarrow> bool" where
  "exported c i pages n s s' \<longleftrightarrow> (\<exists>e x t cx cx'. st_ctxs s c = Some cx \<and> st_ctxs s' c = Some cx' \<and>
     cx_exp_whse cx' = cx_exp_whse cx @ [e] \<and> st_exps s' e = Some x \<and> ex_export_id x = i \<and>
     ex_exp_state x = HAB_EXP_SUCCESS \<and> ex_ctx x = Some c \<and> ex_payload_count x = of_nat n \<and>
     compress_own (take n pages) n = Some t \<and> take (length (enc_pfns t)) (ex_payload x) = enc_pfns t)"

lemma export_vchan_new:
  assumes v: "st_vchans s v = Some vc" and pc: "st_pchans s (vc_pchan vc) = Some pc" "pc_mem_proto pc = 1"
    and c: "st_ctxs s c = Some cx" and i: "i < 2 ^ 31"
  shows "habmem_export_vchan stk c v sz (of_nat i) w (export_added (vc_pchan vc) pc i x s) =
    (if HAB_HEADER_SIZE_MAX < export_desc_size + sz
     then Some (Done (- EINVAL) w (export_added (vc_pchan vc) pc i x s))
     else Some (Done stk w (export_listed c cx (st_next s) x (export_added (vc_pchan vc) pc i x s))))"
proof -
  have "unat (of_nat i :: u32) = i" using i by (simp add: unat_of_nat take_bit_nat_eq_self)
  then show ?thesis
    using v pc c by (simp add: habmem_export_vchan_def export_added_def export_listed_def idr_find_def mod_ctx_def
        mod_exp_def Let_def)
qed

text \<open>The call put together from its parts.\<close>

definition export_param_ok :: "hab_export \<Rightarrow> bool" where
  "export_param_ok param \<longleftrightarrow> he_sizebytes param \<noteq> 0 \<and> he_sizebytes param mod 4096 = 0 \<and> he_buffer param \<noteq> 0"

lemma export_pages_pos:
  assumes "export_param_ok param" "n = unat (he_sizebytes param) div 4096"
  shows "0 < n"
proof -
  have "unat (he_sizebytes param mod 4096) = unat (he_sizebytes param) mod 4096" by (simp add: unat_mod)
  then have "unat (he_sizebytes param) mod 4096 = 0" using assms(1) by (simp add: export_param_ok_def)
  moreover have "unat (he_sizebytes param) \<noteq> 0" using assms(1) by (simp add: unat_eq_0 export_param_ok_def)
  ultimately have "4096 \<le> unat (he_sizebytes param)" by (metis mod_less not_le)
  then show ?thesis unfolding assms(2) by (simp add: div_greater_zero_iff)
qed

lemma export_call:
  assumes "export_param_ok param" "hab_get_vchan_fromvcid (he_vcid param) c False s = Some (Some v, s1)"
    and "habmem_hyp_grant_user k v (he_buffer param) (unat (he_sizebytes param) div 4096) (he_flags param) s1 = Some ((0, sz, i), s2)"
    and "habmem_export_vchan (kv_stack k) c v sz i w s2 = Some (Done r w s3)" "hab_vchan_put v s3 = Some s4"
  shows "hab_mem_export k c param False w s = Some (Done (r, param\<lparr>he_exportid := i\<rparr>) w s4)"
  using assms by (simp add: hab_mem_export_def export_param_ok_def Let_def)

lemma export_call_err:
  assumes "export_param_ok param" "hab_get_vchan_fromvcid (he_vcid param) c False s = Some (Some v, s1)"
    and "habmem_hyp_grant_user k v (he_buffer param) (unat (he_sizebytes param) div 4096) (he_flags param) s1 = Some ((r, 0, 0), s2)"
    and "r < 0" "hab_vchan_put v s2 = Some s3"
  shows "hab_mem_export k c param False w s = Some (Done (r, param\<lparr>he_exportid := 0\<rparr>) w s3)"
  using assms by (simp add: hab_mem_export_def export_param_ok_def Let_def)

text \<open>From the buffer on: \<open>t\<close> is the state in which the call holds its channel.\<close>

lemma export_buffer:
  assumes wf: "drv_wf {} hp (hv(v := Suc (hv v))) hc t" and v: "st_vchans t v = Some vc" "1 < vc_refcount vc" "vc_ctx vc = c"
    and pc: "st_pchans t (vc_pchan vc) = Some pc" "pc_mem_proto pc = 1" and c: "st_ctxs t c = Some cx"
    and mem: "st_mem t = []" "ids_left t"
    and buf: "habmem_get_dma_buf_from_uva ups n m0 = (Some d, st_hyp_mem t)" and n: "0 < n" "n \<le> length ups"
  shows "\<exists>r i sz s2 s3 s4. habmem_add_export_compress v 0 n d flags t = Some ((0, sz, i), s2) \<and>
    habmem_export_vchan stk c v sz i w s2 = Some (Done r w s3) \<and> hab_vchan_put v s3 = Some s4 \<and>
    drv_wf {} hp hv hc s4 \<and> ((r = stk \<and> exported c i ups n t s4) \<or> (r = - EINVAL \<and> st_ctxs s4 = st_ctxs t))"
proof -
  obtain i x tb where a: "i < 2 ^ 31" "compress_own (take n ups) n = Some tb"
    "habmem_add_export_compress v 0 n d flags t = Some ((0, compressed_pfns_size + region_size * length (cp_region tb),
        of_nat i), export_added (vc_pchan vc) pc i x t)"
    "ex_export_id x = of_nat i" "ex_ctx x = Some (vc_ctx vc)" "ex_pchan x = Some (vc_pchan vc)"
    "ex_payload_count x = of_nat n" "take (length (enc_pfns tb)) (ex_payload x) = enc_pfns tb" "ex_dmabuf x = Some d"
    by (rule add_export_user [OF v(1) pc mem buf n, where off = 0 and flags = flags]) (rule that)
  let ?s3 = "export_added (vc_pchan vc) pc i x t"
  let ?s4 = "export_listed c cx (st_next t) x ?s3"
  let ?sz = "compressed_pfns_size + region_size * length (cp_region tb)"
  note wfs = export_added_wf [OF wf pc(1) c a(4,1) a(5) [unfolded v(3)] a(6)]
  have st: "st_vchans ?s3 v = Some vc" "st_vchans ?s4 v = Some vc"
    using v by (simp_all add: export_added_def export_listed_def)
  note ev = export_vchan_new [OF v(1) pc c a(1), of stk ?sz w x]
  show ?thesis
  proof (cases "HAB_HEADER_SIZE_MAX < export_desc_size + ?sz")
    case True
    from put_back [OF wfs(1)] obtain s5 where s5: "hab_vchan_put v ?s3 = Some s5" "drv_wf {} hp hv hc s5"
      unfolding safe_ex by blast
    have run: "habmem_export_vchan stk c v ?sz (of_nat i) w ?s3 = Some (Done (- EINVAL) w ?s3)"
      using ev True by (simp only: if_True)
    have "s5 = ?s3\<lparr>st_vchans := (st_vchans ?s3)(v \<mapsto> vc\<lparr>vc_refcount := vc_refcount vc - 1\<rparr>)\<rparr>"
      by (rule option.inject [THEN iffD1, OF trans [OF sym [OF s5(1)] put_listed [OF st(1) v(2)]]])
    then have "st_ctxs s5 = st_ctxs t" by (simp add: export_added_def)
    then show ?thesis by (intro exI conjI) (rule a(3), rule run, rule s5(1), rule s5(2), simp)
  next
    case False
    from put_back [OF wfs(2)] obtain s5 where s5: "hab_vchan_put v ?s4 = Some s5" "drv_wf {} hp hv hc s5"
      unfolding safe_ex by blast
    have run: "habmem_export_vchan stk c v ?sz (of_nat i) w ?s3 = Some (Done stk w ?s4)"
      using ev False by (simp only: if_False)
    have "s5 = ?s4\<lparr>st_vchans := (st_vchans ?s4)(v \<mapsto> vc\<lparr>vc_refcount := vc_refcount vc - 1\<rparr>)\<rparr>"
      by (rule option.inject [THEN iffD1, OF trans [OF sym [OF s5(1)] put_listed [OF st(2) v(2)]]])
    then have "exported c (of_nat i) ups n t s5"
      using a(2,4,5,7,8) v(3) c by (simp add: exported_def export_listed_def export_added_def)
    then show ?thesis by (intro exI conjI) (rule a(3), rule run, rule s5(1), rule s5(2), simp)
  qed
qed

text \<open>
  C20. Exporting memory of a process on a channel of the new memory protocol, while allocations succeed,
  an export identifier is left, and \<^verbatim>\<open>get_user_pages\<close> gives all the pages asked for or none (an allocation
  of the platform data that fails is dereferenced in \<^verbatim>\<open>habmem_add_export_compress\<close>, so that the assumption is
  needed): the call returns at once, does not fault and keeps the invariant.  It either fails and exports
  nothing, or the warehouse of the context ends in a new descriptor with the identifier handed to the caller,
  whose table is the compression of the pages behind the caller's address.  (The result of a success is what
  an uninitialised variable held.)
\<close>
theorem hab_mem_export_user:
  assumes wf: "drv_wf {} hp hv hc s" and c: "st_ctxs s c = Some cx" and mem: "st_mem s = []" "ids_left s"
    and proto: "\<And>v vc pc. v \<in> set (cx_vchannels cx) \<Longrightarrow> st_vchans s v = Some vc \<Longrightarrow>
      st_pchans s (vc_pchan vc) = Some pc \<Longrightarrow> vc_id vc = he_vcid param \<Longrightarrow> pc_mem_proto pc = 1"
    and flags: "\<not> has_flag (he_flags param) 1" "\<not> has_flag (he_flags param) 0x10000"
    and n: "n = unat (he_sizebytes param) div 4096"
    and pages: "kv_user_pages k (he_buffer param) n = [] \<or> n \<le> length (kv_user_pages k (he_buffer param) n)"
  shows "\<exists>r param' s'. hab_mem_export k c param False w s = Some (Done (r, param') w s') \<and> drv_wf {} hp hv hc s' \<and>
    ((r = kv_stack k \<and> exported c (he_exportid param') (kv_user_pages k (he_buffer param) n) n s s') \<or>
     (r \<in> {- EINVAL, - ENODEV} \<and> st_ctxs s' = st_ctxs s))"
proof (cases "export_param_ok param")
  case False
  with wf flags(2) show ?thesis by (auto simp: hab_mem_export_def export_param_ok_def)
next
  case ok: True
  let ?ups = "kv_user_pages k (he_buffer param) n"
  show ?thesis
    using wf c
  proof (cases rule: fromvcid_cases [where vcid = "he_vcid param" and ign = False])
    case none
    with ok flags wf show ?thesis by (simp add: hab_mem_export_def export_param_ok_def Let_def)
  next
    case (found v vc)
    let ?vc = "vc\<lparr>vc_refcount := vc_refcount vc + 1\<rparr>"
    from vchan_pchan [OF wf found(3)] obtain pc where pc: "st_pchans s (vc_pchan vc) = Some pc" by blast
    have ctx: "vc_ctx vc = c" using ctx_vchan [OF wf c found(2)] found(3) by auto
    obtain db m where db: "habmem_get_dma_buf_from_uva ?ups n (st_hyp_mem s) = (db, m)" by fastforce
    define t where "t = (with_ref v vc s)\<lparr>st_hyp_mem := m\<rparr>"
    have wft: "drv_wf {} hp (hv(v := Suc (hv v))) hc t" using found(8) by (simp add: t_def)
    have t: "st_vchans t v = Some ?vc" "st_pchans t = st_pchans s" "st_ctxs t = st_ctxs s" "st_mem t = []" "ids_left t"
      "st_hyp_mem t = m" using mem by (simp_all add: t_def ids_left_def)
    have grant: "habmem_hyp_grant_user k v (he_buffer param) n (he_flags param) (with_ref v vc s) =
        (case db of None \<Rightarrow> Some ((- EINVAL, 0, 0), t) | Some d \<Rightarrow> habmem_add_export_compress v 0 n d (he_flags param) t)"
      using flags db by (simp add: habmem_hyp_grant_user_def Let_def t_def split: option.split)
    show ?thesis
    proof (cases db)
      case None
      from put_back [OF wft] obtain s5 where s5: "hab_vchan_put v t = Some s5" "drv_wf {} hp hv hc s5"
        unfolding safe_ex by blast
      have "st_ctxs s5 = st_ctxs s" using s5(1) put_listed [OF t(1)] found(7) t(3) by auto
      moreover have "hab_mem_export k c param False w s = Some (Done (- EINVAL, param\<lparr>he_exportid := 0\<rparr>) w s5)"
        by (rule export_call_err [OF ok found(1) _ _ s5(1)]) (use grant None n in simp_all)
      ultimately show ?thesis using s5(2) by blast
    next
      case (Some d)
      have "?ups \<noteq> []" using db Some by (auto elim: uva_buffer)
      with pages have len: "n \<le> length ?ups" by simp
      have "1 < vc_refcount ?vc" "vc_ctx ?vc = c" "st_pchans t (vc_pchan ?vc) = Some pc" "st_ctxs t c = Some cx"
        using found(7) ctx pc c t(2,3) by simp_all
      note * = export_buffer [OF wft t(1) this(1-3) proto [OF found(2,3) pc found(4)] this(4) t(4,5) _ export_pages_pos [OF ok n] len,
          of "st_hyp_mem s" d "he_flags param" "kv_stack k" w]
      obtain r i sz s2 s3 s4 where run: "habmem_add_export_compress v 0 n d (he_flags param) t = Some ((0, sz, i), s2)"
        "habmem_export_vchan (kv_stack k) c v sz i w s2 = Some (Done r w s3)" "hab_vchan_put v s3 = Some s4"
        and post: "drv_wf {} hp hv hc s4"
          "(r = kv_stack k \<and> exported c i ?ups n t s4) \<or> (r = - EINVAL \<and> st_ctxs s4 = st_ctxs t)"
        using * db Some t(6) by auto
      have "hab_mem_export k c param False w s = Some (Done (r, param\<lparr>he_exportid := i\<rparr>) w s4)"
        by (rule export_call [OF ok found(1) _ run(2,3)]) (use grant Some n run(1) in simp)
      moreover have "exported c i ?ups n t s4 = exported c i ?ups n s s4" by (simp add: exported_def t(3))
      then have "(r = kv_stack k \<and> exported c (he_exportid (param\<lparr>he_exportid := i\<rparr>)) ?ups n s s4) \<or>
          (r \<in> {- EINVAL, - ENODEV} \<and> st_ctxs s4 = st_ctxs s)"
        using post(2) t(3) by (elim disjE) simp_all
      ultimately show ?thesis using post(1) by blast
    qed
  qed
qed

definition view_ex :: kernel_view where
  "view_ex = \<lparr>kv_pfn_valid = (\<lambda>pfn. True), kv_user_pages = (\<lambda>a n. [100, 101, 205]), kv_kva_pages = (\<lambda>a n. []), kv_stack = 0\<rparr>"

definition export_param_ex :: hab_export where
  "export_param_ex = \<lparr>he_buffer = 4096, he_vcid = 0x25902001, he_sizebytes = 8192, he_exportid = 0, he_flags = 0\<rparr>"

lemma ids_left_ex: "ids_left drv_ex"
proof -
  have "idr_alloc_cyclic [(7, 5)] 8 e 1 (2 ^ 31) \<noteq> None" for e
    by (simp add: idr_alloc_cyclic_def idr_alloc_def idr_free_def upt_rec)
  then show ?thesis by (simp add: ids_left_def drv_ex_def pchan_ex_def)
qed

lemma found_ex: "hab_get_vchan_fromvcid 0x25902001 2 False drv_ex = Some (Some 3, with_ref 3 vchan_ex drv_ex)"
  by (simp add: hab_get_vchan_fromvcid_def vchan_get_unless_zero_def drv_ex_def ctx_ex_def vchan_ex_fields mod_eqs(2))

lemma export_run_ex:
  "\<exists>param' s'. hab_mem_export view_ex 2 export_param_ex False [] drv_ex = Some (Done (0, param') [] s')"
proof -
  have "fst (habmem_get_dma_buf_from_uva [100, 101, 205] 2 mem_example) \<noteq> None" by code_simp
  then obtain d m where db: "habmem_get_dma_buf_from_uva [100, 101, 205] 2 mem_example = (Some d, m)"
    by (cases "habmem_get_dma_buf_from_uva [100, 101, 205] 2 mem_example") auto
  let ?vc = "vchan_ex\<lparr>vc_refcount := vc_refcount vchan_ex + 1\<rparr>"
  define t where "t = (with_ref 3 vchan_ex drv_ex)\<lparr>st_hyp_mem := m\<rparr>"
  have t: "st_vchans t 3 = Some ?vc" "st_pchans t (vc_pchan ?vc) = Some pchan_ex" "st_ctxs t 2 = Some ctx_ex"
    "st_mem t = []" "ids_left t" "st_hyp_mem t = m" "pc_mem_proto pchan_ex = 1"
    using ids_left_ex by (simp_all add: t_def ids_left_def drv_ex_def vchan_ex_fields pchan_ex_def)
  have grant: "habmem_hyp_grant_user view_ex 3 4096 2 0 (with_ref 3 vchan_ex drv_ex) = habmem_add_export_compress 3 0 2 d 0 t"
    using db by (simp add: habmem_hyp_grant_user_def view_ex_def has_flag_def t_def drv_ex_def)
  obtain i x tb where a: "i < 2 ^ 31" "compress_own (take 2 [100, 101, 205]) 2 = Some tb"
    "habmem_add_export_compress 3 0 2 d 0 t = Some ((0, compressed_pfns_size + region_size * length (cp_region tb),
        of_nat i), export_added (vc_pchan ?vc) pchan_ex i x t)"
    by (rule add_export_user [OF t(1,2,7,4,5), of "[100, 101, 205]" 2 mem_example d 0 0]) (use db t(6) in auto)
  have "length (cp_region tb) \<le> 2" using a(2) by (auto simp: compress_own_def mk_pfns_def split: list.splits)
  then have small: "\<not> HAB_HEADER_SIZE_MAX < export_desc_size + (compressed_pfns_size + region_size * length (cp_region tb))"
    by simp
  let ?s = "export_listed 2 ctx_ex (st_next t) x (export_added (vc_pchan ?vc) pchan_ex i x t)"
  have "st_vchans ?s 3 = Some ?vc" using t(1) by (simp add: export_added_def export_listed_def)
  then obtain s5 where put: "hab_vchan_put 3 ?s = Some s5" using put_listed [of ?s 3] by (simp add: vchan_ex_fields)
  have "hab_mem_export view_ex 2 export_param_ex False [] drv_ex =
      Some (Done (0, export_param_ex\<lparr>he_exportid := of_nat i\<rparr>) [] s5)"
  proof (rule export_call [OF _ _ _ _ put])
    show "export_param_ok export_param_ex" by (simp add: export_param_ok_def export_param_ex_def)
    show "hab_get_vchan_fromvcid (he_vcid export_param_ex) 2 False drv_ex = Some (Some 3, with_ref 3 vchan_ex drv_ex)"
      using found_ex by (simp add: export_param_ex_def)
    show "habmem_hyp_grant_user view_ex 3 (he_buffer export_param_ex) (unat (he_sizebytes export_param_ex) div 4096)
        (he_flags export_param_ex) (with_ref 3 vchan_ex drv_ex) =
      Some ((0, compressed_pfns_size + region_size * length (cp_region tb), of_nat i), export_added (vc_pchan ?vc) pchan_ex i x t)"
      using grant a(3) by (simp add: export_param_ex_def)
    show "habmem_export_vchan (kv_stack view_ex) 2 3 (compressed_pfns_size + region_size * length (cp_region tb)) (of_nat i) []
        (export_added (vc_pchan ?vc) pchan_ex i x t) = Some (Done 0 [] ?s)"
      using export_vchan_new [OF t(1,2,7,3) a(1), of 0] small by (simp add: view_ex_def)
  qed
  then show ?thesis by blast
qed

theorem hab_mem_export_user_witness:
  "\<exists>param' s'. hab_mem_export view_ex 2 export_param_ex False [] drv_ex = Some (Done (0, param') [] s') \<and>
     drv_wf {} none_held none_held files_ex s' \<and> exported 2 (he_exportid param') [100, 101, 205] 2 drv_ex s'"
proof -
  have "\<exists>r param' s'. hab_mem_export view_ex 2 export_param_ex False [] drv_ex = Some (Done (r, param') [] s') \<and>
      drv_wf {} none_held none_held files_ex s' \<and>
      ((r = kv_stack view_ex \<and> exported 2 (he_exportid param') (kv_user_pages view_ex (he_buffer export_param_ex) 2) 2 drv_ex s') \<or>
       (r \<in> {- EINVAL, - ENODEV} \<and> st_ctxs s' = st_ctxs drv_ex))"
    by (rule hab_mem_export_user [OF drv_ex_wf drv_ex_ctx _ ids_left_ex])
      (auto simp: drv_ex_def pchan_ex_def export_param_ex_def view_ex_def has_flag_def split: if_splits)
  with export_run_ex show ?thesis by (auto simp: view_ex_def)
qed

end
