(* ===== verification/Hab_Import_Ack.thy ===== *)
theory Hab_Import_Ack
  imports Hab_Tables Hab_Linux Hab_Faults Hab_Export_Safe
begin

text \<open>
  What holds of every export descriptor in every state the driver reaches.  The number of table bytes an
  exporter sends in answer to an import request, \<^verbatim>\<open>exp_super->payload_size\<close>, is set by no operation, so that
  the answer is always the bare descriptor, which no importer accepts; and the regions a descriptor's table
  announces lie in its payload, so that walking the table stays in it.
\<close>

section \<open>What every operation keeps of the descriptors\<close>

definition desc_ok :: "export_desc_super \<Rightarrow> bool" where
  "desc_ok x \<longleftrightarrow> ex_payload_size x = 0 \<and>
     compressed_pfns_hdr + nat (sint (field32 8 (ex_payload x))) * region_size \<le> length (ex_payload x)"

definition descs_ok :: "(nat \<Rightarrow> export_desc_super option) \<Rightarrow> bool" where
  "descs_ok X \<longleftrightarrow> (\<forall>e x. X e = Some x \<longrightarrow> desc_ok x)"

abbreviation descs :: "hab_driver \<Rightarrow> bool" where
  "descs s \<equiv> descs_ok (st_exps s)"

lemma desc_ok_cong: "desc_ok x \<Longrightarrow> ex_payload_size y = ex_payload_size x \<Longrightarrow> ex_payload y = ex_payload x \<Longrightarrow> desc_ok y"
  by (simp add: desc_ok_def)

lemma descs_ok_simps [simp]:
  "descs_ok X \<Longrightarrow> descs_ok (X(e := None))"
  "descs_ok X \<Longrightarrow> desc_ok y \<Longrightarrow> descs_ok (X(e \<mapsto> y))"
  "descs_ok X \<Longrightarrow> X e = Some x \<Longrightarrow> desc_ok x"
  "descs_ok X \<Longrightarrow> X e = Some x \<Longrightarrow> ex_payload_size y = ex_payload_size x \<Longrightarrow> ex_payload y = ex_payload x \<Longrightarrow>
     descs_ok (X(e \<mapsto> y))"
  unfolding descs_ok_def using desc_ok_cong by (auto split: if_split_asm)

named_theorems descs "the descriptors stay as they should be"

lemma mod_descs [descs]:
  "kalloc s = (ok, s') \<Longrightarrow> descs s \<Longrightarrow> descs s'"
  "mod_pchan p f s = Some s' \<Longrightarrow> descs s \<Longrightarrow> descs s'"
  "mod_vchan v g s = Some s' \<Longrightarrow> descs s \<Longrightarrow> descs s'"
  "mod_dev d h s = Some s' \<Longrightarrow> descs s \<Longrightarrow> descs s'"
  "mod_ctx c k s = Some s' \<Longrightarrow> descs s \<Longrightarrow> descs s'"
  using kalloc_frame [of s ok s']
  by (auto simp: mod_pchan_def mod_vchan_def mod_dev_def mod_ctx_def split: option.splits if_splits)

lemma mod_exp_descs:
  "mod_exp e f s = Some s' \<Longrightarrow> descs s \<Longrightarrow> (\<And>x. desc_ok x \<Longrightarrow> desc_ok (f x)) \<Longrightarrow> descs s'"
  by (auto simp: mod_exp_def split: option.splits)

lemma desc_ok_updates [simp]:
  "desc_ok (x\<lparr>ex_pchan := q, ex_vchan := v, ex_ctx := c\<rparr>) = desc_ok x"
  "desc_ok (x\<lparr>ex_exp_state := st\<rparr>) = desc_ok x"
  "desc_ok (x\<lparr>ex_import_state := ist\<rparr>) = desc_ok x"
  "desc_ok (x\<lparr>ex_remote_imported := b\<rparr>) = desc_ok x"
  "desc_ok (x\<lparr>ex_refcount := n\<rparr>) = desc_ok x"
  "desc_ok (x\<lparr>ex_kva := k\<rparr>) = desc_ok x"
  "desc_ok (x\<lparr>ex_dmabuf := d\<rparr>) = desc_ok x"
  "desc_ok (x\<lparr>ex_payload_count := pn\<rparr>) = desc_ok x"
  by (simp_all add: desc_ok_def)

lemma hyp_descs: "hyp_frame p s s' \<Longrightarrow> descs s' = descs s"
  by (auto simp: hyp_frame_def)

lemma transport_descs [descs]:
  "physical_channel_send p h b s = Some (r, s') \<Longrightarrow> descs s \<Longrightarrow> descs s'"
  "physical_channel_read p n s = Some (r, bs, s') \<Longrightarrow> descs s \<Longrightarrow> descs s'"
  using send_frame read_frame hyp_descs by blast+

lemma pchan_descs [descs]:
  "hab_pchan_put p s = Some s' \<Longrightarrow> descs s \<Longrightarrow> descs s'"
  "hab_pchan_get p s = Some s' \<Longrightarrow> descs s \<Longrightarrow> descs s'"
  "expid_remove p i s = Some s' \<Longrightarrow> descs s \<Longrightarrow> descs s'"
  by (auto simp: hab_pchan_put_def hab_pchan_get_def hab_pchan_free_def expid_remove_def run_defs dest: descs split: if_splits)

lemma unimport_msg_descs [descs]: "hab_send_unimport_msg v i s = Some s' \<Longrightarrow> descs s \<Longrightarrow> descs s'"
  by (auto simp: hab_send_unimport_msg_def run_defs dest: descs)

lemma export_put_descs [descs]: "habmem_export_put e s = Some s' \<Longrightarrow> descs s \<Longrightarrow> descs s'"
  unfolding habmem_export_put_def habmem_export_destroy_def habmem_exp_release_def run_defs
  by (auto split: if_splits option.splits)

lemma remove_export_descs [descs]: "habmem_remove_export e s = Some s' \<Longrightarrow> descs s \<Longrightarrow> descs s'"
  unfolding habmem_remove_export_def run_defs
  by (auto dest!: export_put_descs split: option.splits)

lemma ctx_free_exports_descs: "ctx_free_exports c es s = Some s' \<Longrightarrow> descs s \<Longrightarrow> descs s'"
proof (induction es arbitrary: s)
  case (Cons e es)
  then show ?case
    by (auto simp: run_defs expid_remove_def split: if_splits dest!: remove_export_descs)
qed simp

lemma ctx_free_imports_descs: "ctx_free_imports c m s = Some s' \<Longrightarrow> descs s \<Longrightarrow> descs s'"
proof (induction m arbitrary: s)
  case (Cons a m)
  then show ?case
    by (cases a) (auto simp: run_defs habmm_imp_hyp_unmap_def split: if_splits dest!: transport_descs(1))
qed simp

lemma ctx_put_descs [descs]: "hab_ctx_put c s = Some s' \<Longrightarrow> descs s \<Longrightarrow> descs s'"
  unfolding hab_ctx_put_def hab_ctx_free_def run_defs
  by (auto split: if_splits dest!: ctx_free_exports_descs ctx_free_imports_descs)

lemma vchan_put_descs [descs]: "hab_vchan_put v s = Some s' \<Longrightarrow> descs s \<Longrightarrow> descs s'"
  unfolding hab_vchan_put_def hab_vchan_free_def run_defs
  by (auto split: if_splits dest!: msgs_free_tables ctx_put_descs pchan_descs(1))

lemma vchan_get_descs [descs]: "hab_vchan_get p h s = Some (r, s') \<Longrightarrow> descs s \<Longrightarrow> descs s'"
  by (auto simp: hab_vchan_get_def vchan_get_unless_zero_def run_defs split: option.splits if_splits)

lemma fromvcid_descs [descs]: "hab_get_vchan_fromvcid vcid c ign s = Some (r, s') \<Longrightarrow> descs s \<Longrightarrow> descs s'"
  by (auto simp: hab_get_vchan_fromvcid_def vchan_get_unless_zero_def run_defs split: option.splits if_splits)

section \<open>Messages\<close>

lemma kallocs_descs: "kallocs n s = (ok, s') \<Longrightarrow> descs s \<Longrightarrow> descs s'"
  by (induction n arbitrary: s) (auto split: prod.splits if_splits dest: descs)

lemma read_pages_descs: "read_pages p ns s = Some (t, ps, s') \<Longrightarrow> descs s \<Longrightarrow> descs s'"
  by (induction ns arbitrary: s t ps) (auto simp: run_defs dest!: transport_descs(2))

lemma msg_alloc_descs [descs]: "hab_msg_alloc p n s = Some (m, s') \<Longrightarrow> descs s \<Longrightarrow> descs s'"
  by (auto simp: hab_msg_alloc_def hab_scatter_msg_alloc_def run_defs split: prod.splits if_splits
      dest!: kallocs_descs read_pages_descs mod_descs(1) transport_descs(2))

lemma drop_descs [descs]: "drop_ret p n r s = Some (r', s') \<Longrightarrow> descs s \<Longrightarrow> descs s'"
  by (auto simp: drop_ret_def hab_msg_drop_def run_defs split: prod.splits if_splits
      dest!: mod_descs(1) transport_descs(2))

lemma invalid_ack_descs [descs]: "hab_create_invalid_ack v i s = Some s' \<Longrightarrow> descs s \<Longrightarrow> descs s'"
  by (auto simp: hab_create_invalid_ack_def imp_rxq_add_def case_kalloc run_defs split: if_splits)

lemma reject_descs [descs]: "export_desc_reject v pc i s = Some s' \<Longrightarrow> descs s \<Longrightarrow> descs s'"
  by (auto simp: export_desc_reject_def run_defs split: if_splits dest!: invalid_ack_descs unimport_msg_descs)

lemma export_ack_descs [descs]:
  "hab_send_export_ack v p x s = Some (r, s') \<Longrightarrow> descs s \<Longrightarrow> descs s'"
  "hab_receive_create_export_ack p c n s = Some (r, s') \<Longrightarrow> descs s \<Longrightarrow> descs s'"
  "hab_receive_import_ack_fail p v s = Some (r, s') \<Longrightarrow> descs s \<Longrightarrow> descs s'"
  "hab_send_import_ack_fail v i s = Some (r, s') \<Longrightarrow> descs s \<Longrightarrow> descs s'"
  by (auto simp: hab_send_export_ack_def hab_receive_create_export_ack_def hab_receive_import_ack_fail_def
      hab_send_import_ack_fail_def imp_rxq_add_def case_kalloc run_defs split: if_splits
      dest!: mod_descs(1) transport_descs)

lemma field32_replicate_zero: "12 \<le> n \<Longrightarrow> field32 8 (replicate n 0) = 0"
  by (simp add: field32_def le_to_word_def numeral_eq_Suc)

lemma new_desc [simp]:
  "12 \<le> f \<Longrightarrow> desc_ok (export_new i g f v vc pc)"
  using field32_replicate_zero [of "Suc f"] by (simp add: desc_ok_def export_new_def Let_def del: replicate_Suc)

lemma received_desc:
  assumes "export_desc_valid (export_localize p pc vc (export_of_bytes b)) (length b)"
  shows "desc_ok (export_localize p pc vc (export_of_bytes b))"
  using valid_table [OF refl assms]
  by (simp add: table_ok_def desc_ok_def export_localize_def export_of_bytes_def Let_def)

lemma enqueue_descs [descs]:
  "hab_export_enqueue v x s = Some (r, s') \<Longrightarrow> desc_ok x \<Longrightarrow> descs s \<Longrightarrow> descs s'"
  by (auto simp: hab_export_enqueue_def mod_ctx_def run_defs split: if_splits option.splits)

lemma receive_desc_kept [descs]:
  assumes run: "hab_receive_export_desc p v n s = Some (r, s')" and ok: "descs s"
  shows "descs s'"
proof (cases "HAB_HEADER_SIZE_MAX < n \<or> n < export_desc_size + compressed_pfns_size \<or> \<not> (st_mem s = [] \<or> \<not> hd (st_mem s))")
  case True
  with run ok show ?thesis
    unfolding hab_receive_export_desc_def case_kalloc by (auto split: if_splits)
next
  case False
  with run obtain r1 b s2 where rd: "physical_channel_read p n (s\<lparr>st_mem := tl (st_mem s)\<rparr>) = Some (r1, b, s2)"
    unfolding hab_receive_export_desc_def case_kalloc by (auto simp: run_defs)
  have ok2: "descs s2" using transport_descs(2) [OF rd] ok by simp
  note run1 = run [unfolded hab_receive_export_desc_def case_kalloc] False rd
  show ?thesis
  proof (cases "r1 = int n")
    case False
    with run1 ok2 show ?thesis by simp
  next
    case True
    with run1 obtain pc vc where pc: "st_pchans s2 p = Some pc" "st_vchans s2 v = Some vc" by (auto simp: run_defs)
    define x where "x = export_localize p pc vc (export_of_bytes (into_zeroed n b))"
    have x: "desc_ok x" if "export_desc_valid x n"
      using received_desc [of p pc vc "into_zeroed n b"] that by (simp add: x_def)
    show ?thesis
      using run1 True pc ok2 x
      by (auto simp: x_def [symmetric] imp_rxq_add_def run_defs split: if_splits
          dest!: reject_descs enqueue_descs export_ack_descs(1))
  qed
qed

lemma unimport_recv_descs [descs]: "hab_recv_unimport_msg p s = Some s' \<Longrightarrow> descs s \<Longrightarrow> descs s'"
  by (auto simp: hab_recv_unimport_msg_def run_defs split: option.splits if_splits dest!: transport_descs(2) mod_exp_descs)

lemma recv_queue_descs [descs]:
  "recv_message p v n s = Some s' \<Longrightarrow> descs s \<Longrightarrow> descs s'"
  "recv_profile p v n s = Some s' \<Longrightarrow> descs s \<Longrightarrow> descs s'"
  "recv_sche p v n s = Some s' \<Longrightarrow> descs s \<Longrightarrow> descs s'"
  by (auto simp: recv_message_def recv_profile_def recv_sche_def hab_msg_queue_def run_defs
      split: option.splits if_splits dest!: msg_alloc_descs)

lemma import_ack_descs [descs]: "hab_send_import_ack v e s = Some (r, s') \<Longrightarrow> descs s \<Longrightarrow> descs s'"
  unfolding hab_send_import_ack_def run_defs
  by (auto dest!: transport_descs(1) elim!: mod_exp_descs)

lemma recv_import_descs [descs]:
  assumes run: "recv_import p v s = Some s'" and ok: "descs s"
  shows "descs s'"
proof -
  from run obtain r b s1 where rd: "physical_channel_read p import_data_size s = Some (r, b, s1)"
    by (auto simp: recv_import_def run_defs)
  have ok1: "descs s1" using transport_descs(2) [OF rd ok] .
  show ?thesis
  proof (cases "r = int import_data_size")
    case False
    with run rd ok1 show ?thesis by (simp add: recv_import_def)
  next
    case True
    with run rd obtain pc where pc: "st_pchans s1 p = Some pc" by (auto simp: recv_import_def run_defs)
    note run1 = run [unfolded recv_import_def] rd True pc
    show ?thesis
    proof (cases "idr_find (pc_expid_idr pc) (unat (id_exp_id (dec_import_data (into_zeroed import_data_size b))))")
      case None
      with run1 ok1 show ?thesis by (auto simp: run_defs dest!: export_ack_descs(4))
    next
      case (Some e)
      with run1 obtain x where x: "st_exps s1 e = Some x" by (auto simp: run_defs)
      with run1 Some ok1 show ?thesis
        by (auto simp: run_defs split: if_split_asm dest!: import_ack_descs export_ack_descs(4))
    qed
  qed
qed

lemma open_descs [descs]:
  "hab_open_request_add p n ty s = Some (r, s') \<Longrightarrow> descs s \<Longrightarrow> descs s'"
  "hab_open_receive_cancel p n s = Some (r, s') \<Longrightarrow> descs s \<Longrightarrow> descs s'"
  unfolding hab_open_request_add_def hab_open_receive_cancel_def case_kalloc openq_add_def run_defs
  by (auto split: if_splits option.splits dest!: transport_descs(2) pchan_descs(2) simp del: get_dev_Some)

lemma recv_vchan_msg_descs [descs]:
  assumes run: "recv_vchan_msg p v ty n s = Some (r, s')" and ok: "descs s"
  shows "descs s'"
proof (cases "payload_of_code ty")
  case (Some t)
  with run ok show ?thesis
    by (cases t) (auto simp: recv_vchan_msg_def run_defs hab_vchan_stop_def
        dest!: recv_queue_descs receive_desc_kept export_ack_descs unimport_recv_descs recv_import_descs)
qed (use run ok in \<open>simp add: recv_vchan_msg_def\<close>)

lemma msg_recv_descs:
  assumes run: "hab_msg_recv p h s = Some (r, s')" and ok: "descs s"
  shows "descs s'"
proof (cases "is_open_type (HAB_HEADER_GET_TYPE h)")
  case True
  with run ok show ?thesis
    by (auto simp: hab_msg_recv_def Let_def split: if_splits dest!: open_descs drop_descs)
next
  case False
  obtain vo s1 where get: "hab_vchan_get p h s = Some (vo, s1)"
    using run False by (auto simp: hab_msg_recv_def run_defs)
  have ok1: "descs s1" using vchan_get_descs [OF get ok] .
  note run1 = run [unfolded hab_msg_recv_def Let_def] False get
  show ?thesis
  proof (cases vo)
    case None
    with run1 ok1 show ?thesis
      by (auto simp: run_defs split: if_splits dest!: drop_descs unimport_recv_descs)
  next
    case (Some v)
    with run1 ok1 show ?thesis
      by (auto simp: run_defs split: if_splits dest!: vchan_put_descs drop_descs recv_vchan_msg_descs)
  qed
qed

section \<open>The calls of clients\<close>

lemma sint_of_nat_le: "nat (sint (of_nat n :: u32)) \<le> n"
proof -
  have "sint (of_nat n :: u32) = signed_take_bit 31 (int n)" by (simp add: signed_of_nat)
  also have "\<dots> \<le> int n \<or> signed_take_bit 31 (int n) < 0"
    by (simp add: signed_take_bit_int_less_eq_self_iff)
  finally show ?thesis by auto
qed

lemma compressed_table: "habmem_compress_pfns d off n m = Some (Inr (sz, t), m') \<Longrightarrow> cp_nregions t = of_nat (length (cp_region t))"
  by (auto simp: habmem_compress_pfns_def compress_own_def mk_pfns_def split: option.split_asm dma_priv.split_asm
      prod.split_asm if_split_asm list.split_asm)

lemma table_desc:
  assumes "habmem_compress_pfns d off n m = Some (Inr (sz, t), m')" "desc_ok x"
  shows "desc_ok (x\<lparr>ex_payload := enc_pfns t @ rest\<rparr>)"
  using assms(2) sint_of_nat_le [of "length (cp_region t)"]
  by (simp add: desc_ok_def field32_nregions compressed_table [OF assms(1)] length_enc_pfns)

lemma add_compress_descs [descs]:
  assumes run: "habmem_add_export_compress v off n d flags s = Some (r, s')" and ok: "descs s"
  shows "descs s'"
proof -
  obtain ro s1 where add: "habmem_add_export v (compressed_pfns_size + n * region_size) flags s = Some (ro, s1)"
    using run by (auto simp: habmem_add_export_compress_def run_defs)
  have ok1: "descs s1" using add ok
    by (auto simp: habmem_add_export_def expid_alloc_def case_kalloc run_defs split: if_splits option.splits dest!: mod_descs(2))
  note run1 = run [unfolded habmem_add_export_compress_def] add
  show ?thesis
  proof (cases ro)
    case None
    with run1 ok1 show ?thesis by (auto simp: put_buf_def)
  next
    case (Some e)
    obtain k s2 where k: "kalloc s1 = (k, s2)" by fastforce
    with run1 Some have k': "k" by (cases k) simp_all
    have ok2: "descs s2" using mod_descs(1) [OF k ok1] .
    from run1 Some k k' obtain s3 where s3: "mod_exp e (\<lambda>x. x\<lparr>ex_payload_count := of_nat n, ex_dmabuf := Some d,
        ex_refcount := 1\<rparr>) s2 = Some s3" by (auto simp: run_defs)
    have ok3: "descs s3" by (rule mod_exp_descs [OF s3 ok2]) simp
    from run1 Some k k' s3 obtain x cr m where x: "st_exps s3 e = Some x"
      and c: "habmem_compress_pfns d off n (st_hyp_mem s3) = Some (cr, m)" by (auto simp: run_defs)
    note run2 = run1 Some k k' s3 x c
    show ?thesis
    proof (cases cr)
      case (Inr st)
      obtain sz t where st: "st = (sz, t)" by fastforce
      from run2 Inr st obtain s5 where s5: "mod_exp e (\<lambda>x. x\<lparr>ex_payload := enc_pfns t @
          drop (length (enc_pfns t)) (ex_payload x)\<rparr>) (s3\<lparr>st_hyp_mem := m\<rparr>) = Some s5" "s' = s5" by (auto simp: run_defs)
      have "descs (s3\<lparr>st_hyp_mem := m\<rparr>)" using ok3 by simp
      then have "descs s5" by (rule mod_exp_descs [OF s5(1)]) (rule table_desc [OF c [unfolded Inr st]])
      then show ?thesis by (simp add: s5(2))
    next
      case (Inl err)
      with run2 ok3 show ?thesis
        by (cases "ex_pchan x") (auto simp: put_buf_def run_defs dest!: pchan_descs(3))
    qed
  qed
qed

lemma grant_descs:
  "habmem_hyp_grant_user k v a n flags s = Some (r, s') \<Longrightarrow> descs s \<Longrightarrow> descs s'"
  "habmem_hyp_grant k v a n flags s = Some (r, s') \<Longrightarrow> descs s \<Longrightarrow> descs s'"
proof -
  assume "habmem_hyp_grant_user k v a n flags s = Some (r, s')" "descs s"
  then show "descs s'"
    unfolding habmem_hyp_grant_user_def Let_def
    by (auto split: option.split_asm prod.split_asm dest!: add_compress_descs)
next
  assume run: "habmem_hyp_grant k v a n flags s = Some (r, s')" and ok: "descs s"
  have fin: "descs s'" if "(case db of Inl e \<Rightarrow> Some ((e, 0, 0), s\<lparr>st_hyp_mem := m\<rparr>)
      | Inr d \<Rightarrow> habmem_add_export_compress v 0 n d flags (s\<lparr>st_hyp_mem := m\<rparr>)) = Some (r, s')" for db m
    using that ok by (cases db) (auto dest!: add_compress_descs)
  from run obtain vc where "st_vchans s v = Some vc" by (auto simp: habmem_hyp_grant_def run_defs)
  with run show "descs s'"
    unfolding habmem_hyp_grant_def by (auto simp only: bind.bind_lunit Let_def split: prod.split_asm dest!: fin)
qed

lemma unexport_descs: "hab_mem_unexport c param s = Some (r, s') \<Longrightarrow> descs s \<Longrightarrow> descs s'"
  by (auto simp: hab_mem_unexport_def habmem_hyp_revoke_def export_list_del_def run_defs split: if_splits option.splits
      dest!: fromvcid_descs vchan_put_descs remove_export_descs pchan_descs(3))

lemma whse_drop_descs: "imp_whse_drop c e s = Some s' \<Longrightarrow> descs s \<Longrightarrow> descs s'"
  by (auto simp: imp_whse_drop_def mod_ctx_def run_defs split: option.splits)

lemma exp_set_state_descs: "exp_set_state e st s = Some s' \<Longrightarrow> descs s \<Longrightarrow> descs s'"
  by (auto simp: exp_set_state_def elim!: mod_exp_descs)

lemma claim_descs:
  "import_claim c key s = Some (cl, s') \<Longrightarrow> descs s \<Longrightarrow> descs s'"
  "unimport_claim c key s = Some (cl, s') \<Longrightarrow> descs s \<Longrightarrow> descs s'"
  by (auto simp: import_claim_def unimport_claim_def run_defs split: if_split_asm option.split_asm dest!: exp_set_state_descs)

lemma import_map_descs: "import_map k q kern e s = Some (r, s') \<Longrightarrow> descs s \<Longrightarrow> descs s'"
  unfolding import_map_def Let_def bind_eq_Some_conv
  by (elim exE conjE) (auto simp: run_defs split: if_split_asm prod.split_asm dest!: exp_set_state_descs elim!: mod_exp_descs)

lemma give_back_descs:
  "import_rollback c v p e i s = Some s' \<Longrightarrow> descs s \<Longrightarrow> descs s'"
  "unimport_drop c v e s = Some s' \<Longrightarrow> descs s \<Longrightarrow> descs s'"
  by (auto simp: import_rollback_def unimport_drop_def run_defs split: if_split_asm
      dest!: whse_drop_descs unimport_msg_descs)

lemma import_rest_descs:
  assumes run: "import_rest k c param kern v p i s = Some (r, s')" and ok: "descs s"
  shows "descs s'"
proof (cases "i = 0")
  case False
  with run ok show ?thesis by (auto simp: import_rest_def run_defs dest!: vchan_put_descs)
next
  case True
  with run obtain cl s1 where cl: "import_claim c (unat (hi_exportid param), p) s = Some (cl, s1)"
    by (auto simp: import_rest_def run_defs)
  have ok1: "descs s1" using claim_descs(1) [OF cl ok] .
  show ?thesis
    using run True cl ok1
    by (cases cl) (auto simp: import_rest_def run_defs dest!: vchan_put_descs import_map_descs give_back_descs)
qed

lemma unimport_descs:
  assumes run: "hab_mem_unimport c param kern s = Some (r, s')" and ok: "descs s"
  shows "descs s'"
proof -
  from run obtain vo s1 where v: "hab_get_vchan_fromvcid (hn_vcid param) c True s = Some (vo, s1)"
    by (auto simp: hab_mem_unimport_def run_defs)
  have ok1: "descs s1" using fromvcid_descs [OF v ok] .
  show ?thesis
  proof (cases vo)
    case None
    with run v ok1 show ?thesis by (simp add: hab_mem_unimport_def)
  next
    case (Some u)
    with run v obtain vc cl s2 where vc: "st_vchans s1 u = Some vc"
      and cl: "unimport_claim c (unat (hn_exportid param), vc_pchan vc) s1 = Some (cl, s2)"
      by (auto simp: hab_mem_unimport_def run_defs)
    have ok2: "descs s2" using claim_descs(2) [OF cl ok1] .
    note run1 = run [unfolded hab_mem_unimport_def] v Some vc cl
    show ?thesis
    proof (cases cl)
      case (Inl err)
      with run1 ok2 show ?thesis by (auto simp: run_defs dest!: vchan_put_descs)
    next
      case (Inr e)
      with run1 ok2 show ?thesis
        by (auto simp: run_defs unimport_unmap_def habmm_imp_hyp_unmap_def split: if_split_asm
            dest!: vchan_put_descs give_back_descs(2))
    qed
  qed
qed

lemma reclaim_descs: "reclaim_cleanup s = Some s' \<Longrightarrow> descs s \<Longrightarrow> descs s'"
proof -
  have free: "reclaim_free es s = Some s' \<Longrightarrow> descs s \<Longrightarrow> descs s'" for es s s'
    by (induction es arbitrary: s) (auto simp: run_defs dest!: pchan_descs(3) export_put_descs)
  show "reclaim_cleanup s = Some s' \<Longrightarrow> descs s \<Longrightarrow> descs s'"
    by (auto simp: reclaim_cleanup_def split: if_splits dest!: free)
qed

text \<open>A wait keeps what its condition and the other threads keep.\<close>

lemma wait_loop_keeps:
  assumes "wait_loop cond sigs tmos w s = Some (Done r w' s')" "I s"
    and "\<And>s x s'. cond s = Some (x, s') \<Longrightarrow> I s \<Longrightarrow> I s'" "\<And>f t t'. Env f \<in> set w \<Longrightarrow> f t = Some t' \<Longrightarrow> I t \<Longrightarrow> I t'"
  shows "I s'"
  using assms
proof (induction w arbitrary: s)
  case (Cons ev w)
  from Cons.prems(1) obtain x s1 where x: "cond s = Some (x, s1)" by (auto simp: run_defs)
  have s1: "I s1" using Cons.prems(2,3) x by blast
  have rest: "I s'" if "wait_loop cond sigs tmos w t = Some (Done r w' s')" "I t" for t
  proof (rule Cons.IH [OF that Cons.prems(3)])
    fix f t t' assume "Env f \<in> set w" "f t = Some t'" "I t"
    then show "I t'" using Cons.prems(4) [of f t t'] by simp
  qed
  show ?case
  proof (cases x)
    case None
    show ?thesis
    proof (cases ev)
      case (Env f)
      then obtain t where t: "f s1 = Some t" "wait_loop cond sigs tmos w t = Some (Done r w' s')"
        using Cons.prems(1) x None by (auto simp: run_defs)
      have "I t" using Cons.prems(4) [of f s1 t] t(1) s1 Env by simp
      from rest [OF t(2) this] show ?thesis .
    next
      case Sig
      with Cons.prems(1) x None s1 rest show ?thesis by (cases sigs) auto
    next
      case Tmo
      show ?thesis
      proof (cases tmos)
        case True
        with Cons.prems(1) x None Tmo obtain y t where t: "cond s1 = Some (y, t)" "s' = t" by (auto simp: run_defs)
        from Cons.prems(3) [OF t(1) s1] show ?thesis by (simp add: t(2))
      qed (use Cons.prems(1) x None s1 rest Tmo in auto)
    qed
  qed (use Cons.prems(1) x s1 in auto)
next
  case Nil
  then show ?case by (auto simp: run_defs split: option.split_asm)
qed

lemma wait_event_keeps:
  assumes run: "wait_event cond sigs tmos w s = Some (Done r w' s')" and "I s"
    and cond: "\<And>s x s'. cond s = Some (x, s') \<Longrightarrow> I s \<Longrightarrow> I s'" and env: "\<And>f t t'. Env f \<in> set w \<Longrightarrow> f t = Some t' \<Longrightarrow> I t \<Longrightarrow> I t'"
  shows "I s'"
proof -
  from run obtain x s1 where x: "cond s = Some (x, s1)" by (auto simp: wait_event_def run_defs)
  have "I s1" using cond [OF x] assms(2) .
  show ?thesis
  proof (cases x)
    case None
    with run x have "wait_loop cond sigs tmos w s1 = Some (Done r w' s')" by (simp add: wait_event_def)
    from wait_loop_keeps [where I = I, OF this \<open>I s1\<close> cond env] show ?thesis .
  qed (use run x \<open>I s1\<close> in \<open>simp add: wait_event_def\<close>)
qed

lemma run_bind_DoneE:
  assumes "run_bind m f = Some (Done r w s)"
  obtains a w1 s1 where "m = Some (Done a w1 s1)" "f a w1 s1 = Some (Done r w s)"
  using assms by (cases m) (auto simp: run_bind_def split: run.split_asm)

lemma export_vchan_descs:
  assumes run: "habmem_export_vchan stk c v sz i w s = Some (Done r w' s')" and ok: "descs s"
    and env: "\<And>f t t'. Env f \<in> set w \<Longrightarrow> f t = Some t' \<Longrightarrow> descs t \<Longrightarrow> descs t'"
  shows "descs s'"
proof -
  have wait: "descs t" if "hab_export_ack_wait c a v w s1 = Some (Done r w1 t)" "descs s1" for a r w1 s1 t
  proof -
    from that(1) obtain q s2 where q: "wait_event (hab_export_ack_find c a v) True True w s1 = Some (Done q w1 s2)" "t = s2"
      unfolding hab_export_ack_wait_def by (auto simp: run_defs elim!: run_bind_DoneE)
    have find: "descs u'" if "hab_export_ack_find c a v u = Some (x, u')" "descs u" for u x u'
    proof -
      from that(1) obtain cx vc where cx: "st_ctxs u c = Some cx" "st_vchans u v = Some vc"
        by (auto simp: hab_export_ack_find_def run_defs)
      obtain r' q' where "ack_walk (\<lambda>aa. aa = a \<or> vc_otherend_closed vc) (cx_exp_rxq cx) = (r', q')" by fastforce
      with that cx show ?thesis by (auto simp: hab_export_ack_find_def mod_ctx_def)
    qed
    from wait_event_keeps [where I = descs, OF q(1) that(2) find env] show ?thesis by (simp add: q(2))
  qed
  show ?thesis
  proof (cases "HAB_HEADER_SIZE_MAX < export_desc_size + sz")
    case True
    with run ok show ?thesis by (simp add: habmem_export_vchan_def)
  next
    case False
    from run False obtain vc pc where vc: "st_vchans s v = Some vc" "st_pchans s (vc_pchan vc) = Some pc"
      by (auto simp: habmem_export_vchan_def run_defs)
    show ?thesis
    proof (cases "idr_find (pc_expid_idr pc) (unat i)")
      case None
      with run False vc ok show ?thesis by (simp add: habmem_export_vchan_def)
    next
      case (Some e)
      with run False vc obtain x where x: "st_exps s e = Some x" by (auto simp: habmem_export_vchan_def run_defs)
      note run1 = run [unfolded habmem_export_vchan_def] False vc Some x
      have fin: "descs s'" if "(if \<not> go_on then Some (Done r1 w4 s4) else do {
            s5 \<leftarrow> mod_ctx c (\<lambda>cx. cx\<lparr>cx_export_total := cx_export_total cx + 1, cx_exp_whse := cx_exp_whse cx @ [e]\<rparr>) s4;
            s6 \<leftarrow> mod_exp e (\<lambda>x. x\<lparr>ex_exp_state := HAB_EXP_SUCCESS\<rparr>) s5;
            Some (Done r1 w4 s6) }) = Some (Done r w' s')" "descs s4" for go_on r1 w4 s4
      proof (cases go_on)
        case True
        with that(1) obtain s5 where s5: "mod_ctx c (\<lambda>cx. cx\<lparr>cx_export_total := cx_export_total cx + 1, cx_exp_whse := cx_exp_whse cx @ [e]\<rparr>) s4 = Some s5"
          and s6: "mod_exp e (\<lambda>x. x\<lparr>ex_exp_state := HAB_EXP_SUCCESS\<rparr>) s5 = Some s'"
          by (auto simp: run_defs)
        show ?thesis by (rule mod_exp_descs [OF s6 mod_descs(5) [OF s5 that(2)]]) simp
      qed (use that in simp)
      show ?thesis
      proof (cases "pc_mem_proto pc = 0")
        case False
        with run1 ok fin [of True stk w s] show ?thesis by simp
      next
        case True
        with run1 obtain r0 s1 where sent: "physical_channel_send (vc_pchan vc)
            (mk_header (export_desc_size + sz) HAB_PAYLOAD_TYPE_EXPORT (vc_otherend_id vc) (vc_session_id vc))
            (Some (export_image s (0, 0) x)) s = Some (r0, s1)"
          by (auto simp: run_defs elim!: run_bind_DoneE)
        have ok1: "descs s1" using transport_descs(1) [OF sent ok] .
        note run2 = run1 True sent
        show ?thesis
        proof (cases "r0 = 0")
          case False
          with run2 ok1 show ?thesis by simp
        next
          case True
          with run2 obtain r2 w2 s2 where a: "hab_export_ack_wait c \<lparr>ea_export_id = ex_export_id x,
              ea_vcid_local = ex_vcid_local x, ea_vcid_remote = ex_vcid_remote x\<rparr> v w s1 = Some (Done r2 w2 s2)"
            by (auto elim!: run_bind_DoneE)
          note run3 = run2 True a
          have ok2: "descs s2" using wait [OF a ok1] .
          show ?thesis
          proof (cases "r2 = 0")
            case False
            with run3 ok2 show ?thesis by simp
          next
            case True
            with run3 obtain s3 where s3: "mod_exp e (\<lambda>x. x\<lparr>ex_pchan := Some (vc_pchan vc), ex_vchan := Some v, ex_ctx := Some c\<rparr>) s2 = Some s3"
              by (auto simp: run_defs elim!: run_bind_DoneE)
            have "descs s3" by (rule mod_exp_descs [OF s3 ok2]) simp
            with run3 True s3 fin [of True 0 w2 s3] show ?thesis by simp
          qed
        qed
      qed
    qed
  qed
qed

section \<open>Runs of the driver\<close>

text \<open>
  Every operation that writes an export descriptor is a step: the messages of the other side, the parts of
  export and import, their inverses, the end of channels and contexts, and the reclaiming worker; and so is
  whatever leaves the descriptors alone.  While an export sleeps the other threads take such steps.
\<close>

inductive desc_step :: "hab_driver \<Rightarrow> hab_driver \<Rightarrow> bool" and desc_run :: "hab_driver \<Rightarrow> hab_driver \<Rightarrow> bool" where
  message: "hab_msg_recv p h s = Some (r, s') \<Longrightarrow> desc_step s s'"
| grant_user: "habmem_hyp_grant_user k v a n flags s = Some (g, s') \<Longrightarrow> desc_step s s'"
| grant: "habmem_hyp_grant k v a n flags s = Some (g, s') \<Longrightarrow> desc_step s s'"
| publish: "habmem_export_vchan stk c v sz i w s = Some (Done r w' s') \<Longrightarrow>
    (\<And>f t t'. Env f \<in> set w \<Longrightarrow> f t = Some t' \<Longrightarrow> desc_run t t') \<Longrightarrow> desc_step s s'"
| unexport: "hab_mem_unexport c unexp s = Some (r, s') \<Longrightarrow> desc_step s s'"
| import_it: "import_rest k c imp kern v p r s = Some (q, s') \<Longrightarrow> desc_step s s'"
| unimport: "hab_mem_unimport c unimp kern s = Some (q, s') \<Longrightarrow> desc_step s s'"
| put_channel: "hab_vchan_put v s = Some s' \<Longrightarrow> desc_step s s'"
| put_context: "hab_ctx_put c s = Some s' \<Longrightarrow> desc_step s s'"
| reclaim: "reclaim_cleanup s = Some s' \<Longrightarrow> desc_step s s'"
| other: "st_exps s' = st_exps s \<Longrightarrow> desc_step s s'"
| run_none: "desc_run s s"
| run_step: "desc_run s t \<Longrightarrow> desc_step t u \<Longrightarrow> desc_run s u"

lemma desc_kept: "(desc_step s s' \<longrightarrow> descs s \<longrightarrow> descs s') \<and> (desc_run t t' \<longrightarrow> descs t \<longrightarrow> descs t')"
proof (rule desc_step_desc_run.induct)
  fix stk c v sz i w s r w' s'
  assume run: "habmem_export_vchan stk c v sz i w s = Some (Done r w' s')"
    and env: "\<And>f t t'. Env f \<in> set w \<Longrightarrow> f t = Some t' \<Longrightarrow> descs t \<longrightarrow> descs t'"
  show "descs s \<longrightarrow> descs s'" using export_vchan_descs [OF run] env by blast
qed (use msg_recv_descs grant_descs unexport_descs import_rest_descs unimport_descs vchan_put_descs ctx_put_descs
    reclaim_descs in \<open>blast | simp\<close>)+

lemma descs_run: "desc_run s0 s \<Longrightarrow> (\<And>e x. st_exps s0 e = Some x \<Longrightarrow> desc_ok x) \<Longrightarrow> descs s"
  using desc_kept [of _ _ s0 s] by (auto simp: descs_ok_def)

section \<open>The acknowledgement of an import\<close>

text \<open>The acknowledgement sent for a descriptor without a size.\<close>

lemma import_ack_sent:
  assumes "st_vchans s v = Some vc" "st_exps s e = Some x" "ex_payload_size x = 0"
    and run: "hab_send_import_ack v e s = Some (0, s')"
  shows "pchan_outq s' (vc_pchan vc) = pchan_outq s (vc_pchan vc) @
    [(mk_header 89 HAB_PAYLOAD_TYPE_IMPORT_ACK (vc_otherend_id vc) (vc_session_id vc),
      enc_export_desc (export_wire s (export_links e x s) (x\<lparr>ex_pchan := None, ex_vchan := None, ex_ctx := None\<rparr>)) @
      take 1 (ex_payload x))]"
proof -
  let ?h = "mk_header 89 HAB_PAYLOAD_TYPE_IMPORT_ACK (vc_otherend_id vc) (vc_session_id vc)"
  have exps: "pchan_outq (t\<lparr>st_exps := X\<rparr>) = pchan_outq t" for t X by (simp add: pchan_outq_def fun_eq_iff)
  define x1 where "x1 = x\<lparr>ex_pchan := None, ex_vchan := None, ex_ctx := None\<rparr>"
  define s1 where "s1 = s\<lparr>st_exps := (st_exps s)(e \<mapsto> x1)\<rparr>"
  let ?b = "export_image s1 (export_links e x s) x1"
  have s1: "pchan_outq s1 = pchan_outq s" "export_wire s1 = export_wire s"
    by (simp_all add: s1_def exps export_wire_def ptr_def fun_eq_iff split: option.split)
  have x1: "ex_payload_size x1 = 0" "ex_payload x1 = ex_payload x" using assms(3) by (simp_all add: x1_def)
  with run assms(1-3) obtain s2 where sent: "physical_channel_send (vc_pchan vc) ?h (Some ?b) s1 = Some (0, s2)"
    and "\<exists>X. s' = s2\<lparr>st_exps := X\<rparr>"
    by (auto simp: hab_send_import_ack_def s1_def x1_def Let_def)
  then have s': "pchan_outq s' = pchan_outq s2" using exps by auto
  from core_transport.send_ok [OF sent] s1 s' x1(2) show ?thesis
    by (simp add: export_image_def x1_def)
qed

lemma import_ack_short: "hab_receive_export_desc q u 89 t = Some (- EINVAL, t)"
  by (simp add: hab_receive_export_desc_def)

text \<open>
  C33. The exporter's answer to an import request is one the importer always refuses.  The number of
  table bytes to send, \<^verbatim>\<open>exp_super->payload_size\<close>, is set by no operation of the driver: in every state the
  driver reaches from one without descriptors (messages, exports, imports, their inverses, ends of channels,
  and whatever other threads do meanwhile) the acknowledgement that is sent is the descriptor alone, 88 bytes
  with its links cleared and the first byte of its table, addressed to the importer's channel; and
  \<^verbatim>\<open>hab_receive_export_desc\<close> rejects a message of that length in every state, before it reads it.
\<close>
theorem import_ack_is_refused:
  assumes "\<And>d. st_exps s0 d = None" "desc_run s0 s"
    and "st_vchans s v = Some vc" "st_exps s e = Some x"
    and "hab_send_import_ack v e s = Some (0, s')"
  shows "pchan_outq s' (vc_pchan vc) = pchan_outq s (vc_pchan vc) @
      [(mk_header 89 HAB_PAYLOAD_TYPE_IMPORT_ACK (vc_otherend_id vc) (vc_session_id vc),
        enc_export_desc (export_wire s (export_links e x s) (x\<lparr>ex_pchan := None, ex_vchan := None, ex_ctx := None\<rparr>)) @
        take 1 (ex_payload x))] \<and>
    hab_receive_export_desc q u 89 t = Some (- EINVAL, t)"
proof
  from descs_run [OF assms(2)] assms(1) have "descs s" by simp
  with assms(4) have "desc_ok x" by simp
  then have "ex_payload_size x = 0" by (simp add: desc_ok_def)
  from import_ack_sent [OF assms(3,4) this assms(5)] show "pchan_outq s' (vc_pchan vc) = pchan_outq s (vc_pchan vc) @
      [(mk_header 89 HAB_PAYLOAD_TYPE_IMPORT_ACK (vc_otherend_id vc) (vc_session_id vc),
        enc_export_desc (export_wire s (export_links e x s) (x\<lparr>ex_pchan := None, ex_vchan := None, ex_ctx := None\<rparr>)) @
        take 1 (ex_payload x))]" .
qed (rule import_ack_short)

definition drv_bare :: hab_driver where
  "drv_bare = drv_ex\<lparr>st_exps := \<lambda>_. None\<rparr>"

definition view_bare :: kernel_view where
  "view_bare = \<lparr>kv_pfn_valid = (\<lambda>pfn. True), kv_user_pages = (\<lambda>a n. [100, 101, 205]), kv_kva_pages = (\<lambda>a n. []), kv_stack = 0\<rparr>"

lemma bare_run:
  obtains g s vc x s' where "habmem_hyp_grant_user view_bare 3 4096 2 0 drv_bare = Some (g, s)"
    "st_vchans s 3 = Some vc" "st_exps s 10 = Some x" "hab_send_import_ack 3 10 s = Some (0, s')"
    "vc_pchan vc = 1" "pchan_outq s 1 = []"
proof -
  have "fst (habmem_get_dma_buf_from_uva [100, 101, 205] 2 mem_example) \<noteq> None" by code_simp
  then obtain d m where db: "habmem_get_dma_buf_from_uva [100, 101, 205] 2 mem_example = (Some d, m)"
    by (cases "habmem_get_dma_buf_from_uva [100, 101, 205] 2 mem_example") auto
  define t where "t = drv_bare\<lparr>st_hyp_mem := m\<rparr>"
  have t: "st_vchans t 3 = Some vchan_ex" "st_pchans t (vc_pchan vchan_ex) = Some pchan_ex"
    "pc_mem_proto pchan_ex = 1" "st_mem t = []" "ids_left t" "st_hyp_mem t = m" "st_next t = 10" "descs t"
    using ids_left_ex
    by (simp_all add: t_def ids_left_def drv_bare_def drv_ex_def vchan_ex_fields pchan_ex_def descs_ok_def)
  obtain i x tb where a: "habmem_add_export_compress 3 0 2 d 0 t =
        Some ((0, compressed_pfns_size + region_size * length (cp_region tb), of_nat i), export_added (vc_pchan vchan_ex) pchan_ex i x t)"
    "take (length (enc_pfns tb)) (ex_payload x) = enc_pfns tb"
    by (rule add_export_user [OF t(1-5), of "[100, 101, 205]" 2 mem_example d 0 0]) (use db t(6) in auto)
  let ?s = "export_added (vc_pchan vchan_ex) pchan_ex i x t"
  have grant: "habmem_hyp_grant_user view_bare 3 4096 2 0 drv_bare =
      Some ((0, compressed_pfns_size + region_size * length (cp_region tb), of_nat i), ?s)"
    using db a(1) by (simp add: habmem_hyp_grant_user_def view_bare_def has_flag_def t_def drv_bare_def drv_ex_def)
  have s: "st_vchans ?s 3 = Some vchan_ex" "st_exps ?s 10 = Some x" "vc_pchan vchan_ex = 1" "st_mem ?s = []"
    using t by (simp_all add: export_added_def vchan_ex_fields)
  have "descs ?s" using add_compress_descs [OF a(1) t(8)] .
  with s(2) have "desc_ok x" by simp
  then have z: "ex_payload_size x = 0" by (simp add: desc_ok_def)
  have "ex_payload x \<noteq> []" using a(2) by (auto simp: length_enc_pfns dest: arg_cong [of _ _ length])
  then have "Suc 0 \<le> length (ex_payload x)" by (simp add: Suc_le_eq)
  then have "\<exists>s'. hab_send_import_ack 3 10 ?s = Some (0, s')"
    using s z by (auto simp: hab_send_import_ack_def Let_def mod_exp_def physical_channel_send_def vhost_send_def
      kalloc_def payload_bytes_def export_image_def pchan_ex_def export_added_def set_hyp_def mod_pchan_def)
  moreover have "pchan_outq ?s 1 = []" by (simp add: pchan_outq_def export_added_def vchan_ex_fields pchan_ex_def)
  ultimately show ?thesis using that [OF grant s(1,2)] s(3) by blast
qed

theorem import_ack_is_refused_witness:
  "\<exists>g s vc x s' b. habmem_hyp_grant_user view_bare 3 4096 2 0 drv_bare = Some (g, s) \<and> st_vchans s 3 = Some vc \<and>
     st_exps s 10 = Some x \<and> hab_send_import_ack 3 10 s = Some (0, s') \<and>
     pchan_outq s' 1 = [(mk_header 89 HAB_PAYLOAD_TYPE_IMPORT_ACK (vc_otherend_id vc) (vc_session_id vc), b)] \<and>
     hab_receive_export_desc 1 3 89 drv_ex = Some (- EINVAL, drv_ex)"
proof -
  obtain g s vc x s' where r: "habmem_hyp_grant_user view_bare 3 4096 2 0 drv_bare = Some (g, s)"
    "st_vchans s 3 = Some vc" "st_exps s 10 = Some x" "hab_send_import_ack 3 10 s = Some (0, s')"
    "vc_pchan vc = 1" "pchan_outq s 1 = []" by (rule bare_run)
  have none: "st_exps drv_bare d = None" for d by (simp add: drv_bare_def)
  have run: "desc_run drv_bare s" using grant_user [OF r(1)] run_none run_step by blast
  from import_ack_is_refused [OF none run r(2,3,4), of 1 3 drv_ex] r(1-6) show ?thesis
    by (intro exI conjI) (assumption | simp)+
qed

end
