(* ===== verification/Hab_Stat_Facts.thy ===== *)
theory Hab_Stat_Facts
  imports Hab_Stat Hab_Rings Hab_Import_Ack
begin

text \<open>
  The reports stay in their buffer: each is a sequence of lines, and what the buffer holds at the end is as
  much of it as fits.  Making the report of a virtio channel takes a received message off the queue.
\<close>

section \<open>Lines in a buffer\<close>

fun prints :: "nat \<Rightarrow> string list \<Rightarrow> int \<times> string \<Rightarrow> (int \<times> string) option" where
  "prints sz [] rb = Some rb"
| "prints sz (t # ts) rb = do { rb1 \<leftarrow> hab_stat_buffer_print sz t rb; prints sz ts rb1 }"

lemma prints_append: "prints sz (xs @ ys) rb = do { rb1 \<leftarrow> prints sz xs rb; prints sz ys rb1 }"
proof (induction xs arbitrary: rb)
  case (Cons x xs)
  then show ?case by (cases "hab_stat_buffer_print sz x rb") simp_all
qed simp

lemma prints_funs:
  "prints sz [] = Some" "prints sz (t # ts) = (\<lambda>rb. hab_stat_buffer_print sz t rb \<bind> prints sz ts)"
  "prints sz (xs @ ys) = (\<lambda>rb. prints sz xs rb \<bind> prints sz ys)"
  by (simp_all add: fun_eq_iff prints_append)

definition fit :: "nat \<Rightarrow> string list \<Rightarrow> string" where
  "fit sz ls = take (sz - 1) (concat (map (take 127) ls))"

lemma length_fit: "0 < sz \<Longrightarrow> length (fit sz ls) < sz"
  by (simp add: fit_def)

lemma print_fit:
  assumes "0 < sz" "snd rb = fit sz ls"
  shows "\<exists>r. hab_stat_buffer_print sz t rb = Some (r, fit sz (ls @ [t]))"
proof (cases "t = []")
  case True
  with assms(2) show ?thesis by (simp add: hab_stat_buffer_print_def fit_def)
next
  case False
  let ?c = "concat (map (take 127) ls)"
  have "sz - 1 - length (fit sz ls) = sz - 1 - length ?c" by (auto simp: fit_def min_def)
  then have "fit sz ls @ take (sz - 1 - length (fit sz ls)) (take 127 t) = fit sz (ls @ [t])"
    by (simp only: fit_def take_append map_append concat_append list.map concat.simps append_Nil2)
  moreover have "\<not> sz \<le> length (fit sz ls)" using length_fit [OF assms(1), of ls] by simp
  ultimately show ?thesis using False assms(2) by (simp add: hab_stat_buffer_print_def strlcat_def)
qed

lemma prints_fit:
  assumes "0 < sz" "snd rb = fit sz ls"
  shows "\<exists>r. prints sz ts rb = Some (r, fit sz (ls @ ts))"
  using assms(2)
proof (induction ts arbitrary: rb ls)
  case Nil
  then show ?case by (cases rb) simp
next
  case (Cons t ts)
  from print_fit [OF assms(1) Cons(2), of t] obtain r where r: "hab_stat_buffer_print sz t rb = Some (r, fit sz (ls @ [t]))"
    by blast
  from Cons(1) [of "(r, fit sz (ls @ [t]))" "ls @ [t]"] r show ?case by simp
qed

lemma prints_empty: "0 < sz \<Longrightarrow> \<exists>r. prints sz ts (strscpy_empty sz buf) = Some (r, fit sz ts)"
  using prints_fit [of sz "strscpy_empty sz buf" "[]" ts] by (simp add: strscpy_empty_def fit_def)

text \<open>When everything fits, the result is the length of the text.\<close>

lemma prints_all:
  assumes "length (snd rb) + length (concat ts) < sz" "list_all (\<lambda>t. t \<noteq> [] \<and> length t < 128) ts"
  shows "prints sz ts rb =
    Some (if ts = [] then fst rb else int (length (snd rb) + length (concat ts)), snd rb @ concat ts)"
  using assms
proof (induction ts arbitrary: rb)
  case Nil
  then show ?case by simp
next
  case (Cons t ts)
  have "hab_stat_buffer_print sz t rb = Some (int (length (snd rb) + length t), snd rb @ t)"
    using Cons(2,3) by (simp add: hab_stat_buffer_print_def strlcat_def)
  with Cons(1) [of "(int (length (snd rb) + length t), snd rb @ t)"] Cons(2,3) show ?case by simp
qed

section \<open>Channels and contexts\<close>

text \<open>What the reports say, line by line.\<close>

definition pchan_report :: "stat_info \<Rightarrow> hab_driver \<Rightarrow> nat \<Rightarrow> string list" where
  "pchan_report i s p = (let pc = the (st_pchans s p) in
     if pc_vcnt pc = 0 then []
     else pchan_line i p pc # map (\<lambda>v. vchan_line (the (st_vchans s v))) (pc_vchannels pc) @ [newline])"

definition vchan_report :: "stat_info \<Rightarrow> hab_driver \<Rightarrow> string list" where
  "vchan_report i s = concat (map (\<lambda>d. concat (map (pchan_report i s) (dv_pchannels d))) (st_devs s))"

definition ctx_report :: "stat_info \<Rightarrow> hab_driver \<Rightarrow> string list" where
  "ctx_report i s = (''Total contexts '' @ int_dec (st_ctx_cnt s) @ newline) #
     map (\<lambda>c. ctx_line i c (the (st_ctxs s c))) (st_uctx_list s)"

lemma show_vchans_prints:
  "(\<And>v. v \<in> set vs \<Longrightarrow> st_vchans s v \<noteq> None) \<Longrightarrow>
     show_vchans s sz vs rb = prints sz (map (\<lambda>v. vchan_line (the (st_vchans s v))) vs) rb"
proof (induction vs arbitrary: rb)
  case (Cons v vs)
  from Cons(2) [of v] obtain vc where vc: "st_vchans s v = Some vc" by auto
  show ?case
  proof (cases "hab_stat_buffer_print sz (vchan_line vc) rb")
    case (Some rb1)
    with Cons(1) [of rb1] Cons(2) vc show ?thesis by simp
  qed (simp add: vc)
qed simp

lemma show_pchans_prints:
  assumes wf: "drv_wf D hp hv hc s" and ps: "\<And>p. p \<in> set ps \<Longrightarrow> st_pchans s p \<noteq> None"
  shows "show_pchans i s sz ps rb = prints sz (concat (map (pchan_report i s) ps)) rb"
  using ps
proof (induction ps arbitrary: rb)
  case (Cons p ps)
  from Cons(2) [of p] obtain pc where pc: "st_pchans s p = Some pc" by auto
  have vs: "show_vchans s sz (pc_vchannels pc) = prints sz (map (\<lambda>v. vchan_line (the (st_vchans s v))) (pc_vchannels pc))"
    using show_vchans_prints [of "pc_vchannels pc" s] pchan_vchan [OF wf pc] by (fastforce simp: fun_eq_iff)
  have rest: "show_pchans i s sz ps = prints sz (concat (map (pchan_report i s) ps))"
    using Cons by (auto simp: fun_eq_iff)
  have "pchan_report i s p = (if pc_vcnt pc = 0 then []
      else pchan_line i p pc # map (\<lambda>v. vchan_line (the (st_vchans s v))) (pc_vchannels pc) @ [newline])"
    by (simp add: pchan_report_def pc)
  then show ?case by (simp add: pc vs rest prints_append del: append_Cons)
qed simp

lemma dev_pchans_live:
  assumes "drv_wf D hp hv hc s" "d \<in> set (st_devs s)" "p \<in> set (dv_pchannels d)"
  shows "st_pchans s p \<noteq> None"
  using refs_ok_dev [OF drv_wf_refs [OF assms(1)]] assms(2,3)
  by (fastforce simp: dev_ok_def qv_def in_set_conv_nth)

lemma show_devs_prints:
  assumes wf: "drv_wf D hp hv hc s" and ds: "set ds \<subseteq> set (st_devs s)"
  shows "show_devs i s sz ds rb = prints sz (concat (map (\<lambda>d. concat (map (pchan_report i s) (dv_pchannels d))) ds)) rb"
  using ds
proof (induction ds arbitrary: rb)
  case (Cons d ds)
  have ps: "show_pchans i s sz (dv_pchannels d) = prints sz (concat (map (pchan_report i s) (dv_pchannels d)))"
    using show_pchans_prints [OF wf] dev_pchans_live [OF wf, of d] Cons(2) by (auto simp: fun_eq_iff)
  have rest: "show_devs i s sz ds = prints sz (concat (map (\<lambda>d. concat (map (pchan_report i s) (dv_pchannels d))) ds))"
    using Cons by (auto simp: fun_eq_iff)
  show ?case by (simp add: ps rest prints_append)
qed simp

lemma show_vchan_prints:
  "drv_wf D hp hv hc s \<Longrightarrow> hab_stat_show_vchan i s buf sz = prints sz (vchan_report i s) (strscpy_empty sz buf)"
  by (simp add: hab_stat_show_vchan_def vchan_report_def show_devs_prints)

lemma show_ctxs_prints:
  "(\<And>c. c \<in> set cs \<Longrightarrow> st_ctxs s c \<noteq> None) \<Longrightarrow>
     show_ctxs i s sz cs rb = prints sz (map (\<lambda>c. ctx_line i c (the (st_ctxs s c))) cs) rb"
proof (induction cs arbitrary: rb)
  case (Cons c cs)
  from Cons(2) [of c] obtain cx where cx: "st_ctxs s c = Some cx" by auto
  show ?case
  proof (cases "hab_stat_buffer_print sz (ctx_line i c cx) rb")
    case (Some rb1)
    with Cons(1) [of rb1] Cons(2) cx show ?thesis by simp
  qed (simp add: cx)
qed simp

lemma show_ctx_prints:
  "(\<And>c. c \<in> set (st_uctx_list s) \<Longrightarrow> st_ctxs s c \<noteq> None) \<Longrightarrow>
     hab_stat_show_ctx i s buf sz = prints sz (ctx_report i s) (strscpy_empty sz buf)"
  by (simp add: hab_stat_show_ctx_def ctx_report_def show_ctxs_prints)

section \<open>Exports and imports\<close>

text \<open>
  Every live descriptor's payload covers the region table it announces, and the page lists of the imports
  are there.
\<close>

definition payloads_cover :: "hab_driver \<Rightarrow> bool" where
  "payloads_cover s \<longleftrightarrow> (\<forall>e x. st_exps s e = Some x \<longrightarrow> get_pft_tbl_total_size (ex_payload x) \<noteq> None)"

text \<open>Whatever the driver did before, the tables of its descriptors can be walked.\<close>

lemma run_covers:
  assumes "desc_run s0 s" "\<And>e x. st_exps s0 e = Some x \<Longrightarrow> desc_ok x"
  shows "payloads_cover s"
proof -
  have "descs s" using descs_run [OF assms(1)] assms(2) by blast
  then show ?thesis
    by (fastforce simp: descs_ok_def desc_ok_def payloads_cover_def get_pft_tbl_total_size_def Let_def)
qed

definition pglists_live :: "mem_state \<Rightarrow> bool" where
  "pglists_live m \<longleftrightarrow> list_all (\<lambda>g. mm_pglists m g \<noteq> None) (mm_imp_list m)"

lemma lookup_total:
  "list_all (\<lambda>g. mm_pglists m g \<noteq> None) gs \<Longrightarrow> \<exists>r. lookup_in i p gs m = Some r"
  by (induction gs) auto

lemma map_check_total: "pglists_live m \<Longrightarrow> \<exists>b. habmm_imp_hyp_map_check i p m = Some (b, m)"
proof -
  assume "pglists_live m"
  then obtain r where "lookup_in i p (mm_imp_list m) m = Some r"
    using lookup_total [of m "mm_imp_list m" i p] by (auto simp: pglists_live_def)
  then have "habmm_imp_hyp_map_check i p m = Some (r \<noteq> None, m)"
    by (cases r) (simp_all add: habmm_imp_hyp_map_check_def pages_list_lookup_def)
  then show ?thesis by blast
qed

lemma exp_sizes_total:
  assumes "payloads_cover s" "\<And>e. e \<in> set es \<Longrightarrow> st_exps s e \<noteq> None"
  shows "\<exists>xs. exp_sizes s es = Some xs"
  using assms by (induction es) (fastforce simp: payloads_cover_def)+

lemma imp_sizes_total:
  assumes cover: "payloads_cover s" and pg: "pglists_live (st_hyp_mem s)" and es: "\<And>e. e \<in> set es \<Longrightarrow> st_exps s e \<noteq> None"
  shows "\<exists>xs. imp_sizes s es = Some xs"
  using es
proof (induction es)
  case (Cons e es)
  from Cons(2) [of e] obtain x where x: "st_exps s e = Some x" by auto
  with cover obtain n where n: "get_pft_tbl_total_size (ex_payload x) = Some n" by (auto simp: payloads_cover_def)
  from map_check_total [OF pg, of "ex_export_id x" "ex_pchan x"] obtain b where
    "habmm_imp_hyp_map_check (ex_export_id x) (ex_pchan x) (st_hyp_mem s) = Some (b, st_hyp_mem s)" by blast
  with Cons x n show ?case by auto
qed simp

lemma print_expimps_prints: "print_expimps sz xs rb = prints sz (map expimp_line xs) rb"
proof (induction xs arbitrary: rb)
  case (Cons x xs)
  then show ?case by (cases "hab_stat_buffer_print sz (expimp_line x) rb") simp_all
qed simp

definition expimp_report ::
  "stat_info \<Rightarrow> nat \<Rightarrow> (export_desc_super \<times> u32) list \<Rightarrow> (export_desc_super \<times> u32) list \<Rightarrow> string list" where
  "expimp_report i c es ms = [totals_line i c es ms, ''export[expid:vcid:size]: ''] @ map expimp_line es @
     [newline, ''import[expid:vcid:size]: ''] @ map expimp_line ms @ [newline]"

lemma print_ctx_fit:
  assumes wf: "drv_wf D hp hv hc s" and c: "st_ctxs s c = Some cx" and cover: "payloads_cover s"
    and pg: "pglists_live (st_hyp_mem s)" and order: "set (order (cx_imp_whse cx)) \<subseteq> snd ` set (cx_imp_whse cx)" and sz: "0 < sz"
  shows "\<exists>r ls. print_ctx_total_expimp i order c s sz (strscpy_empty sz buf) = Some (r, fit sz ls)"
proof -
  from drv_wf_exps [OF wf] obtain own where
    own: "exps_ok own (xv (st_exps s)) (iv (st_pchans s)) (wv (st_ctxs s)) (st_reclaim_list s) (st_next s)" by blast
  have "st_exps s e \<noteq> None" if "e \<in> set (cx_exp_whse cx)" for e
    by (rule exp_whse_facts [OF own c that]) simp
  with exp_sizes_total [OF cover] obtain es where es: "exp_sizes s (cx_exp_whse cx) = Some es" by blast
  have "st_exps s e \<noteq> None" if e: "e \<in> set (order (cx_imp_whse cx))" for e
  proof -
    from order e obtain k where "(k, e) \<in> set (cx_imp_whse cx)" by auto
    from imp_whse_facts [OF own c this] show ?thesis by blast
  qed
  with imp_sizes_total [OF cover pg] obtain ms where ms: "imp_sizes s (order (cx_imp_whse cx)) = Some ms" by blast
  show ?thesis
  proof (cases "es \<noteq> [] \<or> total_size es \<noteq> 0 \<or> ms \<noteq> [] \<or> total_size ms \<noteq> 0")
    case True
    then have "print_ctx_total_expimp i order c s sz (strscpy_empty sz buf) = prints sz (expimp_report i c es ms) (strscpy_empty sz buf)"
      using c es ms by (simp add: print_ctx_total_expimp_def expimp_report_def print_expimps_prints prints_funs) blast
    then show ?thesis using prints_empty [OF sz, of "expimp_report i c es ms" buf] by auto
  next
    case False
    then have "print_ctx_total_expimp i order c s sz (strscpy_empty sz buf) = Some (0, fit sz [])"
      using c es ms sz by (simp add: print_ctx_total_expimp_def strscpy_empty_def fit_def)
    then show ?thesis by blast
  qed
qed

text \<open>The array of channels is never overrun.\<close>

lemma collect_pchans_bound:
  assumes wf: "drv_wf D hp hv hc s" and vs: "\<And>v. v \<in> set vs \<Longrightarrow> st_vchans s v \<noteq> None" and ps: "length ps < HABCFG_MMID_NUM"
  shows "\<exists>qs. collect_pchans s vs mmid ps = Some qs \<and> length qs \<le> HABCFG_MMID_NUM"
  using vs ps
proof (induction vs arbitrary: mmid ps)
  case (Cons v vs)
  from Cons(2) [of v] obtain vc where vc: "st_vchans s v = Some vc" by auto
  from vchan_pchan [OF wf vc] obtain pc where pc: "st_pchans s (vc_pchan vc) = Some pc" by blast
  from pchan_dev [OF wf pc] have "get_dev (pc_habdev pc) s = Some (st_devs s ! pc_habdev pc)" by simp
  with Cons vc pc show ?case by auto
qed simp

lemma find_owner_total:
  "(\<And>c. c \<in> set cs \<Longrightarrow> st_ctxs s c \<noteq> None) \<Longrightarrow>
     \<exists>co. find_owner i s pid cs = Some co \<and> (\<forall>c. co = Some c \<longrightarrow> st_ctxs s c \<noteq> None)"
  by (induction cs) auto

lemma show_reclaims_fit:
  assumes own: "exps_ok own (xv (st_exps s)) (iv (st_pchans s)) (wv (st_ctxs s)) R n" and cover: "payloads_cover s"
    and es: "set es \<subseteq> set R" and sz: "0 < sz"
  shows "\<exists>t' r ls'. show_reclaims i s sz es t (r0, fit sz ls) = Some (t', r, fit sz ls')"
  using es
proof (induction es arbitrary: t r0 ls)
  case (Cons e es)
  from exps_ok_reclaim [OF own] Cons(2) have "own e = Some OReclaim" by simp
  from exps_ok_owned [OF own this] obtain x p pc where x: "st_exps s e = Some x" "ex_pchan x = Some p" "st_pchans s p = Some pc"
    by (auto simp: owned_ok_def xv_def)
  from cover x(1) obtain k where k: "get_pft_tbl_total_size (ex_payload x) = Some k" by (auto simp: payloads_cover_def)
  from print_fit [OF sz, of "(r0, fit sz ls)" ls "reclaim_line i p (x, k)"] obtain r1 where
    r1: "hab_stat_buffer_print sz (reclaim_line i p (x, k)) (r0, fit sz ls) = Some (r1, fit sz (ls @ [reclaim_line i p (x, k)]))" by auto
  from print_fit [OF sz, of "(r1, fit sz (ls @ [reclaim_line i p (x, k)]))"
      "ls @ [reclaim_line i p (x, k)]" newline] obtain r2 ls2 where
    r2: "hab_stat_buffer_print sz newline (r1, fit sz (ls @ [reclaim_line i p (x, k)])) = Some (r2, fit sz ls2)" by auto
  from Cons(1) [of "(fst t + 1, snd t + scast k)" r2 ls2] Cons(2) x k r1 r2 show ?case by simp
qed auto

lemma show_reclaim_fit:
  assumes wf: "drv_wf D hp hv hc s" and cover: "payloads_cover s" and sz: "0 < sz"
  shows "\<exists>r ls. hab_stat_show_reclaim i s buf sz = Some (r, fit sz ls)"
proof -
  from drv_wf_exps [OF wf] obtain own where
    own: "exps_ok own (xv (st_exps s)) (iv (st_pchans s)) (wv (st_ctxs s)) (st_reclaim_list s) (st_next s)" by blast
  have e: "snd (strscpy_empty sz buf) = fit sz []" using sz by (simp add: strscpy_empty_def fit_def)
  from print_fit [OF sz e, of "''export[expid:vcid:size:pchan]:'' @ newline"] obtain r ls where
    a: "hab_stat_buffer_print sz (''export[expid:vcid:size:pchan]:'' @ newline) (strscpy_empty sz buf) = Some (r, fit sz ls)" by blast
  from show_reclaims_fit [OF own cover subset_refl sz, of i "(0, 0)" r ls] obtain num total r1 ls1 where
    b: "show_reclaims i s sz (st_reclaim_list s) (0, 0) (r, fit sz ls) = Some ((num, total), r1, fit sz ls1)" by auto
  show ?thesis
    using print_fit [OF sz, of "(r1, fit sz ls1)" ls1] a b by (fastforce simp: hab_stat_show_reclaim_def simp del: append_Cons)
qed

text \<open>The logs of both hypervisor layers keep to the buffer.\<close>

lemma print_bounds:
  assumes "length (snd rb) < sz"
  shows "\<exists>r b. hab_stat_buffer_print sz t rb = Some (r, b) \<and> length b < sz"
  using assms by (auto simp: hab_stat_buffer_print_def strlcat_def)

lemma virtio_log_bounds:
  "length (snd rb) < sz \<Longrightarrow> \<exists>r b vs'. hab_stat_log_virtio vs sz rb = Some ((r, b), vs') \<and> length b < sz"
proof (induction vs sz rb rule: hab_stat_log_virtio.induct)
  case (1 sz rb)
  then show ?case by (cases rb) simp
next
  case (3 vu vs sz rb)
  from print_bounds [OF 3(2)] obtain r b where p: "hab_stat_buffer_print sz (virtio_stat_line vu) rb = Some (r, b)"
    "length b < sz" by blast
  with 3(1) [OF p(1)] show ?case by (cases "r = 0") auto
qed auto

text \<open>
  The virtio layer's log as the report calls it: \<open>link\<close> is what lies behind a physical channel.  More
  channels than the caller's array holds would be a fault.
\<close>

definition virtio_log ::
  "(nat \<Rightarrow> (vq_pchan \<times> virtio_used) option) \<Rightarrow> nat list \<Rightarrow> nat \<Rightarrow> int \<times> string \<Rightarrow> (int \<times> string) option" where
  "virtio_log link ps sz rb = (if HABCFG_MMID_NUM < length ps then None
     else map_option fst (hab_stat_log_virtio (map link ps) sz rb))"

text \<open>
  C28. The reports of the driver stay in the buffer they are given, with the virtio layer below: the listings
  of the channels and of the contexts are the report cut to the size of the buffer, those of the exports, the
  imports and of what waits to be reclaimed return and leave a terminated text in it, and the array of
  channels handed to the hypervisor layer holds at most \<^verbatim>\<open>HABCFG_MMID_NUM\<close> of them.  The walk of the region
  tables stays in the descriptors in every state reached from one without descriptors, or with such.  Assumed
  of the state are the reference invariant, that the listed contexts are live, and that the list of mapped
  imports holds live page lists.  (With the vhost layer a report reads freed memory after a guest closed its
  device, \<open>vhost_report_after_release\<close>.)
\<close>
theorem stat_reports_in_bounds:
  assumes wf: "drv_wf D hp hv hc s" and sz: "0 < sz" and ctxs: "\<And>c. c \<in> set (st_uctx_list s) \<Longrightarrow> st_ctxs s c \<noteq> None"
    and run: "desc_run s0 s" "\<And>e x. st_exps s0 e = Some x \<Longrightarrow> desc_ok x"
    and pg: "pglists_live (st_hyp_mem s)" and order: "\<And>m. set (order m) \<subseteq> snd ` set m"
  shows "(\<exists>r. hab_stat_show_vchan i s buf sz = Some (r, fit sz (vchan_report i s))) \<and>
    (\<exists>r. hab_stat_show_ctx i s buf sz = Some (r, fit sz (ctx_report i s))) \<and>
    (\<exists>r b. hab_stat_show_expimp i order (virtio_log link) s pid buf sz = Some (r, b) \<and> length b < sz) \<and>
    (\<exists>r b. hab_stat_show_reclaim i s buf sz = Some (r, b) \<and> length b < sz)"
proof (intro conjI)
  have cover: "payloads_cover s" by (rule run_covers [OF run])
  have log: "\<exists>r b. virtio_log link ps sz rb = Some (r, b) \<and> length b < sz"
    if "length ps \<le> HABCFG_MMID_NUM" "length (snd rb) < sz" for ps rb
    using virtio_log_bounds [OF that(2), of "map link ps"] that(1) by (fastforce simp: virtio_log_def)
  show "\<exists>r. hab_stat_show_vchan i s buf sz = Some (r, fit sz (vchan_report i s))"
    unfolding show_vchan_prints [OF wf] by (rule prints_empty [OF sz])
  have "hab_stat_show_ctx i s buf sz = prints sz (ctx_report i s) (strscpy_empty sz buf)"
    by (rule show_ctx_prints) (rule ctxs)
  then show "\<exists>r. hab_stat_show_ctx i s buf sz = Some (r, fit sz (ctx_report i s))"
    using prints_empty [OF sz] by simp
  show "\<exists>r b. hab_stat_show_reclaim i s buf sz = Some (r, b) \<and> length b < sz"
    using show_reclaim_fit [OF wf cover sz] length_fit [OF sz] by blast
  from find_owner_total [of "st_uctx_list s" s i pid] ctxs obtain co where
    co: "find_owner i s pid (st_uctx_list s) = Some co" "\<And>c. co = Some c \<Longrightarrow> st_ctxs s c \<noteq> None" by blast
  show "\<exists>r b. hab_stat_show_expimp i order (virtio_log link) s pid buf sz = Some (r, b) \<and> length b < sz"
  proof (cases co)
    case None
    with co sz show ?thesis by (simp add: hab_stat_show_expimp_def strscpy_empty_def)
  next
    case (Some c)
    with co(2) obtain cx where cx: "st_ctxs s c = Some cx" by auto
    from print_ctx_fit [OF wf cx cover pg, where order = order, OF order sz, of i buf] obtain r ls where
      p: "print_ctx_total_expimp i order c s sz (strscpy_empty sz buf) = Some (r, fit sz ls)" by blast
    have "st_vchans s v \<noteq> None" if "v \<in> set (cx_vchannels cx)" for v using ctx_vchan [OF wf cx that] by auto
    from collect_pchans_bound [OF wf this, of "cx_vchannels cx" "[]" 0] obtain qs where
      qs: "collect_pchans s (cx_vchannels cx) 0 [] = Some qs" "length qs \<le> HABCFG_MMID_NUM" by auto
    show ?thesis
      using co(1) Some cx p qs(1) log [OF qs(2), of "(r, fit sz ls)"] length_fit [OF sz, of ls]
      by (simp add: hab_stat_show_expimp_def)
  qed
qed

definition info_ex :: stat_info where
  "info_ex = \<lparr>si_name = (\<lambda>p. ''hab1''), si_status = (\<lambda>p. 0), si_owner = (\<lambda>c. 77)\<rparr>"

lemma drv_ex_descs: "st_exps drv_ex e = Some x \<Longrightarrow> desc_ok x"
  by (auto simp: desc_ok_def drv_ex_def export_ex_def field32_nregions pfns_ex_def length_enc_pfns split: if_splits)

text \<open>The example driver, over the virtio layer with one channel that has something to report.\<close>

definition link_ex :: "nat \<Rightarrow> (vq_pchan \<times> virtio_used) option" where
  "link_ex p = (if p = 1 then Some (vq_ex, \<lparr>us_tx = [], us_rx = []\<rparr>) else None)"

theorem stat_reports_in_bounds_witness:
  "(\<exists>r. hab_stat_show_vchan info_ex drv_ex ''x'' 64 = Some (r, fit 64 (vchan_report info_ex drv_ex))) \<and>
   (\<exists>r. hab_stat_show_ctx info_ex drv_ex ''x'' 64 = Some (r, fit 64 (ctx_report info_ex drv_ex))) \<and>
   (\<exists>r b. hab_stat_show_expimp info_ex (map snd) (virtio_log link_ex) drv_ex 77 ''x'' 64 = Some (r, b) \<and> length b < 64) \<and>
   (\<exists>r b. hab_stat_show_reclaim info_ex drv_ex ''x'' 64 = Some (r, b) \<and> length b < 64)"
proof -
  have ctxs: "st_ctxs drv_ex c \<noteq> None" if "c \<in> set (st_uctx_list drv_ex)" for c using that by (simp add: drv_ex_def)
  have pg: "pglists_live (st_hyp_mem drv_ex)" by (simp add: pglists_live_def drv_ex_def mem_example_def)
  have order: "set (map snd m) \<subseteq> snd ` set m" for m :: imp_whse by auto
  show ?thesis
    by (rule stat_reports_in_bounds [OF drv_ex_wf _ ctxs run_none drv_ex_descs pg order]) simp
qed

section \<open>What making a report does\<close>

text \<open>
  After a guest closed its device file, the queues of its channels still point to the device that
  \<^verbatim>\<open>vhost_hab_release\<close> freed, and a report of a channel reads it.
\<close>

lemma vhost_report_after_release:
  assumes "vhost_hab_release f g = Some (r, g')" "vqdev x = Some f"
  shows "hab_stat_log_vhost vqdev idle (Some x # xs) sz buf g' = None"
proof -
  have "vg_dev g' f = None" using assms(1) by (auto simp: vhost_hab_release_def bind_eq_Some_conv)
  with assms(2) show ?thesis by (cases "vg_chan g' x") (simp_all add: hab_stat_log_vhost_def)
qed

text \<open>
  C40. Reading the statistics of a guest's channel loses a message: a buffer that the device has filled, which
  the receive callback would hand to the driver, is taken off the queue by the report, and a callback after
  it delivers nothing; the buffer itself is not given back to the device either.
\<close>
theorem report_loses_message:
  assumes e: "us_rx u = [e]" "inbuf_ok (rv_buf e)" "header_size \<le> rv_len e" "rv_len e \<le> length (rv_data e)"
    and d: "deliver p (dec_header (rv_data e)) (drop header_size (take (rv_len e) (rv_data e))) s = Some s1"
    and v: "distinct (vq_rx v)" and sz: "length buf < sz"
  shows "(\<exists>v1. virthab_recv_rxq (Some p) (us_rx u) v s = Some (v1, s1)) \<and>
    (\<exists>rb v' u'. hab_stat_log_virtio [Some (v, u)] sz (0, buf) = Some (rb, [Some (v', u')]) \<and>
      virthab_recv_rxq (Some p) (us_rx u') v' s = Some (v', s) \<and> rv_buf e \<notin> set (vq_rx v') \<and> vq_list v' = vq_list v)"
proof (intro conjI)
  show "\<exists>v1. virthab_recv_rxq (Some p) (us_rx u) v s = Some (v1, s1)"
    using recv_rxq_deliver [OF e(2-4), of p v s] d e(1) by simp
  obtain v' u' where t: "stat_take (v, u) = (v', u')" by fastforce
  then have n: "us_rx u' = []" "rv_buf e \<notin> set (vq_rx v')" "vq_list v' = vq_list v"
    using e(1) v by (auto simp: stat_take_def)
  obtain r b where "hab_stat_buffer_print sz (virtio_stat_line (v, u)) (0, buf) = Some (r, b)"
    using print_bounds [of "(0, buf)" sz "virtio_stat_line (v, u)"] sz by auto
  then have "\<exists>rb. hab_stat_log_virtio [Some (v, u)] sz (0, buf) = Some (rb, [Some (v', u')])"
    using t by (cases "r = 0") simp_all
  then show "\<exists>rb v' u'. hab_stat_log_virtio [Some (v, u)] sz (0, buf) = Some (rb, [Some (v', u')]) \<and>
      virthab_recv_rxq (Some p) (us_rx u') v' s = Some (v', s) \<and> rv_buf e \<notin> set (vq_rx v') \<and> vq_list v' = vq_list v"
    using n by fastforce
qed

definition rx_event_ex :: rx_event where
  "rx_event_ex = \<lparr>rv_buf = in_buf_ex, rv_len = 22,
     rv_data = node_bytes (rx_number 0 (send_header vchan_ex HAB_PAYLOAD_TYPE_MSG 2), [5, 6]), rv_add = True\<rparr>"

text \<open>A message of two bytes for the example driver's channel, which its client then receives, or not.\<close>

theorem report_loses_message_witness:
  "\<exists>s1 v1 t2 m rb v' u'. virthab_recv_rxq (Some 1) [rx_event_ex] (vq_ex\<lparr>vq_rx := [in_buf_ex]\<rparr>) (drv_rx [] []) = Some (v1, s1) \<and>
     hab_vchan_recv 2 0x25902001 64 1 [] s1 = Some (Done (0, to_int32 2, Some m) [] t2) \<and> ms_body m = Flat [5, 6] \<and>
     hab_stat_log_virtio [Some (vq_ex\<lparr>vq_rx := [in_buf_ex]\<rparr>, \<lparr>us_tx = [], us_rx = [rx_event_ex]\<rparr>)] 4096 (0, []) = Some (rb, [Some (v', u')]) \<and>
     virthab_recv_rxq (Some 1) (us_rx u') v' (drv_rx [] []) = Some (v', drv_rx [] [])"
proof -
  let ?h = "send_header vchan_ex HAB_PAYLOAD_TYPE_MSG 2" and ?v = "vq_ex\<lparr>vq_rx := [in_buf_ex]\<rparr>"
  let ?u = "\<lparr>us_tx = [], us_rx = [rx_event_ex]\<rparr>"
  have n: "length [5 :: u8, 6] = unat (HAB_HEADER_GET_SIZE ?h)" by simp
  note fr = frame_of_buffer(1,2) [OF n, of 0 "[]", unfolded append_Nil2]
  have lb: "length (node_bytes (rx_number 0 ?h, [5, 6])) = 22"
    by (simp add: node_bytes_def header_codec.enc_length)
  have e: "inbuf_ok (rv_buf rx_event_ex)" "header_size \<le> rv_len rx_event_ex" "rv_len rx_event_ex \<le> length (rv_data rx_event_ex)"
    using lb by (simp_all add: rx_event_ex_def inbuf_ok_def in_buf_ex_def)
  have dec: "dec_header (rv_data rx_event_ex) = rx_number 0 ?h"
    "drop header_size (take (rv_len rx_event_ex) (rv_data rx_event_ex)) = [5, 6]"
    using fr(1,2) lb by (simp_all add: rx_event_ex_def)
  have adr: "addressed (drv_rx [] []) 1 (rx_number 0 ?h) 3 (vchan_ex\<lparr>vc_rx_list := []\<rparr>)"
    using addressed_ex [of "[]" "[]" 2] by simp
  have f: "find_vcid (vc_id (vchan_ex\<lparr>vc_rx_list := []\<rparr>)) (cx_vchannels ctx_ex) (drv_rx [] []) = Some (Some 3)"
    by (simp add: drv_rx_def vchan_ex_def ctx_ex_def)
  have pl: "plain_type HAB_PAYLOAD_TYPE_MSG" by (simp add: plain_type_def)
  have "\<exists>t1 t2 m. deliver 1 (rx_number 0 ?h) [5, 6] (drv_rx [] []) = Some t1 \<and>
      hab_vchan_recv 2 (vc_id (vchan_ex\<lparr>vc_rx_list := []\<rparr>)) 64 1 [] t1 = Some (Done (0, to_int32 (length [5 :: u8, 6]), Some m) [] t2) \<and>
      ms_sizebytes m = length [5 :: u8, 6] \<and> ms_body m = Flat [5, 6]"
    by (rule delivered_then_received [OF adr _ _ _ pl, where
          pc = "pchan_ex\<lparr>pc_hyp_data := HypVhost \<lparr>vh_send_list = [], vh_out_iter = []\<rparr>\<rparr>" and
          vh = "\<lparr>vh_send_list = [], vh_out_iter = []\<rparr>" and ctx = ctx_ex])
      (use f in \<open>simp_all add: drv_rx_def drv_ex_def vchan_ex_def to_size_t_def has_flag_def del: payload_code.simps\<close>)
  then obtain t1 t2 m where t1: "deliver 1 (rx_number 0 ?h) [5, 6] (drv_rx [] []) = Some t1"
    "hab_vchan_recv 2 0x25902001 64 1 [] t1 = Some (Done (0, to_int32 2, Some m) [] t2)" "ms_body m = Flat [5, 6]"
    by (auto simp: vchan_ex_def numeral_2_eq_2)
  have "(\<exists>v1. virthab_recv_rxq (Some 1) (us_rx ?u) ?v (drv_rx [] []) = Some (v1, t1)) \<and>
    (\<exists>rb v' u'. hab_stat_log_virtio [Some (?v, ?u)] 4096 (0, []) = Some (rb, [Some (v', u')]) \<and>
      virthab_recv_rxq (Some 1) (us_rx u') v' (drv_rx [] []) = Some (v', drv_rx [] []) \<and>
      rv_buf rx_event_ex \<notin> set (vq_rx v') \<and> vq_list v' = vq_list ?v)"
    by (rule report_loses_message [OF _ e]) (use t1(1) dec in simp_all)
  with t1(2,3) show ?thesis by (simp only: virtio_used.select_convs) blast
qed

end
