(* ===== verification/Spec2Isabelle.thy ===== *)
theory Spec2Isabelle
  imports Hab_Pipe_Hostile Hab_Parser Hab_Faults Hab_Rbtree Hab_Tables Hab_User_Path Hab_Khab Hab_Vhost_Tx
    Hab_Vhost_Own Hab_Rings Hab_Virtio_Own Hab_Loopback Hab_Stat_Facts Hab_Export_Safe Hab_Import_Ack
begin

text \<open>
  The Hypervisor ABstraction (HAB) driver for Linux, modelled and verified.

  HAB connects programs of two virtual machines.  A client opens a \<^emph>\<open>virtual channel\<close> on a multimedia
  device (mmid), sends and receives messages on it, and shares memory by exporting buffers that the peer
  imports.  Virtual channels of one device and one remote machine share a \<^emph>\<open>physical channel\<close>, whose
  transport is a pair of virtqueues (vhost on the host, virtio in the guest), a loopback device, or, on
  other hypervisors, a pipe in shared memory.

  \<^bold>\<open>How a C state becomes a HOL state.\<close>  The driver state is the record \<open>hab_driver\<close> of \<open>Hab_State\<close>: maps
  from identifiers, which stand for addresses, to the records of the objects (\<^verbatim>\<open>struct uhab_context\<close>,
  \<^verbatim>\<open>virtual_channel\<close>, \<^verbatim>\<open>physical_channel\<close>, \<^verbatim>\<open>export_desc_super\<close>).  An operation is a function from the state to
  \<open>option\<close>: \<open>None\<close> is a fault (an object that was freed, NULL, memory outside an object, a reference count
  that underflows); an error return is an ordinary result.  Freeing removes the object, and identifiers are
  not used twice, so that a use after free is a fault of the model.  Whether an allocation fails is decided by
  the oracle \<open>st_mem\<close>; the clock is part of the state.  An operation is one step of its thread: locks are not
  state.  Where a thread sleeps, it runs against a schedule (\<open>Hab_Wait\<close>): any action of other threads, a
  signal, or the timeout; a schedule that ends while the thread sleeps gives \<open>Blocked\<close>.

  \<^bold>\<open>The theories\<close>, with the sources under \<^verbatim>\<open>src/\<close>.
  \<^item> \<open>Hab_Prelude\<close>: integer types, error numbers, little-endian images, lists; \<open>Hab_Proto\<close>: the message header and
    the identifiers (\<^verbatim>\<open>hab.h\<close>, \<^verbatim>\<open>habmmid.h\<close>); \<open>Hab_Wire\<close>: the structures on the wire, with the locale \<open>wire_codec\<close>.
  \<^item> \<open>Hab_Pipe\<close>, \<open>Hab_Pipe_Fifo\<close>, \<open>Hab_Pipe_Hostile\<close>: the ring in shared memory (\<^verbatim>\<open>hab_pipe.c\<close>), that it is a
    queue of messages, and what it guarantees against a hostile peer.
  \<^item> \<open>Hab_Parser\<close>: the settings table, the device tree and the generation of channels (\<^verbatim>\<open>hab_parser.c\<close>, \<^verbatim>\<open>hab.c\<close>).
  \<^item> \<open>Hab_State\<close>, \<open>Hab_Transport\<close>, \<open>Hab_Objects\<close>: the state; sending and reading on a channel (\<^verbatim>\<open>hab_vhost.c\<close>,
    \<^verbatim>\<open>hab_comm.c\<close>) with the locale \<open>msg_transport\<close>; the life of the objects (\<^verbatim>\<open>hab_pchan.c\<close>, \<^verbatim>\<open>hab_vchan.c\<close>, \<^verbatim>\<open>hab.c\<close>,
    \<^verbatim>\<open>hab_mimex.c\<close>).
  \<^item> \<open>Hab_Wait\<close>, \<open>Hab_Open\<close>, \<open>Hab_Api\<close>: waiting; requests and pending opens (\<^verbatim>\<open>hab_open.c\<close>); open, listen,
    send, receive, close (\<^verbatim>\<open>hab.c\<close>).
  \<^item> \<open>Hab_Msg\<close>: received messages and their dispatch, every type (\<^verbatim>\<open>hab_msg.c\<close>).
  \<^item> \<open>Hab_Mimex\<close>, \<open>Hab_Import_Threads\<close>: export, import and their inverses (\<^verbatim>\<open>hab_mimex.c\<close>), and threads of both memory
    protocols that import at the same time; \<open>Hab_Mem\<close>: page tables, page lists, dma-bufs and mappings (\<^verbatim>\<open>hab_mem_linux.c\<close>); \<open>Hab_Rbtree\<close>:
    the tree of imports (\<^verbatim>\<open>hab_linux.c\<close>), a refinement of the list the other theories use.
  \<^item> \<open>Hab_Linux\<close>, \<open>Hab_Khab\<close>: the character device with its ioctls (\<^verbatim>\<open>hab_linux.c\<close>), the calls of kernel
    clients (\<^verbatim>\<open>khab.c\<close>).
  \<^item> \<open>Hab_Vhost\<close>, \<open>Hab_Vhost_Dev\<close>: the workers of the vhost virtqueues and the device files (\<^verbatim>\<open>hab_vhost.c\<close>).
  \<^item> \<open>Hab_Virtio\<close>, \<open>Hab_Virtio_Dev\<close>: buffers, sending and receiving in the guest, and its virtio devices
    (\<^verbatim>\<open>hab_virtio.c\<close>).
  \<^item> \<open>Hab_Loopback\<close>: the loopback device, its thread and its creation and removal (\<^verbatim>\<open>hab_comm.c\<close>); \<open>Hab_Stat\<close>: the
    reports, the dump and both \<^verbatim>\<open>hab_stat_log\<close> (\<^verbatim>\<open>hab_stat.c\<close>, \<^verbatim>\<open>hab_vhost.c\<close>, \<^verbatim>\<open>hab_virtio.c\<close>).

  \<^bold>\<open>What is proved.\<close>
  \<^item> \<^emph>\<open>The reference invariant\<close> (\<open>Hab_Refs\<close>, \<open>Hab_Exps\<close>, \<open>Hab_Lifecycle\<close>): \<open>drv_wf D hp hv hc\<close> says that every pointer
    of the state leads to a live object, every reference count covers the references the state holds and those
    that running code holds (\<open>hp\<close>, \<open>hv\<close>, \<open>hc\<close>), and every export descriptor is in one place.  \<open>Hab_Msg_Safe\<close>,
    \<open>Hab_Api_Safe\<close>, \<open>Hab_Mimex_Safe\<close>, \<open>Hab_Linux_Safe\<close> show that messages of any content, the calls of clients
    and the ioctls keep it and do not fault; \<open>Hab_Guarantees\<close> states the results.  \<open>Hab_Serving\<close>, \<open>Hab_Tables\<close>
    and \<open>Hab_Vhost_Tx\<close> carry it over any sequence of messages of the guest.
  \<^item> \<^emph>\<open>Delivery\<close>: \<open>Hab_Delivery\<close> (what a send queues and a receive returns), \<open>Hab_User_Path\<close> (from the memory of
    one process to that of another), \<open>Hab_Vhost_Rx\<close> (the messages of the list reach the guest in order, once),
    \<open>Hab_Virtio_Facts\<close> (the guest's buffers carry what was sent in them), \<open>Hab_Rings\<close>, which composes both
    sides of the virtqueues with the driver core, and \<open>Hab_Loopback\<close> (the loopback thread).
  \<^item> \<^emph>\<open>Memory\<close>: \<open>Hab_Mem_Facts\<close> (what is imported is what was exported; no table of the peer makes the importer
    write outside its array), \<open>Hab_Export_Safe\<close> (what an export of process memory leaves in the new protocol),
    \<open>Hab_Import_Ack\<close> (what every descriptor the driver ever holds has in common: the regions of its table lie in
    its payload, and its size field is never set, so that the answer to an import request is useless).
  \<^item> \<^emph>\<open>Devices\<close>: \<open>Hab_Vhost_Own\<close> and \<open>Hab_Virtio_Own\<close> (who owns which channel, over any sequence of operations).
  \<^item> \<^emph>\<open>Reports\<close>: \<open>Hab_Stat_Facts\<close> (a report is cut to its buffer, and what making one does to a virtqueue).
  \<^item> \<^emph>\<open>Defects\<close>: \<open>Hab_Faults\<close> and single theorems of the other theories are runs of the model on which the code
    does not do what it means to.  \<open>Hab_Example\<close> has the states the concrete runs use.

  \<^bold>\<open>Interfaces.\<close>  \<open>wire_codec\<close> is interpreted for each structure of the wire, \<open>msg_transport\<close> for the transport of
  the driver core; the properties use the facts of these interpretations.

  \<^bold>\<open>Bounds and fuel.\<close>  Machine integers keep their width.  Loops are structural recursions; those over the
  answers of the vhost library end because each turn consumes one (\<open>rx_send_one_node_locked\<close>).  The listen loop has fuel,
  and one turn for each event of the schedule and one more is enough (\<open>backend_listen_terminates\<close>).  Sizes of
  structures are those of a 64-bit little-endian machine with pages of 4096 bytes.

  \<^bold>\<open>What the theorems do not say.\<close>  Reference counts are bounded from below: a leaked reference does not break
  the invariant.  Several threads are interleaved at the points where a thread sleeps, and in \<open>Hab_Import_Threads\<close>
  at each step of an import; there the exclusion is proved for runs in which no import fails on a channel of
  the new protocol, whose roll-back touches the descriptor outside the lock, protected by the handshake alone.  The safety of the ioctls leaves out open and export;
  it assumes, as the other theorems about messages do, that the finished exports of a channel are complete and
  belong to the context of its virtual channels (\<open>exports_ok\<close>); open is covered by the theorems on the front end and the back end, export of process memory in the new
  protocol by \<open>hab_mem_export_user\<close>.  The guest reads a received buffer through
  the iterator of its channel; \<open>virtio_read_refines\<close> justifies it for lengths that cover the header, and a shorter one
  is a fault.  Theorems about messages of the other side leave out stamped messages larger than a page, those
  about listening requests of another version, and that of an export failing allocations: there the code
  has defects (\<open>Hab_Faults\<close>).  Putting a dma-buf by a number that is none changes nothing here, where
  the kernel would follow the pointer: no theorem excludes that a kernel client's import carries an address
  the peer chose (\<open>context_puts_peer_address\<close>).  The kernel's lists, idr, kref, allocation and user memory behave as documented.

  \<^bold>\<open>Not modelled.\<close>  The trace events of \<^verbatim>\<open>hab_trace_os.h\<close> record state and do not change it; \<^verbatim>\<open>khab_test.c\<close>
  registers the sysfs files that print the reports; \<^verbatim>\<open>vhost.h\<close> and \<^verbatim>\<open>guest_shm.h\<close> declare interfaces of the kernel
  and of a device; the registration of the module and of character devices is calls of the kernel.  Of
  \<^verbatim>\<open>hab_virtio.c\<close>, \<^verbatim>\<open>habhyp_commdev_dealloc\<close> reads an object as one of another type, which has no meaning in a
  typed model.  The vhost and virtio libraries, the rebalancing of red-black trees and the device tree are
  arguments of the definitions that use them.
\<close>

end
